(* ===== verification/Prelude.thy ===== *)
theory Prelude
  imports Main "HOL-Library.Word"
begin

unbundle bit_operations_syntax

text \<open>
  Shared vocabulary of the development: machine integers, byte slices, the outcome of a fallible
  Rust function, the state-passing monad in which the effectful functions are written, and the
  generic lemmas on lists and words that the components use.
\<close>

section \<open>Machine integers and bytes\<close>

type_synonym u8 = "8 word"
type_synonym u16 = "16 word"
type_synonym u32 = "32 word"
type_synonym u64 = "64 word"

text \<open>A byte slice (\<open>&[u8]\<close>) or byte array (\<open>[u8; N]\<close>).\<close>

type_synonym bytes = "u8 list"

section \<open>Outcomes\<close>

text \<open>
  The outcome of a Rust call that returns \<open>Result<T, E>\<close>: \<open>Ok\<close>, \<open>Err\<close>, a panic (an index out of
  bounds, a failed assertion, an arithmetic overflow, an exhausted stack), or no return at all.
\<close>

datatype ('e, 'a) outcome = Ok 'a | Err 'e | Panic | Diverge

fun is_ok :: "('e, 'a) outcome \<Rightarrow> bool" where
  "is_ok (Ok _) = True"
| "is_ok _ = False"

fun map_err :: "('e \<Rightarrow> 'f) \<Rightarrow> ('e, 'a) outcome \<Rightarrow> ('f, 'a) outcome" where
  "map_err f (Ok x) = Ok x"
| "map_err f (Err e) = Err (f e)"
| "map_err f Panic = Panic"
| "map_err f Diverge = Diverge"

fun bindO :: "('e, 'a) outcome \<Rightarrow> ('a \<Rightarrow> ('e, 'b) outcome) \<Rightarrow> ('e, 'b) outcome" where
  "bindO (Ok x) f = f x"
| "bindO (Err e) f = Err e"
| "bindO Panic f = Panic"
| "bindO Diverge f = Diverge"

text \<open>\<open>opt.ok_or(e)\<close>.\<close>

definition ok_or :: "'a option \<Rightarrow> 'e \<Rightarrow> ('e, 'a) outcome" where
  "ok_or x e = (case x of None \<Rightarrow> Err e | Some a \<Rightarrow> Ok a)"

lemma ok_or_simps [simp]:
  "ok_or None e = Err e"
  "ok_or (Some a) e = Ok a"
  by (simp_all add: ok_or_def)

lemma bindO_Ok_iff: "bindO m f = Ok y \<longleftrightarrow> (\<exists>x. m = Ok x \<and> f x = Ok y)"
  by (cases m) auto

section \<open>State-passing actions\<close>

text \<open>
  An action takes the state it may mutate and returns its outcome with the new state. The state is
  returned on an error too: what the code wrote before the error stays written.
\<close>

type_synonym ('s, 'e, 'a) act = "'s \<Rightarrow> ('e, 'a) outcome \<times> 's"

definition ret :: "'a \<Rightarrow> ('s, 'e, 'a) act" where
  "ret x = (\<lambda>s. (Ok x, s))"

definition throw :: "'e \<Rightarrow> ('s, 'e, 'a) act" where
  "throw e = (\<lambda>s. (Err e, s))"

text \<open>The \<open>?\<close> operator and sequencing.\<close>

definition bind :: "('s, 'e, 'a) act \<Rightarrow> ('a \<Rightarrow> ('s, 'e, 'b) act) \<Rightarrow> ('s, 'e, 'b) act" where
  "bind m f = (\<lambda>s. case m s of
      (Ok x, s') \<Rightarrow> f x s'
    | (Err e, s') \<Rightarrow> (Err e, s')
    | (Panic, s') \<Rightarrow> (Panic, s')
    | (Diverge, s') \<Rightarrow> (Diverge, s'))"

text \<open>A pure fallible computation as an action.\<close>

definition lift :: "('e, 'a) outcome \<Rightarrow> ('s, 'e, 'a) act" where
  "lift r = (\<lambda>s. (r, s))"

definition gets :: "('s \<Rightarrow> 'a) \<Rightarrow> ('s, 'e, 'a) act" where
  "gets f = (\<lambda>s. (Ok (f s), s))"

definition modify :: "('s \<Rightarrow> 's) \<Rightarrow> ('s, 'e, unit) act" where
  "modify f = (\<lambda>s. (Ok (), f s))"

text \<open>An early return of an error under a condition.\<close>

definition guard_err :: "bool \<Rightarrow> 'e \<Rightarrow> ('s, 'e, unit) act" where
  "guard_err c e = (if c then throw e else ret ())"

named_theorems act_simps \<open>unfolding an action applied to a state\<close>

lemma ret_apply [simp, act_simps]: "ret x s = (Ok x, s)"
  by (simp add: ret_def)

lemma throw_apply [simp, act_simps]: "throw e s = (Err e, s)"
  by (simp add: throw_def)

lemma lift_apply [simp, act_simps]: "lift r s = (r, s)"
  by (simp add: lift_def)

lemma gets_apply [simp, act_simps]: "gets f s = (Ok (f s), s)"
  by (simp add: gets_def)

lemma modify_apply [simp, act_simps]: "modify f s = (Ok (), f s)"
  by (simp add: modify_def)

lemma guard_err_apply [simp, act_simps]:
  "guard_err c e s = (if c then (Err e, s) else (Ok (), s))"
  by (simp add: guard_err_def)

lemma bind_ret [simp]: "bind (ret x) f = f x"
  by (simp add: bind_def fun_eq_iff)

lemma bind_throw [simp]: "bind (throw e) f = throw e"
  by (simp add: bind_def fun_eq_iff)

lemma bind_lift [simp]:
  "bind (lift (Ok x)) f = f x"
  "bind (lift (Err e)) f = lift (Err e)"
  "bind (lift Panic) f = lift Panic"
  "bind (lift Diverge) f = lift Diverge"
  by (simp_all add: bind_def fun_eq_iff)

lemma bind_step [act_simps]:
  "m s = (Ok x, s') \<Longrightarrow> bind m f s = f x s'"
  "m s = (Err e, s') \<Longrightarrow> bind m f s = (Err e, s')"
  "m s = (Panic, s') \<Longrightarrow> bind m f s = (Panic, s')"
  "m s = (Diverge, s') \<Longrightarrow> bind m f s = (Diverge, s')"
  by (simp_all add: bind_def)

text \<open>The possible ways in which a sequence ends.\<close>

lemma bind_cases:
  assumes "bind m f s = (r, t)"
  obtains (ok) x s' where "m s = (Ok x, s')" "f x s' = (r, t)"
  | (err) e where "m s = (Err e, t)" "r = Err e"
  | (panic) "m s = (Panic, t)" "r = Panic"
  | (diverge) "m s = (Diverge, t)" "r = Diverge"
  using assms by (auto simp: bind_def split: prod.splits outcome.splits)

lemma bind_Ok_iff:
  "bind m f s = (Ok y, t) \<longleftrightarrow> (\<exists>x s'. m s = (Ok x, s') \<and> f x s' = (Ok y, t))"
  by (auto simp: bind_def split: prod.splits outcome.splits)

lemma bind_assoc: "bind (bind m f) g = bind m (\<lambda>x. bind (f x) g)"
  by (auto simp: bind_def fun_eq_iff split: prod.splits outcome.splits)

subsection \<open>Frame reasoning\<close>

text \<open>
  \<open>keeps P m\<close>: whatever its outcome, \<open>m\<close> leaves every observation \<open>P\<close> of the state as it was. The
  rules follow the structure of an action, so a frame property of a handler is one \<open>intro\<close>.
\<close>

definition keeps :: "('s \<Rightarrow> 'x) \<Rightarrow> ('s, 'e, 'a) act \<Rightarrow> bool" where
  "keeps P m \<longleftrightarrow> (\<forall>s. P (snd (m s)) = P s)"

named_theorems keeps_intros \<open>structural rules for keeps\<close>

lemma keepsD: "keeps P m \<Longrightarrow> m s = (r, t) \<Longrightarrow> P t = P s"
  unfolding keeps_def by (metis snd_conv)

lemma keepsI: "(\<And>s r t. m s = (r, t) \<Longrightarrow> P t = P s) \<Longrightarrow> keeps P m"
  unfolding keeps_def by (metis prod.collapse)

lemma keeps_ret [keeps_intros]: "keeps P (ret x)"
  by (simp add: keeps_def)

lemma keeps_throw [keeps_intros]: "keeps P (throw e)"
  by (simp add: keeps_def)

lemma keeps_lift [keeps_intros]: "keeps P (lift r)"
  by (simp add: keeps_def)

lemma keeps_gets [keeps_intros]: "keeps P (gets f)"
  by (simp add: keeps_def)

lemma keeps_guard [keeps_intros]: "keeps P (guard_err c e)"
  by (simp add: keeps_def)

lemma keeps_bind [keeps_intros]:
  "keeps P m \<Longrightarrow> (\<And>x. keeps P (f x)) \<Longrightarrow> keeps P (bind m f)"
  by (auto simp: keeps_def bind_def split: prod.splits outcome.splits) (metis snd_conv)+

lemma keeps_if [keeps_intros]:
  "(c \<Longrightarrow> keeps P m) \<Longrightarrow> (\<not> c \<Longrightarrow> keeps P n) \<Longrightarrow> keeps P (if c then m else n)"
  by simp

section \<open>Slices\<close>

text \<open>\<open>slice.get(i)\<close>, \<open>slice.get(a..b)\<close> and \<open>slice.get(..n)\<close>.\<close>

definition get_at :: "'a list \<Rightarrow> nat \<Rightarrow> 'a option" where
  "get_at xs i = (if i < length xs then Some (xs ! i) else None)"

definition get_range :: "'a list \<Rightarrow> nat \<Rightarrow> nat \<Rightarrow> 'a list option" where
  "get_range xs a b = (if a \<le> b \<and> b \<le> length xs then Some (take (b - a) (drop a xs)) else None)"

lemma get_at_Some [simp]: "i < length xs \<Longrightarrow> get_at xs i = Some (xs ! i)"
  by (simp add: get_at_def)

lemma get_at_eq_Some_iff: "get_at xs i = Some x \<longleftrightarrow> i < length xs \<and> xs ! i = x"
  by (auto simp: get_at_def)

lemma get_at_eq_None_iff: "get_at xs i = None \<longleftrightarrow> length xs \<le> i"
  by (auto simp: get_at_def)

text \<open>Overwriting a range of a buffer (\<open>copy_from_slice\<close> into \<open>buf[off..off + n]\<close>).\<close>

definition splice :: "'a list \<Rightarrow> nat \<Rightarrow> 'a list \<Rightarrow> 'a list" where
  "splice buf off bs = take off buf @ bs @ drop (off + length bs) buf"

lemma length_splice [simp]:
  "off + length bs \<le> length buf \<Longrightarrow> length (splice buf off bs) = length buf"
  by (simp add: splice_def)

lemma splice_read_back:
  "off + length bs \<le> length buf \<Longrightarrow> take (length bs) (drop off (splice buf off bs)) = bs"
  by (simp add: splice_def)

lemma splice_Nil [simp]: "splice buf off [] = buf"
  by (simp add: splice_def)

lemma splice_append:
  assumes "off + length a + length b \<le> length buf"
  shows "splice (splice buf off a) (off + length a) b = splice buf off (a @ b)"
proof (cases "a = [] \<and> b = []")
  case False
  with assms have "off < length buf" by (cases a; cases b) auto
  with assms show ?thesis by (simp add: splice_def ac_simps)
qed simp

lemma splice_whole: "length bs = length buf \<Longrightarrow> splice buf 0 bs = bs"
  by (simp add: splice_def)

section \<open>Little-endian and big-endian integers\<close>

definition u16_to_le_bytes :: "u16 \<Rightarrow> bytes" where
  "u16_to_le_bytes w = [ucast w, ucast (drop_bit 8 w)]"

definition u32_to_le_bytes :: "u32 \<Rightarrow> bytes" where
  "u32_to_le_bytes w = [ucast w, ucast (drop_bit 8 w), ucast (drop_bit 16 w), ucast (drop_bit 24 w)]"

definition u32_to_be_bytes :: "u32 \<Rightarrow> bytes" where
  "u32_to_be_bytes w = rev (u32_to_le_bytes w)"

definition u64_to_le_bytes :: "u64 \<Rightarrow> bytes" where
  "u64_to_le_bytes w = map (\<lambda>i. ucast (drop_bit (8 * i) w)) [0..<8]"

definition u64_to_be_bytes :: "u64 \<Rightarrow> bytes" where
  "u64_to_be_bytes w = rev (u64_to_le_bytes w)"

fun u32_from_le_bytes :: "bytes \<Rightarrow> u32" where
  "u32_from_le_bytes [a, b, c, d] =
     ucast a OR push_bit 8 (ucast b) OR push_bit 16 (ucast c) OR push_bit 24 (ucast d)"
| "u32_from_le_bytes _ = 0"

fun u16_from_le_bytes :: "bytes \<Rightarrow> u16" where
  "u16_from_le_bytes [a, b] = ucast a OR push_bit 8 (ucast b)"
| "u16_from_le_bytes _ = 0"

lemma length_to_bytes [simp]:
  "length (u16_to_le_bytes v) = 2"
  "length (u32_to_le_bytes w) = 4"
  "length (u32_to_be_bytes w) = 4"
  "length (u64_to_le_bytes x) = 8"
  "length (u64_to_be_bytes x) = 8"
  by (simp_all add: u16_to_le_bytes_def u32_to_le_bytes_def u32_to_be_bytes_def
      u64_to_le_bytes_def u64_to_be_bytes_def)

lemma u32_le_roundtrip [simp]: "u32_from_le_bytes (u32_to_le_bytes w) = w"
proof (rule bit_eqI)
  fix n :: nat
  assume "possible_bit TYPE(u32) n"
  then have n: "n < 32" by simp
  consider "n < 8" | "8 \<le> n" "n < 16" | "16 \<le> n" "n < 24" | "24 \<le> n" "n < 32"
    using n by linarith
  then show "bit (u32_from_le_bytes (u32_to_le_bytes w)) n = bit w n"
    using n by cases
      (auto simp: u32_to_le_bytes_def bit_or_iff bit_push_bit_iff bit_ucast_iff bit_drop_bit_eq
        dest: bit_imp_le_length)
qed

lemma u16_le_roundtrip [simp]: "u16_from_le_bytes (u16_to_le_bytes w) = w"
proof (rule bit_eqI)
  fix n :: nat
  assume "possible_bit TYPE(u16) n"
  then have n: "n < 16" by simp
  consider "n < 8" | "8 \<le> n" "n < 16" using n by linarith
  then show "bit (u16_from_le_bytes (u16_to_le_bytes w)) n = bit w n"
    using n by cases
      (auto simp: u16_to_le_bytes_def bit_or_iff bit_push_bit_iff bit_ucast_iff bit_drop_bit_eq
        dest: bit_imp_le_length)
qed

lemma u32_to_le_bytes_inject [simp]: "u32_to_le_bytes v = u32_to_le_bytes w \<longleftrightarrow> v = w"
  by (metis u32_le_roundtrip)

section \<open>Small list facts\<close>

lemma find_Some_nth:
  "List.find P xs = Some x \<Longrightarrow> \<exists>i < length xs. xs ! i = x \<and> P x \<and> (\<forall>j < i. \<not> P (xs ! j))"
  by (auto simp: find_Some_iff)

lemma list_update_preserves_all:
  "(\<forall>x \<in> set xs. P x) \<Longrightarrow> P y \<Longrightarrow> \<forall>x \<in> set (xs[i := y]). P x"
  using set_update_subset_insert [of xs i y] by auto

text \<open>The first index at which a predicate holds (\<open>Iterator::position\<close>).\<close>

fun position_from :: "nat \<Rightarrow> ('a \<Rightarrow> bool) \<Rightarrow> 'a list \<Rightarrow> nat option" where
  "position_from n P [] = None"
| "position_from n P (x # xs) = (if P x then Some n else position_from (Suc n) P xs)"

definition position :: "('a \<Rightarrow> bool) \<Rightarrow> 'a list \<Rightarrow> nat option" where
  "position P xs = position_from 0 P xs"

lemma position_from_Some:
  "position_from n P xs = Some i \<longleftrightarrow>
     n \<le> i \<and> i - n < length xs \<and> P (xs ! (i - n)) \<and> (\<forall>j < i - n. \<not> P (xs ! j))"
proof (induction xs arbitrary: n)
  case Nil
  then show ?case by simp
next
  case (Cons x xs)
  show ?case
  proof (cases "P x")
    case True
    then show ?thesis
      by (auto simp: nth_Cons' split: if_splits)
  next
    case False
    have "position_from n P (x # xs) = Some i \<longleftrightarrow> position_from (Suc n) P xs = Some i"
      using False by simp
    also have "\<dots> \<longleftrightarrow> Suc n \<le> i \<and> i - Suc n < length xs \<and> P (xs ! (i - Suc n)) \<and>
        (\<forall>j < i - Suc n. \<not> P (xs ! j))"
      by (rule Cons.IH)
    also have "\<dots> \<longleftrightarrow> n \<le> i \<and> i - n < length (x # xs) \<and> P ((x # xs) ! (i - n)) \<and>
        (\<forall>j < i - n. \<not> P ((x # xs) ! j))"
    proof (cases "Suc n \<le> i")
      case True
      then obtain k where k: "i = Suc (n + k)" by (metis add_Suc le_Suc_ex)
      show ?thesis
        using False by (auto simp: k All_less_Suc2)
    next
      case False2: False
      then show ?thesis using False by (cases "n = i") auto
    qed
    finally show ?thesis .
  qed
qed

lemma position_Some:
  "position P xs = Some i \<longleftrightarrow> i < length xs \<and> P (xs ! i) \<and> (\<forall>j < i. \<not> P (xs ! j))"
  by (simp add: position_def position_from_Some)

lemma position_None: "position P xs = None \<longleftrightarrow> (\<forall>x \<in> set xs. \<not> P x)"
proof -
  have "position_from n P xs = None \<longleftrightarrow> (\<forall>x \<in> set xs. \<not> P x)" for n
    by (induction xs arbitrary: n) auto
  then show ?thesis by (simp add: position_def)
qed

end
