(* ===== verification/Errors.thy ===== *)
theory Errors
  imports Prelude
begin

text \<open>
  The error types: \<open>CryptoError\<close> (crypto/src/lib.rs), \<open>PlatformError\<close> (platform/src/lib.rs),
  \<open>ValidationError\<close> (dpe/src/validation.rs), \<open>InternalErrorCode\<close> and \<open>DpeErrorCode\<close>
  (dpe/src/error.rs), with their discriminants, the status word \<open>get_error_code\<close> that a response
  header carries, and their messages.
\<close>

section \<open>Decimal output\<close>

fun nat_decimal :: "nat \<Rightarrow> string" where
  "nat_decimal n =
     (if n < 10 then [char_of (48 + n)] else nat_decimal (n div 10) @ [char_of (48 + n mod 10)])"

declare nat_decimal.simps [simp del]

definition show_code :: "u32 \<Rightarrow> string" where
  "show_code code = '' (code: '' @ nat_decimal (unat code) @ '')''"

section \<open>Crypto errors\<close>

datatype CryptoError =
    AbstractionLayer u32
  | CryptoLibError u32
  | CryptoSize
  | CryptoNotImplemented
  | HashError u32
  | InvalidExportedCdiHandle
  | ExportedCdiHandleDuplicateCdi
  | ExportedCdiHandleLimitExceeded
  | MismatchedAlgorithm

primrec crypto_discriminant :: "CryptoError \<Rightarrow> u16" where
  "crypto_discriminant (AbstractionLayer _) = 1"
| "crypto_discriminant (CryptoLibError _) = 2"
| "crypto_discriminant CryptoSize = 3"
| "crypto_discriminant CryptoNotImplemented = 4"
| "crypto_discriminant (HashError _) = 5"
| "crypto_discriminant InvalidExportedCdiHandle = 6"
| "crypto_discriminant ExportedCdiHandleDuplicateCdi = 7"
| "crypto_discriminant ExportedCdiHandleLimitExceeded = 8"
| "crypto_discriminant MismatchedAlgorithm = 9"

fun crypto_error_detail :: "CryptoError \<Rightarrow> u32 option" where
  "crypto_error_detail (AbstractionLayer code) = Some code"
| "crypto_error_detail (CryptoLibError code) = Some code"
| "crypto_error_detail (HashError code) = Some code"
| "crypto_error_detail _ = None"

primrec crypto_fmt :: "CryptoError \<Rightarrow> string" where
  "crypto_fmt (AbstractionLayer code) = ''abstraction layer error'' @ show_code code"
| "crypto_fmt (CryptoLibError code) = ''crypto library error'' @ show_code code"
| "crypto_fmt CryptoSize = ''size error''"
| "crypto_fmt CryptoNotImplemented = ''not implemented''"
| "crypto_fmt (HashError code) = ''hash error'' @ show_code code"
| "crypto_fmt InvalidExportedCdiHandle = ''invalid exported CDI handle''"
| "crypto_fmt ExportedCdiHandleDuplicateCdi = ''exported CDI handle duplicate CDI''"
| "crypto_fmt ExportedCdiHandleLimitExceeded = ''exported CDI handle limit exceeded''"
| "crypto_fmt MismatchedAlgorithm = ''mismatched algorithm''"

section \<open>Platform errors\<close>

datatype PlatformError =
    CertificateChainError
  | PlatformNotImplemented
  | IssuerNameError u32
  | PrintError u32
  | SerialNumberError u32
  | SubjectKeyIdentifierError u32
  | CertValidityError u32
  | IssuerKeyIdentifierError u32
  | SubjectAlternativeNameError u32
  | MissingUeidError
  | InvalidUeidError

primrec platform_discriminant :: "PlatformError \<Rightarrow> u16" where
  "platform_discriminant CertificateChainError = 1"
| "platform_discriminant PlatformNotImplemented = 2"
| "platform_discriminant (IssuerNameError _) = 3"
| "platform_discriminant (PrintError _) = 4"
| "platform_discriminant (SerialNumberError _) = 5"
| "platform_discriminant (SubjectKeyIdentifierError _) = 6"
| "platform_discriminant (CertValidityError _) = 7"
| "platform_discriminant (IssuerKeyIdentifierError _) = 8"
| "platform_discriminant (SubjectAlternativeNameError _) = 9"
| "platform_discriminant MissingUeidError = 10"
| "platform_discriminant InvalidUeidError = 11"

primrec platform_error_detail :: "PlatformError \<Rightarrow> u32 option" where
  "platform_error_detail CertificateChainError = None"
| "platform_error_detail PlatformNotImplemented = None"
| "platform_error_detail MissingUeidError = None"
| "platform_error_detail InvalidUeidError = None"
| "platform_error_detail (IssuerNameError code) = Some code"
| "platform_error_detail (PrintError code) = Some code"
| "platform_error_detail (SerialNumberError code) = Some code"
| "platform_error_detail (SubjectKeyIdentifierError code) = Some code"
| "platform_error_detail (CertValidityError code) = Some code"
| "platform_error_detail (IssuerKeyIdentifierError code) = Some code"
| "platform_error_detail (SubjectAlternativeNameError code) = Some code"

primrec platform_fmt :: "PlatformError \<Rightarrow> string" where
  "platform_fmt CertificateChainError = ''certificate chain error''"
| "platform_fmt PlatformNotImplemented = ''not implemented''"
| "platform_fmt MissingUeidError = ''missing ueid''"
| "platform_fmt InvalidUeidError = ''invalid ueid''"
| "platform_fmt (IssuerNameError code) = ''issuer name error'' @ show_code code"
| "platform_fmt (PrintError code) = ''print error'' @ show_code code"
| "platform_fmt (SerialNumberError code) = ''serial number error'' @ show_code code"
| "platform_fmt (SubjectKeyIdentifierError code) = ''subject key identifier error'' @ show_code code"
| "platform_fmt (CertValidityError code) = ''cert validity error'' @ show_code code"
| "platform_fmt (IssuerKeyIdentifierError code) = ''issuer key identifier error'' @ show_code code"
| "platform_fmt (SubjectAlternativeNameError code) =
     ''subject alternative name error'' @ show_code code"

section \<open>Internal errors\<close>

datatype InternalErrorCode =
    DeriveCtxRespSliceOob
  | CertifyKeyCertSliceOob
  | CertifyKeyP256RespSliceOob
  | CertifyKeyP384RespSliceOob
  | CertifyKeyMldsa87RespSliceOob
  | Asn1SizeOverflow
  | EmptyTciNodes
  | EncodeBytesOverflow
  | EncodeBytesSliceOob
  | EncodeByteOverflow
  | IntegerOffsetOob
  | TbsSliceOob
  | CsrTbsSliceOob
  | CmsCsrRangeOob
  | TcbCountOverflow
  | KeyIdHashTooSmall
  | SerialNumberSliceOob
  | CertSizeOverflow
  | CsrSizeOverflow
  | IssuerNameTooLong
  | MissingExportedCdiHandle
  | HandleGenerationExhausted
  | DigestLengthMismatch
  | InputInfoProfileSliceOob
  | InputInfoRemainderSliceOob
  | CertChainChunkSliceOob
  | ChildIndexOob
  | ChildrenBitmapIndexOob
  | ParentChainIndexOob
  | ContextIndexOob
  | ActiveContextNotFound
  | DescendantIndexOob
  | TciNodeArrayOverflow
  | TciNodeCountExceeded
  | DestroyParentIndexOob
  | InitContextIndexOob
  | ResponseDeserializationFailed

text \<open>\<open>InternalErrorCode::discriminant\<close>: the \<open>repr(u16)\<close> value.\<close>

primrec internal_discriminant :: "InternalErrorCode \<Rightarrow> u16" where
  "internal_discriminant DeriveCtxRespSliceOob = 1"
| "internal_discriminant CertifyKeyCertSliceOob = 2"
| "internal_discriminant CertifyKeyP256RespSliceOob = 3"
| "internal_discriminant CertifyKeyP384RespSliceOob = 4"
| "internal_discriminant CertifyKeyMldsa87RespSliceOob = 5"
| "internal_discriminant Asn1SizeOverflow = 6"
| "internal_discriminant EmptyTciNodes = 7"
| "internal_discriminant EncodeBytesOverflow = 8"
| "internal_discriminant EncodeBytesSliceOob = 9"
| "internal_discriminant EncodeByteOverflow = 10"
| "internal_discriminant IntegerOffsetOob = 11"
| "internal_discriminant TbsSliceOob = 12"
| "internal_discriminant CsrTbsSliceOob = 13"
| "internal_discriminant CmsCsrRangeOob = 14"
| "internal_discriminant TcbCountOverflow = 15"
| "internal_discriminant KeyIdHashTooSmall = 16"
| "internal_discriminant SerialNumberSliceOob = 17"
| "internal_discriminant CertSizeOverflow = 18"
| "internal_discriminant CsrSizeOverflow = 19"
| "internal_discriminant IssuerNameTooLong = 20"
| "internal_discriminant MissingExportedCdiHandle = 21"
| "internal_discriminant HandleGenerationExhausted = 22"
| "internal_discriminant DigestLengthMismatch = 23"
| "internal_discriminant InputInfoProfileSliceOob = 24"
| "internal_discriminant InputInfoRemainderSliceOob = 25"
| "internal_discriminant CertChainChunkSliceOob = 26"
| "internal_discriminant ChildIndexOob = 27"
| "internal_discriminant ChildrenBitmapIndexOob = 28"
| "internal_discriminant ParentChainIndexOob = 29"
| "internal_discriminant ContextIndexOob = 30"
| "internal_discriminant ActiveContextNotFound = 31"
| "internal_discriminant DescendantIndexOob = 32"
| "internal_discriminant TciNodeArrayOverflow = 33"
| "internal_discriminant TciNodeCountExceeded = 34"
| "internal_discriminant DestroyParentIndexOob = 35"
| "internal_discriminant InitContextIndexOob = 36"
| "internal_discriminant ResponseDeserializationFailed = 37"

primrec internal_fmt :: "InternalErrorCode \<Rightarrow> string" where
  "internal_fmt DeriveCtxRespSliceOob = ''derive context response slice out of bounds''"
| "internal_fmt CertifyKeyCertSliceOob = ''certify key certificate slice out of bounds''"
| "internal_fmt CertifyKeyP256RespSliceOob = ''certify key P256 response slice out of bounds''"
| "internal_fmt CertifyKeyP384RespSliceOob = ''certify key P384 response slice out of bounds''"
| "internal_fmt CertifyKeyMldsa87RespSliceOob = ''certify key ML-DSA-87 response slice out of bounds''"
| "internal_fmt Asn1SizeOverflow = ''ASN.1 size exceeds maximum representable value''"
| "internal_fmt EmptyTciNodes = ''TCI nodes slice is unexpectedly empty''"
| "internal_fmt EncodeBytesOverflow = ''encode_bytes: write would exceed certificate buffer''"
| "internal_fmt EncodeBytesSliceOob = ''encode_bytes: certificate buffer slice out of bounds''"
| "internal_fmt EncodeByteOverflow = ''encode_byte: write offset past end of certificate buffer''"
| "internal_fmt IntegerOffsetOob = ''integer encoding offset out of bounds''"
| "internal_fmt TbsSliceOob = ''TBS data slice out of bounds''"
| "internal_fmt CsrTbsSliceOob = ''CSR certification request info slice out of bounds''"
| "internal_fmt CmsCsrRangeOob = ''CMS CSR range slice out of bounds''"
| "internal_fmt TcbCountOverflow = ''TCB node count exceeds MAX_HANDLES''"
| "internal_fmt KeyIdHashTooSmall = ''hashed public key too small for key identifier''"
| "internal_fmt SerialNumberSliceOob = ''serial number slice out of bounds''"
| "internal_fmt CertSizeOverflow = ''certificate size exceeds u32''"
| "internal_fmt CsrSizeOverflow = ''CSR size exceeds u32''"
| "internal_fmt IssuerNameTooLong = ''issuer name length exceeds maximum''"
| "internal_fmt MissingExportedCdiHandle = ''exported CDI handle is unexpectedly missing''"
| "internal_fmt HandleGenerationExhausted = ''no unique handle found after max attempts''"
| "internal_fmt DigestLengthMismatch = ''hash digest length does not match TCI buffer''"
| "internal_fmt InputInfoProfileSliceOob = ''internal input info profile slice out of bounds''"
| "internal_fmt InputInfoRemainderSliceOob = ''internal input info remainder slice out of bounds''"
| "internal_fmt CertChainChunkSliceOob = ''cert chain chunk slice out of bounds''"
| "internal_fmt ChildIndexOob = ''child index exceeds MAX_HANDLES''"
| "internal_fmt ChildrenBitmapIndexOob = ''children bitmap index exceeds MAX_HANDLES''"
| "internal_fmt ParentChainIndexOob = ''parent chain iterator index out of bounds''"
| "internal_fmt ContextIndexOob = ''context index out of bounds''"
| "internal_fmt ActiveContextNotFound = ''no matching active context found''"
| "internal_fmt DescendantIndexOob = ''descendant index out of bounds''"
| "internal_fmt TciNodeArrayOverflow = ''TCI node output array overflow''"
| "internal_fmt TciNodeCountExceeded = ''TCI node count exceeds array length''"
| "internal_fmt DestroyParentIndexOob = ''parent index out of bounds during context destruction''"
| "internal_fmt InitContextIndexOob = ''context index out of bounds during initialization''"
| "internal_fmt ResponseDeserializationFailed = ''response deserialization from bytes failed''"

section \<open>Validation errors\<close>

datatype ValidationError =
    MultipleNormalConnectedComponents
  | CyclesInTree
  | InactiveContextInvalidParent
  | InactiveContextWithChildren
  | BadContextState
  | BadContextType
  | InactiveContextWithMeasurement
  | MixedContextLocality
  | MultipleDefaultContexts
  | SimulationNotSupported
  | ParentDoesNotExist
  | InternalDiceNotSupported
  | InternalInfoNotSupported
  | ChildDoesNotExist
  | InactiveContextWithFlagSet
  | LocalityMismatch
  | DanglingRetiredContext
  | MixedContextTypeConnectedComponents
  | ChildWithMultipleParents
  | ParentChildLinksCorrupted
  | AllowCaNotSupported
  | AllowX509NotSupported
  | InactiveParent
  | InactiveChild
  | DpeNotMarkedInitialized
  | InvalidMarker
  | VersionMismatch

primrec validation_discriminant :: "ValidationError \<Rightarrow> u16" where
  "validation_discriminant MultipleNormalConnectedComponents = 0"
| "validation_discriminant CyclesInTree = 1"
| "validation_discriminant InactiveContextInvalidParent = 2"
| "validation_discriminant InactiveContextWithChildren = 3"
| "validation_discriminant BadContextState = 4"
| "validation_discriminant BadContextType = 5"
| "validation_discriminant InactiveContextWithMeasurement = 6"
| "validation_discriminant MixedContextLocality = 7"
| "validation_discriminant MultipleDefaultContexts = 8"
| "validation_discriminant SimulationNotSupported = 9"
| "validation_discriminant ParentDoesNotExist = 10"
| "validation_discriminant InternalDiceNotSupported = 11"
| "validation_discriminant InternalInfoNotSupported = 12"
| "validation_discriminant ChildDoesNotExist = 13"
| "validation_discriminant InactiveContextWithFlagSet = 14"
| "validation_discriminant LocalityMismatch = 15"
| "validation_discriminant DanglingRetiredContext = 16"
| "validation_discriminant MixedContextTypeConnectedComponents = 17"
| "validation_discriminant ChildWithMultipleParents = 18"
| "validation_discriminant ParentChildLinksCorrupted = 19"
| "validation_discriminant AllowCaNotSupported = 20"
| "validation_discriminant AllowX509NotSupported = 21"
| "validation_discriminant InactiveParent = 22"
| "validation_discriminant InactiveChild = 23"
| "validation_discriminant DpeNotMarkedInitialized = 24"
| "validation_discriminant InvalidMarker = 25"
| "validation_discriminant VersionMismatch = 26"

primrec validation_fmt :: "ValidationError \<Rightarrow> string" where
  "validation_fmt MultipleNormalConnectedComponents = ''multiple normal connected components''"
| "validation_fmt CyclesInTree = ''cycles in tree''"
| "validation_fmt InactiveContextInvalidParent = ''inactive context has invalid parent''"
| "validation_fmt InactiveContextWithChildren = ''inactive context has children''"
| "validation_fmt BadContextState = ''bad context state''"
| "validation_fmt BadContextType = ''bad context type''"
| "validation_fmt InactiveContextWithMeasurement = ''inactive context has measurement''"
| "validation_fmt MixedContextLocality = ''mixed context locality''"
| "validation_fmt MultipleDefaultContexts = ''multiple default contexts''"
| "validation_fmt SimulationNotSupported = ''simulation not supported''"
| "validation_fmt ParentDoesNotExist = ''parent does not exist''"
| "validation_fmt InternalDiceNotSupported = ''internal DICE not supported''"
| "validation_fmt InternalInfoNotSupported = ''internal info not supported''"
| "validation_fmt ChildDoesNotExist = ''child does not exist''"
| "validation_fmt InactiveContextWithFlagSet = ''inactive context with flag set''"
| "validation_fmt LocalityMismatch = ''locality mismatch''"
| "validation_fmt DanglingRetiredContext = ''dangling retired context''"
| "validation_fmt MixedContextTypeConnectedComponents = ''mixed context type connected components''"
| "validation_fmt ChildWithMultipleParents = ''child with multiple parents''"
| "validation_fmt ParentChildLinksCorrupted = ''parent-child links corrupted''"
| "validation_fmt AllowCaNotSupported = ''allow CA not supported''"
| "validation_fmt AllowX509NotSupported = ''allow X.509 not supported''"
| "validation_fmt InactiveParent = ''inactive parent''"
| "validation_fmt InactiveChild = ''inactive child''"
| "validation_fmt DpeNotMarkedInitialized = ''DPE not marked initialized''"
| "validation_fmt InvalidMarker = ''invalid marker''"
| "validation_fmt VersionMismatch = ''version mismatch''"

section \<open>DPE error codes\<close>

datatype DpeErrorCode =
    NoError
  | InternalError InternalErrorCode
  | InvalidCommand
  | InvalidArgument
  | SessionExhausted
  | InitializationSeedLocked
  | OutOfMemory
  | CancelledCommand
  | InvalidHandle
  | InvalidLocality
  | HandleDefined
  | ArgumentNotSupported
  | AlreadyInitialized
  | InvalidParentLocality
  | X509CsrUnset
  | X509InvalidState
  | X509SkipsExhausted
  | X509InvalidWidth
  | X509AlgorithmMismatch
  | MaxTcis
  | InvalidMutRefBuf
  | InvalidResponseBuf
  | UninitializedResponseHeader
  | Platform PlatformError
  | Crypto CryptoError
  | Validation ValidationError

primrec dpe_discriminant :: "DpeErrorCode \<Rightarrow> u32" where
  "dpe_discriminant NoError = 0"
| "dpe_discriminant (InternalError e) = 1"
| "dpe_discriminant InvalidCommand = 2"
| "dpe_discriminant InvalidArgument = 3"
| "dpe_discriminant SessionExhausted = 4"
| "dpe_discriminant InitializationSeedLocked = 5"
| "dpe_discriminant OutOfMemory = 6"
| "dpe_discriminant CancelledCommand = 7"
| "dpe_discriminant InvalidHandle = 128"
| "dpe_discriminant InvalidLocality = 129"
| "dpe_discriminant HandleDefined = 130"
| "dpe_discriminant ArgumentNotSupported = 131"
| "dpe_discriminant AlreadyInitialized = 132"
| "dpe_discriminant InvalidParentLocality = 133"
| "dpe_discriminant X509CsrUnset = 134"
| "dpe_discriminant X509InvalidState = 135"
| "dpe_discriminant X509SkipsExhausted = 136"
| "dpe_discriminant X509InvalidWidth = 137"
| "dpe_discriminant X509AlgorithmMismatch = 144"
| "dpe_discriminant MaxTcis = 145"
| "dpe_discriminant InvalidMutRefBuf = 146"
| "dpe_discriminant InvalidResponseBuf = 147"
| "dpe_discriminant UninitializedResponseHeader = 148"
| "dpe_discriminant (Platform e) = 16777216"
| "dpe_discriminant (Crypto e) = 33554432"
| "dpe_discriminant (Validation e) = 50331648"

primrec dpe_fmt :: "DpeErrorCode \<Rightarrow> string" where
  "dpe_fmt (InternalError code) = internal_fmt code"
| "dpe_fmt NoError = ''no error''"
| "dpe_fmt InvalidCommand = ''invalid command''"
| "dpe_fmt InvalidArgument = ''invalid argument''"
| "dpe_fmt SessionExhausted = ''session exhausted''"
| "dpe_fmt InitializationSeedLocked = ''initialization seed locked''"
| "dpe_fmt OutOfMemory = ''out of memory''"
| "dpe_fmt CancelledCommand = ''cancelled command''"
| "dpe_fmt HandleDefined = ''handle already defined''"
| "dpe_fmt AlreadyInitialized = ''already initialized''"
| "dpe_fmt ArgumentNotSupported = ''argument not supported''"
| "dpe_fmt X509CsrUnset = ''x509 CSR unset''"
| "dpe_fmt X509InvalidState = ''x509 invalid state''"
| "dpe_fmt X509SkipsExhausted = ''x509 skips exhausted''"
| "dpe_fmt X509InvalidWidth = ''x509 invalid width''"
| "dpe_fmt X509AlgorithmMismatch = ''x509 algorithm mismatch''"
| "dpe_fmt InvalidHandle = ''invalid handle''"
| "dpe_fmt InvalidLocality = ''invalid locality''"
| "dpe_fmt MaxTcis = ''max TCIs reached''"
| "dpe_fmt InvalidMutRefBuf = ''invalid mutable reference buffer''"
| "dpe_fmt InvalidResponseBuf = ''invalid response buffer''"
| "dpe_fmt UninitializedResponseHeader = ''uninitialized response header''"
| "dpe_fmt InvalidParentLocality = ''invalid parent locality''"
| "dpe_fmt (Platform e) = ''platform error: '' @ platform_fmt e"
| "dpe_fmt (Crypto e) = ''crypto error: '' @ crypto_fmt e"
| "dpe_fmt (Validation e) = ''validation error: '' @ validation_fmt e"

text \<open>
  \<open>get_error_code\<close>: the 32-bit status word. The code of an internal error is not part of it; the
  three wrapped error families are told apart by the top byte.
\<close>

fun get_error_code :: "DpeErrorCode \<Rightarrow> u32" where
  "get_error_code (Platform e) = dpe_discriminant (Platform e) OR ucast (platform_discriminant e)"
| "get_error_code (Crypto e) = dpe_discriminant (Crypto e) OR ucast (crypto_discriminant e)"
| "get_error_code (Validation e) =
     dpe_discriminant (Validation e) OR ucast (validation_discriminant e)"
| "get_error_code e = dpe_discriminant e"

section \<open>Facts\<close>

lemma get_error_code_NoError [simp]: "get_error_code NoError = 0"
  by simp

lemma get_error_code_zero_iff: "get_error_code e = 0 \<longleftrightarrow> e = NoError"
proof (cases e)
  case (Platform x)
  then show ?thesis by (cases x) simp_all
next
  case (Crypto x)
  then show ?thesis by (cases x) simp_all
next
  case (Validation x)
  then show ?thesis by (cases x) simp_all
qed simp_all

end
