(* ===== verification/Profile.thy ===== *)
theory Profile
  imports Errors
begin

text \<open>
  Crate-level constants and types of dpe/src/lib.rs, the optional-feature word of
  dpe/src/support.rs and the algorithm descriptors of the crypto crate. The build modelled has the
  profile features p256, p384 and ml-dsa and none of the \<open>disable_*\<close> features, with the default
  \<open>MAX_HANDLES\<close> of dpe/build.rs.
\<close>

section \<open>Constants\<close>

definition MAX_HANDLES :: nat where
  "MAX_HANDLES = 64"

definition TCI_SIZE :: nat where
  "TCI_SIZE = 48"

definition CURRENT_PROFILE_MAJOR_VERSION :: u16 where
  "CURRENT_PROFILE_MAJOR_VERSION = 0"

definition CURRENT_PROFILE_MINOR_VERSION :: u16 where
  "CURRENT_PROFILE_MINOR_VERSION = 13"

definition MAX_EXPORTED_CDI_SIZE :: nat where
  "MAX_EXPORTED_CDI_SIZE = 32"

text \<open>
  \<open>max_cert_size\<close> of dpe/build.rs: a base plus a part per handle, by profile feature (ml-dsa first),
  rounded up to a multiple of 4.
\<close>

definition next_multiple_of :: "nat \<Rightarrow> nat \<Rightarrow> nat" where
  "next_multiple_of n k = (if n mod k = 0 then n else n + (k - n mod k))"

definition build_max_cert_size :: "bool \<Rightarrow> bool \<Rightarrow> nat \<Rightarrow> nat" where
  "build_max_cert_size is_ml_dsa is_p256 max_handles =
     (let (base, per_handle) =
        (if is_ml_dsa then (12307, 158) else if is_p256 then (643, 126) else (756, 159))
      in next_multiple_of (base + per_handle * max_handles) 4)"

definition MAX_CERT_SIZE :: nat where
  "MAX_CERT_SIZE = build_max_cert_size True True MAX_HANDLES"

lemma MAX_HANDLES_eq [simp]: "MAX_HANDLES = 64"
  by (simp add: MAX_HANDLES_def)

lemma TCI_SIZE_eq [simp]: "TCI_SIZE = 48"
  by (simp add: TCI_SIZE_def)

lemma MAX_CERT_SIZE_eq: "MAX_CERT_SIZE = 22420"
  by (simp add: MAX_CERT_SIZE_def build_max_cert_size_def next_multiple_of_def)

text \<open>The response structures leave no padding: the buffer size is a multiple of 4.\<close>

lemma build_max_cert_size_mod4: "build_max_cert_size a b n mod 4 = 0"
proof -
  have "next_multiple_of m 4 mod 4 = 0" for m
    unfolding next_multiple_of_def by presburger
  then show ?thesis by (simp add: build_max_cert_size_def split: prod.splits)
qed

section \<open>U8Bool\<close>

text \<open>A byte with the meaning of a Boolean: a persisted state may hold any non-zero value for true.\<close>

type_synonym U8Bool = u8

definition U8Bool_new :: "bool \<Rightarrow> U8Bool" where
  "U8Bool_new val = (if val then 1 else 0)"

definition U8Bool_get :: "U8Bool \<Rightarrow> bool" where
  "U8Bool_get v = (v \<noteq> 0)"

lemma U8Bool_get_new [simp]: "U8Bool_get (U8Bool_new b) = b"
  by (simp add: U8Bool_get_def U8Bool_new_def)

section \<open>Algorithms\<close>

datatype EcdsaAlgorithm = Bit256 | Bit384

primrec ecdsa_curve_size :: "EcdsaAlgorithm \<Rightarrow> nat" where
  "ecdsa_curve_size Bit256 = 256 div 8"
| "ecdsa_curve_size Bit384 = 384 div 8"

datatype MldsaAlgorithm = AlgMldsa87

primrec mldsa_seed_size :: "MldsaAlgorithm \<Rightarrow> nat" where
  "mldsa_seed_size AlgMldsa87 = 32"

primrec mldsa_signature_size :: "MldsaAlgorithm \<Rightarrow> nat" where
  "mldsa_signature_size AlgMldsa87 = 4627"

primrec mldsa_public_key_size :: "MldsaAlgorithm \<Rightarrow> nat" where
  "mldsa_public_key_size AlgMldsa87 = 2592"

datatype SignatureAlgorithm = AlgEcdsa EcdsaAlgorithm | AlgMldsa MldsaAlgorithm

datatype DigestAlgorithm = AlgSha256 | AlgSha384

primrec digest_alg_size :: "DigestAlgorithm \<Rightarrow> nat" where
  "digest_alg_size AlgSha256 = 32"
| "digest_alg_size AlgSha384 = 48"

section \<open>DpeProfile\<close>

datatype DpeProfile = P256Sha256 | P384Sha384 | Mldsa87

primrec profile_u32 :: "DpeProfile \<Rightarrow> u32" where
  "profile_u32 P256Sha256 = 3"
| "profile_u32 P384Sha384 = 4"
| "profile_u32 Mldsa87 = 5"

text \<open>\<open>TryFromBytes\<close> of the \<open>repr(u32)\<close> enumeration.\<close>

definition profile_of_u32 :: "u32 \<Rightarrow> DpeProfile option" where
  "profile_of_u32 w =
     (if w = 3 then Some P256Sha256 else if w = 4 then Some P384Sha384
      else if w = 5 then Some Mldsa87 else None)"

lemma profile_of_u32_inv [simp]: "profile_of_u32 (profile_u32 p) = Some p"
  by (cases p) (simp_all add: profile_of_u32_def)

primrec tci_size :: "DpeProfile \<Rightarrow> nat" where
  "tci_size P256Sha256 = 32"
| "tci_size P384Sha384 = 48"
| "tci_size Mldsa87 = 48"

definition ecc_int_size :: "DpeProfile \<Rightarrow> nat" where
  "ecc_int_size p = tci_size p"

definition hash_size :: "DpeProfile \<Rightarrow> nat" where
  "hash_size p = tci_size p"

primrec profile_alg :: "DpeProfile \<Rightarrow> SignatureAlgorithm" where
  "profile_alg P256Sha256 = AlgEcdsa Bit256"
| "profile_alg P384Sha384 = AlgEcdsa Bit384"
| "profile_alg Mldsa87 = AlgMldsa AlgMldsa87"

definition ascii :: "string \<Rightarrow> bytes" where
  "ascii s = map of_char s"

lemma length_ascii [simp]: "length (ascii s) = length s"
  by (simp add: ascii_def)

primrec key_context :: "DpeProfile \<Rightarrow> bytes" where
  "key_context P256Sha256 = ascii ''ECC''"
| "key_context P384Sha384 = ascii ''ECC''"
| "key_context Mldsa87 = ascii ''MLDSA''"

section \<open>Support: the optional features of an instance\<close>

type_synonym Support = u32

definition SUPPORT_SIMULATION :: Support where "SUPPORT_SIMULATION = push_bit 31 1"
definition SUPPORT_RECURSIVE :: Support where "SUPPORT_RECURSIVE = push_bit 30 1"
definition SUPPORT_AUTO_INIT :: Support where "SUPPORT_AUTO_INIT = push_bit 29 1"
definition SUPPORT_ROTATE_CONTEXT :: Support where "SUPPORT_ROTATE_CONTEXT = push_bit 27 1"
definition SUPPORT_X509 :: Support where "SUPPORT_X509 = push_bit 26 1"
definition SUPPORT_CSR :: Support where "SUPPORT_CSR = push_bit 25 1"
definition SUPPORT_INTERNAL_INFO :: Support where "SUPPORT_INTERNAL_INFO = push_bit 22 1"
definition SUPPORT_INTERNAL_DICE :: Support where "SUPPORT_INTERNAL_DICE = push_bit 21 1"
definition SUPPORT_RETAIN_PARENT_CONTEXT :: Support where
  "SUPPORT_RETAIN_PARENT_CONTEXT = push_bit 19 1"
definition SUPPORT_CDI_EXPORT :: Support where "SUPPORT_CDI_EXPORT = push_bit 18 1"

text \<open>
  \<open>contains\<close> of the bitflags types: every bit of the argument is set. \<open>flags_contains\<close> serves
  \<open>Support\<close>, \<open>DeriveContextFlags\<close>, \<open>InitCtxCmd\<close>, \<open>RotateCtxFlags\<close>, \<open>SignFlags\<close> and \<open>DpeFlags\<close>.
\<close>

definition flags_contains :: "'a::len word \<Rightarrow> 'a word \<Rightarrow> bool" where
  "flags_contains flags x = (flags AND x = x)"

lemma flags_contains_bit:
  assumes "n < LENGTH('a::len)"
  shows "flags_contains w (push_bit n (1 :: 'a word)) = bit w n"
proof
  assume "flags_contains w (push_bit n (1 :: 'a word))"
  then have "bit (w AND push_bit n 1) n = bit (push_bit n (1 :: 'a word)) n"
    by (simp add: flags_contains_def)
  with assms show "bit w n" by (simp add: bit_simps)
next
  assume "bit w n"
  then have "w AND push_bit n (1 :: 'a word) = push_bit n 1"
    by (intro bit_eqI) (auto simp: bit_simps)
  then show "flags_contains w (push_bit n (1 :: 'a word))"
    by (simp add: flags_contains_def)
qed

definition sup_simulation :: "Support \<Rightarrow> bool" where
  "sup_simulation s = flags_contains s SUPPORT_SIMULATION"
definition sup_recursive :: "Support \<Rightarrow> bool" where
  "sup_recursive s = flags_contains s SUPPORT_RECURSIVE"
definition sup_auto_init :: "Support \<Rightarrow> bool" where
  "sup_auto_init s = flags_contains s SUPPORT_AUTO_INIT"
definition sup_rotate_context :: "Support \<Rightarrow> bool" where
  "sup_rotate_context s = flags_contains s SUPPORT_ROTATE_CONTEXT"
definition sup_x509 :: "Support \<Rightarrow> bool" where
  "sup_x509 s = flags_contains s SUPPORT_X509"
definition sup_csr :: "Support \<Rightarrow> bool" where
  "sup_csr s = flags_contains s SUPPORT_CSR"
definition sup_internal_info :: "Support \<Rightarrow> bool" where
  "sup_internal_info s = flags_contains s SUPPORT_INTERNAL_INFO"
definition sup_internal_dice :: "Support \<Rightarrow> bool" where
  "sup_internal_dice s = flags_contains s SUPPORT_INTERNAL_DICE"
definition sup_retain_parent_context :: "Support \<Rightarrow> bool" where
  "sup_retain_parent_context s = flags_contains s SUPPORT_RETAIN_PARENT_CONTEXT"
definition sup_cdi_export :: "Support \<Rightarrow> bool" where
  "sup_cdi_export s = flags_contains s SUPPORT_CDI_EXPORT"

text \<open>
  The \<open>disable_*\<close> cargo features that \<open>preprocess_support\<close> reads, as an argument: the function is
  the one place where their effect is a run-time value.
\<close>

record build_features =
  disable_simulation :: bool
  disable_recursive :: bool
  disable_auto_init :: bool
  disable_rotate_context :: bool
  disable_x509 :: bool
  disable_csr :: bool
  disable_internal_info :: bool
  disable_internal_dice :: bool
  disable_retain_parent_context :: bool
  disable_export_cdi :: bool

definition default_build :: build_features where
  "default_build = \<lparr>disable_simulation = False, disable_recursive = False,
     disable_auto_init = False, disable_rotate_context = False, disable_x509 = False,
     disable_csr = False, disable_internal_info = False, disable_internal_dice = False,
     disable_retain_parent_context = False, disable_export_cdi = False\<rparr>"

definition disabled_support :: "build_features \<Rightarrow> Support" where
  "disabled_support b =
     (if disable_simulation b then SUPPORT_SIMULATION else 0) OR
     (if disable_recursive b then SUPPORT_RECURSIVE else 0) OR
     (if disable_auto_init b then SUPPORT_AUTO_INIT else 0) OR
     (if disable_rotate_context b then SUPPORT_ROTATE_CONTEXT else 0) OR
     (if disable_x509 b then SUPPORT_X509 else 0) OR
     (if disable_csr b then SUPPORT_CSR else 0) OR
     (if disable_internal_info b then SUPPORT_INTERNAL_INFO else 0) OR
     (if disable_internal_dice b then SUPPORT_INTERNAL_DICE else 0) OR
     (if disable_retain_parent_context b then SUPPORT_RETAIN_PARENT_CONTEXT else 0) OR
     (if disable_export_cdi b then SUPPORT_CDI_EXPORT else 0)"

definition preprocess_support :: "build_features \<Rightarrow> Support \<Rightarrow> Support" where
  "preprocess_support b s = s AND NOT (disabled_support b)"

lemmas support_consts =
  SUPPORT_SIMULATION_def SUPPORT_RECURSIVE_def SUPPORT_AUTO_INIT_def SUPPORT_ROTATE_CONTEXT_def
  SUPPORT_X509_def SUPPORT_CSR_def SUPPORT_INTERNAL_INFO_def SUPPORT_INTERNAL_DICE_def
  SUPPORT_RETAIN_PARENT_CONTEXT_def SUPPORT_CDI_EXPORT_def

lemmas support_preds =
  sup_simulation_def sup_recursive_def sup_auto_init_def sup_rotate_context_def sup_x509_def
  sup_csr_def sup_internal_info_def sup_internal_dice_def sup_retain_parent_context_def
  sup_cdi_export_def

lemma support_bits:
  "sup_simulation s = bit s 31"
  "sup_recursive s = bit s 30"
  "sup_auto_init s = bit s 29"
  "sup_rotate_context s = bit s 27"
  "sup_x509 s = bit s 26"
  "sup_csr s = bit s 25"
  "sup_internal_info s = bit s 22"
  "sup_internal_dice s = bit s 21"
  "sup_retain_parent_context s = bit s 19"
  "sup_cdi_export s = bit s 18"
  by (simp_all add: support_preds support_consts flags_contains_bit del: push_bit_of_1)

text \<open>Without \<open>disable_*\<close> features the requested support is the effective support.\<close>

lemma preprocess_support_default [simp]: "preprocess_support default_build s = s"
  by (simp add: preprocess_support_def disabled_support_def default_build_def)

text \<open>A compiled-out feature is off, every other feature is as requested.\<close>

lemma preprocess_support_bits:
  "sup_simulation (preprocess_support b s) \<longleftrightarrow> sup_simulation s \<and> \<not> disable_simulation b"
  "sup_recursive (preprocess_support b s) \<longleftrightarrow> sup_recursive s \<and> \<not> disable_recursive b"
  "sup_auto_init (preprocess_support b s) \<longleftrightarrow> sup_auto_init s \<and> \<not> disable_auto_init b"
  "sup_rotate_context (preprocess_support b s) \<longleftrightarrow>
     sup_rotate_context s \<and> \<not> disable_rotate_context b"
  "sup_x509 (preprocess_support b s) \<longleftrightarrow> sup_x509 s \<and> \<not> disable_x509 b"
  "sup_csr (preprocess_support b s) \<longleftrightarrow> sup_csr s \<and> \<not> disable_csr b"
  "sup_internal_info (preprocess_support b s) \<longleftrightarrow>
     sup_internal_info s \<and> \<not> disable_internal_info b"
  "sup_internal_dice (preprocess_support b s) \<longleftrightarrow>
     sup_internal_dice s \<and> \<not> disable_internal_dice b"
  "sup_retain_parent_context (preprocess_support b s) \<longleftrightarrow>
     sup_retain_parent_context s \<and> \<not> disable_retain_parent_context b"
  "sup_cdi_export (preprocess_support b s) \<longleftrightarrow> sup_cdi_export s \<and> \<not> disable_export_cdi b"
  by (simp_all add: support_bits preprocess_support_def disabled_support_def support_consts
      bit_simps)

section \<open>DpeFlags\<close>

definition MARK_DICE_EXTENSIONS_CRITICAL :: u16 where
  "MARK_DICE_EXTENSIONS_CRITICAL = push_bit 15 1"

end
