(* ===== verification/Context.thy ===== *)
theory Context
  imports Profile
begin

text \<open>
  A context node (dpe/src/context.rs, dpe/src/tci.rs): its handle, its measurements, the bitmap of
  its children, and the operations that activate and destroy it. The bitmap iterator is
  \<open>FlagsIter\<close> of dpe/src/dpe_instance.rs. \<open>RootToChildIter\<close> walks from a node to its root and then
  yields the nodes from the root down.
\<close>

section \<open>TciNodeData\<close>

type_synonym TciMeasurement = bytes

definition TciMeasurement_default :: TciMeasurement where
  "TciMeasurement_default = replicate TCI_SIZE 0"

record TciNodeData =
  tci_type :: u32
  tci_cumulative :: TciMeasurement
  tci_current :: TciMeasurement
  tci_locality :: u32
  tci_svn :: u32

definition TciNodeData_new :: TciNodeData where
  "TciNodeData_new = \<lparr>tci_type = 0, tci_cumulative = replicate TCI_SIZE 0,
     tci_current = replicate TCI_SIZE 0, tci_locality = 0, tci_svn = 0\<rparr>"

text \<open>\<open>as_bytes\<close> of the \<open>repr(C, align(4))\<close> structure on a little-endian target.\<close>

definition tci_as_bytes :: "TciNodeData \<Rightarrow> bytes" where
  "tci_as_bytes t = u32_to_le_bytes (tci_type t) @ tci_cumulative t @ tci_current t @
     u32_to_le_bytes (tci_locality t) @ u32_to_le_bytes (tci_svn t)"

section \<open>Context handles\<close>

type_synonym ContextHandle = bytes

definition HANDLE_SIZE :: nat where
  "HANDLE_SIZE = 16"

definition handle_default :: ContextHandle where
  "handle_default = replicate HANDLE_SIZE 0"

definition handle_invalid :: ContextHandle where
  "handle_invalid = replicate HANDLE_SIZE 255"

text \<open>The constant-time comparison computes equality.\<close>

definition handle_equals :: "ContextHandle \<Rightarrow> ContextHandle \<Rightarrow> bool" where
  "handle_equals a b = (a = b)"

definition is_default :: "ContextHandle \<Rightarrow> bool" where
  "is_default h = handle_equals h handle_default"

lemma handle_invalid_not_default [simp]: "handle_invalid \<noteq> handle_default"
  by (simp add: handle_invalid_def handle_default_def HANDLE_SIZE_def replicate_eq_replicate)

lemma is_default_iff [simp]: "is_default h \<longleftrightarrow> h = handle_default"
  by (simp add: is_default_def handle_equals_def)

lemma handle_equals_iff [simp]: "handle_equals a b \<longleftrightarrow> a = b"
  by (simp add: handle_equals_def)

section \<open>Iterating over a bitmap\<close>

text \<open>\<open>u64::trailing_zeros\<close>: the index of the lowest set bit, 64 for zero.\<close>

fun trailing_zeros_from :: "nat \<Rightarrow> nat \<Rightarrow> u64 \<Rightarrow> nat" where
  "trailing_zeros_from 0 i w = i"
| "trailing_zeros_from (Suc n) i w = (if bit w i then i else trailing_zeros_from n (Suc i) w)"

definition trailing_zeros :: "u64 \<Rightarrow> nat" where
  "trailing_zeros w = trailing_zeros_from 64 0 w"

text \<open>\<open>FlagsIter::next\<close>: yield the lowest set bit and clear it.\<close>

definition flags_next :: "u64 \<Rightarrow> (nat \<times> u64) option" where
  "flags_next flags =
     (if flags = 0 then None
      else let idx = trailing_zeros flags in Some (idx, flags AND NOT (push_bit idx 1)))"

lemma trailing_zeros_from_least:
  "bit w k \<Longrightarrow> i \<le> k \<Longrightarrow> k < i + n \<Longrightarrow>
     bit w (trailing_zeros_from n i w) \<and> i \<le> trailing_zeros_from n i w \<and>
     (\<forall>j. i \<le> j \<and> j < trailing_zeros_from n i w \<longrightarrow> \<not> bit w j)"
proof (induction n arbitrary: i)
  case 0
  then show ?case by simp
next
  case (Suc n)
  show ?case
  proof (cases "bit w i")
    case True
    then show ?thesis by auto
  next
    case False
    with Suc.prems have "Suc i \<le> k" by (metis le_antisym not_less_eq_eq)
    with Suc.IH [of "Suc i"] Suc.prems False show ?thesis
      by auto (metis le_neq_implies_less Suc_leI)
  qed
qed

lemma trailing_zeros_spec:
  assumes "w \<noteq> 0"
  shows "bit w (trailing_zeros w)" and "trailing_zeros w < 64"
    and "j < trailing_zeros w \<Longrightarrow> \<not> bit w j"
proof -
  from assms obtain k where k: "bit w k"
    by (metis bit_eqI bit_0_eq bot_apply bot_bool_def)
  then have "k < 64"
    using bit_imp_le_length by fastforce
  note k = k this
  show "bit w (trailing_zeros w)"
    using trailing_zeros_from_least [of w k 0 64] k by (simp add: trailing_zeros_def)
  then show "trailing_zeros w < 64"
    using bit_imp_le_length by fastforce
  show "j < trailing_zeros w \<Longrightarrow> \<not> bit w j"
    using trailing_zeros_from_least [of w k 0 64] k by (simp add: trailing_zeros_def)
qed

lemma bit_lt_64: "bit (w :: u64) k \<Longrightarrow> k < 64"
  using bit_imp_le_length by fastforce

lemma finite_bits: "finite {i. bit (w :: u64) i}"
  by (rule finite_subset [of _ "{..<64}"]) (auto dest: bit_lt_64)

text \<open>All indices the iterator yields, in order: the loop ends because each step clears a bit.\<close>

function flags_collect :: "u64 \<Rightarrow> nat list" where
  "flags_collect flags =
     (case flags_next flags of None \<Rightarrow> [] | Some (idx, rest) \<Rightarrow> idx # flags_collect rest)"
  by pat_completeness auto
termination
proof (relation "measure (\<lambda>w. card {i. bit w i})", simp)
  fix flags :: u64 and p idx rest
  assume "flags_next flags = Some p" and p: "(idx, rest) = p"
  then have nz: "flags \<noteq> 0" and idx: "idx = trailing_zeros flags"
    and rest: "rest = flags AND NOT (push_bit idx 1)"
    by (auto simp: flags_next_def Let_def split: if_splits)
  have "{i. bit rest i} = {i. bit flags i} - {idx}"
    by (auto simp: rest bit_simps dest: bit_lt_64)
  moreover have "idx \<in> {i. bit flags i}"
    using trailing_zeros_spec(1) [OF nz] idx by simp
  moreover have "finite {i. bit flags i}"
    by (rule finite_bits)
  ultimately have "card {i. bit rest i} < card {i. bit flags i}"
    by (metis card_Diff1_less)
  then show "(rest, flags) \<in> measure (\<lambda>w. card {i. bit w i})"
    by simp
qed

declare flags_collect.simps [simp del]

definition flags_iter :: "u64 \<Rightarrow> nat \<Rightarrow> nat list" where
  "flags_iter flags mx = flags_collect (flags AND drop_bit (64 - mx) (- 1))"

lemma sorted_flags_collect:
  "set (flags_collect w) = {i. bit w i} \<and> sorted (flags_collect w) \<and> distinct (flags_collect w)"
proof (induction w rule: flags_collect.induct)
  case (1 w)
  show ?case
  proof (cases "w = 0")
    case True
    then have "flags_collect w = []" by (subst flags_collect.simps) (simp add: flags_next_def)
    with True show ?thesis by simp
  next
    case False
    define i where "i = trailing_zeros w"
    define r where "r = w AND NOT (push_bit i 1)"
    have nx: "flags_next w = Some (i, r)"
      using False by (simp add: flags_next_def Let_def i_def r_def)
    have bits: "bit r j \<longleftrightarrow> bit w j \<and> j \<noteq> i" for j
      by (auto simp: r_def bit_simps dest: bit_lt_64)
    have i: "bit w i" "\<And>j. bit w j \<Longrightarrow> i \<le> j"
      using trailing_zeros_spec [OF False] by (auto simp: i_def not_less [symmetric])
    from 1 [OF nx refl]
    have IH: "set (flags_collect r) = {i. bit r i}" "sorted (flags_collect r)"
      "distinct (flags_collect r)" by auto
    have "flags_collect w = i # flags_collect r"
      by (simp add: flags_collect.simps [of w] nx)
    with IH i bits show ?thesis by auto
  qed
qed

text \<open>The iterator yields the set bits in increasing order.\<close>

lemma flags_collect_eq: "flags_collect w = filter (bit w) [0..<64]"
proof (rule sorted_distinct_set_unique)
  show "set (flags_collect w) = set (filter (bit w) [0..<64])"
    using sorted_flags_collect [of w] by (auto dest: bit_lt_64)
qed (use sorted_flags_collect [of w] in \<open>auto simp: sorted_wrt_filter\<close>)

lemma flags_iter_MAX: "flags_iter w 64 = filter (bit w) [0..<64]"
  by (simp add: flags_iter_def flags_collect_eq)

section \<open>Children: a bitmap of context indices\<close>

type_synonym Children = u64

definition children_empty :: Children where
  "children_empty = 0"

definition children_add_child :: "Children \<Rightarrow> nat \<Rightarrow> (DpeErrorCode, Children) outcome" where
  "children_add_child c idx =
     (if MAX_HANDLES \<le> idx then Err (InternalError ChildrenBitmapIndexOob)
      else Ok (c OR push_bit idx 1))"

definition children_is_empty :: "Children \<Rightarrow> bool" where
  "children_is_empty c = (c = children_empty)"

definition children_has_children :: "Children \<Rightarrow> bool" where
  "children_has_children c = (\<not> children_is_empty c)"

definition children_has_child :: "Children \<Rightarrow> nat \<Rightarrow> bool" where
  "children_has_child c idx =
     (if MAX_HANDLES \<le> idx then False else c AND push_bit idx 1 \<noteq> 0)"

definition children_add_children :: "Children \<Rightarrow> Children \<Rightarrow> Children" where
  "children_add_children c d = c OR d"

definition children_remove_children :: "Children \<Rightarrow> Children \<Rightarrow> Children" where
  "children_remove_children c d = c AND NOT d"

definition children_iter :: "Children \<Rightarrow> nat list" where
  "children_iter c = flags_iter c MAX_HANDLES"

text \<open>The bitmap as the set of its indices: every operation is the set operation it stands for.\<close>

definition kids :: "Children \<Rightarrow> nat set" where
  "kids c = {i. bit c i}"

lemma kids_lt: "i \<in> kids c \<Longrightarrow> i < 64"
  by (simp add: kids_def bit_lt_64)

lemma kids_empty [simp]: "kids children_empty = {}"
  by (simp add: kids_def children_empty_def)

lemma kids_eq_iff: "kids c = kids d \<longleftrightarrow> c = d"
  by (auto simp: kids_def set_eq_iff intro: bit_eqI)

lemma children_is_empty_iff: "children_is_empty c \<longleftrightarrow> kids c = {}"
  using kids_eq_iff [of c children_empty] by (auto simp: children_is_empty_def)

lemma children_has_children_iff: "children_has_children c \<longleftrightarrow> kids c \<noteq> {}"
  by (simp add: children_has_children_def children_is_empty_iff)

lemma children_add_child_ok:
  "children_add_child c i = Ok d \<longleftrightarrow> i < 64 \<and> d = c OR push_bit i 1"
  by (auto simp: children_add_child_def)

lemma kids_add_child [simp]:
  "i < 64 \<Longrightarrow> kids (c OR push_bit i 1) = insert i (kids c)"
  by (auto simp: kids_def bit_simps)

lemma children_has_child_iff: "children_has_child c i \<longleftrightarrow> i \<in> kids c"
proof -
  have "c AND push_bit i 1 \<noteq> 0 \<longleftrightarrow> bit c i" if "i < 64"
  proof -
    have "bit (c AND push_bit i 1) j \<longleftrightarrow> bit c i \<and> j = i" for j
      using that by (auto simp: bit_simps)
    then show ?thesis
      using that by (metis bit_eqI bit_0_eq bot_apply bot_bool_def)
  qed
  then show ?thesis by (auto simp: children_has_child_def kids_def dest: bit_lt_64)
qed

lemma kids_add_children [simp]: "kids (children_add_children c d) = kids c \<union> kids d"
  by (auto simp: kids_def children_add_children_def bit_simps)

lemma kids_remove_children [simp]: "kids (children_remove_children c d) = kids c - kids d"
  by (auto simp: kids_def children_remove_children_def bit_simps dest: bit_lt_64)

lemma children_iter_eq: "children_iter c = filter (\<lambda>i. i \<in> kids c) [0..<64]"
  by (simp add: children_iter_def flags_iter_MAX kids_def)

lemma set_children_iter [simp]: "set (children_iter c) = kids c"
  by (auto simp: children_iter_eq dest: kids_lt)

lemma children_iter_empty [simp]: "children_iter children_empty = []"
  by (simp add: children_iter_eq)

section \<open>Context\<close>

datatype ContextState = Inactive | Active | Retired

datatype ContextType = Normal | Simulation

definition ROOT_INDEX :: u8 where
  "ROOT_INDEX = 255"

record Context =
  handle :: ContextHandle
  tci :: TciNodeData
  children :: Children
  locality :: u32
  parent_idx :: u8
  context_type :: ContextType
  state :: ContextState
  f_uses_internal_input_info :: U8Bool
  f_uses_internal_input_dice :: U8Bool
  f_allow_x509 :: U8Bool
  f_allow_export_cdi :: U8Bool
  f_allow_recursive :: U8Bool

definition Context_new :: Context where
  "Context_new = \<lparr>handle = handle_default, tci = TciNodeData_new, children = children_empty,
     locality = 0, parent_idx = ROOT_INDEX, context_type = Normal, state = Inactive,
     f_uses_internal_input_info = U8Bool_new False, f_uses_internal_input_dice = U8Bool_new False,
     f_allow_x509 = U8Bool_new False, f_allow_export_cdi = U8Bool_new True,
     f_allow_recursive = U8Bool_new False\<rparr>"

definition uses_internal_input_info :: "Context \<Rightarrow> bool" where
  "uses_internal_input_info c = U8Bool_get (f_uses_internal_input_info c)"

definition uses_internal_input_dice :: "Context \<Rightarrow> bool" where
  "uses_internal_input_dice c = U8Bool_get (f_uses_internal_input_dice c)"

definition allow_x509 :: "Context \<Rightarrow> bool" where
  "allow_x509 c = U8Bool_get (f_allow_x509 c)"

definition allow_export_cdi :: "Context \<Rightarrow> bool" where
  "allow_export_cdi c = U8Bool_get (f_allow_export_cdi c)"

definition allow_recursive :: "Context \<Rightarrow> bool" where
  "allow_recursive c = U8Bool_get (f_allow_recursive c)"

lemmas context_flag_defs =
  uses_internal_input_info_def uses_internal_input_dice_def allow_x509_def allow_export_cdi_def
  allow_recursive_def

record ActiveContextArgs =
  a_context_type :: ContextType
  a_locality :: u32
  a_handle :: ContextHandle
  a_tci_type :: u32
  a_parent_idx :: u8
  a_allow_x509 :: bool
  a_uses_internal_input_info :: bool
  a_uses_internal_input_dice :: bool
  a_allow_export_cdi :: bool
  a_svn :: u32
  a_allow_recursive :: bool

definition activate :: "ActiveContextArgs \<Rightarrow> Context \<Rightarrow> Context" where
  "activate args c = c\<lparr>
     handle := a_handle args,
     tci := TciNodeData_new\<lparr>tci_type := a_tci_type args, tci_locality := a_locality args,
       tci_svn := a_svn args\<rparr>,
     children := children_empty,
     parent_idx := a_parent_idx args,
     context_type := a_context_type args,
     state := Active,
     locality := a_locality args,
     f_allow_x509 := U8Bool_new (a_allow_x509 args),
     f_uses_internal_input_info := U8Bool_new (a_uses_internal_input_info args),
     f_uses_internal_input_dice := U8Bool_new (a_uses_internal_input_dice args),
     f_allow_export_cdi := U8Bool_new (a_allow_export_cdi args),
     f_allow_recursive := U8Bool_new (a_allow_recursive args)\<rparr>"

text \<open>\<open>destroy\<close> leaves \<open>context_type\<close> and \<open>allow_export_cdi\<close> as they were.\<close>

definition destroy :: "Context \<Rightarrow> Context" where
  "destroy c = c\<lparr>
     tci := TciNodeData_new,
     state := Inactive,
     f_uses_internal_input_info := U8Bool_new False,
     f_uses_internal_input_dice := U8Bool_new False,
     f_allow_x509 := U8Bool_new False,
     parent_idx := ROOT_INDEX,
     locality := 0,
     children := children_empty,
     handle := handle_invalid,
     f_allow_recursive := U8Bool_new False\<rparr>"

text \<open>\<open>Context::add_child\<close> returns the new bitmap and leaves the context alone.\<close>

definition add_child :: "Context \<Rightarrow> nat \<Rightarrow> (DpeErrorCode, Children) outcome" where
  "add_child c idx =
     (if MAX_HANDLES \<le> idx then Err (InternalError ChildIndexOob)
      else children_add_child (children c) idx)"

definition has_children :: "Context \<Rightarrow> bool" where
  "has_children c = children_has_children (children c)"

lemma has_children_iff: "has_children c \<longleftrightarrow> kids (children c) \<noteq> {}"
  by (simp add: has_children_def children_has_children_iff)

lemma add_child_Ok_iff:
  "add_child c idx = Ok d \<longleftrightarrow> idx < 64 \<and> d = children c OR push_bit idx 1"
  by (auto simp: add_child_def children_add_child_ok)

lemma activate_simps [simp]:
  "handle (activate a c) = a_handle a"
  "children (activate a c) = children_empty"
  "locality (activate a c) = a_locality a"
  "parent_idx (activate a c) = a_parent_idx a"
  "context_type (activate a c) = a_context_type a"
  "state (activate a c) = Active"
  "allow_x509 (activate a c) = a_allow_x509 a"
  "uses_internal_input_info (activate a c) = a_uses_internal_input_info a"
  "uses_internal_input_dice (activate a c) = a_uses_internal_input_dice a"
  "allow_export_cdi (activate a c) = a_allow_export_cdi a"
  "allow_recursive (activate a c) = a_allow_recursive a"
  "tci (activate a c) = TciNodeData_new\<lparr>tci_type := a_tci_type a, tci_locality := a_locality a,
       tci_svn := a_svn a\<rparr>"
  by (simp_all add: activate_def context_flag_defs)

text \<open>Nothing of the context's earlier life survives an activation.\<close>

lemma activate_forgets: "activate a c = activate a d"
  by (simp add: activate_def)

lemma destroy_simps [simp]:
  "state (destroy c) = Inactive"
  "handle (destroy c) = handle_invalid"
  "children (destroy c) = children_empty"
  "locality (destroy c) = 0"
  "parent_idx (destroy c) = ROOT_INDEX"
  "tci (destroy c) = TciNodeData_new"
  "context_type (destroy c) = context_type c"
  "allow_export_cdi (destroy c) = allow_export_cdi c"
  "allow_x509 (destroy c) = False"
  "allow_recursive (destroy c) = False"
  "uses_internal_input_info (destroy c) = False"
  "uses_internal_input_dice (destroy c) = False"
  by (simp_all add: destroy_def context_flag_defs)

lemma Context_new_simps [simp]:
  "state Context_new = Inactive"
  "handle Context_new = handle_default"
  "children Context_new = children_empty"
  "locality Context_new = 0"
  "parent_idx Context_new = ROOT_INDEX"
  "context_type Context_new = Normal"
  "tci Context_new = TciNodeData_new"
  "allow_x509 Context_new = False"
  "allow_recursive Context_new = False"
  "allow_export_cdi Context_new = True"
  "uses_internal_input_info Context_new = False"
  "uses_internal_input_dice Context_new = False"
  by (simp_all add: Context_new_def context_flag_defs)

section \<open>RootToChildIter\<close>

text \<open>
  \<open>valid_parent_idx\<close>: the index is one of the node indices, or the root marker.
\<close>

definition valid_parent_idx :: "u8 \<Rightarrow> bool" where
  "valid_parent_idx i = (i \<le> of_nat (MAX_HANDLES - 1) \<or> i = ROOT_INDEX)"

definition iter_get_context :: "Context list \<Rightarrow> nat \<Rightarrow> (DpeErrorCode, Context) outcome" where
  "iter_get_context ctxs idx =
     (case get_at ctxs idx of
        None \<Rightarrow> Err (InternalError ContextIndexOob)
      | Some c \<Rightarrow>
          if \<not> valid_parent_idx (parent_idx c) \<or> state c = Inactive then Err InvalidHandle
          else Ok c)"

text \<open>
  The state of an iteration. A failing \<open>get_context\<close> sets \<open>done\<close>; so does the end of the path.
\<close>

record RootToChildIter =
  it_contexts :: "Context list"
  it_path_idx :: nat
  it_path :: "u8 list"
  it_done :: bool

text \<open>The loop of \<open>RootToChildIter::new\<close>; \<open>try_push\<close> fails when the path holds \<open>MAX_HANDLES\<close> nodes.\<close>

function path_loop :: "Context list \<Rightarrow> nat \<Rightarrow> u8 list \<Rightarrow> (DpeErrorCode, u8 list) outcome" where
  "path_loop ctxs idx path =
     bindO (iter_get_context ctxs idx) (\<lambda>c.
       if MAX_HANDLES \<le> length path then Err (InternalError TciNodeCountExceeded)
       else if parent_idx c = ROOT_INDEX then Ok (path @ [of_nat idx])
       else path_loop ctxs (unat (parent_idx c)) (path @ [of_nat idx]))"
  by pat_completeness auto
termination
  by (relation "measure (\<lambda>(_, _, path). MAX_HANDLES - length path)") auto

declare path_loop.simps [simp del]

definition usize_wrapping_sub_1 :: "nat \<Rightarrow> nat" where
  "usize_wrapping_sub_1 n = (if n = 0 then 2 ^ 64 - 1 else n - 1)"

definition iter_new :: "nat \<Rightarrow> Context list \<Rightarrow> (DpeErrorCode, RootToChildIter) outcome" where
  "iter_new leaf_idx ctxs = bindO (path_loop ctxs leaf_idx []) (\<lambda>path.
     Ok \<lparr>it_contexts = ctxs, it_path_idx = usize_wrapping_sub_1 (length path), it_path = path,
       it_done = False\<rparr>)"

definition iter_num_nodes :: "RootToChildIter \<Rightarrow> nat" where
  "iter_num_nodes it = length (it_path it)"

definition iter_is_empty :: "RootToChildIter \<Rightarrow> bool" where
  "iter_is_empty it = (it_path it = [])"

definition iter_first_node :: "RootToChildIter \<Rightarrow> (DpeErrorCode, Context) outcome" where
  "iter_first_node it = ok_or (get_at (it_contexts it) 0) (InternalError ContextIndexOob)"

definition iter_next ::
  "RootToChildIter \<Rightarrow> (DpeErrorCode, Context) outcome option \<times> RootToChildIter" where
  "iter_next it =
     (if it_done it then (None, it)
      else case get_at (it_path it) (it_path_idx it) of
        None \<Rightarrow> (Some (Err (InternalError ChildIndexOob)), it\<lparr>it_done := True\<rparr>)
      | Some idx \<Rightarrow>
          (case iter_get_context (it_contexts it) (unat idx) of
             Ok c \<Rightarrow>
               (Some (Ok c),
                if it_path_idx it = 0 then it\<lparr>it_done := True\<rparr>
                else it\<lparr>it_path_idx := usize_wrapping_sub_1 (it_path_idx it)\<rparr>)
           | r \<Rightarrow> (Some r, it\<lparr>it_done := True\<rparr>)))"

text \<open>What a \<open>for\<close> loop over the iterator sees.\<close>

function iter_items :: "RootToChildIter \<Rightarrow> (DpeErrorCode, Context) outcome list" where
  "iter_items it =
     (case iter_next it of (None, _) \<Rightarrow> [] | (Some x, it') \<Rightarrow> x # iter_items it')"
  by pat_completeness auto
termination
  by (relation "measure (\<lambda>it. if it_done it then 0 else Suc (it_path_idx it))")
    (auto simp: iter_next_def usize_wrapping_sub_1_def split: if_splits option.splits outcome.splits)

declare iter_items.simps [simp del]

subsection \<open>The path from a node to its root\<close>

text \<open>
  \<open>up_path ctxs is\<close>: the indices \<open>is\<close> lead from a node over its parents to a root, all of them nodes
  that \<open>get_context\<close> accepts.
\<close>

definition live_node :: "Context list \<Rightarrow> nat \<Rightarrow> bool" where
  "live_node ctxs i \<longleftrightarrow> i < length ctxs \<and> valid_parent_idx (parent_idx (ctxs ! i)) \<and>
     state (ctxs ! i) \<noteq> Inactive"

lemma iter_get_context_Ok_iff: "iter_get_context ctxs i = Ok c \<longleftrightarrow> live_node ctxs i \<and> c = ctxs ! i"
  by (auto simp: iter_get_context_def live_node_def get_at_def)

lemma iter_get_context_live: "live_node ctxs i \<Longrightarrow> iter_get_context ctxs i = Ok (ctxs ! i)"
  by (simp add: iter_get_context_Ok_iff)

lemma iter_get_context_dead:
  "\<not> live_node ctxs i \<Longrightarrow>
     iter_get_context ctxs i = Err (if i < length ctxs then InvalidHandle
       else InternalError ContextIndexOob)"
  by (auto simp: iter_get_context_def live_node_def get_at_def)

fun up_path :: "Context list \<Rightarrow> nat list \<Rightarrow> bool" where
  "up_path ctxs [] = False"
| "up_path ctxs (i # is) \<longleftrightarrow> live_node ctxs i \<and>
     (if is = [] then parent_idx (ctxs ! i) = ROOT_INDEX
      else parent_idx (ctxs ! i) \<noteq> ROOT_INDEX \<and> hd is = unat (parent_idx (ctxs ! i)) \<and>
        up_path ctxs is)"

lemma up_path_functional:
  "up_path ctxs is \<Longrightarrow> up_path ctxs js \<Longrightarrow> hd is = hd js \<Longrightarrow> is = js"
proof (induction "is" arbitrary: js)
  case (Cons i "is")
  then obtain j js' where js: "js = j # js'" by (cases js) auto
  show ?case
  proof (cases "is = []")
    case True
    with Cons.prems js show ?thesis by (auto split: if_splits)
  next
    case False
    with Cons.prems js have "js' \<noteq> []" by auto
    with False Cons.prems js Cons.IH [of js'] show ?thesis by auto
  qed
qed simp

lemma up_path_suffix: "up_path ctxs (as @ bs) \<Longrightarrow> bs \<noteq> [] \<Longrightarrow> up_path ctxs bs"
  by (induction as) (auto split: if_splits)

lemma up_path_live: "up_path ctxs is \<Longrightarrow> i \<in> set is \<Longrightarrow> live_node ctxs i"
  by (induction "is") (auto split: if_splits)

lemma up_path_distinct: "up_path ctxs is \<Longrightarrow> distinct is"
proof (rule ccontr)
  assume p: "up_path ctxs is" and "\<not> distinct is"
  then obtain as bs cs x where d: "is = as @ [x] @ bs @ [x] @ cs"
    using not_distinct_decomp by blast
  have "up_path ctxs (x # bs @ x # cs)" "up_path ctxs (x # cs)"
    using p d up_path_suffix [of ctxs as "x # bs @ x # cs"]
      up_path_suffix [of ctxs "as @ x # bs" "x # cs"] by auto
  then have "x # bs @ x # cs = x # cs" by (intro up_path_functional) auto
  then have "length (bs @ x # cs) = length cs" by (metis list.inject)
  then show False by simp
qed

lemma up_path_length: "up_path ctxs is \<Longrightarrow> length is \<le> length ctxs"
proof -
  assume p: "up_path ctxs is"
  have "set is \<subseteq> {..<length ctxs}"
    using up_path_live [OF p] by (auto simp: live_node_def)
  then have "card (set is) \<le> length ctxs"
    using card_mono [of "{..<length ctxs}" "set is"] by simp
  with up_path_distinct [OF p] show ?thesis by (simp add: distinct_card)
qed

lemma path_loop_up_path:
  "up_path ctxs is \<Longrightarrow> length p + length is \<le> 64 \<Longrightarrow>
     path_loop ctxs (hd is) p = Ok (p @ map of_nat is)"
proof (induction "is" arbitrary: p)
  case (Cons i "is")
  show ?case
  proof (cases "is = []")
    case True
    with Cons.prems show ?thesis by (simp add: path_loop.simps iter_get_context_live)
  next
    case False
    with Cons.prems Cons.IH [of "p @ [of_nat i]"] show ?thesis
      by (simp add: path_loop.simps [of ctxs i p] iter_get_context_live)
  qed
qed simp

lemma path_loop_Ok:
  "path_loop ctxs i p = Ok q \<Longrightarrow> \<exists>is. up_path ctxs is \<and> hd is = i \<and> q = p @ map of_nat is"
proof (induction ctxs i p rule: path_loop.induct)
  case (1 ctxs i p)
  from "1.prems" have live: "live_node ctxs i" and len: "length p < 64"
    by (auto simp: path_loop.simps [of ctxs i p] bindO_Ok_iff iter_get_context_Ok_iff
        split: if_splits)
  show ?case
  proof (cases "parent_idx (ctxs ! i) = ROOT_INDEX")
    case True
    with "1.prems" live len have "q = p @ map of_nat [i]"
      by (simp add: path_loop.simps [of ctxs i p] iter_get_context_live)
    with True live show ?thesis by (intro exI [of _ "[i]"]) simp
  next
    case False
    with "1.prems" live len
    have "path_loop ctxs (unat (parent_idx (ctxs ! i))) (p @ [of_nat i]) = Ok q"
      by (simp add: path_loop.simps [of ctxs i p] iter_get_context_live)
    from "1.IH" [OF _ False this] len
    obtain "is" where "up_path ctxs is" "hd is = unat (parent_idx (ctxs ! i))"
      "q = (p @ [of_nat i]) @ map of_nat is" by auto
    with False live show ?thesis
      by (intro exI [of _ "i # is"]) auto
  qed
qed

text \<open>Walking down the stored path yields the nodes from the root to the leaf.\<close>

lemma iter_items_down:
  assumes "\<forall>i \<in> set p. live_node ctxs (unat i)" "k < length p"
  shows "iter_items \<lparr>it_contexts = ctxs, it_path_idx = k, it_path = p, it_done = False\<rparr> =
    map (\<lambda>i. Ok (ctxs ! unat i)) (rev (take (Suc k) p))"
  using assms(2)
proof (induction k)
  case 0
  then show ?case using assms(1)
    by (subst iter_items.simps, subst iter_items.simps)
      (simp add: iter_next_def iter_get_context_live take_Suc_conv_app_nth)
next
  case (Suc k)
  then show ?case using assms(1)
    by (subst iter_items.simps)
      (simp add: iter_next_def iter_get_context_live usize_wrapping_sub_1_def
        take_Suc_conv_app_nth [of "Suc k"])
qed

lemma iter_new_up_path:
  assumes p: "up_path ctxs is" and len: "length ctxs \<le> 64"
  obtains it where "iter_new (hd is) ctxs = Ok it"
    and "iter_items it = map (\<lambda>i. Ok (ctxs ! i)) (rev is)"
    and "iter_num_nodes it = length is"
    and "it_contexts it = ctxs"
proof -
  have ne: "is \<noteq> []" using p by auto
  have "path_loop ctxs (hd is) [] = Ok (map of_nat is)"
    using path_loop_up_path [OF p, of "[]"] up_path_length [OF p] len by simp
  then have new: "iter_new (hd is) ctxs = Ok \<lparr>it_contexts = ctxs, it_path_idx = length is - 1,
      it_path = map of_nat is, it_done = False\<rparr>"
    using ne by (simp add: iter_new_def usize_wrapping_sub_1_def)
  have small: "unat (of_nat i :: u8) = i" if "i \<in> set is" for i
    using up_path_live [OF p that] len by (simp add: live_node_def unat_of_nat)
  have live: "\<forall>i \<in> set (map of_nat is :: u8 list). live_node ctxs (unat i)"
    using small up_path_live [OF p] by (auto simp: small)
  have "iter_items \<lparr>it_contexts = ctxs, it_path_idx = length is - 1,
      it_path = map of_nat is, it_done = False\<rparr> = map (\<lambda>i. Ok (ctxs ! i)) (rev is)"
    using iter_items_down [OF live, of "length is - 1"] ne small
    by (simp add: rev_map [symmetric] comp_def)
  with new show thesis by (intro that) (auto simp: iter_num_nodes_def)
qed

lemma iter_new_Ok:
  assumes "iter_new i ctxs = Ok it" "length ctxs \<le> 64"
  obtains "is" where "up_path ctxs is" "hd is = i"
    "iter_items it = map (\<lambda>i. Ok (ctxs ! i)) (rev is)" "iter_num_nodes it = length is"
    "it_contexts it = ctxs"
proof -
  from assms(1) obtain q where "path_loop ctxs i [] = Ok q"
    by (auto simp: iter_new_def bindO_Ok_iff)
  then obtain "is" where is_path: "up_path ctxs is" "hd is = i"
    using path_loop_Ok by blast
  obtain it' where "iter_new (hd is) ctxs = Ok it'"
    and it': "iter_items it' = map (\<lambda>i. Ok (ctxs ! i)) (rev is)"
    "iter_num_nodes it' = length is" "it_contexts it' = ctxs"
    using iter_new_up_path [OF is_path(1) assms(2)] by blast
  with assms(1) is_path(2) have "it' = it" by simp
  with it' is_path show thesis by (intro that) auto
qed

text \<open>The loop ends with an error in every other case, whatever the links between the nodes are.\<close>

lemma path_loop_total:
  "(\<exists>q. path_loop ctxs i p = Ok q) \<or> (\<exists>e. path_loop ctxs i p = Err e \<and>
     e \<in> {InvalidHandle, InternalError ContextIndexOob, InternalError TciNodeCountExceeded})"
proof (induction ctxs i p rule: path_loop.induct)
  case (1 ctxs i p)
  show ?case
  proof (cases "live_node ctxs i")
    case True
    with 1 show ?thesis
      by (subst (1 2) path_loop.simps) (auto simp: iter_get_context_live)
  next
    case False
    then show ?thesis
      by (subst (1 2) path_loop.simps) (auto simp: iter_get_context_dead)
  qed
qed

end
