(* ===== verification/DpeState.thy ===== *)
theory DpeState
  imports Context
begin

text \<open>
  The state of an instance (dpe/src/state.rs): the array of contexts, the optional features and the
  lookups over them, with the descendants of a node by recursion over the child bitmaps. The second
  part is the well-formedness of the array as a forest of contexts, the invariant on which the
  other components rely, and the proof that the recursion computes the descendants in it.
\<close>

section \<open>State\<close>

type_synonym DpeFlags = u16

record State =
  marker :: u32
  version :: u32
  contexts :: "Context list"
  support :: Support
  dpe_flags :: DpeFlags
  f_has_initialized :: U8Bool
  reserved :: u8

definition State_MAGIC :: u32 where
  "State_MAGIC = 0x44504553"

definition State_VERSION :: u32 where
  "State_VERSION = 1"

definition State_new :: "build_features \<Rightarrow> Support \<Rightarrow> DpeFlags \<Rightarrow> State" where
  "State_new b supp flags = \<lparr>marker = State_MAGIC, version = State_VERSION,
     contexts = replicate MAX_HANDLES Context_new, support = preprocess_support b supp,
     dpe_flags = flags, f_has_initialized = U8Bool_new False, reserved = 0\<rparr>"

definition State_default :: State where
  "State_default = \<lparr>marker = State_MAGIC, version = State_VERSION,
     contexts = replicate MAX_HANDLES Context_new, support = 0, dpe_flags = 0,
     f_has_initialized = U8Bool_new False, reserved = 0\<rparr>"

definition has_initialized :: "State \<Rightarrow> bool" where
  "has_initialized st = U8Bool_get (f_has_initialized st)"

section \<open>Finding contexts\<close>

definition get_active_context_pos_internal ::
  "State \<Rightarrow> ContextHandle \<Rightarrow> u32 \<Rightarrow> (DpeErrorCode, nat) outcome" where
  "get_active_context_pos_internal st h loc =
     (let valid_localities =
            filter (\<lambda>(_, c). state c = Active \<and> locality c = loc) (List.enumerate 0 (contexts st))
      in if valid_localities = [] then Err InvalidLocality
      else
        let valid_handles = filter (\<lambda>(_, c). handle_equals (handle c) h) valid_localities
        in if valid_handles = [] then Err InvalidHandle
        else
          bindO (ok_or (List.find (\<lambda>(_, c). state c = Active \<and> handle_equals (handle c) h \<and>
                   locality c = loc) valid_handles) (InternalError ActiveContextNotFound))
            (\<lambda>(i, _). Ok i))"

definition get_active_context_pos ::
  "State \<Rightarrow> ContextHandle \<Rightarrow> u32 \<Rightarrow> (DpeErrorCode, nat) outcome" where
  "get_active_context_pos st h loc =
     bindO (get_active_context_pos_internal st h loc) (\<lambda>idx.
       if length (contexts st) \<le> idx then Err (InternalError ContextIndexOob) else Ok idx)"

definition get_active_context_and_idx ::
  "State \<Rightarrow> ContextHandle \<Rightarrow> u32 \<Rightarrow> (DpeErrorCode, Context \<times> nat) outcome" where
  "get_active_context_and_idx st h loc =
     bindO (get_active_context_pos st h loc) (\<lambda>idx.
       bindO (ok_or (get_at (contexts st) idx) (InternalError ContextIndexOob)) (\<lambda>c.
         Ok (c, idx)))"

definition get_next_inactive_context_pos :: "State \<Rightarrow> nat option" where
  "get_next_inactive_context_pos st = position (\<lambda>c. state c = Inactive) (contexts st)"

definition count_contexts :: "State \<Rightarrow> (Context \<Rightarrow> bool) \<Rightarrow> (DpeErrorCode, nat) outcome" where
  "count_contexts st f = Ok (length (filter f (contexts st)))"

definition active_at :: "State \<Rightarrow> ContextHandle \<Rightarrow> u32 \<Rightarrow> nat \<Rightarrow> bool" where
  "active_at st h loc i \<longleftrightarrow> i < length (contexts st) \<and> state (contexts st ! i) = Active \<and>
     handle (contexts st ! i) = h \<and> locality (contexts st ! i) = loc"

lemma filter_enumerate_Nil:
  "filter (\<lambda>(_, c). P c) (List.enumerate k xs) = [] \<longleftrightarrow> filter P xs = []"
  by (induction xs arbitrary: k) auto

lemma filter_enumerate_Cons:
  "filter (\<lambda>(_, c). P c) (List.enumerate k xs) = (i, c) # r \<Longrightarrow>
     k \<le> i \<and> i - k < length xs \<and> xs ! (i - k) = c \<and> P c \<and> (\<forall>j < i - k. \<not> P (xs ! j))"
proof (induction xs arbitrary: k)
  case (Cons x xs)
  show ?case
  proof (cases "P x")
    case True
    with Cons.prems show ?thesis by auto
  next
    case False
    with Cons have *: "Suc k \<le> i \<and> i - Suc k < length xs \<and> xs ! (i - Suc k) = c \<and> P c \<and>
        (\<forall>j < i - Suc k. \<not> P (xs ! j))" by simp
    then obtain d where "i = Suc (k + d)" by (metis add_Suc le_Suc_ex)
    with * False show ?thesis by (auto simp: All_less_Suc2)
  qed
qed simp

text \<open>The lookup returns the first active context with the handle in the locality.\<close>

lemma get_active_context_pos_cases:
  "get_active_context_pos st h loc =
     (if \<forall>c \<in> set (contexts st). \<not> (state c = Active \<and> locality c = loc) then Err InvalidLocality
      else case position (\<lambda>c. state c = Active \<and> handle c = h \<and> locality c = loc) (contexts st) of
        None \<Rightarrow> Err InvalidHandle | Some i \<Rightarrow> Ok i)"
proof -
  let ?L = "\<lambda>c. state c = Active \<and> locality c = loc"
  let ?P = "\<lambda>c. ?L c \<and> handle c = h"
  let ?Q = "\<lambda>c. state c = Active \<and> handle c = h \<and> locality c = loc"
  let ?e = "List.enumerate 0 (contexts st)"
  have ff: "filter (\<lambda>(_, c). handle c = h) (filter (\<lambda>(_, c). ?L c) ?e) = filter (\<lambda>(_, c). ?P c) ?e"
    by (auto intro: filter_cong)
  have none: "filter (\<lambda>(_, c). ?L c) ?e = [] \<longleftrightarrow> (\<forall>c \<in> set (contexts st). \<not> ?L c)"
    using filter_enumerate_Nil [of ?L 0] by (auto simp: filter_empty_conv)
  show ?thesis
  proof (cases "filter (\<lambda>(_, c). ?P c) ?e")
    case Nil
    then have "filter ?P (contexts st) = []"
      by (rule filter_enumerate_Nil [THEN iffD1])
    then have "\<forall>c \<in> set (contexts st). \<not> ?P c"
      by (simp only: filter_empty_conv)
    then have "position ?Q (contexts st) = None" by (auto simp: position_None)
    with Nil ff none show ?thesis
      by (simp add: get_active_context_pos_def get_active_context_pos_internal_def Let_def)
  next
    case (Cons p r)
    obtain i c where p: "p = (i, c)" by (cases p)
    from filter_enumerate_Cons [of ?P 0, OF Cons [unfolded p]]
    have i: "i < length (contexts st)" "contexts st ! i = c" "?P c"
      "\<forall>j < i. \<not> ?P (contexts st ! j)" by auto
    then have pos: "position ?Q (contexts st) = Some i"
      by (auto simp: position_Some)
    have ne: "\<not> (\<forall>c \<in> set (contexts st). \<not> ?L c)" using i by (metis nth_mem)
    show ?thesis
      using Cons [unfolded p] ff none ne pos i
      by (simp add: get_active_context_pos_def get_active_context_pos_internal_def Let_def)
  qed
qed

lemma get_active_context_pos_Ok:
  "get_active_context_pos st h loc = Ok i \<Longrightarrow> active_at st h loc i"
  by (auto simp: get_active_context_pos_cases active_at_def position_Some
      split: if_splits option.splits)

lemma get_active_context_pos_ex:
  "active_at st h loc i \<Longrightarrow> \<exists>j \<le> i. get_active_context_pos st h loc = Ok j"
proof -
  let ?Q = "\<lambda>c. state c = Active \<and> handle c = h \<and> locality c = loc"
  assume a: "active_at st h loc i"
  then have i: "i < length (contexts st)" "?Q (contexts st ! i)" by (auto simp: active_at_def)
  then have in_set: "contexts st ! i \<in> set (contexts st)" by simp
  with i have "position ?Q (contexts st) \<noteq> None" unfolding position_None by blast
  then obtain j where j: "position ?Q (contexts st) = Some j" by auto
  then have "\<forall>k < j. \<not> ?Q (contexts st ! k)" unfolding position_Some by blast
  with i(2) have "j \<le> i" using leI by blast
  moreover have "get_active_context_pos st h loc = Ok j"
    using in_set i j by (auto simp: get_active_context_pos_cases)
  ultimately show ?thesis by blast
qed

lemma get_active_context_and_idx_Ok:
  "get_active_context_and_idx st h loc = Ok (c, i) \<longleftrightarrow>
     get_active_context_pos st h loc = Ok i \<and> c = contexts st ! i"
proof -
  have "bindO (ok_or (get_at (contexts st) j) e) (\<lambda>c. Ok (c, j)) = Ok (contexts st ! j, j)"
    if "get_active_context_pos st h loc = Ok j" for j and e :: DpeErrorCode
    using get_active_context_pos_Ok [OF that] by (simp add: active_at_def)
  then show ?thesis
    by (auto simp: get_active_context_and_idx_def bindO_Ok_iff)
qed

lemma get_next_inactive_Some:
  "get_next_inactive_context_pos st = Some i \<longleftrightarrow> i < length (contexts st) \<and>
     state (contexts st ! i) = Inactive \<and> (\<forall>j < i. state (contexts st ! j) \<noteq> Inactive)"
  by (simp add: get_next_inactive_context_pos_def position_Some)

lemma get_next_inactive_None:
  "get_next_inactive_context_pos st = None \<longleftrightarrow> (\<forall>c \<in> set (contexts st). state c \<noteq> Inactive)"
  by (simp add: get_next_inactive_context_pos_def position_None)

section \<open>Descendants\<close>

text \<open>
  \<open>get_descendants\<close> recurses over the children without a bound of its own. The fuel is the depth of
  the call stack; a recursion deeper than one frame per node has come back to a node that is still
  being visited and repeats itself until the stack is exhausted, which is the outcome \<open>Panic\<close>.
\<close>

fun desc_loop :: "(Context \<Rightarrow> (DpeErrorCode, Children) outcome) \<Rightarrow> Context list \<Rightarrow> nat list \<Rightarrow>
    Children \<Rightarrow> (DpeErrorCode, Children) outcome" where
  "desc_loop rec ctxs [] d = Ok d"
| "desc_loop rec ctxs (idx # is) d =
     bindO (ok_or (get_at ctxs idx) (InternalError DescendantIndexOob)) (\<lambda>c.
       bindO (rec c) (\<lambda>e. desc_loop rec ctxs is (children_add_children d e)))"

fun get_descendants_fuel :: "nat \<Rightarrow> State \<Rightarrow> Context \<Rightarrow> (DpeErrorCode, Children) outcome" where
  "get_descendants_fuel 0 st c = Panic"
| "get_descendants_fuel (Suc n) st c =
     (if state c = Inactive then Err InvalidHandle
      else desc_loop (get_descendants_fuel n st) (contexts st) (children_iter (children c))
        (children c))"

definition get_descendants :: "State \<Rightarrow> Context \<Rightarrow> (DpeErrorCode, Children) outcome" where
  "get_descendants st c = get_descendants_fuel (Suc MAX_HANDLES) st c"

section \<open>The forest of contexts\<close>

definition child_rel :: "Context list \<Rightarrow> (nat \<times> nat) set" where
  "child_rel ctxs = {(i, j). i < length ctxs \<and> j \<in> kids (children (ctxs ! i))}"

text \<open>
  The contexts in use form a forest: an unused context is blank, the parent of a context in use is
  in use and lists it as its child, a listed child names the context as its parent, and every
  context in use leads to a root.
\<close>

definition blank_links :: "Context \<Rightarrow> bool" where
  "blank_links c \<longleftrightarrow> parent_idx c = ROOT_INDEX \<and> children c = children_empty"

definition linked :: "Context list \<Rightarrow> nat \<Rightarrow> bool" where
  "linked ctxs i \<longleftrightarrow> parent_idx (ctxs ! i) = ROOT_INDEX \<or>
     (unat (parent_idx (ctxs ! i)) < 64 \<and> state (ctxs ! unat (parent_idx (ctxs ! i))) \<noteq> Inactive \<and>
      i \<in> kids (children (ctxs ! unat (parent_idx (ctxs ! i)))))"

definition forest :: "Context list \<Rightarrow> bool" where
  "forest ctxs \<longleftrightarrow> length ctxs = 64 \<and>
     (\<forall>i < 64. state (ctxs ! i) = Inactive \<longrightarrow> blank_links (ctxs ! i)) \<and>
     (\<forall>i < 64. state (ctxs ! i) \<noteq> Inactive \<longrightarrow> linked ctxs i) \<and>
     (\<forall>i < 64. \<forall>j \<in> kids (children (ctxs ! i)). state (ctxs ! j) \<noteq> Inactive \<and>
        parent_idx (ctxs ! j) = of_nat i) \<and>
     (\<forall>i < 64. state (ctxs ! i) \<noteq> Inactive \<longrightarrow> (\<exists>is. up_path ctxs is \<and> hd is = i))"

lemma forest_length [simp]: "forest ctxs \<Longrightarrow> length ctxs = 64"
  by (simp add: forest_def)

lemma small_u8 [simp]: "i < 64 \<Longrightarrow> unat (of_nat i :: u8) = i"
  by (simp add: unat_of_nat)

lemma small_u8_not_root [simp]: "i < 64 \<Longrightarrow> (of_nat i :: u8) \<noteq> ROOT_INDEX"
proof
  assume "i < 64" "(of_nat i :: u8) = ROOT_INDEX"
  then have "unat (of_nat i :: u8) = unat (255 :: u8)" by (simp add: ROOT_INDEX_def)
  with \<open>i < 64\<close> show False by simp
qed

lemma small_u8_inject: "i < 64 \<Longrightarrow> j < 64 \<Longrightarrow> (of_nat i :: u8) = of_nat j \<longleftrightarrow> i = j"
  by (metis small_u8)

lemma forest_up_path:
  assumes "forest ctxs" "i < 64" "state (ctxs ! i) \<noteq> Inactive"
  obtains "is" where "up_path ctxs (i # is)"
proof -
  from assms obtain js where "up_path ctxs js" "hd js = i" unfolding forest_def by blast
  then show thesis by (cases js) (auto intro: that)
qed

lemma forest_child:
  "forest ctxs \<Longrightarrow> i < 64 \<Longrightarrow> j \<in> kids (children (ctxs ! i)) \<Longrightarrow>
     j < 64 \<and> state (ctxs ! j) \<noteq> Inactive \<and> parent_idx (ctxs ! j) = of_nat i"
  unfolding forest_def by (blast dest: kids_lt)

lemma forest_parent_live:
  "forest ctxs \<Longrightarrow> i < 64 \<Longrightarrow> kids (children (ctxs ! i)) \<noteq> {} \<Longrightarrow> state (ctxs ! i) \<noteq> Inactive"
  unfolding forest_def blank_links_def by (metis kids_empty)

lemma up_path_child:
  assumes "forest ctxs" "up_path ctxs (i # is)" "j \<in> kids (children (ctxs ! i))"
  shows "up_path ctxs (j # i # is)"
proof -
  have "i < 64" using assms up_path_live [OF assms(2), of i] by (simp add: live_node_def)
  with assms forest_child [of ctxs i j]
  have j: "j < 64" "state (ctxs ! j) \<noteq> Inactive" "parent_idx (ctxs ! j) = of_nat i" by auto
  moreover have "valid_parent_idx (of_nat i)"
    using \<open>i < 64\<close> by (simp add: valid_parent_idx_def word_le_nat_alt)
  ultimately show ?thesis using assms \<open>i < 64\<close> by (simp add: live_node_def)
qed

lemma trancl_children:
  "i < length ctxs \<Longrightarrow> (child_rel ctxs)\<^sup>+ `` {i} =
     kids (children (ctxs ! i)) \<union> (\<Union>j \<in> kids (children (ctxs ! i)). (child_rel ctxs)\<^sup>+ `` {j})"
  by (auto simp: child_rel_def elim: converse_tranclE intro: trancl_into_trancl2)

lemma desc_loop_Ok:
  assumes "\<And>i. i \<in> set is \<Longrightarrow> i < length ctxs \<and> (\<exists>e. rec (ctxs ! i) = Ok e \<and> kids e = D i)"
  shows "\<exists>e. desc_loop rec ctxs is d = Ok e \<and> kids e = kids d \<union> (\<Union>i \<in> set is. D i)"
  using assms
proof (induction "is" arbitrary: d)
  case (Cons i "is")
  have "i < length ctxs \<and> (\<exists>e. rec (ctxs ! i) = Ok e \<and> kids e = D i)"
    by (rule Cons.prems) simp
  then obtain e where e: "i < length ctxs" "rec (ctxs ! i) = Ok e" "kids e = D i" by blast
  from Cons obtain f where "desc_loop rec ctxs is (children_add_children d e) = Ok f"
    "kids f = kids (children_add_children d e) \<union> (\<Union>i \<in> set is. D i)" by fastforce
  with e show ?case by auto
qed simp

lemma get_descendants_fuel_forest:
  assumes "forest (contexts st)"
  shows "up_path (contexts st) (i # is) \<Longrightarrow> 65 \<le> n + length (i # is) \<Longrightarrow>
     \<exists>d. get_descendants_fuel n st (contexts st ! i) = Ok d \<and>
         kids d = (child_rel (contexts st))\<^sup>+ `` {i}"
proof (induction n arbitrary: i "is")
  case 0
  have "length (i # is) \<le> 64"
    using up_path_length [OF "0.prems"(1)] assms by simp
  with "0.prems"(2) show ?case by simp
next
  case (Suc n)
  let ?c = "contexts st ! i"
  have i: "i < 64" "state ?c \<noteq> Inactive"
    using up_path_live [OF Suc.prems(1), of i] assms by (auto simp: live_node_def)
  have "\<exists>d. desc_loop (get_descendants_fuel n st) (contexts st) (children_iter (children ?c))
      (children ?c) = Ok d \<and> kids d = kids (children ?c) \<union>
      (\<Union>j \<in> set (children_iter (children ?c)). (child_rel (contexts st))\<^sup>+ `` {j})"
  proof (rule desc_loop_Ok)
    fix j
    assume "j \<in> set (children_iter (children ?c))"
    then have j: "j \<in> kids (children ?c)" by simp
    with Suc.IH [of j "i # is"] up_path_child [OF assms Suc.prems(1) j] Suc.prems(2) assms
    show "j < length (contexts st) \<and> (\<exists>e. get_descendants_fuel n st (contexts st ! j) = Ok e \<and>
        kids e = (child_rel (contexts st))\<^sup>+ `` {j})"
      by (auto dest: kids_lt)
  qed
  with i trancl_children [of i "contexts st"] assms show ?case by simp
qed

lemma get_descendants_forest:
  assumes "forest (contexts st)" "i < 64" "state (contexts st ! i) \<noteq> Inactive"
  obtains d where "get_descendants st (contexts st ! i) = Ok d"
    and "kids d = (child_rel (contexts st))\<^sup>+ `` {i}"
proof -
  from forest_up_path [OF assms] obtain "is" where "up_path (contexts st) (i # is)" .
  from get_descendants_fuel_forest [OF assms(1) this, of "Suc MAX_HANDLES"] show thesis
    using that by (auto simp: get_descendants_def)
qed

lemma forest_initial: "forest (replicate 64 Context_new)"
  by (simp add: forest_def blank_links_def)

end
