(* ===== verification/Wire.thy ===== *)
theory Wire
  imports Profile
begin

text \<open>
  Reading and writing the packed little-endian structures of the wire format (the zerocopy
  conversions \<open>as_bytes\<close>, \<open>read_from_prefix\<close>, \<open>ref_from_prefix\<close> and \<open>try_read_from_bytes\<close> that the
  derives on the ABI structures give). A reader consumes a prefix and returns the rest; \<open>wire\<close> is
  the contract of a structure's writer and reader.
\<close>

type_synonym 'a reader = "bytes \<Rightarrow> ('a \<times> bytes) option"

definition read_n :: "nat \<Rightarrow> bytes reader" where
  "read_n n bs = (if n \<le> length bs then Some (take n bs, drop n bs) else None)"

definition read_u16 :: "u16 reader" where
  "read_u16 bs = map_option (\<lambda>(x, r). (u16_from_le_bytes x, r)) (read_n 2 bs)"

definition read_u32 :: "u32 reader" where
  "read_u32 bs = map_option (\<lambda>(x, r). (u32_from_le_bytes x, r)) (read_n 4 bs)"

text \<open>A field of type \<open>DpeProfile\<close> is valid only with one of its discriminants.\<close>

definition read_profile :: "DpeProfile reader" where
  "read_profile bs = Option.bind (read_u32 bs) (\<lambda>(w, r).
     map_option (\<lambda>p. (p, r)) (profile_of_u32 w))"

definition then_read :: "'a reader \<Rightarrow> ('a \<Rightarrow> 'b reader) \<Rightarrow> 'b reader" where
  "then_read m f bs = Option.bind (m bs) (\<lambda>(x, r). f x r)"

definition read_done :: "'a \<Rightarrow> 'a reader" where
  "read_done x bs = Some (x, bs)"

text \<open>\<open>try_read_from_bytes\<close>: the whole input is the structure.\<close>

definition read_exact :: "'a reader \<Rightarrow> bytes \<Rightarrow> 'a option" where
  "read_exact rd bs = (case rd bs of Some (x, []) \<Rightarrow> Some x | _ \<Rightarrow> None)"

text \<open>\<open>ref_from_prefix\<close> and \<open>try_read_from_prefix\<close>: the input starts with the structure.\<close>

definition read_prefix :: "'a reader \<Rightarrow> bytes \<Rightarrow> 'a option" where
  "read_prefix rd bs = map_option fst (rd bs)"

named_theorems wire_simps \<open>reading back what was written\<close>

lemma read_n_append [wire_simps]: "length x = n \<Longrightarrow> read_n n (x @ r) = Some (x, r)"
  by (simp add: read_n_def)

lemma read_u16_append [wire_simps]: "read_u16 (u16_to_le_bytes w @ r) = Some (w, r)"
  by (simp add: read_u16_def read_n_append)

lemma read_u32_append [wire_simps]: "read_u32 (u32_to_le_bytes w @ r) = Some (w, r)"
  by (simp add: read_u32_def read_n_append)

lemma read_profile_append [wire_simps]:
  "read_profile (u32_to_le_bytes (profile_u32 p) @ r) = Some (p, r)"
  by (simp add: read_profile_def read_u32_append)

lemma then_read_Some [wire_simps]: "m bs = Some (x, r) \<Longrightarrow> then_read m f bs = f x r"
  by (simp add: then_read_def)

lemma read_done_eq [wire_simps]: "read_done x bs = Some (x, bs)"
  by (simp add: read_done_def)

text \<open>Readers fail exactly on short input.\<close>

lemma read_n_None: "read_n n bs = None \<longleftrightarrow> length bs < n"
  by (simp add: read_n_def)

lemma read_n_Some: "read_n n bs = Some (x, r) \<longleftrightarrow> length x = n \<and> bs = x @ r"
  by (auto simp: read_n_def)

section \<open>The contract of a structure\<close>

locale wire =
  fixes size :: nat and ok :: "'a \<Rightarrow> bool" and emit :: "'a \<Rightarrow> bytes" and rd :: "'a reader"
  assumes length_write: "ok x \<Longrightarrow> length (emit x) = size"
    and read_write: "ok x \<Longrightarrow> rd (emit x @ r) = Some (x, r)"
begin

lemma read_exact_write: "ok x \<Longrightarrow> read_exact rd (emit x) = Some x"
  using read_write [of x "[]"] by (simp add: read_exact_def)

lemma read_prefix_write: "ok x \<Longrightarrow> read_prefix rd (emit x @ r) = Some x"
  by (simp add: read_prefix_def read_write)

lemma write_inject: "ok x \<Longrightarrow> ok y \<Longrightarrow> emit x = emit y \<longleftrightarrow> x = y"
  by (metis read_exact_write option.inject)

text \<open>A structure written at the start of a zeroed buffer of its own size fills it.\<close>

lemma splice_zeroed: "ok x \<Longrightarrow> splice (replicate size 0) 0 (emit x) = emit x"
  by (simp add: splice_whole length_write)

lemma read_exact_splice: "ok x \<Longrightarrow> length buf = size \<Longrightarrow> read_exact rd (splice buf 0 (emit x)) = Some x"
  by (simp add: splice_whole length_write read_exact_write)

end

end
