(* ===== verification/Platform.thy ===== *)
theory Platform
  imports Profile
begin

text \<open>
  The platform crate (platform/src/lib.rs, default.rs): the data a platform supplies, the trait
  \<open>Platform\<close> as a record of operations, and the test platform \<open>DefaultPlatform\<close> with the proof that
  it serves its certificate chain chunk by chunk.
\<close>

section \<open>Platform data\<close>

definition MAX_CHUNK_SIZE :: nat where "MAX_CHUNK_SIZE = 2048"
definition MAX_ISSUER_NAME_SIZE :: nat where "MAX_ISSUER_NAME_SIZE = 128"
definition MAX_SN_SIZE :: nat where "MAX_SN_SIZE = 20"
definition MAX_KEY_IDENTIFIER_SIZE :: nat where "MAX_KEY_IDENTIFIER_SIZE = 20"
definition MAX_VALIDITY_SIZE :: nat where "MAX_VALIDITY_SIZE = 24"
definition MAX_OTHER_NAME_SIZE :: nat where "MAX_OTHER_NAME_SIZE = 128"
definition MAX_UEID_SIZE :: nat where "MAX_UEID_SIZE = 48"

lemmas platform_sizes [simp] =
  MAX_CHUNK_SIZE_def MAX_ISSUER_NAME_SIZE_def MAX_SN_SIZE_def MAX_KEY_IDENTIFIER_SIZE_def
  MAX_VALIDITY_SIZE_def MAX_OTHER_NAME_SIZE_def MAX_UEID_SIZE_def

record Ueid =
  ueid_buf :: bytes
  ueid_buf_size :: u32

definition ueid_get :: "Ueid \<Rightarrow> (PlatformError, bytes) outcome" where
  "ueid_get u = ok_or (get_range (ueid_buf u) 0 (unat (ueid_buf_size u))) InvalidUeidError"

definition ueid_default :: Ueid where
  "ueid_default = \<lparr>ueid_buf = replicate MAX_UEID_SIZE 0, ueid_buf_size = 0\<rparr>"

text \<open>An \<open>ArrayVec<u8, N>\<close> is a byte list of length at most \<open>N\<close>.\<close>

definition try_extend_from_slice :: "nat \<Rightarrow> bytes \<Rightarrow> bytes \<Rightarrow> bytes option" where
  "try_extend_from_slice cap v bs = (if length v + length bs \<le> cap then Some (v @ bs) else None)"

datatype SignerIdentifier =
    IssuerAndSerialNumber (issuer_name: bytes) (serial_number: bytes)
  | SubjectKeyIdentifier bytes

record OtherName =
  on_oid :: bytes
  on_other_name :: bytes

datatype SubjectAltName = SanOtherName OtherName

record CertValidity =
  not_before :: bytes
  not_after :: bytes

section \<open>The trait Platform\<close>

text \<open>
  An operation that writes a buffer is given its old contents and yields the new byte for every
  index.
\<close>

record 'p platform_ops =
  op_get_certificate_chain :: "u32 \<Rightarrow> u32 \<Rightarrow> bytes \<Rightarrow> ('p, PlatformError, u32 \<times> (nat \<Rightarrow> u8)) act"
  op_get_issuer_name :: "bytes \<Rightarrow> ('p, PlatformError, nat \<times> (nat \<Rightarrow> u8)) act"
  op_get_signer_identifier :: "('p, PlatformError, SignerIdentifier) act"
  op_get_issuer_key_identifier :: "bytes \<Rightarrow> ('p, PlatformError, nat \<Rightarrow> u8) act"
  op_get_vendor_id :: "('p, PlatformError, u32) act"
  op_get_vendor_sku :: "('p, PlatformError, u32) act"
  op_get_auto_init_locality :: "('p, PlatformError, u32) act"
  op_write_str :: "string \<Rightarrow> ('p, PlatformError, unit) act"
  op_get_cert_validity :: "('p, PlatformError, CertValidity) act"
  op_get_subject_alternative_name :: "('p, PlatformError, SubjectAltName) act"
  op_get_ueid :: "('p, PlatformError, Ueid) act"

definition get_certificate_chain ::
  "'p platform_ops \<Rightarrow> u32 \<Rightarrow> u32 \<Rightarrow> bytes \<Rightarrow> ('p, PlatformError, u32 \<times> bytes) act" where
  "get_certificate_chain ops offset sz buf =
     bind (op_get_certificate_chain ops offset sz buf) (\<lambda>(n, f). ret (n, map f [0..<length buf]))"

definition get_issuer_name :: "'p platform_ops \<Rightarrow> bytes \<Rightarrow> ('p, PlatformError, nat \<times> bytes) act" where
  "get_issuer_name ops buf =
     bind (op_get_issuer_name ops buf) (\<lambda>(n, f). ret (n, map f [0..<length buf]))"

definition get_issuer_key_identifier :: "'p platform_ops \<Rightarrow> bytes \<Rightarrow> ('p, PlatformError, bytes) act" where
  "get_issuer_key_identifier ops buf =
     bind (op_get_issuer_key_identifier ops buf) (\<lambda>f. ret (map f [0..<length buf]))"

section \<open>The contract of a certificate chain source\<close>

text \<open>
  A platform that serves the chain \<open>chain\<close>: a request inside it returns the bytes up to the size
  asked for or the end, a request past the end fails. The chain is short enough for the offsets of
  its chunks to be 32-bit integers.
\<close>

definition addressable :: "bytes \<Rightarrow> bool" where
  "addressable chain \<longleftrightarrow> length chain + MAX_CHUNK_SIZE < 2 ^ 32"

locale chain_source =
  fixes ops :: "'p platform_ops" and chain :: bytes
  assumes inside: "addressable chain \<Longrightarrow> unat offset < length chain \<Longrightarrow> unat sz \<le> MAX_CHUNK_SIZE \<Longrightarrow>
      unat offset + unat sz < 2 ^ 32 \<Longrightarrow> length buf = MAX_CHUNK_SIZE \<Longrightarrow>
      \<exists>n buf' s'. get_certificate_chain ops offset sz buf s = (Ok (n, buf'), s') \<and>
        unat n = min (unat sz) (length chain - unat offset) \<and>
        take (unat n) buf' = take (unat n) (drop (unat offset) chain) \<and> length buf' = MAX_CHUNK_SIZE"
    and outside: "addressable chain \<Longrightarrow> length chain \<le> unat offset \<Longrightarrow>
      \<exists>e s'. get_certificate_chain ops offset sz buf s = (Err e, s')"
begin

text \<open>A chunk read at \<open>offset\<close> extends what was read before by a non-empty piece of the chain.\<close>

lemma chunk_extends:
  assumes "addressable chain" "unat offset < length chain" "length buf = MAX_CHUNK_SIZE"
  obtains n buf' s' where "get_certificate_chain ops offset (of_nat MAX_CHUNK_SIZE) buf s = (Ok (n, buf'), s')"
    and "take (unat offset) chain @ take (unat n) buf' = take (unat (offset + n)) chain"
    and "0 < unat n" and "unat n \<le> MAX_CHUNK_SIZE" and "unat (offset + n) = unat offset + unat n"
    and "unat (offset + n) \<le> length chain" and "length buf' = MAX_CHUNK_SIZE"
proof -
  have sz: "unat (of_nat MAX_CHUNK_SIZE :: u32) = 2048" by simp
  have small: "unat offset + 2048 < 2 ^ 32" using assms(1,2) by (simp add: addressable_def)
  obtain n buf' s' where r: "get_certificate_chain ops offset (of_nat MAX_CHUNK_SIZE) buf s = (Ok (n, buf'), s')"
    and n: "unat n = min 2048 (length chain - unat offset)"
    and t: "take (unat n) buf' = take (unat n) (drop (unat offset) chain)" and l: "length buf' = MAX_CHUNK_SIZE"
    using inside [OF assms(1,2), of "of_nat MAX_CHUNK_SIZE" buf s] sz small assms(3) by auto
  have sum: "unat (offset + n) = unat offset + unat n"
    using n small by (simp add: unat_word_ariths)
  have "take (unat offset) chain @ take (unat n) buf' = take (unat (offset + n)) chain"
    by (simp add: t sum take_add)
  with r n sum l assms(2) show thesis by (intro that) auto
qed

end

section \<open>DefaultPlatform\<close>

datatype DefaultPlatformProfile = P256 | P384 | PlatMldsa87

text \<open>
  The generated test certificates and what the certificate parser reads from them are data outside
  the source: they are given for each profile.
\<close>

record artifacts =
  art_cert_chain :: "DefaultPlatformProfile \<Rightarrow> bytes"
  art_issuer_name :: "DefaultPlatformProfile \<Rightarrow> bytes"
  art_issuer_sn :: "DefaultPlatformProfile \<Rightarrow> bytes"
  art_key_identifier :: "DefaultPlatformProfile \<Rightarrow> bytes"

definition AUTO_INIT_LOCALITY :: u32 where "AUTO_INIT_LOCALITY = 0"
definition VENDOR_ID :: u32 where "VENDOR_ID = 0"
definition VENDOR_SKU :: u32 where "VENDOR_SKU = 0"
definition NOT_BEFORE :: bytes where "NOT_BEFORE = ascii ''20230227000000Z''"
definition NOT_AFTER :: bytes where "NOT_AFTER = ascii ''99991231235959Z''"
definition TEST_UEID :: bytes where "TEST_UEID = replicate 17 0xA"

definition default_get_certificate_chain ::
  "artifacts \<Rightarrow> DefaultPlatformProfile \<Rightarrow> u32 \<Rightarrow> u32 \<Rightarrow> bytes \<Rightarrow>
     (PlatformError, u32 \<times> (nat \<Rightarrow> u8)) outcome" where
  "default_get_certificate_chain art p offset sz buf =
     (let chain = art_cert_chain art p; len = of_nat (length chain) :: u32
      in if len \<le> offset then Err CertificateChainError
      else if 2 ^ 32 \<le> unat offset + unat sz then Panic
      else
        let range_end = min (offset + sz) len; bytes_written = range_end - offset
        in if MAX_CHUNK_SIZE < unat bytes_written then Err CertificateChainError
        else
          Ok (bytes_written,
              \<lambda>i. splice buf 0 (take (unat bytes_written) (drop (unat offset) chain)) ! i))"

definition default_get_issuer_name ::
  "artifacts \<Rightarrow> DefaultPlatformProfile \<Rightarrow> bytes \<Rightarrow> (PlatformError, nat \<times> (nat \<Rightarrow> u8)) outcome" where
  "default_get_issuer_name art p buf =
     (let name = art_issuer_name art p
      in if length buf < length name then Err (IssuerNameError 0)
      else Ok (length name, \<lambda>i. splice buf 0 name ! i))"

definition default_get_signer_identifier ::
  "artifacts \<Rightarrow> DefaultPlatformProfile \<Rightarrow> (PlatformError, SignerIdentifier) outcome" where
  "default_get_signer_identifier art p =
     bindO (default_get_issuer_name art p (replicate MAX_ISSUER_NAME_SIZE 0)) (\<lambda>(issuer_len, f).
       bindO (ok_or (try_extend_from_slice MAX_ISSUER_NAME_SIZE []
                (take issuer_len (map f [0..<MAX_ISSUER_NAME_SIZE]))) (IssuerNameError 0)) (\<lambda>name.
         bindO (ok_or (try_extend_from_slice MAX_SN_SIZE [] (art_issuer_sn art p))
                  (SerialNumberError 0)) (\<lambda>sn.
           Ok (IssuerAndSerialNumber name sn))))"

definition default_get_issuer_key_identifier ::
  "artifacts \<Rightarrow> DefaultPlatformProfile \<Rightarrow> (PlatformError, nat \<Rightarrow> u8) outcome" where
  "default_get_issuer_key_identifier art p =
     (let key_identifier = art_key_identifier art p
      in if length key_identifier < MAX_KEY_IDENTIFIER_SIZE then Err (IssuerKeyIdentifierError 0)
      else Ok (\<lambda>i. take MAX_KEY_IDENTIFIER_SIZE key_identifier ! i))"

definition default_get_cert_validity :: "(PlatformError, CertValidity) outcome" where
  "default_get_cert_validity =
     bindO (ok_or (try_extend_from_slice MAX_VALIDITY_SIZE [] NOT_BEFORE) (CertValidityError 0)) (\<lambda>b.
       bindO (ok_or (try_extend_from_slice MAX_VALIDITY_SIZE [] NOT_AFTER) (CertValidityError 0)) (\<lambda>a.
         Ok \<lparr>not_before = b, not_after = a\<rparr>))"

definition default_get_ueid :: Ueid where
  "default_get_ueid = \<lparr>ueid_buf = splice (ueid_buf ueid_default) 0 TEST_UEID,
     ueid_buf_size = of_nat (length TEST_UEID)\<rparr>"

definition default_platform :: "artifacts \<Rightarrow> DefaultPlatformProfile \<Rightarrow> unit platform_ops" where
  "default_platform art p = \<lparr>
     op_get_certificate_chain = (\<lambda>offset sz buf. lift (default_get_certificate_chain art p offset sz buf)),
     op_get_issuer_name = (\<lambda>buf. lift (default_get_issuer_name art p buf)),
     op_get_signer_identifier = lift (default_get_signer_identifier art p),
     op_get_issuer_key_identifier = (\<lambda>buf. lift (default_get_issuer_key_identifier art p)),
     op_get_vendor_id = ret VENDOR_ID,
     op_get_vendor_sku = ret VENDOR_SKU,
     op_get_auto_init_locality = ret AUTO_INIT_LOCALITY,
     op_write_str = (\<lambda>str. ret ()),
     op_get_cert_validity = lift default_get_cert_validity,
     op_get_subject_alternative_name = throw PlatformNotImplemented,
     op_get_ueid = ret default_get_ueid\<rparr>"

lemma map_nth_upt: "length xs = n \<Longrightarrow> map ((!) xs) [0..<n] = xs"
  using map_nth [of xs] by simp

lemma default_get_ueid_value: "ueid_get default_get_ueid = Ok TEST_UEID"
  by (simp add: ueid_get_def default_get_ueid_def ueid_default_def TEST_UEID_def get_range_def
      splice_def)

text \<open>The test platform is a certificate chain source for its own chain.\<close>

interpretation default_chain: chain_source "default_platform art p" "art_cert_chain art p" for art p
proof
  fix offset sz :: u32 and buf :: bytes and s :: unit
  let ?chain = "art_cert_chain art p"
  assume "addressable ?chain"
  then have len: "length ?chain + MAX_CHUNK_SIZE < 2 ^ 32" by (simp add: addressable_def)
  have ul: "unat (of_nat (length ?chain) :: u32) = length ?chain"
    using len by (simp add: unat_of_nat)
  {
    assume off: "unat offset < length ?chain" and sz: "unat sz \<le> MAX_CHUNK_SIZE"
      and sum: "unat offset + unat sz < 2 ^ 32" and buf: "length buf = MAX_CHUNK_SIZE"
    let ?w = "min (offset + sz) (of_nat (length ?chain)) - offset"
    have us: "unat (offset + sz) = unat offset + unat sz"
      using sum by (simp add: unat_word_ariths)
    have m: "unat (min (offset + sz) (of_nat (length ?chain))) =
        min (unat offset + unat sz) (length ?chain)"
      using us ul by (simp add: min_def word_le_nat_alt)
    have ge: "offset \<le> min (offset + sz) (of_nat (length ?chain))"
      unfolding word_le_nat_alt m using off by simp
    have w: "unat ?w = min (unat sz) (length ?chain - unat offset)"
      using ge m off by (simp add: unat_sub)
    have nle: "\<not> (of_nat (length ?chain) :: u32) \<le> offset"
      using off ul by (simp add: word_le_nat_alt)
    let ?b = "splice buf 0 (take (unat ?w) (drop (unat offset) ?chain))"
    have lw: "length (take (unat ?w) (drop (unat offset) ?chain)) = unat ?w"
      using w by simp
    have lb: "length ?b = MAX_CHUNK_SIZE" using w sz buf lw by simp
    have "get_certificate_chain (default_platform art p) offset sz buf s = (Ok (?w, ?b), s)"
      using nle sum w sz buf map_nth_upt [OF lb]
      by (simp add: get_certificate_chain_def default_platform_def default_get_certificate_chain_def
          bind_def Let_def not_le)
    moreover have "take (unat ?w) ?b = take (unat ?w) (drop (unat offset) ?chain)"
      using lw by (simp add: splice_def)
    ultimately show "\<exists>n buf' s'. get_certificate_chain (default_platform art p) offset sz buf s =
        (Ok (n, buf'), s') \<and> unat n = min (unat sz) (length ?chain - unat offset) \<and>
        take (unat n) buf' = take (unat n) (drop (unat offset) ?chain) \<and> length buf' = MAX_CHUNK_SIZE"
      using w lb by blast
  }
  {
    assume "length ?chain \<le> unat offset"
    with ul have "(of_nat (length ?chain) :: u32) \<le> offset" by (simp add: word_le_nat_alt)
    then show "\<exists>e s'. get_certificate_chain (default_platform art p) offset sz buf s = (Err e, s')"
      by (simp add: get_certificate_chain_def default_platform_def default_get_certificate_chain_def
          bind_def Let_def)
  }
qed

end
