(* ===== verification/ResponseBuf.thy ===== *)
theory ResponseBuf
  imports Prelude
begin

text \<open>
  The response-buffer crate (response-buffer/src/lib.rs): the sink a serialized response is written
  to. \<open>response_buffer\<close> states what a buffer promises its client; the slice-backed buffer and the
  shifted view are its two providers. \<open>read_range\<close> hands consecutive chunks to a closure, which is
  modelled by the bytes the chunks cover.
\<close>

datatype ResponseBufError = Overflow

definition USIZE_MAX :: nat where
  "USIZE_MAX = 2 ^ 64 - 1"

definition checked_add :: "nat \<Rightarrow> nat \<Rightarrow> nat option" where
  "checked_add a b = (if a + b \<le> USIZE_MAX then Some (a + b) else None)"

section \<open>SliceResponseBuffer\<close>

definition slice_clear :: "bytes \<Rightarrow> (ResponseBufError, unit) outcome \<times> bytes" where
  "slice_clear buf = (Ok (), replicate (length buf) 0)"

definition slice_write_at ::
  "nat \<Rightarrow> bytes \<Rightarrow> bytes \<Rightarrow> (ResponseBufError, unit) outcome \<times> bytes" where
  "slice_write_at offset bs buf =
     (case checked_add offset (length bs) of
        None \<Rightarrow> (Err Overflow, buf)
      | Some e \<Rightarrow>
          (case get_range buf offset e of
             None \<Rightarrow> (Err Overflow, buf)
           | Some _ \<Rightarrow> (Ok (), splice buf offset bs)))"

definition slice_read_range :: "nat \<Rightarrow> nat \<Rightarrow> bytes \<Rightarrow> (ResponseBufError, bytes) outcome" where
  "slice_read_range a b buf = ok_or (get_range buf a b) Overflow"

definition slice_capacity :: "bytes \<Rightarrow> nat" where
  "slice_capacity buf = length buf"

section \<open>OffsetResponseBuffer\<close>

text \<open>The view over an inner buffer whose operations are the arguments, shifted by \<open>base\<close>.\<close>

definition offset_write_at ::
  "(nat \<Rightarrow> bytes \<Rightarrow> 'b \<Rightarrow> (ResponseBufError, unit) outcome \<times> 'b) \<Rightarrow>
     nat \<Rightarrow> nat \<Rightarrow> bytes \<Rightarrow> 'b \<Rightarrow> (ResponseBufError, unit) outcome \<times> 'b" where
  "offset_write_at inner_write base offset bs b =
     (case checked_add base offset of
        None \<Rightarrow> (Err Overflow, b)
      | Some adjusted \<Rightarrow> inner_write adjusted bs b)"

definition offset_read_range ::
  "(nat \<Rightarrow> nat \<Rightarrow> 'b \<Rightarrow> (ResponseBufError, bytes) outcome) \<Rightarrow>
     nat \<Rightarrow> nat \<Rightarrow> nat \<Rightarrow> 'b \<Rightarrow> (ResponseBufError, bytes) outcome" where
  "offset_read_range inner_read base a z b =
     bindO (ok_or (checked_add base a) Overflow) (\<lambda>start.
       bindO (ok_or (checked_add base z) Overflow) (\<lambda>e. inner_read start e b))"

definition offset_capacity :: "('b \<Rightarrow> nat) \<Rightarrow> nat \<Rightarrow> 'b \<Rightarrow> nat" where
  "offset_capacity inner_capacity base b = inner_capacity b - base"

text \<open>\<open>clear\<close> writes a zero byte at every index of the view.\<close>

fun clear_loop ::
  "(nat \<Rightarrow> bytes \<Rightarrow> 'b \<Rightarrow> (ResponseBufError, unit) outcome \<times> 'b) \<Rightarrow> nat list \<Rightarrow> 'b \<Rightarrow>
     (ResponseBufError, unit) outcome \<times> 'b" where
  "clear_loop write [] b = ret () b"
| "clear_loop write (i # is) b = bind (write i [0]) (\<lambda>_. clear_loop write is) b"

definition offset_clear ::
  "(nat \<Rightarrow> bytes \<Rightarrow> 'b \<Rightarrow> (ResponseBufError, unit) outcome \<times> 'b) \<Rightarrow> ('b \<Rightarrow> nat) \<Rightarrow> nat \<Rightarrow> 'b \<Rightarrow>
     (ResponseBufError, unit) outcome \<times> 'b" where
  "offset_clear inner_write inner_capacity base b =
     clear_loop (offset_write_at inner_write base) [0..<offset_capacity inner_capacity base b] b"

section \<open>The contract of a response buffer\<close>

text \<open>
  \<open>content\<close> is the storage the buffer addresses and \<open>valid\<close> the buffers of a machine: storage within
  the address space. A write inside the storage replaces exactly its range, a write that does not
  fit fails and changes nothing, and a read returns the bytes of its range.
\<close>

locale response_buffer =
  fixes valid :: "'b \<Rightarrow> bool"
    and content :: "'b \<Rightarrow> bytes"
    and clear :: "'b \<Rightarrow> (ResponseBufError, unit) outcome \<times> 'b"
    and write_at :: "nat \<Rightarrow> bytes \<Rightarrow> 'b \<Rightarrow> (ResponseBufError, unit) outcome \<times> 'b"
    and read_range :: "nat \<Rightarrow> nat \<Rightarrow> 'b \<Rightarrow> (ResponseBufError, bytes) outcome"
    and capacity :: "'b \<Rightarrow> nat"
  assumes capacity: "valid b \<Longrightarrow> capacity b = length (content b)"
    and write_fits: "valid b \<Longrightarrow> off + length bs \<le> capacity b \<Longrightarrow>
      \<exists>b'. write_at off bs b = (Ok (), b') \<and> valid b' \<and> content b' = splice (content b) off bs"
    and write_overflow: "valid b \<Longrightarrow> capacity b < off + length bs \<Longrightarrow>
      write_at off bs b = (Err Overflow, b)"
    and read: "valid b \<Longrightarrow> a \<le> z \<Longrightarrow> z \<le> capacity b \<Longrightarrow>
      read_range a z b = Ok (take (z - a) (drop a (content b)))"
    and read_overflow: "valid b \<Longrightarrow> capacity b < z \<Longrightarrow> read_range a z b = Err Overflow"
    and clear: "valid b \<Longrightarrow> \<exists>b'. clear b = (Ok (), b') \<and> valid b' \<and>
      content b' = replicate (capacity b) 0"
begin

lemma write_result:
  "valid b \<Longrightarrow> write_at off bs b = (r, b') \<Longrightarrow>
     (r = Ok () \<and> off + length bs \<le> capacity b \<and> content b' = splice (content b) off bs \<and> valid b')
     \<or> (r = Err Overflow \<and> capacity b < off + length bs \<and> b' = b)"
  by (cases "off + length bs \<le> capacity b")
    (auto dest: write_fits [of b off bs] write_overflow [of b off bs])

lemma write_read_back:
  assumes "valid b" "write_at off bs b = (Ok (), b')"
  shows "read_range off (off + length bs) b' = Ok bs"
proof -
  from write_result [OF assms]
  have fits: "off + length bs \<le> capacity b" and c: "content b' = splice (content b) off bs"
    and v: "valid b'" by auto
  then have "capacity b' = capacity b" using capacity assms(1) by simp
  with read [OF v, of off "off + length bs"] fits c show ?thesis
    using capacity [OF assms(1)] by (simp add: splice_read_back)
qed

text \<open>Two writes one after the other, back to back, are one write of the joined bytes.\<close>

lemma write_append:
  assumes "valid b" "off + length xs + length ys \<le> capacity b"
  shows "\<exists>b1 b2. write_at off xs b = (Ok (), b1) \<and> write_at (off + length xs) ys b1 = (Ok (), b2) \<and>
    content b2 = splice (content b) off (xs @ ys) \<and> valid b2"
proof -
  from assms obtain b1 where b1: "write_at off xs b = (Ok (), b1)" "valid b1"
    "content b1 = splice (content b) off xs" using write_fits [of b off xs] by auto
  then have "capacity b1 = capacity b" using assms capacity by simp
  with b1 assms obtain b2 where "write_at (off + length xs) ys b1 = (Ok (), b2)" "valid b2"
    "content b2 = splice (content b1) (off + length xs) ys"
    using write_fits [of b1 "off + length xs" ys] by auto
  with b1 assms capacity [OF assms(1)] show ?thesis
    by (auto simp: splice_append)
qed

end

lemma slice_write_at_eq:
  "length buf \<le> USIZE_MAX \<Longrightarrow> slice_write_at off bs buf =
     (if off + length bs \<le> length buf then (Ok (), splice buf off bs) else (Err Overflow, buf))"
  by (auto simp: slice_write_at_def checked_add_def get_range_def)

lemma slice_write_at_Ok:
  "slice_write_at off bs buf = (Ok u, buf') \<longleftrightarrow>
     off + length bs \<le> length buf \<and> off + length bs \<le> USIZE_MAX \<and> buf' = splice buf off bs"
  by (auto simp: slice_write_at_def checked_add_def get_range_def)

lemma slice_write_at_cases:
  "slice_write_at off bs buf = (Ok (), splice buf off bs) \<or>
   slice_write_at off bs buf = (Err Overflow, buf)"
  by (auto simp: slice_write_at_def checked_add_def get_range_def)

lemma length_slice_write_at: "slice_write_at off bs buf = (r, buf') \<Longrightarrow> length buf' = length buf"
  by (auto simp: slice_write_at_def checked_add_def get_range_def split: if_splits)

definition slice_valid :: "bytes \<Rightarrow> bool" where
  "slice_valid buf \<longleftrightarrow> length buf \<le> USIZE_MAX"

interpretation slice: response_buffer slice_valid id slice_clear slice_write_at slice_read_range
  slice_capacity
  by unfold_locales
    (auto simp: slice_valid_def slice_capacity_def slice_write_at_eq slice_read_range_def
      get_range_def slice_clear_def)

section \<open>The shifted view keeps the contract\<close>

context response_buffer
begin

definition offset_valid :: "nat \<Rightarrow> 'b \<Rightarrow> bool" where
  "offset_valid base b \<longleftrightarrow> valid b \<and> base \<le> capacity b \<and> capacity b \<le> USIZE_MAX"

lemma offset_write_fits:
  assumes "offset_valid base b" "off + length bs \<le> offset_capacity capacity base b"
  shows "\<exists>b'. offset_write_at write_at base off bs b = (Ok (), b') \<and> offset_valid base b' \<and>
    drop base (content b') = splice (drop base (content b)) off bs \<and>
    take base (content b') = take base (content b) \<and> capacity b' = capacity b"
proof -
  from assms have fits: "base + off + length bs \<le> capacity b" and v: "valid b"
    and le: "capacity b \<le> USIZE_MAX" and base: "base \<le> capacity b"
    by (auto simp: offset_valid_def offset_capacity_def)
  then have "checked_add base off = Some (base + off)" by (simp add: checked_add_def)
  moreover from write_fits [OF v fits] obtain b' where
    b': "write_at (base + off) bs b = (Ok (), b')" "valid b'"
    "content b' = splice (content b) (base + off) bs" by auto
  moreover have "length (content b') = length (content b)"
    using b' fits capacity [OF v] by simp
  moreover have "drop base (splice (content b) (base + off) bs) =
      splice (drop base (content b)) off bs"
    using fits capacity [OF v] by (simp add: splice_def ac_simps drop_take)
  moreover have "take base (splice (content b) (base + off) bs) = take base (content b)"
    using fits capacity [OF v] by (simp add: splice_def min_def)
  ultimately show ?thesis
    using v le base capacity [OF v] capacity [OF b'(2)]
    by (intro exI [of _ b']) (simp add: offset_write_at_def offset_valid_def)
qed

lemma offset_clear_loop:
  assumes "offset_valid base b" "k \<le> n" "n = offset_capacity capacity base b"
    "take k (drop base (content b)) = replicate k 0"
  shows "\<exists>b'. clear_loop (offset_write_at write_at base) [k..<n] b = (Ok (), b') \<and>
    offset_valid base b' \<and> drop base (content b') = replicate n 0"
  using assms
proof (induction "n - k" arbitrary: k b)
  case 0
  then have v: "valid b" "base \<le> capacity b" by (auto simp: offset_valid_def)
  with 0 capacity [OF v(1)] show ?case by (auto simp: offset_capacity_def)
next
  case (Suc d)
  then have k: "k < n" by simp
  with Suc offset_write_fits [of base b k "[0]"] obtain b1 where
    b1: "offset_write_at write_at base k [0] b = (Ok (), b1)" "offset_valid base b1"
    "drop base (content b1) = splice (drop base (content b)) k [0]" "capacity b1 = capacity b"
    by auto
  have len: "length (drop base (content b)) = n"
    using Suc.prems capacity by (auto simp: offset_valid_def offset_capacity_def)
  have "take (Suc k) (drop base (content b1)) = replicate (Suc k) 0"
    using Suc.prems(4) k len
    by (simp add: b1(3) splice_def take_Suc_conv_app_nth nth_append min_def replicate_append_same)
  with Suc.hyps(1) [of "Suc k" b1] Suc b1 k
  show ?case
    by (auto simp: upt_conv_Cons bind_def offset_capacity_def)
qed

end

text \<open>The view over a slice, for every base: the instance through which certificates are written.\<close>

definition slice_offset_valid :: "nat \<Rightarrow> bytes \<Rightarrow> bool" where
  "slice_offset_valid base buf \<longleftrightarrow> base \<le> length buf \<and> length buf \<le> USIZE_MAX"

lemma slice_offset_valid: "slice.offset_valid base = slice_offset_valid base"
  by (auto simp: slice.offset_valid_def slice_offset_valid_def slice_valid_def slice_capacity_def
      fun_eq_iff)

interpretation shifted: response_buffer "slice_offset_valid base" "drop base"
  "offset_clear slice_write_at slice_capacity base" "offset_write_at slice_write_at base"
  "offset_read_range slice_read_range base" "offset_capacity slice_capacity base" for base
proof (unfold_locales, goal_cases)
  case (1 b)
  then show ?case by (simp add: offset_capacity_def slice_capacity_def)
next
  case (2 b off bs)
  then show ?case
    using slice.offset_write_fits [of base b off bs] by (auto simp: slice_offset_valid)
next
  case (3 b off bs)
  then show ?case
    by (auto simp: offset_write_at_def checked_add_def slice_offset_valid_def offset_capacity_def
        slice_capacity_def slice_write_at_eq)
next
  case (4 b a z)
  then show ?case
    by (auto simp: offset_read_range_def checked_add_def slice_offset_valid_def offset_capacity_def
        slice_capacity_def slice_read_range_def get_range_def ac_simps)
next
  case (5 b z a)
  then show ?case
    by (auto simp: offset_read_range_def checked_add_def slice_offset_valid_def offset_capacity_def
        slice_capacity_def slice_read_range_def get_range_def ok_or_def)
next
  case (6 b)
  then show ?case
    using slice.offset_clear_loop [of base b 0 "offset_capacity slice_capacity base b"]
    by (auto simp: offset_clear_def slice_offset_valid offset_capacity_def)
qed

end
