(* ===== verification/Crypto.thy ===== *)
theory Crypto
  imports Profile ResponseBuf
begin

text \<open>
  The crypto crate (crypto/src/lib.rs, ecdsa/mod.rs, ml_dsa.rs): digests, keys, signatures, and the
  provided methods of the traits \<open>Crypto\<close>, \<open>CryptoSuite\<close> and \<open>CdiManager\<close> over the methods an
  implementation supplies. The implementation is a record of operations, a parameter of everything
  that uses it; the objects \<open>&mut dyn Hasher\<close>, \<open>&mut dyn CdiManager\<close> and \<open>&mut dyn Signer\<close> that it
  hands out are parts of its own state.
\<close>

section \<open>Digests\<close>

datatype Digest = Sha256 bytes | Sha384 bytes

primrec digest_as_slice :: "Digest \<Rightarrow> bytes" where
  "digest_as_slice (Sha256 b) = b"
| "digest_as_slice (Sha384 b) = b"

primrec digest_size :: "Digest \<Rightarrow> nat" where
  "digest_size (Sha256 b) = length b"
| "digest_size (Sha384 b) = length b"

text \<open>The lengths that the array types fix.\<close>

primrec digest_wf :: "Digest \<Rightarrow> bool" where
  "digest_wf (Sha256 b) \<longleftrightarrow> length b = 32"
| "digest_wf (Sha384 b) \<longleftrightarrow> length b = 48"

definition HEX_CHARS :: bytes where
  "HEX_CHARS = ascii ''0123456789ABCDEF''"

text \<open>
  \<open>Digest::write_hex_str\<close>: two characters per byte into \<open>dst\<close>. An index past the table or the
  buffer is an error before it could be a panic.
\<close>

fun hex_loop :: "bytes \<Rightarrow> nat \<Rightarrow> (bytes, CryptoError, unit) act" where
  "hex_loop [] curr_idx dst = ret () dst"
| "hex_loop (b # src) curr_idx dst =
     (let h1 = unat (drop_bit 4 b); h2 = unat (b AND 0xF)
      in if length HEX_CHARS \<le> h1 \<or> length HEX_CHARS \<le> h2 \<or> length dst \<le> curr_idx + 1
         then throw (CryptoLibError 0) dst
         else hex_loop src (curr_idx + 2)
                (dst[curr_idx := HEX_CHARS ! h1, curr_idx + 1 := HEX_CHARS ! h2]))"

definition write_hex_str :: "Digest \<Rightarrow> (bytes, CryptoError, unit) act" where
  "write_hex_str d dst =
     (if length dst < digest_size d * 2 then throw CryptoSize dst
      else hex_loop (digest_as_slice d) 0 dst)"

definition hex_of :: "bytes \<Rightarrow> bytes" where
  "hex_of bs = concat (map (\<lambda>b. [HEX_CHARS ! unat (drop_bit 4 b), HEX_CHARS ! unat (b AND 0xF)]) bs)"

lemma length_HEX_CHARS [simp]: "length HEX_CHARS = 16"
  by (simp add: HEX_CHARS_def)

lemma low_nibble: "(b AND 0xF :: u8) = take_bit 4 b"
  by (simp add: take_bit_eq_mask mask_numeral)

lemma nibbles [simp]: "unat (drop_bit 4 (b :: u8)) < 16" "unat (b AND 0xF) < 16"
proof -
  have "unat b < 256" using unsigned_less [of b] by simp
  then show "unat (drop_bit 4 b) < 16"
    by (simp only: unat_drop_bit_eq) (simp add: drop_bit_eq_div)
  have "unat (take_bit 4 b) = unat b mod 16"
    by (simp only: unsigned_take_bit_eq) (simp add: take_bit_eq_mod)
  then show "unat (b AND 0xF) < 16" by (simp add: low_nibble)
qed

lemma length_hex_of [simp]: "length (hex_of bs) = 2 * length bs"
  by (induction bs) (simp_all add: hex_of_def)

lemma hex_loop_eq:
  "k + 2 * length src \<le> length dst \<Longrightarrow>
     hex_loop src k dst = (Ok (), splice dst k (hex_of src))"
proof (induction src arbitrary: k dst)
  case Nil
  then show ?case by (simp add: hex_of_def)
next
  case (Cons b src)
  let ?h = "[HEX_CHARS ! unat (drop_bit 4 b), HEX_CHARS ! unat (b AND 0xF)]"
  have upd: "dst[k := x, k + 1 := y] = splice dst k [x, y]" for x y
    using Cons.prems by (simp add: splice_def upd_conv_take_nth_drop list_update_append min_def
        nth_append take_Suc_conv_app_nth Cons_nth_drop_Suc)
  have "hex_loop (b # src) k dst = hex_loop src (k + 2) (splice dst k ?h)"
    using Cons.prems nibbles [of b] upd [unfolded Suc_eq_plus1 [symmetric]]
    by (simp add: Let_def not_le [symmetric])
  also have "\<dots> = (Ok (), splice (splice dst k ?h) (k + length ?h) (hex_of src))"
    using Cons.prems Cons.IH [of "k + 2" "splice dst k ?h"] by simp
  also have "\<dots> = (Ok (), splice dst k (hex_of (b # src)))"
    using Cons.prems length_hex_of [of src]
    by (subst splice_append) (simp_all add: hex_of_def del: length_concat)
  finally show ?case .
qed

text \<open>The hexadecimal form is read back nibble by nibble.\<close>

definition hex_val :: "u8 \<Rightarrow> u8" where
  "hex_val c = (if c < 0x3A then c - 0x30 else c - 0x37)"

fun unhex :: "bytes \<Rightarrow> bytes" where
  "unhex (a # b # r) = (push_bit 4 (hex_val a) OR hex_val b) # unhex r"
| "unhex _ = []"

lemma hex_val_char: "n < 16 \<Longrightarrow> hex_val (HEX_CHARS ! n) = of_nat n"
proof -
  assume n: "n < 16"
  have "\<forall>n \<in> set [0..<16]. hex_val (HEX_CHARS ! n) = of_nat n"
    by (simp add: upt_rec HEX_CHARS_def ascii_def hex_val_def of_char_def)
  with n show ?thesis by simp
qed

lemma nibbles_join: "push_bit 4 (drop_bit 4 (b :: u8)) OR (b AND 0xF) = b"
proof (rule bit_eqI)
  fix n
  show "bit (push_bit 4 (drop_bit 4 b) OR (b AND 0xF)) n = bit b n"
    unfolding low_nibble
    by (cases "n < 4") (auto simp: bit_simps dest: bit_imp_le_length)
qed

lemma unhex_hex_of [simp]: "unhex (hex_of bs) = bs"
  by (induction bs)
    (simp_all add: hex_of_def hex_val_char nibbles_join del: One_nat_def)

section \<open>Data to sign\<close>

datatype SignDataAlgorithm = SignSha256 | SignSha384 | SignMu

primrec sign_data_alg_size :: "SignDataAlgorithm \<Rightarrow> nat" where
  "sign_data_alg_size SignSha256 = 32"
| "sign_data_alg_size SignSha384 = 48"
| "sign_data_alg_size SignMu = 64"

datatype PrecomputedSignData = PreDigest Digest | PreMu bytes

primrec precomputed_size :: "PrecomputedSignData \<Rightarrow> nat" where
  "precomputed_size (PreDigest d) = digest_size d"
| "precomputed_size (PreMu mu) = length mu"

primrec precomputed_as_slice :: "PrecomputedSignData \<Rightarrow> bytes" where
  "precomputed_as_slice (PreDigest d) = digest_as_slice d"
| "precomputed_as_slice (PreMu mu) = mu"

text \<open>\<open>ResponseBuffer(buf, range)\<close> carries what \<open>read_range\<close> yields for the range of the buffer.\<close>

datatype SignData =
    SignDigest Digest
  | SignDataMu bytes
  | SignResponseBuffer "nat \<Rightarrow> nat \<Rightarrow> (ResponseBufError, bytes) outcome" nat nat
  | SignRaw bytes

primrec sign_data_size :: "SignData \<Rightarrow> nat" where
  "sign_data_size (SignDigest d) = digest_size d"
| "sign_data_size (SignDataMu mu) = length mu"
| "sign_data_size (SignResponseBuffer rd a z) = z - a"
| "sign_data_size (SignRaw raw) = length raw"

primrec sign_data_of_precomputed :: "PrecomputedSignData \<Rightarrow> SignData" where
  "sign_data_of_precomputed (PreDigest d) = SignDigest d"
| "sign_data_of_precomputed (PreMu mu) = SignDataMu mu"

section \<open>Keys and signatures\<close>

datatype EcdsaPubKey = EcdsaPub256 (pub_x: bytes) (pub_y: bytes) | EcdsaPub384 (pub_x: bytes) (pub_y: bytes)

datatype PubKey = PubEcdsa EcdsaPubKey | PubMldsa bytes

datatype EcdsaSignature = EcdsaSig256 (sig_r: bytes) (sig_s: bytes) | EcdsaSig384 (sig_r: bytes) (sig_s: bytes)

datatype Signature = SigEcdsa EcdsaSignature | SigMldsa bytes

definition ecdsa_pub_as_slice :: "EcdsaPubKey \<Rightarrow> bytes \<times> bytes" where
  "ecdsa_pub_as_slice k = (pub_x k, pub_y k)"

primrec ecdsa_pub_curve_size :: "EcdsaPubKey \<Rightarrow> nat" where
  "ecdsa_pub_curve_size (EcdsaPub256 x y) = 32"
| "ecdsa_pub_curve_size (EcdsaPub384 x y) = 48"

definition ecdsa_sig_as_slice :: "EcdsaSignature \<Rightarrow> bytes \<times> bytes" where
  "ecdsa_sig_as_slice s = (sig_r s, sig_s s)"

primrec ecdsa_sig_curve_size :: "EcdsaSignature \<Rightarrow> nat" where
  "ecdsa_sig_curve_size (EcdsaSig256 r s) = 32"
| "ecdsa_sig_curve_size (EcdsaSig384 r s) = 48"

primrec ecdsa_sig_zeroed :: "EcdsaAlgorithm \<Rightarrow> EcdsaSignature" where
  "ecdsa_sig_zeroed Bit256 = EcdsaSig256 (replicate 32 0) (replicate 32 0)"
| "ecdsa_sig_zeroed Bit384 = EcdsaSig384 (replicate 48 0) (replicate 48 0)"

primrec signature_zeroed :: "SignatureAlgorithm \<Rightarrow> Signature" where
  "signature_zeroed (AlgEcdsa a) = SigEcdsa (ecdsa_sig_zeroed a)"
| "signature_zeroed (AlgMldsa a) = SigMldsa (replicate 4627 0)"

text \<open>The array lengths of the types.\<close>

fun ecdsa_pub_wf :: "EcdsaPubKey \<Rightarrow> bool" where
  "ecdsa_pub_wf (EcdsaPub256 x y) \<longleftrightarrow> length x = 32 \<and> length y = 32"
| "ecdsa_pub_wf (EcdsaPub384 x y) \<longleftrightarrow> length x = 48 \<and> length y = 48"

fun pub_key_wf :: "PubKey \<Rightarrow> bool" where
  "pub_key_wf (PubEcdsa k) = ecdsa_pub_wf k"
| "pub_key_wf (PubMldsa b) \<longleftrightarrow> length b = 2592"

fun ecdsa_sig_wf :: "EcdsaSignature \<Rightarrow> bool" where
  "ecdsa_sig_wf (EcdsaSig256 r s) \<longleftrightarrow> length r = 32 \<and> length s = 32"
| "ecdsa_sig_wf (EcdsaSig384 r s) \<longleftrightarrow> length r = 48 \<and> length s = 48"

fun signature_wf :: "Signature \<Rightarrow> bool" where
  "signature_wf (SigEcdsa s) = ecdsa_sig_wf s"
| "signature_wf (SigMldsa b) \<longleftrightarrow> length b = 4627"

lemma signature_zeroed_wf: "signature_wf (signature_zeroed a)"
  by (cases a) (auto split: EcdsaAlgorithm.splits, case_tac x1, auto)

section \<open>The operations an implementation supplies\<close>

text \<open>
  \<open>rand_bytes n\<close> fills a buffer of \<open>n\<close> bytes, \<open>derive_exported_cdi\<close> yields an array: they give the
  byte for every index. An object handed
  out by \<open>hasher\<close>, \<open>derive_cdi\<close>, \<open>derive_key_pair\<close> or \<open>derive_key_pair_exported\<close> lives in the state
  until the next operation on it. \<open>sign\<close> and \<open>public_key\<close> write their result into the
  argument they are given and return it.
\<close>

record 'c crypto_ops =
  op_signature_algorithm :: "'c \<Rightarrow> SignatureAlgorithm"
  op_digest_algorithm :: "'c \<Rightarrow> DigestAlgorithm"
  op_rand_bytes :: "nat \<Rightarrow> ('c, CryptoError, nat \<Rightarrow> u8) act"
  op_hasher :: "('c, CryptoError, unit) act"
  op_initialize :: "('c, CryptoError, unit) act"
  op_update :: "bytes \<Rightarrow> ('c, CryptoError, unit) act"
  op_finish :: "('c, CryptoError, Digest) act"
  op_derive_cdi :: "Digest \<Rightarrow> bytes \<Rightarrow> ('c, CryptoError, unit) act"
  op_derive_exported_cdi :: "Digest \<Rightarrow> bytes \<Rightarrow> ('c, CryptoError, nat \<Rightarrow> u8) act"
  op_derive_key_pair :: "bytes \<Rightarrow> bytes \<Rightarrow> ('c, CryptoError, unit) act"
  op_derive_key_pair_exported :: "bytes \<Rightarrow> bytes \<Rightarrow> bytes \<Rightarrow> ('c, CryptoError, unit) act"
  op_sign :: "SignData \<Rightarrow> Signature \<Rightarrow> ('c, CryptoError, Signature) act"
  op_public_key :: "PubKey \<Rightarrow> ('c, CryptoError, PubKey) act"
  op_sign_with_alias :: "SignData \<Rightarrow> Signature \<Rightarrow> ('c, CryptoError, Signature) act"

section \<open>Provided methods\<close>

definition rand_bytes :: "('c, 'x) crypto_ops_scheme \<Rightarrow> nat \<Rightarrow> ('c, CryptoError, bytes) act" where
  "rand_bytes ops n = bind (op_rand_bytes ops n) (\<lambda>f. ret (map f [0..<n]))"

definition derive_exported_cdi ::
  "('c, 'x) crypto_ops_scheme \<Rightarrow> Digest \<Rightarrow> bytes \<Rightarrow> ('c, CryptoError, bytes) act" where
  "derive_exported_cdi ops measurement info =
     bind (op_derive_exported_cdi ops measurement info) (\<lambda>f. ret (map f [0..<MAX_EXPORTED_CDI_SIZE]))"

definition with_hasher ::
  "('c, 'x) crypto_ops_scheme \<Rightarrow> ('c, CryptoError, unit) act \<Rightarrow> ('c, CryptoError, Digest) act" where
  "with_hasher ops f = bind (op_hasher ops) (\<lambda>_. bind (op_initialize ops) (\<lambda>_.
     bind f (\<lambda>_. op_finish ops)))"

fun update_all :: "('c, 'x) crypto_ops_scheme \<Rightarrow> bytes list \<Rightarrow> ('c, CryptoError, unit) act" where
  "update_all ops [] = ret ()"
| "update_all ops (chunk # vals) = bind (op_update ops chunk) (\<lambda>_. update_all ops vals)"

definition hash_all ::
  "('c, 'x) crypto_ops_scheme \<Rightarrow> bytes list \<Rightarrow> ('c, CryptoError, Digest) act" where
  "hash_all ops vals = with_hasher ops (update_all ops vals)"

definition crypto_hash :: "('c, 'x) crypto_ops_scheme \<Rightarrow> bytes \<Rightarrow> ('c, CryptoError, Digest) act" where
  "crypto_hash ops bs = hash_all ops [bs]"

text \<open>\<open>CryptoSuite::get_pubkey_serial\<close>: the hash of the public key as hexadecimal text.\<close>

definition pubkey_digest :: "('c, 'x) crypto_ops_scheme \<Rightarrow> PubKey \<Rightarrow> ('c, CryptoError, Digest) act" where
  "pubkey_digest ops pub_key = (\<lambda>s.
     (case (op_signature_algorithm ops s, pub_key) of
        (AlgEcdsa _, PubEcdsa k) \<Rightarrow>
          (let (x, y) = ecdsa_pub_as_slice k in hash_all ops [[4], x, y] s)
      | (AlgMldsa _, PubMldsa k) \<Rightarrow> crypto_hash ops k s
      | _ \<Rightarrow> throw MismatchedAlgorithm s))"

definition get_pubkey_serial ::
  "('c, 'x) crypto_ops_scheme \<Rightarrow> PubKey \<Rightarrow> bytes \<Rightarrow> ('c, CryptoError, bytes) act" where
  "get_pubkey_serial ops pub_key serial = (\<lambda>s.
     if length serial < digest_alg_size (op_digest_algorithm ops s) * 2 then throw CryptoSize s
     else bind (pubkey_digest ops pub_key) (\<lambda>digest.
       (case write_hex_str digest serial of
          (Ok _, serial') \<Rightarrow> ret serial'
        | (Err e, _) \<Rightarrow> throw e
        | (Panic, _) \<Rightarrow> lift Panic
        | (Diverge, _) \<Rightarrow> lift Diverge)) s)"

definition cdi_sign_with_derived ::
  "('c, 'x) crypto_ops_scheme \<Rightarrow> bytes \<Rightarrow> bytes \<Rightarrow> SignData \<Rightarrow> Signature \<Rightarrow> ('c, CryptoError, Signature) act" where
  "cdi_sign_with_derived ops label info data out =
     bind (op_derive_key_pair ops label info) (\<lambda>_. op_sign ops data out)"

definition cdi_derive_pub_key ::
  "('c, 'x) crypto_ops_scheme \<Rightarrow> bytes \<Rightarrow> bytes \<Rightarrow> PubKey \<Rightarrow> ('c, CryptoError, PubKey) act" where
  "cdi_derive_pub_key ops label info out =
     bind (op_derive_key_pair ops label info) (\<lambda>_. op_public_key ops out)"

definition crypto_sign_with_derived ::
  "('c, 'x) crypto_ops_scheme \<Rightarrow> Digest \<Rightarrow> bytes \<Rightarrow> bytes \<Rightarrow> bytes \<Rightarrow> SignData \<Rightarrow> Signature \<Rightarrow>
     ('c, CryptoError, Signature) act" where
  "crypto_sign_with_derived ops measurement info label derived_info data out =
     bind (op_derive_cdi ops measurement info) (\<lambda>_.
       cdi_sign_with_derived ops label derived_info data out)"

definition crypto_derive_pub_key ::
  "('c, 'x) crypto_ops_scheme \<Rightarrow> Digest \<Rightarrow> bytes \<Rightarrow> bytes \<Rightarrow> bytes \<Rightarrow> PubKey \<Rightarrow>
     ('c, CryptoError, PubKey) act" where
  "crypto_derive_pub_key ops measurement info label derived_info out =
     bind (op_derive_cdi ops measurement info) (\<lambda>_.
       cdi_derive_pub_key ops label derived_info out)"

lemma length_rand_bytes: "rand_bytes ops n s = (Ok bs, s') \<Longrightarrow> length bs = n"
  by (auto simp: rand_bytes_def bind_Ok_iff)

section \<open>The contract of a hasher\<close>

text \<open>
  \<open>absorbed\<close> is what a running hash has taken in, \<open>H\<close> the function it computes: a successful
  \<open>initialize\<close> starts an empty hash, a successful \<open>update\<close> appends, and \<open>finish\<close> returns the value
  of \<open>H\<close> on everything taken in. Every operation may fail.
\<close>

locale hash_suite =
  fixes ops :: "'c crypto_ops"
    and absorbed :: "'c \<Rightarrow> bytes"
    and H :: "bytes \<Rightarrow> Digest"
  assumes initialize: "op_initialize ops s = (Ok (), s') \<Longrightarrow> absorbed s' = []"
    and update: "op_update ops bs s = (Ok (), s') \<Longrightarrow> absorbed s' = absorbed s @ bs"
    and finish: "op_finish ops s = (Ok d, s') \<Longrightarrow> d = H (absorbed s)"
begin

lemma update_all_absorbed:
  "update_all ops vals s = (Ok (), s') \<Longrightarrow> absorbed s' = absorbed s @ concat vals"
  by (induction vals arbitrary: s) (auto simp: bind_Ok_iff dest!: update)

lemma hash_all_value: "hash_all ops vals s = (Ok d, s') \<Longrightarrow> d = H (concat vals)"
  by (auto simp: hash_all_def with_hasher_def bind_Ok_iff dest!: initialize update_all_absorbed finish)

lemma crypto_hash_value: "crypto_hash ops bs s = (Ok d, s') \<Longrightarrow> d = H bs"
  using hash_all_value [of "[bs]"] by (simp add: crypto_hash_def)

text \<open>The text written for a public key determines the digest of the key.\<close>

lemma pubkey_serial_value:
  assumes "get_pubkey_serial ops pub_key serial s = (Ok serial', s')"
  shows "\<exists>m. (case pub_key of PubEcdsa k \<Rightarrow> m = 4 # pub_x k @ pub_y k | PubMldsa k \<Rightarrow> m = k) \<and>
    serial' = splice serial 0 (hex_of (digest_as_slice (H m)))"
proof -
  from assms obtain d s1 where d: "pubkey_digest ops pub_key s = (Ok d, s1)"
    and r: "(case write_hex_str d serial of (Ok _, serial') \<Rightarrow> ret serial' | (Err e, _) \<Rightarrow> throw e
        | (Panic, _) \<Rightarrow> lift Panic | (Diverge, _) \<Rightarrow> lift Diverge) s1 = (Ok serial', s')"
    by (fastforce simp: get_pubkey_serial_def bind_Ok_iff split: if_splits)
  from r have w: "write_hex_str d serial = (Ok (), serial')"
    by (cases "write_hex_str d serial"; cases "fst (write_hex_str d serial)") auto
  have sz: "digest_size d = length (digest_as_slice d)" by (cases d) auto
  with w have "serial' = splice serial 0 (hex_of (digest_as_slice d))"
    by (auto simp: write_hex_str_def hex_loop_eq split: if_splits)
  moreover from d have "case pub_key of PubEcdsa k \<Rightarrow> d = H (4 # pub_x k @ pub_y k) | PubMldsa k \<Rightarrow> d = H k"
    by (auto simp: pubkey_digest_def ecdsa_pub_as_slice_def split: SignatureAlgorithm.splits PubKey.splits
        dest!: hash_all_value crypto_hash_value)
  ultimately show ?thesis by (cases pub_key) auto
qed

end

text \<open>A hasher whose operations never fail: hashing is then a total function.\<close>

locale total_hash_suite = hash_suite +
  fixes live :: "'c \<Rightarrow> bool"
  assumes hasher_ok: "\<exists>s'. op_hasher ops s = (Ok (), s')"
    and initialize_ok: "\<exists>s'. op_initialize ops s = (Ok (), s') \<and> live s'"
    and update_ok: "live s \<Longrightarrow> \<exists>s'. op_update ops bs s = (Ok (), s') \<and> live s'"
    and finish_ok: "live s \<Longrightarrow> \<exists>d s'. op_finish ops s = (Ok d, s')"
begin

lemma update_all_ok: "live s \<Longrightarrow> \<exists>s'. update_all ops vals s = (Ok (), s') \<and> live s'"
proof (induction vals arbitrary: s)
  case (Cons v vals)
  from update_ok [OF Cons.prems, of v] obtain s1 where "op_update ops v s = (Ok (), s1)" "live s1"
    by auto
  with Cons.IH [of s1] show ?case by (auto simp: bind_def)
qed auto

lemma hash_all_total: "\<exists>s'. hash_all ops vals s = (Ok (H (concat vals)), s')"
proof -
  obtain s1 where s1: "op_hasher ops s = (Ok (), s1)" using hasher_ok by blast
  obtain s2 where s2: "op_initialize ops s1 = (Ok (), s2)" "live s2" using initialize_ok by blast
  obtain s3 where s3: "update_all ops vals s2 = (Ok (), s3)" "live s3" using update_all_ok [OF s2(2)] by blast
  obtain d s4 where "op_finish ops s3 = (Ok d, s4)" using finish_ok [OF s3(2)] by blast
  with s1 s2 s3 have "hash_all ops vals s = (Ok d, s4)"
    by (simp add: hash_all_def with_hasher_def bind_def)
  with hash_all_value [OF this] show ?thesis by blast
qed

end

end
