(* ===== verification/Responses.thy ===== *)
theory Responses
  imports Wire Context Platform Crypto
begin

text \<open>
  The response structures of dpe/src/response.rs and their bytes. Every structure is packed and
  little-endian; each interpretation of \<open>wire\<close> proves that what is written is read back. \<open>mutresp\<close>
  of dpe/src/lib.rs gives a response structure inside a zeroed scratch buffer.
\<close>

section \<open>ResponseHdr\<close>

record ResponseHdr =
  rh_magic :: u32
  rh_status :: u32
  rh_profile :: DpeProfile

definition DPE_RESPONSE_MAGIC :: u32 where
  "DPE_RESPONSE_MAGIC = 0x44504552"

definition ResponseHdr_new :: "DpeProfile \<Rightarrow> DpeErrorCode \<Rightarrow> ResponseHdr" where
  "ResponseHdr_new p e =
     \<lparr>rh_magic = DPE_RESPONSE_MAGIC, rh_status = get_error_code e, rh_profile = p\<rparr>"

definition hdr_bytes :: "ResponseHdr \<Rightarrow> bytes" where
  "hdr_bytes h = u32_to_le_bytes (rh_magic h) @ u32_to_le_bytes (rh_status h) @
     u32_to_le_bytes (profile_u32 (rh_profile h))"

definition read_hdr :: "ResponseHdr reader" where
  "read_hdr = then_read read_u32 (\<lambda>m. then_read read_u32 (\<lambda>s. then_read read_profile (\<lambda>p.
     read_done \<lparr>rh_magic = m, rh_status = s, rh_profile = p\<rparr>)))"

lemma length_hdr_bytes [simp]: "length (hdr_bytes h) = 12"
  by (simp add: hdr_bytes_def)

interpretation hdr: wire 12 "\<lambda>_. True" hdr_bytes read_hdr
  by unfold_locales (simp_all add: hdr_bytes_def read_hdr_def wire_simps)

lemmas [wire_simps] = hdr.read_write [OF TrueI]

section \<open>Fixed-size responses\<close>

record GetProfileResp =
  gp_hdr :: ResponseHdr
  gp_major_version :: u16
  gp_minor_version :: u16
  gp_vendor_id :: u32
  gp_vendor_sku :: u32
  gp_max_tci_nodes :: u32
  gp_flags :: u32

definition GetProfileResp_new :: "DpeProfile \<Rightarrow> u32 \<Rightarrow> u32 \<Rightarrow> u32 \<Rightarrow> GetProfileResp" where
  "GetProfileResp_new p flags vendor_id vendor_sku = \<lparr>
     gp_hdr = \<lparr>rh_magic = DPE_RESPONSE_MAGIC, rh_status = 0, rh_profile = p\<rparr>,
     gp_major_version = CURRENT_PROFILE_MAJOR_VERSION,
     gp_minor_version = CURRENT_PROFILE_MINOR_VERSION,
     gp_vendor_id = vendor_id, gp_vendor_sku = vendor_sku,
     gp_max_tci_nodes = of_nat MAX_HANDLES, gp_flags = flags\<rparr>"

definition get_profile_resp_bytes :: "GetProfileResp \<Rightarrow> bytes" where
  "get_profile_resp_bytes r = hdr_bytes (gp_hdr r) @ u16_to_le_bytes (gp_major_version r) @
     u16_to_le_bytes (gp_minor_version r) @ u32_to_le_bytes (gp_vendor_id r) @
     u32_to_le_bytes (gp_vendor_sku r) @ u32_to_le_bytes (gp_max_tci_nodes r) @
     u32_to_le_bytes (gp_flags r)"

definition read_get_profile_resp :: "GetProfileResp reader" where
  "read_get_profile_resp = then_read read_hdr (\<lambda>h. then_read read_u16 (\<lambda>ma. then_read read_u16 (\<lambda>mi.
     then_read read_u32 (\<lambda>vi. then_read read_u32 (\<lambda>vs. then_read read_u32 (\<lambda>mx.
     then_read read_u32 (\<lambda>fl. read_done \<lparr>gp_hdr = h, gp_major_version = ma, gp_minor_version = mi,
       gp_vendor_id = vi, gp_vendor_sku = vs, gp_max_tci_nodes = mx, gp_flags = fl\<rparr>)))))))"

record NewHandleResp =
  nh_hdr :: ResponseHdr
  nh_handle :: ContextHandle

definition new_handle_resp_bytes :: "NewHandleResp \<Rightarrow> bytes" where
  "new_handle_resp_bytes r = hdr_bytes (nh_hdr r) @ nh_handle r"

definition read_new_handle_resp :: "NewHandleResp reader" where
  "read_new_handle_resp = then_read read_hdr (\<lambda>h. then_read (read_n HANDLE_SIZE) (\<lambda>x.
     read_done \<lparr>nh_hdr = h, nh_handle = x\<rparr>))"

record DeriveContextResp =
  dc_hdr :: ResponseHdr
  dc_handle :: ContextHandle
  dc_parent_handle :: ContextHandle

definition derive_context_resp_bytes :: "DeriveContextResp \<Rightarrow> bytes" where
  "derive_context_resp_bytes r = hdr_bytes (dc_hdr r) @ dc_handle r @ dc_parent_handle r"

definition read_derive_context_resp :: "DeriveContextResp reader" where
  "read_derive_context_resp = then_read read_hdr (\<lambda>h. then_read (read_n HANDLE_SIZE) (\<lambda>x.
     then_read (read_n HANDLE_SIZE) (\<lambda>y.
     read_done \<lparr>dc_hdr = h, dc_handle = x, dc_parent_handle = y\<rparr>)))"

record UpdateContextMeasurementResp =
  uc_hdr :: ResponseHdr
  uc_new_context_handle :: ContextHandle
  uc_new_parent_context_handle :: ContextHandle

definition update_resp_bytes :: "UpdateContextMeasurementResp \<Rightarrow> bytes" where
  "update_resp_bytes r = hdr_bytes (uc_hdr r) @ uc_new_context_handle r @
     uc_new_parent_context_handle r"

definition read_update_resp :: "UpdateContextMeasurementResp reader" where
  "read_update_resp = then_read read_hdr (\<lambda>h. then_read (read_n HANDLE_SIZE) (\<lambda>x.
     then_read (read_n HANDLE_SIZE) (\<lambda>y.
     read_done \<lparr>uc_hdr = h, uc_new_context_handle = x, uc_new_parent_context_handle = y\<rparr>)))"

record GetCertificateChainResp =
  gc_hdr :: ResponseHdr
  gc_certificate_size :: u32
  gc_certificate_chain :: bytes

definition cert_chain_resp_bytes :: "GetCertificateChainResp \<Rightarrow> bytes" where
  "cert_chain_resp_bytes r = hdr_bytes (gc_hdr r) @ u32_to_le_bytes (gc_certificate_size r) @
     gc_certificate_chain r"

definition read_cert_chain_resp :: "GetCertificateChainResp reader" where
  "read_cert_chain_resp = then_read read_hdr (\<lambda>h. then_read read_u32 (\<lambda>n.
     then_read (read_n MAX_CHUNK_SIZE) (\<lambda>x.
     read_done \<lparr>gc_hdr = h, gc_certificate_size = n, gc_certificate_chain = x\<rparr>)))"

definition handle_ok :: "ContextHandle \<Rightarrow> bool" where
  "handle_ok h \<longleftrightarrow> length h = HANDLE_SIZE"

interpretation get_profile_resp: wire 32 "\<lambda>_. True" get_profile_resp_bytes read_get_profile_resp
  by unfold_locales (simp_all add: get_profile_resp_bytes_def read_get_profile_resp_def wire_simps)

interpretation new_handle_resp: wire 28 "\<lambda>r. handle_ok (nh_handle r)" new_handle_resp_bytes
  read_new_handle_resp
  by unfold_locales
    (simp_all add: new_handle_resp_bytes_def read_new_handle_resp_def handle_ok_def HANDLE_SIZE_def
      wire_simps)

interpretation derive_context_resp: wire 44
  "\<lambda>r. handle_ok (dc_handle r) \<and> handle_ok (dc_parent_handle r)" derive_context_resp_bytes
  read_derive_context_resp
  by unfold_locales
    (simp_all add: derive_context_resp_bytes_def read_derive_context_resp_def handle_ok_def
      HANDLE_SIZE_def wire_simps)

interpretation update_resp: wire 44
  "\<lambda>r. handle_ok (uc_new_context_handle r) \<and> handle_ok (uc_new_parent_context_handle r)"
  update_resp_bytes read_update_resp
  by unfold_locales
    (simp_all add: update_resp_bytes_def read_update_resp_def handle_ok_def HANDLE_SIZE_def
      wire_simps)

interpretation cert_chain_resp: wire 2064
  "\<lambda>r. length (gc_certificate_chain r) = MAX_CHUNK_SIZE" cert_chain_resp_bytes read_cert_chain_resp
  by unfold_locales
    (simp_all add: cert_chain_resp_bytes_def read_cert_chain_resp_def wire_simps)

section \<open>Sign responses\<close>

record SignP256Resp =
  s2_hdr :: ResponseHdr
  s2_handle :: ContextHandle
  s2_sig_r :: bytes
  s2_sig_s :: bytes

record SignP384Resp =
  s3_hdr :: ResponseHdr
  s3_handle :: ContextHandle
  s3_sig_r :: bytes
  s3_sig_s :: bytes

record SignMlDsaResp =
  sm_hdr :: ResponseHdr
  sm_handle :: ContextHandle
  sm_sig :: bytes
  sm_padding :: bytes

definition sign_p256_resp_bytes :: "SignP256Resp \<Rightarrow> bytes" where
  "sign_p256_resp_bytes r = hdr_bytes (s2_hdr r) @ s2_handle r @ s2_sig_r r @ s2_sig_s r"

definition sign_p384_resp_bytes :: "SignP384Resp \<Rightarrow> bytes" where
  "sign_p384_resp_bytes r = hdr_bytes (s3_hdr r) @ s3_handle r @ s3_sig_r r @ s3_sig_s r"

definition sign_mldsa_resp_bytes :: "SignMlDsaResp \<Rightarrow> bytes" where
  "sign_mldsa_resp_bytes r = hdr_bytes (sm_hdr r) @ sm_handle r @ sm_sig r @ sm_padding r"

definition read_sign_p256_resp :: "SignP256Resp reader" where
  "read_sign_p256_resp = then_read read_hdr (\<lambda>h. then_read (read_n HANDLE_SIZE) (\<lambda>x.
     then_read (read_n 32) (\<lambda>r. then_read (read_n 32) (\<lambda>s.
     read_done \<lparr>s2_hdr = h, s2_handle = x, s2_sig_r = r, s2_sig_s = s\<rparr>))))"

definition read_sign_p384_resp :: "SignP384Resp reader" where
  "read_sign_p384_resp = then_read read_hdr (\<lambda>h. then_read (read_n HANDLE_SIZE) (\<lambda>x.
     then_read (read_n 48) (\<lambda>r. then_read (read_n 48) (\<lambda>s.
     read_done \<lparr>s3_hdr = h, s3_handle = x, s3_sig_r = r, s3_sig_s = s\<rparr>))))"

definition read_sign_mldsa_resp :: "SignMlDsaResp reader" where
  "read_sign_mldsa_resp = then_read read_hdr (\<lambda>h. then_read (read_n HANDLE_SIZE) (\<lambda>x.
     then_read (read_n (mldsa_signature_size AlgMldsa87)) (\<lambda>s. then_read (read_n 1) (\<lambda>p.
     read_done \<lparr>sm_hdr = h, sm_handle = x, sm_sig = s, sm_padding = p\<rparr>))))"

interpretation sign_p256_resp: wire 92
  "\<lambda>r. handle_ok (s2_handle r) \<and> length (s2_sig_r r) = 32 \<and> length (s2_sig_s r) = 32"
  sign_p256_resp_bytes read_sign_p256_resp
  by unfold_locales
    (simp_all add: sign_p256_resp_bytes_def read_sign_p256_resp_def handle_ok_def HANDLE_SIZE_def
      wire_simps)

interpretation sign_p384_resp: wire 124
  "\<lambda>r. handle_ok (s3_handle r) \<and> length (s3_sig_r r) = 48 \<and> length (s3_sig_s r) = 48"
  sign_p384_resp_bytes read_sign_p384_resp
  by unfold_locales
    (simp_all add: sign_p384_resp_bytes_def read_sign_p384_resp_def handle_ok_def HANDLE_SIZE_def
      wire_simps)

interpretation sign_mldsa_resp: wire 4656
  "\<lambda>r. handle_ok (sm_handle r) \<and> length (sm_sig r) = 4627 \<and> length (sm_padding r) = 1"
  sign_mldsa_resp_bytes read_sign_mldsa_resp
  by unfold_locales
    (simp_all add: sign_mldsa_resp_bytes_def read_sign_mldsa_resp_def handle_ok_def HANDLE_SIZE_def
      wire_simps)

section \<open>Certificate responses\<close>

text \<open>A header followed by the certificate buffer; \<open>certificate_size\<close> bytes of it are in use.\<close>

record CertifyKeyP256RespHdr =
  k2_hdr :: ResponseHdr
  k2_handle :: ContextHandle
  k2_pubkey_x :: bytes
  k2_pubkey_y :: bytes
  k2_cert_size :: u32

record CertifyKeyP384RespHdr =
  k3_hdr :: ResponseHdr
  k3_handle :: ContextHandle
  k3_pubkey_x :: bytes
  k3_pubkey_y :: bytes
  k3_cert_size :: u32

record CertifyKeyMldsa87RespHdr =
  km_hdr :: ResponseHdr
  km_handle :: ContextHandle
  km_pubkey :: bytes
  km_cert_size :: u32

record DeriveContextExportedCdiRespHdr =
  ex_hdr :: ResponseHdr
  ex_handle :: ContextHandle
  ex_parent_handle :: ContextHandle
  ex_exported_cdi :: bytes
  ex_certificate_size :: u32

definition certify_p256_hdr_bytes :: "CertifyKeyP256RespHdr \<Rightarrow> bytes" where
  "certify_p256_hdr_bytes r = hdr_bytes (k2_hdr r) @ k2_handle r @ k2_pubkey_x r @ k2_pubkey_y r @
     u32_to_le_bytes (k2_cert_size r)"

definition certify_p384_hdr_bytes :: "CertifyKeyP384RespHdr \<Rightarrow> bytes" where
  "certify_p384_hdr_bytes r = hdr_bytes (k3_hdr r) @ k3_handle r @ k3_pubkey_x r @ k3_pubkey_y r @
     u32_to_le_bytes (k3_cert_size r)"

definition certify_mldsa_hdr_bytes :: "CertifyKeyMldsa87RespHdr \<Rightarrow> bytes" where
  "certify_mldsa_hdr_bytes r = hdr_bytes (km_hdr r) @ km_handle r @ km_pubkey r @
     u32_to_le_bytes (km_cert_size r)"

definition exported_hdr_bytes :: "DeriveContextExportedCdiRespHdr \<Rightarrow> bytes" where
  "exported_hdr_bytes r = hdr_bytes (ex_hdr r) @ ex_handle r @ ex_parent_handle r @
     ex_exported_cdi r @ u32_to_le_bytes (ex_certificate_size r)"

definition read_certify_p256_hdr :: "CertifyKeyP256RespHdr reader" where
  "read_certify_p256_hdr = then_read read_hdr (\<lambda>h. then_read (read_n HANDLE_SIZE) (\<lambda>c.
     then_read (read_n 32) (\<lambda>x. then_read (read_n 32) (\<lambda>y. then_read read_u32 (\<lambda>n.
     read_done \<lparr>k2_hdr = h, k2_handle = c, k2_pubkey_x = x, k2_pubkey_y = y, k2_cert_size = n\<rparr>)))))"

definition read_certify_p384_hdr :: "CertifyKeyP384RespHdr reader" where
  "read_certify_p384_hdr = then_read read_hdr (\<lambda>h. then_read (read_n HANDLE_SIZE) (\<lambda>c.
     then_read (read_n 48) (\<lambda>x. then_read (read_n 48) (\<lambda>y. then_read read_u32 (\<lambda>n.
     read_done \<lparr>k3_hdr = h, k3_handle = c, k3_pubkey_x = x, k3_pubkey_y = y, k3_cert_size = n\<rparr>)))))"

definition read_certify_mldsa_hdr :: "CertifyKeyMldsa87RespHdr reader" where
  "read_certify_mldsa_hdr = then_read read_hdr (\<lambda>h. then_read (read_n HANDLE_SIZE) (\<lambda>c.
     then_read (read_n (mldsa_public_key_size AlgMldsa87)) (\<lambda>x. then_read read_u32 (\<lambda>n.
     read_done \<lparr>km_hdr = h, km_handle = c, km_pubkey = x, km_cert_size = n\<rparr>))))"

definition read_exported_hdr :: "DeriveContextExportedCdiRespHdr reader" where
  "read_exported_hdr = then_read read_hdr (\<lambda>h. then_read (read_n HANDLE_SIZE) (\<lambda>c.
     then_read (read_n HANDLE_SIZE) (\<lambda>p. then_read (read_n MAX_EXPORTED_CDI_SIZE) (\<lambda>x.
     then_read read_u32 (\<lambda>n.
     read_done \<lparr>ex_hdr = h, ex_handle = c, ex_parent_handle = p, ex_exported_cdi = x,
       ex_certificate_size = n\<rparr>)))))"

interpretation certify_p256_hdr: wire 96
  "\<lambda>r. handle_ok (k2_handle r) \<and> length (k2_pubkey_x r) = 32 \<and> length (k2_pubkey_y r) = 32"
  certify_p256_hdr_bytes read_certify_p256_hdr
  by unfold_locales
    (simp_all add: certify_p256_hdr_bytes_def read_certify_p256_hdr_def handle_ok_def
      HANDLE_SIZE_def wire_simps)

interpretation certify_p384_hdr: wire 128
  "\<lambda>r. handle_ok (k3_handle r) \<and> length (k3_pubkey_x r) = 48 \<and> length (k3_pubkey_y r) = 48"
  certify_p384_hdr_bytes read_certify_p384_hdr
  by unfold_locales
    (simp_all add: certify_p384_hdr_bytes_def read_certify_p384_hdr_def handle_ok_def
      HANDLE_SIZE_def wire_simps)

interpretation certify_mldsa_hdr: wire 2624
  "\<lambda>r. handle_ok (km_handle r) \<and> length (km_pubkey r) = 2592"
  certify_mldsa_hdr_bytes read_certify_mldsa_hdr
  by unfold_locales
    (simp_all add: certify_mldsa_hdr_bytes_def read_certify_mldsa_hdr_def handle_ok_def
      HANDLE_SIZE_def wire_simps)

interpretation exported_hdr: wire 80
  "\<lambda>r. handle_ok (ex_handle r) \<and> handle_ok (ex_parent_handle r) \<and>
     length (ex_exported_cdi r) = MAX_EXPORTED_CDI_SIZE"
  exported_hdr_bytes read_exported_hdr
  by unfold_locales
    (simp_all add: exported_hdr_bytes_def read_exported_hdr_def handle_ok_def HANDLE_SIZE_def
      MAX_EXPORTED_CDI_SIZE_def wire_simps)

text \<open>A header with its buffer: the structures \<open>CertifyKey*Resp\<close> and \<open>DeriveContextExportedCdiResp\<close>.\<close>

record 'h with_cert =
  wc_header :: 'h
  wc_cert :: bytes

definition with_cert_bytes :: "('h \<Rightarrow> bytes) \<Rightarrow> 'h with_cert \<Rightarrow> bytes" where
  "with_cert_bytes hb r = hb (wc_header r) @ wc_cert r"

definition read_with_cert :: "'h reader \<Rightarrow> 'h with_cert reader" where
  "read_with_cert rh = then_read rh (\<lambda>h. then_read (read_n MAX_CERT_SIZE) (\<lambda>c.
     read_done \<lparr>wc_header = h, wc_cert = c\<rparr>))"

text \<open>
  \<open>as_bytes_partial\<close>: the header and the part of the buffer in use; \<open>n\<close> is the size of the whole
  structure, \<open>cert_size\<close> the header's field and \<open>e\<close> the error of the structure.
\<close>

definition with_cert_partial ::
  "('h \<Rightarrow> bytes) \<Rightarrow> ('h \<Rightarrow> u32) \<Rightarrow> InternalErrorCode \<Rightarrow> 'h with_cert \<Rightarrow> (DpeErrorCode, bytes) outcome" where
  "with_cert_partial hb cert_size e r =
     (let whole = with_cert_bytes hb r;
          len = length whole - MAX_CERT_SIZE + unat (cert_size (wc_header r))
      in ok_or (get_range whole 0 len) (InternalError e))"

context wire
begin

lemma with_cert_roundtrip:
  "ok (wc_header r) \<Longrightarrow> length (wc_cert r) = MAX_CERT_SIZE \<Longrightarrow>
     read_with_cert rd (with_cert_bytes emit r @ s) = Some (r, s)"
  by (simp add: read_with_cert_def with_cert_bytes_def then_read_def read_write read_n_append
      read_done_def)

lemma with_cert_partial_value:
  "ok (wc_header r) \<Longrightarrow> length (wc_cert r) = MAX_CERT_SIZE \<Longrightarrow>
     with_cert_partial emit cert_size e r =
       (if unat (cert_size (wc_header r)) \<le> MAX_CERT_SIZE
        then Ok (emit (wc_header r) @ take (unat (cert_size (wc_header r))) (wc_cert r))
        else Err (InternalError e))"
  by (simp add: with_cert_partial_def with_cert_bytes_def length_write get_range_def)

end

section \<open>The response enumerations\<close>

type_synonym CertifyKeyP256Resp = "CertifyKeyP256RespHdr with_cert"
type_synonym CertifyKeyP384Resp = "CertifyKeyP384RespHdr with_cert"
type_synonym CertifyKeyMldsa87Resp = "CertifyKeyMldsa87RespHdr with_cert"
type_synonym DeriveContextExportedCdiResp = "DeriveContextExportedCdiRespHdr with_cert"

datatype CertifyKeyResp =
    CkRespP256 CertifyKeyP256Resp
  | CkRespP384 CertifyKeyP384Resp
  | CkRespMldsa87 CertifyKeyMldsa87Resp

fun certify_resp_bytes :: "CertifyKeyResp \<Rightarrow> bytes" where
  "certify_resp_bytes (CkRespP256 r) = with_cert_bytes certify_p256_hdr_bytes r"
| "certify_resp_bytes (CkRespP384 r) = with_cert_bytes certify_p384_hdr_bytes r"
| "certify_resp_bytes (CkRespMldsa87 r) = with_cert_bytes certify_mldsa_hdr_bytes r"

fun certify_resp_partial :: "CertifyKeyResp \<Rightarrow> (DpeErrorCode, bytes) outcome" where
  "certify_resp_partial (CkRespP256 r) =
     with_cert_partial certify_p256_hdr_bytes k2_cert_size CertifyKeyP256RespSliceOob r"
| "certify_resp_partial (CkRespP384 r) =
     with_cert_partial certify_p384_hdr_bytes k3_cert_size CertifyKeyP384RespSliceOob r"
| "certify_resp_partial (CkRespMldsa87 r) =
     with_cert_partial certify_mldsa_hdr_bytes km_cert_size CertifyKeyMldsa87RespSliceOob r"

fun certify_resp_set_handle :: "ContextHandle \<Rightarrow> CertifyKeyResp \<Rightarrow> CertifyKeyResp" where
  "certify_resp_set_handle h (CkRespP256 r) =
     CkRespP256 (r\<lparr>wc_header := (wc_header r)\<lparr>k2_handle := h\<rparr>\<rparr>)"
| "certify_resp_set_handle h (CkRespP384 r) =
     CkRespP384 (r\<lparr>wc_header := (wc_header r)\<lparr>k3_handle := h\<rparr>\<rparr>)"
| "certify_resp_set_handle h (CkRespMldsa87 r) =
     CkRespMldsa87 (r\<lparr>wc_header := (wc_header r)\<lparr>km_handle := h\<rparr>\<rparr>)"

fun certify_resp_hdr :: "CertifyKeyResp \<Rightarrow> ResponseHdr" where
  "certify_resp_hdr (CkRespP256 r) = k2_hdr (wc_header r)"
| "certify_resp_hdr (CkRespP384 r) = k3_hdr (wc_header r)"
| "certify_resp_hdr (CkRespMldsa87 r) = km_hdr (wc_header r)"

definition certify_resp_cert :: "CertifyKeyResp \<Rightarrow> (DpeErrorCode, bytes) outcome" where
  "certify_resp_cert r =
     (let (buf, sz) = (case r of
          CkRespP256 r \<Rightarrow> (wc_cert r, k2_cert_size (wc_header r))
        | CkRespP384 r \<Rightarrow> (wc_cert r, k3_cert_size (wc_header r))
        | CkRespMldsa87 r \<Rightarrow> (wc_cert r, km_cert_size (wc_header r)))
      in ok_or (get_range buf 0 (unat sz)) (InternalError CertifyKeyCertSliceOob))"

datatype SignResp = SgRespP256 SignP256Resp | SgRespP384 SignP384Resp | SgRespMldsa87 SignMlDsaResp

fun sign_resp_bytes :: "SignResp \<Rightarrow> bytes" where
  "sign_resp_bytes (SgRespP256 r) = sign_p256_resp_bytes r"
| "sign_resp_bytes (SgRespP384 r) = sign_p384_resp_bytes r"
| "sign_resp_bytes (SgRespMldsa87 r) = sign_mldsa_resp_bytes r"

fun sign_resp_set_handle :: "ContextHandle \<Rightarrow> SignResp \<Rightarrow> SignResp" where
  "sign_resp_set_handle h (SgRespP256 r) = SgRespP256 (r\<lparr>s2_handle := h\<rparr>)"
| "sign_resp_set_handle h (SgRespP384 r) = SgRespP384 (r\<lparr>s3_handle := h\<rparr>)"
| "sign_resp_set_handle h (SgRespMldsa87 r) = SgRespMldsa87 (r\<lparr>sm_handle := h\<rparr>)"

fun sign_resp_hdr :: "SignResp \<Rightarrow> ResponseHdr" where
  "sign_resp_hdr (SgRespP256 r) = s2_hdr r"
| "sign_resp_hdr (SgRespP384 r) = s3_hdr r"
| "sign_resp_hdr (SgRespMldsa87 r) = sm_hdr r"

datatype Response =
    RespGetProfile GetProfileResp
  | RespInitCtx NewHandleResp
  | RespDeriveContext DeriveContextResp
  | RespDeriveContextExportedCdi DeriveContextExportedCdiResp
  | RespRotateCtx NewHandleResp
  | RespCertifyKey CertifyKeyResp
  | RespSign SignResp
  | RespDestroyCtx ResponseHdr
  | RespGetCertificateChain GetCertificateChainResp
  | RespUpdateContextMeasurement UpdateContextMeasurementResp
  | RespError ResponseHdr

fun response_bytes :: "Response \<Rightarrow> bytes" where
  "response_bytes (RespGetProfile r) = get_profile_resp_bytes r"
| "response_bytes (RespInitCtx r) = new_handle_resp_bytes r"
| "response_bytes (RespDeriveContext r) = derive_context_resp_bytes r"
| "response_bytes (RespDeriveContextExportedCdi r) = with_cert_bytes exported_hdr_bytes r"
| "response_bytes (RespRotateCtx r) = new_handle_resp_bytes r"
| "response_bytes (RespCertifyKey r) = certify_resp_bytes r"
| "response_bytes (RespSign r) = sign_resp_bytes r"
| "response_bytes (RespDestroyCtx r) = hdr_bytes r"
| "response_bytes (RespGetCertificateChain r) = cert_chain_resp_bytes r"
| "response_bytes (RespUpdateContextMeasurement r) = update_resp_bytes r"
| "response_bytes (RespError r) = hdr_bytes r"

fun response_partial :: "Response \<Rightarrow> (DpeErrorCode, bytes) outcome" where
  "response_partial (RespDeriveContextExportedCdi r) =
     with_cert_partial exported_hdr_bytes ex_certificate_size DeriveCtxRespSliceOob r"
| "response_partial (RespCertifyKey r) = certify_resp_partial r"
| "response_partial r = Ok (response_bytes r)"

section \<open>mutresp\<close>

text \<open>
  \<open>mutresp\<close> writes a default header at the start of the buffer and reads the buffer as the
  structure; the structure's size is \<open>n\<close>.
\<close>

definition mutresp :: "nat \<Rightarrow> DpeProfile \<Rightarrow> 'a reader \<Rightarrow> bytes \<Rightarrow> (DpeErrorCode, 'a \<times> bytes) outcome" where
  "mutresp n p rd resp =
     bindO (ok_or (get_range resp 0 12) InvalidResponseBuf) (\<lambda>_.
       let resp' = splice resp 0 (hdr_bytes (ResponseHdr_new p UninitializedResponseHeader))
       in bindO (ok_or (read_prefix rd resp') InvalidMutRefBuf) (\<lambda>r. Ok (r, resp')))"

text \<open>With a zeroed scratch buffer of the structure's size it succeeds.\<close>

lemma mutresp_derive_context:
  "\<exists>r b. mutresp 44 p read_derive_context_resp (replicate 44 0) = Ok (r, b) \<and> length b = 44"
proof -
  let ?h = "ResponseHdr_new p UninitializedResponseHeader"
  have "splice (replicate 44 0) 0 (hdr_bytes ?h) =
      derive_context_resp_bytes \<lparr>dc_hdr = ?h, dc_handle = replicate 16 0, dc_parent_handle = replicate 16 0\<rparr>"
    by (simp add: splice_def derive_context_resp_bytes_def flip: replicate_add)
  then show ?thesis
    using derive_context_resp.read_write [of "\<lparr>dc_hdr = ?h, dc_handle = replicate 16 0,
        dc_parent_handle = replicate 16 0\<rparr>" "[]"]
      derive_context_resp.length_write [of "\<lparr>dc_hdr = ?h, dc_handle = replicate 16 0,
        dc_parent_handle = replicate 16 0\<rparr>"]
    by (simp add: mutresp_def get_range_def read_prefix_def handle_ok_def HANDLE_SIZE_def)
qed

end
