(* ===== verification/Instance.thy ===== *)
theory Instance
  imports DpeState Responses
begin

text \<open>
  The environment a command runs in and the methods of \<open>DpeInstance\<close> (dpe/src/dpe_instance.rs) that
  the commands share: fresh handles, one-time handles, TCI measurements and the measurement hash of
  a node. The instance itself is its profile. \<open>DpeEnv\<close> is the record \<open>world\<close>: the state of the
  crypto and platform implementations, the DPE state and the response buffer handed to the command.
\<close>

section \<open>The environment\<close>

record ('c, 'p) world =
  crypto :: 'c
  platform :: 'p
  dstate :: State
  outbuf :: bytes

record ('c, 'p) deps =
  cops :: "'c crypto_ops"
  pops :: "'p platform_ops"

type_synonym ('c, 'p, 'a) dpe = "(('c, 'p) world, DpeErrorCode, 'a) act"

text \<open>A call on the crypto or platform implementation; \<open>?\<close> wraps its error.\<close>

definition on_crypto :: "('c, CryptoError, 'a) act \<Rightarrow> ('c, 'p, 'a) dpe" where
  "on_crypto m w = (case m (crypto w) of (r, c') \<Rightarrow> (map_err Crypto r, w\<lparr>crypto := c'\<rparr>))"

definition on_platform :: "('p, PlatformError, 'a) act \<Rightarrow> ('c, 'p, 'a) dpe" where
  "on_platform m w = (case m (platform w) of (r, p') \<Rightarrow> (map_err Platform r, w\<lparr>platform := p'\<rparr>))"

definition on_state :: "(State \<Rightarrow> State) \<Rightarrow> ('c, 'p, unit) dpe" where
  "on_state f = modify (\<lambda>w. w\<lparr>dstate := f (dstate w)\<rparr>)"

text \<open>A fallible computation on the DPE state that does not change it.\<close>

definition ask :: "(State \<Rightarrow> (DpeErrorCode, 'a) outcome) \<Rightarrow> ('c, 'p, 'a) dpe" where
  "ask f w = (f (dstate w), w)"

text \<open>\<open>state.contexts.get(idx).ok_or(e)?\<close>, and the assignments to a slot.\<close>

definition ctx_at :: "nat \<Rightarrow> DpeErrorCode \<Rightarrow> ('c, 'p, Context) dpe" where
  "ctx_at idx e = ask (\<lambda>st. ok_or (get_at (contexts st) idx) e)"

definition put_context :: "nat \<Rightarrow> Context \<Rightarrow> State \<Rightarrow> State" where
  "put_context idx c st = st\<lparr>contexts := (contexts st)[idx := c]\<rparr>"

text \<open>\<open>contexts[idx] = c\<close> panics out of range; \<open>*contexts.get_mut(idx).ok_or(e)? = c\<close> fails.\<close>

definition set_ctx :: "nat \<Rightarrow> Context \<Rightarrow> ('c, 'p, unit) dpe" where
  "set_ctx idx c = bind (ask (\<lambda>st. if idx < length (contexts st) then Ok () else Panic))
     (\<lambda>_. on_state (put_context idx c))"

definition set_ctx_or :: "nat \<Rightarrow> Context \<Rightarrow> DpeErrorCode \<Rightarrow> ('c, 'p, unit) dpe" where
  "set_ctx_or idx c e = bind (ctx_at idx e) (\<lambda>_. on_state (put_context idx c))"

text \<open>\<open>contexts[idx]\<close> as a value: out of range it panics.\<close>

definition index_ctx :: "nat \<Rightarrow> ('c, 'p, Context) dpe" where
  "index_ctx idx = ask (\<lambda>st. if idx < length (contexts st) then Ok (contexts st ! idx) else Panic)"

text \<open>\<open>out.write_at(off, bytes).map_err(|_| InvalidResponseBuf)\<close>.\<close>

definition write_out :: "nat \<Rightarrow> bytes \<Rightarrow> ('c, 'p, unit) dpe" where
  "write_out off bs w = (case slice_write_at off bs (outbuf w) of
     (Ok _, b) \<Rightarrow> (Ok (), w\<lparr>outbuf := b\<rparr>)
   | (Err _, b) \<Rightarrow> (Err InvalidResponseBuf, w\<lparr>outbuf := b\<rparr>)
   | (Panic, b) \<Rightarrow> (Panic, w)
   | (Diverge, b) \<Rightarrow> (Diverge, w))"

definition write_response :: "bytes \<Rightarrow> ('c, 'p, nat) dpe" where
  "write_response bs = bind (write_out 0 bs) (\<lambda>_. ret (length bs))"

lemma ask_apply [act_simps, simp]: "ask f w = (f (dstate w), w)"
  by (simp add: ask_def)

lemma on_state_apply [act_simps, simp]: "on_state f w = (Ok (), w\<lparr>dstate := f (dstate w)\<rparr>)"
  by (simp add: on_state_def)

lemma put_context_simps [simp]:
  "contexts (put_context i c st) = (contexts st)[i := c]"
  "support (put_context i c st) = support st"
  "dpe_flags (put_context i c st) = dpe_flags st"
  "has_initialized (put_context i c st) = has_initialized st"
  "f_has_initialized (put_context i c st) = f_has_initialized st"
  "marker (put_context i c st) = marker st"
  "version (put_context i c st) = version st"
  by (simp_all add: put_context_def has_initialized_def)

text \<open>A part of the environment that the crypto implementation and the platform do not change.\<close>

definition view :: "(('c, 'p) world \<Rightarrow> 'x) \<Rightarrow> bool" where
  "view P \<longleftrightarrow> (\<forall>w c. P (w\<lparr>crypto := c\<rparr>) = P w) \<and> (\<forall>w p. P (w\<lparr>platform := p\<rparr>) = P w)"

lemma view_parts [keeps_intros]: "view dstate" "view outbuf"
  by (simp_all add: view_def)

lemma keeps_on_crypto [keeps_intros]: "view P \<Longrightarrow> keeps P (on_crypto m)"
  by (auto simp: keeps_def view_def on_crypto_def split: prod.splits)

lemma keeps_on_platform [keeps_intros]: "view P \<Longrightarrow> keeps P (on_platform m)"
  by (auto simp: keeps_def view_def on_platform_def split: prod.splits)

lemma keeps_ask [keeps_intros]: "keeps P (ask f)"
  by (simp add: keeps_def)

lemma keeps_ctx_at [keeps_intros]: "keeps P (ctx_at i e)"
  by (simp add: ctx_at_def keeps_ask)

lemma keeps_index_ctx [keeps_intros]: "keeps P (index_ctx i)"
  by (simp add: index_ctx_def keeps_ask)

lemma keeps_write_out [keeps_intros]: "keeps dstate (write_out off bs)"
  by (auto simp: keeps_def write_out_def split: prod.splits outcome.splits)

lemma keeps_write_response [keeps_intros]: "keeps dstate (write_response bs)"
  unfolding write_response_def by (intro keeps_intros)

lemma write_out_result:
  "write_out off bs w = (r, w') \<Longrightarrow>
     (r = Ok () \<and> w' = w\<lparr>outbuf := splice (outbuf w) off bs\<rparr> \<and> off + length bs \<le> length (outbuf w)) \<or>
     (r = Err InvalidResponseBuf \<and> w' = w)"
proof -
  assume a: "write_out off bs w = (r, w')"
  show ?thesis
    using slice_write_at_cases [of off bs "outbuf w"]
  proof
    assume b: "slice_write_at off bs (outbuf w) = (Ok (), splice (outbuf w) off bs)"
    then have "off + length bs \<le> length (outbuf w)" unfolding slice_write_at_Ok by blast
    with a b show ?thesis by (simp add: write_out_def)
  next
    assume "slice_write_at off bs (outbuf w) = (Err Overflow, outbuf w)"
    with a show ?thesis by (simp add: write_out_def)
  qed
qed

lemma write_response_result:
  "write_response bs w = (r, w') \<Longrightarrow>
     (r = Ok (length bs) \<and> w' = w\<lparr>outbuf := splice (outbuf w) 0 bs\<rparr> \<and> length bs \<le> length (outbuf w)) \<or>
     (r = Err InvalidResponseBuf \<and> w' = w)"
  unfolding write_response_def by (elim bind_cases) (auto dest!: write_out_result)

section \<open>Handles\<close>

definition MAX_NEW_HANDLE_ATTEMPTS :: nat where
  "MAX_NEW_HANDLE_ATTEMPTS = 8"

definition handle_in_use :: "State \<Rightarrow> ContextHandle \<Rightarrow> bool" where
  "handle_in_use st h = list_ex (\<lambda>c. handle_equals (handle c) h) (contexts st)"

fun new_handle_loop :: "('c, 'p) deps \<Rightarrow> nat \<Rightarrow> ('c, 'p, ContextHandle) dpe" where
  "new_handle_loop d 0 = throw (InternalError HandleGenerationExhausted)"
| "new_handle_loop d (Suc n) =
     bind (on_crypto (rand_bytes (cops d) HANDLE_SIZE)) (\<lambda>h.
     bind (ask (\<lambda>st. Ok (\<not> is_default h \<and> \<not> handle_in_use st h))) (\<lambda>fresh.
       if fresh then ret h else new_handle_loop d n))"

definition generate_new_handle :: "('c, 'p) deps \<Rightarrow> ('c, 'p, ContextHandle) dpe" where
  "generate_new_handle d = new_handle_loop d MAX_NEW_HANDLE_ATTEMPTS"

text \<open>\<open>roll_onetime_use_handle\<close> on a copy of the context; the result is the copy.\<close>

definition roll_onetime_use_handle :: "('c, 'p) deps \<Rightarrow> Context \<Rightarrow> ('c, 'p, Context) dpe" where
  "roll_onetime_use_handle d c =
     (if \<not> is_default (handle c)
      then bind (generate_new_handle d) (\<lambda>h. ret (c\<lparr>handle := h\<rparr>))
      else ret c)"

lemma keeps_new_handle_loop: "view P \<Longrightarrow> keeps P (new_handle_loop d n)"
proof (induction n)
  case 0
  show ?case unfolding new_handle_loop.simps by (intro keeps_intros)
next
  case (Suc n)
  then show ?case unfolding new_handle_loop.simps by (intro keeps_intros)
qed

lemma keeps_generate_new_handle [keeps_intros]: "view P \<Longrightarrow> keeps P (generate_new_handle d)"
  by (simp add: generate_new_handle_def keeps_new_handle_loop)

lemma keeps_roll [keeps_intros]: "view P \<Longrightarrow> keeps P (roll_onetime_use_handle d c)"
  unfolding roll_onetime_use_handle_def by (intro keeps_intros)

definition fresh_handle :: "State \<Rightarrow> ContextHandle \<Rightarrow> bool" where
  "fresh_handle st h \<longleftrightarrow> h \<noteq> handle_default \<and> length h = HANDLE_SIZE \<and>
     (\<forall>c \<in> set (contexts st). handle c \<noteq> h)"

lemma new_handle_loop_fresh:
  "new_handle_loop d n w = (Ok h, w') \<Longrightarrow> fresh_handle (dstate w) h"
proof (induction n arbitrary: w)
  case (Suc n)
  then obtain h1 w1 where h1: "on_crypto (rand_bytes (cops d) HANDLE_SIZE) w = (Ok h1, w1)"
    and r: "(if \<not> is_default h1 \<and> \<not> handle_in_use (dstate w1) h1 then ret h1
        else new_handle_loop d n) w1 = (Ok h, w')"
    by (auto simp: bind_Ok_iff)
  have st: "dstate w1 = dstate w" using keepsD [OF keeps_on_crypto [OF view_parts(1)] h1] .
  have len: "length h1 = HANDLE_SIZE"
    using h1 by (auto simp: on_crypto_def split: prod.splits outcome.splits elim!: map_err.elims
        dest!: length_rand_bytes)
  show ?case
  proof (cases "\<not> is_default h1 \<and> \<not> handle_in_use (dstate w1) h1")
    case True
    with r len st show ?thesis by (auto simp: fresh_handle_def handle_in_use_def list_ex_iff)
  next
    case False
    with r have "new_handle_loop d n w1 = (Ok h, w')" by auto
    with Suc.IH st show ?thesis by metis
  qed
qed simp

lemma generate_new_handle_fresh:
  "generate_new_handle d w = (Ok h, w') \<Longrightarrow> fresh_handle (dstate w) h"
  by (simp add: generate_new_handle_def new_handle_loop_fresh)

text \<open>Rolling keeps the default handle and replaces any other by a fresh one.\<close>

lemma roll_result:
  "roll_onetime_use_handle d c w = (Ok c', w') \<Longrightarrow>
     (handle c = handle_default \<and> c' = c) \<or>
     (handle c \<noteq> handle_default \<and> (\<exists>h. c' = c\<lparr>handle := h\<rparr> \<and> fresh_handle (dstate w) h))"
  unfolding roll_onetime_use_handle_def
  by (auto simp: bind_Ok_iff split: if_splits dest!: generate_new_handle_fresh)

section \<open>Measurements\<close>

text \<open>\<open>add_tci_measurement\<close> on a copy of the context; the result is the copy.\<close>

definition add_tci_measurement ::
  "('c, 'p) deps \<Rightarrow> Context \<Rightarrow> TciMeasurement \<Rightarrow> u32 \<Rightarrow> ('c, 'p, Context) dpe" where
  "add_tci_measurement d c measurement loc =
     bind (guard_err (state c \<noteq> Active) InvalidHandle) (\<lambda>_.
     bind (guard_err (locality c \<noteq> loc) InvalidLocality) (\<lambda>_.
     bind (on_crypto (hash_all (cops d) [tci_cumulative (tci c), measurement])) (\<lambda>digest.
     bind (guard_err (length (digest_as_slice digest) \<noteq> length (tci_cumulative (tci c)))
             (InternalError DigestLengthMismatch)) (\<lambda>_.
     ret (c\<lparr>tci := (tci c)\<lparr>tci_cumulative := digest_as_slice digest, tci_current := measurement\<rparr>\<rparr>)))))"

lemma keeps_add_tci [keeps_intros]: "view P \<Longrightarrow> keeps P (add_tci_measurement d c m loc)"
  unfolding add_tci_measurement_def by (intro keeps_intros)

lemma on_crypto_Ok:
  "on_crypto m w = (Ok x, w') \<longleftrightarrow> (\<exists>c'. m (crypto w) = (Ok x, c') \<and> w' = w\<lparr>crypto := c'\<rparr>)"
  by (cases "m (crypto w)"; cases "fst (m (crypto w))") (auto simp: on_crypto_def)

lemma on_platform_Ok:
  "on_platform m w = (Ok x, w') \<longleftrightarrow> (\<exists>p'. m (platform w) = (Ok x, p') \<and> w' = w\<lparr>platform := p'\<rparr>)"
  by (cases "m (platform w)"; cases "fst (m (platform w))") (auto simp: on_platform_def)

lemma add_tci_result:
  assumes "add_tci_measurement d c m loc w = (Ok c', w')"
  obtains dg s where "state c = Active" "locality c = loc"
    "hash_all (cops d) [tci_cumulative (tci c), m] (crypto w) = (Ok dg, s)"
    "length (digest_as_slice dg) = length (tci_cumulative (tci c))"
    "c' = c\<lparr>tci := (tci c)\<lparr>tci_cumulative := digest_as_slice dg, tci_current := m\<rparr>\<rparr>"
  using assms
  by (auto simp: add_tci_measurement_def bind_Ok_iff on_crypto_Ok split: if_splits)

section \<open>Profile\<close>

definition get_profile :: "('c, 'p) deps \<Rightarrow> DpeProfile \<Rightarrow> Support \<Rightarrow> ('c, 'p, GetProfileResp) dpe" where
  "get_profile d p supp =
     bind (on_platform (op_get_vendor_id (pops d))) (\<lambda>vendor_id.
     bind (on_platform (op_get_vendor_sku (pops d))) (\<lambda>vendor_sku.
     ret (GetProfileResp_new p supp vendor_id vendor_sku)))"

definition response_hdr :: "DpeProfile \<Rightarrow> DpeErrorCode \<Rightarrow> ResponseHdr" where
  "response_hdr p e = ResponseHdr_new p e"

definition INTERNAL_INPUT_INFO_SIZE :: nat where
  "INTERNAL_INPUT_INFO_SIZE = 32 + 4"

text \<open>\<open>serialize_internal_input_info\<close> into the zeroed array of the caller.\<close>

definition serialize_internal_input_info ::
  "('c, 'p) deps \<Rightarrow> DpeProfile \<Rightarrow> Support \<Rightarrow> bytes \<Rightarrow> ('c, 'p, bytes) dpe" where
  "serialize_internal_input_info d p supp info =
     bind (get_profile d p supp) (\<lambda>profile.
       let profile_bytes = get_profile_resp_bytes profile; n = length profile_bytes
       in
       bind (lift (ok_or (get_range info 0 n) (InternalError InputInfoProfileSliceOob))) (\<lambda>_.
       bind (lift (ok_or (get_range info n (length info)) (InternalError InputInfoRemainderSliceOob))) (\<lambda>r.
         if length r \<noteq> 4 then lift Panic
         else ret (splice (splice info 0 profile_bytes) n (u32_to_le_bytes (profile_u32 p))))))"

lemma keeps_get_profile [keeps_intros]: "view P \<Longrightarrow> keeps P (get_profile d p s)"
  unfolding get_profile_def by (intro keeps_intros)

lemma serialize_internal_input_info_eq:
  "serialize_internal_input_info d p supp (replicate INTERNAL_INPUT_INFO_SIZE 0) =
     bind (get_profile d p supp) (\<lambda>r. ret (get_profile_resp_bytes r @ u32_to_le_bytes (profile_u32 p)))"
proof -
  have "length (get_profile_resp_bytes r) = 32" for r
    by (rule get_profile_resp.length_write [OF TrueI])
  then show ?thesis
    by (simp add: serialize_internal_input_info_def Let_def get_range_def INTERNAL_INPUT_INFO_SIZE_def
        splice_def ret_def)
qed

section \<open>The measurement hash\<close>

definition hasher_update :: "('c, 'p) deps \<Rightarrow> bytes \<Rightarrow> ('c, 'p, unit) dpe" where
  "hasher_update d bs = on_crypto (op_update (cops d) bs)"

definition bool_byte :: "bool \<Rightarrow> bytes" where
  "bool_byte b = [if b then 1 else 0]"

text \<open>The loop over the nodes from the root to the leaf.\<close>

fun hash_nodes ::
  "('c, 'p) deps \<Rightarrow> (DpeErrorCode, Context) outcome list \<Rightarrow> bool \<Rightarrow> bool \<Rightarrow> ('c, 'p, bool \<times> bool) dpe" where
  "hash_nodes d [] info dice = ret (info, dice)"
| "hash_nodes d (status # rest) info dice =
     bind (lift status) (\<lambda>c.
     bind (hasher_update d (tci_as_bytes (tci c))) (\<lambda>_.
     bind (hasher_update d (bool_byte (allow_x509 c))) (\<lambda>_.
       hash_nodes d rest (info \<or> uses_internal_input_info c) (dice \<or> uses_internal_input_dice c))))"

text \<open>
  The loop over the certificate chain ends when the platform reports an error. Nothing bounds it: a
  platform that keeps returning chunks of no bytes keeps it running, the outcome \<open>Diverge\<close>.
\<close>

definition dice_step :: "('c, 'p) deps \<Rightarrow> u32 \<Rightarrow> bytes \<Rightarrow> ('c, 'p, (u32 \<times> bytes) option) dpe" where
  "dice_step d offset chunk w =
     (case get_certificate_chain (pops d) offset (of_nat MAX_CHUNK_SIZE) chunk (platform w) of
        (Ok (len, chunk'), p') \<Rightarrow>
          bind (lift (ok_or (get_range chunk' 0 (unat len)) (InternalError CertChainChunkSliceOob))) (\<lambda>bs.
          bind (hasher_update d bs) (\<lambda>_.
            if 2 ^ 32 \<le> unat offset + unat len then lift Panic
            else ret (Some (offset + len, chunk')))) (w\<lparr>platform := p'\<rparr>)
      | (Err _, p') \<Rightarrow> (Ok None, w\<lparr>platform := p'\<rparr>)
      | (Panic, p') \<Rightarrow> (Panic, w\<lparr>platform := p'\<rparr>)
      | (Diverge, p') \<Rightarrow> (Diverge, w\<lparr>platform := p'\<rparr>))"

partial_function (option) dice_loop ::
  "('c, 'p) deps \<Rightarrow> u32 \<Rightarrow> bytes \<Rightarrow> ('c, 'p) world \<Rightarrow>
     ((DpeErrorCode, unit) outcome \<times> ('c, 'p) world) option" where
  "dice_loop d offset chunk w =
     (case dice_step d offset chunk w of
        (Ok (Some (offset', chunk')), w') \<Rightarrow> dice_loop d offset' chunk' w'
      | (Ok None, w') \<Rightarrow> Some (Ok (), w')
      | (Err e, w') \<Rightarrow> Some (Err e, w')
      | (Panic, w') \<Rightarrow> Some (Panic, w')
      | (Diverge, w') \<Rightarrow> Some (Diverge, w'))"

definition hash_dice :: "('c, 'p) deps \<Rightarrow> ('c, 'p, unit) dpe" where
  "hash_dice d w =
     (case dice_loop d 0 (replicate MAX_CHUNK_SIZE 0) w of None \<Rightarrow> (Diverge, w) | Some r \<Rightarrow> r)"

definition compute_measurement_hash :: "('c, 'p) deps \<Rightarrow> DpeProfile \<Rightarrow> nat \<Rightarrow> ('c, 'p, Digest) dpe" where
  "compute_measurement_hash d p start_idx =
     bind (on_crypto (op_hasher (cops d))) (\<lambda>_.
     bind (on_crypto (op_initialize (cops d))) (\<lambda>_.
     bind (ask (\<lambda>st. iter_new start_idx (contexts st))) (\<lambda>it.
     bind (hash_nodes d (iter_items it) False False) (\<lambda>(info, dice).
     bind (if info
           then bind (gets (\<lambda>w. support (dstate w))) (\<lambda>supp.
                bind (serialize_internal_input_info d p supp (replicate INTERNAL_INPUT_INFO_SIZE 0)) (\<lambda>bs.
                hasher_update d (take INTERNAL_INPUT_INFO_SIZE bs)))
           else ret ()) (\<lambda>_.
     bind (if dice then hash_dice d else ret ()) (\<lambda>_.
     on_crypto (op_finish (cops d))))))))"

lemma keeps_hasher_update [keeps_intros]: "view P \<Longrightarrow> keeps P (hasher_update d bs)"
  by (simp add: hasher_update_def keeps_on_crypto)

lemma keeps_hash_nodes [keeps_intros]: "view P \<Longrightarrow> keeps P (hash_nodes d items a b)"
proof (induction items arbitrary: a b)
  case Nil
  show ?case unfolding hash_nodes.simps by (intro keeps_intros)
next
  case (Cons x xs)
  then show ?case unfolding hash_nodes.simps by (intro keeps_intros)
qed

lemma keeps_dice_step:
  assumes v: "view P"
  shows "keeps P (dice_step d offset chunk)"
proof (rule keepsI)
  fix w r w'
  assume a: "dice_step d offset chunk w = (r, w')"
  let ?m = "\<lambda>chunk' len. bind (lift (ok_or (get_range chunk' 0 (unat len)) (InternalError CertChainChunkSliceOob))) (\<lambda>bs.
          bind (hasher_update d bs) (\<lambda>_.
            if 2 ^ 32 \<le> unat offset + unat len then lift Panic
            else ret (Some (offset + len, chunk'))))"
  have k: "keeps P (?m chunk' len)" for chunk' len
    by (intro keeps_intros v)
  have p: "P (w\<lparr>platform := p'\<rparr>) = P w" for p' using v by (simp add: view_def)
  obtain x p' where x: "get_certificate_chain (pops d) offset (of_nat MAX_CHUNK_SIZE) chunk
      (platform w) = (x, p')" by fastforce
  show "P w' = P w"
  proof (cases x)
    case (Ok y)
    then obtain len chunk' where "x = Ok (len, chunk')" by (cases y) auto
    with a x have "?m chunk' len (w\<lparr>platform := p'\<rparr>) = (r, w')" by (simp add: dice_step_def)
    from keepsD [OF k this] p show ?thesis by simp
  qed (use a x p in \<open>auto simp: dice_step_def\<close>)
qed

lemma dice_loop_keeps:
  fixes P :: "('c, 'p) world \<Rightarrow> 'x"
  assumes v: "view P" and l: "dice_loop d offset chunk w = Some y"
  shows "P (snd y) = P w"
proof (rule dice_loop.raw_induct [where P = "\<lambda>_ _ _ w y. P (snd y) = P w", OF _ l])
  fix loop :: "('c, 'p) deps \<Rightarrow> u32 \<Rightarrow> bytes \<Rightarrow> ('c, 'p) world \<Rightarrow>
      ((DpeErrorCode, unit) outcome \<times> ('c, 'p) world) option"
    and d :: "('c, 'p) deps" and offset :: u32 and chunk :: bytes and w :: "('c, 'p) world" and y
  assume IH: "\<And>d offset chunk w y. loop d offset chunk w = Some y \<Longrightarrow> P (snd y) = P w"
  obtain x w1 where x: "dice_step d offset chunk w = (x, w1)" by fastforce
  have w1: "P w1 = P w" using keepsD [OF keeps_dice_step [OF v] x] .
  assume "(case dice_step d offset chunk w of
        (Ok (Some (offset', chunk')), w') \<Rightarrow> loop d offset' chunk' w'
      | (Ok None, w') \<Rightarrow> Some (Ok (), w')
      | (Err e, w') \<Rightarrow> Some (Err e, w')
      | (Panic, w') \<Rightarrow> Some (Panic, w')
      | (Diverge, w') \<Rightarrow> Some (Diverge, w')) = Some y"
  then show "P (snd y) = P w"
    using x w1 IH [of d _ _ w1 y] by (auto split: outcome.splits option.splits)
qed

lemma keeps_hash_dice [keeps_intros]: "view P \<Longrightarrow> keeps P (hash_dice d)"
  by (rule keepsI) (auto simp: hash_dice_def split: option.splits dest!: dice_loop_keeps)

lemma keeps_serialize [keeps_intros]:
  "view P \<Longrightarrow> keeps P (serialize_internal_input_info d p supp (replicate INTERNAL_INPUT_INFO_SIZE 0))"
  unfolding serialize_internal_input_info_eq by (intro keeps_intros)

lemma keeps_case_prod [keeps_intros]: "(\<And>a b. keeps P (f a b)) \<Longrightarrow> keeps P (case x of (a, b) \<Rightarrow> f a b)"
  by (cases x) auto

lemma keeps_compute_measurement_hash [keeps_intros]: "view P \<Longrightarrow> keeps P (compute_measurement_hash d p i)"
  unfolding compute_measurement_hash_def by (intro keeps_intros)

section \<open>What is hashed\<close>

definition node_bytes :: "Context \<Rightarrow> bytes" where
  "node_bytes c = tci_as_bytes (tci c) @ bool_byte (allow_x509 c)"

definition path_bytes :: "Context list \<Rightarrow> nat list \<Rightarrow> bytes" where
  "path_bytes ctxs is = concat (map (\<lambda>i. node_bytes (ctxs ! i)) (rev is))"

definition uses_info :: "Context list \<Rightarrow> nat list \<Rightarrow> bool" where
  "uses_info ctxs is \<longleftrightarrow> (\<exists>i \<in> set is. uses_internal_input_info (ctxs ! i))"

definition uses_dice :: "Context list \<Rightarrow> nat list \<Rightarrow> bool" where
  "uses_dice ctxs is \<longleftrightarrow> (\<exists>i \<in> set is. uses_internal_input_dice (ctxs ! i))"

text \<open>Two nodes with the same bytes agree in everything the hash commits to.\<close>

definition tci_wf :: "TciNodeData \<Rightarrow> bool" where
  "tci_wf t \<longleftrightarrow> length (tci_cumulative t) = TCI_SIZE \<and> length (tci_current t) = TCI_SIZE"

lemma length_node_bytes: "tci_wf (tci c) \<Longrightarrow> length (node_bytes c) = 109"
  by (simp add: node_bytes_def tci_as_bytes_def tci_wf_def bool_byte_def)

lemma tci_as_bytes_inject:
  "tci_wf s \<Longrightarrow> tci_wf t \<Longrightarrow> tci_as_bytes s = tci_as_bytes t \<longleftrightarrow> s = t"
  by (cases s; cases t) (auto simp: tci_wf_def tci_as_bytes_def)

lemma node_bytes_inject:
  "tci_wf (tci a) \<Longrightarrow> tci_wf (tci b) \<Longrightarrow>
     node_bytes a = node_bytes b \<longleftrightarrow> tci a = tci b \<and> allow_x509 a = allow_x509 b"
  by (auto simp: node_bytes_def bool_byte_def tci_as_bytes_inject)

lemma path_bytes_inject:
  assumes "\<forall>i \<in> set is. tci_wf (tci (c ! i))" "\<forall>j \<in> set js. tci_wf (tci (d ! j))"
    and "path_bytes c is = path_bytes d js"
  shows "map (\<lambda>i. (tci (c ! i), allow_x509 (c ! i))) is = map (\<lambda>j. (tci (d ! j), allow_x509 (d ! j))) js"
proof -
  have *: "concat (map (\<lambda>i. node_bytes (c ! i)) xs) = concat (map (\<lambda>j. node_bytes (d ! j)) ys) \<Longrightarrow>
      map (\<lambda>i. (tci (c ! i), allow_x509 (c ! i))) xs = map (\<lambda>j. (tci (d ! j), allow_x509 (d ! j))) ys"
    if "\<forall>i \<in> set xs. tci_wf (tci (c ! i))" "\<forall>j \<in> set ys. tci_wf (tci (d ! j))" for xs ys
    using that
  proof (induction xs arbitrary: ys)
    case Nil
    then show ?case by (cases ys) (auto dest!: length_node_bytes)
  next
    case (Cons x xs)
    then obtain y ys' where ys: "ys = y # ys'" by (cases ys) (auto dest!: length_node_bytes)
    with Cons.prems length_node_bytes [of "c ! x"] length_node_bytes [of "d ! y"]
    have "node_bytes (c ! x) = node_bytes (d ! y)"
      "concat (map (\<lambda>i. node_bytes (c ! i)) xs) = concat (map (\<lambda>j. node_bytes (d ! j)) ys')"
      by auto
    with Cons ys node_bytes_inject [of "c ! x" "d ! y"] show ?case by auto
  qed
  have "map (\<lambda>i. (tci (c ! i), allow_x509 (c ! i))) (rev is) =
      map (\<lambda>j. (tci (d ! j), allow_x509 (d ! j))) (rev js)"
    using * [of "rev is" "rev js"] assms by (simp add: path_bytes_def)
  then show ?thesis by (simp only: rev_map [symmetric] rev_is_rev_conv)
qed

context hash_suite
begin

lemma hasher_update_absorbed:
  assumes "hasher_update d bs w = (Ok u, w')" "cops d = ops"
  shows "absorbed (crypto w') = absorbed (crypto w) @ bs"
  using assms(1) unfolding hasher_update_def on_crypto_Ok assms(2) by (auto dest: update)

lemma hash_nodes_absorbed:
  "hash_nodes d (map (\<lambda>i. Ok (ctxs ! i)) is) a b w = (Ok (a', b'), w') \<Longrightarrow> cops d = ops \<Longrightarrow>
     absorbed (crypto w') = absorbed (crypto w) @ concat (map (\<lambda>i. node_bytes (ctxs ! i)) is) \<and>
     (a' \<longleftrightarrow> a \<or> uses_info ctxs is) \<and> (b' \<longleftrightarrow> b \<or> uses_dice ctxs is)"
proof (induction "is" arbitrary: a b w)
  case Nil
  then show ?case by (simp add: uses_info_def uses_dice_def)
next
  case (Cons i "is")
  from Cons.prems(1) obtain w1 w2 where
    w1: "hasher_update d (tci_as_bytes (tci (ctxs ! i))) w = (Ok (), w1)" and
    w2: "hasher_update d (bool_byte (allow_x509 (ctxs ! i))) w1 = (Ok (), w2)" and
    r: "hash_nodes d (map (\<lambda>i. Ok (ctxs ! i)) is) (a \<or> uses_internal_input_info (ctxs ! i))
      (b \<or> uses_internal_input_dice (ctxs ! i)) w2 = (Ok (a', b'), w')"
    by (auto simp: bind_Ok_iff)
  from Cons.IH [OF r Cons.prems(2)] hasher_update_absorbed [OF w1 Cons.prems(2)]
    hasher_update_absorbed [OF w2 Cons.prems(2)]
  show ?case by (auto simp: node_bytes_def uses_info_def uses_dice_def)
qed

text \<open>The chunks that the loop over the certificate chain adds.\<close>

lemma dice_step_absorbed:
  "dice_step d offset chunk w = (Ok r, w') \<Longrightarrow> cops d = ops \<Longrightarrow>
     \<exists>bs. absorbed (crypto w') = absorbed (crypto w) @ bs \<and> (r = None \<longrightarrow> bs = [])"
  by (auto simp: dice_step_def bind_Ok_iff split: prod.splits outcome.splits if_splits
      dest!: hasher_update_absorbed)

lemma dice_loop_absorbed:
  assumes "dice_loop d offset chunk w = Some (Ok u, w')" and d: "cops d = ops"
  shows "\<exists>bs. absorbed (crypto w') = absorbed (crypto w) @ bs"
proof -
  let ?P = "\<lambda>(d :: ('c, 'b) deps) (_ :: u32) (_ :: bytes) (w :: ('c, 'b) world)
      (y :: (DpeErrorCode, unit) outcome \<times> ('c, 'b) world).
      fst y = Ok () \<longrightarrow> cops d = ops \<longrightarrow> (\<exists>bs. absorbed (crypto (snd y)) = absorbed (crypto w) @ bs)"
  have "?P d offset chunk w (Ok u, w')"
  proof (rule dice_loop.raw_induct [where P = ?P, OF _ assms(1)])
    fix loop :: "('c, 'b) deps \<Rightarrow> u32 \<Rightarrow> bytes \<Rightarrow> ('c, 'b) world \<Rightarrow>
        ((DpeErrorCode, unit) outcome \<times> ('c, 'b) world) option"
      and d :: "('c, 'b) deps" and offset :: u32 and chunk :: bytes and w :: "('c, 'b) world" and y
    assume IH: "\<And>d offset chunk w y. loop d offset chunk w = Some y \<Longrightarrow> ?P d offset chunk w y"
    obtain x w1 where x: "dice_step d offset chunk w = (x, w1)" by fastforce
    assume l: "(case dice_step d offset chunk w of
        (Ok (Some (offset', chunk')), w') \<Rightarrow> loop d offset' chunk' w'
      | (Ok None, w') \<Rightarrow> Some (Ok (), w')
      | (Err e, w') \<Rightarrow> Some (Err e, w')
      | (Panic, w') \<Rightarrow> Some (Panic, w')
      | (Diverge, w') \<Rightarrow> Some (Diverge, w')) = Some y"
    show "?P d offset chunk w y"
    proof (intro impI)
      assume ok: "fst y = Ok ()" and d: "cops d = ops"
      from l x ok obtain r where r: "x = Ok r" by (cases x) auto
      from dice_step_absorbed [OF x [unfolded r] d]
      obtain bs where bs: "absorbed (crypto w1) = absorbed (crypto w) @ bs" by blast
      show "\<exists>bs. absorbed (crypto (snd y)) = absorbed (crypto w) @ bs"
      proof (cases r)
        case None
        with l x r bs show ?thesis by auto
      next
        case (Some z)
        with l x r have "loop d (fst z) (snd z) w1 = Some y" by (auto split: prod.splits)
        from IH [OF this] ok d bs show ?thesis by auto
      qed
    qed
  qed
  with d show ?thesis by simp
qed

lemma measurement_hash_value:
  assumes "compute_measurement_hash d p i w = (Ok dg, w')" and d: "cops d = ops"
    and len: "length (contexts (dstate w)) \<le> 64"
  obtains "is" rest where "up_path (contexts (dstate w)) is" "hd is = i"
    and "dg = H (path_bytes (contexts (dstate w)) is @ rest)"
    and "\<not> uses_info (contexts (dstate w)) is \<and> \<not> uses_dice (contexts (dstate w)) is \<Longrightarrow> rest = []"
proof -
  let ?c = "contexts (dstate w)"
  from assms(1) obtain w1 w2 it a b w3 w4 w5 where
    w1: "on_crypto (op_hasher (cops d)) w = (Ok (), w1)" and
    w2: "on_crypto (op_initialize (cops d)) w1 = (Ok (), w2)" and
    it: "iter_new i (contexts (dstate w2)) = Ok it" and
    w3: "hash_nodes d (iter_items it) False False w2 = (Ok (a, b), w3)" and
    w4: "(if a then bind (gets (\<lambda>w. support (dstate w))) (\<lambda>supp.
                bind (serialize_internal_input_info d p supp (replicate INTERNAL_INPUT_INFO_SIZE 0)) (\<lambda>bs.
                hasher_update d (take INTERNAL_INPUT_INFO_SIZE bs)))
           else ret ()) w3 = (Ok (), w4)" and
    w5: "(if b then hash_dice d else ret ()) w4 = (Ok (), w5)" and
    fin: "on_crypto (op_finish (cops d)) w5 = (Ok dg, w')"
    unfolding compute_measurement_hash_def by (auto simp: bind_Ok_iff split: prod.splits)
  have st: "dstate w2 = dstate w"
    using keepsD [OF keeps_on_crypto [OF view_parts(1)] w1] keepsD [OF keeps_on_crypto [OF view_parts(1)] w2] by simp
  from it st len obtain "is" where path: "up_path ?c is" "hd is = i"
    and items: "iter_items it = map (\<lambda>i. Ok (?c ! i)) (rev is)"
    using iter_new_Ok [of i ?c it] by metis
  have "absorbed (crypto w2) = []" using w2 unfolding d on_crypto_Ok by (auto dest: initialize)
  with hash_nodes_absorbed [OF w3 [unfolded items] d]
  have w3a: "absorbed (crypto w3) = path_bytes ?c is"
    "a = uses_info ?c is" "b = uses_dice ?c is"
    by (auto simp: path_bytes_def uses_info_def uses_dice_def)
  have dg: "dg = H (absorbed (crypto w5))" using fin unfolding d on_crypto_Ok by (auto dest: finish)
  have w4a: "\<exists>bs. absorbed (crypto w4) = absorbed (crypto w3) @ bs \<and> (\<not> a \<longrightarrow> bs = [])"
  proof (cases a)
    case True
    with w4 obtain r s where "get_profile d p (support (dstate w3)) w3 = (Ok r, s)"
      and u: "hasher_update d (take INTERNAL_INPUT_INFO_SIZE
        (get_profile_resp_bytes r @ u32_to_le_bytes (profile_u32 p))) s = (Ok (), w4)"
      by (auto simp: bind_Ok_iff serialize_internal_input_info_eq)
    then have "crypto s = crypto w3" by (auto simp: get_profile_def bind_Ok_iff on_platform_Ok)
    with hasher_update_absorbed [OF u d] True show ?thesis by auto
  qed (use w4 in auto)
  have w5a: "\<exists>bs. absorbed (crypto w5) = absorbed (crypto w4) @ bs \<and> (\<not> b \<longrightarrow> bs = [])"
  proof (cases b)
    case True
    with w5 have "dice_loop d 0 (replicate MAX_CHUNK_SIZE 0) w4 = Some (Ok (), w5)"
      by (auto simp: hash_dice_def split: option.splits)
    from dice_loop_absorbed [OF this d] True show ?thesis by auto
  qed (use w5 in auto)
  from w4a obtain x where x: "absorbed (crypto w4) = absorbed (crypto w3) @ x" "\<not> a \<longrightarrow> x = []"
    by blast
  from w5a obtain y where y: "absorbed (crypto w5) = absorbed (crypto w4) @ y" "\<not> b \<longrightarrow> y = []"
    by blast
  from x y w3a(1) have "absorbed (crypto w5) = path_bytes ?c is @ x @ y" by simp
  with dg path w3a(2,3) x y show thesis by (intro that [of "is" "x @ y"]) auto
qed

end

end
