(* ===== verification/RustCrypto.thy ===== *)
theory RustCrypto
  imports Instance
begin

text \<open>
  The software implementation of the crypto traits (crypto/src/rustcrypto.rs, crypto/src/hkdf.rs).
  The hash functions, HKDF, the signature schemes, the random generator and the test keys come from
  other crates: they are the record \<open>algs\<close>. The algorithm fields that \<open>new\<close> sets and nothing changes
  afterwards are the record \<open>rc_config\<close>; \<open>rust_crypto\<close> is what changes.
\<close>

section \<open>What the crates supply\<close>

text \<open>
  A function that yields an array of a fixed size gives the byte for every index. Streaming hashes
  (\<open>DynDigest\<close>) hash the concatenation of their updates. A signing key is its bytes:
  \<open>x_p256_valid\<close> is whether \<open>SigningKey::from_slice\<close> takes them.
\<close>

record 'r algs =
  x_sha256 :: "bytes \<Rightarrow> nat \<Rightarrow> u8"
  x_sha384 :: "bytes \<Rightarrow> nat \<Rightarrow> u8"
  x_hkdf256 :: "bytes \<Rightarrow> bytes \<Rightarrow> bytes \<Rightarrow> nat \<Rightarrow> (nat \<Rightarrow> u8) option"
  x_hkdf384 :: "bytes \<Rightarrow> bytes \<Rightarrow> bytes \<Rightarrow> nat \<Rightarrow> (nat \<Rightarrow> u8) option"
  x_fill_bytes :: "nat \<Rightarrow> 'r \<Rightarrow> (nat \<Rightarrow> u8) \<times> 'r"
  x_p256_valid :: "bytes \<Rightarrow> bool"
  x_p384_valid :: "bytes \<Rightarrow> bool"
  x_p256_sign :: "bytes \<Rightarrow> bytes \<Rightarrow> ((nat \<Rightarrow> u8) \<times> (nat \<Rightarrow> u8)) option"
  x_p384_sign :: "bytes \<Rightarrow> bytes \<Rightarrow> ((nat \<Rightarrow> u8) \<times> (nat \<Rightarrow> u8)) option"
  x_p256_point :: "bytes \<Rightarrow> (nat \<Rightarrow> u8) option \<times> (nat \<Rightarrow> u8) option"
  x_p384_point :: "bytes \<Rightarrow> (nat \<Rightarrow> u8) option \<times> (nat \<Rightarrow> u8) option"
  x_mldsa_from_seed :: "bytes \<Rightarrow> bytes"
  x_mldsa_public :: "bytes \<Rightarrow> nat \<Rightarrow> u8"
  x_mldsa_sign_mu :: "bytes \<Rightarrow> bytes \<Rightarrow> bytes"
  x_mldsa_sign :: "bytes \<Rightarrow> bytes \<Rightarrow> bytes"
  x_alias_p256 :: "bytes option"
  x_alias_p384 :: "bytes option"
  x_alias_mldsa :: "bytes option"

definition array :: "nat \<Rightarrow> (nat \<Rightarrow> u8) \<Rightarrow> bytes" where
  "array n f = map f [0..<n]"

lemma length_array [simp]: "length (array n f) = n"
  by (simp add: array_def)

definition RUSTCRYPTO_ECDSA_ERROR :: CryptoError where "RUSTCRYPTO_ECDSA_ERROR = CryptoLibError 1"
definition RUSTCRYPTO_SEC_ERROR :: CryptoError where "RUSTCRYPTO_SEC_ERROR = CryptoLibError 2"
definition RUSTCRYPTO_ML_DSA_ERROR :: CryptoError where "RUSTCRYPTO_ML_DSA_ERROR = CryptoLibError 3"

section \<open>HKDF\<close>

definition hkdf_expand ::
  "'r algs \<Rightarrow> SignatureAlgorithm \<Rightarrow> bytes \<Rightarrow> bytes \<Rightarrow> bytes \<Rightarrow> (CryptoError, bytes) outcome" where
  "hkdf_expand x alg salt ikm info =
     (case alg of
        AlgEcdsa Bit256 \<Rightarrow> map_err (\<lambda>_. HashError 0) (ok_or (map_option (array (ecdsa_curve_size Bit256))
          (x_hkdf256 x salt ikm info (ecdsa_curve_size Bit256))) ())
      | AlgEcdsa Bit384 \<Rightarrow> map_err (\<lambda>_. HashError 0) (ok_or (map_option (array (ecdsa_curve_size Bit384))
          (x_hkdf384 x salt ikm info (ecdsa_curve_size Bit384))) ())
      | AlgMldsa a \<Rightarrow> map_err (\<lambda>_. HashError 0) (ok_or (map_option (array (mldsa_seed_size a))
          (x_hkdf256 x salt ikm info (mldsa_seed_size a))) ()))"

definition hkdf_derive_cdi ::
  "'r algs \<Rightarrow> SignatureAlgorithm \<Rightarrow> Digest \<Rightarrow> bytes \<Rightarrow> (CryptoError, bytes) outcome" where
  "hkdf_derive_cdi x alg measurement info =
     hkdf_expand x alg info (digest_as_slice measurement) (digest_as_slice measurement)"

definition hkdf_get_priv_key ::
  "'r algs \<Rightarrow> SignatureAlgorithm \<Rightarrow> bytes \<Rightarrow> bytes \<Rightarrow> bytes \<Rightarrow> (CryptoError, bytes) outcome" where
  "hkdf_get_priv_key x alg cdi label info = hkdf_expand x alg info cdi label"

section \<open>The state\<close>

record rc_config =
  rc_signature_alg :: SignatureAlgorithm
  rc_digest_alg :: DigestAlgorithm
  rc_sign_data_alg :: SignDataAlgorithm

record 'r rust_crypto =
  rc_rng :: 'r
  rc_export_cdi_slots :: "(bytes \<times> bytes) list"
  rc_hasher :: "bytes option"
  rc_cdi :: bytes
  rc_priv_key :: bytes

definition MAX_CDI_HANDLES :: nat where
  "MAX_CDI_HANDLES = 1"

definition rust_crypto_new :: "'r \<Rightarrow> 'r rust_crypto" where
  "rust_crypto_new rng = \<lparr>rc_rng = rng, rc_export_cdi_slots = [], rc_hasher = Some [], rc_cdi = [],
     rc_priv_key = []\<rparr>"

definition new_ecc256 :: rc_config where
  "new_ecc256 = \<lparr>rc_signature_alg = AlgEcdsa Bit256, rc_digest_alg = AlgSha256, rc_sign_data_alg = SignSha256\<rparr>"

definition new_ecc384 :: rc_config where
  "new_ecc384 = \<lparr>rc_signature_alg = AlgEcdsa Bit384, rc_digest_alg = AlgSha384, rc_sign_data_alg = SignSha384\<rparr>"

definition new_mldsa87 :: rc_config where
  "new_mldsa87 = \<lparr>rc_signature_alg = AlgMldsa AlgMldsa87, rc_digest_alg = AlgSha384, rc_sign_data_alg = SignMu\<rparr>"

type_synonym ('r, 'a) rc = "('r rust_crypto, CryptoError, 'a) act"

section \<open>Hasher\<close>

definition rc_initialize :: "('r, unit) rc" where
  "rc_initialize = modify (\<lambda>s. s\<lparr>rc_hasher := Some []\<rparr>)"

definition rc_update :: "bytes \<Rightarrow> ('r, unit) rc" where
  "rc_update bs s = (case rc_hasher s of
     None \<Rightarrow> (Err (HashError 0), s)
   | Some h \<Rightarrow> (Ok (), s\<lparr>rc_hasher := Some (h @ bs)\<rparr>))"

definition digest_of :: "'r algs \<Rightarrow> DigestAlgorithm \<Rightarrow> bytes \<Rightarrow> bytes" where
  "digest_of x alg bs = (case alg of
     AlgSha256 \<Rightarrow> array 32 (x_sha256 x bs) | AlgSha384 \<Rightarrow> array 48 (x_sha384 x bs))"

definition rc_finish :: "'r algs \<Rightarrow> rc_config \<Rightarrow> ('r, Digest) rc" where
  "rc_finish x cfg s = (case rc_hasher s of
     None \<Rightarrow> (Err (HashError 1), s)
   | Some h \<Rightarrow>
       (let digest = digest_of x (rc_digest_alg cfg) h; s' = s\<lparr>rc_hasher := None\<rparr>
        in case rc_digest_alg cfg of
          AlgSha256 \<Rightarrow> (if length digest = 32 then Ok (Sha256 digest) else Err CryptoSize, s')
        | AlgSha384 \<Rightarrow> (if length digest = 48 then Ok (Sha384 digest) else Err CryptoSize, s')))"

section \<open>Signing\<close>

definition sign_prehash ::
  "(bytes \<Rightarrow> bytes \<Rightarrow> ((nat \<Rightarrow> u8) \<times> (nat \<Rightarrow> u8)) option) \<Rightarrow> bytes \<Rightarrow> bytes \<Rightarrow>
     (CryptoError, (nat \<Rightarrow> u8) \<times> (nat \<Rightarrow> u8)) outcome" where
  "sign_prehash f key d = ok_or (f key d) RUSTCRYPTO_ECDSA_ERROR"

definition read_raw :: "(nat \<Rightarrow> nat \<Rightarrow> (ResponseBufError, bytes) outcome) \<Rightarrow> nat \<Rightarrow> nat \<Rightarrow>
    (CryptoError, bytes) outcome" where
  "read_raw rd a z = map_err (\<lambda>_. CryptoSize) (rd a z)"

text \<open>\<open>hash\<close> is the digest of the closure: SHA-256 or SHA-384 by the curve.\<close>

definition ecdsa_sign_data_inner ::
  "(bytes \<Rightarrow> bytes \<Rightarrow> ((nat \<Rightarrow> u8) \<times> (nat \<Rightarrow> u8)) option) \<Rightarrow> (bytes \<Rightarrow> bytes) \<Rightarrow> bytes \<Rightarrow> SignData \<Rightarrow>
     (CryptoError, (nat \<Rightarrow> u8) \<times> (nat \<Rightarrow> u8)) outcome" where
  "ecdsa_sign_data_inner f hash key data = (case data of
     SignDigest dig \<Rightarrow> sign_prehash f key (digest_as_slice dig)
   | SignResponseBuffer rd a z \<Rightarrow> bindO (read_raw rd a z) (\<lambda>raw. sign_prehash f key (hash raw))
   | SignRaw raw \<Rightarrow> sign_prehash f key (hash raw)
   | SignDataMu mu \<Rightarrow> Err MismatchedAlgorithm)"

definition mldsa_sign_data_inner :: "'r algs \<Rightarrow> bytes \<Rightarrow> SignData \<Rightarrow> (CryptoError, Signature) outcome" where
  "mldsa_sign_data_inner x key data =
     bindO (case data of
         SignDataMu mu \<Rightarrow> Ok (x_mldsa_sign_mu x key mu)
       | SignResponseBuffer rd a z \<Rightarrow> bindO (read_raw rd a z) (\<lambda>raw. Ok (x_mldsa_sign x key raw))
       | SignRaw raw \<Rightarrow> Ok (x_mldsa_sign x key raw)
       | SignDigest d \<Rightarrow> Err MismatchedAlgorithm) (\<lambda>sig.
     if length sig = mldsa_signature_size AlgMldsa87 then Ok (SigMldsa sig) else Err RUSTCRYPTO_ML_DSA_ERROR)"

definition p256_signature :: "'r algs \<Rightarrow> bytes \<Rightarrow> SignData \<Rightarrow> (CryptoError, Signature) outcome" where
  "p256_signature x key data =
     bindO (ecdsa_sign_data_inner (x_p256_sign x) (\<lambda>raw. array 32 (x_sha256 x raw)) key data) (\<lambda>(r, s).
       Ok (SigEcdsa (EcdsaSig256 (array 32 r) (array 32 s))))"

definition p384_signature :: "'r algs \<Rightarrow> bytes \<Rightarrow> SignData \<Rightarrow> (CryptoError, Signature) outcome" where
  "p384_signature x key data =
     bindO (ecdsa_sign_data_inner (x_p384_sign x) (\<lambda>raw. array 48 (x_sha384 x raw)) key data) (\<lambda>(r, s).
       Ok (SigEcdsa (EcdsaSig384 (array 48 r) (array 48 s))))"

definition mldsa_key :: "'r algs \<Rightarrow> bytes \<Rightarrow> (CryptoError, bytes) outcome" where
  "mldsa_key x seed =
     (if length seed = 32 then Ok (x_mldsa_from_seed x seed) else Err RUSTCRYPTO_ML_DSA_ERROR)"

definition valid_key :: "(bytes \<Rightarrow> bool) \<Rightarrow> bytes \<Rightarrow> (CryptoError, bytes) outcome" where
  "valid_key ok key = (if ok key then Ok key else Err RUSTCRYPTO_ECDSA_ERROR)"

definition rc_sign :: "'r algs \<Rightarrow> rc_config \<Rightarrow> SignData \<Rightarrow> Signature \<Rightarrow> ('r, Signature) rc" where
  "rc_sign x cfg data out s = (case rc_signature_alg cfg of
     AlgEcdsa Bit256 \<Rightarrow> bindO (valid_key (x_p256_valid x) (rc_priv_key s)) (\<lambda>k. p256_signature x k data)
   | AlgEcdsa Bit384 \<Rightarrow> bindO (valid_key (x_p384_valid x) (rc_priv_key s)) (\<lambda>k. p384_signature x k data)
   | AlgMldsa _ \<Rightarrow> bindO (mldsa_key x (rc_priv_key s)) (\<lambda>k. mldsa_sign_data_inner x k data), s)"

definition rc_public_key :: "'r algs \<Rightarrow> rc_config \<Rightarrow> PubKey \<Rightarrow> ('r, PubKey) rc" where
  "rc_public_key x cfg out s = (case rc_signature_alg cfg of
     AlgEcdsa Bit256 \<Rightarrow> bindO (valid_key (x_p256_valid x) (rc_priv_key s)) (\<lambda>k.
       case out of
         PubEcdsa (EcdsaPub256 _ _) \<Rightarrow>
           bindO (ok_or (fst (x_p256_point x k)) RUSTCRYPTO_ECDSA_ERROR) (\<lambda>px.
           bindO (ok_or (snd (x_p256_point x k)) RUSTCRYPTO_ECDSA_ERROR) (\<lambda>py.
             Ok (PubEcdsa (EcdsaPub256 (array 32 px) (array 32 py)))))
       | _ \<Rightarrow> Err MismatchedAlgorithm)
   | AlgEcdsa Bit384 \<Rightarrow> bindO (valid_key (x_p384_valid x) (rc_priv_key s)) (\<lambda>k.
       case out of
         PubEcdsa (EcdsaPub384 _ _) \<Rightarrow>
           bindO (ok_or (fst (x_p384_point x k)) RUSTCRYPTO_ECDSA_ERROR) (\<lambda>px.
           bindO (ok_or (snd (x_p384_point x k)) RUSTCRYPTO_ECDSA_ERROR) (\<lambda>py.
             Ok (PubEcdsa (EcdsaPub384 (array 48 px) (array 48 py)))))
       | _ \<Rightarrow> Err MismatchedAlgorithm)
   | AlgMldsa _ \<Rightarrow> bindO (mldsa_key x (rc_priv_key s)) (\<lambda>k.
       case out of
         PubMldsa _ \<Rightarrow> Ok (PubMldsa (array 2592 (x_mldsa_public x k)))
       | _ \<Rightarrow> Err MismatchedAlgorithm), s)"

section \<open>CDIs\<close>

definition rc_derive_key_pair :: "'r algs \<Rightarrow> rc_config \<Rightarrow> bytes \<Rightarrow> bytes \<Rightarrow> ('r, unit) rc" where
  "rc_derive_key_pair x cfg label info =
     bind (\<lambda>s. (hkdf_get_priv_key x (rc_signature_alg cfg) (rc_cdi s) label info, s)) (\<lambda>k.
       modify (\<lambda>s. s\<lparr>rc_priv_key := k\<rparr>))"

definition rc_derive_cdi :: "'r algs \<Rightarrow> rc_config \<Rightarrow> Digest \<Rightarrow> bytes \<Rightarrow> ('r, unit) rc" where
  "rc_derive_cdi x cfg measurement info =
     bind (lift (hkdf_derive_cdi x (rc_signature_alg cfg) measurement info)) (\<lambda>cdi_key.
       modify (\<lambda>s. s\<lparr>rc_cdi := cdi_key\<rparr>))"

definition rc_rand_bytes :: "'r algs \<Rightarrow> nat \<Rightarrow> ('r, nat \<Rightarrow> u8) rc" where
  "rc_rand_bytes x n s = (case x_fill_bytes x n (rc_rng s) of (f, r) \<Rightarrow> (Ok f, s\<lparr>rc_rng := r\<rparr>))"

definition rc_derive_exported_cdi :: "'r algs \<Rightarrow> rc_config \<Rightarrow> Digest \<Rightarrow> bytes \<Rightarrow> ('r, nat \<Rightarrow> u8) rc" where
  "rc_derive_exported_cdi x cfg measurement info =
     bind (lift (hkdf_derive_cdi x (rc_signature_alg cfg) measurement info)) (\<lambda>cdi.
     bind (gets rc_export_cdi_slots) (\<lambda>slots.
     bind (guard_err (list_ex (\<lambda>(stored, _). stored = cdi) slots) ExportedCdiHandleDuplicateCdi) (\<lambda>_.
     bind (guard_err (MAX_CDI_HANDLES \<le> length slots) ExportedCdiHandleLimitExceeded) (\<lambda>_.
     bind (rc_rand_bytes x MAX_EXPORTED_CDI_SIZE) (\<lambda>h.
     bind (modify (\<lambda>s. s\<lparr>rc_export_cdi_slots :=
              rc_export_cdi_slots s @ [(cdi, array MAX_EXPORTED_CDI_SIZE h)]\<rparr>)) (\<lambda>_.
     ret h))))))"

definition find_slot :: "bytes \<Rightarrow> (bytes \<times> bytes) list \<Rightarrow> bytes option" where
  "find_slot h slots = map_option fst (List.find (\<lambda>(_, stored). stored = h) slots)"

definition rc_derive_key_pair_exported ::
  "'r algs \<Rightarrow> rc_config \<Rightarrow> bytes \<Rightarrow> bytes \<Rightarrow> bytes \<Rightarrow> ('r, unit) rc" where
  "rc_derive_key_pair_exported x cfg h label info =
     bind (gets (\<lambda>s. find_slot h (rc_export_cdi_slots s))) (\<lambda>slot.
       case slot of
         Some cdi \<Rightarrow> bind (modify (\<lambda>s. s\<lparr>rc_cdi := cdi\<rparr>)) (\<lambda>_. rc_derive_key_pair x cfg label info)
       | None \<Rightarrow> throw InvalidExportedCdiHandle)"

definition rc_sign_with_alias :: "'r algs \<Rightarrow> rc_config \<Rightarrow> SignData \<Rightarrow> Signature \<Rightarrow> ('r, Signature) rc" where
  "rc_sign_with_alias x cfg data out = lift (case rc_signature_alg cfg of
     AlgEcdsa Bit256 \<Rightarrow> bindO (ok_or (x_alias_p256 x) RUSTCRYPTO_SEC_ERROR) (\<lambda>k. p256_signature x k data)
   | AlgEcdsa Bit384 \<Rightarrow> bindO (ok_or (x_alias_p384 x) RUSTCRYPTO_SEC_ERROR) (\<lambda>k. p384_signature x k data)
   | AlgMldsa _ \<Rightarrow> bindO (ok_or (x_alias_mldsa x) RUSTCRYPTO_ML_DSA_ERROR) (\<lambda>k. mldsa_sign_data_inner x k data))"

definition rust_crypto_ops :: "'r algs \<Rightarrow> rc_config \<Rightarrow> 'r rust_crypto crypto_ops" where
  "rust_crypto_ops x cfg = \<lparr>
     op_signature_algorithm = (\<lambda>s. rc_signature_alg cfg),
     op_digest_algorithm = (\<lambda>s. rc_digest_alg cfg),
     op_rand_bytes = rc_rand_bytes x,
     op_hasher = ret (),
     op_initialize = rc_initialize,
     op_update = rc_update,
     op_finish = rc_finish x cfg,
     op_derive_cdi = rc_derive_cdi x cfg,
     op_derive_exported_cdi = rc_derive_exported_cdi x cfg,
     op_derive_key_pair = rc_derive_key_pair x cfg,
     op_derive_key_pair_exported = rc_derive_key_pair_exported x cfg,
     op_sign = rc_sign x cfg,
     op_public_key = rc_public_key x cfg,
     op_sign_with_alias = rc_sign_with_alias x cfg\<rparr>"

section \<open>Its hasher keeps the contract\<close>

definition rc_absorbed :: "'r rust_crypto \<Rightarrow> bytes" where
  "rc_absorbed s = (case rc_hasher s of None \<Rightarrow> [] | Some h \<Rightarrow> h)"

definition rc_digest :: "'r algs \<Rightarrow> rc_config \<Rightarrow> bytes \<Rightarrow> Digest" where
  "rc_digest x cfg bs = (case rc_digest_alg cfg of
     AlgSha256 \<Rightarrow> Sha256 (array 32 (x_sha256 x bs)) | AlgSha384 \<Rightarrow> Sha384 (array 48 (x_sha384 x bs)))"

lemma rc_finish_eq:
  "rc_finish x cfg s = (case rc_hasher s of None \<Rightarrow> (Err (HashError 1), s)
     | Some h \<Rightarrow> (Ok (rc_digest x cfg h), s\<lparr>rc_hasher := None\<rparr>))"
  by (cases "rc_digest_alg cfg") (simp_all add: rc_finish_def rc_digest_def digest_of_def Let_def split: option.split)

interpretation rust_hash: total_hash_suite "rust_crypto_ops x cfg" rc_absorbed "rc_digest x cfg"
  "\<lambda>s. rc_hasher s \<noteq> None" for x cfg
  by unfold_locales
    (auto simp: rust_crypto_ops_def rc_initialize_def rc_update_def rc_finish_eq rc_absorbed_def
      split: option.splits)

section \<open>Exported CDIs\<close>

lemma find_slot_Some: "find_slot h slots = Some c \<Longrightarrow> (c, h) \<in> set slots"
  by (induction slots) (auto simp: find_slot_def split: if_splits)

lemma rc_derive_exported_cdi_Ok:
  assumes "rc_derive_exported_cdi x cfg m info s = (Ok f, s')"
  obtains cdi where "hkdf_derive_cdi x (rc_signature_alg cfg) m info = Ok cdi" "rc_export_cdi_slots s = []"
    "rc_export_cdi_slots s' = [(cdi, array MAX_EXPORTED_CDI_SIZE f)]"
  using assms
  by (auto simp: rc_derive_exported_cdi_def bind_Ok_iff rc_rand_bytes_def MAX_CDI_HANDLES_def Suc_le_eq
      split: if_splits prod.splits)

text \<open>
  The key pair derived from an exported handle is the key pair of the CDI that was exported.
\<close>

lemma exported_key_pair:
  assumes e: "rc_derive_exported_cdi x cfg m info s = (Ok f, s')"
  shows "rc_derive_key_pair_exported x cfg (array MAX_EXPORTED_CDI_SIZE f) label i s' =
    bind (rc_derive_cdi x cfg m info) (\<lambda>_. rc_derive_key_pair x cfg label i) s'"
proof -
  from rc_derive_exported_cdi_Ok [OF e] obtain cdi where c: "hkdf_derive_cdi x (rc_signature_alg cfg) m info = Ok cdi"
    "rc_export_cdi_slots s' = [(cdi, array MAX_EXPORTED_CDI_SIZE f)]" by blast
  then show ?thesis
    by (simp add: rc_derive_key_pair_exported_def rc_derive_cdi_def find_slot_def bind_def)
qed

end
