(* ===== verification/Measurement.thy ===== *)
theory Measurement
  imports RustCrypto Platform
begin

text \<open>
  The measurement hash as a total function: on a hasher that does not fail and a platform that serves
  its certificate chain, \<open>compute_measurement_hash\<close> ends and hashes the nodes from the root to the
  leaf, then the profile when a node asks for the internal input \<open>info\<close>, then the whole certificate
  chain when a node asks for \<open>dice\<close>. \<open>RustCryptoImpl\<close> on \<open>DefaultPlatform\<close> is such an environment.
\<close>

definition info_bytes :: "DpeProfile \<Rightarrow> Support \<Rightarrow> u32 \<Rightarrow> u32 \<Rightarrow> bytes" where
  "info_bytes p supp vid vsku =
     get_profile_resp_bytes (GetProfileResp_new p supp vid vsku) @ u32_to_le_bytes (profile_u32 p)"

definition measurement_input ::
  "DpeProfile \<Rightarrow> u32 \<Rightarrow> u32 \<Rightarrow> bytes \<Rightarrow> State \<Rightarrow> nat list \<Rightarrow> bytes" where
  "measurement_input p vid vsku chain st is = path_bytes (contexts st) is @
     (if uses_info (contexts st) is then info_bytes p (support st) vid vsku else []) @
     (if uses_dice (contexts st) is then chain else [])"

context total_hash_suite
begin

lemma update_step:
  assumes "cops d = ops" "live (crypto w)"
  shows "\<exists>c. hasher_update d bs w = (Ok (), w\<lparr>crypto := c\<rparr>) \<and> live c \<and> absorbed c = absorbed (crypto w) @ bs"
proof -
  from update_ok [OF assms(2)] obtain c where "op_update ops bs (crypto w) = (Ok (), c)" "live c" by blast
  with update [OF this(1)] assms(1) show ?thesis by (auto simp: hasher_update_def on_crypto_def)
qed

lemma hash_nodes_total:
  assumes d: "cops d = ops"
  shows "live (crypto w) \<Longrightarrow> \<exists>c. hash_nodes d (map (\<lambda>i. Ok (ctxs ! i)) is) a b w =
      (Ok (a \<or> uses_info ctxs is, b \<or> uses_dice ctxs is), w\<lparr>crypto := c\<rparr>) \<and> live c \<and>
    absorbed c = absorbed (crypto w) @ concat (map (\<lambda>i. node_bytes (ctxs ! i)) is)"
proof (induction "is" arbitrary: a b w)
  case Nil
  then show ?case by (intro exI [of _ "crypto w"]) (simp add: uses_info_def uses_dice_def)
next
  case (Cons i "is")
  from update_step [OF d Cons.prems, of "tci_as_bytes (tci (ctxs ! i))"] obtain c1
    where c1: "hasher_update d (tci_as_bytes (tci (ctxs ! i))) w = (Ok (), w\<lparr>crypto := c1\<rparr>)" "live c1"
      "absorbed c1 = absorbed (crypto w) @ tci_as_bytes (tci (ctxs ! i))" by blast
  from update_step [OF d, of "w\<lparr>crypto := c1\<rparr>" "bool_byte (allow_x509 (ctxs ! i))"] c1(2) obtain c2
    where c2: "hasher_update d (bool_byte (allow_x509 (ctxs ! i))) (w\<lparr>crypto := c1\<rparr>) = (Ok (), w\<lparr>crypto := c2\<rparr>)"
      "live c2" "absorbed c2 = absorbed c1 @ bool_byte (allow_x509 (ctxs ! i))" by auto
  from Cons.IH [of "w\<lparr>crypto := c2\<rparr>" "a \<or> uses_internal_input_info (ctxs ! i)"
      "b \<or> uses_internal_input_dice (ctxs ! i)"] c2(2)
  show ?case using c1 c2 by (auto simp: bind_step node_bytes_def uses_info_def uses_dice_def)
qed

end

locale measurement_env = total_hash_suite ops absorbed H live + chain_source pl chain
  for ops :: "'c crypto_ops" and absorbed :: "'c \<Rightarrow> bytes" and H :: "bytes \<Rightarrow> Digest"
    and live :: "'c \<Rightarrow> bool" and pl :: "'p platform_ops" and chain :: bytes +
  fixes vid :: u32 and vsku :: u32
  assumes vendor_id: "\<exists>s'. op_get_vendor_id pl s = (Ok vid, s')"
    and vendor_sku: "\<exists>s'. op_get_vendor_sku pl s = (Ok vsku, s')"
begin

text \<open>The loop over the chain ends, because every chunk is a non-empty piece of what is left.\<close>

lemma dice_loop_total:
  assumes d: "cops d = ops" "pops d = pl" and a: "addressable chain"
  shows "unat offset \<le> length chain \<Longrightarrow> length chunk = MAX_CHUNK_SIZE \<Longrightarrow> live (crypto w) \<Longrightarrow>
    \<exists>w'. dice_loop d offset chunk w = Some (Ok (), w') \<and> dstate w' = dstate w \<and> outbuf w' = outbuf w \<and>
      live (crypto w') \<and> absorbed (crypto w') = absorbed (crypto w) @ drop (unat offset) chain"
proof (induction "length chain - unat offset" arbitrary: offset chunk w rule: less_induct)
  case less
  show ?case
  proof (cases "unat offset < length chain")
    case True
    obtain n buf s where g: "get_certificate_chain pl offset (of_nat MAX_CHUNK_SIZE) chunk (platform w) = (Ok (n, buf), s)"
      and t: "take (unat offset) chain @ take (unat n) buf = take (unat (offset + n)) chain"
      and n: "0 < unat n" "unat n \<le> MAX_CHUNK_SIZE" "unat (offset + n) = unat offset + unat n"
        "unat (offset + n) \<le> length chain" "length buf = MAX_CHUNK_SIZE"
      by (rule chunk_extends [OF a True less.prems(2)])
    let ?w = "w\<lparr>platform := s\<rparr>"
    have lw: "live (crypto ?w)" using less.prems(3) by simp
    from update_step [OF d(1) lw, of "take (unat n) buf"] obtain c
      where c: "hasher_update d (take (unat n) buf) ?w = (Ok (), ?w\<lparr>crypto := c\<rparr>)" "live c"
        "absorbed c = absorbed (crypto w) @ take (unat n) buf" by auto
    have piece: "take (unat n) buf @ drop (unat (offset + n)) chain = drop (unat offset) chain"
    proof -
      have "take (unat offset) chain @ take (unat n) buf @ drop (unat (offset + n)) chain = chain"
        using t append_take_drop_id [of "unat (offset + n)" chain] by (simp flip: append_assoc)
      then have "drop (unat offset) (take (unat offset) chain @ take (unat n) buf @ drop (unat (offset + n)) chain)
          = drop (unat offset) chain" by simp
      with True show ?thesis by simp
    qed
    have small: "\<not> 2 ^ 32 \<le> unat offset + unat n"
      using a n(3,4) by (simp add: addressable_def)
    have step: "dice_step d offset chunk w = (Ok (Some (offset + n, buf)), ?w\<lparr>crypto := c\<rparr>)"
      using g c(1) n(2,5) small d(2)
      by (simp add: dice_step_def get_range_def bind_step)
    have "length chain - unat (offset + n) < length chain - unat offset" using True n(1,3) by simp
    from less.hyps [OF this n(4,5), of "?w\<lparr>crypto := c\<rparr>"] c(2,3) piece
    show ?thesis by (subst dice_loop.simps) (simp add: step)
  next
    case False
    then obtain e s where "get_certificate_chain pl offset (of_nat MAX_CHUNK_SIZE) chunk (platform w) = (Err e, s)"
      using outside [OF a] by (metis not_less)
    then have "dice_step d offset chunk w = (Ok None, w\<lparr>platform := s\<rparr>)" using d(2) by (simp add: dice_step_def)
    with False less.prems(3) show ?thesis by (subst dice_loop.simps) simp
  qed
qed

lemma get_profile_total:
  assumes "pops d = pl"
  shows "\<exists>s. get_profile d p supp w = (Ok (GetProfileResp_new p supp vid vsku), w\<lparr>platform := s\<rparr>)"
proof -
  obtain s1 where 1: "op_get_vendor_id pl (platform w) = (Ok vid, s1)" using vendor_id by blast
  obtain s2 where 2: "op_get_vendor_sku pl s1 = (Ok vsku, s2)" using vendor_sku by blast
  from 1 2 assms show ?thesis
    by (intro exI [of _ s2]) (simp add: get_profile_def bind_def on_platform_def)
qed

theorem measurement_hash_total:
  assumes d: "cops d = ops" "pops d = pl" and a: "addressable chain"
    and p: "up_path (contexts (dstate w)) is" and len: "length (contexts (dstate w)) \<le> 64"
  shows "\<exists>w'. compute_measurement_hash d p (hd is) w =
    (Ok (H (measurement_input p vid vsku chain (dstate w) is)), w')"
proof -
  let ?st = "dstate w"
  let ?c = "contexts ?st"
  from iter_new_up_path [OF p len] obtain it where it: "iter_new (hd is) ?c = Ok it"
    and items: "iter_items it = map (\<lambda>i. Ok (?c ! i)) (rev is)" by (auto simp: rev_map)
  obtain c0 where c0: "op_hasher ops (crypto w) = (Ok (), c0)" using hasher_ok by blast
  obtain c1 where c1: "op_initialize ops c0 = (Ok (), c1)" "live c1" using initialize_ok by blast
  let ?w1 = "w\<lparr>crypto := c1\<rparr>"
  have l1: "live (crypto ?w1)" using c1(2) by simp
  from hash_nodes_total [OF d(1) l1, of ?c "rev is" False False] obtain c2
    where c2: "hash_nodes d (iter_items it) False False ?w1 =
        (Ok (uses_info ?c is, uses_dice ?c is), ?w1\<lparr>crypto := c2\<rparr>)" "live c2"
      "absorbed c2 = path_bytes ?c is"
    using initialize [OF c1(1)] items
    by (auto simp: path_bytes_def uses_info_def uses_dice_def)
  let ?w2 = "w\<lparr>crypto := c2\<rparr>"
  let ?info = "if uses_info ?c is then info_bytes p (support ?st) vid vsku else []"
  have "\<exists>w3. (if uses_info ?c is then bind (gets (\<lambda>w. support (dstate w))) (\<lambda>supp.
        bind (serialize_internal_input_info d p supp (replicate INTERNAL_INPUT_INFO_SIZE 0)) (\<lambda>bs.
        hasher_update d (take INTERNAL_INPUT_INFO_SIZE bs))) else ret ()) ?w2 = (Ok (), w3) \<and>
      dstate w3 = ?st \<and> live (crypto w3) \<and> absorbed (crypto w3) = path_bytes ?c is @ ?info"
  proof (cases "uses_info ?c is")
    case True
    from get_profile_total [OF d(2), of p "support ?st" ?w2] obtain s
      where s: "get_profile d p (support ?st) ?w2 = (Ok (GetProfileResp_new p (support ?st) vid vsku), ?w2\<lparr>platform := s\<rparr>)"
      by blast
    have len36: "length (info_bytes p (support ?st) vid vsku) = INTERNAL_INPUT_INFO_SIZE"
      by (simp add: info_bytes_def INTERNAL_INPUT_INFO_SIZE_def get_profile_resp.length_write [OF TrueI])
    have l2: "live (crypto (?w2\<lparr>platform := s\<rparr>))" using c2(2) by simp
    from update_step [OF d(1) l2, of "info_bytes p (support ?st) vid vsku"] obtain c3
      where "hasher_update d (info_bytes p (support ?st) vid vsku) (?w2\<lparr>platform := s\<rparr>) =
          (Ok (), ?w2\<lparr>platform := s\<rparr>\<lparr>crypto := c3\<rparr>)" "live c3"
        "absorbed c3 = absorbed c2 @ info_bytes p (support ?st) vid vsku" by auto
    with True s c2(3) len36 show ?thesis
      by (simp add: serialize_internal_input_info_eq bind_step info_bytes_def [symmetric])
  qed (use c2 in simp)
  then obtain w3 where w3: "(if uses_info ?c is then bind (gets (\<lambda>w. support (dstate w))) (\<lambda>supp.
        bind (serialize_internal_input_info d p supp (replicate INTERNAL_INPUT_INFO_SIZE 0)) (\<lambda>bs.
        hasher_update d (take INTERNAL_INPUT_INFO_SIZE bs))) else ret ()) ?w2 = (Ok (), w3)"
      "dstate w3 = ?st" "live (crypto w3)" "absorbed (crypto w3) = path_bytes ?c is @ ?info" by blast
  have "\<exists>w4. (if uses_dice ?c is then hash_dice d else ret ()) w3 = (Ok (), w4) \<and> live (crypto w4) \<and>
      absorbed (crypto w4) = measurement_input p vid vsku chain ?st is"
  proof (cases "uses_dice ?c is")
    case True
    from dice_loop_total [OF d a, of 0 "replicate MAX_CHUNK_SIZE 0" w3] w3(3,4) True show ?thesis
      by (auto simp: hash_dice_def measurement_input_def)
  qed (use w3 in \<open>simp add: measurement_input_def\<close>)
  then obtain w4 where w4: "(if uses_dice ?c is then hash_dice d else ret ()) w3 = (Ok (), w4)"
    "live (crypto w4)" "absorbed (crypto w4) = measurement_input p vid vsku chain ?st is" by blast
  obtain dg c5 where c5: "op_finish ops (crypto w4) = (Ok dg, c5)" using finish_ok [OF w4(2)] by blast
  have "dg = H (measurement_input p vid vsku chain ?st is)" using finish [OF c5] w4(3) by simp
  moreover have "compute_measurement_hash d p (hd is) w = (Ok dg, w4\<lparr>crypto := c5\<rparr>)"
    unfolding compute_measurement_hash_def
    using c0 c1(1) it c2(1) w3(1) w4(1) c5 d(1)
    by (simp add: bind_step on_crypto_def)
  ultimately show ?thesis by blast
qed

end

interpretation rust_default: measurement_env "rust_crypto_ops x cfg" rc_absorbed "rc_digest x cfg"
  "\<lambda>s. rc_hasher s \<noteq> None" "default_platform art pf" "art_cert_chain art pf" VENDOR_ID VENDOR_SKU
  for x cfg art pf
  by unfold_locales (simp_all add: default_platform_def)

end
