(* ===== verification/Commands.thy ===== *)
theory Commands
  imports Responses
begin

text \<open>
  The command structures and their deserialization (dpe/src/commands/mod.rs and the structure
  definitions of the files beside it). A command is read in place from the request: \<open>aligned\<close> tells
  whether the request lies at a multiple of 4, which the structures with that alignment require.
\<close>

section \<open>Command structures\<close>

type_synonym InitCtxCmd = u32
type_synonym DeriveContextFlags = u32

definition SIMULATION_FLAG_MASK :: InitCtxCmd where "SIMULATION_FLAG_MASK = push_bit 31 1"
definition DEFAULT_FLAG_MASK :: InitCtxCmd where "DEFAULT_FLAG_MASK = push_bit 30 1"

definition init_new_use_default :: InitCtxCmd where "init_new_use_default = DEFAULT_FLAG_MASK"
definition init_new_simulation :: InitCtxCmd where "init_new_simulation = SIMULATION_FLAG_MASK"

definition flag_is_simulation :: "InitCtxCmd \<Rightarrow> bool" where
  "flag_is_simulation c = flags_contains c SIMULATION_FLAG_MASK"

definition flag_is_default :: "InitCtxCmd \<Rightarrow> bool" where
  "flag_is_default c = flags_contains c DEFAULT_FLAG_MASK"

definition uses_internal_info_input :: "DeriveContextFlags \<Rightarrow> bool" where
  "uses_internal_info_input f = flags_contains f (push_bit 31 1)"
definition uses_internal_dice_input :: "DeriveContextFlags \<Rightarrow> bool" where
  "uses_internal_dice_input f = flags_contains f (push_bit 30 1)"
definition retains_parent :: "DeriveContextFlags \<Rightarrow> bool" where
  "retains_parent f = flags_contains f (push_bit 29 1)"
definition makes_default :: "DeriveContextFlags \<Rightarrow> bool" where
  "makes_default f = flags_contains f (push_bit 28 1)"
definition changes_locality :: "DeriveContextFlags \<Rightarrow> bool" where
  "changes_locality f = flags_contains f (push_bit 27 1)"
definition allows_new_context_to_export :: "DeriveContextFlags \<Rightarrow> bool" where
  "allows_new_context_to_export f = flags_contains f (push_bit 26 1)"
definition allows_x509 :: "DeriveContextFlags \<Rightarrow> bool" where
  "allows_x509 f = flags_contains f (push_bit 25 1)"
definition is_recursive :: "DeriveContextFlags \<Rightarrow> bool" where
  "is_recursive f = flags_contains f (push_bit 24 1)"
definition exports_cdi :: "DeriveContextFlags \<Rightarrow> bool" where
  "exports_cdi f = flags_contains f (push_bit 23 1)"
definition creates_certificate :: "DeriveContextFlags \<Rightarrow> bool" where
  "creates_certificate f = flags_contains f (push_bit 22 1)"
definition allows_recursive :: "DeriveContextFlags \<Rightarrow> bool" where
  "allows_recursive f = flags_contains f (push_bit 21 1)"

lemmas derive_flag_bits =
  uses_internal_info_input_def uses_internal_dice_input_def retains_parent_def makes_default_def
  changes_locality_def allows_new_context_to_export_def allows_x509_def is_recursive_def
  exports_cdi_def creates_certificate_def allows_recursive_def

record DeriveContextCmd =
  d_handle :: ContextHandle
  d_data :: TciMeasurement
  d_flags :: DeriveContextFlags
  d_tci_type :: u32
  d_target_locality :: u32
  d_svn :: u32

definition DeriveContextCmd_default :: DeriveContextCmd where
  "DeriveContextCmd_default = \<lparr>d_handle = handle_default, d_data = TciMeasurement_default,
     d_flags = 0, d_tci_type = 0, d_target_locality = 0, d_svn = 0\<rparr>"

record CertifyKeyCmd =
  ck_handle :: ContextHandle
  ck_flags :: u32
  ck_format :: u32
  ck_label :: bytes

datatype CertifyKeyCommand = CkP256 CertifyKeyCmd | CkP384 CertifyKeyCmd | CkMldsa87 CertifyKeyCmd

record SignCmd =
  sg_handle :: ContextHandle
  sg_label :: bytes
  sg_flags :: u32
  sg_digest :: bytes

record SignMldsa87RawCmd =
  sr_handle :: ContextHandle
  sr_label :: bytes
  sr_flags :: u32
  sr_size :: u32
  sr_raw_data :: bytes

datatype SignCommand =
    SgP256 SignCmd
  | SgP384 SignCmd
  | SgMldsa87 SignCmd
  | SgMldsa87Raw SignMldsa87RawCmd

definition SIGN_IS_RAW :: u32 where "SIGN_IS_RAW = push_bit 0 1"
definition MLDSA87_RAW_MAX_SIZE :: nat where "MLDSA87_RAW_MAX_SIZE = 1024"

record RotateCtxCmd =
  r_handle :: ContextHandle
  r_flags :: u32

definition TARGET_IS_DEFAULT :: u32 where "TARGET_IS_DEFAULT = push_bit 31 1"

definition uses_target_is_default :: "RotateCtxCmd \<Rightarrow> bool" where
  "uses_target_is_default c = flags_contains (r_flags c) TARGET_IS_DEFAULT"

type_synonym DestroyCtxCmd = ContextHandle

record GetCertificateChainCmd =
  g_offset :: u32
  g_size :: u32

record UpdateContextMeasurementCmd =
  u_parent_handle :: ContextHandle
  u_data :: TciMeasurement
  u_reserved :: u32
  u_tci_type :: u32
  u_reserved_svn :: u32

datatype Command =
    GetProfile
  | InitCtx InitCtxCmd
  | DeriveContext DeriveContextCmd
  | CertifyKey CertifyKeyCommand
  | Sign SignCommand
  | RotateCtx RotateCtxCmd
  | DestroyCtx DestroyCtxCmd
  | GetCertificateChain GetCertificateChainCmd
  | UpdateContextMeasurement UpdateContextMeasurementCmd

section \<open>Command identifiers\<close>

definition GET_PROFILE :: u32 where "GET_PROFILE = 0x01"
definition INITIALIZE_CONTEXT :: u32 where "INITIALIZE_CONTEXT = 0x07"
definition DERIVE_CONTEXT :: u32 where "DERIVE_CONTEXT = 0x08"
definition CERTIFY_KEY :: u32 where "CERTIFY_KEY = 0x09"
definition SIGN :: u32 where "SIGN = 0x0A"
definition ROTATE_CONTEXT_HANDLE :: u32 where "ROTATE_CONTEXT_HANDLE = 0x0e"
definition DESTROY_CONTEXT :: u32 where "DESTROY_CONTEXT = 0x0f"
definition GET_CERTIFICATE_CHAIN :: u32 where "GET_CERTIFICATE_CHAIN = 0x10"
definition UPDATE_CONTEXT_MEASUREMENT :: u32 where "UPDATE_CONTEXT_MEASUREMENT = 0x80000000"

lemmas command_ids =
  GET_PROFILE_def INITIALIZE_CONTEXT_def DERIVE_CONTEXT_def CERTIFY_KEY_def SIGN_def
  ROTATE_CONTEXT_HANDLE_def DESTROY_CONTEXT_def GET_CERTIFICATE_CHAIN_def
  UPDATE_CONTEXT_MEASUREMENT_def

primrec command_id :: "Command \<Rightarrow> u32" where
  "command_id GetProfile = GET_PROFILE"
| "command_id (InitCtx c) = INITIALIZE_CONTEXT"
| "command_id (DeriveContext c) = DERIVE_CONTEXT"
| "command_id (CertifyKey c) = CERTIFY_KEY"
| "command_id (Sign c) = SIGN"
| "command_id (RotateCtx c) = ROTATE_CONTEXT_HANDLE"
| "command_id (DestroyCtx c) = DESTROY_CONTEXT"
| "command_id (GetCertificateChain c) = GET_CERTIFICATE_CHAIN"
| "command_id (UpdateContextMeasurement c) = UPDATE_CONTEXT_MEASUREMENT"

section \<open>Bytes of the commands\<close>

definition derive_cmd_bytes :: "DeriveContextCmd \<Rightarrow> bytes" where
  "derive_cmd_bytes c = d_handle c @ d_data c @ u32_to_le_bytes (d_flags c) @
     u32_to_le_bytes (d_tci_type c) @ u32_to_le_bytes (d_target_locality c) @
     u32_to_le_bytes (d_svn c)"

definition read_derive_cmd :: "DeriveContextCmd reader" where
  "read_derive_cmd = then_read (read_n HANDLE_SIZE) (\<lambda>h. then_read (read_n TCI_SIZE) (\<lambda>d.
     then_read read_u32 (\<lambda>f. then_read read_u32 (\<lambda>t. then_read read_u32 (\<lambda>l.
     then_read read_u32 (\<lambda>s. read_done \<lparr>d_handle = h, d_data = d, d_flags = f, d_tci_type = t,
       d_target_locality = l, d_svn = s\<rparr>))))))"

definition certify_cmd_bytes :: "CertifyKeyCmd \<Rightarrow> bytes" where
  "certify_cmd_bytes c = ck_handle c @ u32_to_le_bytes (ck_flags c) @
     u32_to_le_bytes (ck_format c) @ ck_label c"

definition read_certify_cmd :: "nat \<Rightarrow> CertifyKeyCmd reader" where
  "read_certify_cmd n = then_read (read_n HANDLE_SIZE) (\<lambda>h. then_read read_u32 (\<lambda>fl.
     then_read read_u32 (\<lambda>fo. then_read (read_n n) (\<lambda>l.
     read_done \<lparr>ck_handle = h, ck_flags = fl, ck_format = fo, ck_label = l\<rparr>))))"

definition sign_cmd_bytes :: "SignCmd \<Rightarrow> bytes" where
  "sign_cmd_bytes c = sg_handle c @ sg_label c @ u32_to_le_bytes (sg_flags c) @ sg_digest c"

definition read_sign_cmd :: "nat \<Rightarrow> nat \<Rightarrow> SignCmd reader" where
  "read_sign_cmd n m = then_read (read_n HANDLE_SIZE) (\<lambda>h. then_read (read_n n) (\<lambda>l.
     then_read read_u32 (\<lambda>f. then_read (read_n m) (\<lambda>d.
     read_done \<lparr>sg_handle = h, sg_label = l, sg_flags = f, sg_digest = d\<rparr>))))"

definition sign_raw_cmd_bytes :: "SignMldsa87RawCmd \<Rightarrow> bytes" where
  "sign_raw_cmd_bytes c = sr_handle c @ sr_label c @ u32_to_le_bytes (sr_flags c) @
     u32_to_le_bytes (sr_size c) @ sr_raw_data c"

definition read_sign_raw_cmd :: "SignMldsa87RawCmd reader" where
  "read_sign_raw_cmd = then_read (read_n HANDLE_SIZE) (\<lambda>h. then_read (read_n 48) (\<lambda>l.
     then_read read_u32 (\<lambda>f. then_read read_u32 (\<lambda>s. then_read (read_n MLDSA87_RAW_MAX_SIZE) (\<lambda>d.
     read_done \<lparr>sr_handle = h, sr_label = l, sr_flags = f, sr_size = s, sr_raw_data = d\<rparr>)))))"

text \<open>\<open>SignMldsa87Header\<close>: handle, label and flags.\<close>

definition read_sign_header :: "(ContextHandle \<times> bytes \<times> u32) reader" where
  "read_sign_header = then_read (read_n HANDLE_SIZE) (\<lambda>h. then_read (read_n 48) (\<lambda>l.
     then_read read_u32 (\<lambda>f. read_done (h, l, f))))"

definition rotate_cmd_bytes :: "RotateCtxCmd \<Rightarrow> bytes" where
  "rotate_cmd_bytes c = r_handle c @ u32_to_le_bytes (r_flags c)"

definition read_rotate_cmd :: "RotateCtxCmd reader" where
  "read_rotate_cmd = then_read (read_n HANDLE_SIZE) (\<lambda>h. then_read read_u32 (\<lambda>f.
     read_done \<lparr>r_handle = h, r_flags = f\<rparr>))"

definition chain_cmd_bytes :: "GetCertificateChainCmd \<Rightarrow> bytes" where
  "chain_cmd_bytes c = u32_to_le_bytes (g_offset c) @ u32_to_le_bytes (g_size c)"

definition read_chain_cmd :: "GetCertificateChainCmd reader" where
  "read_chain_cmd = then_read read_u32 (\<lambda>a. then_read read_u32 (\<lambda>b.
     read_done \<lparr>g_offset = a, g_size = b\<rparr>))"

definition update_cmd_bytes :: "UpdateContextMeasurementCmd \<Rightarrow> bytes" where
  "update_cmd_bytes c = u_parent_handle c @ u_data c @ u32_to_le_bytes (u_reserved c) @
     u32_to_le_bytes (u_tci_type c) @ u32_to_le_bytes (u_reserved_svn c)"

definition read_update_cmd :: "UpdateContextMeasurementCmd reader" where
  "read_update_cmd = then_read (read_n HANDLE_SIZE) (\<lambda>h. then_read (read_n TCI_SIZE) (\<lambda>d.
     then_read read_u32 (\<lambda>r. then_read read_u32 (\<lambda>t. then_read read_u32 (\<lambda>s.
     read_done \<lparr>u_parent_handle = h, u_data = d, u_reserved = r, u_tci_type = t,
       u_reserved_svn = s\<rparr>)))))"

fun certify_command_bytes :: "CertifyKeyCommand \<Rightarrow> bytes" where
  "certify_command_bytes (CkP256 c) = certify_cmd_bytes c"
| "certify_command_bytes (CkP384 c) = certify_cmd_bytes c"
| "certify_command_bytes (CkMldsa87 c) = certify_cmd_bytes c"

fun sign_command_bytes :: "SignCommand \<Rightarrow> bytes" where
  "sign_command_bytes (SgP256 c) = sign_cmd_bytes c"
| "sign_command_bytes (SgP384 c) = sign_cmd_bytes c"
| "sign_command_bytes (SgMldsa87 c) = sign_cmd_bytes c"
| "sign_command_bytes (SgMldsa87Raw c) = sign_raw_cmd_bytes c"

fun command_bytes :: "Command \<Rightarrow> bytes" where
  "command_bytes GetProfile = []"
| "command_bytes (InitCtx c) = u32_to_le_bytes c"
| "command_bytes (DeriveContext c) = derive_cmd_bytes c"
| "command_bytes (CertifyKey c) = certify_command_bytes c"
| "command_bytes (Sign c) = sign_command_bytes c"
| "command_bytes (RotateCtx c) = rotate_cmd_bytes c"
| "command_bytes (DestroyCtx c) = c"
| "command_bytes (GetCertificateChain c) = chain_cmd_bytes c"
| "command_bytes (UpdateContextMeasurement c) = update_cmd_bytes c"

section \<open>CommandHdr\<close>

record CommandHdr =
  ch_magic :: u32
  ch_cmd_id :: u32
  ch_profile :: u32

definition DPE_COMMAND_MAGIC :: u32 where
  "DPE_COMMAND_MAGIC = 0x44504543"

definition CommandHdr_new :: "DpeProfile \<Rightarrow> u32 \<Rightarrow> CommandHdr" where
  "CommandHdr_new p cmd_id =
     \<lparr>ch_magic = DPE_COMMAND_MAGIC, ch_cmd_id = cmd_id, ch_profile = profile_u32 p\<rparr>"

definition command_hdr_bytes :: "CommandHdr \<Rightarrow> bytes" where
  "command_hdr_bytes h = u32_to_le_bytes (ch_magic h) @ u32_to_le_bytes (ch_cmd_id h) @
     u32_to_le_bytes (ch_profile h)"

definition read_command_hdr :: "CommandHdr reader" where
  "read_command_hdr = then_read read_u32 (\<lambda>m. then_read read_u32 (\<lambda>c. then_read read_u32 (\<lambda>p.
     read_done \<lparr>ch_magic = m, ch_cmd_id = c, ch_profile = p\<rparr>)))"

definition command_hdr_try_from :: "bytes \<Rightarrow> (DpeErrorCode, CommandHdr) outcome" where
  "command_hdr_try_from raw =
     bindO (ok_or (read_prefix read_command_hdr raw) InvalidCommand) (\<lambda>h.
       if ch_magic h \<noteq> DPE_COMMAND_MAGIC then Err InvalidCommand else Ok h)"

definition try_from_with_profile :: "DpeProfile \<Rightarrow> bytes \<Rightarrow> (DpeErrorCode, CommandHdr) outcome" where
  "try_from_with_profile p raw =
     bindO (command_hdr_try_from raw) (\<lambda>h.
       if ch_cmd_id h \<noteq> GET_PROFILE \<and> ch_profile h \<noteq> profile_u32 p then Err InvalidCommand
       else Ok h)"

section \<open>Deserialization\<close>

text \<open>\<open>ref_from_prefix\<close> of a structure with alignment 4; \<open>parse_command\<close> is its use.\<close>

definition parse_command ::
  "bool \<Rightarrow> ('a \<Rightarrow> 'b) \<Rightarrow> 'a reader \<Rightarrow> bytes \<Rightarrow> (DpeErrorCode, 'b) outcome" where
  "parse_command aligned build rd bs =
     bindO (ok_or (if aligned then read_prefix rd bs else None) InvalidArgument) (\<lambda>x. Ok (build x))"

primrec certify_deserialize ::
  "bool \<Rightarrow> DpeProfile \<Rightarrow> bytes \<Rightarrow> (DpeErrorCode, CertifyKeyCommand) outcome" where
  "certify_deserialize al P256Sha256 bs = parse_command al CkP256 (read_certify_cmd 32) bs"
| "certify_deserialize al P384Sha384 bs = parse_command al CkP384 (read_certify_cmd 48) bs"
| "certify_deserialize al Mldsa87 bs = parse_command al CkMldsa87 (read_certify_cmd 48) bs"

definition sign_deserialize_mldsa87 :: "bool \<Rightarrow> bytes \<Rightarrow> (DpeErrorCode, SignCommand) outcome" where
  "sign_deserialize_mldsa87 al bs =
     bindO (parse_command al id read_sign_header bs) (\<lambda>(h, l, flags).
       if flags_contains flags SIGN_IS_RAW
       then (if length bs < 16 + 48 + 4 + 4 + MLDSA87_RAW_MAX_SIZE then Err InvalidArgument
             else bindO (parse_command al id read_sign_raw_cmd bs) (\<lambda>cmd.
               if MLDSA87_RAW_MAX_SIZE < unat (sr_size cmd) then Err InvalidArgument
               else Ok (SgMldsa87Raw cmd)))
       else parse_command al SgMldsa87 (read_sign_cmd 48 64) bs)"

primrec sign_deserialize ::
  "bool \<Rightarrow> DpeProfile \<Rightarrow> bytes \<Rightarrow> (DpeErrorCode, SignCommand) outcome" where
  "sign_deserialize al P256Sha256 bs = parse_command al SgP256 (read_sign_cmd 32 32) bs"
| "sign_deserialize al P384Sha384 bs = parse_command al SgP384 (read_sign_cmd 48 48) bs"
| "sign_deserialize al Mldsa87 bs = sign_deserialize_mldsa87 al bs"

definition deserialize :: "bool \<Rightarrow> DpeProfile \<Rightarrow> bytes \<Rightarrow> (DpeErrorCode, Command) outcome" where
  "deserialize al p raw =
     bindO (try_from_with_profile p raw) (\<lambda>header.
     bindO (ok_or (get_range raw 12 (length raw)) InvalidCommand) (\<lambda>bs.
       let cmd_id = ch_cmd_id header in
       if cmd_id = GET_PROFILE then parse_command al (\<lambda>_. GetProfile) (read_n 0) bs
       else if cmd_id = INITIALIZE_CONTEXT then parse_command al InitCtx read_u32 bs
       else if cmd_id = DERIVE_CONTEXT then parse_command al DeriveContext read_derive_cmd bs
       else if cmd_id = CERTIFY_KEY
         then bindO (certify_deserialize al p bs) (\<lambda>c. Ok (CertifyKey c))
       else if cmd_id = SIGN then bindO (sign_deserialize al p bs) (\<lambda>c. Ok (Sign c))
       else if cmd_id = ROTATE_CONTEXT_HANDLE then parse_command al RotateCtx read_rotate_cmd bs
       else if cmd_id = DESTROY_CONTEXT
         then parse_command True DestroyCtx (read_n HANDLE_SIZE) bs
       else if cmd_id = GET_CERTIFICATE_CHAIN
         then parse_command al GetCertificateChain read_chain_cmd bs
       else if cmd_id = UPDATE_CONTEXT_MEASUREMENT
         then parse_command al UpdateContextMeasurement read_update_cmd bs
       else Err InvalidCommand))"

section \<open>Round trip\<close>

text \<open>The lengths the types fix, and the commands that a profile accepts.\<close>

fun certify_command_ok :: "DpeProfile \<Rightarrow> CertifyKeyCommand \<Rightarrow> bool" where
  "certify_command_ok P256Sha256 (CkP256 c) \<longleftrightarrow> handle_ok (ck_handle c) \<and> length (ck_label c) = 32"
| "certify_command_ok P384Sha384 (CkP384 c) \<longleftrightarrow> handle_ok (ck_handle c) \<and> length (ck_label c) = 48"
| "certify_command_ok Mldsa87 (CkMldsa87 c) \<longleftrightarrow> handle_ok (ck_handle c) \<and> length (ck_label c) = 48"
| "certify_command_ok _ _ = False"

fun sign_command_ok :: "DpeProfile \<Rightarrow> SignCommand \<Rightarrow> bool" where
  "sign_command_ok P256Sha256 (SgP256 c) \<longleftrightarrow>
     handle_ok (sg_handle c) \<and> length (sg_label c) = 32 \<and> length (sg_digest c) = 32"
| "sign_command_ok P384Sha384 (SgP384 c) \<longleftrightarrow>
     handle_ok (sg_handle c) \<and> length (sg_label c) = 48 \<and> length (sg_digest c) = 48"
| "sign_command_ok Mldsa87 (SgMldsa87 c) \<longleftrightarrow>
     handle_ok (sg_handle c) \<and> length (sg_label c) = 48 \<and> length (sg_digest c) = 64 \<and>
     \<not> flags_contains (sg_flags c) SIGN_IS_RAW"
| "sign_command_ok Mldsa87 (SgMldsa87Raw c) \<longleftrightarrow>
     handle_ok (sr_handle c) \<and> length (sr_label c) = 48 \<and> length (sr_raw_data c) = 1024 \<and>
     unat (sr_size c) \<le> 1024 \<and> flags_contains (sr_flags c) SIGN_IS_RAW"
| "sign_command_ok _ _ = False"

fun command_ok :: "DpeProfile \<Rightarrow> Command \<Rightarrow> bool" where
  "command_ok p GetProfile = True"
| "command_ok p (InitCtx c) = True"
| "command_ok p (DeriveContext c) \<longleftrightarrow> handle_ok (d_handle c) \<and> length (d_data c) = TCI_SIZE"
| "command_ok p (CertifyKey c) = certify_command_ok p c"
| "command_ok p (Sign c) = sign_command_ok p c"
| "command_ok p (RotateCtx c) = handle_ok (r_handle c)"
| "command_ok p (DestroyCtx c) = handle_ok c"
| "command_ok p (GetCertificateChain c) = True"
| "command_ok p (UpdateContextMeasurement c) \<longleftrightarrow>
     handle_ok (u_parent_handle c) \<and> length (u_data c) = TCI_SIZE"

interpretation command_hdr: wire 12 "\<lambda>_. True" command_hdr_bytes read_command_hdr
  by unfold_locales (simp_all add: command_hdr_bytes_def read_command_hdr_def wire_simps)

interpretation derive_cmd: wire 80 "\<lambda>c. handle_ok (d_handle c) \<and> length (d_data c) = TCI_SIZE"
  derive_cmd_bytes read_derive_cmd
  by unfold_locales
    (simp_all add: derive_cmd_bytes_def read_derive_cmd_def handle_ok_def HANDLE_SIZE_def wire_simps)

interpretation certify_cmd: wire "24 + n" "\<lambda>c. handle_ok (ck_handle c) \<and> length (ck_label c) = n"
  certify_cmd_bytes "read_certify_cmd n" for n
  by unfold_locales
    (simp_all add: certify_cmd_bytes_def read_certify_cmd_def handle_ok_def HANDLE_SIZE_def wire_simps)

interpretation sign_cmd: wire "20 + n + m"
  "\<lambda>c. handle_ok (sg_handle c) \<and> length (sg_label c) = n \<and> length (sg_digest c) = m"
  sign_cmd_bytes "read_sign_cmd n m" for n m
  by unfold_locales
    (simp_all add: sign_cmd_bytes_def read_sign_cmd_def handle_ok_def HANDLE_SIZE_def wire_simps)

interpretation sign_raw_cmd: wire 1096
  "\<lambda>c. handle_ok (sr_handle c) \<and> length (sr_label c) = 48 \<and> length (sr_raw_data c) = 1024"
  sign_raw_cmd_bytes read_sign_raw_cmd
  by unfold_locales
    (simp_all add: sign_raw_cmd_bytes_def read_sign_raw_cmd_def handle_ok_def HANDLE_SIZE_def
      MLDSA87_RAW_MAX_SIZE_def wire_simps)

interpretation rotate_cmd: wire 20 "\<lambda>c. handle_ok (r_handle c)" rotate_cmd_bytes read_rotate_cmd
  by unfold_locales
    (simp_all add: rotate_cmd_bytes_def read_rotate_cmd_def handle_ok_def HANDLE_SIZE_def wire_simps)

interpretation chain_cmd: wire 8 "\<lambda>_. True" chain_cmd_bytes read_chain_cmd
  by unfold_locales (simp_all add: chain_cmd_bytes_def read_chain_cmd_def wire_simps)

interpretation update_cmd: wire 76 "\<lambda>c. handle_ok (u_parent_handle c) \<and> length (u_data c) = TCI_SIZE"
  update_cmd_bytes read_update_cmd
  by unfold_locales
    (simp_all add: update_cmd_bytes_def read_update_cmd_def handle_ok_def HANDLE_SIZE_def wire_simps)

lemma parse_command_prefix:
  "rd bs = Some (x, r) \<Longrightarrow> parse_command True f rd bs = Ok (f x)"
  by (simp add: parse_command_def read_prefix_def)

lemma sign_header_legacy:
  "length h = 16 \<Longrightarrow> length l = 48 \<Longrightarrow>
     read_sign_header (h @ l @ u32_to_le_bytes f @ r) = Some ((h, l, f), r)"
  by (simp add: read_sign_header_def HANDLE_SIZE_def wire_simps)

lemma certify_deserialize_bytes:
  "certify_command_ok p c \<Longrightarrow> certify_deserialize True p (certify_command_bytes c @ r) = Ok c"
  by (cases p; cases c) (auto intro!: parse_command_prefix certify_cmd.read_write)

lemma sign_deserialize_bytes:
  assumes "sign_command_ok p c"
  shows "sign_deserialize True p (sign_command_bytes c @ r) = Ok c"
proof (cases c)
  case (SgMldsa87 x)
  with assms have p: "p = Mldsa87" by (cases p) auto
  with assms SgMldsa87 have ok: "handle_ok (sg_handle x)" "length (sg_label x) = 48"
    "length (sg_digest x) = 64" "\<not> flags_contains (sg_flags x) SIGN_IS_RAW" by auto
  then have "read_sign_header (sign_cmd_bytes x @ r) =
      Some ((sg_handle x, sg_label x, sg_flags x), sg_digest x @ r)"
    by (simp add: sign_cmd_bytes_def sign_header_legacy handle_ok_def HANDLE_SIZE_def)
  with ok p SgMldsa87 sign_cmd.read_write [of x 48 64 r] show ?thesis
    by (simp add: sign_deserialize_mldsa87_def parse_command_prefix)
next
  case (SgMldsa87Raw x)
  with assms have p: "p = Mldsa87" by (cases p) auto
  with assms SgMldsa87Raw have ok: "handle_ok (sr_handle x)" "length (sr_label x) = 48"
    "length (sr_raw_data x) = 1024" "unat (sr_size x) \<le> 1024" "flags_contains (sr_flags x) SIGN_IS_RAW"
    by auto
  then have h: "read_sign_header (sign_raw_cmd_bytes x @ r) =
      Some ((sr_handle x, sr_label x, sr_flags x), u32_to_le_bytes (sr_size x) @ sr_raw_data x @ r)"
    by (simp add: sign_raw_cmd_bytes_def sign_header_legacy handle_ok_def HANDLE_SIZE_def)
  have "length (sign_raw_cmd_bytes x) = 1096" by (rule sign_raw_cmd.length_write) (use ok in simp)
  with h ok p SgMldsa87Raw sign_raw_cmd.read_write [of x r] show ?thesis
    by (simp add: sign_deserialize_mldsa87_def parse_command_prefix MLDSA87_RAW_MAX_SIZE_def)
qed (use assms in \<open>cases p; auto intro!: parse_command_prefix sign_cmd.read_write\<close>)+

lemma try_from_with_profile_hdr:
  "try_from_with_profile p (command_hdr_bytes (CommandHdr_new p i) @ r) = Ok (CommandHdr_new p i)"
  by (simp add: try_from_with_profile_def command_hdr_try_from_def command_hdr.read_prefix_write
      CommandHdr_new_def)

lemma deserialize_bytes:
  assumes "command_ok p c"
  shows "deserialize True p (command_hdr_bytes (CommandHdr_new p (command_id c)) @ command_bytes c @ r) = Ok c"
proof -
  have l: "length (command_hdr_bytes h) = 12" for h by (rule command_hdr.length_write) simp
  have rg: "get_range (command_hdr_bytes h @ bs) 12 (12 + length bs) = Some bs" for h bs
    by (simp add: get_range_def l)
  have "deserialize True p (command_hdr_bytes (CommandHdr_new p (command_id c)) @ bs) =
      (case c of
        GetProfile \<Rightarrow> parse_command True (\<lambda>_. GetProfile) (read_n 0) bs
      | InitCtx _ \<Rightarrow> parse_command True InitCtx read_u32 bs
      | DeriveContext _ \<Rightarrow> parse_command True DeriveContext read_derive_cmd bs
      | CertifyKey _ \<Rightarrow> bindO (certify_deserialize True p bs) (\<lambda>c. Ok (CertifyKey c))
      | Sign _ \<Rightarrow> bindO (sign_deserialize True p bs) (\<lambda>c. Ok (Sign c))
      | RotateCtx _ \<Rightarrow> parse_command True RotateCtx read_rotate_cmd bs
      | DestroyCtx _ \<Rightarrow> parse_command True DestroyCtx (read_n HANDLE_SIZE) bs
      | GetCertificateChain _ \<Rightarrow> parse_command True GetCertificateChain read_chain_cmd bs
      | UpdateContextMeasurement _ \<Rightarrow>
          parse_command True UpdateContextMeasurement read_update_cmd bs)" for bs
    unfolding deserialize_def try_from_with_profile_hdr
    by (cases c) (simp_all add: l rg CommandHdr_new_def command_ids)
  then show ?thesis
    using assms
    by (cases c)
      (auto intro!: parse_command_prefix derive_cmd.read_write rotate_cmd.read_write
        chain_cmd.read_write update_cmd.read_write
        simp: certify_deserialize_bytes sign_deserialize_bytes wire_simps handle_ok_def read_n_def)
qed

text \<open>Every way in which a request is refused.\<close>

lemma deserialize_short_header:
  "length raw < 12 \<Longrightarrow> deserialize al p raw = Err InvalidCommand"
  by (auto simp: deserialize_def try_from_with_profile_def command_hdr_try_from_def read_prefix_def
      read_command_hdr_def then_read_def read_u32_def read_n_def read_done_def ok_or_def
      split: option.splits)

definition request_outcome :: "(DpeErrorCode, 'a) outcome \<Rightarrow> bool" where
  "request_outcome r \<longleftrightarrow> (\<exists>x. r = Ok x) \<or> r = Err InvalidCommand \<or> r = Err InvalidArgument"

lemma request_outcome_intros:
  "request_outcome (Ok x)"
  "request_outcome (Err InvalidCommand)"
  "request_outcome (Err InvalidArgument)"
  "request_outcome r \<Longrightarrow> (\<And>x. request_outcome (f x)) \<Longrightarrow> request_outcome (bindO r f)"
  "request_outcome (ok_or opt InvalidCommand)"
  "request_outcome (ok_or opt InvalidArgument)"
  "(c \<Longrightarrow> request_outcome r) \<Longrightarrow> (\<not> c \<Longrightarrow> request_outcome s) \<Longrightarrow>
     request_outcome (if c then r else s)"
  by (simp_all add: request_outcome_def ok_or_def split: option.splits) (cases r; auto)

lemma parse_command_outcome: "request_outcome (parse_command al f rd bs)"
  unfolding parse_command_def by (intro request_outcome_intros)

lemma sign_deserialize_outcome: "request_outcome (sign_deserialize al p bs)"
proof -
  have "request_outcome (sign_deserialize_mldsa87 al bs)"
    unfolding sign_deserialize_mldsa87_def split_beta
    by (intro request_outcome_intros parse_command_outcome)
  then show ?thesis
    by (cases p) (simp_all only: sign_deserialize.simps parse_command_outcome)
qed

lemma certify_deserialize_outcome: "request_outcome (certify_deserialize al p bs)"
  by (cases p) (simp_all only: certify_deserialize.simps parse_command_outcome)

lemma deserialize_outcome: "request_outcome (deserialize al p raw)"
  unfolding deserialize_def try_from_with_profile_def command_hdr_try_from_def Let_def
  by (intro request_outcome_intros parse_command_outcome sign_deserialize_outcome
      certify_deserialize_outcome)

end
