(* ===== verification/Cmd_Simple.thy ===== *)
theory Cmd_Simple
  imports Instance Commands
begin

text \<open>
  The commands that issue no certificate and no signature: InitializeContext
  (commands/initialize_context.rs), RotateContextHandle (rotate_context.rs), DestroyContext
  (destroy_context.rs), UpdateContextMeasurement (update_context_measurement.rs), GetProfile
  (get_profile.rs) and GetCertificateChain (get_certificate_chain.rs). Each definition is the
  command's \<open>execute_serialized\<close>: it returns the number of response bytes written.
\<close>

section \<open>InitializeContext\<close>

definition init_args :: "InitCtxCmd \<Rightarrow> ContextType \<Rightarrow> ContextHandle \<Rightarrow> u32 \<Rightarrow> ActiveContextArgs" where
  "init_args cmd ty h loc = \<lparr>a_context_type = ty, a_locality = loc, a_handle = h, a_tci_type = 0,
     a_parent_idx = ROOT_INDEX, a_allow_x509 = True, a_uses_internal_input_info = False,
     a_uses_internal_input_dice = False, a_allow_export_cdi = True, a_svn = 0,
     a_allow_recursive = flag_is_default cmd\<rparr>"

definition init_ctx :: "('c, 'p) deps \<Rightarrow> DpeProfile \<Rightarrow> InitCtxCmd \<Rightarrow> u32 \<Rightarrow> ('c, 'p, nat) dpe" where
  "init_ctx d p cmd loc =
     bind (ask (\<lambda>st.
       if (flag_is_default cmd \<and> has_initialized st) \<or>
          (flag_is_simulation cmd \<and> \<not> sup_simulation (support st))
       then Err ArgumentNotSupported else Ok ())) (\<lambda>_.
     bind (guard_err (flag_is_default cmd = flag_is_simulation cmd) InvalidArgument) (\<lambda>_.
     bind (ask (\<lambda>st. ok_or (get_next_inactive_context_pos st) MaxTcis)) (\<lambda>idx.
     bind (if flag_is_default cmd
           then bind (on_state (\<lambda>st. st\<lparr>f_has_initialized := U8Bool_new True\<rparr>)) (\<lambda>_.
                ret (Normal, handle_default))
           else bind (generate_new_handle d) (\<lambda>h. ret (Simulation, h))) (\<lambda>(ty, h).
     bind (ctx_at idx (InternalError InitContextIndexOob)) (\<lambda>c.
     bind (on_state (put_context idx (activate (init_args cmd ty h loc) c))) (\<lambda>_.
     write_response (new_handle_resp_bytes
       \<lparr>nh_hdr = response_hdr p NoError, nh_handle = h\<rparr>)))))))"

section \<open>RotateContextHandle\<close>

definition non_default_valid_handles_exist :: "State \<Rightarrow> u32 \<Rightarrow> nat \<Rightarrow> bool" where
  "non_default_valid_handles_exist st loc target_idx =
     list_ex (\<lambda>(idx, c). state c = Active \<and> locality c = loc \<and> \<not> is_default (handle c) \<and>
        idx \<noteq> target_idx) (List.enumerate 0 (contexts st))"

definition rotate_ctx :: "('c, 'p) deps \<Rightarrow> DpeProfile \<Rightarrow> RotateCtxCmd \<Rightarrow> u32 \<Rightarrow> ('c, 'p, nat) dpe" where
  "rotate_ctx d p cmd loc =
     bind (ask (\<lambda>st. if \<not> sup_rotate_context (support st) then Err InvalidCommand else Ok ())) (\<lambda>_.
     bind (ask (\<lambda>st. get_active_context_pos st (r_handle cmd) loc)) (\<lambda>idx.
     bind (ask (\<lambda>st.
       if uses_target_is_default cmd \<and>
          (is_ok (get_active_context_pos st handle_default loc) \<or>
           non_default_valid_handles_exist st loc idx)
       then Err InvalidArgument else Ok ())) (\<lambda>_.
     bind (if uses_target_is_default cmd then ret handle_default else generate_new_handle d) (\<lambda>h.
     bind (ctx_at idx (InternalError ContextIndexOob)) (\<lambda>c.
     bind (on_state (put_context idx (c\<lparr>handle := h\<rparr>))) (\<lambda>_.
     write_response (new_handle_resp_bytes
       \<lparr>nh_hdr = response_hdr p NoError, nh_handle = h\<rparr>)))))))"

section \<open>DestroyContext\<close>

text \<open>
  The loop that marks the consecutive retired ancestors with a single child. Its fuel is one round
  per node and one to leave: a longer run has come back to a node and never ends.
\<close>

fun retired_loop :: "nat \<Rightarrow> Context list \<Rightarrow> u8 \<Rightarrow> Children \<Rightarrow> (DpeErrorCode, Children) outcome" where
  "retired_loop 0 ctxs parent acc = Diverge"
| "retired_loop (Suc n) ctxs parent acc =
     (if parent = ROOT_INDEX then Ok acc
      else case get_at ctxs (unat parent) of
        None \<Rightarrow> Err (InternalError DestroyParentIndexOob)
      | Some c \<Rightarrow>
          if state c = Retired \<and> length (children_iter (children c)) = 1
          then bindO (children_add_child acc (unat parent)) (retired_loop n ctxs (parent_idx c))
          else Ok acc)"

definition destroy_one :: "Children \<Rightarrow> nat \<times> Context \<Rightarrow> Context" where
  "destroy_one to_destroy = (\<lambda>(idx, c).
     let c' = c\<lparr>children := children_remove_children (children c) to_destroy\<rparr>
     in if children_has_child to_destroy idx then destroy c' else c')"

definition destroy_all :: "Children \<Rightarrow> State \<Rightarrow> State" where
  "destroy_all to_destroy st =
     st\<lparr>contexts := map (destroy_one to_destroy) (List.enumerate 0 (contexts st))\<rparr>"

definition destroy_context :: "ContextHandle \<Rightarrow> State \<Rightarrow> u32 \<Rightarrow> (DpeErrorCode, State) outcome" where
  "destroy_context h st loc =
     bindO (get_active_context_and_idx st h loc) (\<lambda>(c, idx).
       if locality c \<noteq> loc then Err InvalidLocality
       else
         bindO (retired_loop (Suc MAX_HANDLES) (contexts st) (parent_idx c) children_empty) (\<lambda>retired.
         bindO (get_descendants st c) (\<lambda>descendants.
         bindO (children_add_child descendants idx) (\<lambda>with_self.
           Ok (destroy_all (children_add_children with_self retired) st)))))"

definition try_state :: "(State \<Rightarrow> (DpeErrorCode, State) outcome) \<Rightarrow> ('c, 'p, unit) dpe" where
  "try_state f = bind (ask f) (\<lambda>st. on_state (\<lambda>_. st))"

definition destroy_ctx :: "('c, 'p) deps \<Rightarrow> DpeProfile \<Rightarrow> DestroyCtxCmd \<Rightarrow> u32 \<Rightarrow> ('c, 'p, nat) dpe" where
  "destroy_ctx d p cmd loc =
     bind (try_state (\<lambda>st. destroy_context cmd st loc)) (\<lambda>_.
     write_response (hdr_bytes (response_hdr p NoError)))"

section \<open>UpdateContextMeasurement\<close>

definition find_child :: "State \<Rightarrow> Children \<Rightarrow> u32 \<Rightarrow> nat option" where
  "find_child st cs ty =
     List.find (\<lambda>idx. case get_at (contexts st) idx of
         None \<Rightarrow> False
       | Some c \<Rightarrow> state c = Active \<and> tci_type (tci c) = ty) (children_iter cs)"

definition update_context_measurement ::
  "('c, 'p) deps \<Rightarrow> DpeProfile \<Rightarrow> UpdateContextMeasurementCmd \<Rightarrow> u32 \<Rightarrow> ('c, 'p, nat) dpe" where
  "update_context_measurement d p cmd loc =
     bind (guard_err (is_default (u_parent_handle cmd)) InvalidArgument) (\<lambda>_.
     bind (ask (\<lambda>st. map_err (\<lambda>_. InvalidParentLocality)
             (get_active_context_pos st (u_parent_handle cmd) loc))) (\<lambda>pidx.
     bind (ctx_at pidx (InternalError ContextIndexOob)) (\<lambda>parent.
     bind (ask (\<lambda>st. ok_or (find_child st (children parent) (u_tci_type cmd)) InvalidArgument)) (\<lambda>child_idx.
     bind (ctx_at child_idx (InternalError ChildIndexOob)) (\<lambda>tmp_child.
     bind (add_tci_measurement d tmp_child (u_data cmd) (locality tmp_child)) (\<lambda>tmp_child.
     bind (ctx_at pidx (InternalError ContextIndexOob)) (\<lambda>tmp_parent.
     bind (roll_onetime_use_handle d tmp_parent) (\<lambda>tmp_parent.
     bind (set_ctx_or pidx tmp_parent (InternalError ContextIndexOob)) (\<lambda>_.
     bind (roll_onetime_use_handle d tmp_child) (\<lambda>tmp_child.
     bind (set_ctx_or child_idx tmp_child (InternalError ChildIndexOob)) (\<lambda>_.
     write_response (update_resp_bytes
       \<lparr>uc_hdr = response_hdr p NoError, uc_new_context_handle = handle tmp_child,
        uc_new_parent_context_handle = handle tmp_parent\<rparr>))))))))))))"

section \<open>GetProfile and GetCertificateChain\<close>

definition get_profile_cmd :: "('c, 'p) deps \<Rightarrow> DpeProfile \<Rightarrow> u32 \<Rightarrow> ('c, 'p, nat) dpe" where
  "get_profile_cmd d p loc =
     bind (gets (\<lambda>w. support (dstate w))) (\<lambda>supp.
     bind (get_profile d p supp) (\<lambda>resp.
     write_response (get_profile_resp_bytes resp)))"

definition get_certificate_chain_cmd ::
  "('c, 'p) deps \<Rightarrow> DpeProfile \<Rightarrow> GetCertificateChainCmd \<Rightarrow> u32 \<Rightarrow> ('c, 'p, nat) dpe" where
  "get_certificate_chain_cmd d p cmd loc =
     bind (guard_err (of_nat MAX_CHUNK_SIZE < g_size cmd) InvalidArgument) (\<lambda>_.
     bind (on_platform (get_certificate_chain (pops d) (g_offset cmd) (g_size cmd)
             (replicate MAX_CHUNK_SIZE 0))) (\<lambda>(len, cert_chunk).
     write_response (cert_chain_resp_bytes
       \<lparr>gc_hdr = response_hdr p NoError, gc_certificate_size = len,
        gc_certificate_chain = cert_chunk\<rparr>)))"

end
