(* ===== verification/CertCreate.thy ===== *)
theory CertCreate
  imports Instance
begin

text \<open>
  Certificate and CSR creation in dpe/src/x509.rs: what is derived, asked of the platform and handed
  to the encoder (\<open>create_dpe_cert_or_csr\<close> and its helpers). The encoder \<open>generate_cert_or_csr\<close> is
  the argument \<open>gen\<close>: it runs on the crypto state, through the sign callback, and on the response
  buffer, and has no other effect.
\<close>

section \<open>Data handed to the encoder\<close>

datatype CertificateFormat = FormatX509 | FormatCsr

datatype CertificateType = Leaf | Exported

datatype DirectoryString = PrintableString (ds_bytes: bytes) | Utf8String (ds_bytes: bytes)

definition directory_string_len :: "DirectoryString \<Rightarrow> nat" where
  "directory_string_len s = length (ds_bytes s)"

definition directory_string_is_empty :: "DirectoryString \<Rightarrow> bool" where
  "directory_string_is_empty s = (ds_bytes s = [])"

record Name =
  name_cn :: DirectoryString
  name_serial :: DirectoryString

text \<open>\<open>TciNodes\<close> makes its iterator anew for every use.\<close>

record TciNodes =
  tn_start_idx :: nat
  tn_contexts :: "Context list"

definition TciNodes_iter :: "TciNodes \<Rightarrow> (DpeErrorCode, RootToChildIter) outcome" where
  "TciNodes_iter t = iter_new (tn_start_idx t) (tn_contexts t)"

definition TciNodes_new :: "nat \<Rightarrow> Context list \<Rightarrow> (DpeErrorCode, TciNodes) outcome" where
  "TciNodes_new start_idx ctxs =
     (let t = \<lparr>tn_start_idx = start_idx, tn_contexts = ctxs\<rparr>
      in bindO (TciNodes_iter t) (\<lambda>it.
        if MAX_HANDLES < length (iter_items it) then Err (InternalError TciNodeCountExceeded)
        else Ok t))"

definition TciNodes_is_empty :: "TciNodes \<Rightarrow> (DpeErrorCode, bool) outcome" where
  "TciNodes_is_empty t = bindO (TciNodes_iter t) (\<lambda>it. Ok (iter_is_empty it))"

definition TciNodes_num_nodes :: "TciNodes \<Rightarrow> (DpeErrorCode, nat) outcome" where
  "TciNodes_num_nodes t = bindO (TciNodes_iter t) (\<lambda>it. Ok (iter_num_nodes it))"

definition TciNodes_first_node :: "TciNodes \<Rightarrow> (DpeErrorCode, TciNodeData) outcome" where
  "TciNodes_first_node t =
     bindO (TciNodes_iter t) (\<lambda>it. bindO (iter_first_node it) (\<lambda>c. Ok (tci c)))"

record MeasurementData =
  md_tci_nodes :: TciNodes
  md_label :: bytes
  md_is_ca :: bool
  md_supports_recursive :: bool
  md_subject_key_identifier :: bytes
  md_authority_key_identifier :: bytes
  md_subject_alt_name :: "SubjectAltName option"

datatype CertOrCsrArgs = CertArgs bytes CertValidity | CsrArgs SignerIdentifier

text \<open>
  The sign callback: the bytes of the buffer, the range to sign, whether the derived key signs, and
  the signature to fill.
\<close>

type_synonym 'c sign_cb =
  "(nat \<Rightarrow> nat \<Rightarrow> (ResponseBufError, bytes) outcome) \<Rightarrow> nat \<Rightarrow> nat \<Rightarrow> bool \<Rightarrow> Signature \<Rightarrow>
     ('c, CryptoError, Signature) act"

text \<open>The encoder; the \<open>nat\<close> is the base of the view of the response buffer it writes to.\<close>

type_synonym 'c cert_gen =
  "CertOrCsrArgs \<Rightarrow> DpeProfile \<Rightarrow> bool \<Rightarrow> Name \<Rightarrow> PubKey \<Rightarrow> MeasurementData \<Rightarrow> 'c sign_cb \<Rightarrow> nat \<Rightarrow>
     Signature \<Rightarrow> ('c \<times> bytes, DpeErrorCode, u32) act"

record CreateDpeCertArgs =
  ca_handle :: ContextHandle
  ca_locality :: u32
  ca_cdi_label :: bytes
  ca_key_label :: bytes
  ca_context :: bytes
  ca_ueid :: bytes
  ca_dice_extensions_are_critical :: bool

record CreateDpeCertResult =
  cr_cert_size :: u32
  cr_pub_key :: PubKey
  cr_exported_cdi_handle :: bytes

primrec pub_key_zeroed :: "DpeProfile \<Rightarrow> PubKey" where
  "pub_key_zeroed P256Sha256 = PubEcdsa (EcdsaPub256 (replicate 32 0) (replicate 32 0))"
| "pub_key_zeroed P384Sha384 = PubEcdsa (EcdsaPub384 (replicate 48 0) (replicate 48 0))"
| "pub_key_zeroed Mldsa87 = PubMldsa (replicate (mldsa_public_key_size AlgMldsa87) 0)"

definition cert_result_zeroed :: "DpeProfile \<Rightarrow> CreateDpeCertResult" where
  "cert_result_zeroed p = \<lparr>cr_cert_size = 0, cr_pub_key = pub_key_zeroed p,
     cr_exported_cdi_handle = replicate MAX_EXPORTED_CDI_SIZE 0\<rparr>"

section \<open>Names and identifiers\<close>

definition MAX_HASH_SIZE :: nat where
  "MAX_HASH_SIZE = 48"

definition get_dpe_measurement_digest ::
  "('c, 'p) deps \<Rightarrow> DpeProfile \<Rightarrow> ContextHandle \<Rightarrow> u32 \<Rightarrow> ('c, 'p, Digest) dpe" where
  "get_dpe_measurement_digest d p h loc =
     bind (ask (\<lambda>st. get_active_context_pos st h loc)) (\<lambda>parent_idx.
     compute_measurement_hash d p parent_idx)"

definition subject_cn :: "CertificateType \<Rightarrow> bytes" where
  "subject_cn t = (case t of Leaf \<Rightarrow> ascii ''DPE Leaf'' | Exported \<Rightarrow> ascii ''DPE Exported CDI'')"

definition get_subject_name ::
  "('c, 'p) deps \<Rightarrow> CertificateType \<Rightarrow> PubKey \<Rightarrow> bytes \<Rightarrow> ('c, 'p, Name) dpe" where
  "get_subject_name d cert_type pub_key subj_serial =
     bind (on_crypto (get_pubkey_serial (cops d) pub_key subj_serial)) (\<lambda>subj_serial.
       if length subj_serial < 64 then lift Panic
       else ret \<lparr>name_cn = PrintableString (subject_cn cert_type),
                 name_serial = PrintableString (take 64 subj_serial)\<rparr>)"

definition get_subject_key_identifier :: "('c, 'p) deps \<Rightarrow> PubKey \<Rightarrow> ('c, 'p, bytes) dpe" where
  "get_subject_key_identifier d pub_key =
     bind (case pub_key of
         PubEcdsa k \<Rightarrow> (let (x, y) = ecdsa_pub_as_slice k in on_crypto (hash_all (cops d) [[0x04], x, y]))
       | PubMldsa k \<Rightarrow> on_crypto (crypto_hash (cops d) k)) (\<lambda>hashed_pub_key.
       if digest_size hashed_pub_key < MAX_KEY_IDENTIFIER_SIZE
       then throw (InternalError KeyIdHashTooSmall)
       else ret (take MAX_KEY_IDENTIFIER_SIZE (digest_as_slice hashed_pub_key)))"

section \<open>Creating a certificate or CSR\<close>

definition cert_sign_cb ::
  "('c, 'p) deps \<Rightarrow> CreateDpeCertArgs \<Rightarrow> Digest \<Rightarrow> bytes option \<Rightarrow> 'c sign_cb" where
  "cert_sign_cb d args digest exported rd a z use_derived out =
     (if use_derived
      then (case exported of
          Some h \<Rightarrow>
            bind (op_derive_key_pair_exported (cops d) h (ca_key_label args) (ca_context args)) (\<lambda>_.
            op_sign (cops d) (SignResponseBuffer rd a z) out)
        | None \<Rightarrow>
            crypto_sign_with_derived (cops d) digest (ca_cdi_label args) (ca_key_label args)
              (ca_context args) (SignResponseBuffer rd a z) out)
      else op_sign_with_alias (cops d) (SignResponseBuffer rd a z) out)"

definition on_encoder :: "('c \<times> bytes, DpeErrorCode, 'a) act \<Rightarrow> ('c, 'p, 'a) dpe" where
  "on_encoder m w =
     (case m (crypto w, outbuf w) of (r, (c', b')) \<Rightarrow> (r, w\<lparr>crypto := c', outbuf := b'\<rparr>))"

text \<open>The subject alternative name is optional: a platform may not implement it.\<close>

definition get_subject_alt_name :: "('c, 'p) deps \<Rightarrow> ('c, 'p, SubjectAltName option) dpe" where
  "get_subject_alt_name d w =
     (case op_get_subject_alternative_name (pops d) (platform w) of
        (Ok s, p') \<Rightarrow> (Ok (Some s), w\<lparr>platform := p'\<rparr>)
      | (Err PlatformNotImplemented, p') \<Rightarrow> (Ok None, w\<lparr>platform := p'\<rparr>)
      | (Err e, p') \<Rightarrow> (Err (Platform e), w\<lparr>platform := p'\<rparr>)
      | (Panic, p') \<Rightarrow> (Panic, w\<lparr>platform := p'\<rparr>)
      | (Diverge, p') \<Rightarrow> (Diverge, w\<lparr>platform := p'\<rparr>))"

definition derive_cert_key ::
  "('c, 'p) deps \<Rightarrow> CreateDpeCertArgs \<Rightarrow> Digest \<Rightarrow> CertificateType \<Rightarrow> PubKey \<Rightarrow>
     ('c, 'p, bytes option \<times> PubKey) dpe" where
  "derive_cert_key d args digest cert_type out =
     (case cert_type of
        Exported \<Rightarrow>
          bind (on_crypto (derive_exported_cdi (cops d) digest (ca_cdi_label args))) (\<lambda>h.
          bind (on_crypto (bind (op_derive_key_pair_exported (cops d) h (ca_key_label args) (ca_context args))
                  (\<lambda>_. op_public_key (cops d) out))) (\<lambda>pk.
          ret (Some h, pk)))
      | Leaf \<Rightarrow>
          bind (on_crypto (crypto_derive_pub_key (cops d) digest (ca_cdi_label args)
                  (ca_key_label args) (ca_context args) out)) (\<lambda>pk.
          ret (None, pk)))"

definition measurement_data ::
  "TciNodes \<Rightarrow> CreateDpeCertArgs \<Rightarrow> CertificateType \<Rightarrow> State \<Rightarrow> bytes \<Rightarrow> bytes \<Rightarrow> SubjectAltName option \<Rightarrow>
     MeasurementData" where
  "measurement_data nodes args cert_type st ski aki san = \<lparr>
     md_tci_nodes = nodes, md_label = ca_ueid args,
     md_is_ca = (case cert_type of Leaf \<Rightarrow> False | Exported \<Rightarrow> True),
     md_supports_recursive = (case cert_type of Leaf \<Rightarrow> sup_recursive (support st) | Exported \<Rightarrow> False),
     md_subject_key_identifier = ski, md_authority_key_identifier = aki,
     md_subject_alt_name = san\<rparr>"

definition format_args ::
  "('c, 'p) deps \<Rightarrow> CertificateFormat \<Rightarrow> CertValidity \<Rightarrow> SignerIdentifier \<Rightarrow> ('c, 'p, CertOrCsrArgs) dpe" where
  "format_args d fmt validity sid =
     (case fmt of
        FormatX509 \<Rightarrow>
          bind (on_platform (get_issuer_name (pops d) (replicate MAX_ISSUER_NAME_SIZE 0))) (\<lambda>(n, name).
            if MAX_ISSUER_NAME_SIZE < n then throw (InternalError IssuerNameTooLong)
            else ret (CertArgs (take n name) validity))
      | FormatCsr \<Rightarrow> ret (CsrArgs sid))"

definition create_dpe_cert_or_csr ::
  "'c cert_gen \<Rightarrow> ('c, 'p) deps \<Rightarrow> DpeProfile \<Rightarrow> CreateDpeCertArgs \<Rightarrow> CertificateFormat \<Rightarrow>
     CertificateType \<Rightarrow> nat \<Rightarrow> CreateDpeCertResult \<Rightarrow> ('c, 'p, CreateDpeCertResult) dpe" where
  "create_dpe_cert_or_csr gen d p args cert_format cert_type base out_result =
     bind (get_dpe_measurement_digest d p (ca_handle args) (ca_locality args)) (\<lambda>digest.
     bind (derive_cert_key d args digest cert_type (cr_pub_key out_result)) (\<lambda>(exported, pub_key).
     bind (get_subject_name d cert_type pub_key (replicate (MAX_HASH_SIZE * 2) 0)) (\<lambda>subject_name.
     bind (get_subject_key_identifier d pub_key) (\<lambda>ski.
     bind (on_platform (get_issuer_key_identifier (pops d) (replicate MAX_KEY_IDENTIFIER_SIZE 0))) (\<lambda>aki.
     bind (get_subject_alt_name d) (\<lambda>san.
     bind (ask (\<lambda>st. get_active_context_pos st (ca_handle args) (ca_locality args))) (\<lambda>idx.
     bind (ask (\<lambda>st. TciNodes_new idx (contexts st))) (\<lambda>nodes.
     bind (gets dstate) (\<lambda>st.
     let measurements = measurement_data nodes args cert_type st ski aki san in
     bind (gets (\<lambda>w. signature_zeroed (op_signature_algorithm (cops d) (crypto w)))) (\<lambda>sig.
     bind (on_platform (op_get_cert_validity (pops d))) (\<lambda>cert_validity.
     bind (on_platform (op_get_signer_identifier (pops d))) (\<lambda>signer_identifier.
     bind (format_args d cert_format cert_validity signer_identifier) (\<lambda>format_specific.
     bind (on_encoder (gen format_specific p (ca_dice_extensions_are_critical args) subject_name
             pub_key measurements (cert_sign_cb d args digest exported) base sig)) (\<lambda>cert_size.
     ret (out_result\<lparr>cr_cert_size := cert_size, cr_pub_key := pub_key,
       cr_exported_cdi_handle :=
         (case exported of None \<Rightarrow> replicate MAX_EXPORTED_CDI_SIZE 0 | Some h \<Rightarrow> h)\<rparr>)))))))))))))))"

definition create_exported_dpe_cert ::
  "'c cert_gen \<Rightarrow> ('c, 'p) deps \<Rightarrow> DpeProfile \<Rightarrow> CreateDpeCertArgs \<Rightarrow> nat \<Rightarrow>
     CreateDpeCertResult \<Rightarrow> ('c, 'p, CreateDpeCertResult) dpe" where
  "create_exported_dpe_cert gen d p args =
     create_dpe_cert_or_csr gen d p args FormatX509 Exported"

definition create_dpe_cert ::
  "'c cert_gen \<Rightarrow> ('c, 'p) deps \<Rightarrow> DpeProfile \<Rightarrow> CreateDpeCertArgs \<Rightarrow> nat \<Rightarrow>
     CreateDpeCertResult \<Rightarrow> ('c, 'p, CreateDpeCertResult) dpe" where
  "create_dpe_cert gen d p args = create_dpe_cert_or_csr gen d p args FormatX509 Leaf"

definition create_dpe_csr ::
  "'c cert_gen \<Rightarrow> ('c, 'p) deps \<Rightarrow> DpeProfile \<Rightarrow> CreateDpeCertArgs \<Rightarrow> nat \<Rightarrow>
     CreateDpeCertResult \<Rightarrow> ('c, 'p, CreateDpeCertResult) dpe" where
  "create_dpe_csr gen d p args = create_dpe_cert_or_csr gen d p args FormatCsr Leaf"

lemma keeps_on_encoder [keeps_intros]: "keeps dstate (on_encoder m)"
  by (auto simp: keeps_def on_encoder_def split: prod.splits)

lemma keeps_subject_alt_name [keeps_intros]: "view P \<Longrightarrow> keeps P (get_subject_alt_name d)"
  by (auto simp: keeps_def view_def get_subject_alt_name_def
      split: prod.splits outcome.splits PlatformError.splits)

lemma keeps_derive_cert_key [keeps_intros]: "view P \<Longrightarrow> keeps P (derive_cert_key d args digest t out)"
  by (cases t) (simp_all only: derive_cert_key_def CertificateType.case, (intro keeps_intros; assumption)+)

lemma keeps_format_args [keeps_intros]: "view P \<Longrightarrow> keeps P (format_args d fmt v sid)"
  by (cases fmt) (simp_all only: format_args_def CertificateFormat.case, (intro keeps_intros; assumption?)+)

lemma keeps_names [keeps_intros]:
  "view P \<Longrightarrow> keeps P (get_dpe_measurement_digest d p h loc)"
  "view P \<Longrightarrow> keeps P (get_subject_name d t pk serial)"
  unfolding get_dpe_measurement_digest_def get_subject_name_def by (intro keeps_intros; assumption)+

lemma keeps_subject_key_identifier [keeps_intros]: "view P \<Longrightarrow> keeps P (get_subject_key_identifier d pk)"
  by (cases pk)
    (simp_all only: get_subject_key_identifier_def PubKey.case Let_def split_beta, (intro keeps_intros; assumption)+)

lemma keeps_create_dpe_cert_or_csr [keeps_intros]:
  "keeps dstate (create_dpe_cert_or_csr gen d p args fmt t base out)"
  unfolding create_dpe_cert_or_csr_def Let_def
  by (intro keeps_intros)

text \<open>Whatever happens while a certificate is made, the DPE state stays as it was.\<close>

lemma create_cert_keeps [keeps_intros]:
  "keeps dstate (create_exported_dpe_cert gen d p args base out)"
  "keeps dstate (create_dpe_cert gen d p args base out)"
  "keeps dstate (create_dpe_csr gen d p args base out)"
  unfolding create_exported_dpe_cert_def create_dpe_cert_def create_dpe_csr_def
  by (intro keeps_intros)+

end
