(* ===== verification/Cmd_Derive.thy ===== *)
theory Cmd_Derive
  imports Cmd_Simple CertCreate
begin

text \<open>
  DeriveContext (commands/derive_context.rs): a child context is derived from its parent, a
  context's own measurement is extended in place (the recursive form), or a CDI is exported with its
  certificate. Each of the three ends in its own definition; \<open>derive_context\<close> is \<open>execute_serialized\<close>.
  \<open>gen\<close> is the certificate encoder.
\<close>

section \<open>Admission of a child\<close>

definition safe_to_make_default :: "DeriveContextFlags \<Rightarrow> nat \<Rightarrow> nat option \<Rightarrow> nat \<Rightarrow> bool" where
  "safe_to_make_default flags pidx default_context_idx num_contexts_in_locality =
     (case default_context_idx of
        None \<Rightarrow> num_contexts_in_locality = 0
      | Some default_idx \<Rightarrow>
          num_contexts_in_locality = 1 \<and> default_idx = pidx \<and> \<not> retains_parent flags)"

definition safe_to_make_non_default :: "DeriveContextFlags \<Rightarrow> nat \<Rightarrow> nat option \<Rightarrow> bool" where
  "safe_to_make_non_default flags pidx default_context_idx =
     (case default_context_idx of
        None \<Rightarrow> True
      | Some default_idx \<Rightarrow> default_idx = pidx \<and> \<not> retains_parent flags)"

fun tci_type_unique_loop :: "Context list \<Rightarrow> nat list \<Rightarrow> u32 \<Rightarrow> (DpeErrorCode, bool) outcome" where
  "tci_type_unique_loop ctxs [] ty = Ok True"
| "tci_type_unique_loop ctxs (idx # is) ty =
     bindO (ok_or (get_at ctxs idx) (InternalError ChildIndexOob)) (\<lambda>child.
       if tci_type (tci child) = ty then Ok False else tci_type_unique_loop ctxs is ty)"

definition tci_type_is_unique_among_children ::
  "State \<Rightarrow> Context \<Rightarrow> u32 \<Rightarrow> (DpeErrorCode, bool) outcome" where
  "tci_type_is_unique_among_children st parent_ctx ty =
     tci_type_unique_loop (contexts st) (children_iter (children parent_ctx)) ty"

fun to_option :: "('e, 'a) outcome \<Rightarrow> 'a option" where
  "to_option (Ok x) = Some x"
| "to_option _ = None"

definition safe_to_make_child ::
  "DeriveContextFlags \<Rightarrow> State \<Rightarrow> nat \<Rightarrow> u32 \<Rightarrow> (DpeErrorCode, bool) outcome" where
  "safe_to_make_child flags st pidx target_locality =
     (let default_context_idx = to_option (get_active_context_pos st handle_default target_locality)
      in bindO (count_contexts st (\<lambda>c. state c = Active \<and> locality c = target_locality))
        (\<lambda>num_contexts_in_locality.
          Ok (if makes_default flags
              then safe_to_make_default flags pidx default_context_idx num_contexts_in_locality
              else safe_to_make_non_default flags pidx default_context_idx)))"

section \<open>Checks of the arguments\<close>

definition derive_not_supported :: "Support \<Rightarrow> DeriveContextFlags \<Rightarrow> bool" where
  "derive_not_supported supp flags \<longleftrightarrow>
     (\<not> sup_internal_info supp \<and> uses_internal_info_input flags) \<or>
     (\<not> sup_internal_dice supp \<and> uses_internal_dice_input flags) \<or>
     (\<not> sup_retain_parent_context supp \<and> retains_parent flags) \<or>
     (\<not> sup_x509 supp \<and> allows_x509 flags) \<or>
     (\<not> sup_cdi_export supp \<and> (creates_certificate flags \<or> exports_cdi flags)) \<or>
     (\<not> sup_recursive supp \<and> is_recursive flags)"

definition derive_invalid :: "Context \<Rightarrow> DeriveContextFlags \<Rightarrow> bool" where
  "derive_invalid parent_ctx flags \<longleftrightarrow>
     (\<not> allow_x509 parent_ctx \<and> allows_x509 flags) \<or>
     (exports_cdi flags \<and> \<not> creates_certificate flags) \<or>
     (exports_cdi flags \<and> is_recursive flags) \<or>
     (exports_cdi flags \<and> changes_locality flags) \<or>
     (exports_cdi flags \<and> context_type parent_ctx = Simulation) \<or>
     (exports_cdi flags \<and> \<not> allow_export_cdi parent_ctx) \<or>
     (is_recursive flags \<and> retains_parent flags) \<or>
     (allows_recursive flags \<and> is_recursive flags) \<or>
     (\<not> allow_recursive parent_ctx \<and> is_recursive flags)"

section \<open>The three forms\<close>

definition derive_resp :: "DpeProfile \<Rightarrow> ContextHandle \<Rightarrow> ContextHandle \<Rightarrow> bytes" where
  "derive_resp p h parent_h = derive_context_resp_bytes
     \<lparr>dc_hdr = response_hdr p NoError, dc_handle = h, dc_parent_handle = parent_h\<rparr>"

text \<open>The scratch structure of the response, which \<open>mutresp\<close> lays over a zeroed buffer.\<close>

definition scratch_response :: "DpeProfile \<Rightarrow> ('c, 'p, DeriveContextResp \<times> bytes) dpe" where
  "scratch_response p = lift (mutresp 44 p read_derive_context_resp (replicate 44 0))"

definition derive_recursive ::
  "('c, 'p) deps \<Rightarrow> DpeProfile \<Rightarrow> DeriveContextCmd \<Rightarrow> nat \<Rightarrow> u32 \<Rightarrow> ('c, 'p, nat) dpe" where
  "derive_recursive d p cmd pidx target_locality =
     bind (scratch_response p) (\<lambda>_.
     bind (ctx_at pidx (InternalError ContextIndexOob)) (\<lambda>tmp_context.
     bind (guard_err (tci_type (tci tmp_context) \<noteq> d_tci_type cmd) InvalidArgument) (\<lambda>_.
     bind (add_tci_measurement d tmp_context (d_data cmd) target_locality) (\<lambda>tmp_context.
     bind (roll_onetime_use_handle d tmp_context) (\<lambda>tmp_context.
     bind (set_ctx pidx tmp_context) (\<lambda>_.
     write_response (derive_resp p (handle tmp_context) handle_default)))))))"

text \<open>The parent as it will be stored: its new handle when it is retained, retired otherwise.\<close>

definition derive_parent :: "('c, 'p) deps \<Rightarrow> DeriveContextFlags \<Rightarrow> Context \<Rightarrow> ('c, 'p, Context) dpe" where
  "derive_parent d flags c =
     (if retains_parent flags
      then (if \<not> is_default (handle c)
            then bind (generate_new_handle d) (\<lambda>h. ret (c\<lparr>handle := h\<rparr>))
            else ret c)
      else ret (c\<lparr>state := Retired, handle := handle_invalid\<rparr>))"

primrec exported_descriptor :: "DpeProfile \<Rightarrow> bytes" where
  "exported_descriptor P256Sha256 = ascii ''Exported ECC''"
| "exported_descriptor P384Sha384 = ascii ''Exported ECC''"
| "exported_descriptor Mldsa87 = ascii ''Exported ML-DSA''"

definition exported_cert_args :: "DpeProfile \<Rightarrow> DeriveContextCmd \<Rightarrow> u32 \<Rightarrow> bytes \<Rightarrow> State \<Rightarrow> CreateDpeCertArgs" where
  "exported_cert_args p cmd loc ueid st = \<lparr>ca_handle = d_handle cmd, ca_locality = loc,
     ca_cdi_label = ascii ''Exported CDI'', ca_key_label = exported_descriptor p,
     ca_context = exported_descriptor p, ca_ueid = ueid,
     ca_dice_extensions_are_critical = flags_contains (dpe_flags st) MARK_DICE_EXTENSIONS_CRITICAL\<rparr>"

definition derive_export ::
  "'c cert_gen \<Rightarrow> ('c, 'p) deps \<Rightarrow> DpeProfile \<Rightarrow> DeriveContextCmd \<Rightarrow> nat \<Rightarrow> Context \<Rightarrow> u32 \<Rightarrow>
     ('c, 'p, nat) dpe" where
  "derive_export gen d p cmd pidx tmp_parent loc =
     bind (on_platform (op_get_ueid (pops d))) (\<lambda>u.
     bind (lift (map_err Platform (ueid_get u))) (\<lambda>ueid.
     bind (gets dstate) (\<lambda>st.
     bind (create_exported_dpe_cert gen d p (exported_cert_args p cmd loc ueid st) 80
             (cert_result_zeroed p)) (\<lambda>result.
     bind (ctx_at pidx (InternalError ContextIndexOob)) (\<lambda>parent.
     bind (if \<not> retains_parent (d_flags cmd) \<and> \<not> has_children parent
           then try_state (\<lambda>st. destroy_context (d_handle cmd) st loc)
           else set_ctx_or pidx tmp_parent (InternalError ContextIndexOob)) (\<lambda>_.
     bind (index_ctx pidx) (\<lambda>stored.
     bind (write_out 0 (exported_hdr_bytes
       \<lparr>ex_hdr = response_hdr p NoError, ex_handle = handle_invalid,
        ex_parent_handle = handle stored, ex_exported_cdi = cr_exported_cdi_handle result,
        ex_certificate_size = cr_cert_size result\<rparr>)) (\<lambda>_.
     ret (80 + unat (cr_cert_size result))))))))))"

definition child_args :: "DeriveContextCmd \<Rightarrow> nat \<Rightarrow> Context \<Rightarrow> ContextType \<Rightarrow> ContextHandle \<Rightarrow> u32 \<Rightarrow>
    ActiveContextArgs" where
  "child_args cmd pidx tmp_parent ty child_handle target_locality =
     (let flags = d_flags cmd in \<lparr>a_context_type = ty, a_locality = target_locality,
        a_handle = child_handle, a_tci_type = d_tci_type cmd, a_parent_idx = of_nat pidx,
        a_allow_x509 = allows_x509 flags,
        a_uses_internal_input_info = uses_internal_info_input flags,
        a_uses_internal_input_dice = uses_internal_dice_input flags,
        a_allow_export_cdi = (allows_new_context_to_export flags \<and> allow_export_cdi tmp_parent),
        a_svn = d_svn cmd,
        a_allow_recursive = (allows_recursive flags \<and> allow_recursive tmp_parent)\<rparr>)"

definition derive_child ::
  "('c, 'p) deps \<Rightarrow> DpeProfile \<Rightarrow> DeriveContextCmd \<Rightarrow> nat \<Rightarrow> Context \<Rightarrow> u32 \<Rightarrow> ('c, 'p, nat) dpe" where
  "derive_child d p cmd pidx tmp_parent target_locality =
     bind (scratch_response p) (\<lambda>_.
     bind (ask (\<lambda>st. ok_or (get_next_inactive_context_pos st) MaxTcis)) (\<lambda>child_idx.
     bind (ask (\<lambda>st. safe_to_make_child (d_flags cmd) st pidx target_locality)) (\<lambda>safe.
     bind (guard_err (\<not> safe) InvalidArgument) (\<lambda>_.
     bind (if makes_default (d_flags cmd) then ret handle_default else generate_new_handle d) (\<lambda>child_handle.
     bind (ctx_at pidx (InternalError ContextIndexOob)) (\<lambda>parent.
     let child = activate (child_args cmd pidx tmp_parent (context_type parent) child_handle
                   target_locality) Context_new in
     bind (add_tci_measurement d child (d_data cmd) target_locality) (\<lambda>child.
     bind (lift (add_child tmp_parent child_idx)) (\<lambda>cs.
     bind (set_ctx child_idx child) (\<lambda>_.
     bind (set_ctx pidx (tmp_parent\<lparr>children := cs\<rparr>)) (\<lambda>_.
     bind (index_ctx pidx) (\<lambda>stored.
     write_response (derive_resp p child_handle (handle stored)))))))))))))"

section \<open>The command\<close>

definition derive_context ::
  "'c cert_gen \<Rightarrow> ('c, 'p) deps \<Rightarrow> DpeProfile \<Rightarrow> DeriveContextCmd \<Rightarrow> u32 \<Rightarrow> ('c, 'p, nat) dpe" where
  "derive_context gen d p cmd loc =
     (let flags = d_flags cmd in
     bind (ask (\<lambda>st. if derive_not_supported (support st) flags then Err ArgumentNotSupported
                     else Ok ())) (\<lambda>_.
     bind (ask (\<lambda>st. get_active_context_and_idx st (d_handle cmd) loc)) (\<lambda>(parent_ctx, pidx).
     bind (guard_err (derive_invalid parent_ctx flags) InvalidArgument) (\<lambda>_.
     let target_locality = (if \<not> changes_locality flags then loc else d_target_locality cmd) in
     if is_recursive flags then derive_recursive d p cmd pidx target_locality
     else
       bind (ask (\<lambda>st. tci_type_is_unique_among_children st parent_ctx (d_tci_type cmd))) (\<lambda>unique.
       bind (guard_err (\<not> unique) InvalidArgument) (\<lambda>_.
       bind (ctx_at pidx (InternalError ContextIndexOob)) (\<lambda>parent.
       bind (derive_parent d flags parent) (\<lambda>tmp_parent.
       if creates_certificate flags \<and> exports_cdi flags
       then derive_export gen d p cmd pidx tmp_parent loc
       else derive_child d p cmd pidx tmp_parent target_locality))))))))"

end
