(* ===== verification/Cmd_Keys.thy ===== *)
theory Cmd_Keys
  imports Cmd_Simple CertCreate
begin

text \<open>
  The commands that use a context's key: Sign (commands/sign.rs) and CertifyKey
  (commands/certify_key.rs). \<open>gen\<close> is the certificate encoder.
\<close>

section \<open>Sign\<close>

definition dpe_sign ::
  "('c, 'p) deps \<Rightarrow> DpeProfile \<Rightarrow> nat \<Rightarrow> bytes \<Rightarrow> SignData \<Rightarrow> ('c, 'p, Signature) dpe" where
  "dpe_sign d p idx label data =
     bind (gets (\<lambda>w. signature_zeroed (op_signature_algorithm (cops d) (crypto w)))) (\<lambda>sig.
     bind (compute_measurement_hash d p idx) (\<lambda>cdi_digest.
     bind (on_crypto (op_derive_cdi (cops d) cdi_digest (ascii ''DPE''))) (\<lambda>_.
     bind (on_crypto (op_derive_key_pair (cops d) label (key_context p))) (\<lambda>_.
     on_crypto (op_sign (cops d) data sig)))))"

fun sign_parts :: "SignCommand \<Rightarrow> (DpeErrorCode, ContextHandle \<times> bytes \<times> SignData) outcome" where
  "sign_parts (SgP256 c) = Ok (sg_handle c, sg_label c, SignDigest (Sha256 (sg_digest c)))"
| "sign_parts (SgP384 c) = Ok (sg_handle c, sg_label c, SignDigest (Sha384 (sg_digest c)))"
| "sign_parts (SgMldsa87 c) = Ok (sg_handle c, sg_label c, SignDataMu (sg_digest c))"
| "sign_parts (SgMldsa87Raw c) =
     bindO (ok_or (get_range (sr_raw_data c) 0 (unat (sr_size c))) InvalidArgument) (\<lambda>raw.
       Ok (sr_handle c, sr_label c, SignRaw raw))"

fun sign_response :: "DpeProfile \<Rightarrow> ContextHandle \<Rightarrow> Signature \<Rightarrow> bytes" where
  "sign_response p h (SigEcdsa (EcdsaSig256 r s)) = sign_p256_resp_bytes
     \<lparr>s2_hdr = response_hdr p NoError, s2_handle = h, s2_sig_r = r, s2_sig_s = s\<rparr>"
| "sign_response p h (SigEcdsa (EcdsaSig384 r s)) = sign_p384_resp_bytes
     \<lparr>s3_hdr = response_hdr p NoError, s3_handle = h, s3_sig_r = r, s3_sig_s = s\<rparr>"
| "sign_response p h (SigMldsa s) = sign_mldsa_resp_bytes
     \<lparr>sm_hdr = response_hdr p NoError, sm_handle = h, sm_sig = s, sm_padding = [0]\<rparr>"

definition sign_cmd :: "('c, 'p) deps \<Rightarrow> DpeProfile \<Rightarrow> SignCommand \<Rightarrow> u32 \<Rightarrow> ('c, 'p, nat) dpe" where
  "sign_cmd d p cmd loc =
     bind (lift (sign_parts cmd)) (\<lambda>(h, label, data).
     bind (ask (\<lambda>st. get_active_context_pos st h loc)) (\<lambda>idx.
     bind (ctx_at idx (InternalError ContextIndexOob)) (\<lambda>c.
     bind (guard_err (context_type c = Simulation) InvalidArgument) (\<lambda>_.
     bind (dpe_sign d p idx label data) (\<lambda>sig.
     bind (index_ctx idx) (\<lambda>c.
     bind (roll_onetime_use_handle d c) (\<lambda>c.
     bind (write_response (sign_response p (handle c) sig)) (\<lambda>n.
     bind (set_ctx idx c) (\<lambda>_. ret n)))))))))"

section \<open>CertifyKey\<close>

definition FORMAT_X509 :: u32 where "FORMAT_X509 = 0"
definition FORMAT_CSR :: u32 where "FORMAT_CSR = 1"

primrec certify_cmd_of :: "CertifyKeyCommand \<Rightarrow> CertifyKeyCmd" where
  "certify_cmd_of (CkP256 c) = c"
| "certify_cmd_of (CkP384 c) = c"
| "certify_cmd_of (CkMldsa87 c) = c"

definition run_cert_format ::
  "'c cert_gen \<Rightarrow> u32 \<Rightarrow> ('c, 'p) deps \<Rightarrow> DpeProfile \<Rightarrow> CreateDpeCertArgs \<Rightarrow> nat \<Rightarrow>
     CreateDpeCertResult \<Rightarrow> ('c, 'p, CreateDpeCertResult) dpe" where
  "run_cert_format gen fmt d p args base out =
     (if fmt = FORMAT_X509 then create_dpe_cert gen d p args base out
      else if fmt = FORMAT_CSR then create_dpe_csr gen d p args base out
      else throw InvalidArgument)"

primrec certify_hdr_size :: "CertifyKeyCommand \<Rightarrow> nat" where
  "certify_hdr_size (CkP256 c) = 96"
| "certify_hdr_size (CkP384 c) = 128"
| "certify_hdr_size (CkMldsa87 c) = 2624"

text \<open>
  \<open>write_header\<close>: for ML-DSA the header is written field by field at the offsets of the fields.
\<close>

fun write_header ::
  "DpeProfile \<Rightarrow> CertifyKeyCommand \<Rightarrow> CreateDpeCertResult \<Rightarrow> ContextHandle \<Rightarrow> ('c, 'p, unit) dpe" where
  "write_header p (CkP256 _) result new_handle =
     (case cr_pub_key result of
        PubEcdsa (EcdsaPub256 x y) \<Rightarrow> write_out 0 (certify_p256_hdr_bytes
          \<lparr>k2_hdr = response_hdr p NoError, k2_handle = new_handle, k2_pubkey_x = x, k2_pubkey_y = y,
           k2_cert_size = cr_cert_size result\<rparr>)
      | _ \<Rightarrow> throw InvalidArgument)"
| "write_header p (CkP384 _) result new_handle =
     (case cr_pub_key result of
        PubEcdsa (EcdsaPub384 x y) \<Rightarrow> write_out 0 (certify_p384_hdr_bytes
          \<lparr>k3_hdr = response_hdr p NoError, k3_handle = new_handle, k3_pubkey_x = x, k3_pubkey_y = y,
           k3_cert_size = cr_cert_size result\<rparr>)
      | _ \<Rightarrow> throw InvalidArgument)"
| "write_header p (CkMldsa87 _) result new_handle =
     (case cr_pub_key result of
        PubMldsa pubkey \<Rightarrow>
          bind (write_out 0 (hdr_bytes (response_hdr p NoError))) (\<lambda>_.
          bind (write_out 12 new_handle) (\<lambda>_.
          bind (write_out 28 pubkey) (\<lambda>_.
          write_out 2620 (u32_to_le_bytes (cr_cert_size result)))))
      | _ \<Rightarrow> throw InvalidArgument)"

definition certify_args :: "DpeProfile \<Rightarrow> CertifyKeyCmd \<Rightarrow> u32 \<Rightarrow> State \<Rightarrow> CreateDpeCertArgs" where
  "certify_args p cmd loc st = \<lparr>ca_handle = ck_handle cmd, ca_locality = loc,
     ca_cdi_label = ascii ''DPE'', ca_key_label = ck_label cmd, ca_context = key_context p,
     ca_ueid = ck_label cmd,
     ca_dice_extensions_are_critical = flags_contains (dpe_flags st) MARK_DICE_EXTENSIONS_CRITICAL\<rparr>"

definition certify_key ::
  "'c cert_gen \<Rightarrow> ('c, 'p) deps \<Rightarrow> DpeProfile \<Rightarrow> CertifyKeyCommand \<Rightarrow> u32 \<Rightarrow> ('c, 'p, nat) dpe" where
  "certify_key gen d p command loc =
     (let cmd = certify_cmd_of command; fmt = ck_format cmd in
     bind (ask (\<lambda>st. get_active_context_pos st (ck_handle cmd) loc)) (\<lambda>idx.
     bind (ctx_at idx (InternalError ContextIndexOob)) (\<lambda>c.
     bind (ask (\<lambda>st.
       if fmt = FORMAT_X509
       then (if \<not> sup_x509 (support st) then Err ArgumentNotSupported
             else if \<not> allow_x509 c then Err InvalidArgument else Ok ())
       else if fmt = FORMAT_CSR \<and> \<not> sup_csr (support st) then Err ArgumentNotSupported
       else Ok ())) (\<lambda>_.
     bind (guard_err (locality c \<noteq> loc) InvalidLocality) (\<lambda>_.
     bind (gets dstate) (\<lambda>st.
     bind (run_cert_format gen fmt d p (certify_args p cmd loc st) (certify_hdr_size command)
             (cert_result_zeroed p)) (\<lambda>result.
     bind (index_ctx idx) (\<lambda>c.
     bind (roll_onetime_use_handle d c) (\<lambda>c.
     bind (set_ctx idx c) (\<lambda>_.
     bind (write_header p command result (handle c)) (\<lambda>_.
     ret (certify_hdr_size command + unat (cr_cert_size result)))))))))))))"

end
