(* ===== verification/Dispatch.thy ===== *)
theory Dispatch
  imports Cmd_Derive Cmd_Keys
begin

text \<open>
  The entry points of an instance: dispatch of a command to its handler and the typed response of
  \<open>execute\<close> (dpe/src/commands/mod.rs), \<open>execute_serialized_command\<close>, \<open>new\<close> and \<open>new_auto_init\<close>
  (dpe/src/dpe_instance.rs), and \<open>Response::try_read_from_bytes\<close> (dpe/src/response.rs).
\<close>

primrec execute_serialized ::
  "'c cert_gen \<Rightarrow> ('c, 'p) deps \<Rightarrow> DpeProfile \<Rightarrow> Command \<Rightarrow> u32 \<Rightarrow> ('c, 'p, nat) dpe" where
  "execute_serialized gen d p GetProfile loc = get_profile_cmd d p loc"
| "execute_serialized gen d p (InitCtx c) loc = init_ctx d p c loc"
| "execute_serialized gen d p (DeriveContext c) loc = derive_context gen d p c loc"
| "execute_serialized gen d p (CertifyKey c) loc = certify_key gen d p c loc"
| "execute_serialized gen d p (Sign c) loc = sign_cmd d p c loc"
| "execute_serialized gen d p (RotateCtx c) loc = rotate_ctx d p c loc"
| "execute_serialized gen d p (DestroyCtx c) loc = destroy_ctx d p c loc"
| "execute_serialized gen d p (GetCertificateChain c) loc = get_certificate_chain_cmd d p c loc"
| "execute_serialized gen d p (UpdateContextMeasurement c) loc = update_context_measurement d p c loc"

text \<open>
  The response structure of a command: its size, and the reader that gives the response. The buffer
  of \<open>execute\<close> has exactly that size.
\<close>

definition reading :: "'a reader \<Rightarrow> ('a \<Rightarrow> Response) \<Rightarrow> Response reader" where
  "reading rd f = then_read rd (\<lambda>x. read_done (f x))"

fun response_layout :: "Command \<Rightarrow> nat \<times> Response reader" where
  "response_layout GetProfile = (32, reading read_get_profile_resp RespGetProfile)"
| "response_layout (InitCtx _) = (28, reading read_new_handle_resp RespInitCtx)"
| "response_layout (DeriveContext c) =
     (if exports_cdi (d_flags c)
      then (80 + MAX_CERT_SIZE, reading (read_with_cert read_exported_hdr) RespDeriveContextExportedCdi)
      else (44, reading read_derive_context_resp RespDeriveContext))"
| "response_layout (CertifyKey (CkP384 _)) = (128 + MAX_CERT_SIZE,
     reading (read_with_cert read_certify_p384_hdr) (\<lambda>r. RespCertifyKey (CkRespP384 r)))"
| "response_layout (CertifyKey (CkP256 _)) = (96 + MAX_CERT_SIZE,
     reading (read_with_cert read_certify_p256_hdr) (\<lambda>r. RespCertifyKey (CkRespP256 r)))"
| "response_layout (CertifyKey (CkMldsa87 _)) = (2624 + MAX_CERT_SIZE,
     reading (read_with_cert read_certify_mldsa_hdr) (\<lambda>r. RespCertifyKey (CkRespMldsa87 r)))"
| "response_layout (Sign (SgP384 _)) =
     (124, reading read_sign_p384_resp (\<lambda>r. RespSign (SgRespP384 r)))"
| "response_layout (Sign (SgP256 _)) =
     (92, reading read_sign_p256_resp (\<lambda>r. RespSign (SgRespP256 r)))"
| "response_layout (Sign (SgMldsa87 _)) =
     (4656, reading read_sign_mldsa_resp (\<lambda>r. RespSign (SgRespMldsa87 r)))"
| "response_layout (Sign (SgMldsa87Raw _)) =
     (4656, reading read_sign_mldsa_resp (\<lambda>r. RespSign (SgRespMldsa87 r)))"
| "response_layout (DestroyCtx _) = (12, reading read_hdr RespDestroyCtx)"
| "response_layout (GetCertificateChain _) =
     (2064, reading read_cert_chain_resp RespGetCertificateChain)"
| "response_layout (RotateCtx _) = (28, reading read_new_handle_resp RespRotateCtx)"
| "response_layout (UpdateContextMeasurement _) =
     (44, reading read_update_resp RespUpdateContextMeasurement)"

text \<open>Running a handler on a zeroed buffer of its own.\<close>

definition with_buffer :: "nat \<Rightarrow> ('c, 'p, 'a) dpe \<Rightarrow> ('c, 'p, bytes) dpe" where
  "with_buffer n m w =
     (case m (w\<lparr>outbuf := replicate n 0\<rparr>) of
        (Ok _, w') \<Rightarrow> (Ok (outbuf w'), w'\<lparr>outbuf := outbuf w\<rparr>)
      | (Err e, w') \<Rightarrow> (Err e, w'\<lparr>outbuf := outbuf w\<rparr>)
      | (Panic, w') \<Rightarrow> (Panic, w'\<lparr>outbuf := outbuf w\<rparr>)
      | (Diverge, w') \<Rightarrow> (Diverge, w'\<lparr>outbuf := outbuf w\<rparr>))"

definition execute ::
  "'c cert_gen \<Rightarrow> ('c, 'p) deps \<Rightarrow> DpeProfile \<Rightarrow> Command \<Rightarrow> u32 \<Rightarrow> ('c, 'p, Response) dpe" where
  "execute gen d p cmd loc =
     (let (n, rd) = response_layout cmd in
      bind (with_buffer n (execute_serialized gen d p cmd loc)) (\<lambda>buf.
      lift (ok_or (read_exact rd buf) (InternalError ResponseDeserializationFailed))))"

definition execute_serialized_command ::
  "'c cert_gen \<Rightarrow> ('c, 'p) deps \<Rightarrow> DpeProfile \<Rightarrow> bool \<Rightarrow> u32 \<Rightarrow> bytes \<Rightarrow> ('c, 'p, Response) dpe" where
  "execute_serialized_command gen d p al loc cmd =
     bind (lift (deserialize al p cmd)) (\<lambda>command w.
       case execute gen d p command loc w of
         (Err err_code, w') \<Rightarrow> (Ok (RespError (response_hdr p err_code)), w')
       | r \<Rightarrow> r)"

section \<open>Creating an instance\<close>

definition DpeInstance_new :: "('c, 'p) deps \<Rightarrow> DpeProfile \<Rightarrow> ('c, 'p, unit) dpe" where
  "DpeInstance_new d p =
     bind (gets (\<lambda>w. sup_auto_init (support (dstate w)))) (\<lambda>auto_init.
       if auto_init
       then bind (on_platform (op_get_auto_init_locality (pops d))) (\<lambda>loc.
            bind (with_buffer 28 (init_ctx d p init_new_use_default loc)) (\<lambda>_. ret ()))
       else ret ())"

definition DpeInstance_new_auto_init ::
  "('c, 'p) deps \<Rightarrow> DpeProfile \<Rightarrow> u32 \<Rightarrow> TciMeasurement \<Rightarrow> ('c, 'p, unit) dpe" where
  "DpeInstance_new_auto_init d p ty measurement =
     bind (ask (\<lambda>st. if \<not> sup_auto_init (support st) then Err ArgumentNotSupported else Ok ())) (\<lambda>_.
     bind (DpeInstance_new d p) (\<lambda>_.
     bind (on_platform (op_get_auto_init_locality (pops d))) (\<lambda>loc.
     bind (ask (\<lambda>st. get_active_context_pos st handle_default loc)) (\<lambda>idx.
     bind (ctx_at idx (InternalError InitContextIndexOob)) (\<lambda>c.
     bind (add_tci_measurement d c measurement loc) (\<lambda>c.
     on_state (put_context idx (c\<lparr>tci := (tci c)\<lparr>tci_type := ty\<rparr>\<rparr>))))))))"

section \<open>Reading a response off the wire\<close>

text \<open>
  The bytes are copied into a zeroed buffer as large as the \<open>Response\<close> type, whose size \<open>n\<close> the
  compiler chooses, and read as the response of the command.
\<close>

definition response_try_read_from_bytes :: "nat \<Rightarrow> Command \<Rightarrow> bytes \<Rightarrow> (DpeErrorCode, Response) outcome" where
  "response_try_read_from_bytes n cmd bs =
     (let copy_len = min (length bs) n;
          buf = splice (replicate n 0) 0 (take copy_len bs)
      in ok_or (read_prefix (snd (response_layout cmd)) buf) InvalidArgument)"

end
