(* ===== verification/State_Logic.thy ===== *)
theory State_Logic
  imports Dispatch
begin

text \<open>
  A program logic for the effects of the handlers on the DPE state: \<open>sp\<close> and its rules, one per
  operation from which the handlers are built. The rules follow the structure of a handler, so that
  a statement about a handler is reduced to the facts its own checks establish.
\<close>

section \<open>Reasoning about the DPE state\<close>

text \<open>
  \<open>sp m Q E st\<close>: run in any environment whose DPE state is \<open>st\<close>, \<open>m\<close> either yields a value and a state
  related by \<open>Q\<close>, or ends in another way (an error, a panic) and a state related by \<open>E\<close>.
\<close>

fun ending :: "('e, 'a) outcome \<Rightarrow> ('e, unit) outcome" where
  "ending (Ok x) = Ok ()"
| "ending (Err e) = Err e"
| "ending Panic = Panic"
| "ending Diverge = Diverge"

type_synonym stop = "(DpeErrorCode, unit) outcome"

definition sp :: "('c, 'p, 'a) dpe \<Rightarrow> ('a \<Rightarrow> State \<Rightarrow> bool) \<Rightarrow> (stop \<Rightarrow> State \<Rightarrow> bool) \<Rightarrow>
    State \<Rightarrow> bool" where
  "sp m Q E st \<longleftrightarrow> (\<forall>w. dstate w = st \<longrightarrow>
     (case m w of (Ok x, w') \<Rightarrow> Q x (dstate w') | (r, w') \<Rightarrow> E (ending r) (dstate w')))"

lemma spI:
  fixes m :: "('c, 'p, 'a) dpe"
  assumes "\<And>w x w'. dstate w = st \<Longrightarrow> m w = (Ok x, w') \<Longrightarrow> Q x (dstate w')"
    and "\<And>w r w'. dstate w = st \<Longrightarrow> m w = (r, w') \<Longrightarrow> (\<And>x. r \<noteq> Ok x) \<Longrightarrow> E (ending r) (dstate w')"
  shows "sp m Q E st"
  unfolding sp_def
proof (intro allI impI)
  fix w :: "('c, 'p) world" assume w: "dstate w = st"
  obtain r w' where m: "m w = (r, w')" by fastforce
  show "case m w of (Ok x, w') \<Rightarrow> Q x (dstate w') | (r, w') \<Rightarrow> E (ending r) (dstate w')"
    using assms(1) [OF w] assms(2) [OF w m] m by (cases r) simp_all
qed

lemma spD: "sp m Q E st \<Longrightarrow> dstate w = st \<Longrightarrow> m w = (Ok x, w') \<Longrightarrow> Q x (dstate w')"
  unfolding sp_def by fastforce

lemma spD_abort:
  "sp m Q E st \<Longrightarrow> dstate w = st \<Longrightarrow> m w = (r, w') \<Longrightarrow> (\<And>x. r \<noteq> Ok x) \<Longrightarrow> E (ending r) (dstate w')"
  unfolding sp_def by (cases r) fastforce+

lemma sp_mono:
  assumes "sp m Q E st" "\<And>x s. Q x s \<Longrightarrow> Q' x s" "\<And>r s. E r s \<Longrightarrow> E' r s"
  shows "sp m Q' E' st"
proof (rule spI)
  fix w x w' assume "dstate w = st" "m w = (Ok x, w')"
  then show "Q' x (dstate w')" by (intro assms(2) spD [OF assms(1)])
next
  fix w r w' assume "dstate w = st" "m w = (r, w')" "\<And>x. r \<noteq> Ok x"
  then show "E' (ending r) (dstate w')" by (intro assms(3) spD_abort [OF assms(1)])
qed

text \<open>When the value does not matter, every end of the run satisfies the predicate.\<close>

lemma sp_any: "sp m (\<lambda>_. P) (\<lambda>_. P) (dstate w) \<Longrightarrow> m w = (r, w') \<Longrightarrow> P (dstate w')"
  unfolding sp_def by (cases r) fastforce+

named_theorems sp_intros \<open>rules of sp\<close>

lemma sp_ret [sp_intros]: "Q x st \<Longrightarrow> sp (ret x) Q E st"
  by (simp add: sp_def)

lemma sp_throw [sp_intros]: "E (Err e) st \<Longrightarrow> sp (throw e) Q E st"
  by (simp add: sp_def)

lemma sp_lift [sp_intros]: "(\<And>x. r = Ok x \<Longrightarrow> Q x st) \<Longrightarrow> (\<And>r. E r st) \<Longrightarrow> sp (lift r) Q E st"
  by (cases r) (simp_all add: sp_def)

lemma sp_gets [sp_intros]: "(\<And>x. Q x st) \<Longrightarrow> sp (gets f) Q E st"
  by (simp add: sp_def)

lemma sp_guard [sp_intros]: "(\<not> c \<Longrightarrow> Q () st) \<Longrightarrow> (c \<Longrightarrow> E (Err e) st) \<Longrightarrow> sp (guard_err c e) Q E st"
  by (simp add: sp_def)

lemma sp_ask [sp_intros]: "(\<And>x. f st = Ok x \<Longrightarrow> Q x st) \<Longrightarrow> (\<And>r. E r st) \<Longrightarrow> sp (ask f) Q E st"
  by (cases "f st") (simp_all add: sp_def)

lemma sp_on_state [sp_intros]: "Q () (f st) \<Longrightarrow> sp (on_state f) Q E st"
  by (simp add: sp_def)

lemma sp_keeps: "keeps dstate m \<Longrightarrow> (\<And>x. Q x st) \<Longrightarrow> (\<And>r. E r st) \<Longrightarrow> sp m Q E st"
  by (rule spI) (auto dest: keepsD)

lemma sp_keeps_value:
  assumes "keeps dstate m" "\<And>r. E r st"
    and "\<And>w x w'. dstate w = st \<Longrightarrow> m w = (Ok x, w') \<Longrightarrow> Q x st"
  shows "sp m Q E st"
proof (rule spI)
  fix w x w' assume "dstate w = st" "m w = (Ok x, w')"
  with assms(3) keepsD [OF assms(1) this(2)] show "Q x (dstate w')" by simp
next
  fix w r w' assume "dstate w = st" "m w = (r, w')"
  with assms(2) keepsD [OF assms(1) this(2)] show "E (ending r) (dstate w')" by simp
qed

lemma sp_bind [sp_intros]:
  assumes "sp m (\<lambda>x. sp (f x) Q E) E st"
  shows "sp (bind m f) Q E st"
proof (rule spI)
  fix w x w'
  assume "dstate w = st" "bind m f w = (Ok x, w')"
  then obtain y s where y: "m w = (Ok y, s)" "f y s = (Ok x, w')" by (auto simp: bind_Ok_iff)
  from spD [OF assms \<open>dstate w = st\<close> y(1)] have "sp (f y) Q E (dstate s)" .
  from spD [OF this refl y(2)] show "Q x (dstate w')" .
next
  fix w r w'
  assume w: "dstate w = st" and b: "bind m f w = (r, w')" and r: "\<And>x. r \<noteq> Ok x"
  from b show "E (ending r) (dstate w')"
  proof (cases rule: bind_cases)
    case (ok x s')
    have "sp (f x) Q E (dstate s')" using spD [OF assms w ok(1)] .
    with ok r show ?thesis by (auto dest: spD_abort)
  qed (use spD_abort [OF assms w] r in auto)
qed

lemma sp_if [sp_intros]:
  "(c \<Longrightarrow> sp m Q E st) \<Longrightarrow> (\<not> c \<Longrightarrow> sp n Q E st) \<Longrightarrow> sp (if c then m else n) Q E st"
  by simp

lemma sp_case_prod [sp_intros]:
  "(\<And>a b. x = (a, b) \<Longrightarrow> sp (f a b) Q E st) \<Longrightarrow> sp (case x of (a, b) \<Rightarrow> f a b) Q E st"
  by (cases x) auto

lemma sp_on_crypto [sp_intros]: "(\<And>x. Q x st) \<Longrightarrow> (\<And>r. E r st) \<Longrightarrow> sp (on_crypto m) Q E st"
  by (rule sp_keeps [OF keeps_on_crypto [OF view_parts(1)]])

lemma sp_on_platform [sp_intros]: "(\<And>x. Q x st) \<Longrightarrow> (\<And>r. E r st) \<Longrightarrow> sp (on_platform m) Q E st"
  by (rule sp_keeps [OF keeps_on_platform [OF view_parts(1)]])

lemma sp_write_out [sp_intros]: "Q () st \<Longrightarrow> E (Err InvalidResponseBuf) st \<Longrightarrow> sp (write_out off bs) Q E st"
  by (rule spI) (auto dest!: write_out_result)

lemma sp_write_response [sp_intros]:
  "(\<And>n. Q n st) \<Longrightarrow> E (Err InvalidResponseBuf) st \<Longrightarrow> sp (write_response bs) Q E st"
  by (rule spI) (auto dest!: write_response_result)

lemma sp_ctx_at [sp_intros]:
  "(i < length (contexts st) \<Longrightarrow> Q (contexts st ! i) st) \<Longrightarrow> (length (contexts st) \<le> i \<Longrightarrow> E (Err e) st) \<Longrightarrow>
     sp (ctx_at i e) Q E st"
  by (cases "i < length (contexts st)") (auto simp: ctx_at_def sp_def get_at_def)

lemma sp_index_ctx [sp_intros]:
  "(i < length (contexts st) \<Longrightarrow> Q (contexts st ! i) st) \<Longrightarrow> (length (contexts st) \<le> i \<Longrightarrow> E (Panic) st) \<Longrightarrow>
     sp (index_ctx i) Q E st"
  by (cases "i < length (contexts st)") (auto simp: index_ctx_def sp_def)

lemma sp_set_ctx [sp_intros]:
  "(i < length (contexts st) \<Longrightarrow> Q () (put_context i c st)) \<Longrightarrow> (length (contexts st) \<le> i \<Longrightarrow> E (Panic) st) \<Longrightarrow>
     sp (set_ctx i c) Q E st"
  by (cases "i < length (contexts st)") (auto simp: set_ctx_def sp_def bind_def)

lemma sp_set_ctx_or [sp_intros]:
  "(i < length (contexts st) \<Longrightarrow> Q () (put_context i c st)) \<Longrightarrow> (length (contexts st) \<le> i \<Longrightarrow> E (Err e) st) \<Longrightarrow>
     sp (set_ctx_or i c e) Q E st"
  unfolding set_ctx_or_def by (intro sp_bind sp_ctx_at sp_on_state)

lemma sp_generate [sp_intros]:
  "(\<And>h. fresh_handle st h \<Longrightarrow> Q h st) \<Longrightarrow> (\<And>r. E r st) \<Longrightarrow> sp (generate_new_handle d) Q E st"
  by (rule sp_keeps_value [OF keeps_generate_new_handle [OF view_parts(1)]]) (auto dest: generate_new_handle_fresh)

text \<open>A context whose one-time handle has been replaced; the default handle stays.\<close>

definition rolled :: "State \<Rightarrow> Context \<Rightarrow> Context \<Rightarrow> bool" where
  "rolled st c c' \<longleftrightarrow> (if handle c = handle_default then c' = c
     else \<exists>h. fresh_handle st h \<and> c' = c\<lparr>handle := h\<rparr>)"

lemma sp_roll [sp_intros]:
  "(\<And>c'. rolled st c c' \<Longrightarrow> Q c' st) \<Longrightarrow> (\<And>r. E r st) \<Longrightarrow> sp (roll_onetime_use_handle d c) Q E st"
proof (rule sp_keeps_value [OF keeps_roll [OF view_parts(1)]])
  fix w c' w'
  assume q: "\<And>c'. rolled st c c' \<Longrightarrow> Q c' st" and "dstate w = st"
    and "roll_onetime_use_handle d c w = (Ok c', w')"
  from this(2,3) have "rolled st c c'" by (auto simp: rolled_def dest!: roll_result)
  then show "Q c' st" by (rule q)
qed

text \<open>The effect of a measurement on the TCI of a context.\<close>

definition extended :: "TciMeasurement \<Rightarrow> TciNodeData \<Rightarrow> TciNodeData \<Rightarrow> bool" where
  "extended m t t' \<longleftrightarrow> (\<exists>x. length x = length (tci_cumulative t) \<and>
     t' = t\<lparr>tci_cumulative := x, tci_current := m\<rparr>)"

lemma sp_add_tci [sp_intros]:
  "(\<And>t'. state c = Active \<Longrightarrow> locality c = loc \<Longrightarrow> extended m (tci c) t' \<Longrightarrow> Q (c\<lparr>tci := t'\<rparr>) st) \<Longrightarrow>
   (\<And>r. E r st) \<Longrightarrow> sp (add_tci_measurement d c m loc) Q E st"
  by (rule sp_keeps_value [OF keeps_add_tci [OF view_parts(1)]]) (auto simp: extended_def elim!: add_tci_result)

lemma sp_try_state [sp_intros]:
  "(\<And>st'. f st = Ok st' \<Longrightarrow> Q () st') \<Longrightarrow> (\<And>r. E r st) \<Longrightarrow> sp (try_state f) Q E st"
  unfolding try_state_def by (intro sp_intros)

end
