(* ===== verification/Forest.thy ===== *)
theory Forest
  imports DpeState
begin

text \<open>
  The updates of the context array that keep it a forest: a change that leaves the links alone, a
  new root or child in an unused slot, and the removal of a set of nodes that is closed under
  children.
\<close>

section \<open>Paths depend on the links alone\<close>

lemma up_path_cong:
  assumes "up_path ctxs is"
    and "\<And>k. k \<in> set is \<Longrightarrow> live_node ctxs' k \<and> parent_idx (ctxs' ! k) = parent_idx (ctxs ! k)"
  shows "up_path ctxs' is"
  using assms by (induction "is") (auto split: if_splits)

lemma forest_live_node:
  "forest ctxs \<Longrightarrow> live_node ctxs i \<longleftrightarrow> i < 64 \<and> state (ctxs ! i) \<noteq> Inactive"
  by (metis forest_def forest_length forest_up_path live_node_def list.set_intros(1) up_path_live)

lemma forest_linked:
  "forest ctxs \<Longrightarrow> i < 64 \<Longrightarrow> state (ctxs ! i) \<noteq> Inactive \<Longrightarrow> linked ctxs i"
  unfolding forest_def by blast

lemma forest_blank:
  "forest ctxs \<Longrightarrow> i < 64 \<Longrightarrow> state (ctxs ! i) = Inactive \<Longrightarrow> blank_links (ctxs ! i)"
  unfolding forest_def by blast

lemma forestI:
  assumes "length ctxs = 64"
    and "\<And>i. i < 64 \<Longrightarrow> state (ctxs ! i) = Inactive \<Longrightarrow> blank_links (ctxs ! i)"
    and "\<And>i. i < 64 \<Longrightarrow> state (ctxs ! i) \<noteq> Inactive \<Longrightarrow> linked ctxs i"
    and "\<And>i j. i < 64 \<Longrightarrow> j \<in> kids (children (ctxs ! i)) \<Longrightarrow>
           state (ctxs ! j) \<noteq> Inactive \<and> parent_idx (ctxs ! j) = of_nat i"
    and "\<And>i. i < 64 \<Longrightarrow> state (ctxs ! i) \<noteq> Inactive \<Longrightarrow> \<exists>is. up_path ctxs is \<and> hd is = i"
  shows "forest ctxs"
  using assms unfolding forest_def by blast

section \<open>Changing a context but not its links\<close>

definition same_links :: "Context \<Rightarrow> Context \<Rightarrow> bool" where
  "same_links c c' \<longleftrightarrow> parent_idx c' = parent_idx c \<and> children c' = children c \<and>
     (state c' = Inactive) = (state c = Inactive)"

lemma forest_relabel:
  assumes f: "forest ctxs" and len: "length ctxs' = 64"
    and same: "\<And>i. i < 64 \<Longrightarrow> same_links (ctxs ! i) (ctxs' ! i)"
  shows "forest ctxs'"
proof (rule forestI)
  note s = same [unfolded same_links_def]
  show "length ctxs' = 64" by (rule len)
  fix i :: nat
  assume i: "i < 64"
  show "blank_links (ctxs' ! i)" if "state (ctxs' ! i) = Inactive"
    using that s [OF i] forest_blank [OF f i] by (simp add: blank_links_def)
  show "linked ctxs' i" if "state (ctxs' ! i) \<noteq> Inactive"
  proof -
    have "linked ctxs i" using that s [OF i] forest_linked [OF f i] by simp
    then show ?thesis
      using s [OF i] s [of "unat (parent_idx (ctxs ! i))"] by (auto simp: linked_def)
  qed
  show "state (ctxs' ! j) \<noteq> Inactive \<and> parent_idx (ctxs' ! j) = of_nat i"
    if "j \<in> kids (children (ctxs' ! i))" for j
    using that s [OF i] forest_child [OF f i, of j] s [of j] by auto
  show "\<exists>is. up_path ctxs' is \<and> hd is = i" if "state (ctxs' ! i) \<noteq> Inactive"
  proof -
    from that s [OF i] obtain "is" where p: "up_path ctxs (i # is)"
      using forest_up_path [OF f i] by auto
    have "up_path ctxs' (i # is)"
    proof (rule up_path_cong [OF p])
      fix k assume "k \<in> set (i # is)"
      then have "live_node ctxs k" using up_path_live [OF p] by blast
      then show "live_node ctxs' k \<and> parent_idx (ctxs' ! k) = parent_idx (ctxs ! k)"
        using s [of k] len f by (auto simp: live_node_def)
    qed
    then show ?thesis by (intro exI [of _ "i # is"]) simp
  qed
qed

lemma forest_update:
  assumes "forest ctxs" "i < 64" "same_links (ctxs ! i) c"
  shows "forest (ctxs[i := c])"
proof (rule forest_relabel [OF assms(1)])
  show "length (ctxs[i := c]) = 64" using assms(1) by simp
  show "same_links (ctxs ! j) (ctxs[i := c] ! j)" if "j < 64" for j
    using that assms by (cases "j = i") (auto simp: same_links_def)
qed

section \<open>A new root\<close>

lemma forest_new_root:
  assumes f: "forest ctxs" and i: "i < 64" "state (ctxs ! i) = Inactive"
    and c: "state c \<noteq> Inactive" "parent_idx c = ROOT_INDEX" "children c = children_empty"
  shows "forest (ctxs[i := c])"
proof (rule forestI)
  let ?n = "ctxs[i := c]"
  have len: "length ctxs = 64" using f by simp
  then show "length ?n = 64" by simp
  have old: "?n ! k = ctxs ! k" if "k \<noteq> i" for k using that by simp
  have new: "?n ! i = c" using i len by simp
  fix k :: nat
  assume k: "k < 64"
  show "blank_links (?n ! k)" if "state (?n ! k) = Inactive"
    using that forest_blank [OF f k] old new c by (cases "k = i") auto
  show "linked ?n k" if "state (?n ! k) \<noteq> Inactive"
  proof (cases "k = i")
    case True
    with new c show ?thesis by (simp add: linked_def)
  next
    case False
    with that old have l: "linked ctxs k" using forest_linked [OF f k] by simp
    then have "parent_idx (ctxs ! k) = ROOT_INDEX \<or> unat (parent_idx (ctxs ! k)) \<noteq> i"
      using i(2) by (auto simp: linked_def)
    with l old [OF False] old [of "unat (parent_idx (ctxs ! k))"] show ?thesis
      by (auto simp: linked_def)
  qed
  show "state (?n ! j) \<noteq> Inactive \<and> parent_idx (?n ! j) = of_nat k"
    if "j \<in> kids (children (?n ! k))" for j
  proof (cases "k = i")
    case True
    with that new c show ?thesis by simp
  next
    case False
    with that old forest_child [OF f k, of j] i(2) show ?thesis by (cases "j = i") auto
  qed
  show "\<exists>is. up_path ?n is \<and> hd is = k" if "state (?n ! k) \<noteq> Inactive"
  proof (cases "k = i")
    case True
    have "up_path ?n [i]" using i len new c by (simp add: live_node_def valid_parent_idx_def)
    with True show ?thesis by (intro exI [of _ "[i]"]) simp
  next
    case False
    with that old obtain "is" where p: "up_path ctxs (k # is)"
      using forest_up_path [OF f k] by auto
    have "up_path ?n (k # is)"
    proof (rule up_path_cong [OF p])
      fix m assume "m \<in> set (k # is)"
      then have m: "live_node ctxs m" using up_path_live [OF p] by blast
      then have "m \<noteq> i" using i(2) by (auto simp: live_node_def)
      with m show "live_node ?n m \<and> parent_idx (?n ! m) = parent_idx (ctxs ! m)"
        by (simp add: live_node_def)
    qed
    then show ?thesis by (intro exI [of _ "k # is"]) simp
  qed
qed

section \<open>A new child\<close>

lemma forest_new_child:
  assumes f: "forest ctxs"
    and i: "i < 64" "state (ctxs ! i) \<noteq> Inactive"
    and j: "j < 64" "state (ctxs ! j) = Inactive"
    and p: "state p \<noteq> Inactive" "parent_idx p = parent_idx (ctxs ! i)"
      "kids (children p) = insert j (kids (children (ctxs ! i)))"
    and c: "state c \<noteq> Inactive" "parent_idx c = of_nat i" "children c = children_empty"
  shows "forest (ctxs[j := c, i := p])"
proof (rule forestI)
  let ?n = "ctxs[j := c, i := p]"
  have len: "length ctxs = 64" using f by simp
  then show "length ?n = 64" by simp
  have ij: "i \<noteq> j" using i j by auto
  have old: "?n ! k = ctxs ! k" if "k \<noteq> i" "k \<noteq> j" for k using that by simp
  have ni: "?n ! i = p" and nj: "?n ! j = c" using i j ij len by simp_all
  have par: "parent_idx (?n ! k) = parent_idx (ctxs ! k)" if "k \<noteq> j" for k
    using that old ni p by (cases "k = i") auto
  have keep: "live_node ?n m \<and> parent_idx (?n ! m) = parent_idx (ctxs ! m)"
    if m: "live_node ctxs m" for m
  proof -
    have "m \<noteq> j" using m j(2) by (auto simp: live_node_def)
    with m par old ni p len i(1) show ?thesis by (cases "m = i") (auto simp: live_node_def)
  qed
  fix k :: nat
  assume k: "k < 64"
  show "blank_links (?n ! k)" if "state (?n ! k) = Inactive"
    using that forest_blank [OF f k] old ni nj p c by (cases "k = i"; cases "k = j") auto
  show "linked ?n k" if "state (?n ! k) \<noteq> Inactive"
  proof (cases "k = j")
    case True
    with nj ni c p i show ?thesis by (simp add: linked_def)
  next
    case False
    with that old i have "state (ctxs ! k) \<noteq> Inactive" by (cases "k = i") auto
    then have l: "linked ctxs k" using forest_linked [OF f k] by simp
    have up: "kids (children (ctxs ! m)) \<subseteq> kids (children (?n ! m)) \<and> state (?n ! m) \<noteq> Inactive"
      if "state (ctxs ! m) \<noteq> Inactive" for m
    proof -
      have "m \<noteq> j" using that j(2) by auto
      then show ?thesis using that old [of m] ni p by (cases "m = i") (simp_all add: subset_insertI)
    qed
    show ?thesis
    proof (cases "parent_idx (ctxs ! k) = ROOT_INDEX")
      case True
      then show ?thesis using par [OF False] by (simp add: linked_def)
    next
      case notroot: False
      let ?m = "unat (parent_idx (ctxs ! k))"
      have "?m < 64" "state (ctxs ! ?m) \<noteq> Inactive" "k \<in> kids (children (ctxs ! ?m))"
        using l notroot by (simp_all add: linked_def)
      with up [of ?m] have "state (?n ! ?m) \<noteq> Inactive" "k \<in> kids (children (?n ! ?m))" by blast+
      with \<open>?m < 64\<close> show ?thesis unfolding linked_def par [OF False] by simp
    qed
  qed
  show "state (?n ! m) \<noteq> Inactive \<and> parent_idx (?n ! m) = of_nat k"
    if m: "m \<in> kids (children (?n ! k))" for m
  proof -
    have "m = j \<and> k = i \<or> m \<in> kids (children (ctxs ! k))"
    proof -
      consider "k = i" | "k = j" | "k \<noteq> i" "k \<noteq> j" by blast
      then show ?thesis
      proof cases
        case 1
        then show ?thesis using m p(3) by (simp add: ni)
      next
        case 2
        then show ?thesis using m c(3) by (simp add: nj)
      next
        case 3
        then show ?thesis using m by simp
      qed
    qed
    then show ?thesis
    proof
      assume "m = j \<and> k = i"
      with nj c show ?thesis by simp
    next
      assume "m \<in> kids (children (ctxs ! k))"
      with forest_child [OF f k] have "state (ctxs ! m) \<noteq> Inactive" "parent_idx (ctxs ! m) = of_nat k"
        by auto
      with par j(2) old ni p show ?thesis by (cases "m = i"; cases "m = j") auto
    qed
  qed
  from forest_up_path [OF f i] obtain "is" where pi: "up_path ctxs (i # is)" .
  have pin: "up_path ?n (i # is)"
    using up_path_cong [OF pi] keep up_path_live [OF pi] by blast
  show "\<exists>is. up_path ?n is \<and> hd is = k" if "state (?n ! k) \<noteq> Inactive"
  proof (cases "k = j")
    case True
    have "live_node ?n j"
      using nj c j i len by (simp add: live_node_def valid_parent_idx_def word_le_nat_alt)
    then have "up_path ?n (j # i # is)"
      using pin nj c(2) i(1) by (simp only: up_path.simps(2) [of _ j]) simp
    with True show ?thesis by (intro exI [of _ "j # i # is"]) simp
  next
    case False
    with that old i have "state (ctxs ! k) \<noteq> Inactive" by (cases "k = i") auto
    from forest_up_path [OF f k this] obtain ks where pk: "up_path ctxs (k # ks)" .
    have "up_path ?n (k # ks)"
      using up_path_cong [OF pk] keep up_path_live [OF pk] by blast
    then show ?thesis by (intro exI [of _ "k # ks"]) simp
  qed
qed

section \<open>Removing nodes\<close>

definition removed :: "nat set \<Rightarrow> Context list \<Rightarrow> Context list \<Rightarrow> bool" where
  "removed D ctxs ctxs' \<longleftrightarrow> length ctxs' = length ctxs \<and>
     (\<forall>k < length ctxs. if k \<in> D then state (ctxs' ! k) = Inactive \<and> blank_links (ctxs' ! k)
        else parent_idx (ctxs' ! k) = parent_idx (ctxs ! k) \<and> state (ctxs' ! k) = state (ctxs ! k) \<and>
          kids (children (ctxs' ! k)) = kids (children (ctxs ! k)) - D)"

lemma forest_remove:
  assumes f: "forest ctxs" and r: "removed D ctxs ctxs'"
    and closed: "\<And>i j. i \<in> D \<Longrightarrow> i < 64 \<Longrightarrow> j \<in> kids (children (ctxs ! i)) \<Longrightarrow> j \<in> D"
  shows "forest ctxs'"
proof (rule forestI)
  have len: "length ctxs = 64" using f by simp
  with r show "length ctxs' = 64" by (simp add: removed_def)
  have gone: "state (ctxs' ! k) = Inactive \<and> blank_links (ctxs' ! k)" if "k < 64" "k \<in> D" for k
    using r that len by (auto simp: removed_def)
  have kept: "parent_idx (ctxs' ! k) = parent_idx (ctxs ! k) \<and> state (ctxs' ! k) = state (ctxs ! k) \<and>
      kids (children (ctxs' ! k)) = kids (children (ctxs ! k)) - D" if "k < 64" "k \<notin> D" for k
    using r that len by (auto simp: removed_def)
  have up: "unat (parent_idx (ctxs ! k)) \<notin> D"
    if "k < 64" "k \<notin> D" "linked ctxs k" "parent_idx (ctxs ! k) \<noteq> ROOT_INDEX" for k
    using that closed [of "unat (parent_idx (ctxs ! k))" k] by (auto simp: linked_def)
  have pth: "up_path ctxs (k # ks) \<Longrightarrow> k \<notin> D \<Longrightarrow> \<forall>m \<in> set (k # ks). m \<notin> D" for k ks
  proof (induction ks arbitrary: k)
    case (Cons m ms)
    have k: "live_node ctxs k" using Cons.prems(1) by (simp split: if_splits)
    then have lk: "linked ctxs k" using forest_live_node [OF f] forest_linked [OF f] by blast
    have "k < 64" using k forest_live_node [OF f] by blast
    with Cons.prems lk have "m \<notin> D" using up [of k] by simp
    moreover have "up_path ctxs ([k] @ m # ms)"
      using Cons.prems(1) by (simp only: append_Cons append_Nil)
    then have "up_path ctxs (m # ms)" by (rule up_path_suffix) simp
    ultimately have "\<forall>x \<in> set (m # ms). x \<notin> D" by (intro Cons.IH)
    with Cons.prems(2) show ?case by simp
  qed simp
  fix k :: nat
  assume k: "k < 64"
  show "blank_links (ctxs' ! k)" if "state (ctxs' ! k) = Inactive"
  proof (cases "k \<in> D")
    case False
    with kept [OF k] that forest_blank [OF f k] show ?thesis
      by (auto simp: blank_links_def simp flip: kids_eq_iff)
  qed (use gone k in blast)
  show "linked ctxs' k" if "state (ctxs' ! k) \<noteq> Inactive"
  proof -
    have kd: "k \<notin> D" using gone [OF k] that by blast
    have l: "linked ctxs k" using kept [OF k kd] that forest_linked [OF f k] by simp
    show ?thesis
    proof (cases "parent_idx (ctxs ! k) = ROOT_INDEX")
      case False
      let ?p = "unat (parent_idx (ctxs ! k))"
      have "?p \<notin> D" using up [OF k kd l False] .
      moreover have "?p < 64" using l False by (simp add: linked_def)
      ultimately show ?thesis
        using l False kept [of ?p] kept [OF k kd] kd by (simp add: linked_def)
    qed (use kept [OF k kd] in \<open>simp add: linked_def\<close>)
  qed
  show "state (ctxs' ! j) \<noteq> Inactive \<and> parent_idx (ctxs' ! j) = of_nat k"
    if j: "j \<in> kids (children (ctxs' ! k))" for j
  proof (cases "k \<in> D")
    case True
    with gone [OF k] j show ?thesis by (simp add: blank_links_def)
  next
    case False
    with kept [OF k] j have "j \<in> kids (children (ctxs ! k))" "j \<notin> D" by auto
    with forest_child [OF f k, of j] kept [of j] show ?thesis by auto
  qed
  show "\<exists>is. up_path ctxs' is \<and> hd is = k" if "state (ctxs' ! k) \<noteq> Inactive"
  proof -
    have kd: "k \<notin> D" using gone [OF k] that by blast
    then have "state (ctxs ! k) \<noteq> Inactive" using kept [OF k kd] that by simp
    from forest_up_path [OF f k this] obtain ks where p: "up_path ctxs (k # ks)" .
    have "up_path ctxs' (k # ks)"
    proof (rule up_path_cong [OF p])
      fix m assume m: "m \<in> set (k # ks)"
      then have "m \<notin> D" using pth [OF p kd] by blast
      moreover have "live_node ctxs m" using up_path_live [OF p m] .
      ultimately show "live_node ctxs' m \<and> parent_idx (ctxs' ! m) = parent_idx (ctxs ! m)"
        using kept [of m] r len by (auto simp: live_node_def removed_def)
    qed
    then show ?thesis by (intro exI [of _ "k # ks"]) simp
  qed
qed

end
