(* ===== verification/Transitions.thy ===== *)
theory Transitions
  imports State_Logic Forest
begin

text \<open>
  What the commands can do to the DPE state: the transition relation \<open>transition\<close>, one rule for each
  way in which a handler changes the context array, and the proof that every command, whatever its
  arguments and outcome, moves the state along a finite number of transitions.
\<close>

section \<open>Transitions\<close>

text \<open>
  A parent after a derivation: retained, with its default handle or a fresh one, or retired.
\<close>

definition parent_after :: "State \<Rightarrow> DeriveContextFlags \<Rightarrow> Context \<Rightarrow> Context \<Rightarrow> bool" where
  "parent_after st flags c c' \<longleftrightarrow>
     (if retains_parent flags then rolled st c c'
      else c' = c\<lparr>state := Retired, handle := handle_invalid\<rparr>)"

definition is_active :: "State \<Rightarrow> nat \<Rightarrow> bool" where
  "is_active st i \<longleftrightarrow> i < length (contexts st) \<and> state (contexts st ! i) = Active"

inductive transition :: "State \<Rightarrow> State \<Rightarrow> bool" where
  init_default: "\<lbrakk>\<not> has_initialized st; get_next_inactive_context_pos st = Some i;
      flag_is_default cmd\<rbrakk> \<Longrightarrow>
    transition st (put_context i (activate (init_args cmd Normal handle_default loc) (contexts st ! i))
      (st\<lparr>f_has_initialized := U8Bool_new True\<rparr>))"
| init_simulation: "\<lbrakk>sup_simulation (support st); get_next_inactive_context_pos st = Some i;
      fresh_handle st h; \<not> flag_is_default cmd\<rbrakk> \<Longrightarrow>
    transition st (put_context i (activate (init_args cmd Simulation h loc) (contexts st ! i)) st)"
| new_handle: "\<lbrakk>is_active st i; fresh_handle st h\<rbrakk> \<Longrightarrow>
    transition st (put_context i ((contexts st ! i)\<lparr>handle := h\<rparr>) st)"
| to_default: "\<lbrakk>is_active st i;
      \<And>j. is_active st j \<Longrightarrow> locality (contexts st ! j) = locality (contexts st ! i) \<Longrightarrow> j = i\<rbrakk> \<Longrightarrow>
    transition st (put_context i ((contexts st ! i)\<lparr>handle := handle_default\<rparr>) st)"
| extend: "\<lbrakk>is_active st i; extended m (tci (contexts st ! i)) t; length m = TCI_SIZE\<rbrakk> \<Longrightarrow>
    transition st (put_context i ((contexts st ! i)\<lparr>tci := t\<rparr>) st)"
| retire: "\<lbrakk>is_active st i; has_children (contexts st ! i)\<rbrakk> \<Longrightarrow>
    transition st (put_context i ((contexts st ! i)\<lparr>state := Retired, handle := handle_invalid\<rparr>) st)"
| destroyed: "destroy_context h st loc = Ok st' \<Longrightarrow> transition st st'"
| derived: "\<lbrakk>is_active st i; get_next_inactive_context_pos st = Some j;
      \<not> derive_not_supported (support st) (d_flags cmd);
      \<not> derive_invalid (contexts st ! i) (d_flags cmd);
      tci_type_is_unique_among_children st (contexts st ! i) (d_tci_type cmd) = Ok True;
      safe_to_make_child (d_flags cmd) st i loc = Ok True;
      parent_after st (d_flags cmd) (contexts st ! i) p;
      if makes_default (d_flags cmd) then h = handle_default else fresh_handle st h;
      c = activate (child_args cmd i p (context_type (contexts st ! i)) h loc) Context_new;
      extended (d_data cmd) (tci c) t; length (d_data cmd) = TCI_SIZE\<rbrakk> \<Longrightarrow>
    transition st (put_context i (p\<lparr>children := children p OR push_bit j 1\<rparr>)
      (put_context j (c\<lparr>tci := t\<rparr>) st))"

inductive_cases transitionE: "transition st st'"

abbreviation transitions :: "State \<Rightarrow> State \<Rightarrow> bool" where
  "transitions \<equiv> transition\<^sup>*\<^sup>*"

section \<open>Every command is a sequence of transitions\<close>

lemma put_context_twice [simp]: "put_context i c (put_context i b st) = put_context i c st"
  by (simp add: put_context_def)

lemma put_context_same [simp]: "put_context i (contexts st ! i) st = st"
  by (simp add: put_context_def)

lemma active_at_is_active: "active_at st h loc i \<Longrightarrow> is_active st i"
  by (simp add: active_at_def is_active_def)

lemma ok_or_Ok_iff [simp]: "ok_or x e = Ok a \<longleftrightarrow> x = Some a"
  by (cases x) simp_all

lemma guard_Ok_iff [simp]: "(if c then Err e else Ok ()) = Ok x \<longleftrightarrow> \<not> c"
  by simp

lemmas one_step = r_into_rtranclp [of transition, OF transition.init_default]
  r_into_rtranclp [of transition, OF transition.init_simulation]
  r_into_rtranclp [of transition, OF transition.new_handle]
  r_into_rtranclp [of transition, OF transition.to_default]
  r_into_rtranclp [of transition, OF transition.extend]
  r_into_rtranclp [of transition, OF transition.retire]
  r_into_rtranclp [of transition, OF transition.derived]

lemma init_ctx_transitions:
  "sp (init_ctx d p cmd loc) (\<lambda>_. transitions st) (\<lambda>_. transitions st) st"
  unfolding init_ctx_def
  by (intro sp_intros rtranclp.rtrancl_refl) (auto simp: get_next_inactive_Some intro!: one_step)

text \<open>No handle in the locality but the one to rotate: it may become the default handle.\<close>

lemma alone_in_locality:
  assumes "\<not> is_ok (get_active_context_pos st handle_default loc)"
    and "\<not> non_default_valid_handles_exist st loc i"
    and "is_active st j" "locality (contexts st ! j) = loc"
  shows "j = i"
proof (rule ccontr)
  assume "j \<noteq> i"
  show False
  proof (cases "handle (contexts st ! j) = handle_default")
    case True
    with assms(3,4) have "active_at st handle_default loc j"
      by (simp add: active_at_def is_active_def)
    with assms(1) show False using get_active_context_pos_ex by fastforce
  next
    case False
    have "(j, contexts st ! j) \<in> set (List.enumerate 0 (contexts st))"
      using assms(3) by (auto simp: in_set_enumerate_eq is_active_def)
    with False \<open>j \<noteq> i\<close> assms show False
      by (auto simp: non_default_valid_handles_exist_def list_ex_iff is_active_def)
  qed
qed

lemma rotate_ctx_transitions:
  "sp (rotate_ctx d p cmd loc) (\<lambda>_. transitions st) (\<lambda>_. transitions st) st"
proof -
  have to_default: "transitions st (put_context i ((contexts st ! i)\<lparr>handle := handle_default\<rparr>) st)"
    if "get_active_context_pos st h loc = Ok i"
      "\<not> is_ok (get_active_context_pos st handle_default loc)"
      "\<not> non_default_valid_handles_exist st loc i" for i h
    using that alone_in_locality [OF that(2,3)] get_active_context_pos_Ok [OF that(1)]
    by (intro one_step) (auto simp: active_at_def is_active_def)
  have fresh: "transitions st (put_context i ((contexts st ! i)\<lparr>handle := h'\<rparr>) st)"
    if "get_active_context_pos st h loc = Ok i" "fresh_handle st h'" for i h h'
    using that by (intro one_step) (auto dest: get_active_context_pos_Ok active_at_is_active)
  show ?thesis
    unfolding rotate_ctx_def
    by (intro sp_intros rtranclp.rtrancl_refl) (auto simp: to_default fresh)
qed

lemma destroy_ctx_transitions:
  "sp (destroy_ctx d p cmd loc) (\<lambda>_. transitions st) (\<lambda>_. transitions st) st"
  unfolding destroy_ctx_def
  by (intro sp_intros rtranclp.rtrancl_refl) (auto intro!: r_into_rtranclp transition.destroyed)

lemma map_err_Ok_iff [simp]: "map_err f r = Ok x \<longleftrightarrow> r = Ok x"
  by (cases r) simp_all

lemma is_active_lt: "is_active st i \<Longrightarrow> i < length (contexts st)"
  by (simp add: is_active_def)

lemma rolled_transitions:
  assumes "is_active st i" "rolled st (contexts st ! i) c"
  shows "transitions st (put_context i c st)"
  using assms by (auto simp: rolled_def intro: one_step split: if_splits)

lemma fresh_handle_put:
  "fresh_handle st h \<Longrightarrow> i < length (contexts st) \<Longrightarrow> handle c = handle (contexts st ! i) \<Longrightarrow>
     fresh_handle (put_context i c st) h"
  by (auto simp: fresh_handle_def dest!: set_update_subset_insert [THEN subsetD])

lemma rolled_put:
  "rolled st c c' \<Longrightarrow> i < length (contexts st) \<Longrightarrow> handle b = handle (contexts st ! i) \<Longrightarrow>
     rolled (put_context i b st) c c'"
  by (auto simp: rolled_def intro: fresh_handle_put split: if_splits)

text \<open>A measurement and then a roll of the handle.\<close>

lemma extend_and_roll:
  assumes "is_active st i" "extended m (tci (contexts st ! i)) t" "length m = TCI_SIZE"
    and "rolled st ((contexts st ! i)\<lparr>tci := t\<rparr>) c"
  shows "transitions st (put_context i c st)"
proof -
  let ?c = "(contexts st ! i)\<lparr>tci := t\<rparr>"
  have i: "i < length (contexts st)" using assms(1) by (rule is_active_lt)
  have a: "transitions st (put_context i ?c st)" using assms(1-3) by (intro one_step)
  have act: "is_active (put_context i ?c st) i" using assms(1) by (simp add: is_active_def)
  have e: "contexts (put_context i ?c st) ! i = ?c" using i by simp
  have "rolled (put_context i ?c st) ?c c" using rolled_put [OF assms(4) i, of ?c] by simp
  then have "transitions (put_context i ?c st) (put_context i c (put_context i ?c st))"
    by (rule rolled_transitions [OF act, unfolded e])
  with a show ?thesis by simp
qed

lemma find_child_Some:
  "find_child st cs ty = Some i \<Longrightarrow> i \<in> kids cs \<and> is_active st i \<and> tci_type (tci (contexts st ! i)) = ty"
  unfolding find_child_def
  by (drule find_Some_nth)
    (auto simp: get_at_eq_Some_iff is_active_def split: option.splits dest: nth_mem)

lemma handle_same: "handle c = h \<Longrightarrow> c\<lparr>tci := t, handle := h\<rparr> = c\<lparr>tci := t\<rparr>"
  by (cases c) simp

text \<open>The parent takes its new handle before the child is stored, which may be the same context.\<close>

lemma parent_then_child:
  assumes i: "is_active st i" and j: "is_active st j"
    and p: "rolled st (contexts st ! i) p"
    and t: "extended m (tci (contexts st ! j)) t" "length m = TCI_SIZE"
    and c: "rolled (put_context i p st) ((contexts st ! j)\<lparr>tci := t\<rparr>) c"
  shows "transitions st (put_context j c (put_context i p st))"
proof -
  let ?s = "put_context i p st"
  let ?e = "contexts ?s ! j"
  have a: "transitions st ?s" by (rule rolled_transitions [OF i p])
  have act: "is_active ?s j"
    using p i j by (cases "i = j") (auto simp: is_active_def rolled_def split: if_splits)
  have e: "?e = (contexts st ! j)\<lparr>handle := handle ?e\<rparr> \<and>
      (handle ?e = handle_default \<longleftrightarrow> handle (contexts st ! j) = handle_default)"
    using p i by (cases "i = j") (auto simp: is_active_def rolled_def fresh_handle_def split: if_splits)
  have te: "tci ?e = tci (contexts st ! j)" using arg_cong [OF conjunct1 [OF e], of tci] by simp
  have upd: "?e\<lparr>tci := t, handle := h\<rparr> = (contexts st ! j)\<lparr>tci := t, handle := h\<rparr>" for h
    using arg_cong [OF conjunct1 [OF e], of "\<lambda>x. x\<lparr>tci := t, handle := h\<rparr>"] by simp
  have "rolled ?s (?e\<lparr>tci := t\<rparr>) c"
  proof (cases "handle (contexts st ! j) = handle_default")
    case True
    then have h: "handle ?e = handle_default" using e by simp
    have "c = (contexts st ! j)\<lparr>tci := t\<rparr>" using c True by (simp add: rolled_def)
    also have "\<dots> = (contexts st ! j)\<lparr>tci := t, handle := handle_default\<rparr>" using True by simp
    also have "\<dots> = ?e\<lparr>tci := t, handle := handle_default\<rparr>" using upd by simp
    also have "\<dots> = ?e\<lparr>tci := t\<rparr>" using h by (metis handle_same)
    finally show ?thesis using h by (simp add: rolled_def)
  next
    case False
    then obtain h where "fresh_handle ?s h" "c = (contexts st ! j)\<lparr>tci := t, handle := h\<rparr>"
      using c by (auto simp: rolled_def)
    with False e upd [of h] show ?thesis by (auto simp: rolled_def)
  qed
  with extend_and_roll [OF act, of m t c] t te
  have "transitions ?s (put_context j c ?s)" by simp
  with a show ?thesis by simp
qed

lemma update_transitions:
  assumes "length (u_data cmd) = TCI_SIZE"
  shows "sp (update_context_measurement d p cmd loc) (\<lambda>_. transitions st) (\<lambda>_. transitions st) st"
proof -
  have parent: "is_active st i" if "get_active_context_pos st h l = Ok i" for h l i
    using that by (auto dest: get_active_context_pos_Ok active_at_is_active)
  have child: "is_active st j" if "find_child st cs ty = Some j" for cs ty j
    using find_child_Some [OF that] by simp
  show ?thesis
    unfolding update_context_measurement_def
    by (intro sp_intros rtranclp.rtrancl_refl; simp del: put_context_simps)
      (auto intro: rolled_transitions parent_then_child parent child simp: assms)
qed

section \<open>DeriveContext\<close>

lemma sp_scratch [sp_intros]: "(\<And>x. Q x st) \<Longrightarrow> (\<And>r. E r st) \<Longrightarrow> sp (scratch_response p) Q E st"
  unfolding scratch_response_def by (intro sp_intros)

lemma sp_derive_parent [sp_intros]:
  assumes "\<And>c'. parent_after st flags c c' \<Longrightarrow> Q c' st" "\<And>r. E r st"
  shows "sp (derive_parent d flags c) Q E st"
  unfolding derive_parent_def
  by (intro sp_intros assms) (auto simp: parent_after_def rolled_def)

lemma derive_recursive_transitions:
  assumes "is_active st i" "length (d_data cmd) = TCI_SIZE"
  shows "sp (derive_recursive d p cmd i loc) (\<lambda>_. transitions st) (\<lambda>_. transitions st) st"
  unfolding derive_recursive_def
  by (intro sp_intros rtranclp.rtrancl_refl; simp del: put_context_simps)
    (auto intro: extend_and_roll assms)

lemma derive_child_transitions:
  assumes i: "is_active st i" and len: "length (d_data cmd) = TCI_SIZE"
    and ok: "\<not> derive_not_supported (support st) (d_flags cmd)"
      "\<not> derive_invalid (contexts st ! i) (d_flags cmd)"
      "tci_type_is_unique_among_children st (contexts st ! i) (d_tci_type cmd) = Ok True"
    and p: "parent_after st (d_flags cmd) (contexts st ! i) q"
  shows "sp (derive_child d p cmd i q loc) (\<lambda>_. transitions st) (\<lambda>_. transitions st) st"
proof -
  let ?c = "\<lambda>h. activate (child_args cmd i q (context_type (contexts st ! i)) h loc) Context_new"
  have step: "transitions st (put_context i (q\<lparr>children := cs\<rparr>) (put_context j ((?c h)\<lparr>tci := t\<rparr>) st))"
    if "get_next_inactive_context_pos st = Some j"
      "safe_to_make_child (d_flags cmd) st i loc = Ok True"
      "if makes_default (d_flags cmd) then h = handle_default else fresh_handle st h"
      "extended (d_data cmd) (tci (?c h)) t" "add_child q j = Ok cs" for j h t cs
    using that one_step(7) [OF i that(1) ok that(2) p that(3) refl that(4) len]
    by (auto simp: add_child_def children_add_child_def split: if_splits)
  show ?thesis
    unfolding derive_child_def Let_def
    by (intro sp_intros rtranclp.rtrancl_refl; (simp del: put_context_simps)?)
      (auto intro!: step)
qed

lemma derive_export_transitions:
  assumes i: "is_active st i" and q: "parent_after st (d_flags cmd) (contexts st ! i) q"
  shows "sp (derive_export gen d p cmd i q loc) (\<lambda>_. transitions st) (\<lambda>_. transitions st) st"
proof -
  have stored: "transitions st (put_context i q st)"
    if "retains_parent (d_flags cmd) \<or> has_children (contexts st ! i)"
    using q that i by (auto simp: parent_after_def split: if_splits intro: rolled_transitions one_step)
  have destroyed: "transitions st st'" if "destroy_context h st loc = Ok st'" for h st'
    using transition.destroyed [OF that] by (rule r_into_rtranclp)
  have cert: "sp (create_exported_dpe_cert gen d p args base out) Q E st"
    if "\<And>x. Q x st" "\<And>r. E r st" for args base out Q E
    by (rule sp_keeps [OF create_cert_keeps(1)]) (use that in auto)
  show ?thesis
    unfolding derive_export_def
    by (intro sp_intros cert rtranclp.rtrancl_refl; (simp del: put_context_simps)?)
      (auto intro: stored destroyed)
qed

lemma derive_context_transitions:
  assumes "length (d_data cmd) = TCI_SIZE"
  shows "sp (derive_context gen d p cmd loc) (\<lambda>_. transitions st) (\<lambda>_. transitions st) st"
proof -
  have act: "is_active st i" if "get_active_context_pos st h l = Ok i" for h l i
    using that by (auto dest: get_active_context_pos_Ok active_at_is_active)
  show ?thesis
    unfolding derive_context_def Let_def
    by (intro sp_intros rtranclp.rtrancl_refl derive_recursive_transitions derive_export_transitions
        derive_child_transitions assms; (simp del: put_context_simps)?)
      (auto simp: get_active_context_and_idx_Ok intro: act)
qed

section \<open>The other commands\<close>

lemma sp_dpe_sign [sp_intros]: "(\<And>x. Q x st) \<Longrightarrow> (\<And>r. E r st) \<Longrightarrow> sp (dpe_sign d p i l x) Q E st"
proof -
  have "keeps dstate (dpe_sign d p i l x)"
    unfolding dpe_sign_def by (intro keeps_intros)
  then show "(\<And>x. Q x st) \<Longrightarrow> (\<And>r. E r st) \<Longrightarrow> sp (dpe_sign d p i l x) Q E st" by (rule sp_keeps)
qed

lemma sign_transitions: "sp (sign_cmd d p cmd loc) (\<lambda>_. transitions st) (\<lambda>_. transitions st) st"
  unfolding sign_cmd_def
  by (intro sp_intros rtranclp.rtrancl_refl; (simp del: put_context_simps)?)
    (auto intro: rolled_transitions dest: get_active_context_pos_Ok active_at_is_active)

lemma sp_run_cert [sp_intros]:
  "(\<And>x. Q x st) \<Longrightarrow> (\<And>r. E r st) \<Longrightarrow> sp (run_cert_format gen fmt d p args base out) Q E st"
  unfolding run_cert_format_def
  by (intro sp_if sp_throw sp_keeps [OF create_cert_keeps(2)] sp_keeps [OF create_cert_keeps(3)])

lemma keeps_write_header: "keeps dstate (write_header p cmd res h)"
proof -
  consider x y where "cr_pub_key res = PubEcdsa (EcdsaPub256 x y)"
    | x y where "cr_pub_key res = PubEcdsa (EcdsaPub384 x y)" | k where "cr_pub_key res = PubMldsa k"
    by (metis PubKey.exhaust EcdsaPubKey.exhaust)
  then show ?thesis
    by cases (cases cmd; simp; intro keeps_intros)+
qed

lemma certify_transitions: "sp (certify_key gen d p cmd loc) (\<lambda>_. transitions st) (\<lambda>_. transitions st) st"
  unfolding certify_key_def Let_def
  by (intro sp_intros sp_keeps [OF keeps_write_header] rtranclp.rtrancl_refl; (simp del: put_context_simps)?)
    (auto intro: rolled_transitions dest: get_active_context_pos_Ok active_at_is_active)

lemma profile_transitions: "sp (get_profile_cmd d p loc) (\<lambda>_. transitions st) (\<lambda>_. transitions st) st"
  unfolding get_profile_cmd_def
  by (intro sp_intros sp_keeps [OF keeps_get_profile [OF view_parts(1)]] rtranclp.rtrancl_refl)

lemma chain_transitions:
  "sp (get_certificate_chain_cmd d p cmd loc) (\<lambda>_. transitions st) (\<lambda>_. transitions st) st"
  unfolding get_certificate_chain_cmd_def
  by (intro sp_intros rtranclp.rtrancl_refl)

section \<open>Dispatch\<close>

text \<open>The measurements that a command carries are as long as their type says.\<close>

primrec measured :: "Command \<Rightarrow> bool" where
  "measured GetProfile = True"
| "measured (InitCtx c) = True"
| "measured (DeriveContext c) = (length (d_data c) = TCI_SIZE)"
| "measured (CertifyKey c) = True"
| "measured (Sign c) = True"
| "measured (RotateCtx c) = True"
| "measured (DestroyCtx c) = True"
| "measured (GetCertificateChain c) = True"
| "measured (UpdateContextMeasurement c) = (length (u_data c) = TCI_SIZE)"

lemma command_ok_measured: "command_ok p c \<Longrightarrow> measured c"
  by (cases c) auto

lemma execute_serialized_transitions:
  "measured cmd \<Longrightarrow> sp (execute_serialized gen d p cmd loc) (\<lambda>_. transitions st) (\<lambda>_. transitions st) st"
  by (cases cmd) (simp_all add: init_ctx_transitions derive_context_transitions certify_transitions
      sign_transitions rotate_ctx_transitions destroy_ctx_transitions profile_transitions
      chain_transitions update_transitions)

lemma sp_with_buffer:
  assumes "sp m (\<lambda>_. P) (\<lambda>_. P) st"
  shows "sp (with_buffer n m) (\<lambda>_. P) (\<lambda>_. P) st"
proof -
  have "P (dstate w')" if "dstate w = st" "with_buffer n m w = (r, w')" for w w' r
  proof -
    obtain r' v where v: "m (w\<lparr>outbuf := replicate n 0\<rparr>) = (r', v)" by fastforce
    have "sp m (\<lambda>_. P) (\<lambda>_. P) (dstate (w\<lparr>outbuf := replicate n 0\<rparr>))" using assms that(1) by simp
    then have "P (dstate v)" using v by (rule sp_any)
    moreover have "dstate w' = dstate v"
      using that(2) v by (auto simp: with_buffer_def split: outcome.splits)
    ultimately show ?thesis by simp
  qed
  then show ?thesis by (intro spI) auto
qed

lemma execute_transitions:
  "measured cmd \<Longrightarrow> sp (execute gen d p cmd loc) (\<lambda>_. transitions st) (\<lambda>_. transitions st) st"
proof -
  assume m: "measured cmd"
  obtain n rd where l: "response_layout cmd = (n, rd)" by fastforce
  have "sp (with_buffer n (execute_serialized gen d p cmd loc)) (\<lambda>_. transitions st) (\<lambda>_. transitions st) st"
    by (intro sp_with_buffer execute_serialized_transitions m)
  then have "sp (with_buffer n (execute_serialized gen d p cmd loc))
      (\<lambda>buf. sp (lift (f buf)) (\<lambda>_. transitions st) (\<lambda>_. transitions st)) (\<lambda>_. transitions st) st"
    for f :: "bytes \<Rightarrow> (DpeErrorCode, Response) outcome"
    by (rule sp_mono) (auto intro: sp_intros)
  then show ?thesis
    unfolding execute_def l by (simp, intro sp_bind)
qed

lemma read_derive_measured: "read_derive_cmd bs = Some (c, r) \<Longrightarrow> length (d_data c) = TCI_SIZE"
  by (auto simp: read_derive_cmd_def then_read_def read_done_def read_n_def
      split: bind_splits if_splits)

lemma read_update_measured: "read_update_cmd bs = Some (c, r) \<Longrightarrow> length (u_data c) = TCI_SIZE"
  by (auto simp: read_update_cmd_def then_read_def read_done_def read_n_def
      split: bind_splits if_splits)

lemma parse_command_Ok:
  "parse_command al f rd bs = Ok c \<longleftrightarrow> al \<and> (\<exists>x r. rd bs = Some (x, r) \<and> c = f x)"
  by (auto simp: parse_command_def read_prefix_def bindO_Ok_iff)

lemma deserialize_measured: "deserialize al p raw = Ok c \<Longrightarrow> measured c"
  unfolding deserialize_def Let_def
  by (auto simp: bindO_Ok_iff parse_command_Ok read_derive_measured read_update_measured
      split: if_splits)

text \<open>Every command, as its bytes arrive, moves the state along transitions, whatever it returns.\<close>

lemma execute_serialized_command_transitions:
  assumes "execute_serialized_command gen d p al loc bs w = (r, w')"
  shows "transitions (dstate w) (dstate w')"
proof (cases "deserialize al p bs")
  case (Ok c)
  obtain r' v where e: "execute gen d p c loc w = (r', v)" by fastforce
  have "transitions (dstate w) (dstate v)"
    by (rule sp_any [OF execute_transitions [OF deserialize_measured [OF Ok]] e])
  moreover have "w' = v"
    using assms Ok e by (auto simp: execute_serialized_command_def split: outcome.splits)
  ultimately show ?thesis by simp
qed (use assms in \<open>auto simp: execute_serialized_command_def\<close>)

end
