(* ===== verification/Destroy.thy ===== *)
theory Destroy
  imports Cmd_Simple Forest
begin

text \<open>
  What \<open>destroy_context\<close> removes from a forest of contexts: the node of the handle, its descendants,
  and the consecutive retired ancestors that have no other child. Every other node keeps its parent
  and its state and loses the removed nodes from its children.
\<close>

section \<open>The retired ancestors\<close>

definition retired_only_child :: "Context list \<Rightarrow> nat \<Rightarrow> bool" where
  "retired_only_child ctxs k \<longleftrightarrow> state (ctxs ! k) = Retired \<and> card (kids (children (ctxs ! k))) = 1"

lemma length_children_iter [simp]: "length (children_iter c) = card (kids c)"
proof -
  have "distinct (children_iter c)" by (simp add: children_iter_eq)
  then show ?thesis by (metis distinct_card set_children_iter)
qed

lemma up_path_parent:
  "up_path ctxs (i # k # is) \<Longrightarrow> length ctxs = 64 \<Longrightarrow>
     unat (parent_idx (ctxs ! i)) = k \<and> parent_idx (ctxs ! i) \<noteq> ROOT_INDEX \<and> k < 64 \<and>
     state (ctxs ! k) \<noteq> Inactive \<and> up_path ctxs (k # is)"
  by (auto split: if_splits simp: live_node_def)

lemma retired_loop_root: "retired_loop (Suc n) ctxs ROOT_INDEX acc = Ok acc"
  by simp

lemma retired_loop_step:
  "parent \<noteq> ROOT_INDEX \<Longrightarrow> unat parent = k \<Longrightarrow> k < 64 \<Longrightarrow> length ctxs = 64 \<Longrightarrow>
     retired_loop (Suc n) ctxs parent acc =
       (if retired_only_child ctxs k then retired_loop n ctxs (parent_idx (ctxs ! k)) (acc OR push_bit k 1)
        else Ok acc)"
  by (simp add: retired_only_child_def children_add_child_def)

lemma retired_loop_path:
  assumes "length ctxs = 64"
  shows "up_path ctxs (i # is) \<Longrightarrow> length is \<le> n \<Longrightarrow>
    \<exists>e. retired_loop (Suc n) ctxs (parent_idx (ctxs ! i)) acc = Ok e \<and>
        kids e = kids acc \<union> set (takeWhile (retired_only_child ctxs) is)"
proof (induction "is" arbitrary: i n acc)
  case (Cons k ks)
  note k = up_path_parent [OF Cons.prems(1) assms]
  from k have step: "retired_loop (Suc n) ctxs (parent_idx (ctxs ! i)) acc =
      (if retired_only_child ctxs k then retired_loop n ctxs (parent_idx (ctxs ! k)) (acc OR push_bit k 1)
       else Ok acc)" for n acc
    by (intro retired_loop_step assms) auto
  show ?case
  proof (cases "retired_only_child ctxs k")
    case True
    obtain m where m: "n = Suc m" "length ks \<le> m" using Cons.prems(2) by (cases n) auto
    from k have "up_path ctxs (k # ks)" by blast
    from Cons.IH [OF this m(2), of "acc OR push_bit k 1"] obtain e
      where "retired_loop (Suc m) ctxs (parent_idx (ctxs ! k)) (acc OR push_bit k 1) = Ok e"
        "kids e = kids (acc OR push_bit k 1) \<union> set (takeWhile (retired_only_child ctxs) ks)" by blast
    with True k show ?thesis unfolding step m(1) by (simp del: push_bit_of_1)
  qed (unfold step, simp)
qed (simp split: if_splits)

section \<open>The removed nodes\<close>

definition doomed :: "Context list \<Rightarrow> nat \<Rightarrow> nat list \<Rightarrow> nat set" where
  "doomed ctxs i anc = (child_rel ctxs)\<^sup>* `` {i} \<union> set (takeWhile (retired_only_child ctxs) anc)"

lemma rtrancl_image_insert: "R\<^sup>* `` {i} = insert i (R\<^sup>+ `` {i})"
  by (auto simp: rtrancl_eq_or_trancl)

lemma takeWhile_only_child:
  assumes "forest ctxs"
  shows "up_path ctxs (i # is) \<Longrightarrow> k \<in> set (takeWhile (retired_only_child ctxs) is) \<Longrightarrow>
    \<exists>j. kids (children (ctxs ! k)) = {j} \<and> (j = i \<or> j \<in> set (takeWhile (retired_only_child ctxs) is))"
proof (induction "is" arbitrary: i)
  case (Cons m ms)
  have len: "length ctxs = 64" using assms by simp
  note m = up_path_parent [OF Cons.prems(1) len]
  have i: "i < 64" "state (ctxs ! i) \<noteq> Inactive"
    using up_path_live [OF Cons.prems(1), of i] len by (auto simp: live_node_def)
  show ?case
  proof (cases "retired_only_child ctxs m")
    case True
    show ?thesis
    proof (cases "k = m")
      case True
      have "i \<in> kids (children (ctxs ! m))"
        using forest_linked [OF assms i] m by (auto simp: linked_def)
      moreover have "card (kids (children (ctxs ! m))) = 1"
        using \<open>retired_only_child ctxs m\<close> by (simp add: retired_only_child_def)
      ultimately have "kids (children (ctxs ! m)) = {i}" by (auto simp: card_1_singleton_iff)
      with True show ?thesis by simp
    next
      case False
      with Cons.prems True have "k \<in> set (takeWhile (retired_only_child ctxs) ms)" by simp
      with Cons.IH [of m] m True show ?thesis by auto
    qed
  next
    case False
    with Cons.prems show ?thesis by simp
  qed
qed simp

lemma doomed_closed:
  assumes "forest ctxs" "up_path ctxs (i # is)"
    and "k \<in> doomed ctxs i is" "k < 64" "j \<in> kids (children (ctxs ! k))"
  shows "j \<in> doomed ctxs i is"
proof -
  have "(k, j) \<in> child_rel ctxs" using assms by (simp add: child_rel_def)
  moreover have "j \<in> doomed ctxs i is" if "k \<in> set (takeWhile (retired_only_child ctxs) is)"
    using takeWhile_only_child [OF assms(1,2) that] assms(5) by (auto simp: doomed_def)
  ultimately show ?thesis
    using assms(3) by (auto simp: doomed_def intro: rtrancl_into_rtrancl)
qed

section \<open>destroy_context\<close>

lemma contexts_destroy_all:
  "k < length (contexts st) \<Longrightarrow>
     contexts (destroy_all d st) ! k = destroy_one d (k, contexts st ! k)"
  by (simp add: destroy_all_def nth_enumerate_eq)

lemma length_destroy_all [simp]: "length (contexts (destroy_all d st)) = length (contexts st)"
  by (simp add: destroy_all_def)

text \<open>The node at \<open>k\<close> after the nodes of \<open>D\<close> are gone.\<close>

definition after_destroy :: "nat set \<Rightarrow> nat \<Rightarrow> Context \<Rightarrow> Context \<Rightarrow> bool" where
  "after_destroy D k c c' \<longleftrightarrow>
     (if k \<in> D then c' = destroy c
      else kids (children c') = kids (children c) - D \<and> c' = c\<lparr>children := children c'\<rparr>)"

definition context_destroyed :: "nat set \<Rightarrow> State \<Rightarrow> State \<Rightarrow> bool" where
  "context_destroyed D st st' \<longleftrightarrow> st' = st\<lparr>contexts := contexts st'\<rparr> \<and>
     length (contexts st') = length (contexts st) \<and>
     (\<forall>k < length (contexts st). after_destroy D k (contexts st ! k) (contexts st' ! k))"

lemma destroy_all_destroyed: "context_destroyed (kids d) st (destroy_all d st)"
  unfolding context_destroyed_def
proof (intro conjI allI impI)
  show "destroy_all d st = st\<lparr>contexts := contexts (destroy_all d st)\<rparr>"
    by (simp add: destroy_all_def)
  fix k assume k: "k < length (contexts st)"
  have "destroy (c\<lparr>children := x\<rparr>) = destroy c" for c x by (simp add: destroy_def)
  with k show "after_destroy (kids d) k (contexts st ! k) (contexts (destroy_all d st) ! k)"
    by (simp add: contexts_destroy_all after_destroy_def destroy_one_def Let_def children_has_child_iff)
qed simp

lemma destroyed_removed: "context_destroyed D st st' \<Longrightarrow> removed D (contexts st) (contexts st')"
  unfolding removed_def
proof (intro conjI allI impI)
  assume d: "context_destroyed D st st'"
  show "length (contexts st') = length (contexts st)" using d by (simp add: context_destroyed_def)
  fix k assume "k < length (contexts st)"
  with d have a: "after_destroy D k (contexts st ! k) (contexts st' ! k)"
    by (simp add: context_destroyed_def)
  show "if k \<in> D then state (contexts st' ! k) = Inactive \<and> blank_links (contexts st' ! k)
      else parent_idx (contexts st' ! k) = parent_idx (contexts st ! k) \<and>
        state (contexts st' ! k) = state (contexts st ! k) \<and>
        kids (children (contexts st' ! k)) = kids (children (contexts st ! k)) - D"
  proof (cases "k \<in> D")
    case True
    with a show ?thesis by (simp add: after_destroy_def destroy_def blank_links_def)
  next
    case False
    then have c: "contexts st' ! k = (contexts st ! k)\<lparr>children := children (contexts st' ! k)\<rparr>"
      and ks: "kids (children (contexts st' ! k)) = kids (children (contexts st ! k)) - D"
      using a by (simp_all add: after_destroy_def)
    from arg_cong [OF c, of state] arg_cong [OF c, of parent_idx] ks False show ?thesis by simp
  qed
qed

lemma destroy_context_forest:
  assumes f: "forest (contexts st)" and h: "get_active_context_pos st h loc = Ok i"
  obtains anc st' where "up_path (contexts st) (i # anc)" "destroy_context h st loc = Ok st'"
    "context_destroyed (doomed (contexts st) i anc) st st'"
proof -
  have len: "length (contexts st) = 64" using f by simp
  from get_active_context_pos_Ok [OF h] len
  have i: "i < 64" "state (contexts st ! i) \<noteq> Inactive" "locality (contexts st ! i) = loc"
    by (auto simp: active_at_def)
  from forest_up_path [OF f i(1,2)] obtain anc where p: "up_path (contexts st) (i # anc)" .
  have "length anc \<le> 64" using up_path_length [OF p] len by simp
  with retired_loop_path [OF len p, of MAX_HANDLES children_empty] obtain r
    where r: "retired_loop (Suc MAX_HANDLES) (contexts st) (parent_idx (contexts st ! i)) children_empty = Ok r"
      "kids r = set (takeWhile (retired_only_child (contexts st)) anc)" by auto
  from get_descendants_forest [OF f i(1,2)] obtain d
    where d: "get_descendants st (contexts st ! i) = Ok d" "kids d = (child_rel (contexts st))\<^sup>+ `` {i}" .
  let ?a = "children_add_children (d OR push_bit i 1) r"
  have "kids ?a = doomed (contexts st) i anc"
    using i r d by (simp add: doomed_def rtrancl_image_insert del: push_bit_of_1)
  with destroy_all_destroyed [of ?a st]
  have "context_destroyed (doomed (contexts st) i anc) st (destroy_all ?a st)" by simp
  moreover have "destroy_context h st loc = Ok (destroy_all ?a st)"
    using h i r d by (simp add: destroy_context_def get_active_context_and_idx_def len
        children_add_child_def del: push_bit_of_1)
  ultimately show thesis using p that by blast
qed

lemma destroy_context_Ok:
  assumes f: "forest (contexts st)" and d: "destroy_context h st loc = Ok st'"
  obtains i anc where "get_active_context_pos st h loc = Ok i" "up_path (contexts st) (i # anc)"
    "context_destroyed (doomed (contexts st) i anc) st st'"
proof -
  from d obtain c i where "get_active_context_and_idx st h loc = Ok (c, i)"
    by (auto simp: destroy_context_def bindO_Ok_iff)
  then have i: "get_active_context_pos st h loc = Ok i" by (simp add: get_active_context_and_idx_Ok)
  from destroy_context_forest [OF f i] d that [OF i] show thesis by (metis outcome.inject(1))
qed

lemma forest_destroyed:
  assumes "forest (contexts st)" "up_path (contexts st) (i # anc)"
    and "context_destroyed (doomed (contexts st) i anc) st st'"
  shows "forest (contexts st')"
  by (rule forest_remove [OF assms(1) destroyed_removed [OF assms(3)]])
    (rule doomed_closed [OF assms(1,2)])

end
