(* ===== verification/Invariants.thy ===== *)
theory Invariants
  imports Transitions Destroy
begin

text \<open>
  The invariant of the DPE state: the contexts form a forest, every context is well-formed and within
  the supported features, a child has no privilege that its parent lacks, siblings differ in their
  TCI type, and at most one tree is not a simulation. Every transition preserves it.
\<close>

section \<open>A context by itself\<close>

definition blank_context :: "Context \<Rightarrow> bool" where
  "blank_context c \<longleftrightarrow> tci c = TciNodeData_new \<and> locality c = 0 \<and> parent_idx c = ROOT_INDEX \<and>
     children c = children_empty \<and> \<not> uses_internal_input_info c \<and> \<not> uses_internal_input_dice c \<and>
     \<not> allow_x509 c \<and> \<not> allow_recursive c"

definition sized :: "Context \<Rightarrow> bool" where
  "sized c \<longleftrightarrow> length (handle c) = HANDLE_SIZE \<and> length (tci_cumulative (tci c)) = TCI_SIZE \<and>
     length (tci_current (tci c)) = TCI_SIZE"

definition supported :: "Support \<Rightarrow> Context \<Rightarrow> bool" where
  "supported supp c \<longleftrightarrow>
     (\<not> sup_simulation supp \<longrightarrow> context_type c = Normal) \<and>
     (\<not> sup_internal_info supp \<longrightarrow> \<not> uses_internal_input_info c) \<and>
     (\<not> sup_internal_dice supp \<longrightarrow> \<not> uses_internal_input_dice c) \<and>
     (\<not> sup_x509 supp \<and> parent_idx c \<noteq> ROOT_INDEX \<longrightarrow> \<not> allow_x509 c)"

definition node_ok :: "Support \<Rightarrow> bool \<Rightarrow> Context \<Rightarrow> bool" where
  "node_ok supp init c \<longleftrightarrow> sized c \<and> supported supp c \<and>
     tci_locality (tci c) = locality c \<and>
     (state c = Inactive \<longrightarrow> blank_context c) \<and>
     (state c = Retired \<longrightarrow> handle c = handle_invalid \<and> kids (children c) \<noteq> {}) \<and>
     (state c \<noteq> Inactive \<and> context_type c = Normal \<longrightarrow> init)"

section \<open>Parents, children and siblings\<close>

text \<open>A child is of its parent's type and is granted nothing that its parent was not granted.\<close>

definition edge_ok :: "Context \<Rightarrow> Context \<Rightarrow> bool" where
  "edge_ok c d \<longleftrightarrow> context_type d = context_type c \<and> (allow_x509 d \<longrightarrow> allow_x509 c) \<and>
     (allow_export_cdi d \<longrightarrow> allow_export_cdi c) \<and> (allow_recursive d \<longrightarrow> allow_recursive c)"

definition edges_ok :: "Context list \<Rightarrow> bool" where
  "edges_ok ctxs \<longleftrightarrow>
     (\<forall>i < 64. \<forall>j \<in> kids (children (ctxs ! i)). edge_ok (ctxs ! i) (ctxs ! j))"

definition siblings_differ :: "Context list \<Rightarrow> bool" where
  "siblings_differ ctxs \<longleftrightarrow>
     (\<forall>i < 64. inj_on (\<lambda>j. tci_type (tci (ctxs ! j))) (kids (children (ctxs ! i))))"

definition normal_root :: "Context list \<Rightarrow> nat \<Rightarrow> bool" where
  "normal_root ctxs i \<longleftrightarrow> i < 64 \<and> state (ctxs ! i) \<noteq> Inactive \<and> parent_idx (ctxs ! i) = ROOT_INDEX \<and>
     context_type (ctxs ! i) = Normal"

definition one_normal_tree :: "Context list \<Rightarrow> bool" where
  "one_normal_tree ctxs \<longleftrightarrow> (\<forall>i j. normal_root ctxs i \<and> normal_root ctxs j \<longrightarrow> i = j)"

definition state_inv :: "State \<Rightarrow> bool" where
  "state_inv st \<longleftrightarrow> marker st = State_MAGIC \<and> version st = State_VERSION \<and>
     forest (contexts st) \<and>
     (\<forall>i < 64. node_ok (support st) (has_initialized st) (contexts st ! i)) \<and>
     edges_ok (contexts st) \<and> siblings_differ (contexts st) \<and> one_normal_tree (contexts st)"

lemma state_inv_node: "state_inv st \<Longrightarrow> i < 64 \<Longrightarrow> node_ok (support st) (has_initialized st) (contexts st ! i)"
  by (simp add: state_inv_def)

lemma state_inv_forest: "state_inv st \<Longrightarrow> forest (contexts st)"
  by (simp add: state_inv_def)

lemma state_invI:
  assumes "marker st = State_MAGIC" "version st = State_VERSION" "forest (contexts st)"
    and "\<And>i. i < 64 \<Longrightarrow> node_ok (support st) (has_initialized st) (contexts st ! i)"
    and "edges_ok (contexts st)" "siblings_differ (contexts st)" "one_normal_tree (contexts st)"
  shows "state_inv st"
  using assms by (simp add: state_inv_def)

section \<open>The initial state\<close>

lemma node_ok_new [simp]: "node_ok supp init Context_new"
  by (simp add: node_ok_def sized_def supported_def blank_context_def context_flag_defs
      Context_new_def TciNodeData_new_def handle_default_def HANDLE_SIZE_def)

lemma state_inv_new: "state_inv (State_new b supp flags)"
proof (rule state_invI)
  let ?c = "replicate 64 Context_new"
  show "forest (contexts (State_new b supp flags))" by (simp add: State_new_def forest_initial)
  show "edges_ok (contexts (State_new b supp flags))" "siblings_differ (contexts (State_new b supp flags))"
    by (simp_all add: State_new_def edges_ok_def siblings_differ_def)
  have "\<not> normal_root (contexts (State_new b supp flags)) i" for i
    by (simp add: State_new_def normal_root_def)
  then show "one_normal_tree (contexts (State_new b supp flags))" by (simp add: one_normal_tree_def)
qed (simp_all add: State_new_def)

section \<open>Changing a context but not its identity\<close>

text \<open>What a command may change of a context in use that stays in use.\<close>

definition same_node :: "Context \<Rightarrow> Context \<Rightarrow> bool" where
  "same_node c c' \<longleftrightarrow> (\<exists>s h t. c' = c\<lparr>state := s, handle := h, tci := t\<rparr> \<and>
     tci_type t = tci_type (tci c) \<and> (s = Inactive) = (state c = Inactive))"

lemma same_node_refl: "same_node c c"
  unfolding same_node_def by (intro exI [of _ "state c"] exI [of _ "handle c"] exI [of _ "tci c"]) simp

lemma same_node_simps:
  assumes "same_node c c'"
  shows "children c' = children c" "parent_idx c' = parent_idx c" "context_type c' = context_type c"
    "allow_x509 c' = allow_x509 c" "allow_export_cdi c' = allow_export_cdi c"
    "allow_recursive c' = allow_recursive c" "tci_type (tci c') = tci_type (tci c)"
    "(state c' = Inactive) = (state c = Inactive)" "same_links c c'"
  using assms by (auto simp: same_node_def context_flag_defs same_links_def)

lemma relabelled:
  assumes len: "length ctxs = 64" "length ctxs' = 64"
    and s: "\<And>k. k < 64 \<Longrightarrow> same_node (ctxs ! k) (ctxs' ! k)"
  shows "edges_ok ctxs \<Longrightarrow> edges_ok ctxs'"
    and "siblings_differ ctxs \<Longrightarrow> siblings_differ ctxs'"
    and "one_normal_tree ctxs \<Longrightarrow> one_normal_tree ctxs'"
proof -
  note s = same_node_simps [OF s]
  show "edges_ok ctxs'" if "edges_ok ctxs"
    unfolding edges_ok_def
  proof (intro allI impI ballI)
    fix i j :: nat assume i: "i < 64" and j: "j \<in> kids (children (ctxs' ! i))"
    then have "edge_ok (ctxs ! i) (ctxs ! j)" using that s(1) [OF i] by (simp add: edges_ok_def)
    with s [OF i] s [OF kids_lt [OF j]] show "edge_ok (ctxs' ! i) (ctxs' ! j)"
      by (simp add: edge_ok_def)
  qed
  show "siblings_differ ctxs'" if "siblings_differ ctxs"
    unfolding siblings_differ_def
  proof (intro allI impI)
    fix i :: nat assume i: "i < 64"
    have "inj_on (\<lambda>j. tci_type (tci (ctxs ! j))) (kids (children (ctxs ! i)))"
      using that i by (simp add: siblings_differ_def)
    then show "inj_on (\<lambda>j. tci_type (tci (ctxs' ! j))) (kids (children (ctxs' ! i)))"
      unfolding s(1) [OF i] by (rule inj_on_cong [THEN iffD1, rotated]) (simp add: s kids_lt)
  qed
  show "one_normal_tree ctxs'" if "one_normal_tree ctxs"
    using that s by (simp add: one_normal_tree_def normal_root_def cong: conj_cong)
qed

lemma state_inv_update:
  assumes inv: "state_inv st" and i: "i < 64"
    and c: "same_node (contexts st ! i) c" "node_ok (support st) (has_initialized st) c"
  shows "state_inv (put_context i c st)"
proof -
  have f: "forest (contexts st)" by (rule state_inv_forest [OF inv])
  then have len: "length (contexts st) = 64" by simp
  have s: "same_node (contexts st ! k) ((contexts st)[i := c] ! k)" if "k < 64" for k
    using that c len by (cases "k = i") (auto intro: same_node_refl)
  show ?thesis
  proof (rule state_invI)
    show "forest (contexts (put_context i c st))"
      using f i same_node_simps(9) [OF c(1)] by (simp add: forest_update)
    fix k :: nat assume "k < 64"
    then show "node_ok (support (put_context i c st)) (has_initialized (put_context i c st))
        (contexts (put_context i c st) ! k)"
      using inv c len by (cases "k = i") (auto simp: state_inv_def)
  qed (use inv len relabelled [OF len(1) _ s] in \<open>simp_all add: state_inv_def\<close>)
qed

section \<open>A new root\<close>

lemma not_child_of_unused:
  "forest ctxs \<Longrightarrow> i < 64 \<Longrightarrow> state (ctxs ! i) = Inactive \<Longrightarrow> k < 64 \<Longrightarrow> i \<notin> kids (children (ctxs ! k))"
  by (auto dest: forest_child)

lemma edges_new_root:
  assumes f: "forest ctxs" and i: "i < 64" "state (ctxs ! i) = Inactive" and c: "children c = children_empty"
  shows "edges_ok ctxs \<Longrightarrow> edges_ok (ctxs[i := c])"
    and "siblings_differ ctxs \<Longrightarrow> siblings_differ (ctxs[i := c])"
proof -
  have len: "length ctxs = 64" using f by simp
  have ks: "kids (children (ctxs[i := c] ! k)) = (if k = i then {} else kids (children (ctxs ! k)))"
    if "k < 64" for k using that len c by simp
  have ch: "ctxs[i := c] ! j = ctxs ! j" if "k < 64" "j \<in> kids (children (ctxs ! k))" for k j
    using not_child_of_unused [OF f i that(1)] that(2) by (cases "j = i") auto
  show "edges_ok (ctxs[i := c])" if e: "edges_ok ctxs"
    unfolding edges_ok_def
  proof (intro allI impI ballI)
    fix k j :: nat assume k: "k < 64" and "j \<in> kids (children (ctxs[i := c] ! k))"
    then have "k \<noteq> i" "j \<in> kids (children (ctxs ! k))" using ks [OF k] by (auto split: if_splits)
    then show "edge_ok (ctxs[i := c] ! k) (ctxs[i := c] ! j)"
      using e k ch [OF k] by (simp add: edges_ok_def)
  qed
  show "siblings_differ (ctxs[i := c])" if d: "siblings_differ ctxs"
    unfolding siblings_differ_def
  proof (intro allI impI)
    fix k :: nat assume k: "k < 64"
    have "inj_on (\<lambda>j. tci_type (tci (ctxs ! j))) (kids (children (ctxs ! k)))"
      using d k by (simp add: siblings_differ_def)
    then have "inj_on (\<lambda>j. tci_type (tci (ctxs[i := c] ! j))) (kids (children (ctxs ! k)))"
      by (rule inj_on_cong [THEN iffD1, rotated]) (simp add: ch [OF k])
    then show "inj_on (\<lambda>j. tci_type (tci (ctxs[i := c] ! j))) (kids (children (ctxs[i := c] ! k)))"
      using ks [OF k] by simp
  qed
qed

lemma node_ok_mono: "node_ok supp init c \<Longrightarrow> (init \<Longrightarrow> init') \<Longrightarrow> node_ok supp init' c"
  by (auto simp: node_ok_def)

lemma state_inv_new_root:
  assumes inv: "state_inv st" and i: "i < 64" "state (contexts st ! i) = Inactive"
    and c: "state c \<noteq> Inactive" "parent_idx c = ROOT_INDEX" "children c = children_empty"
      "node_ok (support st) (has_initialized st') c"
    and normal: "context_type c = Normal \<Longrightarrow> \<not> has_initialized st"
    and st': "contexts st' = (contexts st)[i := c]" "support st' = support st" "marker st' = marker st"
      "version st' = version st" "has_initialized st \<Longrightarrow> has_initialized st'"
  shows "state_inv st'"
proof (rule state_invI)
  have f: "forest (contexts st)" by (rule state_inv_forest [OF inv])
  then have len: "length (contexts st) = 64" by simp
  show "marker st' = State_MAGIC" "version st' = State_VERSION" using inv st' by (auto simp: state_inv_def)
  show "forest (contexts st')" unfolding st' by (rule forest_new_root [OF f i c(1-3)])
  show "edges_ok (contexts st')" "siblings_differ (contexts st')"
    using edges_new_root [OF f i c(3)] inv by (auto simp: st' state_inv_def)
  fix k :: nat assume k: "k < 64"
  have "node_ok (support st) (has_initialized st') (contexts st ! k)"
    by (rule node_ok_mono [OF state_inv_node [OF inv k] st'(5)])
  then show "node_ok (support st') (has_initialized st') (contexts st' ! k)"
    using k c len by (cases "k = i") (auto simp: st')
next
  have len: "length (contexts st) = 64" using state_inv_forest [OF inv] by simp
  have r: "normal_root (contexts st') k \<longleftrightarrow> (if k = i then context_type c = Normal else normal_root (contexts st) k)" for k
    using i len c by (cases "k = i") (auto simp: st' normal_root_def)
  have "\<not> normal_root (contexts st) k" if "\<not> has_initialized st" for k
    using that state_inv_node [OF inv, of k] by (auto simp: normal_root_def node_ok_def)
  with normal r inv show "one_normal_tree (contexts st')"
    unfolding one_normal_tree_def state_inv_def by metis
qed

section \<open>A new child\<close>

lemma tci_type_unique_loop_True:
  "tci_type_unique_loop ctxs is ty = Ok True \<longleftrightarrow>
     (\<forall>i \<in> set is. i < length ctxs \<and> tci_type (tci (ctxs ! i)) \<noteq> ty)"
proof (induction "is")
  case (Cons i "is")
  then show ?case by (cases "i < length ctxs") (auto simp: get_at_def)
qed simp

lemma state_inv_new_child:
  assumes inv: "state_inv st"
    and i: "i < 64" "state (contexts st ! i) \<noteq> Inactive"
    and j: "j < 64" "state (contexts st ! j) = Inactive"
    and p: "same_node (contexts st ! i) p"
      "node_ok (support st) (has_initialized st) (p\<lparr>children := children p OR push_bit j 1\<rparr>)"
    and c: "state c \<noteq> Inactive" "parent_idx c = of_nat i" "children c = children_empty"
      "node_ok (support st) (has_initialized st) c" "edge_ok (contexts st ! i) c"
    and u: "tci_type_is_unique_among_children st (contexts st ! i) (tci_type (tci c)) = Ok True"
  shows "state_inv (put_context i (p\<lparr>children := children p OR push_bit j 1\<rparr>) (put_context j c st))"
proof -
  let ?p = "p\<lparr>children := children p OR push_bit j 1\<rparr>"
  define n where "n = (contexts st)[j := c, i := ?p]"
  have f: "forest (contexts st)" by (rule state_inv_forest [OF inv])
  then have len: "length (contexts st) = 64" by simp
  have ij: "i \<noteq> j" using i j by auto
  note same = same_node_simps [OF p(1)]
  have kp: "kids (children ?p) = insert j (kids (children (contexts st ! i)))"
    using j same(1) by (simp del: push_bit_of_1)
  have at: "n ! k = (if k = i then ?p else if k = j then c else contexts st ! k)" if "k < 64" for k
    using that len i j by (simp add: n_def)
  have ks: "kids (children (n ! k)) = (if k = i then insert j (kids (children (contexts st ! i)))
      else if k = j then {} else kids (children (contexts st ! k)))" if "k < 64" for k
    using at [OF that] kp c(3) by simp
  have jk: "j \<notin> kids (children (contexts st ! k))" if "k < 64" for k
    using not_child_of_unused [OF f j that] .
  have forest: "forest n"
    unfolding n_def using same i by (intro forest_new_child [OF f i j _ _ kp c(1-3)]) simp_all
  have edges: "edges_ok n"
    unfolding edges_ok_def
  proof (intro allI impI ballI)
    have old: "edge_ok (contexts st ! k) (contexts st ! m)" if "k < 64" "m \<in> kids (children (contexts st ! k))" for k m
      using inv that by (simp add: state_inv_def edges_ok_def)
    have ep: "edge_ok ?p d \<longleftrightarrow> edge_ok (contexts st ! i) d" "edge_ok d ?p \<longleftrightarrow> edge_ok d (contexts st ! i)" for d
      using same by (simp_all add: edge_ok_def context_flag_defs)
    fix k m :: nat assume k: "k < 64" and m: "m \<in> kids (children (n ! k))"
    then have m64: "m < 64" by (simp add: kids_lt)
    show "edge_ok (n ! k) (n ! m)"
    proof (cases "m = j")
      case True
      with m ks [OF k] jk [OF k] have "k = i" by (auto split: if_splits)
      with True at [OF i(1)] at [OF j(1)] ij ep(1) c(5) show ?thesis by simp
    next
      case False
      with m ks [OF k] have "k \<noteq> j" "m \<in> kids (children (contexts st ! k))" using i ij by (auto split: if_splits)
      with old [OF k] have "edge_ok (contexts st ! k) (contexts st ! m)" by blast
      moreover have "n ! k = (if k = i then ?p else contexts st ! k)"
        "n ! m = (if m = i then ?p else contexts st ! m)"
        using at [OF k] at [OF m64] \<open>k \<noteq> j\<close> False by simp_all
      ultimately show ?thesis using ep by (cases "k = i"; cases "m = i") simp_all
    qed
  qed
  have sib: "siblings_differ n"
    unfolding siblings_differ_def
  proof (intro allI impI)
    fix k :: nat assume k: "k < 64"
    let ?f = "\<lambda>m. tci_type (tci (contexts st ! m))" and ?g = "\<lambda>m. tci_type (tci (n ! m))"
    have g: "?g m = ?f m" if "m \<noteq> j" "m < 64" for m using that at same(7) by simp
    have "inj_on ?f (kids (children (contexts st ! k)))"
      using inv k by (simp add: state_inv_def siblings_differ_def)
    then have inj: "inj_on ?g (kids (children (contexts st ! k)))"
      by (rule inj_on_cong [THEN iffD1, rotated]) (metis g jk [OF k] kids_lt)
    have "?g j \<notin> ?g ` kids (children (contexts st ! i))"
      using u at [OF j(1)] ij g jk [OF i(1)]
      by (auto simp: tci_type_is_unique_among_children_def tci_type_unique_loop_True kids_lt)
        (metis kids_lt)
    with inj ks [OF k] jk [OF i(1)] show "inj_on ?g (kids (children (n ! k)))"
      by (cases "k = i"; cases "k = j") (simp_all add: inj_on_insert)
  qed
  have tree: "one_normal_tree n"
  proof -
    have "normal_root n k \<longleftrightarrow> normal_root (contexts st) k" for k
    proof (cases "k < 64")
      case True
      then show ?thesis using at [OF True] same c(2) i j by (auto simp: normal_root_def)
    qed (simp add: normal_root_def)
    then show ?thesis using inv by (simp add: one_normal_tree_def state_inv_def)
  qed
  show ?thesis
  proof (rule state_invI)
    have n: "contexts (put_context i ?p (put_context j c st)) = n" by (simp add: n_def)
    show "forest (contexts (put_context i ?p (put_context j c st)))"
      "edges_ok (contexts (put_context i ?p (put_context j c st)))"
      "siblings_differ (contexts (put_context i ?p (put_context j c st)))"
      "one_normal_tree (contexts (put_context i ?p (put_context j c st)))"
      unfolding n by (rule forest edges sib tree)+
    fix k :: nat assume k: "k < 64"
    show "node_ok (support (put_context i ?p (put_context j c st)))
        (has_initialized (put_context i ?p (put_context j c st)))
        (contexts (put_context i ?p (put_context j c st)) ! k)"
      unfolding n at [OF k] using p(2) c(4) state_inv_node [OF inv k] by simp
  qed (use inv in \<open>simp_all add: state_inv_def\<close>)
qed

section \<open>Removal\<close>

lemma up_path_parent_later:
  "up_path ctxs (m # ms) \<Longrightarrow> j \<in> set (m # ms) \<Longrightarrow> parent_idx (ctxs ! j) \<noteq> ROOT_INDEX \<Longrightarrow>
     unat (parent_idx (ctxs ! j)) \<in> set ms"
proof (induction ms arbitrary: m)
  case (Cons k ks)
  show ?case
  proof (cases "j = m")
    case True
    with Cons.prems(1) show ?thesis by (auto split: if_splits)
  next
    case False
    have "up_path ctxs (k # ks)" using Cons.prems(1) by (auto split: if_splits)
    with Cons.IH [of k] Cons.prems False show ?thesis by auto
  qed
qed (auto split: if_splits)

lemma up_path_parent_inj:
  "up_path ctxs is \<Longrightarrow> j \<in> set is \<Longrightarrow> j' \<in> set is \<Longrightarrow> parent_idx (ctxs ! j) \<noteq> ROOT_INDEX \<Longrightarrow>
     parent_idx (ctxs ! j) = parent_idx (ctxs ! j') \<Longrightarrow> j = j'"
proof (induction "is")
  case (Cons i "is")
  have later: False
    if a: "a \<in> set is" "parent_idx (ctxs ! a) = parent_idx (ctxs ! i)" "parent_idx (ctxs ! i) \<noteq> ROOT_INDEX" for a
  proof -
    obtain k ks where ks: "is = k # ks" using a(1) by (cases "is") auto
    have p: "up_path ctxs (k # ks)" "unat (parent_idx (ctxs ! i)) = k"
      using Cons.prems(1) by (auto simp: ks split: if_splits)
    have "unat (parent_idx (ctxs ! a)) \<in> set ks"
      by (rule up_path_parent_later [OF p(1)]) (use a in \<open>simp_all add: ks\<close>)
    with a p(2) have "k \<in> set ks" by simp
    with up_path_distinct [OF p(1)] show False by simp
  qed
  show ?case
  proof (cases "j = i \<or> j' = i")
    case True
    then show ?thesis using Cons.prems later [of j] later [of j'] by auto
  next
    case False
    then have "up_path ctxs is" using Cons.prems by (cases "is") (auto split: if_splits)
    with False Cons show ?thesis by auto
  qed
qed simp

text \<open>The parent of a node in the prefix is in the prefix or the first node after it.\<close>

lemma next_on_path:
  assumes "up_path ctxs (i # anc)" "j \<in> set (i # takeWhile P anc)" "parent_idx (ctxs ! j) \<noteq> ROOT_INDEX"
  shows "unat (parent_idx (ctxs ! j)) \<in> set (takeWhile P anc) \<or> \<not> P (unat (parent_idx (ctxs ! j)))"
  using assms
proof (induction anc arbitrary: i)
  case (Cons k ks)
  have p: "up_path ctxs (k # ks)" "parent_idx (ctxs ! i) \<noteq> ROOT_INDEX \<Longrightarrow> unat (parent_idx (ctxs ! i)) = k"
    using Cons.prems(1) by (auto split: if_splits)
  show ?case
  proof (cases "j = i")
    case True
    with p(2) Cons.prems(3) have "unat (parent_idx (ctxs ! j)) = k" by simp
    then show ?thesis by simp
  next
    case False
    with Cons.prems have "P k" "j \<in> set (k # takeWhile P ks)" by (auto split: if_splits)
    with Cons.IH [OF p(1)] Cons.prems(3) show ?thesis by auto
  qed
qed (auto split: if_splits)

text \<open>A retired node that is not removed keeps a child.\<close>

lemma retired_keeps_child:
  assumes f: "forest ctxs" and p: "up_path ctxs (i # anc)"
    and k: "k < 64" "k \<notin> doomed ctxs i anc" "state (ctxs ! k) = Retired" "kids (children (ctxs ! k)) \<noteq> {}"
  shows "kids (children (ctxs ! k)) - doomed ctxs i anc \<noteq> {}"
proof
  assume all: "kids (children (ctxs ! k)) - doomed ctxs i anc = {}"
  let ?T = "takeWhile (retired_only_child ctxs) anc"
  have path: "j \<in> set (i # ?T)" if j: "j \<in> kids (children (ctxs ! k))" for j
  proof (rule ccontr)
    assume n: "j \<notin> set (i # ?T)"
    from all j have "j \<in> doomed ctxs i anc" by blast
    with n have "(i, j) \<in> (child_rel ctxs)\<^sup>+" by (auto simp: doomed_def rtrancl_eq_or_trancl)
    then obtain m where m: "(i, m) \<in> (child_rel ctxs)\<^sup>*" "(m, j) \<in> child_rel ctxs"
      by (auto elim: tranclE simp: rtrancl_eq_or_trancl)
    then have m64: "m < 64" "j \<in> kids (children (ctxs ! m))" using f by (auto simp: child_rel_def)
    then have "m = k"
      using forest_child [OF f m64] forest_child [OF f k(1) j] small_u8_inject [OF m64(1) k(1)] by simp
    with m(1) k(2) show False by (simp add: doomed_def)
  qed
  have sub: "set (i # ?T) \<subseteq> set (i # anc)" by (auto dest: set_takeWhileD)
  have one: "j = j'" if "j \<in> kids (children (ctxs ! k))" "j' \<in> kids (children (ctxs ! k))" for j j'
  proof (rule up_path_parent_inj [OF p])
    show "j \<in> set (i # anc)" "j' \<in> set (i # anc)" using path that sub by blast+
    show "parent_idx (ctxs ! j) \<noteq> ROOT_INDEX" "parent_idx (ctxs ! j) = parent_idx (ctxs ! j')"
      using that forest_child [OF f k(1)] small_u8_not_root [OF k(1)] by auto
  qed
  from k(4) obtain j where j: "j \<in> kids (children (ctxs ! k))" by blast
  with one have "kids (children (ctxs ! k)) = {j}" by blast
  then have "retired_only_child ctxs k" using k(3) by (simp add: retired_only_child_def)
  moreover have "unat (parent_idx (ctxs ! j)) = k" "parent_idx (ctxs ! j) \<noteq> ROOT_INDEX"
    using forest_child [OF f k(1) j] k(1) by simp_all
  with next_on_path [OF p path [OF j]] have "k \<in> set ?T \<or> \<not> retired_only_child ctxs k" by simp
  ultimately show False using k(2) by (auto simp: doomed_def)
qed

lemma node_ok_children:
  assumes "node_ok supp init c" "state c = Retired \<Longrightarrow> kids cs \<noteq> {}"
    and "children c = children_empty \<Longrightarrow> cs = children_empty"
  shows "node_ok supp init (c\<lparr>children := cs\<rparr>)"
  using assms by (simp add: node_ok_def sized_def supported_def blank_context_def context_flag_defs)

lemma state_inv_destroyed:
  assumes inv: "state_inv st" and p: "up_path (contexts st) (i # anc)"
    and d: "context_destroyed (doomed (contexts st) i anc) st st'"
  shows "state_inv st'"
proof -
  let ?D = "doomed (contexts st) i anc"
  have f: "forest (contexts st)" by (rule state_inv_forest [OF inv])
  then have len: "length (contexts st) = 64" by simp
  have st': "st' = st\<lparr>contexts := contexts st'\<rparr>" using d by (simp add: context_destroyed_def)
  have same: "support st' = support st" "marker st' = marker st" "version st' = version st"
    "has_initialized st' = has_initialized st"
    using arg_cong [OF st', of support] arg_cong [OF st', of marker] arg_cong [OF st', of version]
      arg_cong [OF st', of f_has_initialized] by (simp_all add: has_initialized_def)
  have gone: "contexts st' ! k = destroy (contexts st ! k)" if "k < 64" "k \<in> ?D" for k
    using d that len by (simp add: context_destroyed_def after_destroy_def)
  have kept: "\<exists>cs. contexts st' ! k = (contexts st ! k)\<lparr>children := cs\<rparr> \<and>
      kids cs = kids (children (contexts st ! k)) - ?D" if "k < 64" "k \<notin> ?D" for k
  proof (intro exI conjI)
    have "after_destroy ?D k (contexts st ! k) (contexts st' ! k)"
      using d that(1) len by (simp add: context_destroyed_def)
    then show "contexts st' ! k = (contexts st ! k)\<lparr>children := children (contexts st' ! k)\<rparr>"
      "kids (children (contexts st' ! k)) = kids (children (contexts st ! k)) - ?D"
      using that(2) by (simp_all add: after_destroy_def)
  qed
  have child: "k \<notin> ?D \<and> j \<notin> ?D \<and> j \<in> kids (children (contexts st ! k))"
    if "k < 64" "j \<in> kids (children (contexts st' ! k))" for k j
  proof (cases "k \<in> ?D")
    case True
    with that gone [OF that(1)] show ?thesis by (simp add: destroy_def)
  next
    case False
    from kept [OF that(1) this] obtain cs where "contexts st' ! k = (contexts st ! k)\<lparr>children := cs\<rparr>"
      "kids cs = kids (children (contexts st ! k)) - ?D" by (elim exE conjE)
    with that(2) False show ?thesis by simp
  qed
  show ?thesis
  proof (rule state_invI)
    show "forest (contexts st')" by (rule forest_destroyed [OF f p d])
    show "edges_ok (contexts st')"
      unfolding edges_ok_def
    proof (intro allI impI ballI)
      fix k j :: nat assume k: "k < 64" and j: "j \<in> kids (children (contexts st' ! k))"
      have e: "edge_ok (contexts st ! k) (contexts st ! j)"
        using inv k child [OF k j] by (simp add: state_inv_def edges_ok_def)
      have kd: "k \<notin> ?D" and jd: "j \<notin> ?D" using child [OF k j] by simp_all
      obtain cs where "contexts st' ! k = (contexts st ! k)\<lparr>children := cs\<rparr>"
        using kept [OF k kd] by (elim exE conjE)
      moreover obtain ds where "contexts st' ! j = (contexts st ! j)\<lparr>children := ds\<rparr>"
        using kept [OF kids_lt [OF j] jd] by (elim exE conjE)
      ultimately show "edge_ok (contexts st' ! k) (contexts st' ! j)"
        using e by (simp add: edge_ok_def context_flag_defs)
    qed
    show "siblings_differ (contexts st')"
      unfolding siblings_differ_def
    proof (intro allI impI)
      fix k :: nat assume k: "k < 64"
      have "inj_on (\<lambda>j. tci_type (tci (contexts st ! j))) (kids (children (contexts st ! k)))"
        using inv k by (simp add: state_inv_def siblings_differ_def)
      then have "inj_on (\<lambda>j. tci_type (tci (contexts st ! j))) (kids (children (contexts st' ! k)))"
        by (rule inj_on_subset) (use child [OF k] in blast)
      moreover have "tci (contexts st' ! j) = tci (contexts st ! j)"
        if "j \<in> kids (children (contexts st' ! k))" for j
        using kept [OF kids_lt [OF that] conjunct1 [OF conjunct2 [OF child [OF k that]]]] by (elim exE conjE) simp
      ultimately show "inj_on (\<lambda>j. tci_type (tci (contexts st' ! j))) (kids (children (contexts st' ! k)))"
        by (simp add: inj_on_def)
    qed
    have "normal_root (contexts st) k" if r: "normal_root (contexts st') k" for k
    proof (cases "k \<in> ?D")
      case True
      with r gone [of k] show ?thesis by (simp add: normal_root_def destroy_def)
    next
      case False
      have k: "k < 64" using r by (simp add: normal_root_def)
      from kept [OF k False] obtain cs where "contexts st' ! k = (contexts st ! k)\<lparr>children := cs\<rparr>"
        by (elim exE conjE)
      with r show ?thesis by (simp add: normal_root_def)
    qed
    with inv show "one_normal_tree (contexts st')" by (simp add: one_normal_tree_def state_inv_def)
    fix k :: nat assume k: "k < 64"
    note ok = state_inv_node [OF inv k]
    show "node_ok (support st') (has_initialized st') (contexts st' ! k)"
    proof (cases "k \<in> ?D")
      case True
      with gone [OF k] ok show ?thesis
        by (simp add: same node_ok_def sized_def supported_def blank_context_def destroy_def
            context_flag_defs TciNodeData_new_def handle_invalid_def)
    next
      case False
      from kept [OF k False] obtain cs where cs: "contexts st' ! k = (contexts st ! k)\<lparr>children := cs\<rparr>"
        "kids cs = kids (children (contexts st ! k)) - ?D" by blast
      have "kids cs \<noteq> {}" if "state (contexts st ! k) = Retired"
        using retired_keeps_child [OF f p k False that] ok that cs(2) by (simp add: node_ok_def)
      moreover have "cs = children_empty" if "children (contexts st ! k) = children_empty"
        using that cs(2) by (simp flip: kids_eq_iff)
      ultimately show ?thesis
        unfolding cs(1) same by (rule node_ok_children [OF ok])
    qed
  qed (use inv same in \<open>simp_all add: state_inv_def\<close>)
qed

section \<open>Every transition preserves the invariant\<close>

lemma node_ok_activate:
  assumes "length (a_handle a) = HANDLE_SIZE"
    and "\<not> sup_simulation supp \<longrightarrow> a_context_type a = Normal"
    and "\<not> sup_internal_info supp \<longrightarrow> \<not> a_uses_internal_input_info a"
    and "\<not> sup_internal_dice supp \<longrightarrow> \<not> a_uses_internal_input_dice a"
    and "\<not> sup_x509 supp \<and> a_parent_idx a \<noteq> ROOT_INDEX \<longrightarrow> \<not> a_allow_x509 a"
    and "a_context_type a = Normal \<longrightarrow> init"
  shows "node_ok supp init (activate a c)"
  using assms by (simp add: node_ok_def sized_def supported_def TciNodeData_new_def)

lemma fresh_handle_length: "fresh_handle st h \<Longrightarrow> length h = HANDLE_SIZE"
  by (simp add: fresh_handle_def)

lemma length_default [simp]: "length handle_default = HANDLE_SIZE"
  by (simp add: handle_default_def)

lemma length_invalid [simp]: "length handle_invalid = HANDLE_SIZE"
  by (simp add: handle_invalid_def)

lemma has_initialized_set [simp]: "has_initialized (st\<lparr>f_has_initialized := U8Bool_new b\<rparr>) = b"
  by (simp add: has_initialized_def)

lemma node_ok_update:
  assumes "node_ok supp init c" "state c = Active" "length h = HANDLE_SIZE"
    and "length (tci_cumulative t) = TCI_SIZE" "length (tci_current t) = TCI_SIZE"
      "tci_locality t = tci_locality (tci c)"
  shows "node_ok supp init (c\<lparr>handle := h, tci := t\<rparr>)"
  using assms by (simp add: node_ok_def sized_def supported_def context_flag_defs)

lemma same_node_update:
  "tci_type t = tci_type (tci c) \<Longrightarrow> same_node c (c\<lparr>handle := h, tci := t\<rparr>)"
  unfolding same_node_def by (intro exI [of _ "state c"] exI [of _ h] exI [of _ t]) simp

lemma state_inv_set_handle:
  assumes "state_inv st" "is_active st i" "length h = HANDLE_SIZE"
  shows "state_inv (put_context i ((contexts st ! i)\<lparr>handle := h\<rparr>) st)"
proof -
  let ?c = "contexts st ! i"
  have i: "i < 64" "state ?c = Active" using assms state_inv_forest [OF assms(1)] by (simp_all add: is_active_def)
  note ok = state_inv_node [OF assms(1) i(1)]
  have "state_inv (put_context i (?c\<lparr>handle := h, tci := tci ?c\<rparr>) st)"
    using ok by (intro state_inv_update [OF assms(1) i(1) same_node_update node_ok_update [OF ok i(2) assms(3)]])
      (simp_all add: node_ok_def sized_def)
  then show ?thesis by simp
qed

lemma extended_simps:
  "extended m t t' \<Longrightarrow> tci_type t' = tci_type t \<and> tci_locality t' = tci_locality t \<and> tci_svn t' = tci_svn t \<and>
     tci_current t' = m \<and> length (tci_cumulative t') = length (tci_cumulative t)"
  by (auto simp: extended_def)

lemma state_inv_extend:
  assumes "state_inv st" "is_active st i" "extended m (tci (contexts st ! i)) t" "length m = TCI_SIZE"
  shows "state_inv (put_context i ((contexts st ! i)\<lparr>tci := t\<rparr>) st)"
proof -
  let ?c = "contexts st ! i"
  have i: "i < 64" "state ?c = Active" using assms state_inv_forest [OF assms(1)] by (simp_all add: is_active_def)
  note ok = state_inv_node [OF assms(1) i(1)]
  have "state_inv (put_context i (?c\<lparr>handle := handle ?c, tci := t\<rparr>) st)"
    using ok assms(4) extended_simps [OF assms(3)]
    by (intro state_inv_update [OF assms(1) i(1) same_node_update node_ok_update [OF ok i(2)]])
      (simp_all add: node_ok_def sized_def)
  then show ?thesis by simp
qed

lemma node_ok_retire:
  "node_ok supp init c \<Longrightarrow> state c = Active \<Longrightarrow> kids (children c) \<noteq> {} \<Longrightarrow>
     node_ok supp init (c\<lparr>state := Retired, handle := handle_invalid\<rparr>)"
  by (simp add: node_ok_def sized_def supported_def context_flag_defs)

lemma same_node_retire:
  "state c = Active \<Longrightarrow> same_node c (c\<lparr>state := Retired, handle := handle_invalid\<rparr>)"
  unfolding same_node_def by (intro exI [of _ Retired] exI [of _ handle_invalid] exI [of _ "tci c"]) simp

lemma parent_after_node:
  assumes "parent_after st flags c p" "node_ok supp init c" "state c = Active" "j < 64"
  shows "same_node c p" "node_ok supp init (p\<lparr>children := children p OR push_bit j 1\<rparr>)"
    "state p = (if retains_parent flags then Active else Retired)"
proof -
  have "p = c\<lparr>state := Retired, handle := handle_invalid\<rparr> \<and> \<not> retains_parent flags \<or>
      (\<exists>h. length h = HANDLE_SIZE \<and> p = c\<lparr>handle := h\<rparr>) \<and> retains_parent flags"
  proof -
    have "length (handle c) = HANDLE_SIZE" using assms(2) by (simp add: node_ok_def sized_def)
    then have "\<exists>h. length h = HANDLE_SIZE \<and> c = c\<lparr>handle := h\<rparr>" by (intro exI [of _ "handle c"]) simp
    then show ?thesis
      using assms(1) by (auto simp: parent_after_def rolled_def split: if_splits dest: fresh_handle_length)
  qed
  then show "same_node c p" "node_ok supp init (p\<lparr>children := children p OR push_bit j 1\<rparr>)"
    "state p = (if retains_parent flags then Active else Retired)"
  proof (atomize (full), elim disjE exE conjE, goal_cases)
    case 1
    then show ?case
      using assms(2-4) same_node_retire [OF assms(3)]
      by (simp add: node_ok_def sized_def supported_def context_flag_defs del: push_bit_of_1)
  next
    case (2 h)
    then show ?case
      using assms(2-4) same_node_update [of "tci c" c h]
      by (simp add: node_ok_def sized_def supported_def context_flag_defs del: push_bit_of_1)
  qed
qed

lemma state_inv_init:
  assumes inv: "state_inv st" and i: "get_next_inactive_context_pos st = Some i"
    and ty: "ty = Normal \<Longrightarrow> \<not> has_initialized st \<and> has_initialized st'"
      "\<not> sup_simulation (support st) \<Longrightarrow> ty = Normal"
    and h: "length h = HANDLE_SIZE"
    and st': "contexts st' = (contexts st)[i := activate (init_args cmd ty h loc) (contexts st ! i)]"
      "support st' = support st" "marker st' = marker st" "version st' = version st"
      "has_initialized st \<Longrightarrow> has_initialized st'"
  shows "state_inv st'"
proof (rule state_inv_new_root [OF inv, of i _ st', OF _ _ _ _ _ _ _ st'])
  show "i < 64" "state (contexts st ! i) = Inactive"
    using i state_inv_forest [OF inv] by (auto simp: get_next_inactive_Some)
qed (use ty h in \<open>simp_all add: init_args_def node_ok_activate\<close>)

lemma safe_child_edge:
  assumes "\<not> derive_invalid c flags" "d_flags cmd = flags" "same_node c p"
  shows "edge_ok c ((activate (child_args cmd i p (context_type c) h loc) Context_new)\<lparr>tci := t\<rparr>)"
proof -
  have "allow_export_cdi p = allow_export_cdi c" "allow_recursive p = allow_recursive c"
    using same_node_simps [OF assms(3)] by simp_all
  with assms(1,2) show ?thesis
    by (auto simp: edge_ok_def derive_invalid_def child_args_def Let_def activate_def context_flag_defs)
qed

lemma state_inv_derived:
  assumes inv: "state_inv st" and i: "is_active st i" and j: "get_next_inactive_context_pos st = Some j"
    and ok: "\<not> derive_not_supported (support st) (d_flags cmd)"
      "\<not> derive_invalid (contexts st ! i) (d_flags cmd)"
      "tci_type_is_unique_among_children st (contexts st ! i) (d_tci_type cmd) = Ok True"
    and p: "parent_after st (d_flags cmd) (contexts st ! i) p"
    and h: "if makes_default (d_flags cmd) then h = handle_default else fresh_handle st h"
    and c: "c = activate (child_args cmd i p (context_type (contexts st ! i)) h loc) Context_new"
    and t: "extended (d_data cmd) (tci c) t" "length (d_data cmd) = TCI_SIZE"
  shows "state_inv (put_context i (p\<lparr>children := children p OR push_bit j 1\<rparr>)
      (put_context j (c\<lparr>tci := t\<rparr>) st))"
proof -
  have i64: "i < 64" "state (contexts st ! i) = Active"
    using i state_inv_forest [OF inv] by (simp_all add: is_active_def)
  have j64: "j < 64" "state (contexts st ! j) = Inactive"
    using j state_inv_forest [OF inv] by (auto simp: get_next_inactive_Some)
  note node = state_inv_node [OF inv i64(1)]
  note pn = parent_after_node [OF p node i64(2) j64(1)]
  note ts = extended_simps [OF t(1)]
  have hl: "length h = HANDLE_SIZE" using h by (auto split: if_splits dest: fresh_handle_length)
  have "node_ok (support st) (has_initialized st) c"
    unfolding c using ok(1) hl node i64
    by (intro node_ok_activate)
      (auto simp: child_args_def Let_def derive_not_supported_def node_ok_def supported_def)
  then have "node_ok (support st) (has_initialized st) (c\<lparr>handle := handle c, tci := t\<rparr>)"
    using ts t(2) c by (intro node_ok_update) (simp_all add: node_ok_def sized_def)
  moreover have "c\<lparr>handle := handle c, tci := t\<rparr> = c\<lparr>tci := t\<rparr>" by simp
  ultimately have cn: "node_ok (support st) (has_initialized st) (c\<lparr>tci := t\<rparr>)" by (simp only:)
  have ty: "tci_type t = d_tci_type cmd" using ts c by (simp add: child_args_def Let_def)
  show ?thesis
    by (rule state_inv_new_child [OF inv i64(1) _ j64 pn(1,2) _ _ _ cn])
      (use c ok(3) ty i64 safe_child_edge [OF ok(2) refl pn(1)] in \<open>simp_all add: child_args_def Let_def\<close>)
qed

theorem transition_preserves_inv: "transition st st' \<Longrightarrow> state_inv st \<Longrightarrow> state_inv st'"
proof (induction rule: transition.induct)
  case (init_default st i cmd loc)
  show ?case
    by (rule state_inv_init [OF init_default(4,2)]) (use init_default in simp_all)
next
  case (init_simulation st i h cmd loc)
  show ?case
    by (rule state_inv_init [OF init_simulation(5,2)])
      (use init_simulation in \<open>simp_all add: fresh_handle_length\<close>)
next
  case (retire st i)
  have i: "i < 64" "state (contexts st ! i) = Active"
    using retire state_inv_forest [OF retire(3)] by (simp_all add: is_active_def)
  have "kids (children (contexts st ! i)) \<noteq> {}"
    using retire(2) by (simp add: has_children_def children_has_children_iff)
  then show ?case
    using i state_inv_node [OF retire(3) i(1)]
    by (intro state_inv_update [OF retire(3) i(1)] same_node_retire node_ok_retire)
next
  case (destroyed h st loc st')
  then show ?case
    using destroy_context_Ok [OF state_inv_forest] state_inv_destroyed by metis
next
  case (derived st i j cmd loc p h c t)
  show ?case by (rule state_inv_derived [OF derived(12,1-5,7-11)])
qed (simp_all add: state_inv_set_handle fresh_handle_length state_inv_extend)

lemma transitions_preserve_inv: "transitions st st' \<Longrightarrow> state_inv st \<Longrightarrow> state_inv st'"
  by (induction rule: rtranclp_induct) (auto intro: transition_preserves_inv)

end
