(* ===== verification/Localities.thy ===== *)
theory Localities
  imports Invariants
begin

text \<open>
  Handles per locality. Without the simulation feature the default handle is alone in its locality:
  no other active context shares the locality of an active context with the default handle. The
  checks of DeriveContext and RotateContextHandle keep it so; InitializeContext makes no such check,
  and a simulation context may join the locality of a default one.
\<close>

definition default_alone :: "State \<Rightarrow> bool" where
  "default_alone st \<longleftrightarrow> (\<forall>i j. is_active st i \<and> is_active st j \<and>
     locality (contexts st ! i) = locality (contexts st ! j) \<and>
     handle (contexts st ! i) = handle_default \<longrightarrow> j = i)"

lemma default_aloneD:
  "default_alone st \<Longrightarrow> is_active st i \<Longrightarrow> is_active st j \<Longrightarrow>
     locality (contexts st ! i) = locality (contexts st ! j) \<Longrightarrow>
     handle (contexts st ! i) = handle_default \<Longrightarrow> j = i"
  unfolding default_alone_def by blast

text \<open>\<open>st'\<close> has no active context but those of \<open>st\<close>, and no new default handle.\<close>

definition fewer_actives :: "(nat \<Rightarrow> bool) \<Rightarrow> State \<Rightarrow> State \<Rightarrow> bool" where
  "fewer_actives K st st' \<longleftrightarrow> (\<forall>k. K k \<and> is_active st' k \<longrightarrow> is_active st k \<and>
     locality (contexts st' ! k) = locality (contexts st ! k) \<and>
     (handle (contexts st' ! k) = handle_default \<longrightarrow> handle (contexts st ! k) = handle_default))"

lemma default_alone_fewer:
  "default_alone st \<Longrightarrow> fewer_actives (\<lambda>_. True) st st' \<Longrightarrow> default_alone st'"
  unfolding default_alone_def fewer_actives_def by metis

lemma fewer_actives_put:
  assumes "is_active st i" "locality c = locality (contexts st ! i)"
    and "handle c = handle_default \<Longrightarrow> handle (contexts st ! i) = handle_default"
  shows "fewer_actives K st (put_context i c st)"
  using assms by (auto simp: fewer_actives_def is_active_def nth_list_update)

lemma fewer_actives_destroyed:
  assumes "context_destroyed D st st'"
  shows "fewer_actives K st st'"
  unfolding fewer_actives_def
proof (intro allI impI, elim conjE)
  fix k assume a: "is_active st' k"
  then have k: "k < length (contexts st)" using assms by (simp add: is_active_def context_destroyed_def)
  then have after: "after_destroy D k (contexts st ! k) (contexts st' ! k)"
    using assms by (simp add: context_destroyed_def)
  with a have kd: "k \<notin> D" by (auto simp: is_active_def after_destroy_def destroy_def)
  with after have c: "contexts st' ! k = (contexts st ! k)\<lparr>children := children (contexts st' ! k)\<rparr>"
    by (simp add: after_destroy_def)
  show "is_active st k \<and> locality (contexts st' ! k) = locality (contexts st ! k) \<and>
      (handle (contexts st' ! k) = handle_default \<longrightarrow> handle (contexts st ! k) = handle_default)"
    using a k arg_cong [OF c, of state] arg_cong [OF c, of locality] arg_cong [OF c, of handle]
    by (simp add: is_active_def)
qed

section \<open>The checks of DeriveContext\<close>

lemma count_contexts_Ok: "count_contexts st P = Ok (card {k. k < length (contexts st) \<and> P (contexts st ! k)})"
  by (simp add: count_contexts_def length_filter_conv_card)

lemma to_option_Some: "to_option r = Some x \<longleftrightarrow> r = Ok x"
  by (cases r) simp_all

lemma to_option_None: "to_option r = None \<longleftrightarrow> (\<forall>x. r \<noteq> Ok x)"
  by (cases r) simp_all

lemma safe_to_make_child_True:
  assumes safe: "safe_to_make_child flags st i loc = Ok True" and alone: "default_alone st"
    and k: "is_active st k" "locality (contexts st ! k) = loc" "retains_parent flags \<or> k \<noteq> i"
  shows "handle (contexts st ! k) \<noteq> handle_default \<and> \<not> makes_default flags"
proof -
  let ?A = "{k. k < length (contexts st) \<and> state (contexts st ! k) = Active \<and> locality (contexts st ! k) = loc}"
  let ?d = "get_active_context_pos st handle_default loc"
  have kA: "k \<in> ?A" using k by (simp add: is_active_def)
  then have card: "card ?A \<noteq> 0" by auto
  show ?thesis
  proof (cases "to_option ?d")
    case None
    have "handle (contexts st ! k) \<noteq> handle_default"
    proof
      assume "handle (contexts st ! k) = handle_default"
      with k have "active_at st handle_default loc k" by (simp add: active_at_def is_active_def)
      with None show False using get_active_context_pos_ex to_option_None by metis
    qed
    moreover have "\<not> makes_default flags"
      using safe None card by (auto simp: Let_def safe_to_make_child_def count_contexts_Ok safe_to_make_default_def)
    ultimately show ?thesis by simp
  next
    case (Some j)
    then have "?d = Ok j" by (simp add: to_option_Some)
    from get_active_context_pos_Ok [OF this] have j: "is_active st j" "locality (contexts st ! j) = loc"
      "handle (contexts st ! j) = handle_default" by (simp_all add: active_at_def is_active_def)
    have "j = i \<and> \<not> retains_parent flags"
      using safe Some by (auto simp: Let_def safe_to_make_child_def count_contexts_Ok safe_to_make_default_def
          safe_to_make_non_default_def split: if_splits)
    moreover have "k = j" using default_aloneD [OF alone j(1) k(1)] j k by simp
    ultimately show ?thesis using k(3) by simp
  qed
qed

section \<open>Preservation\<close>

lemma derived_default_alone:
  assumes inv: "state_inv st" and alone: "default_alone st" and i: "is_active st i"
    and j: "get_next_inactive_context_pos st = Some j"
    and safe: "safe_to_make_child flags st i loc = Ok True"
    and p: "parent_after st flags (contexts st ! i) p"
    and c: "locality c = loc" "handle c = handle_default \<longleftrightarrow> makes_default flags"
    and st': "st' = put_context i (p\<lparr>children := cs\<rparr>) (put_context j c st)"
  shows "default_alone st'"
proof -
  have len: "length (contexts st) = 64" using state_inv_forest [OF inv] by simp
  have i64: "i < 64" "state (contexts st ! i) = Active" using i len by (simp_all add: is_active_def)
  have j64: "j < 64" "state (contexts st ! j) = Inactive"
    using j len by (auto simp: get_next_inactive_Some)
  have ij: "i \<noteq> j" using i64 j64 by auto
  have pp: "locality p = locality (contexts st ! i)"
    "handle p = handle_default \<Longrightarrow> handle (contexts st ! i) = handle_default"
    "state p = Active \<longleftrightarrow> retains_parent flags"
    using p i64(2) by (auto simp: parent_after_def rolled_def fresh_handle_def split: if_splits)
  have old: "is_active st k" "locality (contexts st' ! k) = locality (contexts st ! k)"
    "handle (contexts st' ! k) = handle_default \<Longrightarrow> handle (contexts st ! k) = handle_default"
    "retains_parent flags \<or> k \<noteq> i"
    if "k \<noteq> j" "is_active st' k" for k
    using that pp i j64 len ij by (auto simp: st' is_active_def nth_list_update split: if_splits)
  have new: "locality (contexts st' ! j) = loc" "handle (contexts st' ! j) = handle_default \<longleftrightarrow> makes_default flags"
    using c j64 ij len by (simp_all add: st')
  have none: "handle (contexts st' ! k) \<noteq> handle_default \<and> \<not> makes_default flags"
    if "k \<noteq> j" "is_active st' k" "locality (contexts st' ! k) = loc" for k
    using safe_to_make_child_True [OF safe alone, of k] old [OF that(1,2)] that(3) by auto
  show ?thesis
    unfolding default_alone_def
  proof (intro allI impI, elim conjE)
    fix k m
    assume a: "is_active st' k" "is_active st' m" "locality (contexts st' ! k) = locality (contexts st' ! m)"
      "handle (contexts st' ! k) = handle_default"
    consider "k = j" "m = j" | "k = j" "m \<noteq> j" | "k \<noteq> j" "m = j" | "k \<noteq> j" "m \<noteq> j" by blast
    then show "m = k"
    proof cases
      case 2
      with none [of m] new a show ?thesis by simp
    next
      case 3
      with none [of k] new a show ?thesis by simp
    next
      case 4
      with a old [of k] old [of m] show ?thesis by (intro default_aloneD [OF alone]) auto
    qed simp
  qed
qed

lemma transition_default_alone:
  "transition st st' \<Longrightarrow> \<not> sup_simulation (support st) \<Longrightarrow> state_inv st \<Longrightarrow> default_alone st \<Longrightarrow>
     default_alone st'"
proof (induction rule: transition.induct)
  case (init_default st i cmd loc)
  have "\<not> is_active st k" for k
  proof
    assume k: "is_active st k"
    then have "k < 64" using state_inv_forest [OF init_default(5)] by (simp add: is_active_def)
    from state_inv_node [OF init_default(5) this] init_default(1,4) k show False
      by (auto simp: node_ok_def supported_def is_active_def)
  qed
  then have "k = i" if "is_active (put_context i c (st\<lparr>f_has_initialized := x\<rparr>)) k" for k c x
    using that by (cases "k = i") (auto simp: is_active_def)
  then show ?case unfolding default_alone_def by blast
next
  case (to_default st i)
  have "is_active (put_context i c st) k \<longleftrightarrow> is_active st k" if "state c = Active" for k c
    using that to_default(1) by (cases "k = i") (auto simp: is_active_def)
  moreover have "locality ((contexts st)[i := (contexts st ! i)\<lparr>handle := h\<rparr>] ! k) = locality (contexts st ! k)" for k h
    using to_default(1) by (cases "k = i") (auto simp: is_active_def)
  moreover have "handle ((contexts st)[i := (contexts st ! i)\<lparr>handle := h\<rparr>] ! k) = (if k = i then h else handle (contexts st ! k))" for k h
    using to_default(1) by (auto simp: is_active_def)
  moreover have "state (contexts st ! i) = Active" using to_default(1) by (simp add: is_active_def)
  ultimately show ?case
    using to_default(2) default_aloneD [OF to_default(5)] unfolding default_alone_def by auto
next
  case (destroyed h st loc st')
  obtain D where "context_destroyed D st st'"
    using destroy_context_Ok [OF state_inv_forest [OF destroyed(3)] destroyed(1)] by metis
  with destroyed(4) show ?case by (blast intro: default_alone_fewer fewer_actives_destroyed)
next
  case (derived st i j cmd loc p h c t)
  show ?case
    by (rule derived_default_alone [OF derived(13,14,1,2,6,7) _ _ refl])
      (use derived(8,9) in \<open>auto simp: child_args_def Let_def fresh_handle_def split: if_splits\<close>)
next
  case (new_handle st i h)
  show ?case
    by (rule default_alone_fewer [OF new_handle(5) fewer_actives_put [OF new_handle(1)]])
      (use new_handle(2) in \<open>simp_all add: fresh_handle_def\<close>)
next
  case (extend st i m t)
  show ?case
    by (rule default_alone_fewer [OF extend(6) fewer_actives_put [OF extend(1)]]) simp_all
next
  case (retire st i)
  show ?case
    by (rule default_alone_fewer [OF retire(5) fewer_actives_put [OF retire(1)]]) simp_all
qed simp

lemma default_alone_new: "default_alone (State_new b supp flags)"
proof -
  have "\<not> is_active (State_new b supp flags) i" for i
    by (simp add: is_active_def State_new_def)
  then show ?thesis by (simp add: default_alone_def)
qed

lemma transition_support: "transition st st' \<Longrightarrow> support st' = support st"
  by (induction rule: transition.induct) (auto simp: destroy_context_def bindO_Ok_iff destroy_all_def split: if_splits)

lemma transitions_default_alone:
  assumes "transitions st st'" "\<not> sup_simulation (support st)" "state_inv st" "default_alone st"
  shows "default_alone st' \<and> support st' = support st"
  using assms(1)
proof (induction rule: rtranclp_induct)
  case (step s t)
  have "state_inv s" by (rule transitions_preserve_inv [OF step(1) assms(3)])
  with step assms(2) show ?case
    using transition_default_alone [OF step(2)] transition_support [OF step(2)] by simp
qed (use assms in simp)

end
