(* ===== verification/Validation.thy ===== *)
theory Validation
  imports Localities
begin

text \<open>
  The validator of a persisted DPE state (dpe/src/validation.rs): the checks of single contexts, of
  the handles per locality and of the forest by depth-first search, each as the code makes it. The
  second part is the meaning of the checks: \<open>validate_dpe\<close> accepts exactly the states of
  \<open>valid_state\<close>.
\<close>

section \<open>Checks of single contexts\<close>

definition guard_valid :: "bool \<Rightarrow> ValidationError \<Rightarrow> (ValidationError, unit) outcome" where
  "guard_valid bad e = (if bad then Err e else Ok ())"

definition check_support :: "State \<Rightarrow> Context \<Rightarrow> (ValidationError, unit) outcome" where
  "check_support st c =
     bindO (guard_valid (\<not> sup_simulation (support st) \<and> context_type c = Simulation) SimulationNotSupported) (\<lambda>_.
     bindO (guard_valid (\<not> sup_internal_dice (support st) \<and> uses_internal_input_dice c) InternalDiceNotSupported) (\<lambda>_.
     bindO (guard_valid (\<not> sup_internal_info (support st) \<and> uses_internal_input_info c) InternalInfoNotSupported) (\<lambda>_.
     guard_valid (parent_idx c \<noteq> ROOT_INDEX \<and> \<not> sup_x509 (support st) \<and> allow_x509 c) AllowX509NotSupported)))"

definition validate_inactive_context :: "Context \<Rightarrow> (ValidationError, unit) outcome" where
  "validate_inactive_context c =
     (if parent_idx c \<noteq> ROOT_INDEX then Err InactiveContextInvalidParent
      else if children_has_children (children c) then Err InactiveContextWithChildren
      else if tci c \<noteq> TciNodeData_new then Err InactiveContextWithMeasurement
      else if uses_internal_input_dice c \<or> allow_x509 c \<or> uses_internal_input_info c
        then Err InactiveContextWithFlagSet
      else Ok ())"

fun check_children :: "Context list \<Rightarrow> nat \<Rightarrow> nat list \<Rightarrow> (ValidationError, unit) outcome" where
  "check_children ctxs idx [] = Ok ()"
| "check_children ctxs idx (child_idx # rest) =
     bindO (ok_or (get_at ctxs child_idx) ChildDoesNotExist) (\<lambda>child.
       if state child = Inactive then Err InactiveChild
       else if unat (parent_idx child) \<noteq> idx then Err ParentChildLinksCorrupted
       else check_children ctxs idx rest)"

definition check_children_and_parent :: "State \<Rightarrow> nat \<Rightarrow> (ValidationError, unit) outcome" where
  "check_children_and_parent st idx =
     bindO (ok_or (get_at (contexts st) idx) BadContextState) (\<lambda>c.
     bindO (guard_valid (MAX_HANDLES \<le> unat (parent_idx c) \<and> parent_idx c \<noteq> ROOT_INDEX) ParentDoesNotExist) (\<lambda>_.
     bindO (if parent_idx c \<noteq> ROOT_INDEX
            then bindO (ok_or (get_at (contexts st) (unat (parent_idx c))) ParentDoesNotExist) (\<lambda>parent.
              if state parent = Inactive then Err InactiveParent
              else if \<not> children_has_child (children parent) idx then Err ParentChildLinksCorrupted
              else Ok ())
            else Ok ()) (\<lambda>_.
     check_children (contexts st) idx (flags_iter (children c) 64))))"

definition check_context :: "State \<Rightarrow> nat \<times> Context \<Rightarrow> (ValidationError, unit) outcome" where
  "check_context st = (\<lambda>(i, c).
     bindO (check_support st c) (\<lambda>_.
     bindO (case state c of
         Inactive \<Rightarrow> validate_inactive_context c
       | Active \<Rightarrow>
           bindO (guard_valid (context_type c = Normal \<and> \<not> has_initialized st) DpeNotMarkedInitialized)
             (\<lambda>_. check_children_and_parent st i)
       | Retired \<Rightarrow>
           bindO (check_children_and_parent st i) (\<lambda>_.
             guard_valid (length (children_iter (children c)) = 0) DanglingRetiredContext)) (\<lambda>_.
     bindO (guard_valid (context_type c \<noteq> Normal \<and> context_type c \<noteq> Simulation) BadContextType) (\<lambda>_.
     guard_valid (locality c \<noteq> tci_locality (tci c)) LocalityMismatch))))"

fun each :: "('a \<Rightarrow> ('e, unit) outcome) \<Rightarrow> 'a list \<Rightarrow> ('e, unit) outcome" where
  "each f [] = Ok ()"
| "each f (x # xs) = bindO (f x) (\<lambda>_. each f xs)"

section \<open>Handles per locality\<close>

fun count_handles :: "u32 \<Rightarrow> Context list \<Rightarrow> nat \<Rightarrow> nat \<Rightarrow> (ValidationError, unit) outcome" where
  "count_handles loc [] defaults others = Ok ()"
| "count_handles loc (c # cs) defaults others =
     (let (defaults, others) =
        (if locality c = loc \<and> state c = Active
         then if is_default (handle c) then (defaults + 1, others) else (defaults, others + 1)
         else (defaults, others))
      in if 1 < defaults then Err MultipleDefaultContexts
         else if 0 < defaults \<and> 0 < others then Err MixedContextLocality
         else count_handles loc cs defaults others)"

definition check_context_handles_per_locality :: "State \<Rightarrow> (ValidationError, unit) outcome" where
  "check_context_handles_per_locality st =
     each (\<lambda>loc. count_handles loc (contexts st) 0 0) (List.map locality (contexts st))"

definition validate_dpe_state :: "State \<Rightarrow> (ValidationError, unit) outcome" where
  "validate_dpe_state st =
     bindO (guard_valid (marker st \<noteq> State_MAGIC) InvalidMarker) (\<lambda>_.
     bindO (guard_valid (version st \<noteq> State_VERSION) VersionMismatch) (\<lambda>_.
     bindO (each (check_context st) (List.enumerate 0 (contexts st))) (\<lambda>_.
     check_context_handles_per_locality st)))"

section \<open>The forest\<close>

fun count_children :: "nat list \<Rightarrow> nat list \<Rightarrow> (ValidationError, nat list) outcome" where
  "count_children [] deg = Ok deg"
| "count_children (child # rest) deg =
     bindO (ok_or (get_at deg child) ChildDoesNotExist) (\<lambda>n. count_children rest (deg[child := n + 1]))"

fun count_in_degree :: "Context list \<Rightarrow> nat list \<Rightarrow> (ValidationError, nat list) outcome" where
  "count_in_degree [] deg = Ok deg"
| "count_in_degree (c # cs) deg =
     bindO (count_children (children_iter (children c)) deg) (count_in_degree cs)"

text \<open>
  The depth-first search. A call marks its node before it recurses, so a chain of calls is at most
  one longer than the array; the fuel is the depth of the stack.
\<close>

fun detect_loop :: "(nat \<Rightarrow> bool list \<Rightarrow> (ValidationError, bool list) outcome) \<Rightarrow> nat list \<Rightarrow>
    bool list \<Rightarrow> (ValidationError, bool list) outcome" where
  "detect_loop rec [] seen = Ok seen"
| "detect_loop rec (i # is) seen = bindO (rec i seen) (detect_loop rec is)"

fun detect_invalid_subtree ::
  "nat \<Rightarrow> State \<Rightarrow> ContextType \<Rightarrow> nat \<Rightarrow> bool list \<Rightarrow> (ValidationError, bool list) outcome" where
  "detect_invalid_subtree 0 st ty curr_idx seen = Panic"
| "detect_invalid_subtree (Suc n) st ty curr_idx seen =
     bindO (ok_or (get_at (contexts st) curr_idx) BadContextState) (\<lambda>c.
     bindO (ok_or (get_at seen curr_idx) BadContextState) (\<lambda>current_seen.
       if MAX_HANDLES \<le> curr_idx \<or> state c = Inactive \<or> current_seen then Err CyclesInTree
       else if context_type c \<noteq> ty then Err MixedContextTypeConnectedComponents
       else detect_loop (detect_invalid_subtree n st ty) (children_iter (children c))
              (seen[curr_idx := True])))"

fun search_roots ::
  "State \<Rightarrow> (nat \<times> Context \<times> nat) list \<Rightarrow> bool list \<Rightarrow> nat \<Rightarrow> (ValidationError, bool list \<times> nat) outcome" where
  "search_roots st [] seen normal = Ok (seen, normal)"
| "search_roots st ((i, c, deg) # rest) seen normal =
     (if deg = 0 \<and> state c \<noteq> Inactive
      then bindO (detect_invalid_subtree (Suc MAX_HANDLES) st (context_type c) i seen) (\<lambda>seen'.
             search_roots st rest seen' (if context_type c = Normal then normal + 1 else normal))
      else search_roots st rest seen normal)"

definition validate_context_forest :: "State \<Rightarrow> (ValidationError, unit) outcome" where
  "validate_context_forest st =
     bindO (count_in_degree (contexts st) (replicate MAX_HANDLES 0)) (\<lambda>in_degree.
     bindO (each (\<lambda>n. guard_valid (1 < n) ChildWithMultipleParents) in_degree) (\<lambda>_.
     bindO (search_roots st (List.enumerate 0 (zip (contexts st) in_degree)) (replicate MAX_HANDLES False) 0)
       (\<lambda>(seen, normal_tree_count).
     bindO (guard_valid (1 < normal_tree_count) MultipleNormalConnectedComponents) (\<lambda>_.
     each (\<lambda>(c, visited). guard_valid (state c \<noteq> Inactive \<and> \<not> visited) CyclesInTree)
       (zip (contexts st) seen)))))"

definition validate_dpe :: "State \<Rightarrow> (DpeErrorCode, unit) outcome" where
  "validate_dpe st =
     bindO (map_err Validation (validate_dpe_state st)) (\<lambda>_.
       map_err Validation (validate_context_forest st))"

section \<open>The checks of single contexts as conditions\<close>

lemma guard_valid_Ok [simp]: "guard_valid b e = Ok x \<longleftrightarrow> \<not> b"
  by (simp add: guard_valid_def)

lemma bindO_unit_Ok: "bindO (m :: ('e, unit) outcome) f = Ok y \<longleftrightarrow> m = Ok () \<and> f () = Ok y"
  by (cases m) simp_all

lemma each_Ok: "each f xs = Ok () \<longleftrightarrow> (\<forall>x \<in> set xs. f x = Ok ())"
  by (induction xs) (auto simp: bindO_unit_Ok)

lemma check_support_Ok [simp]: "check_support st c = Ok () \<longleftrightarrow> supported (support st) c"
  by (cases "context_type c") (auto simp: check_support_def bindO_unit_Ok supported_def)

definition links_ok :: "Context list \<Rightarrow> nat \<Rightarrow> bool" where
  "links_ok ctxs i \<longleftrightarrow> linked ctxs i \<and>
     (\<forall>j \<in> kids (children (ctxs ! i)). state (ctxs ! j) \<noteq> Inactive \<and> unat (parent_idx (ctxs ! j)) = i)"

lemma check_children_Ok:
  "check_children ctxs i js = Ok () \<longleftrightarrow> (\<forall>j \<in> set js. j < length ctxs \<and>
     state (ctxs ! j) \<noteq> Inactive \<and> unat (parent_idx (ctxs ! j)) = i)"
proof (induction js)
  case (Cons j js)
  then show ?case by (cases "j < length ctxs") (auto simp: get_at_def)
qed simp

lemma flags_iter_kids: "set (flags_iter w 64) = kids w"
  using set_children_iter [of w] by (simp add: children_iter_def)

lemma check_children_and_parent_Ok:
  assumes "length (contexts st) = 64" "i < 64"
  shows "check_children_and_parent st i = Ok () \<longleftrightarrow> links_ok (contexts st) i"
proof -
  let ?c = "contexts st ! i"
  have ch: "check_children (contexts st) i (flags_iter (children ?c) 64) = Ok () \<longleftrightarrow>
      (\<forall>j \<in> kids (children ?c). state (contexts st ! j) \<noteq> Inactive \<and> unat (parent_idx (contexts st ! j)) = i)"
    using assms(1) by (auto simp: check_children_Ok flags_iter_kids kids_lt)
  show ?thesis
  proof (cases "parent_idx ?c = ROOT_INDEX")
    case True
    with ch assms show ?thesis
      by (simp add: check_children_and_parent_def links_ok_def linked_def guard_valid_def)
  next
    case False
    with ch assms show ?thesis
      by (cases "unat (parent_idx ?c) < 64")
        (simp_all add: check_children_and_parent_def links_ok_def linked_def guard_valid_def
          children_has_child_iff)
  qed
qed

definition context_valid :: "State \<Rightarrow> nat \<Rightarrow> bool" where
  "context_valid st i \<longleftrightarrow> (let c = contexts st ! i in
     supported (support st) c \<and> locality c = tci_locality (tci c) \<and>
     (state c = Inactive \<longrightarrow> parent_idx c = ROOT_INDEX \<and> children c = children_empty \<and>
        tci c = TciNodeData_new \<and> \<not> uses_internal_input_dice c \<and> \<not> allow_x509 c \<and>
        \<not> uses_internal_input_info c) \<and>
     (state c \<noteq> Inactive \<longrightarrow> links_ok (contexts st) i) \<and>
     (state c = Active \<and> context_type c = Normal \<longrightarrow> has_initialized st) \<and>
     (state c = Retired \<longrightarrow> children c \<noteq> children_empty))"

lemma check_context_Ok:
  assumes "length (contexts st) = 64" "i < 64"
  shows "check_context st (i, contexts st ! i) = Ok () \<longleftrightarrow> context_valid st i"
proof -
  have k: "kids cs = {} \<longleftrightarrow> cs = children_empty" for cs using kids_eq_iff [of cs children_empty] by simp
  have f: "finite (kids cs)" for cs by (simp add: kids_def finite_bits)
  have t: "context_type c = Normal \<or> context_type c = Simulation" for c
    by (cases "context_type c") auto
  show ?thesis
    using check_children_and_parent_Ok [OF assms] t
    by (cases "state (contexts st ! i)")
      (auto simp: check_context_def bindO_unit_Ok context_valid_def Let_def validate_inactive_context_def
        children_has_children_iff k f split: if_splits)
qed

lemma check_contexts_Ok:
  assumes "length (contexts st) = 64"
  shows "each (check_context st) (List.enumerate 0 (contexts st)) = Ok () \<longleftrightarrow> (\<forall>i < 64. context_valid st i)"
  using assms check_context_Ok [OF assms] by (auto simp: each_Ok in_set_enumerate_eq)

section \<open>The handles per locality as a condition\<close>

definition active_in :: "u32 \<Rightarrow> bool \<Rightarrow> Context \<Rightarrow> bool" where
  "active_in loc dflt c \<longleftrightarrow> locality c = loc \<and> state c = Active \<and> (handle c = handle_default) = dflt"

lemma count_handles_Ok:
  "d \<le> 1 \<Longrightarrow> d = 0 \<or> n = 0 \<Longrightarrow> count_handles loc cs d n = Ok () \<longleftrightarrow>
     (let D = d + length (filter (active_in loc True) cs); N = n + length (filter (active_in loc False) cs)
      in D \<le> 1 \<and> (D = 0 \<or> N = 0))"
proof (induction cs arbitrary: d n)
  case (Cons c cs)
  show ?case
  proof (cases "locality c = loc \<and> state c = Active")
    case True
    note c = True
    show ?thesis
    proof (cases "handle c = handle_default")
      case True
      with c Cons.prems Cons.IH [of "Suc d" n] show ?thesis by (auto simp: active_in_def Let_def)
    next
      case False
      with c Cons.prems Cons.IH [of d "Suc n"] show ?thesis by (auto simp: active_in_def Let_def)
    qed
  next
    case False
    then have "\<not> active_in loc b c" for b by (auto simp: active_in_def)
    moreover have "count_handles loc (c # cs) d n = count_handles loc cs d n"
      using False Cons.prems by (auto simp: Let_def)
    ultimately show ?thesis using Cons by simp
  qed
qed (auto simp: Let_def)

lemma check_handles_Ok:
  "check_context_handles_per_locality st = Ok () \<longleftrightarrow> default_alone st"
proof -
  let ?n = "length (contexts st)"
  let ?S = "\<lambda>loc b. {k. k < ?n \<and> active_in loc b (contexts st ! k)}"
  have fin: "finite (?S loc b)" for loc b by simp
  have iff: "check_context_handles_per_locality st = Ok () \<longleftrightarrow> (\<forall>i < ?n.
      let l = locality (contexts st ! i) in card (?S l True) \<le> 1 \<and> (?S l True = {} \<or> ?S l False = {}))"
  proof -
    have e: "count_handles l (contexts st) 0 0 = Ok () \<longleftrightarrow>
        card (?S l True) \<le> 1 \<and> (?S l True = {} \<or> ?S l False = {})" for l
      by (simp only: count_handles_Ok length_filter_conv_card Let_def add_0 card_0_eq [OF fin] zero_le
          simp_thms)
    show ?thesis
      by (simp only: check_context_handles_per_locality_def each_Ok e set_map ball_simps Let_def
          all_set_conv_all_nth)
  qed
  show ?thesis
  proof
    assume ok: "check_context_handles_per_locality st = Ok ()"
    show "default_alone st"
      unfolding default_alone_def
    proof (intro allI impI, elim conjE)
      fix i j
      assume a: "is_active st i" "is_active st j" "locality (contexts st ! i) = locality (contexts st ! j)"
        "handle (contexts st ! i) = handle_default"
      let ?l = "locality (contexts st ! i)"
      have i: "i \<in> ?S ?l True" using a by (simp add: is_active_def active_in_def)
      have "i < ?n" using a by (simp add: is_active_def)
      with ok iff have one: "card (?S ?l True) \<le> 1" and none: "?S ?l True = {} \<or> ?S ?l False = {}"
        unfolding Let_def by blast+
      from none i have "j \<notin> ?S ?l False" by blast
      then have j: "j \<in> ?S ?l True" using a by (auto simp: is_active_def active_in_def)
      have "card {i, j} \<le> card (?S ?l True)" by (rule card_mono) (use i j fin in blast)+
      with one show "j = i" by (cases "j = i") simp_all
    qed
  next
    assume alone: "default_alone st"
    have "card (?S l True) \<le> 1 \<and> (?S l True = {} \<or> ?S l False = {})" for l
    proof (cases "?S l True = {}")
      case False
      then obtain i where i: "i < ?n" "active_in l True (contexts st ! i)" by blast
      then have one: "j = i" if "j \<in> ?S l b" for j b
        using that by (intro default_aloneD [OF alone]) (auto simp: is_active_def active_in_def)
      have "?S l True = {i}" using one i by blast
      moreover have "?S l False = {}" using one [of _ False] i by (auto simp: active_in_def)
      ultimately show ?thesis by simp
    next
      case True
      then have "card (?S l True) = 0" by (simp only: card.empty)
      with True show ?thesis by (simp only: zero_le simp_thms)
    qed
    then show "check_context_handles_per_locality st = Ok ()" unfolding iff Let_def by blast
  qed
qed

section \<open>In-degrees\<close>

lemma count_children_Ok:
  "distinct js \<Longrightarrow> \<forall>j \<in> set js. j < length deg \<Longrightarrow>
     \<exists>deg'. count_children js deg = Ok deg' \<and> length deg' = length deg \<and>
       (\<forall>k < length deg. deg' ! k = deg ! k + (if k \<in> set js then 1 else 0))"
proof (induction js arbitrary: deg)
  case (Cons j js)
  from Cons.IH [of "deg[j := deg ! j + 1]"] Cons.prems obtain deg'
    where "count_children js (deg[j := deg ! j + 1]) = Ok deg'" "length deg' = length deg"
      "\<forall>k < length deg. deg' ! k = deg[j := deg ! j + 1] ! k + (if k \<in> set js then 1 else 0)" by auto
  with Cons.prems show ?case by (intro exI [of _ deg']) (auto simp: nth_list_update)
qed simp

lemma distinct_children_iter: "distinct (children_iter c)"
  by (simp add: children_iter_eq)

lemma count_in_degree_Ok:
  "length deg = 64 \<Longrightarrow> \<exists>deg'. count_in_degree cs deg = Ok deg' \<and> length deg' = 64 \<and>
     (\<forall>k < 64. deg' ! k = deg ! k + length (filter (\<lambda>c. k \<in> kids (children c)) cs))"
proof (induction cs arbitrary: deg)
  case (Cons c cs)
  obtain d1 where d1: "count_children (children_iter (children c)) deg = Ok d1" "length d1 = 64"
    "\<forall>k < 64. d1 ! k = deg ! k + (if k \<in> kids (children c) then 1 else 0)"
    using count_children_Ok [OF distinct_children_iter, of "children c" deg] Cons.prems
    by (auto dest: kids_lt)
  from Cons.IH [OF d1(2)] d1 show ?case by auto
qed simp

definition in_degree :: "Context list \<Rightarrow> nat \<Rightarrow> nat" where
  "in_degree ctxs k = card {i. i < length ctxs \<and> k \<in> kids (children (ctxs ! i))}"

lemma count_in_degree_zero:
  obtains deg where "count_in_degree ctxs (replicate MAX_HANDLES 0) = Ok deg" "length deg = 64"
    "\<And>k. k < 64 \<Longrightarrow> deg ! k = in_degree ctxs k"
  using count_in_degree_Ok [of "replicate MAX_HANDLES 0" ctxs]
  by (auto simp: in_degree_def length_filter_conv_card)

section \<open>What a successful search has seen\<close>

definition seen_set :: "bool list \<Rightarrow> nat set" where
  "seen_set seen = {k. k < 64 \<and> seen ! k}"

lemma seen_set_update: "length seen = 64 \<Longrightarrow> i < 64 \<Longrightarrow> seen_set (seen[i := True]) = insert i (seen_set seen)"
  by (auto simp: seen_set_def nth_list_update)

lemma finite_seen [simp]: "finite (seen_set seen)"
  by (simp add: seen_set_def)

text \<open>The nodes a search from the nodes \<open>is\<close> adds to those seen before.\<close>

definition explored :: "Context list \<Rightarrow> ContextType \<Rightarrow> nat list \<Rightarrow> nat set \<Rightarrow> nat set \<Rightarrow> bool" where
  "explored ctxs ty is S S' \<longleftrightarrow> S \<subseteq> S' \<and> set is \<subseteq> S' - S \<and> S' \<subseteq> {..<64} \<and>
     (\<forall>x \<in> S' - S. state (ctxs ! x) \<noteq> Inactive \<and> context_type (ctxs ! x) = ty \<and>
        kids (children (ctxs ! x)) \<subseteq> S' - S \<and> (\<exists>i \<in> set is. (i, x) \<in> (child_rel ctxs)\<^sup>*))"

lemma explored_node:
  assumes e: "explored ctxs ty is S S'" and x: "x \<in> S' - S"
  shows "state (ctxs ! x) \<noteq> Inactive \<and> (\<exists>i \<in> set is. (i, x) \<in> (child_rel ctxs)\<^sup>*) \<and>
    (\<forall>y \<in> kids (children (ctxs ! x)). context_type (ctxs ! y) = context_type (ctxs ! x))"
proof -
  have all: "state (ctxs ! z) \<noteq> Inactive \<and> context_type (ctxs ! z) = ty \<and>
      kids (children (ctxs ! z)) \<subseteq> S' - S \<and> (\<exists>i \<in> set is. (i, z) \<in> (child_rel ctxs)\<^sup>*)"
    if "z \<in> S' - S" for z
    using e that unfolding explored_def by blast
  have "context_type (ctxs ! y) = ty" if "y \<in> kids (children (ctxs ! x))" for y
    using all [OF x] all [of y] that by blast
  with all [OF x] show ?thesis by simp
qed

lemma explored_loop:
  assumes rec: "\<And>i seen seen'. i \<in> set is \<Longrightarrow> length seen = 64 \<Longrightarrow> rec i seen = Ok seen' \<Longrightarrow>
      length seen' = 64 \<and> explored ctxs ty [i] (seen_set seen) (seen_set seen')"
  shows "length seen = 64 \<Longrightarrow> detect_loop rec is seen = Ok seen' \<Longrightarrow>
    length seen' = 64 \<and> explored ctxs ty is (seen_set seen) (seen_set seen')"
  using rec
proof (induction "is" arbitrary: seen)
  case Nil
  then show ?case by (auto simp: explored_def seen_set_def)
next
  case (Cons i "is")
  from Cons.prems(2) obtain mid where mid: "rec i seen = Ok mid" "detect_loop rec is mid = Ok seen'"
    by (auto simp: bindO_Ok_iff)
  have "i \<in> set (i # is)" by simp
  note 1 = Cons.prems(3) [OF this Cons.prems(1) mid(1), THEN conjunct1]
    Cons.prems(3) [OF this Cons.prems(1) mid(1), THEN conjunct2]
  have 12: "length seen' = 64 \<and> explored ctxs ty is (seen_set mid) (seen_set seen')"
    by (rule Cons.IH [OF 1(1) mid(2)], rule Cons.prems(3)) (simp_all only: list.set_intros)
  note 2 = 12 [THEN conjunct1] 12 [THEN conjunct2]
  let ?A = "seen_set seen" and ?B = "seen_set mid" and ?C = "seen_set seen'"
  have sub: "?A \<subseteq> ?B" "?B \<subseteq> ?C" using 1 2 by (simp_all add: explored_def)
  have "state (ctxs ! x) \<noteq> Inactive \<and> context_type (ctxs ! x) = ty \<and>
      kids (children (ctxs ! x)) \<subseteq> ?C - ?A \<and> (\<exists>k \<in> set (i # is). (k, x) \<in> (child_rel ctxs)\<^sup>*)"
    if "x \<in> ?C - ?A" for x
  proof (cases "x \<in> ?B")
    case True
    with that have "x \<in> ?B - ?A" by blast
    with 1(2) have "state (ctxs ! x) \<noteq> Inactive \<and> context_type (ctxs ! x) = ty \<and>
        kids (children (ctxs ! x)) \<subseteq> ?B - ?A \<and> (i, x) \<in> (child_rel ctxs)\<^sup>*" by (simp add: explored_def)
    then show ?thesis using sub by auto
  next
    case False
    with that have "x \<in> ?C - ?B" by blast
    with 2(2) sub show ?thesis unfolding explored_def by (meson Diff_mono list.set_intros(2) order_refl subset_trans)
  qed
  moreover have "set (i # is) \<subseteq> ?C - ?A" "?C \<subseteq> {..<64}" using 1(2) 2(2) sub by (auto simp: explored_def)
  ultimately show ?case using 2(1) sub by (simp add: explored_def)
qed

lemma explored_subtree:
  assumes "length (contexts st) = 64"
  shows "length seen = 64 \<Longrightarrow> detect_invalid_subtree n st ty i seen = Ok seen' \<Longrightarrow>
    length seen' = 64 \<and> explored (contexts st) ty [i] (seen_set seen) (seen_set seen')"
proof (induction n arbitrary: i seen seen')
  case (Suc n)
  let ?ctxs = "contexts st"
  let ?c = "?ctxs ! i"
  from Suc.prems assms have i: "i < 64" "state ?c \<noteq> Inactive" "\<not> seen ! i" "context_type ?c = ty"
    and loop: "detect_loop (detect_invalid_subtree n st ty) (children_iter (children ?c)) (seen[i := True]) = Ok seen'"
    by (auto simp: bindO_Ok_iff get_at_eq_Some_iff split: if_splits)
  have "length seen' = 64 \<and> explored ?ctxs ty (children_iter (children ?c))
      (seen_set (seen[i := True])) (seen_set seen')"
    by (rule explored_loop [OF _ _ loop]) (use Suc in auto)
  then have len: "length seen' = 64" and e: "explored ?ctxs ty (children_iter (children ?c))
      (insert i (seen_set seen)) (seen_set seen')"
    using Suc.prems(1) i(1) by (simp_all add: seen_set_update)
  let ?A = "seen_set seen" and ?C = "seen_set seen'"
  have ia: "i \<notin> ?A" "i \<in> ?C" "?A \<subseteq> ?C" using i e by (auto simp: seen_set_def explored_def)
  have edge: "(i, j) \<in> child_rel ?ctxs" if "j \<in> kids (children ?c)" for j
    using that i(1) assms by (simp add: child_rel_def)
  have "state (?ctxs ! x) \<noteq> Inactive \<and> context_type (?ctxs ! x) = ty \<and>
      kids (children (?ctxs ! x)) \<subseteq> ?C - ?A \<and> (i, x) \<in> (child_rel ?ctxs)\<^sup>*" if "x \<in> ?C - ?A" for x
  proof (cases "x = i")
    case True
    with i e show ?thesis by (auto simp: explored_def)
  next
    case False
    with that have "x \<in> ?C - insert i ?A" by blast
    with e have x: "state (?ctxs ! x) \<noteq> Inactive" "context_type (?ctxs ! x) = ty"
      "kids (children (?ctxs ! x)) \<subseteq> ?C - insert i ?A"
      "\<exists>k \<in> kids (children ?c). (k, x) \<in> (child_rel ?ctxs)\<^sup>*"
      by (auto simp: explored_def)
    then show ?thesis using edge by (blast intro: converse_rtrancl_into_rtrancl)
  qed
  with e ia len show ?case by (simp add: explored_def)
qed simp

section \<open>When the search succeeds\<close>

definition tree :: "Context list \<Rightarrow> nat \<Rightarrow> nat set" where
  "tree ctxs i = (child_rel ctxs)\<^sup>* `` {i}"

lemma tree_root [simp]: "i \<in> tree ctxs i"
  by (simp add: tree_def)

lemma child_rel_live:
  assumes "forest ctxs" "(i, j) \<in> child_rel ctxs"
  shows "i < 64" "j < 64" "state (ctxs ! i) \<noteq> Inactive" "state (ctxs ! j) \<noteq> Inactive"
    "parent_idx (ctxs ! j) = of_nat i"
  using assms forest_child [OF assms(1), of i j] forest_parent_live [OF assms(1), of i]
  by (auto simp: child_rel_def)

text \<open>Going from parent to child makes the path to the root longer: the relation has no cycle.\<close>

lemma trancl_path:
  assumes f: "forest ctxs" and p: "up_path ctxs (i # is)"
  shows "(i, j) \<in> (child_rel ctxs)\<^sup>+ \<Longrightarrow> \<exists>js. up_path ctxs (j # js @ i # is)"
proof (induction rule: trancl_induct)
  case (base j)
  then have "up_path ctxs (j # i # is)"
    by (intro up_path_child [OF f p]) (simp add: child_rel_def)
  then show ?case by (intro exI [of _ "[]"]) (simp only: append_Nil)
next
  case (step j k)
  from step.IH obtain js where "up_path ctxs (j # js @ i # is)" by blast
  then have "up_path ctxs (k # j # js @ i # is)"
    using step.hyps(2) by (intro up_path_child [OF f]) (auto simp: child_rel_def)
  then show ?case by (intro exI [of _ "j # js"]) (simp only: append_Cons)
qed

lemma child_rel_irrefl:
  assumes "forest ctxs"
  shows "(i, i) \<notin> (child_rel ctxs)\<^sup>+"
proof
  assume c: "(i, i) \<in> (child_rel ctxs)\<^sup>+"
  then obtain k where "(i, k) \<in> child_rel ctxs" by (meson tranclD)
  from child_rel_live [OF assms this] obtain "is" where "up_path ctxs (i # is)"
    using forest_up_path [OF assms] by metis
  from trancl_path [OF assms this c] obtain js where "up_path ctxs (i # js @ i # is)" by blast
  with up_path_distinct [OF this] show False by simp
qed

lemma one_parent:
  "forest ctxs \<Longrightarrow> (i, j) \<in> child_rel ctxs \<Longrightarrow> (k, j) \<in> child_rel ctxs \<Longrightarrow> i = k"
  using child_rel_live [of ctxs i j] child_rel_live [of ctxs k j] small_u8_inject by metis

lemma ancestors_chain:
  assumes "forest ctxs" "(i, x) \<in> (child_rel ctxs)\<^sup>*"
  shows "(j, x) \<in> (child_rel ctxs)\<^sup>* \<Longrightarrow> (i, j) \<in> (child_rel ctxs)\<^sup>* \<or> (j, i) \<in> (child_rel ctxs)\<^sup>*"
  using assms(2)
proof (induction rule: rtrancl_induct)
  case (step y z)
  show ?case
  proof (cases "j = z")
    case True
    with step show ?thesis by (blast intro: rtrancl_into_rtrancl)
  next
    case False
    with step.prems obtain y' where "(j, y') \<in> (child_rel ctxs)\<^sup>*" "(y', z) \<in> child_rel ctxs"
      by (meson rtranclE)
    with one_parent [OF assms(1) step.hyps(2)] step.IH show ?thesis by blast
  qed
qed blast

lemma trees_of_siblings:
  assumes f: "forest ctxs" and j: "(i, j) \<in> child_rel ctxs" "(i, k) \<in> child_rel ctxs" "j \<noteq> k"
  shows "tree ctxs j \<inter> tree ctxs k = {}"
proof -
  have no: False if ab: "(i, a) \<in> child_rel ctxs" "(i, b) \<in> child_rel ctxs" "a \<noteq> b"
    "(a, b) \<in> (child_rel ctxs)\<^sup>*" for a b
  proof -
    from ab(3,4) obtain m where "(a, m) \<in> (child_rel ctxs)\<^sup>*" "(m, b) \<in> child_rel ctxs"
      by (meson rtranclE)
    with one_parent [OF f ab(2)] ab(1) have "(i, i) \<in> (child_rel ctxs)\<^sup>+"
      by (metis rtrancl_into_trancl2)
    with child_rel_irrefl [OF f] show False by simp
  qed
  show ?thesis using ancestors_chain [OF f] no [OF j] no [OF j(2,1)] j(3) by (auto simp: tree_def)
qed

lemma trees_of_roots:
  assumes f: "forest ctxs" and i: "parent_idx (ctxs ! i) = ROOT_INDEX" "parent_idx (ctxs ! k) = ROOT_INDEX" "i \<noteq> k"
  shows "tree ctxs i \<inter> tree ctxs k = {}"
proof -
  have no: "(a, b) \<notin> (child_rel ctxs)\<^sup>*" if "parent_idx (ctxs ! b) = ROOT_INDEX" "a \<noteq> b" for a b
  proof
    assume "(a, b) \<in> (child_rel ctxs)\<^sup>*"
    with that(2) obtain m where "(m, b) \<in> child_rel ctxs" by (meson rtranclE)
    from child_rel_live [OF f this] that(1) show False using small_u8_not_root [of m] by metis
  qed
  show ?thesis
    using ancestors_chain [OF f, of i _ k] no [OF i(1), of k] no [OF i(2,3)] i(3) by (auto simp: tree_def)
qed

lemma tree_unfold: "i < length ctxs \<Longrightarrow> tree ctxs i = insert i (\<Union>j \<in> kids (children (ctxs ! i)). tree ctxs j)"
  by (auto simp: tree_def child_rel_def elim: converse_rtranclE intro: converse_rtrancl_into_rtrancl)

lemma search_loop_complete:
  assumes "\<And>j seen. j \<in> set js \<Longrightarrow> length seen = 64 \<Longrightarrow> T j \<inter> seen_set seen = {} \<Longrightarrow>
      \<exists>seen'. rec j seen = Ok seen' \<and> length seen' = 64 \<and> seen_set seen' = seen_set seen \<union> T j"
    and "distinct js" "\<And>j k. j \<in> set js \<Longrightarrow> k \<in> set js \<Longrightarrow> j \<noteq> k \<Longrightarrow> T j \<inter> T k = {}"
    and "length seen = 64" "(\<Union>j \<in> set js. T j) \<inter> seen_set seen = {}"
  shows "\<exists>seen'. detect_loop rec js seen = Ok seen' \<and> length seen' = 64 \<and>
    seen_set seen' = seen_set seen \<union> (\<Union>j \<in> set js. T j)"
  using assms
proof (induction js arbitrary: seen)
  case (Cons j js)
  have "\<exists>seen'. rec j seen = Ok seen' \<and> length seen' = 64 \<and> seen_set seen' = seen_set seen \<union> T j"
    using Cons.prems(4,5) by (intro Cons.prems(1)) auto
  then obtain mid where mid: "rec j seen = Ok mid" "length mid = 64" "seen_set mid = seen_set seen \<union> T j"
    by blast
  have dj: "T j \<inter> T k = {}" if "k \<in> set js" for k
    using Cons.prems(2) that by (intro Cons.prems(3)) auto
  have "\<exists>seen'. detect_loop rec js mid = Ok seen' \<and> length seen' = 64 \<and>
      seen_set seen' = seen_set mid \<union> (\<Union>k \<in> set js. T k)"
  proof (rule Cons.IH)
    show "\<exists>seen'. rec k s = Ok seen' \<and> length seen' = 64 \<and> seen_set seen' = seen_set s \<union> T k"
      if "k \<in> set js" "length s = 64" "T k \<inter> seen_set s = {}" for k s
      using that by (intro Cons.prems(1)) simp_all
    show "distinct js" using Cons.prems(2) by simp
    show "T k \<inter> T m = {}" if "k \<in> set js" "m \<in> set js" "k \<noteq> m" for k m
      using that by (intro Cons.prems(3)) simp_all
    show "length mid = 64" by (rule mid(2))
    show "(\<Union>k \<in> set js. T k) \<inter> seen_set mid = {}" using Cons.prems(5) mid(3) dj by fastforce
  qed
  with mid show ?case by auto
qed simp

definition uniform_types :: "Context list \<Rightarrow> bool" where
  "uniform_types ctxs \<longleftrightarrow>
     (\<forall>i < 64. \<forall>j \<in> kids (children (ctxs ! i)). context_type (ctxs ! j) = context_type (ctxs ! i))"

lemma search_complete:
  assumes f: "forest (contexts st)" and u: "uniform_types (contexts st)"
  shows "up_path (contexts st) (i # is) \<Longrightarrow> 65 \<le> n + length (i # is) \<Longrightarrow> length seen = 64 \<Longrightarrow>
    tree (contexts st) i \<inter> seen_set seen = {} \<Longrightarrow> ty = context_type (contexts st ! i) \<Longrightarrow>
    \<exists>seen'. detect_invalid_subtree n st ty i seen = Ok seen' \<and> length seen' = 64 \<and>
      seen_set seen' = seen_set seen \<union> tree (contexts st) i"
proof (induction n arbitrary: i "is" seen)
  case 0
  have "length (i # is) \<le> 64" using up_path_length [OF "0.prems"(1)] f by simp
  with "0.prems"(2) show ?case by simp
next
  case (Suc n)
  let ?ctxs = "contexts st"
  let ?c = "?ctxs ! i"
  let ?js = "children_iter (children ?c)"
  have len: "length ?ctxs = 64" using f by simp
  have i: "i < 64" "state ?c \<noteq> Inactive"
    using up_path_live [OF Suc.prems(1), of i] len by (auto simp: live_node_def)
  have "i \<notin> seen_set seen" using Suc.prems(4) tree_root [of i ?ctxs] by blast
  then have unseen: "\<not> seen ! i" using i(1) by (simp add: seen_set_def)
  have edge: "(i, j) \<in> child_rel ?ctxs" if "j \<in> set ?js" for j
    using that i(1) len by (simp add: child_rel_def)
  have out: "i \<notin> tree ?ctxs j" if "j \<in> set ?js" for j
    using child_rel_irrefl [OF f, of i] edge [OF that] by (auto simp: tree_def dest: rtrancl_into_trancl2)
  have tree: "tree ?ctxs i = insert i (\<Union>j \<in> set ?js. tree ?ctxs j)"
    using tree_unfold [of i ?ctxs] i(1) len by simp
  have "\<exists>seen'. detect_loop (detect_invalid_subtree n st ty) ?js (seen[i := True]) = Ok seen' \<and>
      length seen' = 64 \<and>
      seen_set seen' = seen_set (seen[i := True]) \<union> (\<Union>j \<in> set ?js. tree ?ctxs j)"
  proof (rule search_loop_complete)
    fix j s
    assume j: "j \<in> set ?js" and s: "length s = 64" "tree ?ctxs j \<inter> seen_set s = {}"
    have "up_path ?ctxs (j # i # is)" using j by (intro up_path_child [OF f Suc.prems(1)]) simp
    moreover have "ty = context_type (?ctxs ! j)"
      using u i(1) j Suc.prems(5) by (simp add: uniform_types_def)
    ultimately show "\<exists>seen'. detect_invalid_subtree n st ty j s = Ok seen' \<and> length seen' = 64 \<and>
        seen_set seen' = seen_set s \<union> tree ?ctxs j"
      using s Suc.prems(2) by (intro Suc.IH [of j "i # is"]) (simp_all del: up_path.simps)
  next
    show "tree ?ctxs j \<inter> tree ?ctxs k = {}" if "j \<in> set ?js" "k \<in> set ?js" "j \<noteq> k" for j k
      by (rule trees_of_siblings [OF f edge [OF that(1)] edge [OF that(2)] that(3)])
    show "(\<Union>j \<in> set ?js. tree ?ctxs j) \<inter> seen_set (seen[i := True]) = {}"
      using Suc.prems(3,4) i(1) out unfolding tree by (auto simp: seen_set_update)
  qed (use Suc.prems(3) in \<open>simp_all add: distinct_children_iter\<close>)
  then obtain seen' where s: "detect_loop (detect_invalid_subtree n st ty) ?js (seen[i := True]) = Ok seen'"
    "length seen' = 64" "seen_set seen' = seen_set (seen[i := True]) \<union> (\<Union>j \<in> set ?js. tree ?ctxs j)"
    by blast
  have "detect_invalid_subtree (Suc n) st ty i seen = Ok seen'"
    using s(1) i unseen len Suc.prems(3,5) by simp
  moreover have "seen_set seen' = seen_set seen \<union> tree ?ctxs i"
    using s(3) Suc.prems(3) i(1) unfolding tree by (simp add: seen_set_update)
  ultimately show ?case using s(2) by blast
qed

section \<open>The forest as a condition\<close>

definition roots :: "Context list \<Rightarrow> nat \<Rightarrow> bool" where
  "roots ctxs i \<longleftrightarrow> state (ctxs ! i) \<noteq> Inactive \<and> in_degree ctxs i = 0"

definition normal_roots_in :: "Context list \<Rightarrow> nat list \<Rightarrow> nat" where
  "normal_roots_in ctxs is = length (filter (\<lambda>i. roots ctxs i \<and> context_type (ctxs ! i) = Normal) is)"

text \<open>What the search from the roots among the indices \<open>is\<close> has seen when it succeeds.\<close>

lemma search_roots_sound:
  assumes len: "length (contexts st) = 64"
  shows "length seen = 64 \<Longrightarrow> set is \<subseteq> {..<64} \<Longrightarrow>
    search_roots st (map (\<lambda>i. (i, contexts st ! i, in_degree (contexts st) i)) is) seen m = Ok (seen', m') \<Longrightarrow>
    m' = m + normal_roots_in (contexts st) is \<and> length seen' = 64 \<and> seen_set seen \<subseteq> seen_set seen' \<and>
    (\<forall>x \<in> seen_set seen' - seen_set seen. state (contexts st ! x) \<noteq> Inactive \<and>
       (\<exists>r \<in> set is. roots (contexts st) r \<and> (r, x) \<in> (child_rel (contexts st))\<^sup>*) \<and>
       (\<forall>y \<in> kids (children (contexts st ! x)). context_type (contexts st ! y) = context_type (contexts st ! x)))"
proof (induction "is" arbitrary: seen m)
  case (Cons i "is")
  let ?ctxs = "contexts st"
  show ?case
  proof (cases "roots ?ctxs i")
    case True
    then have r: "in_degree ?ctxs i = 0" "state (?ctxs ! i) \<noteq> Inactive" by (simp_all add: roots_def)
    with Cons.prems(3) obtain mid
      where mid: "detect_invalid_subtree (Suc MAX_HANDLES) st (context_type (?ctxs ! i)) i seen = Ok mid"
      and rest: "search_roots st (map (\<lambda>i. (i, ?ctxs ! i, in_degree ?ctxs i)) is) mid
        (if context_type (?ctxs ! i) = Normal then m + 1 else m) = Ok (seen', m')"
      by (auto simp: bindO_Ok_iff simp del: detect_invalid_subtree.simps)
    from explored_subtree [OF len Cons.prems(1) mid]
    have e: "length mid = 64" "explored ?ctxs (context_type (?ctxs ! i)) [i] (seen_set seen) (seen_set mid)"
      by simp_all
    from Cons.IH [OF e(1) _ rest] Cons.prems(2)
    have IH: "m' = (if context_type (?ctxs ! i) = Normal then m + 1 else m) + normal_roots_in ?ctxs is"
      "length seen' = 64" "seen_set mid \<subseteq> seen_set seen'"
      "\<forall>x \<in> seen_set seen' - seen_set mid. state (?ctxs ! x) \<noteq> Inactive \<and>
       (\<exists>r \<in> set is. roots ?ctxs r \<and> (r, x) \<in> (child_rel ?ctxs)\<^sup>*) \<and>
       (\<forall>y \<in> kids (children (?ctxs ! x)). context_type (?ctxs ! y) = context_type (?ctxs ! x))"
      by simp_all
    have new: "state (?ctxs ! x) \<noteq> Inactive \<and> (i, x) \<in> (child_rel ?ctxs)\<^sup>* \<and>
        (\<forall>y \<in> kids (children (?ctxs ! x)). context_type (?ctxs ! y) = context_type (?ctxs ! x))"
      if "x \<in> seen_set mid - seen_set seen" for x
      using explored_node [OF e(2) that] by simp
    have sub: "seen_set seen \<subseteq> seen_set mid" using e(2) by (simp add: explored_def)
    have seen: "state (?ctxs ! x) \<noteq> Inactive \<and>
        (\<exists>r \<in> set (i # is). roots ?ctxs r \<and> (r, x) \<in> (child_rel ?ctxs)\<^sup>*) \<and>
        (\<forall>y \<in> kids (children (?ctxs ! x)). context_type (?ctxs ! y) = context_type (?ctxs ! x))"
      if x: "x \<in> seen_set seen' - seen_set seen" for x
    proof (cases "x \<in> seen_set mid")
      case True
      then have "x \<in> seen_set mid - seen_set seen" using x by blast
      from new [OF this] \<open>roots ?ctxs i\<close> show ?thesis by simp
    next
      case False
      then have "x \<in> seen_set seen' - seen_set mid" using x by blast
      from bspec [OF IH(4) this] show ?thesis by simp
    qed
    have "m' = m + normal_roots_in ?ctxs (i # is)" using IH(1) True by (simp add: normal_roots_in_def)
    moreover have "seen_set seen \<subseteq> seen_set seen'" using sub IH(3) by (rule subset_trans)
    ultimately show ?thesis using seen IH(2) by blast
  next
    case False
    then have "search_roots st (map (\<lambda>i. (i, ?ctxs ! i, in_degree ?ctxs i)) is) seen m = Ok (seen', m')"
      using Cons.prems(3) by (simp add: roots_def split: if_splits)
    from Cons.IH [OF Cons.prems(1) _ this] Cons.prems(2) False show ?thesis
      by (simp add: normal_roots_in_def)
  qed
qed (simp add: normal_roots_in_def)

lemma in_degree_0: "in_degree ctxs i = 0 \<longleftrightarrow> (\<forall>k < length ctxs. i \<notin> kids (children (ctxs ! k)))"
  by (auto simp: in_degree_def)

lemma forest_roots:
  assumes "forest ctxs" "i < 64"
  shows "roots ctxs i \<longleftrightarrow> state (ctxs ! i) \<noteq> Inactive \<and> parent_idx (ctxs ! i) = ROOT_INDEX"
proof (cases "state (ctxs ! i) = Inactive")
  case False
  have "i \<notin> kids (children (ctxs ! k))" if "k < 64" "parent_idx (ctxs ! i) = ROOT_INDEX" for k
    using forest_child [OF assms(1) that(1), of i] small_u8_not_root [OF that(1)] that(2) by metis
  with False forest_linked [OF assms False] assms show ?thesis
    by (auto simp: roots_def in_degree_0 linked_def)
qed (simp add: roots_def)

lemma search_roots_complete:
  assumes f: "forest (contexts st)" and u: "uniform_types (contexts st)"
  shows "length seen = 64 \<Longrightarrow> set is \<subseteq> {..<64} \<Longrightarrow> distinct is \<Longrightarrow>
    (\<And>i. i \<in> set is \<Longrightarrow> roots (contexts st) i \<Longrightarrow> tree (contexts st) i \<inter> seen_set seen = {}) \<Longrightarrow>
    \<exists>seen'. search_roots st (map (\<lambda>i. (i, contexts st ! i, in_degree (contexts st) i)) is) seen m =
        Ok (seen', m + normal_roots_in (contexts st) is) \<and> length seen' = 64 \<and>
      seen_set seen' = seen_set seen \<union> (\<Union>i \<in> {i \<in> set is. roots (contexts st) i}. tree (contexts st) i)"
proof (induction "is" arbitrary: seen m)
  case (Cons i "is")
  let ?ctxs = "contexts st"
  have i: "i < 64" using Cons.prems(2) by simp
  show ?case
  proof (cases "roots ?ctxs i")
    case True
    then have r: "state (?ctxs ! i) \<noteq> Inactive" "in_degree ?ctxs i = 0" by (simp_all add: roots_def)
    obtain as where p: "up_path ?ctxs (i # as)" using forest_up_path [OF f i r(1)] .
    have "\<exists>mid. detect_invalid_subtree (Suc MAX_HANDLES) st (context_type (?ctxs ! i)) i seen = Ok mid \<and>
        length mid = 64 \<and> seen_set mid = seen_set seen \<union> tree ?ctxs i"
      by (rule search_complete [OF f u p _ Cons.prems(1) Cons.prems(4) refl]) (use True in simp_all)
    then obtain mid where mid: "detect_invalid_subtree (Suc MAX_HANDLES) st (context_type (?ctxs ! i)) i seen = Ok mid"
      "length mid = 64" "seen_set mid = seen_set seen \<union> tree ?ctxs i" by blast
    have disj: "tree ?ctxs k \<inter> seen_set mid = {}" if k: "k \<in> set is" "roots ?ctxs k" for k
    proof -
      have "tree ?ctxs k \<inter> tree ?ctxs i = {}"
        using k True Cons.prems(2,3) forest_roots [OF f] by (intro trees_of_roots [OF f]) auto
      moreover have "tree ?ctxs k \<inter> seen_set seen = {}" using Cons.prems(4) [of k] k by simp
      ultimately show ?thesis unfolding mid(3) by blast
    qed
    from Cons.IH [OF mid(2) _ _ disj, of "if context_type (?ctxs ! i) = Normal then m + 1 else m"] Cons.prems(2,3)
    obtain seen' where s: "search_roots st (map (\<lambda>i. (i, ?ctxs ! i, in_degree ?ctxs i)) is) mid
        (if context_type (?ctxs ! i) = Normal then m + 1 else m) =
        Ok (seen', (if context_type (?ctxs ! i) = Normal then m + 1 else m) + normal_roots_in ?ctxs is)"
      "length seen' = 64"
      "seen_set seen' = seen_set mid \<union> (\<Union>i \<in> {i \<in> set is. roots ?ctxs i}. tree ?ctxs i)" by auto
    have "search_roots st (map (\<lambda>i. (i, ?ctxs ! i, in_degree ?ctxs i)) (i # is)) seen m =
        Ok (seen', m + normal_roots_in ?ctxs (i # is))"
      using r mid(1) s(1) True
      by (simp add: normal_roots_in_def del: detect_invalid_subtree.simps)
    moreover have "{k \<in> set (i # is). roots ?ctxs k} = insert i {k \<in> set is. roots ?ctxs k}" using True by auto
    ultimately show ?thesis using s(2,3) mid(3) by (intro exI [of _ seen']) (simp add: Un_assoc)
  next
    case False
    then have n: "search_roots st (map (\<lambda>i. (i, ?ctxs ! i, in_degree ?ctxs i)) (i # is)) seen m =
        search_roots st (map (\<lambda>i. (i, ?ctxs ! i, in_degree ?ctxs i)) is) seen m"
      "normal_roots_in ?ctxs (i # is) = normal_roots_in ?ctxs is"
      by (auto simp: roots_def normal_roots_in_def)
    have "{k \<in> set (i # is). roots ?ctxs k} = {k \<in> set is. roots ?ctxs k}" using False by auto
    with Cons.IH [OF Cons.prems(1), of m] Cons.prems show ?thesis unfolding n by simp
  qed
qed (simp add: normal_roots_in_def)

lemma root_of:
  assumes f: "forest ctxs"
  shows "up_path ctxs (i # is) \<Longrightarrow> \<exists>r < 64. roots ctxs r \<and> i \<in> tree ctxs r"
proof (induction "is" arbitrary: i)
  case Nil
  then have "i < 64" "state (ctxs ! i) \<noteq> Inactive" "parent_idx (ctxs ! i) = ROOT_INDEX"
    using f by (auto simp: live_node_def)
  with forest_roots [OF f] show ?case by (intro exI [of _ i]) simp
next
  case (Cons k ks)
  have len: "length ctxs = 64" using f by simp
  note k = up_path_parent [OF Cons.prems len]
  have i: "i < 64" "state (ctxs ! i) \<noteq> Inactive"
    using up_path_live [OF Cons.prems, of i] len by (auto simp: live_node_def)
  from forest_linked [OF f i] k have "(k, i) \<in> child_rel ctxs" by (auto simp: linked_def child_rel_def len)
  with Cons.IH [of k] k show ?case unfolding tree_def by (blast intro: rtrancl_into_rtrancl)
qed

section \<open>The validator as a condition\<close>

definition valid_state :: "State \<Rightarrow> bool" where
  "valid_state st \<longleftrightarrow> marker st = State_MAGIC \<and> version st = State_VERSION \<and>
     (\<forall>i < 64. context_valid st i) \<and> default_alone st \<and>
     forest (contexts st) \<and> uniform_types (contexts st) \<and> one_normal_tree (contexts st)"

lemma normal_roots_le_1:
  "normal_roots_in ctxs [0..<64] \<le> 1 \<longleftrightarrow> (\<forall>i < 64. \<forall>j < 64. roots ctxs i \<and> roots ctxs j \<and>
     context_type (ctxs ! i) = Normal \<and> context_type (ctxs ! j) = Normal \<longrightarrow> i = j)"
proof -
  let ?R = "{i. i < 64 \<and> roots ctxs i \<and> context_type (ctxs ! i) = Normal}"
  have c: "normal_roots_in ctxs [0..<64] = card ?R"
    unfolding normal_roots_in_def length_filter_conv_card
    by (rule arg_cong [of _ _ card]) auto
  have "card ?R \<le> 1 \<longleftrightarrow> (\<forall>i \<in> ?R. \<forall>j \<in> ?R. i = j)"
    using card_le_Suc0_iff_eq [of ?R] by simp
  then show ?thesis unfolding c by blast
qed

lemma enumerate_zip:
  "length xs = 64 \<Longrightarrow> length ys = 64 \<Longrightarrow>
     List.enumerate 0 (zip xs ys) = map (\<lambda>i. (i, xs ! i, ys ! i)) [0..<64]"
  by (rule nth_equalityI) (simp_all add: nth_enumerate_eq)

lemma in_degree_le_1:
  assumes "forest ctxs"
  shows "in_degree ctxs k \<le> 1"
proof -
  let ?P = "{i. i < length ctxs \<and> k \<in> kids (children (ctxs ! i))}"
  have "i = j" if "i \<in> ?P" "j \<in> ?P" for i j
    using that by (intro one_parent [OF assms, of _ k]) (simp_all add: child_rel_def)
  then have "card ?P \<le> 1" using card_le_Suc0_iff_eq [of ?P] by simp
  then show ?thesis by (simp add: in_degree_def)
qed

text \<open>The forest checks, given that the single contexts are valid.\<close>

lemma validate_forest_iff:
  assumes len: "length (contexts st) = 64"
  shows "validate_context_forest st = Ok () \<longleftrightarrow>
    (\<forall>k < 64. in_degree (contexts st) k \<le> 1) \<and>
    (\<exists>seen m. search_roots st (map (\<lambda>i. (i, contexts st ! i, in_degree (contexts st) i)) [0..<64])
       (replicate 64 False) 0 = Ok (seen, m) \<and> m \<le> 1 \<and>
       (\<forall>k < min 64 (length seen). state (contexts st ! k) \<noteq> Inactive \<longrightarrow> seen ! k))"
proof -
  obtain deg where d: "count_in_degree (contexts st) (replicate MAX_HANDLES 0) = Ok deg" "length deg = 64"
    "\<And>k. k < 64 \<Longrightarrow> deg ! k = in_degree (contexts st) k"
    using count_in_degree_zero by blast
  have deg: "each (\<lambda>n. guard_valid (1 < n) ChildWithMultipleParents) deg = Ok () \<longleftrightarrow>
      (\<forall>k < 64. in_degree (contexts st) k \<le> 1)"
    using d(2,3) by (auto simp: each_Ok all_set_conv_all_nth not_less)
  have enum: "List.enumerate 0 (zip (contexts st) deg) =
      map (\<lambda>i. (i, contexts st ! i, in_degree (contexts st) i)) [0..<64]"
    using enumerate_zip [OF len d(2)] d(3) by simp
  have fin: "each (\<lambda>(c, visited). guard_valid (state c \<noteq> Inactive \<and> \<not> visited) CyclesInTree)
      (zip (contexts st) seen) = Ok () \<longleftrightarrow>
      (\<forall>k < min 64 (length seen). state (contexts st ! k) \<noteq> Inactive \<longrightarrow> seen ! k)" for seen
    by (auto simp: each_Ok all_set_conv_all_nth len)
  show ?thesis
    unfolding validate_context_forest_def d(1) bindO.simps(1) enum bindO_unit_Ok deg
    by (auto simp: bindO_Ok_iff bindO_unit_Ok fin not_less)
qed

lemma forest_from_search:
  assumes len: "length (contexts st) = 64" and v: "\<forall>i < 64. context_valid st i"
    and ok: "validate_context_forest st = Ok ()"
  shows "forest (contexts st)" "uniform_types (contexts st)" "one_normal_tree (contexts st)"
proof -
  let ?ctxs = "contexts st"
  from ok [unfolded validate_forest_iff [OF len]] obtain seen m
    where s: "search_roots st (map (\<lambda>i. (i, ?ctxs ! i, in_degree ?ctxs i)) [0..<64]) (replicate 64 False) 0 = Ok (seen, m)"
      "m \<le> 1" "\<forall>k < min 64 (length seen). state (?ctxs ! k) \<noteq> Inactive \<longrightarrow> seen ! k" by blast
  have e0: "seen_set (replicate 64 False) = {}" by (auto simp: seen_set_def)
  have le: "set [0..<64] \<subseteq> {..<64 :: nat}" by auto
  note sound = search_roots_sound [OF len _ le s(1), unfolded e0, simplified]
  have m: "m = normal_roots_in ?ctxs [0..<64]" and l: "length seen = 64" using sound by simp_all
  have all: "k \<in> seen_set seen" if "k < 64" "state (?ctxs ! k) \<noteq> Inactive" for k
    using s(3) that l by (simp add: seen_set_def)
  have live: "links_ok ?ctxs i" if "i < 64" "state (?ctxs ! i) \<noteq> Inactive" for i
    using v that by (simp add: context_valid_def Let_def)
  have blank: "blank_links (?ctxs ! i)" if "i < 64" "state (?ctxs ! i) = Inactive" for i
    using v that by (simp add: context_valid_def Let_def blank_links_def)
  have kid: "j < 64 \<and> state (?ctxs ! i) \<noteq> Inactive \<and> state (?ctxs ! j) \<noteq> Inactive \<and> unat (parent_idx (?ctxs ! j)) = i"
    if "i < 64" "j \<in> kids (children (?ctxs ! i))" for i j
  proof (cases "state (?ctxs ! i) = Inactive")
    case True
    with blank [OF that(1)] that(2) show ?thesis by (simp add: blank_links_def)
  next
    case False
    with live [OF that(1)] that(2) show ?thesis by (auto simp: links_ok_def kids_lt)
  qed
  have root: "parent_idx (?ctxs ! r) = ROOT_INDEX" if "r < 64" "roots ?ctxs r" for r
    using live [OF that(1)] that(2) by (auto simp: roots_def in_degree_0 len links_ok_def linked_def)
  have path: "\<exists>ks. up_path ?ctxs (x # ks)" if "(r, x) \<in> (child_rel ?ctxs)\<^sup>*" "r < 64" "roots ?ctxs r" for r x
    using that(1)
  proof (induction rule: rtrancl_induct)
    case base
    have "up_path ?ctxs [r]"
      using root [OF that(2,3)] that(2,3) len by (simp add: live_node_def roots_def valid_parent_idx_def)
    then show ?case by blast
  next
    case (step y z)
    then obtain ks where ks: "up_path ?ctxs (y # ks)" by blast
    from step.hyps(2) len have y: "y < 64" "z \<in> kids (children (?ctxs ! y))" by (auto simp: child_rel_def)
    note z = kid [OF y]
    have "live_node ?ctxs z" using z y(1) len by (simp add: live_node_def valid_parent_idx_def word_le_nat_alt)
    moreover have "parent_idx (?ctxs ! z) \<noteq> ROOT_INDEX" using z y(1) by (auto simp: ROOT_INDEX_def)
    ultimately have "up_path ?ctxs (z # y # ks)" using ks z by simp
    then show ?case by blast
  qed
  show "forest ?ctxs"
  proof (rule forestI)
    fix i j assume ij: "i < 64" "j \<in> kids (children (?ctxs ! i))"
    from kid [OF ij] ij(1) show "state (?ctxs ! j) \<noteq> Inactive \<and> parent_idx (?ctxs ! j) = of_nat i"
      by (simp add: word_unat_eq_iff)
  next
    fix i assume i: "i < 64" "state (?ctxs ! i) \<noteq> Inactive"
    show "linked ?ctxs i" using live [OF i] by (simp add: links_ok_def)
    from all [OF i] sound obtain r where "r < 64" "roots ?ctxs r" "(r, i) \<in> (child_rel ?ctxs)\<^sup>*" by auto
    with path show "\<exists>is. up_path ?ctxs is \<and> hd is = i" by (metis list.sel(1))
  qed (use len blank in simp_all)
  show "uniform_types ?ctxs"
    unfolding uniform_types_def
  proof (intro allI impI ballI)
    fix i j :: nat assume i: "i < 64" and j: "j \<in> kids (children (?ctxs ! i))"
    from all [OF i] kid [OF i j] have "i \<in> seen_set seen" by blast
    with sound j show "context_type (?ctxs ! j) = context_type (?ctxs ! i)" by blast
  qed
  have "roots ?ctxs i" if "normal_root ?ctxs i" for i
    using that \<open>forest ?ctxs\<close> by (simp add: normal_root_def forest_roots)
  with s(2) m normal_roots_le_1 show "one_normal_tree ?ctxs"
    unfolding one_normal_tree_def normal_root_def by blast
qed

lemma search_from_forest:
  assumes f: "forest (contexts st)" and u: "uniform_types (contexts st)" and o: "one_normal_tree (contexts st)"
  shows "validate_context_forest st = Ok ()"
proof -
  let ?ctxs = "contexts st"
  have len: "length ?ctxs = 64" using f by simp
  have e0: "seen_set (replicate 64 False) = {}" by (auto simp: seen_set_def)
  have le: "set [0..<64] \<subseteq> {..<64 :: nat}" by auto
  from search_roots_complete [OF f u _ le, of "replicate 64 False" 0] e0
  obtain seen where s: "search_roots st (map (\<lambda>i. (i, ?ctxs ! i, in_degree ?ctxs i)) [0..<64]) (replicate 64 False) 0 =
      Ok (seen, normal_roots_in ?ctxs [0..<64])" "length seen = 64"
    "seen_set seen = (\<Union>i \<in> {i \<in> set [0..<64]. roots ?ctxs i}. tree ?ctxs i)" by auto
  have "seen ! k" if k: "k < 64" "state (?ctxs ! k) \<noteq> Inactive" for k
  proof -
    obtain ks where "up_path ?ctxs (k # ks)" using forest_up_path [OF f k] .
    from root_of [OF f this] have "k \<in> seen_set seen" unfolding s(3) by auto
    then show ?thesis by (simp add: seen_set_def)
  qed
  moreover have "normal_roots_in ?ctxs [0..<64] \<le> 1"
    unfolding normal_roots_le_1 using o forest_roots [OF f]
    by (simp add: one_normal_tree_def normal_root_def)
  ultimately show ?thesis
    unfolding validate_forest_iff [OF len] using s(1,2) in_degree_le_1 [OF f] by auto
qed

lemma map_err_unit_Ok: "map_err f r = Ok () \<longleftrightarrow> r = Ok ()"
  by (cases r) simp_all

lemma validate_dpe_Ok:
  assumes "length (contexts st) = 64"
  shows "validate_dpe st = Ok () \<longleftrightarrow> valid_state st"
proof -
  have "validate_dpe st = Ok () \<longleftrightarrow> marker st = State_MAGIC \<and> version st = State_VERSION \<and>
      (\<forall>i < 64. context_valid st i) \<and> default_alone st \<and> validate_context_forest st = Ok ()"
    by (simp add: validate_dpe_def validate_dpe_state_def bindO_unit_Ok map_err_unit_Ok
        check_contexts_Ok [OF assms] check_handles_Ok)
  then show ?thesis
    using forest_from_search [OF assms] search_from_forest [of st] by (auto simp: valid_state_def)
qed

text \<open>The invariant of the commands implies every check but that of the handles per locality.\<close>

lemma state_inv_valid:
  assumes inv: "state_inv st" and alone: "default_alone st"
  shows "valid_state st"
proof -
  have f: "forest (contexts st)" by (rule state_inv_forest [OF inv])
  have "context_valid st i" if i: "i < 64" for i
  proof -
    have "links_ok (contexts st) i" if "state (contexts st ! i) \<noteq> Inactive"
      using forest_linked [OF f i that] forest_child [OF f i] i by (auto simp: links_ok_def)
    moreover have "kids c \<noteq> {} \<longleftrightarrow> c \<noteq> children_empty" for c
      using kids_eq_iff [of c children_empty] by simp
    ultimately show ?thesis
      using state_inv_node [OF inv i]
      by (auto simp: context_valid_def Let_def node_ok_def blank_context_def)
  qed
  moreover have "uniform_types (contexts st)"
    using inv by (simp add: state_inv_def edges_ok_def uniform_types_def edge_ok_def)
  ultimately show ?thesis using inv alone by (simp add: valid_state_def state_inv_def)
qed

section \<open>The validator always ends\<close>

definition settled :: "('e, 'a) outcome \<Rightarrow> bool" where
  "settled r \<longleftrightarrow> r \<noteq> Panic \<and> r \<noteq> Diverge"

lemma settled_simps [simp]: "settled (Ok x)" "settled (Err e)" "\<not> settled Panic" "\<not> settled Diverge"
  by (simp_all add: settled_def)

lemma settled_bindO: "settled m \<Longrightarrow> (\<And>x. m = Ok x \<Longrightarrow> settled (f x)) \<Longrightarrow> settled (bindO m f)"
  by (cases m) simp_all

lemma settled_ok_or [simp]: "settled (ok_or x e)"
  by (cases x) simp_all

lemma settled_guard [simp]: "settled (guard_valid b e)"
  by (simp add: guard_valid_def)

lemma settled_map_err [simp]: "settled (map_err f r) = settled r"
  by (cases r) simp_all

lemma settled_each: "(\<And>x. x \<in> set xs \<Longrightarrow> settled (f x)) \<Longrightarrow> settled (each f xs)"
  by (induction xs) (auto intro!: settled_bindO)

text \<open>The number of nodes not yet seen bounds the depth of the search.\<close>

lemma search_settled:
  assumes len: "length (contexts st) = 64"
  shows "length seen = 64 \<Longrightarrow> 64 - card (seen_set seen) < n \<Longrightarrow>
    settled (detect_invalid_subtree n st ty i seen)"
proof (induction n arbitrary: i seen)
  case (Suc n)
  let ?rec = "detect_invalid_subtree n st ty"
  have loop: "length s = 64 \<Longrightarrow> 64 - card (seen_set s) < n \<Longrightarrow> settled (detect_loop ?rec js s)" for js s
  proof (induction js arbitrary: s)
    case (Cons j js)
    have "settled (detect_loop ?rec js s')" if "?rec j s = Ok s'" for s'
    proof -
      from explored_subtree [OF len Cons.prems(1) that]
      have s': "length s' = 64" "seen_set s \<subseteq> seen_set s'" by (simp_all add: explored_def)
      then have "card (seen_set s) \<le> card (seen_set s')" by (intro card_mono) simp_all
      with Cons.IH [OF s'(1)] Cons.prems(2) show ?thesis by simp
    qed
    with Suc.IH [OF Cons.prems] show ?case by (auto intro!: settled_bindO)
  qed simp
  show ?case
  proof (cases "i < 64 \<and> \<not> seen ! i")
    case True
    have "seen_set seen \<subseteq> {..<64}" by (auto simp: seen_set_def)
    then have "card (insert i (seen_set seen)) \<le> card {..<64 :: nat}" using True by (intro card_mono) auto
    moreover have "i \<notin> seen_set seen" using True by (simp add: seen_set_def)
    ultimately have "64 - card (seen_set (seen[i := True])) < n"
      using Suc.prems True by (simp add: seen_set_update)
    with loop [of "seen[i := True]"] Suc.prems(1) True len show ?thesis by simp
  next
    case False
    with Suc.prems(1) len show ?thesis
      by (cases "i < 64") (auto simp: get_at_def)
  qed
qed simp

lemma search_roots_settled:
  assumes len: "length (contexts st) = 64"
  shows "length seen = 64 \<Longrightarrow> settled (search_roots st xs seen m)"
proof (induction xs arbitrary: seen m)
  case (Cons x xs)
  obtain i c d where x: "x = (i, c, d)" by (cases x)
  have "settled (detect_invalid_subtree (Suc MAX_HANDLES) st (context_type c) i seen)"
    by (rule search_settled [OF len Cons.prems]) simp
  with Cons x show ?case
    by (auto intro!: settled_bindO dest: explored_subtree [OF len Cons.prems] simp del: detect_invalid_subtree.simps)
qed simp

lemma validate_dpe_settled:
  assumes len: "length (contexts st) = 64"
  shows "settled (validate_dpe st)"
proof -
  have ch: "settled (check_children ctxs i js)" for ctxs i js
    by (induction js) (auto intro!: settled_bindO)
  have links: "settled (check_children_and_parent st i)" for i
    unfolding check_children_and_parent_def by (auto intro!: settled_bindO ch)
  have supp: "settled (check_support st c)" for c
    unfolding check_support_def by (intro settled_bindO settled_guard)
  have inactive: "settled (validate_inactive_context c)" for c
    by (simp add: validate_inactive_context_def)
  have ctx: "settled (check_context st (i, c))" for i c
    unfolding check_context_def prod.case
    by (cases "state c"; simp only: ContextState.case;
        intro settled_bindO supp inactive links settled_guard)
  have count: "settled (count_handles loc cs d n)" for loc cs d n
    by (induction cs arbitrary: d n) (simp_all add: Let_def)
  have state: "settled (validate_dpe_state st)"
    unfolding validate_dpe_state_def check_context_handles_per_locality_def
    by (auto intro!: settled_bindO settled_each ctx count)
  obtain deg where deg: "count_in_degree (contexts st) (replicate MAX_HANDLES 0) = Ok deg"
    using count_in_degree_zero by blast
  have "settled (validate_context_forest st)"
    unfolding validate_context_forest_def deg
    by (auto intro!: settled_bindO settled_each search_roots_settled [OF len])
  with state show ?thesis unfolding validate_dpe_def by (auto intro!: settled_bindO)
qed

end
