(* ===== verification/Behaviour.thy ===== *)
theory Behaviour
  imports Validation
begin

text \<open>
  What each command does to the DPE state: the successful run of every handler, and the atomicity of
  the failing one. A handler that fails leaves the state as it was, unless the failure is that the
  response does not fit into the buffer, which is found after the state has been changed (Sign
  excepted, which writes its response first, and UpdateContextMeasurement, which changes two
  contexts one after the other).
\<close>

section \<open>Failing commands\<close>

definition failed_write :: "State \<Rightarrow> stop \<Rightarrow> State \<Rightarrow> bool" where
  "failed_write st r st' \<longleftrightarrow> r = Err InvalidResponseBuf \<or> st' = st"

lemma failed_write_same [simp]: "failed_write st r st"
  by (simp add: failed_write_def)

lemma failed_write_buf [simp]: "failed_write st (Err InvalidResponseBuf) st'"
  by (simp add: failed_write_def)

lemma position_lt: "get_active_context_pos st h loc = Ok i \<Longrightarrow> i < length (contexts st)"
  by (auto dest: get_active_context_pos_Ok simp: active_at_def)

lemma inactive_lt: "get_next_inactive_context_pos st = Some i \<Longrightarrow> i < length (contexts st)"
  by (simp add: get_next_inactive_Some)

lemma init_ctx_atomic: "sp (init_ctx d p cmd loc) (\<lambda>_ _. True) (failed_write st) st"
  unfolding init_ctx_def
  by (intro sp_intros failed_write_same failed_write_buf TrueI) (auto dest: inactive_lt)

lemma rotate_ctx_atomic: "sp (rotate_ctx d p cmd loc) (\<lambda>_ _. True) (failed_write st) st"
  unfolding rotate_ctx_def
  by (intro sp_intros failed_write_same failed_write_buf TrueI)

lemma destroy_ctx_atomic: "sp (destroy_ctx d p cmd loc) (\<lambda>_ _. True) (failed_write st) st"
  unfolding destroy_ctx_def
  by (intro sp_intros failed_write_same failed_write_buf TrueI)

lemma derive_recursive_atomic:
  "i < length (contexts st) \<Longrightarrow> sp (derive_recursive d p cmd i loc) (\<lambda>_ _. True) (failed_write st) st"
  unfolding derive_recursive_def
  by (intro sp_intros failed_write_same failed_write_buf TrueI)

lemma derive_child_atomic:
  "i < length (contexts st) \<Longrightarrow> sp (derive_child d p cmd i q loc) (\<lambda>_ _. True) (failed_write st) st"
  unfolding derive_child_def Let_def
  by (intro sp_intros failed_write_same failed_write_buf TrueI) (auto dest: inactive_lt)

lemma length_destroy_context: "destroy_context h st loc = Ok st' \<Longrightarrow> length (contexts st') = length (contexts st)"
  by (auto simp: destroy_context_def bindO_Ok_iff split: if_splits)

lemma derive_export_atomic:
  assumes i: "i < length (contexts st)"
  shows "sp (derive_export gen d p cmd i q loc) (\<lambda>_ _. True) (failed_write st) st"
proof -
  have cert: "sp (create_exported_dpe_cert gen d p args base out) Q E st"
    if "\<And>x. Q x st" "\<And>r. E r st" for args base out Q E
    by (rule sp_keeps [OF create_cert_keeps(1)]) (use that in auto)
  show ?thesis
    unfolding derive_export_def
    by (intro sp_intros cert failed_write_same failed_write_buf TrueI;
        use i in \<open>auto dest: length_destroy_context\<close>)
qed

lemma derive_context_atomic: "sp (derive_context gen d p cmd loc) (\<lambda>_ _. True) (failed_write st) st"
  unfolding derive_context_def Let_def
  by (intro sp_intros derive_recursive_atomic derive_export_atomic derive_child_atomic
      failed_write_same failed_write_buf TrueI; simp add: get_active_context_and_idx_Ok position_lt)

lemma sign_atomic: "sp (sign_cmd d p cmd loc) (\<lambda>_ _. True) (\<lambda>_ st'. st' = st) st"
  unfolding sign_cmd_def by (intro sp_intros refl TrueI)

text \<open>The runs that end in an error, with the state they leave.\<close>

definition commits_last :: "Command \<Rightarrow> bool" where
  "commits_last c \<longleftrightarrow> (case c of CertifyKey _ \<Rightarrow> False | UpdateContextMeasurement _ \<Rightarrow> False | _ \<Rightarrow> True)"

lemma execute_serialized_atomic:
  assumes "commits_last c"
  shows "sp (execute_serialized gen d p c loc) (\<lambda>_ _. True) (failed_write st) st"
proof (cases c)
  case GetProfile
  then show ?thesis
    by (simp, unfold get_profile_cmd_def) (intro sp_intros sp_keeps [OF keeps_get_profile [OF view_parts(1)]] failed_write_same
        failed_write_buf TrueI)
next
  case (Sign x)
  then show ?thesis by (auto intro: sp_mono [OF sign_atomic])
next
  case (GetCertificateChain x)
  then show ?thesis
    by (simp, unfold get_certificate_chain_cmd_def) (intro sp_intros failed_write_same failed_write_buf TrueI)
qed (use assms in \<open>simp_all add: commits_last_def init_ctx_atomic derive_context_atomic rotate_ctx_atomic
    destroy_ctx_atomic\<close>)

section \<open>Authorization\<close>

text \<open>The handle a command names, when it names one.\<close>

fun command_handle :: "Command \<Rightarrow> ContextHandle option" where
  "command_handle (DeriveContext c) = Some (d_handle c)"
| "command_handle (CertifyKey c) = Some (ck_handle (certify_cmd_of c))"
| "command_handle (Sign (SgP256 c)) = Some (sg_handle c)"
| "command_handle (Sign (SgP384 c)) = Some (sg_handle c)"
| "command_handle (Sign (SgMldsa87 c)) = Some (sg_handle c)"
| "command_handle (Sign (SgMldsa87Raw c)) = Some (sr_handle c)"
| "command_handle (RotateCtx c) = Some (r_handle c)"
| "command_handle (DestroyCtx c) = Some c"
| "command_handle (UpdateContextMeasurement c) = Some (u_parent_handle c)"
| "command_handle _ = None"

lemma sp_ask_never:
  "(\<And>x. f st \<noteq> Ok x) \<Longrightarrow> (\<And>r. E r st) \<Longrightarrow> sp (ask f) Q E st"
  by (cases "f st") (auto simp: sp_def)

lemma sign_parts_handle: "sign_parts x = Ok (a, l, y) \<Longrightarrow> command_handle (Sign x) = Some a"
  by (cases x) (auto simp: bindO_Ok_iff)

text \<open>What a signature leaves behind: the handle of the context it was made for is rolled.\<close>

lemma sign_effect:
  "sp (sign_cmd d p cmd loc)
     (\<lambda>_ st'. \<exists>h i c'. command_handle (Sign cmd) = Some h \<and> get_active_context_pos st h loc = Ok i \<and>
        context_type (contexts st ! i) \<noteq> Simulation \<and>
        rolled st (contexts st ! i) c' \<and> st' = put_context i c' st)
     (\<lambda>_ _. True) st"
  unfolding sign_cmd_def
  by (intro sp_intros TrueI; (simp del: put_context_simps)?) (blast dest: sign_parts_handle)

text \<open>
  A command whose handle no active context of the caller's locality has does not succeed and leaves
  the state alone.
\<close>

lemma unauthorized:
  assumes h: "command_handle c = Some h" and no: "\<And>i. \<not> active_at st h loc i"
  shows "sp (execute_serialized gen d p c loc) (\<lambda>_ _. False) (\<lambda>_ st'. st' = st) st"
proof -
  have pos: "get_active_context_pos st h loc \<noteq> Ok i" for i
    using no get_active_context_pos_Ok by blast
  have idx: "get_active_context_and_idx st h loc \<noteq> Ok x" for x
    using pos by (cases x) (simp add: get_active_context_and_idx_Ok)
  have sign: "sp (sign_cmd d p x loc) (\<lambda>_ _. False) (\<lambda>_ st'. st' = st) st" if "command_handle (Sign x) = Some h" for x
    unfolding sign_cmd_def
  proof (rule sp_bind, rule sp_lift)
    fix y assume y: "sign_parts x = Ok y"
    obtain a l z where "y = (a, l, z)" by (cases y)
    with sign_parts_handle [of x a l z] y that have "fst y = h" by simp
    then show "sp (case y of (h, label, data) \<Rightarrow> bind (ask (\<lambda>st. get_active_context_pos st h loc)) (\<lambda>idx.
     bind (ctx_at idx (InternalError ContextIndexOob)) (\<lambda>c.
     bind (guard_err (context_type c = Simulation) InvalidArgument) (\<lambda>_.
     bind (dpe_sign d p idx label data) (\<lambda>sig.
     bind (index_ctx idx) (\<lambda>c.
     bind (roll_onetime_use_handle d c) (\<lambda>c.
     bind (write_response (sign_response p (handle c) sig)) (\<lambda>n.
     bind (set_ctx idx c) (\<lambda>_. ret n))))))))) (\<lambda>_ _. False) (\<lambda>_ st'. st' = st) st"
      by (cases y) (auto intro!: sp_bind sp_ask_never simp: pos)
  qed simp
  show ?thesis
  proof (cases c)
    case (DeriveContext x)
    with h show ?thesis
      by (simp, unfold derive_context_def Let_def)
        (rule sp_bind, rule sp_ask, rule sp_bind, rule sp_ask_never, use idx in auto)
  next
    case (CertifyKey x)
    with h show ?thesis
      by (simp, unfold certify_key_def Let_def) (rule sp_bind, rule sp_ask_never, use pos in auto)
  next
    case (Sign x)
    with h sign show ?thesis by simp
  next
    case (RotateCtx x)
    with h show ?thesis
      by (simp, unfold rotate_ctx_def)
        (rule sp_bind, rule sp_ask, rule sp_bind, rule sp_ask_never, use pos in auto)
  next
    case (DestroyCtx x)
    with h idx show ?thesis
      by (simp, unfold destroy_ctx_def try_state_def)
        (rule sp_bind, rule sp_bind, rule sp_ask_never, auto simp: destroy_context_def bindO_Ok_iff)
  next
    case (UpdateContextMeasurement x)
    with h show ?thesis
      by (simp, unfold update_context_measurement_def)
        (rule sp_bind, rule sp_guard, rule sp_bind, rule sp_ask_never, use pos in auto)
  qed (use h in simp_all)
qed

end
