(* ===== verification/Service.thy ===== *)
theory Service
  imports Validation Behaviour
begin

text \<open>
  A client's use of an instance: requests, each a byte string sent from a locality, served one after
  the other by \<open>execute_serialized_command\<close>. A request whose handling panics ends the service.
\<close>

record request =
  rq_aligned :: bool
  rq_locality :: u32
  rq_bytes :: bytes

fun serve ::
  "'c cert_gen \<Rightarrow> ('c, 'p) deps \<Rightarrow> DpeProfile \<Rightarrow> request list \<Rightarrow> ('c, 'p) world \<Rightarrow>
     (DpeErrorCode, Response) outcome list \<times> ('c, 'p) world" where
  "serve gen d p [] w = ([], w)"
| "serve gen d p (q # qs) w =
     (let (r, w') = execute_serialized_command gen d p (rq_aligned q) (rq_locality q) (rq_bytes q) w in
      case r of
        Panic \<Rightarrow> ([r], w')
      | Diverge \<Rightarrow> ([r], w')
      | _ \<Rightarrow> (let (rs, w'') = serve gen d p qs w' in (r # rs, w'')))"

text \<open>The state after serving requests on a new state.\<close>

definition serve_new ::
  "'c cert_gen \<Rightarrow> ('c, 'p) deps \<Rightarrow> DpeProfile \<Rightarrow> request list \<Rightarrow> build_features \<Rightarrow> Support \<Rightarrow> DpeFlags \<Rightarrow>
     ('c, 'p) world \<Rightarrow> State" where
  "serve_new gen d p qs b supp flags w = dstate (snd (serve gen d p qs (w\<lparr>dstate := State_new b supp flags\<rparr>)))"

lemma serve_transitions: "serve gen d p qs w = (rs, w') \<Longrightarrow> transitions (dstate w) (dstate w')"
proof (induction qs arbitrary: w rs w')
  case (Cons q qs)
  obtain r v where e: "execute_serialized_command gen d p (rq_aligned q) (rq_locality q) (rq_bytes q) w = (r, v)"
    by fastforce
  obtain rs' v' where s: "serve gen d p qs v = (rs', v')" by fastforce
  have "w' = v \<or> w' = v'"
    using Cons.prems e s by (auto split: outcome.splits)
  moreover have "transitions (dstate v) (dstate v')" by (rule Cons.IH [OF s])
  ultimately show ?case
    using execute_serialized_command_transitions [OF e] by (metis rtranclp_trans)
qed simp

lemma serve_new_transitions: "transitions (State_new b supp flags) (serve_new gen d p qs b supp flags w)"
proof -
  obtain rs w' where "serve gen d p qs (w\<lparr>dstate := State_new b supp flags\<rparr>) = (rs, w')" by fastforce
  with serve_transitions [OF this] show ?thesis by (simp add: serve_new_def)
qed

text \<open>The states reachable by transitions, and that of every service among them.\<close>

definition reachable :: "build_features \<Rightarrow> Support \<Rightarrow> DpeFlags \<Rightarrow> State \<Rightarrow> bool" where
  "reachable b supp flags st \<longleftrightarrow> transitions (State_new b supp flags) st"

lemma serve_new_reachable: "reachable b supp flags (serve_new gen d p qs b supp flags w)"
  by (simp add: reachable_def serve_new_transitions)

lemma reachable_inv: "reachable b supp flags st \<Longrightarrow> state_inv st"
  unfolding reachable_def by (rule transitions_preserve_inv [OF _ state_inv_new])

lemma reachable_alone:
  "reachable b supp flags st \<Longrightarrow> \<not> sup_simulation (preprocess_support b supp) \<Longrightarrow> default_alone st"
  unfolding reachable_def
  using transitions_default_alone [of "State_new b supp flags" st, OF _ _ state_inv_new default_alone_new]
  by (simp add: State_new_def)

lemmas serve_new_inv = reachable_inv [OF serve_new_reachable]

lemma serve_new_forest: "forest (contexts (serve_new gen d p qs b supp flags w))"
  by (rule state_inv_forest [OF serve_new_inv])

lemmas serve_new_alone = reachable_alone [OF serve_new_reachable]

text \<open>The start-up of an instance, with its automatic initialization.\<close>

lemma DpeInstance_new_transitions: "sp (DpeInstance_new d p) (\<lambda>_. transitions st) (\<lambda>_. transitions st) st"
proof -
  have "sp (with_buffer 28 (init_ctx d p init_new_use_default loc))
      (\<lambda>x. sp (ret ()) (\<lambda>_. transitions st) (\<lambda>_. transitions st)) (\<lambda>_. transitions st) st" for loc
    by (rule sp_mono [OF sp_with_buffer [OF init_ctx_transitions]]) (auto intro: sp_intros)
  then show ?thesis unfolding DpeInstance_new_def by (intro sp_intros) (auto intro: sp_intros)
qed

text \<open>Along any chain of child links the type is kept and no privilege appears.\<close>

lemma edges_ok_trancl:
  assumes "(i, j) \<in> (child_rel ctxs)\<^sup>+" "edges_ok ctxs" "length ctxs = 64"
  shows "edge_ok (ctxs ! i) (ctxs ! j)"
  using assms(1)
proof (induction rule: trancl_induct)
  case (base k)
  with assms(2,3) show ?case by (auto simp: child_rel_def edges_ok_def)
next
  case (step k l)
  with assms(2,3) have "edge_ok (ctxs ! k) (ctxs ! l)" by (auto simp: child_rel_def edges_ok_def)
  with step.IH show ?case by (auto simp: edge_ok_def)
qed

text \<open>The bytes hashed for a node have the lengths of their types in every state with the invariant.\<close>

lemma state_inv_tci_wf: "state_inv st \<Longrightarrow> i < 64 \<Longrightarrow> tci_wf (tci (contexts st ! i))"
  by (auto dest!: state_inv_node simp: node_ok_def sized_def tci_wf_def)

lemma up_path_lt: "state_inv st \<Longrightarrow> up_path (contexts st) is \<Longrightarrow> i \<in> set is \<Longrightarrow> i < 64"
  by (auto dest!: up_path_live state_inv_forest forest_length simp: live_node_def)

text \<open>Errors of the handlers become responses.\<close>

lemma execute_serialized_command_eq:
  assumes "deserialize al p bs = Ok c"
  shows "execute_serialized_command gen d p al loc bs w =
    (case execute gen d p c loc w of
       (Err e, w') \<Rightarrow> (Ok (RespError (ResponseHdr_new p e)), w') | r \<Rightarrow> r)"
  using assms
  by (simp add: execute_serialized_command_def response_hdr_def split: prod.split outcome.split)

end
