(* ===== verification/Demo.thy ===== *)
theory Demo
  imports Measurement Service
begin

text \<open>
  A concrete environment on which the properties are exercised: the software crypto over small
  stand-ins for the algorithms of the other crates, the test platform with short artifacts, and a
  random generator that counts its calls.
\<close>

definition demo_algs :: "nat algs" where
  "demo_algs = \<lparr>
     x_sha256 = (\<lambda>bs i. of_nat (length bs + i)),
     x_sha384 = (\<lambda>bs i. of_nat (length bs + i)),
     x_hkdf256 = (\<lambda>salt ikm info n. Some (\<lambda>i. of_nat i)),
     x_hkdf384 = (\<lambda>salt ikm info n. Some (\<lambda>i. of_nat i)),
     x_fill_bytes = (\<lambda>n r. (\<lambda>i. of_nat (Suc r), Suc r)),
     x_p256_valid = (\<lambda>k. True), x_p384_valid = (\<lambda>k. True),
     x_p256_sign = (\<lambda>k d. Some (\<lambda>i. 1, \<lambda>i. 2)), x_p384_sign = (\<lambda>k d. Some (\<lambda>i. 1, \<lambda>i. 2)),
     x_p256_point = (\<lambda>k. (Some (\<lambda>i. 1), Some (\<lambda>i. 2))),
     x_p384_point = (\<lambda>k. (Some (\<lambda>i. 1), Some (\<lambda>i. 2))),
     x_mldsa_from_seed = (\<lambda>s. s), x_mldsa_public = (\<lambda>k i. 1),
     x_mldsa_sign_mu = (\<lambda>k m. replicate 4627 1), x_mldsa_sign = (\<lambda>k m. replicate 4627 1),
     x_alias_p256 = Some [1], x_alias_p384 = Some [1], x_alias_mldsa = Some [1]\<rparr>"

definition demo_art :: artifacts where
  "demo_art = \<lparr>art_cert_chain = (\<lambda>_. [1, 2, 3]), art_issuer_name = (\<lambda>_. [4]),
     art_issuer_sn = (\<lambda>_. [5]), art_key_identifier = (\<lambda>_. replicate 20 6)\<rparr>"

definition demo_deps :: "(nat rust_crypto, unit) deps" where
  "demo_deps = \<lparr>cops = rust_crypto_ops demo_algs new_ecc384, pops = default_platform demo_art P384\<rparr>"

definition demo_world :: "State \<Rightarrow> (nat rust_crypto, unit) world" where
  "demo_world st = \<lparr>crypto = rust_crypto_new 0, platform = (), dstate = st, outbuf = []\<rparr>"

text \<open>An encoder that writes nothing.\<close>

definition demo_gen :: "'c cert_gen" where
  "demo_gen = (\<lambda>args p crit name pk m cb base sig. ret 0)"

section \<open>States\<close>

text \<open>Every feature but simulation.\<close>

definition demo_support :: Support where
  "demo_support = 0x7FFFFFFF"

definition demo_start :: State where
  "demo_start = State_new default_build demo_support 0"

text \<open>After InitializeContext: one root with the default handle in locality 0.\<close>

definition demo_root :: State where
  "demo_root = put_context 0
     (activate (init_args init_new_use_default Normal handle_default 0) Context_new)
     (demo_start\<lparr>f_has_initialized := U8Bool_new True\<rparr>)"

text \<open>After DeriveContext: a child in locality 5, the parent retained.\<close>

definition demo_handle :: ContextHandle where
  "demo_handle = replicate 16 1"

definition demo_data :: TciMeasurement where
  "demo_data = replicate 48 3"

definition demo_derive_with :: "u32 \<Rightarrow> DeriveContextCmd" where
  "demo_derive_with svn = \<lparr>d_handle = handle_default, d_data = demo_data, d_flags = 0x28000000, d_tci_type = 7,
     d_target_locality = 5, d_svn = svn\<rparr>"

abbreviation demo_derive :: DeriveContextCmd where
  "demo_derive \<equiv> demo_derive_with 0"

definition demo_child_with :: "u32 \<Rightarrow> Context" where
  "demo_child_with svn = (activate (child_args (demo_derive_with svn) 0 (contexts demo_root ! 0) Normal demo_handle 5) Context_new)
     \<lparr>tci := \<lparr>tci_type = 7, tci_cumulative = replicate 48 9, tci_current = demo_data, tci_locality = 5,
       tci_svn = svn\<rparr>\<rparr>"

definition demo_tree_with :: "u32 \<Rightarrow> State" where
  "demo_tree_with svn =
     put_context 0 ((contexts demo_root ! 0)\<lparr>children := 2\<rparr>) (put_context 1 (demo_child_with svn) demo_root)"

abbreviation demo_tree :: State where
  "demo_tree \<equiv> demo_tree_with 0"

lemma demo_start_simps [simp]:
  "contexts demo_start = replicate 64 Context_new" "support demo_start = demo_support"
  "has_initialized demo_start = False"
  by (simp_all add: demo_start_def State_new_def has_initialized_def)

lemma demo_support_bits [simp]:
  "\<not> sup_simulation demo_support" "sup_rotate_context demo_support" "sup_x509 demo_support"
  "sup_retain_parent_context demo_support" "sup_recursive demo_support" "sup_csr demo_support"
  "sup_cdi_export demo_support" "sup_internal_info demo_support" "sup_internal_dice demo_support"
  by (simp_all add: support_bits demo_support_def)

lemma demo_start_to_root: "transition demo_start demo_root"
proof -
  have "get_next_inactive_context_pos demo_start = Some 0" by (simp add: get_next_inactive_Some)
  then have "transition demo_start (put_context 0 (activate (init_args init_new_use_default Normal handle_default 0)
      (contexts demo_start ! 0)) (demo_start\<lparr>f_has_initialized := U8Bool_new True\<rparr>))"
    by (intro transition.init_default)
      (simp_all add: flag_is_default_def init_new_use_default_def DEFAULT_FLAG_MASK_def flags_contains_bit
        bit_simps del: push_bit_of_1)
  then show ?thesis by (simp add: demo_root_def)
qed

lemma demo_root_contexts:
  "contexts demo_root = (replicate 64 Context_new)
     [0 := activate (init_args init_new_use_default Normal handle_default 0) Context_new]"
  by (simp add: demo_root_def)

lemma demo_root_0 [simp]:
  "contexts demo_root ! 0 = activate (init_args init_new_use_default Normal handle_default 0) Context_new"
  "length (contexts demo_root) = 64" "support demo_root = demo_support" "has_initialized demo_root"
  by (simp_all add: demo_root_def has_initialized_def)

lemma demo_root_active: "is_active demo_root 0"
  by (simp add: is_active_def)

lemma demo_root_other: "0 < i \<Longrightarrow> i < 64 \<Longrightarrow> contexts demo_root ! i = Context_new"
  by (simp add: demo_root_contexts)

lemma demo_root_to_tree: "transition demo_root (demo_tree_with svn)"
proof -
  let ?a = "activate (init_args init_new_use_default Normal handle_default 0) Context_new"
  let ?c = "activate (child_args (demo_derive_with svn) 0 ?a Normal demo_handle 5) Context_new"
  let ?t = "\<lparr>tci_type = 7, tci_cumulative = replicate 48 9, tci_current = demo_data, tci_locality = 5,
       tci_svn = svn\<rparr>"
  have next1: "get_next_inactive_context_pos demo_root = Some 1"
    by (auto simp: get_next_inactive_Some demo_root_other less_Suc_eq)
  have safe: "safe_to_make_child (d_flags (demo_derive_with svn)) demo_root 0 5 = Ok True"
  proof -
    have "locality (contexts demo_root ! i) \<noteq> 5" if "i < 64" for i
      using that by (cases "i = 0") (simp_all add: demo_root_other init_args_def Context_new_def)
    then have "\<forall>c \<in> set (contexts demo_root). locality c \<noteq> 5" by (simp add: all_set_conv_all_nth)
    then have "get_active_context_pos demo_root handle_default 5 = Err InvalidLocality"
      by (simp add: get_active_context_pos_cases)
    then show ?thesis
      by (simp add: safe_to_make_child_def count_contexts_Ok demo_derive_with_def makes_default_def
          flags_contains_bit safe_to_make_non_default_def Let_def del: push_bit_of_1)
  qed
  have fresh: "fresh_handle demo_root demo_handle"
  proof -
    have "handle (contexts demo_root ! i) = handle_default" if "i < 64" for i
      using that by (cases "i = 0") (simp_all add: demo_root_other init_args_def Context_new_def)
    then show ?thesis
      by (auto simp: fresh_handle_def demo_handle_def handle_default_def HANDLE_SIZE_def in_set_conv_nth
          replicate_eq_replicate)
  qed
  have "transition demo_root (put_context 0 (?a\<lparr>children := children ?a OR push_bit 1 1\<rparr>)
      (put_context 1 (?c\<lparr>tci := ?t\<rparr>) demo_root))"
  proof (rule transition.derived [OF demo_root_active next1 _ _ _ safe _ _ _ _])
    show "\<not> derive_not_supported (support demo_root) (d_flags (demo_derive_with svn))"
      "\<not> derive_invalid (contexts demo_root ! 0) (d_flags (demo_derive_with svn))"
      by (simp_all add: derive_not_supported_def derive_invalid_def demo_derive_with_def derive_flag_bits
          flags_contains_bit del: push_bit_of_1)
    show "tci_type_is_unique_among_children demo_root (contexts demo_root ! 0) (d_tci_type (demo_derive_with svn)) = Ok True"
      by (simp add: tci_type_is_unique_among_children_def)
    show "parent_after demo_root (d_flags (demo_derive_with svn)) (contexts demo_root ! 0) ?a"
      by (simp add: parent_after_def rolled_def init_args_def demo_derive_with_def retains_parent_def
          flags_contains_bit del: push_bit_of_1)
    show "if makes_default (d_flags (demo_derive_with svn)) then demo_handle = handle_default
        else fresh_handle demo_root demo_handle"
      using fresh by (simp add: demo_derive_with_def makes_default_def flags_contains_bit del: push_bit_of_1)
    show "?c = activate (child_args (demo_derive_with svn) 0 ?a (context_type (contexts demo_root ! 0)) demo_handle 5) Context_new"
      by (simp add: init_args_def)
    show "extended (d_data (demo_derive_with svn)) (tci ?c) ?t"
      unfolding extended_def
      by (intro exI [of _ "replicate 48 9"])
        (simp add: child_args_def Let_def demo_derive_with_def TciNodeData_new_def)
    show "length (d_data (demo_derive_with svn)) = TCI_SIZE" by (simp add: demo_derive_with_def demo_data_def)
  qed
  then show ?thesis by (simp add: demo_tree_with_def demo_child_with_def children_empty_def)
qed

lemma demo_states_inv: "state_inv demo_root" "state_inv (demo_tree_with svn)"
proof -
  show "state_inv demo_root"
    using transition_preserves_inv [OF demo_start_to_root] state_inv_new by (simp add: demo_start_def)
  from transition_preserves_inv [OF demo_root_to_tree this] show "state_inv (demo_tree_with svn)" .
qed

text \<open>The root of the tree is found by the default handle, in its locality only.\<close>

lemma demo_tree_contexts:
  "contexts (demo_tree_with svn) = (contexts demo_root)[1 := demo_child_with svn, 0 := (contexts demo_root ! 0)\<lparr>children := 2\<rparr>]"
  by (simp add: demo_tree_with_def)

lemma demo_tree_root: "get_active_context_pos (demo_tree_with svn) handle_default 0 = Ok 0"
proof -
  have c: "contexts (demo_tree_with svn) ! 0 = (contexts demo_root ! 0)\<lparr>children := 2\<rparr>" "length (contexts (demo_tree_with svn)) = 64"
    by (simp_all add: demo_tree_contexts)
  then have "active_at (demo_tree_with svn) handle_default 0 0" by (simp add: active_at_def init_args_def)
  then show ?thesis using get_active_context_pos_ex by fastforce
qed

section \<open>Requests and commands\<close>

definition demo_requests :: "request list" where
  "demo_requests = map (\<lambda>c. \<lparr>rq_aligned = True, rq_locality = 0,
      rq_bytes = command_hdr_bytes (CommandHdr_new P384Sha384 (command_id c)) @ command_bytes c\<rparr>)
    [InitCtx init_new_use_default, DeriveContext demo_derive, GetProfile]"

definition demo_rotate :: Command where
  "demo_rotate = RotateCtx \<lparr>r_handle = handle_default, r_flags = 0\<rparr>"

lemma demo_start_unused: "\<not> active_at demo_start h loc i"
  by (cases "i < 64") (simp_all add: active_at_def)

lemma demo_world_dstate [simp]: "dstate (demo_world st) = st"
  by (simp add: demo_world_def)

lemma demo_rotate_fails:
  "execute_serialized gen d P384Sha384 demo_rotate 0 (demo_world demo_start) =
    (Err InvalidLocality, demo_world demo_start)"
  by (simp add: demo_rotate_def rotate_ctx_def bind_step get_active_context_pos_cases)

lemma demo_rotate_request:
  "deserialize True P384Sha384 (command_hdr_bytes (CommandHdr_new P384Sha384 ROTATE_CONTEXT_HANDLE) @
     command_bytes demo_rotate) = Ok demo_rotate"
  using deserialize_bytes [of P384Sha384 demo_rotate "[]"]
  by (simp add: demo_rotate_def handle_ok_def handle_default_def)

lemma demo_rotate_execute:
  "execute gen d P384Sha384 demo_rotate 0 (demo_world demo_start) =
    (Err InvalidLocality, demo_world demo_start)"
proof -
  have "dstate (w\<lparr>outbuf := b\<rparr>) = dstate w" for w :: "(nat rust_crypto, unit) world" and b by simp
  then show ?thesis
    by (simp add: execute_def demo_rotate_def with_buffer_def rotate_ctx_def bind_step
        get_active_context_pos_cases demo_world_def)
qed

lemma demo_new_handle:
  "generate_new_handle demo_deps (demo_world demo_start) =
    (Ok demo_handle, demo_world demo_start\<lparr>crypto := rust_crypto_new 0\<lparr>rc_rng := 1\<rparr>\<rparr>)"
proof -
  have "on_crypto (rand_bytes (cops demo_deps) HANDLE_SIZE) (demo_world demo_start) =
      (Ok demo_handle, demo_world demo_start\<lparr>crypto := rust_crypto_new 0\<lparr>rc_rng := 1\<rparr>\<rparr>)"
    by (simp add: on_crypto_def rand_bytes_def bind_def demo_deps_def rust_crypto_ops_def rc_rand_bytes_def
        demo_algs_def demo_world_def rust_crypto_new_def demo_handle_def HANDLE_SIZE_def map_replicate_const)
  moreover have "\<not> is_default demo_handle" "\<not> handle_in_use demo_start demo_handle"
    by (simp_all add: demo_handle_def handle_default_def HANDLE_SIZE_def replicate_eq_replicate handle_in_use_def
        list_ex_iff)
  ultimately have "new_handle_loop demo_deps (Suc 7) (demo_world demo_start) =
      (Ok demo_handle, demo_world demo_start\<lparr>crypto := rust_crypto_new 0\<lparr>rc_rng := 1\<rparr>\<rparr>)"
    by (simp only: new_handle_loop.simps) (simp add: bind_step)
  then show ?thesis by (simp add: generate_new_handle_def MAX_NEW_HANDLE_ATTEMPTS_def)
qed

definition demo_certify :: CertifyKeyP384Resp where
  "demo_certify = \<lparr>wc_header = \<lparr>k3_hdr = ResponseHdr_new P384Sha384 NoError, k3_handle = demo_handle,
      k3_pubkey_x = replicate 48 1, k3_pubkey_y = replicate 48 2, k3_cert_size = 100\<rparr>,
    wc_cert = replicate MAX_CERT_SIZE 5\<rparr>"

definition demo_sign :: SignCommand where
  "demo_sign = SgP384 \<lparr>sg_handle = handle_default, sg_label = replicate 48 4, sg_flags = 0, sg_digest = replicate 48 6\<rparr>"

lemma demo_reachable: "reachable default_build demo_support 0 (demo_tree_with svn)"
  unfolding reachable_def
  using demo_start_to_root demo_root_to_tree by (fold demo_start_def) (meson rtranclp.simps)

lemma demo_tree_edge: "(0, 1) \<in> (child_rel (contexts demo_tree))\<^sup>+"
  by (rule r_into_trancl) (simp add: child_rel_def demo_tree_contexts kids_def bit_simps)

text \<open>The crypto after an exported CDI.\<close>

definition demo_exported :: "nat rust_crypto" where
  "demo_exported = snd (rc_derive_exported_cdi demo_algs new_ecc384 (Sha384 (replicate 48 0)) [] (rust_crypto_new 0))"

lemma demo_export:
  "rc_derive_exported_cdi demo_algs new_ecc384 (Sha384 (replicate 48 0)) [] (rust_crypto_new 0) =
    (Ok (\<lambda>i. 1), demo_exported)"
  by (simp add: demo_exported_def rc_derive_exported_cdi_def bind_def hkdf_derive_cdi_def hkdf_expand_def
      demo_algs_def new_ecc384_def rust_crypto_new_def MAX_CDI_HANDLES_def rc_rand_bytes_def)

end
