(* ===== verification/X509_Sizes.thy ===== *)
theory X509_Sizes
  imports CertCreate
begin

text \<open>
  The constants of the certificate encoder and the functions that compute the size of every
  structure before it is written (dpe/src/x509.rs, \<open>profile_oids\<close> and the \<open>get_*_size\<close> functions of
  \<open>CertWriter\<close>). The fields \<open>profile\<close> and \<open>crit_dice\<close> of the writer never change: the functions that
  read them take them as the arguments \<open>p\<close> and \<open>crit\<close>.
\<close>

section \<open>Object identifiers\<close>

definition ECDSA_WITH_SHA256_OID :: bytes where
  "ECDSA_WITH_SHA256_OID = [0x2A, 0x86, 0x48, 0xCE, 0x3D, 0x04, 0x03, 0x02]"
definition CURVE_P256_OID :: bytes where
  "CURVE_P256_OID = [0x2A, 0x86, 0x48, 0xCE, 0x3D, 0x03, 0x01, 0x07]"
definition HASH_SHA256_OID :: bytes where
  "HASH_SHA256_OID = [0x60, 0x86, 0x48, 0x01, 0x65, 0x03, 0x04, 0x02, 0x01]"
definition ECDSA_WITH_SHA384_OID :: bytes where
  "ECDSA_WITH_SHA384_OID = [0x2A, 0x86, 0x48, 0xCE, 0x3D, 0x04, 0x03, 0x03]"
definition CURVE_P384_OID :: bytes where
  "CURVE_P384_OID = [0x2B, 0x81, 0x04, 0x00, 0x22]"
definition MLDSA_OID :: bytes where
  "MLDSA_OID = [0x60, 0x86, 0x48, 0x01, 0x65, 0x03, 0x04, 0x03, 0x13]"
definition EC_PUB_OID :: bytes where
  "EC_PUB_OID = [0x2A, 0x86, 0x48, 0xCE, 0x3D, 0x02, 0x01]"
definition HASH_SHA384_OID :: bytes where
  "HASH_SHA384_OID = [0x60, 0x86, 0x48, 0x01, 0x65, 0x03, 0x04, 0x02, 0x02]"
definition RDN_COMMON_NAME_OID :: bytes where
  "RDN_COMMON_NAME_OID = [0x55, 0x04, 0x03]"
definition RDN_SERIALNUMBER_OID :: bytes where
  "RDN_SERIALNUMBER_OID = [0x55, 0x04, 0x05]"
definition MULTI_TCBINFO_OID :: bytes where
  "MULTI_TCBINFO_OID = [0x67, 0x81, 0x05, 0x05, 0x04, 0x05]"
definition UEID_OID :: bytes where
  "UEID_OID = [0x67, 0x81, 0x05, 0x05, 0x04, 0x04]"
definition ECA_OID :: bytes where
  "ECA_OID = [0x67, 0x81, 0x05, 0x05, 0x04, 0x64, 0x0C]"
definition ATTEST_LOC_OID :: bytes where
  "ATTEST_LOC_OID = [0x67, 0x81, 0x05, 0x05, 0x04, 0x64, 0x09]"
definition BASIC_CONSTRAINTS_OID :: bytes where
  "BASIC_CONSTRAINTS_OID = [0x55, 0x1D, 0x13]"
definition KEY_USAGE_OID :: bytes where
  "KEY_USAGE_OID = [0x55, 0x1D, 0x0F]"
definition EXTENDED_KEY_USAGE_OID :: bytes where
  "EXTENDED_KEY_USAGE_OID = [0x55, 0x1D, 0x25]"
definition SUBJECT_KEY_IDENTIFIER_OID :: bytes where
  "SUBJECT_KEY_IDENTIFIER_OID = [0x55, 0x1D, 0x0E]"
definition AUTHORITY_KEY_IDENTIFIER_OID :: bytes where
  "AUTHORITY_KEY_IDENTIFIER_OID = [0x55, 0x1D, 0x23]"
definition SUBJECT_ALTERNATIVE_NAME_OID :: bytes where
  "SUBJECT_ALTERNATIVE_NAME_OID = [0x55, 0x1D, 0x11]"
definition ID_SIGNED_DATA_OID :: bytes where
  "ID_SIGNED_DATA_OID = [0x2A, 0x86, 0x48, 0x86, 0xF7, 0x0D, 0x01, 0x07, 0x02]"
definition ID_DATA_OID :: bytes where
  "ID_DATA_OID = [0x2A, 0x86, 0x48, 0x86, 0xF7, 0x0D, 0x01, 0x07, 0x01]"
definition EXTENSION_REQUEST_OID :: bytes where
  "EXTENSION_REQUEST_OID = [0x2A, 0x86, 0x48, 0x86, 0xF7, 0x0D, 0x01, 0x09, 0x0E]"

lemma oid_lengths [simp]:
  "length ECDSA_WITH_SHA256_OID = 8" "length CURVE_P256_OID = 8" "length HASH_SHA256_OID = 9"
  "length ECDSA_WITH_SHA384_OID = 8" "length CURVE_P384_OID = 5" "length MLDSA_OID = 9"
  "length EC_PUB_OID = 7" "length HASH_SHA384_OID = 9"
  "length RDN_COMMON_NAME_OID = 3" "length RDN_SERIALNUMBER_OID = 3"
  "length MULTI_TCBINFO_OID = 6" "length UEID_OID = 6" "length ECA_OID = 7"
  "length ATTEST_LOC_OID = 7" "length BASIC_CONSTRAINTS_OID = 3" "length KEY_USAGE_OID = 3"
  "length EXTENDED_KEY_USAGE_OID = 3" "length SUBJECT_KEY_IDENTIFIER_OID = 3"
  "length AUTHORITY_KEY_IDENTIFIER_OID = 3" "length SUBJECT_ALTERNATIVE_NAME_OID = 3"
  "length ID_SIGNED_DATA_OID = 9" "length ID_DATA_OID = 9" "length EXTENSION_REQUEST_OID = 9"
  by (simp_all add: ECDSA_WITH_SHA256_OID_def CURVE_P256_OID_def HASH_SHA256_OID_def
      ECDSA_WITH_SHA384_OID_def CURVE_P384_OID_def MLDSA_OID_def EC_PUB_OID_def HASH_SHA384_OID_def
      RDN_COMMON_NAME_OID_def RDN_SERIALNUMBER_OID_def MULTI_TCBINFO_OID_def UEID_OID_def ECA_OID_def
      ATTEST_LOC_OID_def BASIC_CONSTRAINTS_OID_def KEY_USAGE_OID_def EXTENDED_KEY_USAGE_OID_def
      SUBJECT_KEY_IDENTIFIER_OID_def AUTHORITY_KEY_IDENTIFIER_OID_def
      SUBJECT_ALTERNATIVE_NAME_OID_def ID_SIGNED_DATA_OID_def ID_DATA_OID_def
      EXTENSION_REQUEST_OID_def)

section \<open>Tags and numbers\<close>

definition BOOL_TAG :: u8 where "BOOL_TAG = 0x1"
definition INTEGER_TAG :: u8 where "INTEGER_TAG = 0x2"
definition BIT_STRING_TAG :: u8 where "BIT_STRING_TAG = 0x3"
definition OCTET_STRING_TAG :: u8 where "OCTET_STRING_TAG = 0x4"
definition OID_TAG :: u8 where "OID_TAG = 0x6"
definition UTF8_STRING_TAG :: u8 where "UTF8_STRING_TAG = 0xC"
definition PRINTABLE_STRING_TAG :: u8 where "PRINTABLE_STRING_TAG = 0x13"
definition GENERALIZE_TIME_TAG :: u8 where "GENERALIZE_TIME_TAG = 0x18"
definition SEQUENCE_TAG :: u8 where "SEQUENCE_TAG = 0x30"
definition SEQUENCE_OF_TAG :: u8 where "SEQUENCE_OF_TAG = 0x30"
definition SET_OF_TAG :: u8 where "SET_OF_TAG = 0x31"
definition BOOL_SIZE :: nat where "BOOL_SIZE = 1"
definition CONTEXT_SPECIFIC :: u8 where "CONTEXT_SPECIFIC = 0x80"
definition CONSTRUCTED :: u8 where "CONSTRUCTED = 0x20"
definition X509_V3 :: u64 where "X509_V3 = 2"
definition CMS_V1 :: u64 where "CMS_V1 = 1"
definition CMS_V3 :: u64 where "CMS_V3 = 3"
definition CSR_V0 :: u64 where "CSR_V0 = 0"
definition INTEGRITY_REGISTER_NUM :: u64 where "INTEGRITY_REGISTER_NUM = 0"
definition MAX_BACKTRACKS :: nat where "MAX_BACKTRACKS = 10"
definition SIZE_TAG_OFFSET :: nat where "SIZE_TAG_OFFSET = 3"
definition DIGITAL_SIGNATURE :: u8 where "DIGITAL_SIGNATURE = 0b10000000"
definition KEY_CERT_SIGN :: u8 where "KEY_CERT_SIGN = 0b00000100"

section \<open>Sizes of the basic encodings\<close>

definition get_size_width :: "nat \<Rightarrow> nat" where
  "get_size_width sz =
     (if sz < 128 then 1 else if sz < 256 then 2 else if sz < 65536 then 3
      else if sz < 16777216 then 4 else 5)"

definition get_structure_size :: "nat \<Rightarrow> bool \<Rightarrow> nat" where
  "get_structure_size data_size tagged =
     (if tagged then 1 + get_size_width data_size + data_size else data_size)"

text \<open>
  The loop over the bytes of a big-endian integer: \<open>i\<close> is the index, \<open>n\<close> the number of bytes, and
  the length shrinks by one for every leading zero that is not the last byte.
\<close>

fun integer_len_loop :: "nat \<Rightarrow> nat \<Rightarrow> bytes \<Rightarrow> nat \<Rightarrow> nat" where
  "integer_len_loop n i [] len = len"
| "integer_len_loop n i (byte # bs) len =
     (if byte = 0 \<and> i \<noteq> n - 1 then integer_len_loop n (Suc i) bs (len - 1)
      else if byte AND 0x80 \<noteq> 0 then len + 1
      else len)"

definition get_integer_bytes_size :: "bytes \<Rightarrow> bool \<Rightarrow> nat" where
  "get_integer_bytes_size integer tagged =
     get_structure_size (integer_len_loop (length integer) 0 integer (length integer)) tagged"

definition get_integer_size :: "u64 \<Rightarrow> bool \<Rightarrow> nat" where
  "get_integer_size integer tagged = get_integer_bytes_size (u64_to_be_bytes integer) tagged"

definition get_bytes_size :: "bytes \<Rightarrow> bool \<Rightarrow> nat" where
  "get_bytes_size bs tagged = get_structure_size (length bs) tagged"

section \<open>Algorithms, keys and signatures\<close>

definition sig_oid :: "DpeProfile \<Rightarrow> bytes" where
  "sig_oid p = (case p of P256Sha256 \<Rightarrow> ECDSA_WITH_SHA256_OID | P384Sha384 \<Rightarrow> ECDSA_WITH_SHA384_OID
     | Mldsa87 \<Rightarrow> MLDSA_OID)"

definition hash_oid :: "DpeProfile \<Rightarrow> bytes" where
  "hash_oid p = (case p of P256Sha256 \<Rightarrow> HASH_SHA256_OID | P384Sha384 \<Rightarrow> HASH_SHA384_OID
     | Mldsa87 \<Rightarrow> HASH_SHA384_OID)"

lemma length_hash_oid [simp]: "length (hash_oid p) = 9"
  by (cases p) (simp_all add: hash_oid_def)

lemma length_sig_oid: "length (sig_oid p) = (case p of Mldsa87 \<Rightarrow> 9 | _ \<Rightarrow> 8)"
  by (cases p) (simp_all add: sig_oid_def)

definition get_ec_pub_alg_id_size :: "bytes \<Rightarrow> bool \<Rightarrow> nat" where
  "get_ec_pub_alg_id_size curve_oid tagged =
     (let len = get_bytes_size EC_PUB_OID True + get_bytes_size curve_oid True
      in get_structure_size len tagged)"

definition get_ecdsa_sig_alg_id_size :: "DpeProfile \<Rightarrow> bool \<Rightarrow> nat" where
  "get_ecdsa_sig_alg_id_size p tagged =
     (let len = get_bytes_size (sig_oid p) True in get_structure_size len tagged)"

definition get_mldsa_sig_alg_id_size :: "DpeProfile \<Rightarrow> bool \<Rightarrow> nat" where
  "get_mldsa_sig_alg_id_size p tagged =
     (let len = get_bytes_size (sig_oid p) True in get_structure_size len tagged)"

definition get_hash_alg_id_size :: "DpeProfile \<Rightarrow> bool \<Rightarrow> nat" where
  "get_hash_alg_id_size p tagged =
     (let len = get_bytes_size (hash_oid p) True in get_structure_size len tagged)"

definition get_validity_size :: "CertValidity \<Rightarrow> bool \<Rightarrow> nat" where
  "get_validity_size validity tagged =
     (let len = get_bytes_size (not_before validity) True + get_bytes_size (not_after validity) True
      in get_structure_size len tagged)"

definition get_mldsa_subject_pubkey_info_size :: "DpeProfile \<Rightarrow> bytes \<Rightarrow> bool \<Rightarrow> nat" where
  "get_mldsa_subject_pubkey_info_size p pubkey tagged =
     (let bitstring_size = get_structure_size (1 + length pubkey) True;
          seq_size = bitstring_size + get_mldsa_sig_alg_id_size p True
      in get_structure_size seq_size tagged)"

definition get_mldsa_signature_octet_string_size :: "bytes \<Rightarrow> bool \<Rightarrow> nat" where
  "get_mldsa_signature_octet_string_size sig tagged = get_structure_size (length sig) tagged"

definition get_ecdsa_signature_octet_string_size :: "EcdsaSignature \<Rightarrow> bool \<Rightarrow> nat" where
  "get_ecdsa_signature_octet_string_size sig tagged =
     (let (r, s) = ecdsa_sig_as_slice sig;
          seq_size = get_structure_size
            (get_integer_bytes_size r True + get_integer_bytes_size s True) True
      in get_structure_size seq_size tagged)"

definition get_signature_octet_string_size :: "DpeProfile \<Rightarrow> Signature \<Rightarrow> bool \<Rightarrow> nat" where
  "get_signature_octet_string_size p sig tagged =
     (case sig of
        SigEcdsa sig \<Rightarrow>
          get_ecdsa_sig_alg_id_size p tagged + get_ecdsa_signature_octet_string_size sig tagged
      | SigMldsa sig \<Rightarrow>
          get_mldsa_sig_alg_id_size p tagged + get_mldsa_signature_octet_string_size sig tagged)"

section \<open>Extensions\<close>

definition get_fwid_size :: "DpeProfile \<Rightarrow> bytes \<Rightarrow> bool \<Rightarrow> nat" where
  "get_fwid_size p digest tagged =
     (let sz = get_structure_size (length (hash_oid p)) True
                   + get_structure_size (length digest) True
      in get_structure_size sz tagged)"

definition get_tcb_info_size :: "DpeProfile \<Rightarrow> TciNodeData \<Rightarrow> bool \<Rightarrow> bool \<Rightarrow> nat" where
  "get_tcb_info_size p node supports_recursive tagged =
     (let fwid_size = get_fwid_size p (tci_current node) True;
          svn_size = get_integer_size (ucast (tci_svn node)) True;
          integrity_registers_size =
            (if supports_recursive
             then let fwid_size = get_fwid_size p (tci_cumulative node) True;
                      fwid_list_size = get_structure_size fwid_size True;
                      ir_num_size = get_integer_size INTEGRITY_REGISTER_NUM True;
                      integrity_register_size = get_structure_size (ir_num_size + fwid_list_size) True
                  in get_structure_size integrity_register_size True
             else 0);
          fwids_size = get_structure_size fwid_size True;
          sz = fwids_size + 2 * get_structure_size 4 True + integrity_registers_size + svn_size
      in get_structure_size sz tagged)"

definition get_extension_size :: "bytes \<Rightarrow> bool \<Rightarrow> nat \<Rightarrow> bool \<Rightarrow> nat" where
  "get_extension_size oid critical content_size tagged =
     (let oid_size = get_structure_size (length oid) True;
          crit_size = (if critical then get_structure_size BOOL_SIZE True else 0);
          octet_size = get_structure_size content_size True;
          inner = oid_size + crit_size + octet_size
      in get_structure_size inner tagged)"

definition get_multi_tcb_info_size ::
  "DpeProfile \<Rightarrow> bool \<Rightarrow> MeasurementData \<Rightarrow> bool \<Rightarrow> (DpeErrorCode, nat) outcome" where
  "get_multi_tcb_info_size p crit md tagged =
     bindO (TciNodes_is_empty (md_tci_nodes md)) (\<lambda>empty.
     if empty then Err (InternalError EmptyTciNodes)
     else
       bindO (TciNodes_num_nodes (md_tci_nodes md)) (\<lambda>n.
       bindO (TciNodes_first_node (md_tci_nodes md)) (\<lambda>first.
       let tcb_infos_size = n * get_tcb_info_size p first (md_supports_recursive md) True;
           multi_tcb_info_size = get_structure_size tcb_infos_size True
       in Ok (get_extension_size MULTI_TCBINFO_OID crit multi_tcb_info_size tagged))))"

definition get_ueid_size :: "bool \<Rightarrow> MeasurementData \<Rightarrow> bool \<Rightarrow> nat" where
  "get_ueid_size crit md tagged =
     (let ext_size = get_structure_size (get_structure_size (length (md_label md)) True) True
      in get_extension_size UEID_OID crit ext_size tagged)"

definition get_basic_constraints_size :: "MeasurementData \<Rightarrow> bool \<Rightarrow> nat" where
  "get_basic_constraints_size md tagged =
     (let ca_size = (if md_is_ca md then get_structure_size BOOL_SIZE True else 0);
          ext_size = get_structure_size ca_size True
      in get_extension_size BASIC_CONSTRAINTS_OID True ext_size tagged)"

definition get_key_usage_size :: "bool \<Rightarrow> nat" where
  "get_key_usage_size tagged =
     (let ext_size = get_structure_size 2 True
      in get_extension_size KEY_USAGE_OID True ext_size tagged)"

definition get_extended_key_usage_size :: "MeasurementData \<Rightarrow> bool \<Rightarrow> nat" where
  "get_extended_key_usage_size md tagged =
     (let policy_oid_size = (if md_is_ca md then length ECA_OID else length ATTEST_LOC_OID);
          ext_size = get_structure_size (get_structure_size policy_oid_size True) True
      in get_extension_size EXTENDED_KEY_USAGE_OID True ext_size tagged)"

definition get_key_identifier_size :: "bytes \<Rightarrow> bool \<Rightarrow> bool \<Rightarrow> nat" where
  "get_key_identifier_size key_identifier tagged explicit =
     (let key_identifier_size = length key_identifier;
          explicit_bytes_size = get_structure_size key_identifier_size explicit
      in get_structure_size explicit_bytes_size tagged)"

definition get_subject_key_identifier_extension_size :: "MeasurementData \<Rightarrow> bool \<Rightarrow> bool \<Rightarrow> nat" where
  "get_subject_key_identifier_extension_size md tagged is_x509 =
     (if \<not> md_is_ca md \<or> \<not> is_x509 then 0
      else
        let ski_size = length (md_subject_key_identifier md);
            ext_size = get_structure_size ski_size True
        in get_extension_size SUBJECT_KEY_IDENTIFIER_OID False ext_size tagged)"

definition get_authority_key_identifier_extension_size :: "MeasurementData \<Rightarrow> bool \<Rightarrow> bool \<Rightarrow> nat" where
  "get_authority_key_identifier_extension_size md tagged is_x509 =
     (if \<not> is_x509 then 0
      else
        let aki_size = get_key_identifier_size (md_authority_key_identifier md) True False;
            ext_size = get_structure_size aki_size True
        in get_extension_size AUTHORITY_KEY_IDENTIFIER_OID False ext_size tagged)"

definition get_other_name_value_size :: "bytes \<Rightarrow> bool \<Rightarrow> bool \<Rightarrow> nat" where
  "get_other_name_value_size other_name_value tagged explicit =
     (let sz = get_structure_size (length other_name_value) explicit
      in get_structure_size sz tagged)"

definition get_other_name_size :: "OtherName \<Rightarrow> bool \<Rightarrow> nat" where
  "get_other_name_size other_name tagged =
     (let sz = get_structure_size (length (on_oid other_name)) True
                   + get_other_name_value_size (on_other_name other_name) True True
      in get_structure_size sz tagged)"

definition get_subject_alt_name_extension_size :: "MeasurementData \<Rightarrow> bool \<Rightarrow> nat" where
  "get_subject_alt_name_extension_size md tagged =
     (case md_subject_alt_name md of
        None \<Rightarrow> 0
      | Some (SanOtherName other_name) \<Rightarrow>
          let san_size = get_other_name_size other_name True;
              ext_size = get_structure_size san_size True
          in get_extension_size SUBJECT_ALTERNATIVE_NAME_OID False ext_size tagged)"

definition get_extensions_size ::
  "DpeProfile \<Rightarrow> bool \<Rightarrow> MeasurementData \<Rightarrow> bool \<Rightarrow> bool \<Rightarrow> bool \<Rightarrow> (DpeErrorCode, nat) outcome" where
  "get_extensions_size p crit md tagged explicit is_x509 =
     bindO (get_multi_tcb_info_size p crit md True) (\<lambda>multi.
     let sz = multi + get_ueid_size crit md True + get_basic_constraints_size md True
           + get_key_usage_size True + get_extended_key_usage_size md True
           + get_subject_key_identifier_extension_size md True is_x509
           + get_authority_key_identifier_extension_size md True is_x509
           + get_subject_alt_name_extension_size md True;
         sz = get_structure_size sz explicit
     in Ok (get_structure_size sz tagged))"

section \<open>CMS\<close>

definition get_cms_version_size :: "SignerIdentifier \<Rightarrow> nat" where
  "get_cms_version_size sid =
     (case sid of
        IssuerAndSerialNumber _ _ \<Rightarrow> get_integer_size CMS_V1 True
      | SubjectKeyIdentifier _ \<Rightarrow> get_integer_size CMS_V3 True)"

definition get_issuer_and_serial_number_size :: "bytes \<Rightarrow> bytes \<Rightarrow> bool \<Rightarrow> nat" where
  "get_issuer_and_serial_number_size sn issuer_der tagged =
     (let issuer_and_serial_number_size =
            get_integer_bytes_size sn True + length issuer_der
      in get_structure_size issuer_and_serial_number_size tagged)"

definition get_subject_key_identifier_size :: "bytes \<Rightarrow> bool \<Rightarrow> bool \<Rightarrow> nat" where
  "get_subject_key_identifier_size subject_key_identifier tagged explicit =
     (let subject_key_identifier_size = length subject_key_identifier;
          explicit_bytes_size = get_structure_size subject_key_identifier_size explicit
      in get_structure_size explicit_bytes_size tagged)"

definition get_signer_identifier_size :: "SignerIdentifier \<Rightarrow> bool \<Rightarrow> nat" where
  "get_signer_identifier_size sid tagged =
     (case sid of
        IssuerAndSerialNumber issuer sn \<Rightarrow>
          get_issuer_and_serial_number_size sn issuer tagged
      | SubjectKeyIdentifier ski \<Rightarrow> get_subject_key_identifier_size ski tagged True)"

definition get_signer_info_size :: "DpeProfile \<Rightarrow> Signature \<Rightarrow> SignerIdentifier \<Rightarrow> bool \<Rightarrow> nat" where
  "get_signer_info_size p sig sid tagged =
     (let signer_info_size = get_cms_version_size sid + get_signer_identifier_size sid True
            + get_hash_alg_id_size p True + get_signature_octet_string_size p sig True
      in get_structure_size signer_info_size tagged)"

definition get_econtent_size :: "nat \<Rightarrow> bool \<Rightarrow> bool \<Rightarrow> nat" where
  "get_econtent_size bytes_size tagged explicit =
     (let explicit_bytes_size = get_structure_size bytes_size explicit
      in get_structure_size explicit_bytes_size tagged)"

definition get_attribute_size ::
  "DpeProfile \<Rightarrow> bool \<Rightarrow> MeasurementData \<Rightarrow> bool \<Rightarrow> (DpeErrorCode, nat) outcome" where
  "get_attribute_size p crit md tagged =
     bindO (get_extensions_size p crit md True False False) (\<lambda>ext.
     let attribute_size = get_structure_size (length ID_DATA_OID) True + get_structure_size ext True
     in Ok (get_structure_size attribute_size tagged))"

definition get_attributes_size ::
  "DpeProfile \<Rightarrow> bool \<Rightarrow> MeasurementData \<Rightarrow> bool \<Rightarrow> (DpeErrorCode, nat) outcome" where
  "get_attributes_size p crit md tagged =
     bindO (get_attribute_size p crit md True) (\<lambda>attribute_size.
     Ok (get_structure_size attribute_size tagged))"

end
