(* ===== verification/X509_Writer.thy ===== *)
theory X509_Writer
  imports X509_Sizes
begin

text \<open>
  \<open>CertWriter\<close> of dpe/src/x509.rs: its state, the primitives that write bytes at the offset and
  the encoders of every structure of a certificate, CSR or CMS message. An encoder is an action on the
  writer that returns the number of bytes it wrote. The writer writes through a view that begins at
  \<open>cw_base\<close> of the response buffer \<open>cw_certificate\<close>. The encoders that return a plain \<open>usize\<close> in the
  source never fail here either; sizes and offsets are natural numbers, their addition is not
  assumed to wrap.
\<close>

section \<open>The writer\<close>

record CertWriter =
  cw_certificate :: bytes
  cw_base :: nat
  cw_offset :: nat
  cw_csr_range :: "(nat \<times> nat) option"
  cw_backtracks :: "(nat \<times> nat) list"
  cw_saved_offset :: "nat option"

type_synonym 'a enc = "(CertWriter, DpeErrorCode, 'a) act"

definition CertWriter_new :: "bytes \<Rightarrow> nat \<Rightarrow> CertWriter" where
  "CertWriter_new buf base = \<lparr>cw_certificate = buf, cw_base = base, cw_offset = 0,
     cw_csr_range = None, cw_backtracks = [], cw_saved_offset = None\<rparr>"

definition push_backtrack :: "nat \<Rightarrow> nat enc" where
  "push_backtrack skip w =
     (if MAX_BACKTRACKS \<le> length (cw_backtracks w) then (Err X509SkipsExhausted, w)
      else
        let off = cw_offset w + skip
        in (Ok off, w\<lparr>cw_backtracks := cw_backtracks w @ [(cw_offset w, off)], cw_offset := off\<rparr>))"

definition pop_backtrack :: "nat \<Rightarrow> unit enc" where
  "pop_backtrack expected_width w =
     (if cw_saved_offset w = None then (Err X509InvalidState, w)
      else if cw_backtracks w = [] then (Err X509InvalidState, w)
      else
        let (a, z) = last (cw_backtracks w); w = w\<lparr>cw_backtracks := butlast (cw_backtracks w)\<rparr>
        in if z - a \<noteq> expected_width then (Err X509InvalidWidth, w)
           else (Ok (), w\<lparr>cw_offset := a\<rparr>))"

definition start_backtrack :: "unit enc" where
  "start_backtrack w =
     (if cw_saved_offset w \<noteq> None then (Err X509InvalidState, w)
      else (Ok (), w\<lparr>cw_saved_offset := Some (cw_offset w)\<rparr>))"

definition end_backtrack :: "unit enc" where
  "end_backtrack w =
     (case cw_saved_offset w of
        None \<Rightarrow> (Err X509InvalidState, w)
      | Some off \<Rightarrow> (Ok (), w\<lparr>cw_offset := off, cw_saved_offset := None\<rparr>))"

text \<open>A write that does not fit is dropped, and the offset advances all the same.\<close>

definition encode_bytes :: "bytes \<Rightarrow> nat enc" where
  "encode_bytes bs w =
     (let (_, buf) = offset_write_at slice_write_at (cw_base w) (cw_offset w) bs (cw_certificate w)
      in (Ok (length bs), w\<lparr>cw_certificate := buf, cw_offset := cw_offset w + length bs\<rparr>))"

definition encode_byte :: "u8 \<Rightarrow> nat enc" where
  "encode_byte b w =
     (let (_, buf) = offset_write_at slice_write_at (cw_base w) (cw_offset w) [b] (cw_certificate w)
      in (Ok 1, w\<lparr>cw_certificate := buf, cw_offset := cw_offset w + 1\<rparr>))"

definition encode_tag_field :: "u8 \<Rightarrow> nat enc" where
  "encode_tag_field tag = encode_byte tag"

text \<open>\<open>bytes_written += \<dots>\<close> over the parts of a structure.\<close>

fun encode_all :: "nat enc list \<Rightarrow> nat enc" where
  "encode_all [] = ret 0"
| "encode_all (m # ms) = bind m (\<lambda>n. bind (encode_all ms) (\<lambda>k. ret (n + k)))"

definition encode_size_field :: "nat \<Rightarrow> nat enc" where
  "encode_size_field sz =
     (let size_width = get_size_width sz in
      if size_width = 1 then bind (encode_byte (of_nat sz)) (\<lambda>_. ret size_width)
      else
        let rem = size_width - 1 in
        bind (encode_byte (0x80 OR of_nat rem)) (\<lambda>_.
        bind (encode_all (map (\<lambda>i. encode_byte (of_nat (drop_bit (i * 8) sz))) (rev [0..<rem]))) (\<lambda>_.
        ret size_width)))"

fun backtrack_loop :: "nat list \<Rightarrow> nat enc" where
  "backtrack_loop [] = ret 0"
| "backtrack_loop (sz # sizes) =
     bind (pop_backtrack (get_size_width sz)) (\<lambda>_.
     bind (encode_size_field sz) (\<lambda>n.
     bind (backtrack_loop sizes) (\<lambda>k. ret (n + k))))"

text \<open>The result is what is added to \<open>out_size\<close>.\<close>

definition backtrack_and_encode_size :: "nat list \<Rightarrow> nat enc" where
  "backtrack_and_encode_size sizes =
     bind start_backtrack (\<lambda>_.
     bind (backtrack_loop sizes) (\<lambda>bytes_written.
     bind end_backtrack (\<lambda>_. ret bytes_written)))"

definition check_not_truncated :: "unit enc" where
  "check_not_truncated w =
     (if offset_capacity slice_capacity (cw_base w) (cw_certificate w) < cw_offset w
      then (Err (InternalError CertSizeOverflow), w) else (Ok (), w))"

definition encode_integer_bytes :: "bytes \<Rightarrow> bool \<Rightarrow> nat enc" where
  "encode_integer_bytes integer tagged =
     (let sz = get_integer_bytes_size integer False; integer_offset = length integer - sz in
      encode_all
        ((if tagged then [encode_tag_field INTEGER_TAG] else []) @
         [encode_size_field sz] @
         (if length integer < sz then [encode_byte 0] else []) @
         [encode_bytes (drop integer_offset integer)]))"

definition encode_integer :: "u64 \<Rightarrow> bool \<Rightarrow> nat enc" where
  "encode_integer integer tagged = encode_integer_bytes (u64_to_be_bytes integer) tagged"

definition encode_tlv :: "u8 \<Rightarrow> bytes \<Rightarrow> nat enc" where
  "encode_tlv tag val =
     encode_all [encode_tag_field tag, encode_size_field (length val), encode_bytes val]"

definition encode_oid :: "bytes \<Rightarrow> nat enc" where
  "encode_oid oid = encode_tlv OID_TAG oid"

section \<open>Names, algorithms and keys\<close>

definition encode_rdn_string :: "DirectoryString \<Rightarrow> nat enc" where
  "encode_rdn_string s =
     (case s of
        PrintableString val \<Rightarrow> encode_tlv PRINTABLE_STRING_TAG val
      | Utf8String val \<Rightarrow> encode_tlv UTF8_STRING_TAG val)"

definition encode_rdn :: "Name \<Rightarrow> nat enc" where
  "encode_rdn name =
     (let cn_size = get_structure_size (length RDN_COMMON_NAME_OID) True
            + get_structure_size (directory_string_len (name_cn name)) True;
          serialnumber_size = get_structure_size (length RDN_SERIALNUMBER_OID) True
            + get_structure_size (directory_string_len (name_serial name)) True;
          rdn_name_set_size = get_structure_size cn_size True;
          rdn_serial_set_size = get_structure_size serialnumber_size True;
          rdn_seq_size = get_structure_size rdn_name_set_size True
            + get_structure_size rdn_serial_set_size True
      in bind (encode_all
           [encode_tag_field SEQUENCE_OF_TAG, encode_size_field rdn_seq_size,
            encode_tag_field SET_OF_TAG, encode_size_field rdn_name_set_size,
            encode_tag_field SEQUENCE_TAG, encode_size_field cn_size,
            encode_oid RDN_COMMON_NAME_OID, encode_rdn_string (name_cn name),
            encode_tag_field SET_OF_TAG, encode_size_field rdn_serial_set_size,
            encode_tag_field SEQUENCE_TAG, encode_size_field serialnumber_size,
            encode_oid RDN_SERIALNUMBER_OID, encode_rdn_string (name_serial name)])
         (\<lambda>bytes_written. bind check_not_truncated (\<lambda>_. ret bytes_written)))"

definition encode_ec_pub_alg_id :: "bytes \<Rightarrow> nat enc" where
  "encode_ec_pub_alg_id curve_oid =
     encode_all [encode_tag_field SEQUENCE_TAG,
       encode_size_field (get_ec_pub_alg_id_size curve_oid False),
       encode_oid EC_PUB_OID, encode_oid curve_oid]"

definition encode_ecdsa_sig_alg_id :: "DpeProfile \<Rightarrow> nat enc" where
  "encode_ecdsa_sig_alg_id p =
     encode_all [encode_tag_field SEQUENCE_TAG, encode_size_field (get_ecdsa_sig_alg_id_size p False),
       encode_oid (sig_oid p)]"

definition encode_hash_alg_id :: "DpeProfile \<Rightarrow> nat enc" where
  "encode_hash_alg_id p =
     encode_all [encode_tag_field SEQUENCE_TAG, encode_size_field (get_hash_alg_id_size p False),
       encode_oid (hash_oid p)]"

definition encode_validity :: "CertValidity \<Rightarrow> nat enc" where
  "encode_validity validity =
     encode_all [encode_tag_field SEQUENCE_TAG, encode_size_field (get_validity_size validity False),
       encode_tlv GENERALIZE_TIME_TAG (not_before validity),
       encode_tlv GENERALIZE_TIME_TAG (not_after validity)]"

definition encode_ecdsa_subject_pubkey_info :: "EcdsaPubKey \<Rightarrow> bytes \<Rightarrow> nat enc" where
  "encode_ecdsa_subject_pubkey_info pub_key curve_oid =
     (let point_size = 1 + ecdsa_pub_curve_size pub_key + ecdsa_pub_curve_size pub_key;
          bitstring_size = 1 + point_size;
          seq_size = get_structure_size bitstring_size True + get_ec_pub_alg_id_size curve_oid True;
          (x, y) = ecdsa_pub_as_slice pub_key
      in encode_all [encode_tag_field SEQUENCE_TAG, encode_size_field seq_size,
           encode_ec_pub_alg_id curve_oid,
           encode_tag_field BIT_STRING_TAG, encode_size_field bitstring_size, encode_byte 0,
           encode_byte 0x4, encode_bytes x, encode_bytes y])"

definition encode_ecdsa_signature_bit_string :: "EcdsaSignature \<Rightarrow> nat enc" where
  "encode_ecdsa_signature_bit_string sig =
     (let (r, s) = ecdsa_sig_as_slice sig;
          seq_size = get_integer_bytes_size r True + get_integer_bytes_size s True
      in encode_all [encode_tag_field BIT_STRING_TAG,
           encode_size_field (get_structure_size (1 + seq_size) True), encode_byte 0,
           encode_tag_field SEQUENCE_TAG, encode_size_field seq_size,
           encode_integer_bytes r True, encode_integer_bytes s True])"

definition encode_ecdsa_signature_octet_string :: "EcdsaSignature \<Rightarrow> nat enc" where
  "encode_ecdsa_signature_octet_string sig =
     (let (r, s) = ecdsa_sig_as_slice sig;
          seq_size = get_integer_bytes_size r True + get_integer_bytes_size s True
      in encode_all [encode_tag_field OCTET_STRING_TAG,
           encode_size_field (get_structure_size seq_size True),
           encode_tag_field SEQUENCE_TAG, encode_size_field seq_size,
           encode_integer_bytes r True, encode_integer_bytes s True])"

definition encode_mldsa_signature_octet_string :: "bytes \<Rightarrow> nat enc" where
  "encode_mldsa_signature_octet_string sig = encode_tlv OCTET_STRING_TAG sig"

definition encode_mldsa_sig_alg_id :: "DpeProfile \<Rightarrow> nat enc" where
  "encode_mldsa_sig_alg_id p =
     encode_all [encode_tag_field SEQUENCE_TAG, encode_size_field (get_mldsa_sig_alg_id_size p False),
       encode_oid (sig_oid p)]"

definition encode_mldsa_subject_pubkey_info :: "DpeProfile \<Rightarrow> bytes \<Rightarrow> nat enc" where
  "encode_mldsa_subject_pubkey_info p pub_key =
     encode_all [encode_tag_field SEQUENCE_TAG,
       encode_size_field (get_mldsa_subject_pubkey_info_size p pub_key False),
       encode_mldsa_sig_alg_id p,
       encode_tag_field BIT_STRING_TAG, encode_size_field (1 + length pub_key), encode_byte 0,
       encode_bytes pub_key]"

definition encode_mldsa_signature_bit_string :: "bytes \<Rightarrow> nat enc" where
  "encode_mldsa_signature_bit_string sig =
     encode_all [encode_tag_field BIT_STRING_TAG, encode_size_field (1 + length sig), encode_byte 0,
       encode_bytes sig]"

definition encode_signature_bit_string :: "DpeProfile \<Rightarrow> Signature \<Rightarrow> nat enc" where
  "encode_signature_bit_string p sig =
     (case sig of
        SigEcdsa s \<Rightarrow> encode_all [encode_ecdsa_sig_alg_id p, encode_ecdsa_signature_bit_string s]
      | SigMldsa s \<Rightarrow> encode_all [encode_mldsa_sig_alg_id p, encode_mldsa_signature_bit_string s])"

definition encode_signature_octet_string :: "DpeProfile \<Rightarrow> Signature \<Rightarrow> nat enc" where
  "encode_signature_octet_string p sig =
     (case sig of
        SigEcdsa s \<Rightarrow> encode_all [encode_ecdsa_sig_alg_id p, encode_ecdsa_signature_octet_string s]
      | SigMldsa s \<Rightarrow> encode_all [encode_mldsa_sig_alg_id p, encode_mldsa_signature_octet_string s])"

definition encode_version :: "nat enc" where
  "encode_version =
     encode_all [encode_byte (CONTEXT_SPECIFIC OR CONSTRUCTED),
       encode_size_field (get_integer_size X509_V3 True), encode_integer X509_V3 True]"

text \<open>A key whose curve the build leaves out is refused; the build modelled has all of them.\<close>

definition encode_pub_key_info :: "DpeProfile \<Rightarrow> PubKey \<Rightarrow> nat enc" where
  "encode_pub_key_info p pub_key =
     (case pub_key of
        PubEcdsa k \<Rightarrow>
          (case k of
             EcdsaPub256 _ _ \<Rightarrow> encode_ecdsa_subject_pubkey_info k CURVE_P256_OID
           | EcdsaPub384 _ _ \<Rightarrow> encode_ecdsa_subject_pubkey_info k CURVE_P384_OID)
      | PubMldsa k \<Rightarrow> encode_mldsa_subject_pubkey_info p k)"

section \<open>Extensions\<close>

definition encode_extension_header :: "bytes \<Rightarrow> u8 option \<Rightarrow> nat \<Rightarrow> nat enc" where
  "encode_extension_header oid critical content_size =
     (let total_size = get_extension_size oid (critical \<noteq> None) content_size False
      in encode_all
        ([encode_byte SEQUENCE_TAG, encode_size_field total_size, encode_oid oid] @
         (case critical of
            None \<Rightarrow> []
          | Some crit_val \<Rightarrow> [encode_byte BOOL_TAG, encode_size_field BOOL_SIZE, encode_byte crit_val]) @
         [encode_byte OCTET_STRING_TAG, encode_size_field content_size]))"

definition encode_fwid :: "DpeProfile \<Rightarrow> TciMeasurement \<Rightarrow> nat enc" where
  "encode_fwid p digest =
     encode_all [encode_byte SEQUENCE_TAG, encode_size_field (get_fwid_size p digest False),
       encode_oid (hash_oid p), encode_tlv OCTET_STRING_TAG digest]"

definition encode_integrity_registers :: "DpeProfile \<Rightarrow> TciNodeData \<Rightarrow> nat enc" where
  "encode_integrity_registers p node =
     (let fwid_size = get_fwid_size p (tci_cumulative node) True;
          fwid_list_size = get_structure_size fwid_size True;
          ir_num_size = get_integer_size INTEGRITY_REGISTER_NUM True;
          integrity_register_size = get_structure_size (ir_num_size + fwid_list_size) True
      in encode_all
        [encode_byte (CONTEXT_SPECIFIC OR CONSTRUCTED OR 11), encode_size_field integrity_register_size,
         encode_byte SEQUENCE_TAG, encode_size_field (ir_num_size + fwid_list_size),
         encode_byte (CONTEXT_SPECIFIC OR 0x01), encode_integer INTEGRITY_REGISTER_NUM False,
         encode_byte (CONTEXT_SPECIFIC OR CONSTRUCTED OR 0x02), encode_size_field fwid_size,
         encode_fwid p (tci_cumulative node)])"

definition encode_tcb_info :: "DpeProfile \<Rightarrow> bool \<Rightarrow> TciNodeData \<Rightarrow> nat enc" where
  "encode_tcb_info p supports_recursive node =
     (let tcb_info_size = get_tcb_info_size p node supports_recursive False;
          fwid_size = get_fwid_size p (tci_current node) True
      in encode_all
        ([encode_byte SEQUENCE_TAG, encode_size_field tcb_info_size,
          encode_byte (CONTEXT_SPECIFIC OR 0x03), encode_integer (ucast (tci_svn node)) False,
          encode_byte (CONTEXT_SPECIFIC OR CONSTRUCTED OR 0x06), encode_size_field fwid_size,
          encode_fwid p (tci_current node),
          encode_tlv (CONTEXT_SPECIFIC OR 0x08) (u32_to_be_bytes (tci_locality node)),
          encode_tlv (CONTEXT_SPECIFIC OR 0x09) (u32_to_le_bytes (tci_type node))] @
         (if supports_recursive then [encode_integrity_registers p node] else [])))"

text \<open>The loop over the nodes: an error the iterator yields ends it.\<close>

fun encode_nodes ::
  "DpeProfile \<Rightarrow> bool \<Rightarrow> (DpeErrorCode, Context) outcome list \<Rightarrow> nat enc" where
  "encode_nodes p supports_recursive [] = ret 0"
| "encode_nodes p supports_recursive (node # nodes) =
     bind (lift node) (\<lambda>c.
     bind (encode_tcb_info p supports_recursive (tci c)) (\<lambda>n.
     bind (encode_nodes p supports_recursive nodes) (\<lambda>k. ret (n + k))))"

definition crit_byte :: "bool \<Rightarrow> u8 option" where
  "crit_byte crit = (if crit then Some 0xFF else None)"

definition encode_multi_tcb_info :: "DpeProfile \<Rightarrow> bool \<Rightarrow> MeasurementData \<Rightarrow> nat enc" where
  "encode_multi_tcb_info p crit md =
     bind (lift (bindO (TciNodes_is_empty (md_tci_nodes md)) (\<lambda>empty.
         if empty then Ok 0
         else
           bindO (TciNodes_first_node (md_tci_nodes md)) (\<lambda>first.
           bindO (TciNodes_num_nodes (md_tci_nodes md)) (\<lambda>n.
           Ok (get_tcb_info_size p first (md_supports_recursive md) True * n)))))) (\<lambda>tcb_infos_size.
     let multi_tcb_info_size = get_structure_size tcb_infos_size True in
     bind (encode_all
         [encode_extension_header MULTI_TCBINFO_OID (crit_byte crit) multi_tcb_info_size,
          encode_byte SEQUENCE_OF_TAG, encode_size_field tcb_infos_size]) (\<lambda>n.
     bind (lift (TciNodes_iter (md_tci_nodes md))) (\<lambda>it.
     bind (encode_nodes p (md_supports_recursive md) (iter_items it)) (\<lambda>k.
     ret (n + k)))))"

definition encode_ueid :: "bool \<Rightarrow> MeasurementData \<Rightarrow> nat enc" where
  "encode_ueid crit md =
     (let ext_size = get_structure_size (get_structure_size (length (md_label md)) True) True
      in encode_all
        [encode_extension_header UEID_OID (crit_byte crit) ext_size,
         encode_byte SEQUENCE_TAG,
         encode_size_field (get_structure_size (length (md_label md)) True),
         encode_tlv OCTET_STRING_TAG (md_label md)])"

definition encode_basic_constraints :: "MeasurementData \<Rightarrow> nat enc" where
  "encode_basic_constraints md =
     (let ca_size = (if md_is_ca md then get_structure_size BOOL_SIZE True else 0);
          ext_size = get_structure_size ca_size True
      in encode_all
        ([encode_extension_header BASIC_CONSTRAINTS_OID (Some 0xFF) ext_size,
          encode_byte SEQUENCE_TAG, encode_size_field ca_size] @
         (if md_is_ca md
          then [encode_byte BOOL_TAG, encode_size_field BOOL_SIZE, encode_byte 0xFF] else [])))"

definition encode_key_usage :: "bool \<Rightarrow> nat enc" where
  "encode_key_usage is_ca =
     (let ext_size = get_structure_size 2 True;
          (key_usage, unused_bits) =
            (if is_ca then (DIGITAL_SIGNATURE OR KEY_CERT_SIGN, 2) else (DIGITAL_SIGNATURE, 7))
      in encode_all
        [encode_extension_header KEY_USAGE_OID (Some 0xFF) ext_size,
         encode_byte BIT_STRING_TAG, encode_size_field 2,
         encode_byte unused_bits, encode_byte key_usage])"

definition encode_extended_key_usage :: "MeasurementData \<Rightarrow> nat enc" where
  "encode_extended_key_usage md =
     (let policy_oid = (if md_is_ca md then ECA_OID else ATTEST_LOC_OID);
          ext_size = get_structure_size (get_structure_size (length policy_oid) True) True
      in encode_all
        [encode_extension_header EXTENDED_KEY_USAGE_OID (Some 0xFF) ext_size,
         encode_byte SEQUENCE_TAG, encode_size_field (get_structure_size (length policy_oid) True),
         encode_oid policy_oid])"

definition encode_other_name_value :: "bytes \<Rightarrow> nat enc" where
  "encode_other_name_value other_name_value =
     encode_all
       [encode_byte (CONTEXT_SPECIFIC OR CONSTRUCTED OR 0x0),
        encode_size_field (get_other_name_value_size other_name_value True False),
        encode_tlv UTF8_STRING_TAG other_name_value]"

definition encode_other_name :: "OtherName \<Rightarrow> nat enc" where
  "encode_other_name other_name =
     encode_all
       [encode_byte (CONTEXT_SPECIFIC OR CONSTRUCTED OR 0x0),
        encode_size_field (get_other_name_size other_name False),
        encode_oid (on_oid other_name), encode_other_name_value (on_other_name other_name)]"

definition encode_subject_alt_name_extension :: "MeasurementData \<Rightarrow> nat enc" where
  "encode_subject_alt_name_extension md =
     (case md_subject_alt_name md of
        None \<Rightarrow> ret 0
      | Some (SanOtherName other_name) \<Rightarrow>
          let other_name_size = get_other_name_size other_name True;
              ext_size = get_structure_size other_name_size True
          in encode_all
            [encode_extension_header SUBJECT_ALTERNATIVE_NAME_OID None ext_size,
             encode_byte SEQUENCE_TAG, encode_size_field other_name_size,
             encode_other_name other_name])"

definition encode_key_identifier :: "bytes \<Rightarrow> nat enc" where
  "encode_key_identifier key_identifier = encode_tlv (CONTEXT_SPECIFIC OR 0x0) key_identifier"

definition encode_authority_key_identifier_extension :: "MeasurementData \<Rightarrow> bool \<Rightarrow> nat enc" where
  "encode_authority_key_identifier_extension md is_x509 =
     (if \<not> is_x509 then ret 0
      else
        let key_identifier_size = get_key_identifier_size (md_authority_key_identifier md) True False;
            ext_size = get_structure_size key_identifier_size True
        in encode_all
          [encode_extension_header AUTHORITY_KEY_IDENTIFIER_OID None ext_size,
           encode_byte SEQUENCE_TAG, encode_size_field key_identifier_size,
           encode_key_identifier (md_authority_key_identifier md)])"

definition encode_subject_key_identifier_extension :: "MeasurementData \<Rightarrow> bool \<Rightarrow> nat enc" where
  "encode_subject_key_identifier_extension md is_x509 =
     (if \<not> md_is_ca md \<or> \<not> is_x509 then ret 0
      else
        let ext_size = get_structure_size (length (md_subject_key_identifier md)) True
        in encode_all
          [encode_extension_header SUBJECT_KEY_IDENTIFIER_OID None ext_size,
           encode_tlv OCTET_STRING_TAG (md_subject_key_identifier md)])"

definition encode_extensions :: "DpeProfile \<Rightarrow> bool \<Rightarrow> MeasurementData \<Rightarrow> bool \<Rightarrow> nat enc" where
  "encode_extensions p crit md is_x509 =
     encode_all
       ((if is_x509
         then [encode_byte (CONTEXT_SPECIFIC OR CONSTRUCTED OR 0x03),
               bind (lift (get_extensions_size p crit md True False is_x509)) encode_size_field]
         else []) @
        [encode_byte SEQUENCE_OF_TAG,
         bind (lift (get_extensions_size p crit md False False is_x509)) encode_size_field,
         encode_multi_tcb_info p crit md, encode_ueid crit md, encode_basic_constraints md,
         encode_key_usage (md_is_ca md), encode_extended_key_usage md,
         encode_subject_key_identifier_extension md is_x509,
         encode_authority_key_identifier_extension md is_x509,
         encode_subject_alt_name_extension md])"

section \<open>The structures to sign\<close>

definition encode_tbs ::
  "DpeProfile \<Rightarrow> bool \<Rightarrow> bytes \<Rightarrow> bytes \<Rightarrow> Name \<Rightarrow> PubKey \<Rightarrow> MeasurementData \<Rightarrow> CertValidity \<Rightarrow> nat enc" where
  "encode_tbs p crit sn issuer subject_name pubkey md validity =
     bind (encode_tag_field SEQUENCE_TAG) (\<lambda>prefix.
     bind (push_backtrack SIZE_TAG_OFFSET) (\<lambda>_.
     bind (encode_all
         [encode_version, encode_integer_bytes sn True,
          (case pubkey of PubEcdsa _ \<Rightarrow> encode_ecdsa_sig_alg_id p | PubMldsa _ \<Rightarrow> encode_mldsa_sig_alg_id p),
          encode_bytes issuer, encode_validity validity, encode_rdn subject_name,
          encode_pub_key_info p pubkey, encode_extensions p crit md True]) (\<lambda>bytes_written.
     bind (backtrack_and_encode_size [bytes_written]) (\<lambda>n.
     bind check_not_truncated (\<lambda>_. ret (prefix + n + bytes_written))))))"

definition encode_attributes :: "DpeProfile \<Rightarrow> bool \<Rightarrow> MeasurementData \<Rightarrow> nat enc" where
  "encode_attributes p crit md =
     encode_all
       [encode_byte (CONTEXT_SPECIFIC OR CONSTRUCTED OR 0x0),
        bind (lift (get_attributes_size p crit md False)) encode_size_field,
        encode_tag_field SEQUENCE_TAG,
        bind (lift (get_attribute_size p crit md False)) encode_size_field,
        encode_oid EXTENSION_REQUEST_OID,
        encode_tag_field SET_OF_TAG,
        bind (lift (get_extensions_size p crit md True False False)) encode_size_field,
        encode_extensions p crit md False]"

definition encode_certification_request_info ::
  "DpeProfile \<Rightarrow> bool \<Rightarrow> PubKey \<Rightarrow> Name \<Rightarrow> MeasurementData \<Rightarrow> nat enc" where
  "encode_certification_request_info p crit pub_key subject_name md =
     bind (encode_tag_field SEQUENCE_TAG) (\<lambda>prefix.
     bind (push_backtrack SIZE_TAG_OFFSET) (\<lambda>_.
     bind (encode_all
         [encode_integer CSR_V0 True, encode_rdn subject_name, encode_pub_key_info p pub_key,
          encode_attributes p crit md]) (\<lambda>bytes_written.
     bind (backtrack_and_encode_size [bytes_written]) (\<lambda>n.
     bind check_not_truncated (\<lambda>_. ret (prefix + n + bytes_written))))))"

section \<open>CMS structures\<close>

definition encode_cms_version :: "SignerIdentifier \<Rightarrow> nat enc" where
  "encode_cms_version sid =
     (case sid of
        IssuerAndSerialNumber _ _ \<Rightarrow> encode_integer CMS_V1 True
      | SubjectKeyIdentifier _ \<Rightarrow> encode_integer CMS_V3 True)"

definition encode_issuer_and_serial_number :: "bytes \<Rightarrow> bytes \<Rightarrow> nat enc" where
  "encode_issuer_and_serial_number sn issuer =
     encode_all
       [encode_tag_field SEQUENCE_TAG,
        encode_size_field (get_issuer_and_serial_number_size sn issuer False),
        encode_bytes issuer, encode_integer_bytes sn True]"

definition encode_subject_key_identifier :: "bytes \<Rightarrow> nat enc" where
  "encode_subject_key_identifier ski =
     encode_all
       [encode_byte (CONTEXT_SPECIFIC OR 0x0),
        encode_size_field (get_subject_key_identifier_size ski True False),
        encode_tlv OCTET_STRING_TAG ski]"

definition encode_signer_identifier :: "SignerIdentifier \<Rightarrow> nat enc" where
  "encode_signer_identifier sid =
     (case sid of
        IssuerAndSerialNumber issuer sn \<Rightarrow> encode_issuer_and_serial_number sn issuer
      | SubjectKeyIdentifier ski \<Rightarrow> encode_subject_key_identifier ski)"

definition encode_signer_info :: "DpeProfile \<Rightarrow> Signature \<Rightarrow> SignerIdentifier \<Rightarrow> nat enc" where
  "encode_signer_info p sig sid =
     bind (encode_all
         [encode_tag_field SEQUENCE_TAG, encode_size_field (get_signer_info_size p sig sid False),
          encode_cms_version sid, encode_signer_identifier sid, encode_hash_alg_id p,
          encode_signature_octet_string p sig]) (\<lambda>bytes_written.
     bind check_not_truncated (\<lambda>_. ret bytes_written))"

end
