(* ===== verification/X509_Sign.thy ===== *)
theory X509_Sign
  imports X509_Writer
begin

text \<open>
  The part of dpe/src/x509.rs that signs: \<open>encode_signed_payload\<close>, the certificate, CSR and CMS
  encoders and \<open>generate_cert_or_csr\<close>. They run on the state of the crypto implementation beside the
  writer, because the sign callback is called while the message is being written. The signature
  buffer is returned with the number of bytes.
\<close>

definition on_writer :: "'a enc \<Rightarrow> ('c \<times> CertWriter, DpeErrorCode, 'a) act" where
  "on_writer m cw = (case m (snd cw) of (r, w') \<Rightarrow> (r, (fst cw, w')))"

text \<open>The callback is shown the buffer of the writer and the range to sign.\<close>

definition call_sign_cb ::
  "'c sign_cb \<Rightarrow> nat \<Rightarrow> nat \<Rightarrow> bool \<Rightarrow> Signature \<Rightarrow> ('c \<times> CertWriter, DpeErrorCode, Signature) act" where
  "call_sign_cb cb a z use_derived sig cw =
     (case cb (\<lambda>a z. offset_read_range slice_read_range (cw_base (snd cw)) a z (cw_certificate (snd cw)))
        a z use_derived sig (fst cw) of
        (r, c') \<Rightarrow> (map_err Crypto r, (c', snd cw)))"

primrec ecdsa_sig_zeroize :: "EcdsaSignature \<Rightarrow> EcdsaSignature" where
  "ecdsa_sig_zeroize (EcdsaSig256 r s) = EcdsaSig256 (replicate (length r) 0) (replicate (length s) 0)"
| "ecdsa_sig_zeroize (EcdsaSig384 r s) = EcdsaSig384 (replicate (length r) 0) (replicate (length s) 0)"

primrec signature_zeroize :: "Signature \<Rightarrow> Signature" where
  "signature_zeroize (SigEcdsa s) = SigEcdsa (ecdsa_sig_zeroize s)"
| "signature_zeroize (SigMldsa s) = SigMldsa (replicate (length s) 0)"

datatype SignedPayload =
    Tbs bytes bytes Name PubKey MeasurementData CertValidity
  | CertReqInfo PubKey Name MeasurementData

definition encode_signed_payload ::
  "DpeProfile \<Rightarrow> bool \<Rightarrow> 'c sign_cb \<Rightarrow> SignedPayload \<Rightarrow> Signature \<Rightarrow>
     ('c \<times> CertWriter, DpeErrorCode, nat \<times> Signature) act" where
  "encode_signed_payload p crit cb payload sig =
     bind (on_writer (encode_tag_field SEQUENCE_TAG)) (\<lambda>prefix.
     bind (on_writer (push_backtrack SIZE_TAG_OFFSET)) (\<lambda>off.
     bind (case payload of
         Tbs sn issuer subject_name pubkey md validity \<Rightarrow>
           bind (on_writer (encode_tbs p crit sn issuer subject_name pubkey md validity)) (\<lambda>n.
           ret (n, False))
       | CertReqInfo pub_key subject_name md \<Rightarrow>
           bind (on_writer (encode_certification_request_info p crit pub_key subject_name md)) (\<lambda>n.
           ret (n, True))) (\<lambda>(payload_bytes, is_csr).
     bind (call_sign_cb cb off (off + payload_bytes) is_csr sig) (\<lambda>sig.
     bind (on_writer (encode_signature_bit_string p sig)) (\<lambda>sig_bytes.
     let sig = signature_zeroize sig; body_size = payload_bytes + sig_bytes in
     bind (on_writer (backtrack_and_encode_size [body_size])) (\<lambda>k.
     ret (body_size + (prefix + k), sig)))))))"

definition encode_certificate ::
  "DpeProfile \<Rightarrow> bool \<Rightarrow> 'c sign_cb \<Rightarrow> bytes \<Rightarrow> bytes \<Rightarrow> Name \<Rightarrow> PubKey \<Rightarrow> MeasurementData \<Rightarrow>
     CertValidity \<Rightarrow> Signature \<Rightarrow> ('c \<times> CertWriter, DpeErrorCode, nat \<times> Signature) act" where
  "encode_certificate p crit cb sn issuer subject_name pubkey md validity sig =
     bind (encode_signed_payload p crit cb (Tbs sn issuer subject_name pubkey md validity) sig) (\<lambda>r.
     bind (on_writer check_not_truncated) (\<lambda>_. ret r))"

definition encode_csr ::
  "DpeProfile \<Rightarrow> bool \<Rightarrow> 'c sign_cb \<Rightarrow> PubKey \<Rightarrow> Name \<Rightarrow> MeasurementData \<Rightarrow> Signature \<Rightarrow>
     ('c \<times> CertWriter, DpeErrorCode, nat \<times> Signature) act" where
  "encode_csr p crit cb pub_key subject_name md sig =
     bind (encode_signed_payload p crit cb (CertReqInfo pub_key subject_name md) sig) (\<lambda>r.
     bind (on_writer check_not_truncated) (\<lambda>_. ret r))"

definition encode_encapsulated_content_info ::
  "DpeProfile \<Rightarrow> bool \<Rightarrow> 'c sign_cb \<Rightarrow> PubKey \<Rightarrow> Name \<Rightarrow> MeasurementData \<Rightarrow> Signature \<Rightarrow>
     ('c \<times> CertWriter, DpeErrorCode, nat \<times> Signature) act" where
  "encode_encapsulated_content_info p crit cb pub_key subject_name md sig =
     bind (on_writer (encode_byte SEQUENCE_TAG)) (\<lambda>size_bytes.
     bind (on_writer (push_backtrack SIZE_TAG_OFFSET)) (\<lambda>_.
     bind (on_writer (encode_oid ID_DATA_OID)) (\<lambda>n1.
     bind (on_writer (encode_byte (CONTEXT_SPECIFIC OR CONSTRUCTED OR 0x0))) (\<lambda>n2.
     bind (on_writer (push_backtrack SIZE_TAG_OFFSET)) (\<lambda>_.
     bind (on_writer (encode_byte OCTET_STRING_TAG)) (\<lambda>n3.
     bind (on_writer (push_backtrack SIZE_TAG_OFFSET)) (\<lambda>off.
     bind (encode_csr p crit cb pub_key subject_name md sig) (\<lambda>(csr_bytes, sig).
     bind (on_writer (modify (\<lambda>w. w\<lparr>cw_csr_range := Some (off, off + csr_bytes)\<rparr>))) (\<lambda>_.
     let econtent_1_size = get_econtent_size csr_bytes False False;
         econtent_0_size = get_econtent_size csr_bytes True False in
     bind (on_writer (backtrack_and_encode_size [econtent_1_size, econtent_0_size])) (\<lambda>k.
     let bytes_written = n1 + n2 + n3 + k in
     bind (on_writer (backtrack_and_encode_size [bytes_written + csr_bytes])) (\<lambda>j.
     ret (bytes_written + csr_bytes + (size_bytes + j), sig))))))))))))"

definition encode_cms ::
  "DpeProfile \<Rightarrow> bool \<Rightarrow> 'c sign_cb \<Rightarrow> PubKey \<Rightarrow> Name \<Rightarrow> MeasurementData \<Rightarrow> SignerIdentifier \<Rightarrow> Signature \<Rightarrow>
     ('c \<times> CertWriter, DpeErrorCode, nat \<times> Signature) act" where
  "encode_cms p crit cb pub_key subject_name md sid sig =
     bind (on_writer (encode_byte SEQUENCE_TAG)) (\<lambda>n.
     let content_info_prefix = n + SIZE_TAG_OFFSET in
     bind (on_writer (push_backtrack SIZE_TAG_OFFSET)) (\<lambda>_.
     bind (on_writer (encode_oid ID_SIGNED_DATA_OID)) (\<lambda>content_info_body.
     bind (on_writer (encode_byte (CONTEXT_SPECIFIC OR CONSTRUCTED OR 0x0))) (\<lambda>n.
     let content_info_body = content_info_body + (n + SIZE_TAG_OFFSET) in
     bind (on_writer (push_backtrack SIZE_TAG_OFFSET)) (\<lambda>_.
     bind (on_writer (encode_tag_field SEQUENCE_TAG)) (\<lambda>n.
     let signed_data_prefix = n + SIZE_TAG_OFFSET in
     bind (on_writer (push_backtrack SIZE_TAG_OFFSET)) (\<lambda>_.
     bind (on_writer (encode_all
         [encode_cms_version sid,
          encode_tag_field SET_OF_TAG, encode_size_field (get_hash_alg_id_size p True),
          encode_hash_alg_id p])) (\<lambda>n1.
     bind (encode_encapsulated_content_info p crit cb pub_key subject_name md sig) (\<lambda>(n2, sig).
     bind (on_writer (gets cw_csr_range)) (\<lambda>csr_range.
     bind (lift (ok_or csr_range X509CsrUnset)) (\<lambda>(csr_start, csr_end).
     bind (call_sign_cb cb csr_start csr_end False sig) (\<lambda>sig.
     bind (on_writer (encode_all
         [encode_tag_field SET_OF_TAG, encode_size_field (get_signer_info_size p sig sid True),
          encode_signer_info p sig sid])) (\<lambda>n3.
     let sig = signature_zeroize sig;
         signed_data_body = n1 + n2 + n3;
         signed_data_field_1 = signed_data_body;
         signed_data_field_0 = signed_data_prefix + signed_data_field_1;
         content_info_size = content_info_body + signed_data_field_0 in
     bind (on_writer (backtrack_and_encode_size
         [signed_data_field_1, signed_data_field_0, content_info_size])) (\<lambda>_.
     bind (on_writer (gets cw_backtracks)) (\<lambda>backtracks.
     bind (guard_err (backtracks \<noteq> []) X509InvalidState) (\<lambda>_.
     bind (on_writer check_not_truncated) (\<lambda>_.
     ret (content_info_prefix + content_info_size, sig))))))))))))))))))"

section \<open>The entry point\<close>

definition u32_try_from :: "nat \<Rightarrow> InternalErrorCode \<Rightarrow> (DpeErrorCode, u32) outcome" where
  "u32_try_from n e = (if n < 2 ^ 32 then Ok (of_nat n) else Err (InternalError e))"

definition with_writer ::
  "nat \<Rightarrow> ('c \<times> CertWriter, DpeErrorCode, 'a) act \<Rightarrow> ('c \<times> bytes, DpeErrorCode, 'a) act" where
  "with_writer base m cb =
     (case m (fst cb, CertWriter_new (snd cb) base) of
        (r, (c', w')) \<Rightarrow> (r, (c', cw_certificate w')))"

definition generate_cert_or_csr :: "'c cert_gen" where
  "generate_cert_or_csr fmt p crit subject_name pub_key md cb base sig =
     (case fmt of
        CertArgs issuer validity \<Rightarrow>
          bind (lift (ok_or (get_range (ds_bytes (name_serial subject_name)) 0 20)
              (InternalError SerialNumberSliceOob))) (\<lambda>sn.
          bind (with_writer base
              (encode_certificate p crit cb sn issuer subject_name pub_key md validity sig)) (\<lambda>(n, _).
          lift (u32_try_from n CertSizeOverflow)))
      | CsrArgs sid \<Rightarrow>
          bind (with_writer base (encode_cms p crit cb pub_key subject_name md sid sig)) (\<lambda>(n, _).
          lift (u32_try_from n CsrSizeOverflow)))"

end
