(* ===== verification/Der.thy ===== *)
theory Der
  imports Prelude
begin

text \<open>
  The distinguished encoding rules that certificates are written in, as far as they are needed to
  say what the encoder of dpe/src/x509.rs must produce: tag-length-value elements with the shortest
  length field, INTEGER contents without superfluous bytes, and a reader that takes such bytes apart
  again. Nothing here is taken from the encoder.
\<close>

section \<open>Big-endian octets\<close>

fun be_octets :: "nat \<Rightarrow> nat \<Rightarrow> bytes" where
  "be_octets 0 n = []"
| "be_octets (Suc k) n = be_octets k (n div 256) @ [of_nat n]"

definition octets_val :: "bytes \<Rightarrow> nat" where
  "octets_val bs = foldl (\<lambda>a b. 256 * a + unat b) 0 bs"

lemma octets_val_snoc [simp]: "octets_val (bs @ [b]) = 256 * octets_val bs + unat b"
  by (simp add: octets_val_def)

lemma octets_val_Nil [simp]: "octets_val [] = 0"
  by (simp add: octets_val_def)

lemma octets_val_zero [simp]: "octets_val (0 # bs) = octets_val bs"
  by (simp add: octets_val_def)

lemma octets_val_dropWhile [simp]: "octets_val (dropWhile ((=) 0) bs) = octets_val bs"
  by (induction bs) auto

lemma octets_val_zeros: "\<forall>x \<in> set bs. x = 0 \<Longrightarrow> octets_val bs = 0"
  by (induction bs) auto

lemma length_be_octets [simp]: "length (be_octets k n) = k"
  by (induction k arbitrary: n) simp_all

lemma unat_of_nat_u8: "unat (of_nat n :: u8) = n mod 256"
  by (simp add: unat_of_nat)

lemma octets_val_be_octets: "n < 256 ^ k \<Longrightarrow> octets_val (be_octets k n) = n"
proof (induction k arbitrary: n)
  case (Suc k)
  then have "n div 256 < 256 ^ k" by (simp add: less_mult_imp_div_less mult.commute)
  with Suc show ?case by (simp add: unat_of_nat_u8)
qed simp

section \<open>Tag, length, value\<close>

definition len_octets :: "nat \<Rightarrow> nat" where
  "len_octets n = (if n < 256 then 1 else if n < 65536 then 2 else if n < 16777216 then 3 else 4)"

definition der_len :: "nat \<Rightarrow> bytes" where
  "der_len n = (if n < 128 then [of_nat n] else of_nat (128 + len_octets n) # be_octets (len_octets n) n)"

definition der :: "u8 \<Rightarrow> bytes \<Rightarrow> bytes" where
  "der t c = t # der_len (length c) @ c"

text \<open>
  The reader accepts the short form below 128 and the long form only when it is the shortest one.
\<close>

fun read_len :: "bytes \<Rightarrow> (nat \<times> bytes) option" where
  "read_len [] = None"
| "read_len (b # r) =
     (if unat b < 128 then Some (unat b, r)
      else
        let k = unat b - 128; n = octets_val (take k r)
        in if k \<le> length r \<and> der_len n = b # take k r then Some (n, drop k r) else None)"

fun read_tlv :: "bytes \<Rightarrow> (u8 \<times> bytes \<times> bytes) option" where
  "read_tlv [] = None"
| "read_tlv (t # r) =
     (case read_len r of
        None \<Rightarrow> None
      | Some (n, r') \<Rightarrow> if n \<le> length r' then Some (t, take n r', drop n r') else None)"

lemma len_octets_bounds:
  "1 \<le> len_octets n" "len_octets n \<le> 4" "n < 2 ^ 32 \<Longrightarrow> n < 256 ^ len_octets n"
  by (auto simp: len_octets_def)

lemma read_len_der_len:
  assumes "n < 2 ^ 32"
  shows "read_len (der_len n @ r) = Some (n, r)"
proof (cases "n < 128")
  case True
  then show ?thesis by (simp add: der_len_def unat_of_nat_u8)
next
  case False
  let ?k = "len_octets n" and ?b = "of_nat (128 + len_octets n) :: u8"
  have d: "der_len n = ?b # be_octets ?k n" using False by (simp add: der_len_def)
  have b: "unat ?b = 128 + ?k"
    using len_octets_bounds(2) [of n] by (simp only: unat_of_nat_u8) simp
  have v: "octets_val (be_octets ?k n) = n"
    by (rule octets_val_be_octets [OF len_octets_bounds(3) [OF assms]])
  have "read_len (bt # os @ r) = Some (n, r)"
    if "unat bt = 128 + k" "length os = k" "octets_val os = n" "der_len n = bt # os" for bt k os
  proof -
    have 1: "unat bt - 128 = k" "\<not> unat bt < 128" using that(1) by simp_all
    have 2: "take k (os @ r) = os" "drop k (os @ r) = r" "k \<le> length (os @ r)"
      using that(2) by simp_all
    show ?thesis
      by (simp only: read_len.simps Let_def 1 2 that(3,4) if_False if_True simp_thms)
  qed
  from this [OF b length_be_octets v d] show ?thesis by (simp only: d append_Cons)
qed

theorem read_tlv_der:
  assumes "length c < 2 ^ 32"
  shows "read_tlv (der t c @ r) = Some (t, c, r)"
  using read_len_der_len [OF assms, of "c @ r"] by (simp add: der_def)

lemma der_inject:
  assumes "der t c @ r = der t' c' @ r'" "length c < 2 ^ 32" "length c' < 2 ^ 32"
  shows "t = t' \<and> c = c' \<and> r = r'"
  using read_tlv_der [OF assms(2), of t r, unfolded assms(1)] read_tlv_der [OF assms(3), of t' r']
  by (simp del: read_tlv.simps)

text \<open>The elements of a sequence, one after the other.\<close>

lemma read_len_length: "read_len bs = Some (n, r) \<Longrightarrow> length r < length bs"
  by (cases bs) (auto simp: Let_def split: if_splits)

lemma read_tlv_length: "read_tlv bs = Some (t, c, r) \<Longrightarrow> length r < length bs"
  by (cases bs) (fastforce dest: read_len_length split: option.splits if_splits)+

function read_items :: "bytes \<Rightarrow> (u8 \<times> bytes) list option" where
  "read_items bs =
     (if bs = [] then Some []
      else case read_tlv bs of
          None \<Rightarrow> None
        | Some (t, c, r) \<Rightarrow> map_option (Cons (t, c)) (read_items r))"
  by pat_completeness auto
termination by (relation "measure length") (auto dest: read_tlv_length)

declare read_items.simps [simp del]

definition der_items :: "(u8 \<times> bytes) list \<Rightarrow> bytes" where
  "der_items xs = concat (map (\<lambda>(t, c). der t c) xs)"

lemma der_not_Nil [simp]: "der t c \<noteq> []"
  by (simp add: der_def)

theorem read_items_der_items:
  "\<forall>(t, c) \<in> set xs. length c < 2 ^ 32 \<Longrightarrow> read_items (der_items xs) = Some xs"
proof (induction xs)
  case Nil
  then show ?case by (simp add: der_items_def read_items.simps [of "[]"])
next
  case (Cons x xs)
  obtain t c where x: "x = (t, c)" by (cases x)
  have "der_items (x # xs) = der t c @ der_items xs" by (simp add: der_items_def x)
  with Cons read_tlv_der [of c t "der_items xs"] show ?case
    by (subst read_items.simps) (simp add: x)
qed

section \<open>INTEGER\<close>

text \<open>
  The contents of the INTEGER whose value the bytes give, unsigned and big-endian: no leading zero
  but the one that keeps the sign bit clear.
\<close>

definition int_content :: "bytes \<Rightarrow> bytes" where
  "int_content bs =
     (if bs = [] then []
      else
        let s = dropWhile ((=) 0) bs
        in if s = [] then [0] else if 128 \<le> unat (hd s) then 0 # s else s)"

lemma int_content_value: "octets_val (int_content bs) = octets_val bs"
  using octets_val_dropWhile [of bs] by (auto simp: int_content_def Let_def octets_val_zeros)

lemma int_content_minimal:
  assumes "bs \<noteq> []"
  shows "int_content bs \<noteq> []" and "unat (hd (int_content bs)) < 128"
    and "\<And>b r. int_content bs = 0 # b # r \<Longrightarrow> 128 \<le> unat b"
  using assms hd_dropWhile [of "(=) 0" bs]
  by (auto simp: int_content_def Let_def split: if_splits)

lemma length_int_content: "length (int_content bs) \<le> Suc (length bs)"
  using length_dropWhile_le [of "(=) 0" bs] by (cases bs) (auto simp: int_content_def Let_def)

definition der_integer :: "bytes \<Rightarrow> bytes" where
  "der_integer bs = der 0x02 (int_content bs)"

end
