(* ===== verification/X509_Logic.thy ===== *)
theory X509_Logic
  imports X509_Writer Der
begin

text \<open>
  Reasoning about the certificate writer. \<open>wrote w bs w'\<close>: between the two states the bytes \<open>bs\<close> were
  written at the offset. \<open>writes d m bs\<close>: the encoder \<open>m\<close> writes \<open>bs\<close>, returns their number and needs
  at most \<open>d\<close> entries of the backtrack stack; it fails only when the bytes do not fit, and when it
  does not fail they are in the buffer if they fit. The rules follow the structure of an encoder, so
  that the bytes it writes are found by resolution.
\<close>

section \<open>What was written\<close>

definition fits :: "CertWriter \<Rightarrow> nat \<Rightarrow> bool" where
  "fits w n \<longleftrightarrow> cw_base w + cw_offset w + n \<le> length (cw_certificate w)"

definition wrote :: "CertWriter \<Rightarrow> bytes \<Rightarrow> CertWriter \<Rightarrow> bool" where
  "wrote w bs w' \<longleftrightarrow>
     cw_base w' = cw_base w \<and> cw_offset w' = cw_offset w + length bs \<and>
     length (cw_certificate w') = length (cw_certificate w) \<and>
     take (cw_base w + cw_offset w) (cw_certificate w') =
       take (cw_base w + cw_offset w) (cw_certificate w) \<and>
     (fits w (length bs) \<longrightarrow>
       cw_certificate w' = splice (cw_certificate w) (cw_base w + cw_offset w) bs)"

definition same_stack :: "CertWriter \<Rightarrow> CertWriter \<Rightarrow> bool" where
  "same_stack w w' \<longleftrightarrow> cw_csr_range w' = cw_csr_range w \<and> cw_backtracks w' = cw_backtracks w \<and>
     cw_saved_offset w' = cw_saved_offset w"

definition ready :: "nat \<Rightarrow> CertWriter \<Rightarrow> bool" where
  "ready d w \<longleftrightarrow> length (cw_certificate w) \<le> USIZE_MAX \<and>
     (d = 0 \<or> cw_saved_offset w = None) \<and> length (cw_backtracks w) + d \<le> MAX_BACKTRACKS"

lemma splice_beyond: "length buf \<le> off \<Longrightarrow> splice buf off [] = buf"
  by simp

lemma take_splice: "n \<le> off \<Longrightarrow> off \<le> length buf \<Longrightarrow> take n (splice buf off bs) = take n buf"
  by (simp add: splice_def min_def)

lemma view_write:
  "length buf \<le> USIZE_MAX \<Longrightarrow> snd (offset_write_at slice_write_at base off bs buf) =
     (if base + off + length bs \<le> length buf then splice buf (base + off) bs else buf)"
  by (auto simp: offset_write_at_def checked_add_def slice_write_at_eq)

lemma wrote_trans:
  assumes "wrote w a w1" "wrote w1 b w2"
  shows "wrote w (a @ b) w2"
proof -
  have "take (cw_base w + cw_offset w) (take (cw_base w + (cw_offset w + length a)) (cw_certificate w2)) =
    take (cw_base w + cw_offset w) (take (cw_base w + (cw_offset w + length a)) (cw_certificate w1))"
    using assms by (simp add: wrote_def)
  then have "take (cw_base w + cw_offset w) (cw_certificate w2) =
      take (cw_base w + cw_offset w) (cw_certificate w1)"
    by (simp add: min_def)
  with assms show ?thesis
    by (auto simp: wrote_def fits_def splice_append [symmetric] ac_simps)
qed

lemma wrote_Nil [simp]: "wrote w [] w"
  by (simp add: wrote_def)

lemma fits_append: "fits w (a + b) \<Longrightarrow> fits w a"
  by (simp add: fits_def)

lemma wrote_fits: "wrote w a w1 \<Longrightarrow> fits w1 n \<longleftrightarrow> fits w (length a + n)"
  by (auto simp: wrote_def fits_def ac_simps)

lemma same_stack_refl [simp]: "same_stack w w"
  by (simp add: same_stack_def)

lemma same_stack_trans: "same_stack w w1 \<Longrightarrow> same_stack w1 w2 \<Longrightarrow> same_stack w w2"
  by (simp add: same_stack_def)

lemma ready_wrote: "wrote w bs w' \<Longrightarrow> same_stack w w' \<Longrightarrow> ready d w' = ready d w"
  by (simp add: wrote_def same_stack_def ready_def)

lemma ready_less: "ready d w \<Longrightarrow> e \<le> d \<Longrightarrow> ready e w"
  by (auto simp: ready_def)

section \<open>What an encoder writes\<close>

definition writes :: "nat \<Rightarrow> nat enc \<Rightarrow> bytes \<Rightarrow> bool" where
  "writes d m bs \<longleftrightarrow> (\<forall>w. ready d w \<longrightarrow>
     (\<exists>w'. m w = (Ok (length bs), w') \<and> wrote w bs w' \<and> same_stack w w') \<or>
     (\<not> fits w (length bs) \<and> (\<exists>w'. m w = (Err (InternalError CertSizeOverflow), w'))))"

named_theorems writes_intros \<open>the bytes an encoder writes\<close>

lemma writesD:
  assumes "writes d m bs" "ready d w"
  obtains (wrote) w' where "m w = (Ok (length bs), w')" "wrote w bs w'" "same_stack w w'"
  | (full) w' where "\<not> fits w (length bs)" "m w = (Err (InternalError CertSizeOverflow), w')"
  using assms unfolding writes_def by blast

lemma writes_conv: "writes d m bs \<Longrightarrow> bs = bs' \<Longrightarrow> writes d m bs'"
  by simp

lemma writes_weaken: "writes e m bs \<Longrightarrow> e \<le> d \<Longrightarrow> writes d m bs"
  unfolding writes_def using ready_less by blast

lemma writes_encode_bytes [writes_intros]: "writes d (encode_bytes bs) bs"
proof (unfold writes_def, intro allI impI disjI1)
  fix w assume "ready d w"
  then have "length (cw_certificate w) \<le> USIZE_MAX" by (simp add: ready_def)
  note v = view_write [OF this, of "cw_base w" "cw_offset w" bs]
  show "\<exists>w'. encode_bytes bs w = (Ok (length bs), w') \<and> wrote w bs w' \<and> same_stack w w'"
    by (simp add: encode_bytes_def split_beta v wrote_def same_stack_def fits_def take_splice)
qed

lemma encode_byte_eq: "encode_byte b = encode_bytes [b]"
  by (simp add: fun_eq_iff encode_byte_def encode_bytes_def)

lemma writes_encode_byte [writes_intros]: "writes d (encode_byte b) [b]"
  unfolding encode_byte_eq by (rule writes_encode_bytes)

lemma writes_encode_tag [writes_intros]: "writes d (encode_tag_field b) [b]"
  unfolding encode_tag_field_def by (rule writes_encode_byte)

lemma writes_ret [writes_intros]: "writes d (ret 0) []"
  by (simp add: writes_def)

lemma writes_bind:
  assumes a: "writes d m a" and b: "writes d n b"
    and k: "k (length a) (length b) = length a + length b"
  shows "writes d (bind m (\<lambda>x. bind n (\<lambda>y. ret (k x y)))) (a @ b)"
proof (unfold writes_def, intro allI impI)
  fix w assume w: "ready d w"
  let ?m = "bind m (\<lambda>x. bind n (\<lambda>y. ret (k x y)))"
  show "(\<exists>w'. ?m w = (Ok (length (a @ b)), w') \<and> wrote w (a @ b) w' \<and> same_stack w w') \<or>
    (\<not> fits w (length (a @ b)) \<and> (\<exists>w'. ?m w = (Err (InternalError CertSizeOverflow), w')))"
    using a w
  proof (cases rule: writesD)
    case (wrote w1)
    with w have "ready d w1" by (simp add: ready_wrote)
    with b show ?thesis
    proof (cases rule: writesD)
      case (wrote w2)
      with \<open>wrote w a w1\<close> \<open>same_stack w w1\<close> \<open>m w = _\<close> show ?thesis
        by (auto simp: bind_def k intro: wrote_trans same_stack_trans)
    next
      case (full w2)
      with wrote_fits [OF \<open>wrote w a w1\<close>] \<open>m w = _\<close> show ?thesis by (simp add: bind_def)
    qed
  next
    case (full w')
    with fits_append show ?thesis by (auto simp: bind_def)
  qed
qed

lemma writes_all_Nil [writes_intros]: "writes d (encode_all []) []"
  by (simp add: writes_ret)

lemma writes_all_Cons [writes_intros]:
  "writes d m a \<Longrightarrow> writes d (encode_all ms) b \<Longrightarrow> writes d (encode_all (m # ms)) (a @ b)"
  unfolding encode_all.simps by (rule writes_bind) simp_all

lemma writes_check [writes_intros]:
  assumes "writes d m bs"
  shows "writes d (bind m (\<lambda>n. bind check_not_truncated (\<lambda>_. ret n))) bs"
proof (unfold writes_def, intro allI impI)
  fix w assume w: "ready d w"
  let ?m = "bind m (\<lambda>n. bind check_not_truncated (\<lambda>_. ret n))"
  show "(\<exists>w'. ?m w = (Ok (length bs), w') \<and> wrote w bs w' \<and> same_stack w w') \<or>
    (\<not> fits w (length bs) \<and> (\<exists>w'. ?m w = (Err (InternalError CertSizeOverflow), w')))"
    using assms w
  proof (cases rule: writesD)
    case (wrote w')
    then show ?thesis
      by (auto simp: bind_def check_not_truncated_def offset_capacity_def slice_capacity_def
          wrote_def fits_def)
  next
    case (full w')
    then show ?thesis by (auto simp: bind_def)
  qed
qed

lemma writes_lift [writes_intros]: "r = Ok n \<Longrightarrow> writes d (f n) bs \<Longrightarrow> writes d (bind (lift r) f) bs"
  by simp

lemma writes_if [writes_intros]:
  "(c \<Longrightarrow> writes d m a) \<Longrightarrow> (\<not> c \<Longrightarrow> writes d n b) \<Longrightarrow>
     writes d (if c then m else n) (if c then a else b)"
  by simp

section \<open>Length fields\<close>

lemma length_der_len [simp]: "length (der_len n) = get_size_width n"
  by (simp add: der_len_def get_size_width_def len_octets_def)

lemma length_der: "length (der t c) = get_structure_size (length c) True"
  by (simp add: der_def get_structure_size_def)

lemma div_256: "drop_bit (8 * Suc k) (n :: nat) = drop_bit (8 * k) (n div 256)"
  by (simp add: drop_bit_eq_div power_add div_mult2_eq mult.commute)

lemma writes_octets:
  "writes d (encode_all (map (\<lambda>i. encode_byte (of_nat (drop_bit (i * 8) n))) (rev [0..<k]))) (be_octets k n)"
proof -
  have "be_octets k n = concat (map (\<lambda>i. [of_nat (drop_bit (i * 8) n)]) (rev [0..<k]))"
  proof (induction k arbitrary: n)
    case (Suc k)
    have "map (\<lambda>i. [of_nat (drop_bit (i * 8) n) :: u8]) (rev [0..<Suc k]) =
      map (\<lambda>i. [of_nat (drop_bit (i * 8) (n div 256))]) (rev [0..<k]) @ [[of_nat n]]"
      using div_256 [of _ n]
      by (simp add: upt_conv_Cons map_Suc_upt [symmetric] rev_map comp_def mult.commute
          del: upt_Suc)
    with Suc show ?case by (simp del: upt_Suc)
  qed simp
  moreover have "writes d (encode_all (map (\<lambda>i. encode_byte (f i)) is)) (concat (map (\<lambda>i. [f i]) is))"
    for f and "is" :: "nat list"
    by (induction "is") (simp_all only: list.map concat.simps writes_intros)
  ultimately show ?thesis by simp
qed

lemma encode_size_field_eq:
  "encode_size_field n = bind (encode_all
     (if get_size_width n = 1 then [encode_byte (of_nat n)]
      else encode_byte (0x80 OR of_nat (get_size_width n - 1)) #
        [encode_all (map (\<lambda>i. encode_byte (of_nat (drop_bit (i * 8) n))) (rev [0..<get_size_width n - 1]))]))
     (\<lambda>_. ret (get_size_width n))"
  by (auto simp: encode_size_field_def Let_def bind_def fun_eq_iff split: prod.splits outcome.splits)

lemma long_form_byte: "k \<in> {1, 2, 3, 4} \<Longrightarrow> (0x80 OR of_nat k :: u8) = of_nat (128 + k)"
  by auto

lemma der_len_eq:
  "der_len n =
     (if get_size_width n = 1 then [of_nat n]
      else (0x80 OR of_nat (get_size_width n - 1)) # be_octets (get_size_width n - 1) n)"
proof -
  have "get_size_width n = 1 \<longleftrightarrow> n < 128" by (simp add: get_size_width_def)
  moreover have "get_size_width n - 1 = len_octets n" if "\<not> n < 128"
    using that by (simp add: get_size_width_def len_octets_def)
  moreover have "len_octets n \<in> {1, 2, 3, 4}" by (simp add: len_octets_def)
  ultimately show ?thesis by (auto simp: der_len_def simp del: insert_iff dest!: long_form_byte)
qed

lemma writes_result: "writes d m bs \<Longrightarrow> n = length bs \<Longrightarrow> writes d (bind m (\<lambda>_. ret n)) bs"
  unfolding writes_def bind_def by (fastforce split: prod.splits outcome.splits)

text \<open>The length field is the shortest form of the rules.\<close>

lemma writes_size_field [writes_intros]: "writes d (encode_size_field n) (der_len n)"
  unfolding encode_size_field_eq
proof (rule writes_result)
  have "writes d (encode_all [encode_byte b, m]) (b # bs)" if "writes d m bs" for b m bs
    using that by (rule_tac writes_conv) (rule writes_intros that | simp)+
  then show "writes d (encode_all
     (if get_size_width n = 1 then [encode_byte (of_nat n)]
      else encode_byte (0x80 OR of_nat (get_size_width n - 1)) #
        [encode_all (map (\<lambda>i. encode_byte (of_nat (drop_bit (i * 8) n))) (rev [0..<get_size_width n - 1]))]))
     (der_len n)"
    unfolding der_len_eq using writes_octets writes_encode_byte
    by (simp del: encode_all.simps) (metis append_Nil2 writes_all_Cons writes_all_Nil)
qed simp

section \<open>Length fields written afterwards\<close>

lemma splice_patch:
  assumes "length d = length z" "off + length (xs @ z @ ys) \<le> length buf"
  shows "splice (splice buf off (xs @ z @ ys)) (off + length xs) d = splice buf off (xs @ d @ ys)"
  using assms by (simp add: splice_def)

lemma wrote_patch:
  assumes w: "wrote w (xs @ z @ ys) w2" and z: "length z = length d"
    and p: "wrote (w2\<lparr>cw_offset := cw_offset w + length xs\<rparr>) d w3"
  shows "wrote w (xs @ d @ ys) (w3\<lparr>cw_offset := cw_offset w2\<rparr>)"
proof -
  let ?o = "cw_base w + cw_offset w"
  have b: "cw_base w2 = cw_base w" and l: "length (cw_certificate w2) = length (cw_certificate w)"
    and off: "cw_offset w2 = cw_offset w + length (xs @ d @ ys)"
    using w z by (simp_all add: wrote_def)
  have "take ?o (take (cw_base w + (cw_offset w + length xs)) (cw_certificate w3)) =
      take ?o (take (cw_base w + (cw_offset w + length xs)) (cw_certificate w2))"
    using p b by (simp add: wrote_def)
  then have t: "take ?o (cw_certificate w3) = take ?o (cw_certificate w)"
    using w by (simp add: wrote_def min_def)
  have "cw_certificate w3 = splice (cw_certificate w) ?o (xs @ d @ ys)"
    if "fits w (length (xs @ d @ ys))"
  proof -
    have "fits (w2\<lparr>cw_offset := cw_offset w + length xs\<rparr>) (length d)"
      using that b l by (simp add: fits_def)
    then have "cw_certificate w3 = splice (cw_certificate w2) (?o + length xs) d"
      using p b by (simp add: wrote_def add.assoc)
    moreover have "cw_certificate w2 = splice (cw_certificate w) ?o (xs @ z @ ys)"
      using w that z by (simp add: wrote_def)
    ultimately show ?thesis
      using splice_patch [of d z ?o xs ys "cw_certificate w"] z that by (simp add: fits_def)
  qed
  with t off b l p show ?thesis by (simp add: wrote_def)
qed

text \<open>A layer is open between its tag and its length field: three bytes are reserved.\<close>

definition opened :: "CertWriter \<Rightarrow> u8 \<Rightarrow> CertWriter \<Rightarrow> bool" where
  "opened w t w1 \<longleftrightarrow> (\<exists>z. length z = 3 \<and> wrote w (t # z) w1) \<and>
     cw_backtracks w1 = cw_backtracks w @ [(cw_offset w + 1, cw_offset w + 4)] \<and>
     cw_saved_offset w1 = cw_saved_offset w \<and> cw_csr_range w1 = cw_csr_range w"

lemma wrote_skip:
  "\<exists>z. length z = k \<and> wrote w z (w\<lparr>cw_offset := cw_offset w + k\<rparr>)"
proof (cases "fits w k")
  case True
  let ?z = "take k (drop (cw_base w + cw_offset w) (cw_certificate w))"
  have "splice (cw_certificate w) (cw_base w + cw_offset w) ?z = cw_certificate w"
    using True by (simp add: splice_def fits_def)
      (metis add.commute append_take_drop_id drop_drop)
  with True show ?thesis by (intro exI [of _ ?z]) (simp add: wrote_def fits_def)
next
  case False
  then show ?thesis by (intro exI [of _ "replicate k 0"]) (simp add: wrote_def)
qed

lemma open_layer:
  assumes "ready (Suc d) w"
  obtains w0 w1 where "encode_tag_field t w = (Ok 1, w0)"
    and "push_backtrack SIZE_TAG_OFFSET w0 = (Ok (cw_offset w + 4), w1)"
    and "opened w t w1" and "ready d w1"
proof -
  from writes_encode_tag [of "Suc d" t] assms obtain w0 where w0: "encode_tag_field t w = (Ok 1, w0)"
    "wrote w [t] w0" "same_stack w w0"
    by (cases rule: writesD) (auto simp: encode_tag_field_def encode_byte_def split_beta)
  let ?w1 = "w0\<lparr>cw_backtracks := cw_backtracks w0 @ [(cw_offset w0, cw_offset w0 + 3)],
    cw_offset := cw_offset w0 + 3\<rparr>"
  have off: "cw_offset w0 = cw_offset w + 1" using w0(2) by (simp add: wrote_def)
  obtain z where z: "length z = 3" "wrote w0 z (w0\<lparr>cw_offset := cw_offset w0 + 3\<rparr>)"
    using wrote_skip by blast
  then have "wrote w0 z ?w1" by (simp add: wrote_def)
  from wrote_trans [OF w0(2) this] z(1) have "\<exists>z. length z = 3 \<and> wrote w (t # z) ?w1" by auto
  then have "opened w t ?w1"
    using w0(3) off by (simp add: opened_def same_stack_def numeral_eq_Suc)
  moreover have "ready d ?w1"
    using assms w0 by (simp add: ready_def wrote_def same_stack_def)
  moreover have "push_backtrack SIZE_TAG_OFFSET w0 = (Ok (cw_offset w + 4), ?w1)"
    using assms w0(3) off
    by (simp add: push_backtrack_def SIZE_TAG_OFFSET_def ready_def same_stack_def Let_def)
  ultimately show thesis using w0(1) that by blast
qed

lemma encode_bytes_Ok:
  "fst (encode_byte b w) = Ok 1"
  "fst (encode_all (map (\<lambda>i. encode_byte (f i)) is) w) = Ok (length is)"
proof -
  show b: "fst (encode_byte b w) = Ok 1" for b w by (simp add: encode_byte_def split_beta)
  show "fst (encode_all (map (\<lambda>i. encode_byte (f i)) is) w) = Ok (length is)"
  proof (induction "is" arbitrary: w)
    case (Cons i "is")
    from b [of "f i" w] obtain w1 where "encode_byte (f i) w = (Ok 1, w1)" by (metis prod.collapse)
    moreover from Cons [of w1] obtain w2 where
      "encode_all (map (\<lambda>i. encode_byte (f i)) is) w1 = (Ok (length is), w2)" by (metis prod.collapse)
    ultimately show ?case by (simp add: bind_def)
  qed simp
qed

lemma encode_size_field_Ok: "fst (encode_size_field n w) = Ok (get_size_width n)"
proof -
  obtain w1 where 1: "encode_byte (of_nat n) w = (Ok 1, w1)" by (metis prod.collapse encode_bytes_Ok(1))
  let ?k = "get_size_width n - 1"
  obtain w2 where 2: "encode_byte (0x80 OR of_nat ?k) w = (Ok 1, w2)"
    by (metis prod.collapse encode_bytes_Ok(1))
  obtain w3 where 3: "encode_all (map (\<lambda>i. encode_byte (of_nat (drop_bit (i * 8) n))) (rev [0..<?k])) w2
      = (Ok (length (rev [0..<?k])), w3)"
    by (metis prod.collapse encode_bytes_Ok(2))
  from 1 2 3 show ?thesis by (simp add: encode_size_field_def Let_def bind_def)
qed

lemma backtrack_one:
  assumes len: "length (cw_certificate w) \<le> USIZE_MAX" and depth: "length bts \<le> MAX_BACKTRACKS"
    and saved: "cw_saved_offset w = None"
    and bts: "cw_backtracks w = bts @ [(a, a + get_size_width n)]"
  obtains w' where "backtrack_and_encode_size [n] w =
      (Ok (get_size_width n), w'\<lparr>cw_offset := cw_offset w, cw_saved_offset := None\<rparr>)"
    and "wrote (w\<lparr>cw_offset := a\<rparr>) (der_len n) w'"
    and "cw_backtracks w' = bts" and "cw_csr_range w' = cw_csr_range w"
proof -
  let ?v = "w\<lparr>cw_saved_offset := Some (cw_offset w), cw_backtracks := bts, cw_offset := a\<rparr>"
  have "ready 0 ?v" using len depth by (simp add: ready_def)
  with writes_size_field [of 0 n] obtain v' where v': "encode_size_field n ?v = (Ok (get_size_width n), v')"
    "wrote ?v (der_len n) v'" "same_stack ?v v'"
  proof (cases rule: writesD)
    case (full v')
    with encode_size_field_Ok [of n ?v] show ?thesis by simp
  qed simp
  have "backtrack_and_encode_size [n] w =
      (Ok (get_size_width n), v'\<lparr>cw_offset := cw_offset w, cw_saved_offset := None\<rparr>)"
    using saved bts v'(1,3)
    by (simp add: backtrack_and_encode_size_def start_backtrack_def pop_backtrack_def bind_def
        end_backtrack_def same_stack_def)
  moreover have "wrote (w\<lparr>cw_offset := a\<rparr>) (der_len n) v'"
    using v'(2) by (simp add: wrote_def fits_def)
  ultimately show thesis using v'(3) by (intro that [of v']) (simp_all add: same_stack_def)
qed

text \<open>Writing several length fields at once is writing them one by one.\<close>

lemma pop_ignores_offset:
  "pop_backtrack k w = (Ok (), w1) \<Longrightarrow> pop_backtrack k (w\<lparr>cw_offset := x\<rparr>) = (Ok (), w1)"
  by (cases w) (auto simp: pop_backtrack_def Let_def split: if_splits prod.splits)

lemma backtrack_loop_offset:
  assumes "sizes \<noteq> []" "backtrack_loop sizes w = (Ok n, w1)"
  shows "backtrack_loop sizes (w\<lparr>cw_offset := x\<rparr>) = (Ok n, w1)"
proof (cases sizes)
  case (Cons m ms)
  with assms(2) obtain v where "pop_backtrack (get_size_width m) w = (Ok (), v)"
    "bind (encode_size_field m) (\<lambda>k. bind (backtrack_loop ms) (\<lambda>j. ret (k + j))) v = (Ok n, w1)"
    by (auto simp: bind_Ok_iff [of "pop_backtrack k" for k])
  with Cons pop_ignores_offset [of "get_size_width m" w v x] show ?thesis
    by (auto simp: bind_Ok_iff [of "pop_backtrack k" for k])
qed (use assms(1) in simp)

lemma keeps_pop_saved: "keeps cw_saved_offset (pop_backtrack k)"
  by (auto simp: keeps_def pop_backtrack_def Let_def split: prod.split)

lemma keeps_size_field_saved: "keeps cw_saved_offset (encode_size_field n)"
proof -
  have b: "keeps cw_saved_offset (encode_byte b)" for b
    by (simp add: keeps_def encode_byte_def split_beta)
  have "keeps cw_saved_offset (encode_all (map (\<lambda>i. encode_byte (f i)) is))"
    for f and "is" :: "nat list"
    by (induction "is") (simp_all only: list.map encode_all.simps keeps_intros b)
  with b show ?thesis unfolding encode_size_field_def Let_def by (intro keeps_intros)
qed

lemma backtrack_Cons:
  assumes one: "backtrack_and_encode_size [n] w = (Ok k, w1)"
    and rest: "backtrack_and_encode_size sizes w1 = (Ok j, w2)"
  shows "backtrack_and_encode_size (n # sizes) w = (Ok (k + j), w2)"
proof (cases "sizes = []")
  case True
  with rest have "j = 0" "w2 = w1"
    by (auto simp: backtrack_and_encode_size_def start_backtrack_def end_backtrack_def bind_Ok_iff
        split: if_splits)
  with one True show ?thesis by simp
next
  case False
  have saved: "cw_saved_offset w = None" "cw_saved_offset w1 = None"
    using one rest by (auto simp: backtrack_and_encode_size_def start_backtrack_def bind_Ok_iff
        split: if_splits)
  let ?s = "w\<lparr>cw_saved_offset := Some (cw_offset w)\<rparr>"
  from one saved obtain v0 v where v: "pop_backtrack (get_size_width n) ?s = (Ok (), v0)"
    "encode_size_field n v0 = (Ok k, v)" "end_backtrack v = (Ok (), w1)"
    by (auto simp: backtrack_and_encode_size_def start_backtrack_def bind_Ok_iff)
  have sv: "cw_saved_offset v = Some (cw_offset w)"
    using keepsD [OF keeps_pop_saved v(1)] keepsD [OF keeps_size_field_saved v(2)] by simp
  from rest saved obtain u where u: "backtrack_loop sizes (w1\<lparr>cw_saved_offset := Some (cw_offset w1)\<rparr>) = (Ok j, u)"
    "end_backtrack u = (Ok (), w2)"
    by (auto simp: backtrack_and_encode_size_def start_backtrack_def bind_Ok_iff)
  have "v = w1\<lparr>cw_saved_offset := Some (cw_offset w1), cw_offset := cw_offset v\<rparr>"
    using v(3) sv by (auto simp: end_backtrack_def)
  with backtrack_loop_offset [OF False u(1), of "cw_offset v"]
  have "backtrack_loop sizes v = (Ok j, u)" by simp
  with v u saved show ?thesis
    by (simp add: backtrack_and_encode_size_def start_backtrack_def bind_def)
qed

lemma close_layer:
  assumes o: "opened w t w1" and b: "wrote w1 body w2" and r: "ready d w" "0 < d"
    and bts: "cw_backtracks w2 = cw_backtracks w1" and saved: "cw_saved_offset w2 = None"
    and width: "256 \<le> length body" "length body < 65536"
  obtains w3 where "backtrack_and_encode_size [length body] w2 = (Ok 3, w3)"
    and "wrote w (der t body) w3" and "cw_backtracks w3 = cw_backtracks w"
    and "cw_saved_offset w3 = None" and "cw_csr_range w3 = cw_csr_range w2"
proof -
  from o obtain z where z: "length z = 3" "wrote w (t # z) w1"
    and b1: "cw_backtracks w1 = cw_backtracks w @ [(cw_offset w + 1, cw_offset w + 4)]"
    by (auto simp: opened_def)
  have k: "get_size_width (length body) = 3" using width by (simp add: get_size_width_def)
  have "wrote w ([t] @ z @ body) w2" using wrote_trans [OF z(2) b] by simp
  note all = this
  then have len: "length (cw_certificate w2) \<le> USIZE_MAX" using r by (simp add: wrote_def ready_def)
  have depth: "length (cw_backtracks w) \<le> MAX_BACKTRACKS" using r by (simp add: ready_def)
  have "cw_backtracks w2 = cw_backtracks w @
      [(cw_offset w + 1, cw_offset w + 1 + get_size_width (length body))]"
    using bts b1 k by simp
  from backtrack_one [OF len depth saved this, unfolded k] obtain v where v:
    "backtrack_and_encode_size [length body] w2 =
      (Ok 3, v\<lparr>cw_offset := cw_offset w2, cw_saved_offset := None\<rparr>)"
    "wrote (w2\<lparr>cw_offset := cw_offset w + 1\<rparr>) (der_len (length body)) v"
    "cw_backtracks v = cw_backtracks w" "cw_csr_range v = cw_csr_range w2"
    by blast
  from wrote_patch [OF all, of "der_len (length body)" v] v(2) z(1) k
  have "wrote w (der t body) (v\<lparr>cw_offset := cw_offset w2\<rparr>)" by (simp add: der_def)
  then have "wrote w (der t body) (v\<lparr>cw_offset := cw_offset w2, cw_saved_offset := None\<rparr>)"
    by (simp add: wrote_def)
  with v show thesis
    by (intro that [of "v\<lparr>cw_offset := cw_offset w2, cw_saved_offset := None\<rparr>"]) simp_all
qed

text \<open>What was written is what a read of the range returns.\<close>

lemma read_wrote:
  assumes "wrote w bs w'" "fits w (length bs)" "i + n \<le> length bs"
    and "length (cw_certificate w) \<le> USIZE_MAX"
  shows "offset_read_range slice_read_range (cw_base w') (cw_offset w + i) (cw_offset w + i + n)
    (cw_certificate w') = Ok (take n (drop i bs))"
  using assms
  by (simp add: wrote_def fits_def offset_read_range_def checked_add_def slice_read_range_def
      get_range_def splice_def add.assoc drop_take take_append)

text \<open>
  An element whose length field is written last. The body must be between 256 and 65535 bytes long:
  three bytes are reserved for its length.
\<close>

lemma writes_sized:
  assumes m: "writes d m body" and width: "256 \<le> length body" "length body < 65536"
  shows "writes (Suc d) (bind (encode_tag_field t) (\<lambda>prefix.
     bind (push_backtrack SIZE_TAG_OFFSET) (\<lambda>_.
     bind m (\<lambda>n.
     bind (backtrack_and_encode_size [n]) (\<lambda>k.
     bind check_not_truncated (\<lambda>_. ret (prefix + k + n))))))) (der t body)"
proof (unfold writes_def, intro allI impI)
  fix w assume r: "ready (Suc d) w"
  let ?m = "bind (encode_tag_field t) (\<lambda>prefix. bind (push_backtrack SIZE_TAG_OFFSET) (\<lambda>_.
     bind m (\<lambda>n. bind (backtrack_and_encode_size [n]) (\<lambda>k.
     bind check_not_truncated (\<lambda>_. ret (prefix + k + n))))))"
  have len: "length (der t body) = 4 + length body"
    using width by (simp add: der_def get_size_width_def)
  obtain w0 w1 where w1: "encode_tag_field t w = (Ok 1, w0)"
    "push_backtrack SIZE_TAG_OFFSET w0 = (Ok (cw_offset w + 4), w1)" "opened w t w1" "ready d w1"
    by (rule open_layer [OF r])
  obtain z where z: "wrote w (t # z) w1" "length z = 3" using w1(3) by (auto simp: opened_def)
  show "(\<exists>w'. ?m w = (Ok (length (der t body)), w') \<and> wrote w (der t body) w' \<and> same_stack w w') \<or>
    (\<not> fits w (length (der t body)) \<and> (\<exists>w'. ?m w = (Err (InternalError CertSizeOverflow), w')))"
    using m w1(4)
  proof (cases rule: writesD)
    case (wrote w2)
    have saved: "cw_saved_offset w2 = None" "cw_saved_offset w = None"
      using wrote(3) w1(3) r by (auto simp: opened_def same_stack_def ready_def)
    obtain w3 where w3: "backtrack_and_encode_size [length body] w2 = (Ok 3, w3)"
      "wrote w (der t body) w3" "cw_backtracks w3 = cw_backtracks w" "cw_saved_offset w3 = None"
      "cw_csr_range w3 = cw_csr_range w2"
      using wrote(3) by (rule_tac close_layer [OF w1(3) wrote(2) r _ _ saved(1) width])
        (auto simp: same_stack_def)
    then have "same_stack w w3"
      using wrote(3) w1(3) saved by (simp add: same_stack_def opened_def)
    with w1 wrote(1) w3 len show ?thesis
      by (auto simp: bind_def check_not_truncated_def offset_capacity_def slice_capacity_def
          wrote_def fits_def)
  next
    case (full w2)
    with z have "\<not> fits w (length (der t body))"
      using len by (auto simp: fits_def wrote_def)
    with full w1 show ?thesis by (auto simp: bind_def)
  qed
qed

end
