(* ===== verification/X509_Der.thy ===== *)
theory X509_Der
  imports X509_Logic
begin

text \<open>
  What the encoders of dpe/src/x509.rs have to produce: the structures of X.509, PKCS #10, CMS and
  the TCG DICE extensions as nested DER elements, written down without any size. For each encoder of a structure
  without measurements it is proved that it writes exactly this structure, hence that the sizes computed
  beforehand agree with the bytes written. The extensions and what contains them are written with the lengths that
  the code counts for the measurements: for these, the bytes written are a definition of their own.
\<close>

section \<open>INTEGER\<close>

lemma and_0x80: "(b AND 0x80 \<noteq> 0) \<longleftrightarrow> 128 \<le> unat (b :: u8)"
proof -
  have "(b AND 0x80 = 0) \<longleftrightarrow> \<not> bit b 7"
    using and_exp_eq_0_iff_not_bit [of b 7] by simp
  moreover have "bit b 7 \<longleftrightarrow> odd (unat b div 128)"
    using bit_unsigned_iff [of b 7, where 'a = nat] by (simp add: bit_iff_odd)
  moreover have "odd (unat b div 128) \<longleftrightarrow> 128 \<le> unat b"
  proof (cases "128 \<le> unat b")
    case True
    then have "unat b div 128 = 1" using unsigned_less [of b] by (intro div_nat_eqI) simp_all
    with True show ?thesis by simp
  qed simp
  ultimately show ?thesis by blast
qed

lemma integer_len_loop_eq:
  "bs \<noteq> [] \<Longrightarrow> i + length bs = n \<Longrightarrow> length bs \<le> len \<Longrightarrow>
     integer_len_loop n i bs len = (len - length bs) + length (int_content bs)"
proof (induction bs arbitrary: i len)
  case (Cons b bs)
  show ?case
  proof (cases "bs = []")
    case True
    with Cons.prems show ?thesis by (auto simp: and_0x80 int_content_def)
  next
    case False
    with Cons.prems Cons.IH [of "Suc i" "len - 1"] show ?thesis
      by (auto simp: and_0x80 int_content_def Let_def)
  qed
qed simp

lemma get_integer_bytes_size_eq:
  "get_integer_bytes_size bs tagged = get_structure_size (length (int_content bs)) tagged"
  by (cases "bs = []") (simp_all add: get_integer_bytes_size_def integer_len_loop_eq int_content_def)

lemma zeros_split:
  obtains k where "bs = replicate k 0 @ dropWhile ((=) 0) (bs :: bytes)"
proof
  have "takeWhile ((=) 0) bs = replicate (length (takeWhile ((=) 0) bs)) (0 :: u8)"
    by (rule replicate_length_same [symmetric]) (auto dest: set_takeWhileD)
  then show "bs = replicate (length (takeWhile ((=) 0) bs)) 0 @ dropWhile ((=) 0) bs"
    by (metis takeWhile_dropWhile_id)
qed

text \<open>What the encoder drops from the front or puts there is what the minimal form needs.\<close>

lemma int_content_split:
  "(if length bs < length (int_content bs) then [0] else []) @
     drop (length bs - length (int_content bs)) bs = int_content bs"
proof -
  let ?s = "dropWhile ((=) 0) bs"
  obtain k where bs: "bs = replicate k 0 @ ?s" by (rule zeros_split)
  show ?thesis
  proof (cases "bs = [] \<or> ?s = []")
    case True
    show ?thesis
    proof (cases "bs = []")
      case False
      with True have s: "?s = []" by blast
      with bs False obtain m where "bs = replicate (Suc m) 0" by (cases k) auto
      then have "drop (length bs - 1) bs = [0]" "length bs = Suc m"
        by (simp_all add: replicate_append_same [symmetric] del: replicate_Suc) 
          (simp add: replicate_append_same [symmetric])
      with False s show ?thesis by (simp add: int_content_def)
    qed (simp add: int_content_def)
  next
    case False
    let ?c = "int_content bs"
    have c: "?c = (if 128 \<le> unat (hd ?s) then 0 # ?s else ?s)"
      using False by (simp only: int_content_def Let_def de_Morgan_disj if_False simp_thms)
    have len: "length bs = k + length ?s" by (subst bs) simp
    have d: "drop j bs = replicate (k - j) 0 @ ?s" if "j \<le> k" for j
      by (subst bs) (simp add: that)
    have "(if length bs < length c then [0] else []) @ drop (length bs - length c) bs = c"
      if "c = 0 # s \<or> c = s" "length bs = k + length s"
        "drop (k - 1) bs = replicate (k - (k - 1)) 0 @ s" "drop k bs = replicate (k - k) 0 @ s"
      for c s :: bytes
      using that(1) that(2-) by (elim disjE; cases k) simp_all
    from this [of ?c ?s, OF _ len d d] show ?thesis by (simp only: c) simp
  qed
qed

lemma writes_encode_integer_bytes [writes_intros]:
  "writes d (encode_integer_bytes bs True) (der_integer bs)"
  "writes d (encode_integer_bytes bs False) (der_len (length (int_content bs)) @ int_content bs)"
proof -
  let ?c = "int_content bs"
  have w: "writes d (encode_all ((if length bs < length ?c then [encode_byte 0] else []) @
      [encode_bytes (drop (length bs - length ?c) bs)])) ?c"
    by (rule writes_conv [OF _ int_content_split], cases "length bs < length ?c")
      (simp_all only: if_True if_False append.simps,
       (rule writes_conv, (rule writes_intros)+, simp)+)
  show "writes d (encode_integer_bytes bs True) (der_integer bs)"
    by (simp only: encode_integer_bytes_def get_integer_bytes_size_eq Let_def if_True append.simps
        der_integer_def der_def get_structure_size_def if_False)
      (rule writes_conv, (rule writes_all_Cons writes_encode_tag writes_size_field w)+,
       simp add: INTEGER_TAG_def)
  show "writes d (encode_integer_bytes bs False) (der_len (length ?c) @ ?c)"
    by (simp only: encode_integer_bytes_def get_integer_bytes_size_eq Let_def if_True append.simps
        get_structure_size_def if_False)
      (rule writes_all_Cons writes_size_field w)+
qed

lemma length_der_integer:
  "get_integer_bytes_size bs True = length (der_integer bs)"
  by (simp add: get_integer_bytes_size_eq der_integer_def length_der)

lemma writes_encode_integer [writes_intros]:
  "writes d (encode_integer n True) (der_integer (u64_to_be_bytes n))"
  "writes d (encode_integer n False) (der_len (length (int_content (u64_to_be_bytes n))) @ int_content (u64_to_be_bytes n))"
  unfolding encode_integer_def by (rule writes_intros)+

lemma writes_encode_tlv [writes_intros]: "writes d (encode_tlv t val) (der t val)"
  unfolding encode_tlv_def
  by (rule writes_conv, (rule writes_intros)+) (simp add: der_def)

text \<open>A tag, the size of what follows, and what follows: one element.\<close>

lemma writes_element:
  assumes "writes d (encode_all ms) c" "n = length c"
  shows "writes d (encode_all (encode_byte t # encode_size_field n # ms)) (der t c)"
    and "writes d (encode_all (encode_tag_field t # encode_size_field n # ms)) (der t c)"
  by (rule writes_conv, (rule writes_all_Cons writes_encode_byte writes_encode_tag writes_size_field
        assms(1))+, simp add: der_def assms(2))+

lemma writes_byte_Cons:
  "writes d (encode_all ms) bs \<Longrightarrow> writes d (encode_all (encode_byte b # ms)) (b # bs)"
  by (rule writes_conv, (rule writes_all_Cons writes_encode_byte | assumption)+) simp

lemma writes_single: "writes d m bs \<Longrightarrow> writes d (encode_all [m]) bs"
  by (rule writes_conv, (rule writes_all_Cons writes_all_Nil | assumption)+) simp

text \<open>The rules in the order in which they are tried against a structure whose bytes are given.\<close>

lemmas writes_struct = writes_element writes_single writes_byte_Cons writes_all_Cons

section \<open>Names, algorithms and keys\<close>

definition oid_der :: "bytes \<Rightarrow> bytes" where
  "oid_der oid = der 0x06 oid"

primrec directory_string_der :: "DirectoryString \<Rightarrow> bytes" where
  "directory_string_der (PrintableString v) = der 0x13 v"
| "directory_string_der (Utf8String v) = der 0x0C v"

definition attribute_der :: "bytes \<Rightarrow> DirectoryString \<Rightarrow> bytes" where
  "attribute_der oid s = der 0x31 (der 0x30 (oid_der oid @ directory_string_der s))"

definition rdn_der :: "Name \<Rightarrow> bytes" where
  "rdn_der name = der 0x30 (attribute_der RDN_COMMON_NAME_OID (name_cn name)
     @ attribute_der RDN_SERIALNUMBER_OID (name_serial name))"

definition sig_alg_der :: "DpeProfile \<Rightarrow> bytes" where
  "sig_alg_der p = der 0x30 (oid_der (sig_oid p))"

definition hash_alg_der :: "DpeProfile \<Rightarrow> bytes" where
  "hash_alg_der p = der 0x30 (oid_der (hash_oid p))"

definition validity_der :: "CertValidity \<Rightarrow> bytes" where
  "validity_der v = der 0x30 (der 0x18 (not_before v) @ der 0x18 (not_after v))"

definition ec_pub_alg_der :: "bytes \<Rightarrow> bytes" where
  "ec_pub_alg_der curve = der 0x30 (oid_der EC_PUB_OID @ oid_der curve)"

primrec curve_oid :: "EcdsaPubKey \<Rightarrow> bytes" where
  "curve_oid (EcdsaPub256 x y) = CURVE_P256_OID"
| "curve_oid (EcdsaPub384 x y) = CURVE_P384_OID"

primrec pub_key_der :: "DpeProfile \<Rightarrow> PubKey \<Rightarrow> bytes" where
  "pub_key_der p (PubEcdsa k) =
     der 0x30 (ec_pub_alg_der (curve_oid k) @ der 0x03 (0 # 0x04 # pub_x k @ pub_y k))"
| "pub_key_der p (PubMldsa k) = der 0x30 (sig_alg_der p @ der 0x03 (0 # k))"

definition ecdsa_sig_der :: "EcdsaSignature \<Rightarrow> bytes" where
  "ecdsa_sig_der s = der 0x30 (der_integer (sig_r s) @ der_integer (sig_s s))"

primrec signature_bits_der :: "Signature \<Rightarrow> bytes" where
  "signature_bits_der (SigEcdsa s) = der 0x03 (0 # ecdsa_sig_der s)"
| "signature_bits_der (SigMldsa s) = der 0x03 (0 # s)"

primrec signature_octets_der :: "Signature \<Rightarrow> bytes" where
  "signature_octets_der (SigEcdsa s) = der 0x04 (ecdsa_sig_der s)"
| "signature_octets_der (SigMldsa s) = der 0x04 s"

definition version_der :: bytes where
  "version_der = der 0xA0 (der_integer (u64_to_be_bytes X509_V3))"

text \<open>The sizes computed beforehand are the lengths of these structures.\<close>

named_theorems tag_simps \<open>the values of the tags\<close>

lemmas tag_defs [tag_simps] = BOOL_TAG_def INTEGER_TAG_def BIT_STRING_TAG_def OCTET_STRING_TAG_def
  OID_TAG_def UTF8_STRING_TAG_def PRINTABLE_STRING_TAG_def GENERALIZE_TIME_TAG_def SEQUENCE_TAG_def
  SEQUENCE_OF_TAG_def SET_OF_TAG_def BOOL_SIZE_def CONTEXT_SPECIFIC_def CONSTRUCTED_def

lemma or_tags [tag_simps]:
  "(0x80 OR 0x20 :: u8) = 0xA0" "(0x80 OR 0x20 OR 0x0 :: u8) = 0xA0" "(0x80 OR 0x0 :: u8) = 0x80"
  "(0x80 OR 0x20 OR 0x03 :: u8) = 0xA3" "(0x80 OR 0x20 OR 0x02 :: u8) = 0xA2"
  "(0x80 OR 0x20 OR 0x06 :: u8) = 0xA6" "(0x80 OR 0x20 OR 11 :: u8) = 0xAB"
  "(0x80 OR 0x01 :: u8) = 0x81" "(0x80 OR 0x03 :: u8) = 0x83" "(0x80 OR 0x08 :: u8) = 0x88"
  "(0x80 OR 0x09 :: u8) = 0x89" "(0x80 OR 0x04 :: u8) = 0x84"
  by simp_all

named_theorems size_simps \<open>computed sizes as lengths\<close>

lemma length_der_sizes [size_simps]:
  "length (der t c) = get_structure_size (length c) True"
  "get_structure_size n False = n"
  "length (oid_der oid) = get_structure_size (length oid) True"
  "length (der_integer bs) = get_integer_bytes_size bs True"
  "length (directory_string_der s) = get_structure_size (directory_string_len s) True"
  by (simp_all add: length_der length_der_integer oid_der_def get_structure_size_def)
    (cases s; simp add: length_der directory_string_len_def get_structure_size_def)

lemma algorithm_sizes [size_simps]:
  "length (sig_alg_der p) = get_ecdsa_sig_alg_id_size p True"
  "get_mldsa_sig_alg_id_size p tagged = get_ecdsa_sig_alg_id_size p tagged"
  "length (hash_alg_der p) = get_hash_alg_id_size p True"
  "length (ec_pub_alg_der c) = get_ec_pub_alg_id_size c True"
  "length (version_der) = get_structure_size (get_integer_size X509_V3 True) True"
  by (simp_all add: size_simps sig_alg_der_def get_ecdsa_sig_alg_id_size_def
      get_mldsa_sig_alg_id_size_def get_bytes_size_def hash_alg_der_def get_hash_alg_id_size_def
      ec_pub_alg_der_def get_ec_pub_alg_id_size_def version_der_def get_integer_size_def)

lemma writes_oid [writes_intros]: "writes d (encode_oid oid) (oid_der oid)"
  using writes_encode_tlv [of d OID_TAG oid] by (simp add: encode_oid_def oid_der_def OID_TAG_def)

lemma writes_rdn_string [writes_intros]: "writes d (encode_rdn_string s) (directory_string_der s)"
  using writes_encode_tlv by (cases s) (auto simp: encode_rdn_string_def tag_simps)

lemma attribute_flat:
  "attribute_der oid s =
     (let n = get_structure_size (length oid) True + get_structure_size (directory_string_len s) True
      in 0x31 # der_len (get_structure_size n True) @ 0x30 # der_len n @ oid_der oid
           @ directory_string_der s)"
proof -
  have "attribute_der oid s = 0x31 # der_len (length (der 0x30 (oid_der oid @ directory_string_der s)))
      @ der 0x30 (oid_der oid @ directory_string_der s)"
    unfolding attribute_der_def by (subst der_def) (rule refl)
  then show ?thesis
    by (simp only: size_simps length_append Let_def)
      (simp add: der_def [of "0x30"] size_simps)
qed

lemma length_attribute [size_simps]:
  "length (attribute_der oid s) = get_structure_size (get_structure_size
     (get_structure_size (length oid) True + get_structure_size (directory_string_len s) True) True) True"
  by (simp add: attribute_der_def size_simps)

lemma der_flat: "length c = n \<Longrightarrow> der t c = t # der_len n @ c"
  by (simp add: der_def)

lemmas rdn_flat = der_flat [of "attribute_der RDN_COMMON_NAME_OID s @ attribute_der RDN_SERIALNUMBER_OID t",
    OF length_append, unfolded length_attribute] for s t

lemma writes_rdn [writes_intros]: "writes d (encode_rdn name) (rdn_der name)"
  unfolding encode_rdn_def Let_def rdn_der_def rdn_flat
  by (rule writes_conv, (rule writes_intros)+)
    (simp only: attribute_flat Let_def tag_simps append.simps append_assoc append_Nil2)

lemma writes_algorithms [writes_intros]:
  "writes d (encode_ecdsa_sig_alg_id p) (sig_alg_der p)"
  "writes d (encode_mldsa_sig_alg_id p) (sig_alg_der p)"
  "writes d (encode_hash_alg_id p) (hash_alg_der p)"
  "writes d (encode_ec_pub_alg_id c) (ec_pub_alg_der c)"
  "writes d encode_version version_der"
  "writes d (encode_validity v) (validity_der v)"
  unfolding encode_ecdsa_sig_alg_id_def encode_mldsa_sig_alg_id_def encode_hash_alg_id_def
    encode_ec_pub_alg_id_def encode_version_def encode_validity_def sig_alg_der_def hash_alg_der_def
    ec_pub_alg_der_def version_der_def validity_der_def tag_simps
  by (rule writes_struct writes_intros |
      (simp add: size_simps get_ecdsa_sig_alg_id_size_def get_mldsa_sig_alg_id_size_def
        get_bytes_size_def get_hash_alg_id_size_def get_ec_pub_alg_id_size_def get_integer_size_def
        get_validity_size_def; fail))+

lemma writes_ecdsa_pub_key:
  assumes "ecdsa_pub_wf k"
  shows "writes d (encode_ecdsa_subject_pubkey_info k c)
    (der 0x30 (ec_pub_alg_der c @ der 0x03 (0 # 0x04 # pub_x k @ pub_y k)))"
proof -
  have "length (pub_x k) = ecdsa_pub_curve_size k" "length (pub_y k) = ecdsa_pub_curve_size k"
    using assms by (cases k; simp)+
  then show ?thesis
    unfolding encode_ecdsa_subject_pubkey_info_def Let_def ecdsa_pub_as_slice_def split_conv tag_simps
    by - (rule writes_struct writes_intros | (simp add: size_simps; fail))+
qed

lemma writes_mldsa_pub_key:
  "writes d (encode_mldsa_subject_pubkey_info p k) (der 0x30 (sig_alg_der p @ der 0x03 (0 # k)))"
  unfolding encode_mldsa_subject_pubkey_info_def tag_simps
  by (rule writes_struct writes_intros |
      (simp add: size_simps get_mldsa_subject_pubkey_info_size_def; fail))+

lemma writes_pub_key [writes_intros]:
  assumes "pub_key_wf pk"
  shows "writes d (encode_pub_key_info p pk) (pub_key_der p pk)"
proof (cases pk)
  case (PubEcdsa k)
  with assms writes_ecdsa_pub_key [of k] show ?thesis
    by (cases k) (simp_all add: encode_pub_key_info_def)
qed (simp add: encode_pub_key_info_def writes_mldsa_pub_key)

lemma length_ecdsa_sig [size_simps]:
  "length (ecdsa_sig_der s) = get_structure_size
     (get_integer_bytes_size (sig_r s) True + get_integer_bytes_size (sig_s s) True) True"
  by (simp add: ecdsa_sig_der_def size_simps)

text \<open>
  The size of the BIT STRING is computed as that of a structure with one byte more: the same number
  as long as both lengths need one byte, which holds for the signatures of both curves.
\<close>

lemma small_integer:
  "length bs \<le> 48 \<Longrightarrow> get_integer_bytes_size bs True \<le> 51"
  using length_int_content [of bs]
  by (simp add: get_integer_bytes_size_eq get_structure_size_def get_size_width_def)

lemma ecdsa_sig_size:
  assumes "ecdsa_sig_wf s"
  defines "n \<equiv> get_integer_bytes_size (sig_r s) True + get_integer_bytes_size (sig_s s) True"
  shows "get_structure_size (1 + n) True = 1 + get_structure_size n True"
proof -
  have "n \<le> 102" unfolding n_def using assms small_integer [of "sig_r s"] small_integer [of "sig_s s"]
    by (cases s) auto
  then show ?thesis by (simp add: get_structure_size_def get_size_width_def)
qed

lemma writes_mldsa_signature [writes_intros]:
  "writes d (encode_mldsa_signature_bit_string m) (der 0x03 (0 # m))"
  "writes d (encode_mldsa_signature_octet_string m) (der 0x04 m)"
  unfolding encode_mldsa_signature_bit_string_def encode_mldsa_signature_octet_string_def tag_simps
  by (rule writes_struct writes_intros | (simp; fail))+

lemma writes_ecdsa_octets [writes_intros]:
  "writes d (encode_ecdsa_signature_octet_string s) (der 0x04 (ecdsa_sig_der s))"
  unfolding encode_ecdsa_signature_octet_string_def Let_def ecdsa_sig_as_slice_def split_conv
    ecdsa_sig_der_def tag_simps
  by (rule writes_struct writes_intros | (simp add: size_simps; fail))+

lemma writes_ecdsa_bits [writes_intros]:
  "ecdsa_sig_wf s \<Longrightarrow>
     writes d (encode_ecdsa_signature_bit_string s) (der 0x03 (0 # ecdsa_sig_der s))"
  unfolding encode_ecdsa_signature_bit_string_def Let_def ecdsa_sig_as_slice_def split_conv
    ecdsa_sig_der_def tag_simps
  by (rule writes_struct writes_intros | (simp add: size_simps ecdsa_sig_size [simplified]; fail))+

lemma writes_signature [writes_intros]:
  "signature_wf sig \<Longrightarrow>
     writes d (encode_signature_bit_string p sig) (sig_alg_der p @ signature_bits_der sig)"
  "writes d (encode_signature_octet_string p sig) (sig_alg_der p @ signature_octets_der sig)"
  unfolding encode_signature_bit_string_def encode_signature_octet_string_def
  by (cases sig; simp only: Signature.case signature_bits_der.simps signature_octets_der.simps
        signature_wf.simps; rule writes_conv, (rule writes_intros | assumption)+; simp)+

section \<open>Extensions\<close>

definition crit_der :: "u8 option \<Rightarrow> bytes" where
  "crit_der crit = (case crit of None \<Rightarrow> [] | Some v \<Rightarrow> der 0x01 [v])"

definition ext_der :: "bytes \<Rightarrow> u8 option \<Rightarrow> bytes \<Rightarrow> bytes" where
  "ext_der oid crit content = der 0x30 (oid_der oid @ crit_der crit @ der 0x04 content)"

definition fwid_der :: "DpeProfile \<Rightarrow> bytes \<Rightarrow> bytes" where
  "fwid_der p digest = der 0x30 (oid_der (hash_oid p) @ der 0x04 digest)"

definition registers_der :: "DpeProfile \<Rightarrow> bytes \<Rightarrow> bytes" where
  "registers_der p digest = der 0xAB (der 0x30
     (der 0x81 (int_content (u64_to_be_bytes INTEGRITY_REGISTER_NUM)) @ der 0xA2 (fwid_der p digest)))"

definition tcb_info_der :: "DpeProfile \<Rightarrow> bool \<Rightarrow> TciNodeData \<Rightarrow> bytes" where
  "tcb_info_der p recursive node = der 0x30
     (der 0x83 (int_content (u64_to_be_bytes (ucast (tci_svn node)))) @
      der 0xA6 (fwid_der p (tci_current node)) @
      der 0x88 (u32_to_be_bytes (tci_locality node)) @
      der 0x89 (u32_to_le_bytes (tci_type node)) @
      (if recursive then registers_der p (tci_cumulative node) else []))"

abbreviation tcb_infos :: "DpeProfile \<Rightarrow> bool \<Rightarrow> Context list \<Rightarrow> bytes" where
  "tcb_infos p r cs \<equiv> concat (map (\<lambda>c. tcb_info_der p r (tci c)) cs)"

definition multi_tcb_info_der :: "DpeProfile \<Rightarrow> bool \<Rightarrow> MeasurementData \<Rightarrow> Context list \<Rightarrow> bytes" where
  "multi_tcb_info_der p crit md cs = ext_der MULTI_TCBINFO_OID (crit_byte crit)
     (der 0x30 (tcb_infos p (md_supports_recursive md) cs))"

definition ueid_der :: "bool \<Rightarrow> MeasurementData \<Rightarrow> bytes" where
  "ueid_der crit md = ext_der UEID_OID (crit_byte crit) (der 0x30 (der 0x04 (md_label md)))"

definition basic_constraints_der :: "MeasurementData \<Rightarrow> bytes" where
  "basic_constraints_der md = ext_der BASIC_CONSTRAINTS_OID (Some 0xFF)
     (der 0x30 (if md_is_ca md then der 0x01 [0xFF] else []))"

text \<open>The bits digitalSignature and, for a CA, keyCertSign, with the number of unused bits.\<close>

definition key_usage_der :: "bool \<Rightarrow> bytes" where
  "key_usage_der is_ca = ext_der KEY_USAGE_OID (Some 0xFF)
     (der 0x03 (if is_ca then [2, 0x84] else [7, 0x80]))"

definition extended_key_usage_der :: "MeasurementData \<Rightarrow> bytes" where
  "extended_key_usage_der md = ext_der EXTENDED_KEY_USAGE_OID (Some 0xFF)
     (der 0x30 (oid_der (if md_is_ca md then ECA_OID else ATTEST_LOC_OID)))"

definition other_name_der :: "OtherName \<Rightarrow> bytes" where
  "other_name_der n = der 0xA0 (oid_der (on_oid n) @ der 0xA0 (der 0x0C (on_other_name n)))"

definition subject_alt_name_der :: "MeasurementData \<Rightarrow> bytes" where
  "subject_alt_name_der md =
     (case md_subject_alt_name md of
        None \<Rightarrow> []
      | Some (SanOtherName n) \<Rightarrow> ext_der SUBJECT_ALTERNATIVE_NAME_OID None (der 0x30 (other_name_der n)))"

definition authority_key_id_der :: "MeasurementData \<Rightarrow> bytes" where
  "authority_key_id_der md = ext_der AUTHORITY_KEY_IDENTIFIER_OID None
     (der 0x30 (der 0x80 (md_authority_key_identifier md)))"

definition subject_key_id_der :: "MeasurementData \<Rightarrow> bytes" where
  "subject_key_id_der md = ext_der SUBJECT_KEY_IDENTIFIER_OID None
     (der 0x04 (md_subject_key_identifier md))"

definition other_extensions :: "bool \<Rightarrow> MeasurementData \<Rightarrow> bool \<Rightarrow> bytes" where
  "other_extensions crit md is_x509 =
     (ueid_der crit md @ basic_constraints_der md @
      key_usage_der (md_is_ca md) @ extended_key_usage_der md @
      (if md_is_ca md \<and> is_x509 then subject_key_id_der md else []) @
      (if is_x509 then authority_key_id_der md else []) @ subject_alt_name_der md)"

definition extension_list :: "DpeProfile \<Rightarrow> bool \<Rightarrow> MeasurementData \<Rightarrow> bool \<Rightarrow> Context list \<Rightarrow> bytes" where
  "extension_list p crit md is_x509 cs = multi_tcb_info_der p crit md cs @ other_extensions crit md is_x509"

definition extensions_der :: "DpeProfile \<Rightarrow> bool \<Rightarrow> MeasurementData \<Rightarrow> bool \<Rightarrow> Context list \<Rightarrow> bytes" where
  "extensions_der p crit md is_x509 cs =
     (let exts = der 0x30 (extension_list p crit md is_x509 cs)
      in if is_x509 then der 0xA3 exts else exts)"

definition attributes_der :: "DpeProfile \<Rightarrow> bool \<Rightarrow> MeasurementData \<Rightarrow> Context list \<Rightarrow> bytes" where
  "attributes_der p crit md cs = der 0xA0 (der 0x30
     (oid_der EXTENSION_REQUEST_OID @ der 0x31 (extensions_der p crit md False cs)))"

text \<open>
  What the encoder writes. It computes the sizes of the extensions before it writes any of them, and for
  the SEQUENCE OF TcbInfo it takes the size for the first context of the array times the number of nodes. So
  the length fields of this SEQUENCE and of all structures around it state a counted length, and they are
  the DER above only if the count is exact.
\<close>

definition tlv :: "u8 \<Rightarrow> nat \<Rightarrow> bytes \<Rightarrow> bytes" where
  "tlv t n content = t # der_len n @ content"

definition counted_infos :: "DpeProfile \<Rightarrow> MeasurementData \<Rightarrow> Context list \<Rightarrow> nat" where
  "counted_infos p md cs =
     get_tcb_info_size p (tci (hd (tn_contexts (md_tci_nodes md)))) (md_supports_recursive md) True * length cs"

definition multi_header :: "bool \<Rightarrow> nat \<Rightarrow> bytes" where
  "multi_header crit n =
     (let m = get_structure_size n True
      in 0x30 # der_len (get_extension_size MULTI_TCBINFO_OID crit m False) @ oid_der MULTI_TCBINFO_OID @
         crit_der (crit_byte crit) @ 0x04 # der_len m @ 0x30 # der_len n)"

definition multi_tcb_info_written :: "DpeProfile \<Rightarrow> bool \<Rightarrow> MeasurementData \<Rightarrow> Context list \<Rightarrow> bytes" where
  "multi_tcb_info_written p crit md cs =
     multi_header crit (counted_infos p md cs) @ tcb_infos p (md_supports_recursive md) cs"

definition counted_extensions :: "DpeProfile \<Rightarrow> bool \<Rightarrow> MeasurementData \<Rightarrow> bool \<Rightarrow> Context list \<Rightarrow> nat" where
  "counted_extensions p crit md is_x509 cs =
     get_extension_size MULTI_TCBINFO_OID crit (get_structure_size (counted_infos p md cs) True) True +
     length (other_extensions crit md is_x509)"

definition extensions_written :: "DpeProfile \<Rightarrow> bool \<Rightarrow> MeasurementData \<Rightarrow> bool \<Rightarrow> Context list \<Rightarrow> bytes" where
  "extensions_written p crit md is_x509 cs =
     (let n = counted_extensions p crit md is_x509 cs;
          exts = tlv 0x30 n (multi_tcb_info_written p crit md cs @ other_extensions crit md is_x509)
      in if is_x509 then tlv 0xA3 (get_structure_size n True) exts else exts)"

definition attributes_written :: "DpeProfile \<Rightarrow> bool \<Rightarrow> MeasurementData \<Rightarrow> Context list \<Rightarrow> bytes" where
  "attributes_written p crit md cs =
     (let n = get_structure_size (counted_extensions p crit md False cs) True;
          m = length (oid_der EXTENSION_REQUEST_OID) + get_structure_size n True
      in tlv 0xA0 (get_structure_size m True) (tlv 0x30 m
           (oid_der EXTENSION_REQUEST_OID @ tlv 0x31 n (extensions_written p crit md False cs))))"

definition exact_count :: "DpeProfile \<Rightarrow> MeasurementData \<Rightarrow> Context list \<Rightarrow> bool" where
  "exact_count p md cs \<longleftrightarrow>
     counted_infos p md cs = length (tcb_infos p (md_supports_recursive md) cs)"

lemma length_ext [size_simps]:
  "length (ext_der oid crit content) = get_extension_size oid (crit \<noteq> None) (length content) True"
  by (cases crit) (simp_all add: ext_der_def crit_der_def size_simps get_extension_size_def BOOL_SIZE_def
      add.assoc)

lemma writes_extension_header:
  "writes d (encode_extension_header oid crit (length content))
    (0x30 # der_len (get_extension_size oid (crit \<noteq> None) (length content) False) @ oid_der oid @
       crit_der crit @ 0x04 # der_len (length content))"
  unfolding encode_extension_header_def Let_def tag_simps
  by (cases crit; simp only: option.case append.simps crit_der_def;
      rule writes_conv, (rule writes_intros)+; simp add: der_def)

lemma writes_extension:
  assumes "writes d (encode_all ms) content" "n = length content"
  shows "writes d (encode_all (encode_extension_header oid crit n # ms)) (ext_der oid crit content)"
proof -
  have l: "length (oid_der oid @ crit_der crit @ der 0x04 content) =
      get_extension_size oid (crit \<noteq> None) (length content) False"
    by (cases crit) (simp_all add: get_extension_size_def size_simps crit_der_def BOOL_SIZE_def)
  have "ext_der oid crit content = 0x30 # der_len (get_extension_size oid (crit \<noteq> None) (length content) False)
      @ oid_der oid @ crit_der crit @ 0x04 # der_len (length content) @ content"
    unfolding ext_der_def der_flat [OF l] by (simp add: der_def)
  with writes_all_Cons [OF writes_extension_header [of d oid crit content] assms(1)] assms(2)
  show ?thesis by simp
qed

lemmas writes_ext_struct = writes_extension writes_struct

lemma length_fwid [size_simps]: "length (fwid_der p digest) = get_fwid_size p digest True"
  by (simp add: fwid_der_def size_simps get_fwid_size_def)

lemma writes_fwid [writes_intros]: "writes d (encode_fwid p digest) (fwid_der p digest)"
  unfolding encode_fwid_def fwid_der_def tag_simps
  by (rule writes_struct writes_intros | (simp add: size_simps get_fwid_size_def; fail))+

lemma writes_int_element:
  assumes "writes d (encode_all ms) c"
  shows "writes d (encode_all (encode_byte t # encode_integer n False # ms))
    (der t (int_content (u64_to_be_bytes n)) @ c)"
  by (rule writes_conv, (rule writes_all_Cons writes_intros assms)+) (simp add: der_def)

lemma length_registers [size_simps]:
  "length (registers_der p digest) =
     get_structure_size (get_structure_size (get_integer_size INTEGRITY_REGISTER_NUM True
       + get_structure_size (get_fwid_size p digest True) True) True) True"
  by (simp add: registers_der_def size_simps get_integer_size_def get_integer_bytes_size_eq)

lemma writes_registers [writes_intros]:
  "writes d (encode_integrity_registers p node) (registers_der p (tci_cumulative node))"
  unfolding encode_integrity_registers_def registers_der_def tag_simps Let_def
  by (rule writes_int_element writes_struct writes_intros |
      (simp add: size_simps get_integer_size_def get_integer_bytes_size_eq; fail))+

lemma length_tcb_info:
  "length (tcb_info_der p r node) = get_tcb_info_size p node r True"
  by (simp add: tcb_info_der_def size_simps get_tcb_info_size_def Let_def get_integer_size_def
      get_integer_bytes_size_eq mult_2 ac_simps)

text \<open>An element in the middle of a structure: its tag, its size, and one encoder for its content.\<close>

lemma writes_element_then:
  assumes "writes d m c" "writes d (encode_all ms) r" "n = length c"
  shows "writes d (encode_all (encode_byte t # encode_size_field n # m # ms)) (der t c @ r)"
  by (rule writes_conv, (rule writes_all_Cons writes_encode_byte writes_size_field assms)+)
    (simp add: der_def assms(3))

lemma writes_tcb_info [writes_intros]:
  "writes d (encode_tcb_info p r node) (tcb_info_der p r node)"
proof -
  have "get_tcb_info_size p node r False = length (der 0x83 (int_content (u64_to_be_bytes (ucast (tci_svn node)))) @
      der 0xA6 (fwid_der p (tci_current node)) @ der 0x88 (u32_to_be_bytes (tci_locality node)) @
      der 0x89 (u32_to_le_bytes (tci_type node)) @
      (if r then registers_der p (tci_cumulative node) else []))"
    by (simp add: size_simps get_tcb_info_size_def Let_def get_integer_size_def
        get_integer_bytes_size_eq mult_2 ac_simps)
  then show ?thesis
    unfolding encode_tcb_info_def tcb_info_der_def tag_simps Let_def
    by (cases r; simp only: if_True if_False append.simps append_Nil2)
      (rule writes_int_element writes_element_then writes_struct writes_intros | (simp add: size_simps; fail) | assumption)+
qed

section \<open>The nodes of a certificate\<close>

text \<open>
  \<open>node_path md cs\<close>: the iterator over the nodes of the measurement data yields the contexts \<open>cs\<close>.
\<close>

definition node_path :: "MeasurementData \<Rightarrow> Context list \<Rightarrow> bool" where
  "node_path md cs \<longleftrightarrow>
     (\<exists>it. TciNodes_iter (md_tci_nodes md) = Ok it \<and> iter_items it = map Ok cs \<and>
       iter_num_nodes it = length cs \<and> it_contexts it = tn_contexts (md_tci_nodes md)) \<and>
     cs \<noteq> [] \<and> tn_contexts (md_tci_nodes md) \<noteq> []"

lemma writes_nodes:
  "writes d (encode_nodes p r (map Ok cs)) (tcb_infos p r cs)"
proof (induction cs)
  case (Cons c cs)
  then show ?case
    by (simp only: list.map encode_nodes.simps bind_lift concat.simps)
      (rule writes_bind writes_tcb_info refl | assumption)+
qed (simp only: list.map encode_nodes.simps concat.simps writes_ret)

lemma node_counts:
  assumes "node_path md cs"
  shows "TciNodes_first_node (md_tci_nodes md) = Ok (tci (hd (tn_contexts (md_tci_nodes md))))"
    and "TciNodes_num_nodes (md_tci_nodes md) = Ok (length cs)"
    and "TciNodes_is_empty (md_tci_nodes md) = Ok False"
proof -
  from assms obtain it where it: "TciNodes_iter (md_tci_nodes md) = Ok it"
    "iter_num_nodes it = length cs" "it_contexts it = tn_contexts (md_tci_nodes md)"
    and ne: "cs \<noteq> []" "tn_contexts (md_tci_nodes md) \<noteq> []"
    by (auto simp: node_path_def)
  then have "it_path it \<noteq> []" by (auto simp: iter_num_nodes_def)
  with it ne show "TciNodes_first_node (md_tci_nodes md) = Ok (tci (hd (tn_contexts (md_tci_nodes md))))"
    "TciNodes_num_nodes (md_tci_nodes md) = Ok (length cs)" "TciNodes_is_empty (md_tci_nodes md) = Ok False"
    by (simp_all add: TciNodes_first_node_def TciNodes_num_nodes_def TciNodes_is_empty_def
        iter_first_node_def iter_is_empty_def hd_conv_nth)
qed

lemma writes_multi_tcb_info [writes_intros]:
  assumes "node_path md cs"
  shows "writes d (encode_multi_tcb_info p crit md) (multi_tcb_info_written p crit md cs)"
proof -
  let ?r = "md_supports_recursive md" let ?n = "counted_infos p md cs" let ?m = "get_structure_size ?n True"
  from assms obtain it where it: "TciNodes_iter (md_tci_nodes md) = Ok it" "iter_items it = map Ok cs"
    by (auto simp: node_path_def)
  have h: "writes d (encode_extension_header MULTI_TCBINFO_OID (crit_byte crit) ?m)
      (0x30 # der_len (get_extension_size MULTI_TCBINFO_OID (crit_byte crit \<noteq> None) ?m False) @
       oid_der MULTI_TCBINFO_OID @ crit_der (crit_byte crit) @ 0x04 # der_len ?m)"
    using writes_extension_header [of d MULTI_TCBINFO_OID "crit_byte crit" "replicate ?m 0"] by simp
  have "writes d (encode_all [encode_extension_header MULTI_TCBINFO_OID (crit_byte crit) ?m,
      encode_byte 0x30, encode_size_field ?n, encode_nodes p ?r (map Ok cs)])
      (multi_tcb_info_written p crit md cs)"
    by (rule writes_conv, (rule writes_all_Cons writes_all_Nil h writes_nodes writes_intros)+)
      (simp add: multi_tcb_info_written_def multi_header_def Let_def crit_byte_def)
  moreover have "encode_multi_tcb_info p crit md w =
    encode_all [encode_extension_header MULTI_TCBINFO_OID (crit_byte crit) ?m,
      encode_byte 0x30, encode_size_field ?n, encode_nodes p ?r (map Ok cs)] w" for w
    by (auto simp: encode_multi_tcb_info_def node_counts [OF assms] it counted_infos_def tag_simps Let_def bind_def
        split: prod.splits outcome.splits)
  ultimately show ?thesis by (simp add: writes_def)
qed

section \<open>The extensions\<close>

lemma length_extensions_parts [size_simps]:
  "length (ueid_der crit md) = get_ueid_size crit md True"
  "length (basic_constraints_der md) = get_basic_constraints_size md True"
  "length (key_usage_der is_ca) = get_key_usage_size True"
  "length (extended_key_usage_der md) = get_extended_key_usage_size md True"
  "length (other_name_der n) = get_other_name_size n True"
  "length (if md_is_ca md \<and> is_x509 then subject_key_id_der md else []) =
     get_subject_key_identifier_extension_size md True is_x509"
  "length (if is_x509 then authority_key_id_der md else []) =
     get_authority_key_identifier_extension_size md True is_x509"
  by (simp_all add: size_simps ueid_der_def get_ueid_size_def basic_constraints_der_def
      get_basic_constraints_size_def key_usage_der_def get_key_usage_size_def crit_byte_def
      extended_key_usage_der_def get_extended_key_usage_size_def other_name_der_def BOOL_SIZE_def
      get_other_name_size_def get_other_name_value_size_def subject_key_id_der_def
      get_subject_key_identifier_extension_size_def authority_key_id_der_def
      get_authority_key_identifier_extension_size_def get_key_identifier_size_def numeral_2_eq_2)

lemma length_subject_alt_name [size_simps]:
  "length (subject_alt_name_der md) = get_subject_alt_name_extension_size md True"
  by (simp add: subject_alt_name_der_def get_subject_alt_name_extension_size_def size_simps
      split: option.split SubjectAltName.split)

lemma writes_extension_parts [writes_intros]:
  "writes d (encode_ueid crit md) (ueid_der crit md)"
  "writes d (encode_key_usage is_ca) (key_usage_der is_ca)"
  "writes d (encode_extended_key_usage md) (extended_key_usage_der md)"
  "writes d (encode_other_name_value v) (der 0xA0 (der 0x0C v))"
  "writes d (encode_key_identifier v) (der 0x80 v)"
  unfolding encode_ueid_def encode_key_usage_def ueid_der_def key_usage_der_def
    extended_key_usage_der_def encode_extended_key_usage_def encode_other_name_value_def
    encode_key_identifier_def tag_simps Let_def
  subgoal by (rule writes_ext_struct writes_intros | (simp add: size_simps; fail))+
  subgoal by (cases is_ca; simp only: if_True if_False split_conv DIGITAL_SIGNATURE_def KEY_CERT_SIGN_def or_tags)
      (rule writes_ext_struct writes_intros | (simp add: size_simps numeral_2_eq_2; fail))+
  subgoal by (rule writes_ext_struct writes_intros | (simp add: size_simps; fail))+
  subgoal by (rule writes_ext_struct writes_intros |
      (simp add: size_simps get_other_name_value_size_def; fail))+
  subgoal by (rule writes_intros)
  done

lemma writes_basic_constraints [writes_intros]:
  "writes d (encode_basic_constraints md) (basic_constraints_der md)"
  unfolding encode_basic_constraints_def basic_constraints_der_def tag_simps Let_def
  by (cases "md_is_ca md"; simp only: if_True if_False append.simps append_Nil2)
    (rule writes_ext_struct writes_intros | (simp add: size_simps; fail))+

lemma writes_other_name [writes_intros]:
  "writes d (encode_other_name n) (other_name_der n)"
  unfolding encode_other_name_def other_name_der_def tag_simps Let_def
  by (rule writes_ext_struct writes_intros |
      (simp add: size_simps get_other_name_size_def get_other_name_value_size_def; fail))+

lemma writes_optional_extensions [writes_intros]:
  "writes d (encode_subject_alt_name_extension md) (subject_alt_name_der md)"
  "writes d (encode_authority_key_identifier_extension md is_x509)
    (if is_x509 then authority_key_id_der md else [])"
  "writes d (encode_subject_key_identifier_extension md is_x509)
    (if md_is_ca md \<and> is_x509 then subject_key_id_der md else [])"
proof -
  show "writes d (encode_subject_alt_name_extension md) (subject_alt_name_der md)"
  proof (cases "md_subject_alt_name md")
    case None
    then show ?thesis
      by (simp only: encode_subject_alt_name_extension_def subject_alt_name_der_def option.case writes_ret)
  next
    case (Some s)
    obtain n where s: "s = SanOtherName n" by (cases s)
    show ?thesis
      unfolding encode_subject_alt_name_extension_def subject_alt_name_der_def Some s option.case
        SubjectAltName.case Let_def tag_simps
      by (rule writes_ext_struct writes_intros | (simp add: size_simps; fail))+
  qed
  show "writes d (encode_authority_key_identifier_extension md is_x509)
      (if is_x509 then authority_key_id_der md else [])"
    unfolding encode_authority_key_identifier_extension_def authority_key_id_der_def Let_def tag_simps
    by (cases is_x509; simp only: if_True if_False not_True_eq_False not_False_eq_True)
      (rule writes_ext_struct writes_intros |
        (simp add: size_simps get_key_identifier_size_def; fail))+
  show "writes d (encode_subject_key_identifier_extension md is_x509)
      (if md_is_ca md \<and> is_x509 then subject_key_id_der md else [])"
    unfolding encode_subject_key_identifier_extension_def subject_key_id_der_def Let_def tag_simps
    by (cases is_x509; cases "md_is_ca md"; simp only: if_True if_False simp_thms)
      (rule writes_ext_struct writes_intros | (simp add: size_simps; fail))+
qed

text \<open>The size of all extensions, which the code computes before it writes any of them.\<close>

lemma extensions_size:
  assumes "node_path md cs"
  shows "get_extensions_size p crit md tagged False is_x509 =
    Ok (get_structure_size (counted_extensions p crit md is_x509 cs) tagged)"
  by (simp add: get_extensions_size_def get_multi_tcb_info_size_def counted_extensions_def other_extensions_def
      node_counts [OF assms] counted_infos_def size_simps Let_def add_ac mult.commute split del: if_split)

lemma writes_extensions [writes_intros]:
  assumes "node_path md cs"
  shows "writes d (encode_extensions p crit md is_x509) (extensions_written p crit md is_x509 cs)"
proof -
  let ?n = "counted_extensions p crit md is_x509 cs"
  have list: "writes d (encode_all [encode_byte 0x30, encode_size_field ?n, encode_multi_tcb_info p crit md,
      encode_ueid crit md, encode_basic_constraints md, encode_key_usage (md_is_ca md), encode_extended_key_usage md,
      encode_subject_key_identifier_extension md is_x509,
      encode_authority_key_identifier_extension md is_x509, encode_subject_alt_name_extension md])
    (tlv 0x30 ?n (multi_tcb_info_written p crit md cs @ other_extensions crit md is_x509))"
    by (rule writes_conv, (rule writes_all_Cons writes_all_Nil writes_intros assms)+)
      (simp only: tlv_def other_extensions_def append_assoc append_Cons append_Nil append_Nil2)
  note defs = encode_extensions_def extensions_written_def extensions_size [OF assms] bind_lift tag_simps Let_def
    get_structure_size_def [of _ False]
  show ?thesis
  proof (cases is_x509)
    case True
    have "writes d (encode_all (encode_byte 0xA3 # encode_size_field (get_structure_size ?n True) #
        [encode_byte 0x30, encode_size_field ?n, encode_multi_tcb_info p crit md,
      encode_ueid crit md, encode_basic_constraints md, encode_key_usage (md_is_ca md), encode_extended_key_usage md,
      encode_subject_key_identifier_extension md is_x509,
      encode_authority_key_identifier_extension md is_x509, encode_subject_alt_name_extension md]))
      (tlv 0xA3 (get_structure_size ?n True)
        (tlv 0x30 ?n (multi_tcb_info_written p crit md cs @ other_extensions crit md is_x509)))"
      by (rule writes_conv, (rule writes_all_Cons [OF writes_encode_byte] writes_all_Cons [OF writes_size_field] list)+)
        (simp only: tlv_def [of "0xA3"] append_Cons append_Nil)
    with True show ?thesis by (simp only: defs if_True if_False append.simps)
  qed (use list in \<open>simp only: defs if_False append.simps\<close>)
qed

section \<open>The bodies of what is signed\<close>

definition tbs_body ::
  "DpeProfile \<Rightarrow> bool \<Rightarrow> bytes \<Rightarrow> bytes \<Rightarrow> Name \<Rightarrow> PubKey \<Rightarrow> MeasurementData \<Rightarrow> CertValidity \<Rightarrow>
     Context list \<Rightarrow> bytes" where
  "tbs_body p crit sn issuer name pk md validity cs =
     version_der @ der_integer sn @ sig_alg_der p @ issuer @ validity_der validity @ rdn_der name @
     pub_key_der p pk @ extensions_written p crit md True cs"

definition request_body ::
  "DpeProfile \<Rightarrow> bool \<Rightarrow> PubKey \<Rightarrow> Name \<Rightarrow> MeasurementData \<Rightarrow> Context list \<Rightarrow> bytes" where
  "request_body p crit pk name md cs =
     der_integer (u64_to_be_bytes CSR_V0) @ rdn_der name @ pub_key_der p pk @
     attributes_written p crit md cs"

definition cms_version_der :: "SignerIdentifier \<Rightarrow> bytes" where
  "cms_version_der sid = der_integer (u64_to_be_bytes
     (case sid of IssuerAndSerialNumber _ _ \<Rightarrow> CMS_V1 | SubjectKeyIdentifier _ \<Rightarrow> CMS_V3))"

text \<open>The key identifier keeps its own OCTET STRING tag inside the tag [0].\<close>

definition signer_identifier_der :: "SignerIdentifier \<Rightarrow> bytes" where
  "signer_identifier_der sid =
     (case sid of
        IssuerAndSerialNumber issuer sn \<Rightarrow> der 0x30 (issuer @ der_integer sn)
      | SubjectKeyIdentifier ski \<Rightarrow> der 0x80 (der 0x04 ski))"

definition signer_info_der :: "DpeProfile \<Rightarrow> Signature \<Rightarrow> SignerIdentifier \<Rightarrow> bytes" where
  "signer_info_der p sig sid = der 0x30
     (cms_version_der sid @ signer_identifier_der sid @ hash_alg_der p @ sig_alg_der p @
      signature_octets_der sig)"

lemma writes_attributes [writes_intros]:
  assumes "node_path md cs"
  shows "writes d (encode_attributes p crit md) (attributes_written p crit md cs)"
  unfolding encode_attributes_def attributes_written_def get_attributes_size_def get_attribute_size_def
    extensions_size [OF assms] bindO.simps bind_lift tag_simps Let_def
  by (rule writes_conv, (rule writes_all_Cons writes_all_Nil writes_intros assms)+)
    (simp add: tlv_def size_simps get_structure_size_def [of _ False])

lemma writes_tbs_body:
  assumes "pub_key_wf pk" "node_path md cs"
  shows "writes d (encode_all
    [encode_version, encode_integer_bytes sn True,
     (case pk of PubEcdsa _ \<Rightarrow> encode_ecdsa_sig_alg_id p | PubMldsa _ \<Rightarrow> encode_mldsa_sig_alg_id p),
     encode_bytes issuer, encode_validity validity, encode_rdn name,
     encode_pub_key_info p pk, encode_extensions p crit md True])
    (tbs_body p crit sn issuer name pk md validity cs)"
proof -
  have alg: "writes d (case pk of PubEcdsa _ \<Rightarrow> encode_ecdsa_sig_alg_id p
      | PubMldsa _ \<Rightarrow> encode_mldsa_sig_alg_id p) (sig_alg_der p)"
    by (cases pk) (simp_all add: writes_algorithms)
  show ?thesis
    unfolding tbs_body_def by (rule writes_struct writes_intros alg assms)+
qed

lemma writes_request_body:
  assumes "pub_key_wf pk" "node_path md cs"
  shows "writes d (encode_all
    [encode_integer CSR_V0 True, encode_rdn name, encode_pub_key_info p pk, encode_attributes p crit md])
    (request_body p crit pk name md cs)"
  unfolding request_body_def
  by (rule writes_struct writes_intros assms)+

lemma length_cms_version [size_simps]:
  "length (cms_version_der sid) = get_cms_version_size sid"
  by (cases sid) (simp_all add: cms_version_der_def get_cms_version_size_def size_simps get_integer_size_def)

lemma length_signer_identifier [size_simps]:
  "length (signer_identifier_der sid) = get_signer_identifier_size sid True"
  by (cases sid) (simp_all add: signer_identifier_der_def get_signer_identifier_size_def size_simps
      get_issuer_and_serial_number_size_def get_subject_key_identifier_size_def add.commute)

lemma length_signature_octets [size_simps]:
  "get_signature_octet_string_size p sig True =
     get_ecdsa_sig_alg_id_size p True + length (signature_octets_der sig)"
  by (cases sig) (simp_all add: get_signature_octet_string_size_def size_simps
      get_ecdsa_signature_octet_string_size_def ecdsa_sig_as_slice_def
      get_mldsa_signature_octet_string_size_def)

lemma length_signer_info [size_simps]:
  "length (signer_info_der p sig sid) = get_signer_info_size p sig sid True"
  by (simp add: signer_info_der_def get_signer_info_size_def size_simps add.assoc)

lemma writes_cms_version [writes_intros]: "writes d (encode_cms_version sid) (cms_version_der sid)"
  by (cases sid) (simp_all only: encode_cms_version_def cms_version_der_def SignerIdentifier.case
      writes_intros)

lemma writes_signer_identifier [writes_intros]:
  "writes d (encode_signer_identifier sid) (signer_identifier_der sid)"
  unfolding encode_signer_identifier_def signer_identifier_der_def
    encode_issuer_and_serial_number_def encode_subject_key_identifier_def tag_simps
  by (cases sid; simp only: SignerIdentifier.case)
    (rule writes_struct writes_intros | (simp add: size_simps get_issuer_and_serial_number_size_def
      get_subject_key_identifier_size_def add.commute; fail))+

lemma writes_signer_info [writes_intros]:
  "writes d (encode_signer_info p sig sid) (signer_info_der p sig sid)"
proof -
  have "writes d (encode_all [encode_byte 0x30, encode_size_field (get_signer_info_size p sig sid False),
      encode_cms_version sid, encode_signer_identifier sid, encode_hash_alg_id p,
      encode_signature_octet_string p sig]) (signer_info_der p sig sid)"
    unfolding signer_info_der_def
    by (rule writes_struct writes_intros |
        (simp add: size_simps get_signer_info_size_def add.assoc; fail))+
  from writes_check [OF this] show ?thesis
    by (simp only: encode_signer_info_def encode_tag_field_def tag_simps)
qed

end
