(* ===== verification/X509_Cert.thy ===== *)
theory X509_Cert
  imports X509_Sign X509_Der
begin

text \<open>
  What is signed and what a finished certificate, CSR or CMS message is, for every sign callback:
  the callback is shown exactly the DER encoding that ends up in the message, and a message that does
  not fit into the response buffer is an error.
\<close>

section \<open>Encoders that check the end of the buffer\<close>

definition checked :: "nat \<Rightarrow> nat enc \<Rightarrow> bytes \<Rightarrow> bool" where
  "checked d m bs \<longleftrightarrow> writes d m bs \<and>
     (\<forall>w n w'. ready d w \<and> m w = (Ok n, w') \<longrightarrow> fits w (length bs))"

lemma check_wrote:
  assumes "wrote w bs w'" "bs \<noteq> []"
  shows "check_not_truncated w' =
    (if fits w (length bs) then Ok () else Err (InternalError CertSizeOverflow), w')"
proof -
  have "0 < length bs" using assms(2) by simp
  then have "length (cw_certificate w) - cw_base w < cw_offset w + length bs \<longleftrightarrow> \<not> fits w (length bs)"
    unfolding fits_def by linarith
  with assms(1) show ?thesis
    by (simp add: check_not_truncated_def offset_capacity_def slice_capacity_def wrote_def)
qed

lemma check_Ok_fits:
  assumes "check_not_truncated w' = (Ok u, w'')" "wrote w bs w'" "bs \<noteq> []"
  shows "fits w (length bs) \<and> w'' = w'"
  using assms check_wrote [OF assms(2,3)] by (auto split: if_splits)

lemma checked_sized:
  assumes "writes d m body" "256 \<le> length body" "length body < 65536"
  shows "checked (Suc d) (bind (encode_tag_field t) (\<lambda>prefix.
     bind (push_backtrack SIZE_TAG_OFFSET) (\<lambda>_.
     bind m (\<lambda>n.
     bind (backtrack_and_encode_size [n]) (\<lambda>k.
     bind check_not_truncated (\<lambda>_. ret (prefix + k + n))))))) (der t body)" (is "checked _ ?m _")
  unfolding checked_def
proof (intro conjI allI impI)
  show w: "writes (Suc d) ?m (der t body)" by (rule writes_sized [OF assms])
  fix w n w' assume a: "ready (Suc d) w \<and> ?m w = (Ok n, w')"
  then obtain v where v: "check_not_truncated v = (Ok (), w')" by (auto simp: bind_Ok_iff)
  with w a have "wrote w (der t body) w'" by (auto simp: writes_def)
  moreover have "v = w'" using v by (auto simp: check_not_truncated_def split: if_splits)
  ultimately show "fits w (length (der t body))" using check_Ok_fits [of w'] v by simp
qed

lemma checkedD:
  assumes "checked d m bs" "ready d w"
  obtains (wrote) w' where "fits w (length bs)" "m w = (Ok (length bs), w')" "wrote w bs w'" "same_stack w w'"
  | (full) w' where "\<not> fits w (length bs)" "m w = (Err (InternalError CertSizeOverflow), w')"
  using assms unfolding checked_def writes_def by blast

section \<open>The signed structures\<close>

definition tbs_der ::
  "DpeProfile \<Rightarrow> bool \<Rightarrow> bytes \<Rightarrow> bytes \<Rightarrow> Name \<Rightarrow> PubKey \<Rightarrow> MeasurementData \<Rightarrow> CertValidity \<Rightarrow>
     Context list \<Rightarrow> bytes" where
  "tbs_der p crit sn issuer name pk md validity cs =
     der 0x30 (tbs_body p crit sn issuer name pk md validity cs)"

definition request_info_der ::
  "DpeProfile \<Rightarrow> bool \<Rightarrow> PubKey \<Rightarrow> Name \<Rightarrow> MeasurementData \<Rightarrow> Context list \<Rightarrow> bytes" where
  "request_info_der p crit pk name md cs = der 0x30 (request_body p crit pk name md cs)"

definition signed_der :: "DpeProfile \<Rightarrow> bytes \<Rightarrow> Signature \<Rightarrow> bytes" where
  "signed_der p tbs s = der 0x30 (tbs @ sig_alg_der p @ signature_bits_der s)"

lemma checked_tbs:
  assumes "pub_key_wf pk" "node_path md cs"
    and "256 \<le> length (tbs_body p crit sn issuer name pk md validity cs)"
    and "length (tbs_body p crit sn issuer name pk md validity cs) < 65536"
  shows "checked (Suc d) (encode_tbs p crit sn issuer name pk md validity)
    (tbs_der p crit sn issuer name pk md validity cs)"
  unfolding encode_tbs_def tbs_der_def tag_simps
  by (rule checked_sized [OF writes_tbs_body]) (use assms in simp_all)

lemma checked_request_info:
  assumes "pub_key_wf pk" "node_path md cs"
    and "256 \<le> length (request_body p crit pk name md cs)"
    and "length (request_body p crit pk name md cs) < 65536"
  shows "checked (Suc d) (encode_certification_request_info p crit pk name md)
    (request_info_der p crit pk name md cs)"
  unfolding encode_certification_request_info_def request_info_der_def tag_simps
  by (rule checked_sized [OF writes_request_body]) (use assms in simp_all)

definition signed_payload ::
  "DpeProfile \<Rightarrow> 'c sign_cb \<Rightarrow> nat enc \<Rightarrow> bool \<Rightarrow> Signature \<Rightarrow>
     ('c \<times> CertWriter, DpeErrorCode, nat \<times> Signature) act" where
  "signed_payload p cb enc flag sig =
     bind (on_writer (encode_tag_field SEQUENCE_TAG)) (\<lambda>prefix.
     bind (on_writer (push_backtrack SIZE_TAG_OFFSET)) (\<lambda>off.
     bind (on_writer enc) (\<lambda>n.
     bind (call_sign_cb cb off (off + n) flag sig) (\<lambda>sig.
     bind (on_writer (encode_signature_bit_string p sig)) (\<lambda>k.
     bind (on_writer (backtrack_and_encode_size [n + k])) (\<lambda>j.
     bind (on_writer check_not_truncated) (\<lambda>_.
     ret (n + k + (prefix + j), signature_zeroize sig))))))))"

lemma encode_certificate_signed:
  "encode_certificate p crit cb sn issuer name pk md validity sig =
     signed_payload p cb (encode_tbs p crit sn issuer name pk md validity) False sig"
  by (simp add: encode_certificate_def encode_signed_payload_def signed_payload_def bind_assoc Let_def
      del: ret_apply)

lemma encode_csr_signed:
  "encode_csr p crit cb pk name md sig =
     signed_payload p cb (encode_certification_request_info p crit pk name md) True sig"
  by (simp add: encode_csr_def encode_signed_payload_def signed_payload_def bind_assoc Let_def
      del: ret_apply)

lemma on_writer_step [act_simps]:
  "m w = (r, w') \<Longrightarrow> on_writer m (c, w) = (r, (c, w'))"
  by (simp add: on_writer_def)

lemma on_writer_bind:
  "m w = (Ok x, w') \<Longrightarrow> bind (on_writer m) f (c, w) = f x (c, w')"
  "m w = (Err e, w') \<Longrightarrow> bind (on_writer m) f (c, w) = (Err e, (c, w'))"
  by (simp_all add: on_writer_def bind_def)

lemma signature_width:
  assumes "signature_wf s"
  shows "length (sig_alg_der p @ signature_bits_der s) \<le> 4700"
proof -
  have "length (sig_alg_der p) \<le> 20"
    by (cases p) (simp_all add: sig_alg_der_def size_simps length_sig_oid get_structure_size_def
        get_size_width_def)
  moreover have "length (signature_bits_der s) \<le> 4640"
  proof (cases s)
    case (SigEcdsa k)
    have "length (sig_r k) \<le> 48 \<and> length (sig_s k) \<le> 48" using assms SigEcdsa by (cases k) auto
    then have "get_integer_bytes_size (sig_r k) True \<le> 51" "get_integer_bytes_size (sig_s k) True \<le> 51"
      by (simp_all add: small_integer)
    with SigEcdsa show ?thesis
      by (simp add: size_simps get_structure_size_def get_size_width_def)
  next
    case (SigMldsa k)
    with assms show ?thesis by (simp add: size_simps get_structure_size_def get_size_width_def)
  qed
  ultimately show ?thesis by simp
qed

text \<open>
  The run of a signed payload: if the payload does not fit, the callback is not called; otherwise it
  is called once, on a buffer whose range holds exactly the payload, and what it returns decides.
\<close>

definition outcome_of ::
  "DpeProfile \<Rightarrow> bytes \<Rightarrow> CertWriter \<Rightarrow> (CryptoError, Signature) outcome \<times> 'c \<Rightarrow>
     (DpeErrorCode, nat \<times> Signature) outcome \<times> ('c \<times> CertWriter) \<Rightarrow> bool" where
  "outcome_of p tbs w answer result =
     (case answer of
        (Ok s, c') \<Rightarrow> signature_wf s \<longrightarrow>
          (let cert = signed_der p tbs s
           in if fits w (length cert)
              then \<exists>w'. result = (Ok (length cert, signature_zeroize s), (c', w')) \<and>
                     wrote w cert w' \<and> same_stack w w'
              else \<exists>w'. result = (Err (InternalError CertSizeOverflow), (c', w')))
      | (Err e, c') \<Rightarrow> \<exists>w'. result = (Err (Crypto e), (c', w'))
      | (Panic, c') \<Rightarrow> \<exists>w'. result = (Panic, (c', w'))
      | (Diverge, c') \<Rightarrow> \<exists>w'. result = (Diverge, (c', w')))"

lemma signed_finish:
  fixes p :: DpeProfile
  assumes o: "opened w 0x30 w1" and tbs: "wrote w1 tbs w2" "same_stack w1 w2" and r: "ready 2 w"
    and sz: "256 \<le> length tbs" "length tbs \<le> 60000" and s: "signature_wf s"
  defines "cert \<equiv> signed_der p tbs s"
  defines "finish \<equiv> bind (on_writer (encode_signature_bit_string p s)) (\<lambda>k.
     bind (on_writer (backtrack_and_encode_size [length tbs + k])) (\<lambda>j.
     bind (on_writer check_not_truncated) (\<lambda>_.
     ret (length tbs + k + (1 + j), signature_zeroize s))))"
  shows "if fits w (length cert)
    then \<exists>w'. finish (c, w2) = (Ok (length cert, signature_zeroize s), (c, w')) \<and> wrote w cert w' \<and> same_stack w w'
    else \<exists>w'. finish (c, w2) = (Err (InternalError CertSizeOverflow), (c, w'))"
proof -
  let ?sig = "sig_alg_der p @ signature_bits_der s" and ?body = "tbs @ sig_alg_der p @ signature_bits_der s"
  have width: "256 \<le> length ?body" "length ?body < 65536" using sz signature_width [OF s, of p] by simp_all
  have len: "length cert = 4 + length ?body"
    using width unfolding cert_def signed_der_def by (simp add: der_def get_size_width_def)
  obtain z where z: "length z = 3" "wrote w (0x30 # z) w1" using o by (auto simp: opened_def)
  have saved: "cw_saved_offset w = None" "cw_saved_offset w1 = None"
    using r o by (auto simp: ready_def opened_def)
  have "ready 0 w2" using r o tbs z by (simp add: ready_def opened_def same_stack_def wrote_def)
  with writes_signature(1) [OF s, of 0 p] show ?thesis
  proof (cases rule: writesD)
    case (wrote w3)
    have w13: "wrote w1 ?body w3" by (rule wrote_trans [OF tbs(1) wrote(2)])
    have st: "cw_backtracks w3 = cw_backtracks w1" "cw_saved_offset w3 = None"
      "cw_csr_range w3 = cw_csr_range w"
      using wrote(3) tbs(2) saved o by (simp_all add: same_stack_def opened_def)
    obtain w4 where w4: "backtrack_and_encode_size [length ?body] w3 = (Ok 3, w4)"
      "wrote w (der 0x30 ?body) w4" "cw_backtracks w4 = cw_backtracks w" "cw_saved_offset w4 = None"
      "cw_csr_range w4 = cw_csr_range w3"
      by (rule close_layer [OF o w13 r _ st(1,2) width]) simp
    then have ss: "same_stack w w4" using st saved by (simp add: same_stack_def)
    have cert: "wrote w cert w4" using w4(2) by (simp add: cert_def signed_der_def)
    have "finish (c, w2) = bind (on_writer check_not_truncated)
        (\<lambda>_. ret (length cert, signature_zeroize s)) (c, w4)"
      unfolding finish_def using len w4(1)
      by (simp add: on_writer_bind(1) [where m = "encode_signature_bit_string p s" and w = w2, OF wrote(1)]
          on_writer_bind(1) [where m = "backtrack_and_encode_size n" and w = w3 and x = 3 for n] add.assoc)
    with check_wrote [OF cert] cert ss show ?thesis
      by (auto simp: cert_def signed_der_def on_writer_def bind_def)
  next
    case (full w3)
    have "\<not> fits w (length cert)"
      using full(1) wrote_fits [OF wrote_trans [OF z(2) tbs(1)]] z(1) len by (simp add: add.assoc)
    with full(2) show ?thesis unfolding finish_def by (auto simp: on_writer_bind)
  qed
qed

lemma signed_run:
  assumes enc: "checked 1 enc tbs" and r: "ready 2 w"
    and sz: "256 \<le> length tbs" "length tbs \<le> 60000"
  defines "a \<equiv> cw_offset w + 4"
  obtains (full) w' where "\<not> fits w (4 + length tbs)"
    and "signed_payload p cb enc flag sig (c, w) = (Err (InternalError CertSizeOverflow), (c, w'))"
  | (asked) rd where "fits w (4 + length tbs)" and "rd a (a + length tbs) = Ok tbs"
    and "outcome_of p tbs w (cb rd a (a + length tbs) flag sig c) (signed_payload p cb enc flag sig (c, w))"
proof -
  have "ready (Suc 1) w" using r by (simp add: numeral_2_eq_2)
  then obtain w0 w1 where w1: "encode_tag_field 0x30 w = (Ok 1, w0)"
    "push_backtrack SIZE_TAG_OFFSET w0 = (Ok a, w1)" "opened w 0x30 w1" "ready 1 w1"
    unfolding a_def by (rule open_layer)
  obtain z where z: "length z = 3" "wrote w (0x30 # z) w1" using w1(3) by (auto simp: opened_def)
  have fit: "fits w1 (length tbs) \<longleftrightarrow> fits w (4 + length tbs)" using wrote_fits [OF z(2)] z(1) by simp
  have start: "signed_payload p cb enc flag sig (c, w) = bind (on_writer enc) (\<lambda>n.
     bind (call_sign_cb cb a (a + n) flag sig) (\<lambda>sig.
     bind (on_writer (encode_signature_bit_string p sig)) (\<lambda>k.
     bind (on_writer (backtrack_and_encode_size [n + k])) (\<lambda>j.
     bind (on_writer check_not_truncated) (\<lambda>_.
     ret (n + k + (1 + j), signature_zeroize sig)))))) (c, w1)"
    unfolding signed_payload_def tag_simps
    by (simp only: on_writer_bind(1) [of "encode_tag_field 0x30", OF w1(1)]
        on_writer_bind(1) [of "push_backtrack SIZE_TAG_OFFSET", OF w1(2)])
  show thesis using enc w1(4)
  proof (cases rule: checkedD)
    case (full w2)
    with start fit that(1) show thesis by (simp add: on_writer_bind)
  next
    case (wrote w2)
    define rd where "rd = (\<lambda>a z. offset_read_range slice_read_range (cw_base w2) a z (cw_certificate w2))"
    have "cw_offset w1 = a" using z by (simp add: wrote_def a_def)
    moreover have "length (cw_certificate w1) \<le> USIZE_MAX" using w1(4) by (simp add: ready_def)
    ultimately have "rd a (a + length tbs) = Ok tbs"
      using read_wrote [OF wrote(3,1), of 0 "length tbs"] by (simp add: rd_def)
    note rd = this
    obtain answer c' where ans: "cb rd a (a + length tbs) flag sig c = (answer, c')" by fastforce
    have call: "call_sign_cb cb a (a + length tbs) flag sig (c, w2) = (map_err Crypto answer, (c', w2))"
      using ans by (simp add: call_sign_cb_def rd_def)
    have "outcome_of p tbs w (answer, c') (signed_payload p cb enc flag sig (c, w))"
    proof (cases answer)
      case (Ok s)
      show ?thesis
      proof (cases "signature_wf s")
        case True
        have eq: "signed_payload p cb enc flag sig (c, w) = bind (on_writer (encode_signature_bit_string p s)) (\<lambda>k.
           bind (on_writer (backtrack_and_encode_size [length tbs + k])) (\<lambda>j.
           bind (on_writer check_not_truncated) (\<lambda>_.
           ret (length tbs + k + (1 + j), signature_zeroize s)))) (c', w2)"
          unfolding start using call Ok
          by (simp only: on_writer_bind(1) [where m = enc and w = w1, OF wrote(2)])
            (simp add: bind_def [of "call_sign_cb cb a (a + length tbs) flag sig"])
        show ?thesis
          unfolding Ok outcome_of_def eq prod.case outcome.case Let_def
          by (rule impI, rule signed_finish [OF w1(3) wrote(3,4) r sz True])
      qed (simp add: Ok outcome_of_def)
    qed (use start call wrote(2) in \<open>auto simp: outcome_of_def on_writer_bind bind_def
        [of "call_sign_cb cb a (a + length tbs) flag sig"]\<close>)
    with that(2) fit wrote(1) rd ans show thesis by metis
  qed
qed

section \<open>The certificate\<close>

lemma ready_new: "length buf \<le> USIZE_MAX \<Longrightarrow> d \<le> MAX_BACKTRACKS \<Longrightarrow> ready d (CertWriter_new buf base)"
  by (simp add: ready_def CertWriter_new_def)

lemma fits_new: "fits (CertWriter_new buf base) n \<longleftrightarrow> base + n \<le> length buf"
  by (simp add: fits_def CertWriter_new_def)

lemma wrote_new:
  "wrote (CertWriter_new buf base) bs w' \<Longrightarrow> base + length bs \<le> length buf \<Longrightarrow>
     cw_certificate w' = splice buf base bs"
  by (simp add: wrote_def fits_def CertWriter_new_def)

lemma certificate_run:
  fixes c :: 'c and cb :: "'c sign_cb" and sig :: Signature and base :: nat
  assumes pay: "pub_key_wf pk" "node_path md cs"
    and sz: "256 \<le> length (tbs_body p crit sn issuer name pk md validity cs)"
      "length (tbs_body p crit sn issuer name pk md validity cs) \<le> 59996"
    and buf: "length buf \<le> USIZE_MAX"
  defines "tbs \<equiv> tbs_der p crit sn issuer name pk md validity cs"
  defines "run \<equiv> with_writer base (encode_certificate p crit cb sn issuer name pk md validity sig) (c, buf)"
  obtains (full) buf' where "length buf < base + 4 + length tbs"
    and "run = (Err (InternalError CertSizeOverflow), (c, buf'))"
  | (asked) rd where "base + 4 + length tbs \<le> length buf" and "rd 4 (4 + length tbs) = Ok tbs"
    and "case cb rd 4 (4 + length tbs) False sig c of
        (Ok s, c') \<Rightarrow> signature_wf s \<longrightarrow>
          (let cert = signed_der p tbs s
           in if base + length cert \<le> length buf
              then run = (Ok (length cert, signature_zeroize s), (c', splice buf base cert))
              else fst run = Err (InternalError CertSizeOverflow))
      | (Err e, c') \<Rightarrow> fst run = Err (Crypto e)
      | (Panic, c') \<Rightarrow> fst run = Panic
      | (Diverge, c') \<Rightarrow> fst run = Diverge"
proof -
  let ?w = "CertWriter_new buf base"
  have len: "256 \<le> length tbs" "length tbs \<le> 60000"
    using sz unfolding tbs_def tbs_der_def by (simp_all add: der_def get_size_width_def)
  have enc: "checked 1 (encode_tbs p crit sn issuer name pk md validity) tbs"
    unfolding tbs_def One_nat_def by (rule checked_tbs) (use pay sz in simp_all)
  have r: "ready 2 ?w" using buf by (rule ready_new) (simp add: MAX_BACKTRACKS_def)
  have off: "cw_offset ?w + 4 = 4" by (simp add: CertWriter_new_def)
  have run: "run = (case signed_payload p cb (encode_tbs p crit sn issuer name pk md validity) False sig
      (c, ?w) of (r, (c', w')) \<Rightarrow> (r, (c', cw_certificate w')))"
    by (simp add: run_def with_writer_def encode_certificate_signed)
  show thesis
  proof (rule signed_run [OF enc r len, where p = p and cb = cb and flag = False and sig = sig and c = c,
        unfolded off fits_new])
    fix w' assume "\<not> base + (4 + length tbs) \<le> length buf"
      "signed_payload p cb (encode_tbs p crit sn issuer name pk md validity) False sig (c, ?w) =
        (Err (InternalError CertSizeOverflow), (c, w'))"
    then show thesis by (intro full) (simp_all add: run)
  next
    fix rd assume a: "base + (4 + length tbs) \<le> length buf" "rd 4 (4 + length tbs) = Ok tbs"
      and o: "outcome_of p tbs ?w (cb rd 4 (4 + length tbs) False sig c)
        (signed_payload p cb (encode_tbs p crit sn issuer name pk md validity) False sig (c, ?w))"
    obtain answer c' where ans: "cb rd 4 (4 + length tbs) False sig c = (answer, c')" by fastforce
    show thesis
    proof (rule asked [of rd])
      show "base + 4 + length tbs \<le> length buf" "rd 4 (4 + length tbs) = Ok tbs" using a by simp_all
      show "case cb rd 4 (4 + length tbs) False sig c of
        (Ok s, c') \<Rightarrow> signature_wf s \<longrightarrow>
          (let cert = signed_der p tbs s
           in if base + length cert \<le> length buf
              then run = (Ok (length cert, signature_zeroize s), (c', splice buf base cert))
              else fst run = Err (InternalError CertSizeOverflow))
      | (Err e, c') \<Rightarrow> fst run = Err (Crypto e)
      | (Panic, c') \<Rightarrow> fst run = Panic
      | (Diverge, c') \<Rightarrow> fst run = Diverge"
        using o ans by (cases answer)
          (auto simp: outcome_of_def Let_def fits_new run wrote_new split: if_splits)
    qed
  qed
qed

end
