(* ===== verification/X509_Cms.thy ===== *)
theory X509_Cms
  imports X509_Cert
begin

text \<open>
  CMS messages of dpe/src/x509.rs: a PKCS #10 request wrapped in SignedData, signed once inside the
  request by the derived key and once outside by the alias key. The layers nest eight deep, within
  the ten entries of the backtrack stack.
\<close>

section \<open>The structures\<close>

definition encap_der :: "bytes \<Rightarrow> bytes" where
  "encap_der csr = der 0x30 (oid_der ID_DATA_OID @ der 0xA0 (der 0x04 csr))"

definition signed_data_der :: "DpeProfile \<Rightarrow> SignerIdentifier \<Rightarrow> bytes \<Rightarrow> Signature \<Rightarrow> bytes" where
  "signed_data_der p sid csr s = der 0x30
     (cms_version_der sid @ der 0x31 (hash_alg_der p) @ encap_der csr @ der 0x31 (signer_info_der p s sid))"

definition cms_der :: "DpeProfile \<Rightarrow> SignerIdentifier \<Rightarrow> bytes \<Rightarrow> Signature \<Rightarrow> bytes" where
  "cms_der p sid csr s = der 0x30 (oid_der ID_SIGNED_DATA_OID @ der 0xA0 (signed_data_der p sid csr s))"

section \<open>Runs that ask for one signature\<close>

definition run_outcome ::
  "(Signature \<Rightarrow> bytes) \<Rightarrow> (Signature \<Rightarrow> CertWriter \<Rightarrow> bool) \<Rightarrow> CertWriter \<Rightarrow>
     (CryptoError, Signature) outcome \<times> 'c \<Rightarrow>
     (DpeErrorCode, nat \<times> Signature) outcome \<times> ('c \<times> CertWriter) \<Rightarrow> bool" where
  "run_outcome out post w answer result =
     (case answer of
        (Ok s, c') \<Rightarrow> signature_wf s \<longrightarrow>
          (if fits w (length (out s))
           then \<exists>w'. result = (Ok (length (out s), signature_zeroize s), (c', w')) \<and>
                  wrote w (out s) w' \<and> post s w'
           else \<exists>w'. result = (Err (InternalError CertSizeOverflow), (c', w')))
      | (Err e, c') \<Rightarrow> \<exists>w'. result = (Err (Crypto e), (c', w'))
      | (Panic, c') \<Rightarrow> \<exists>w'. result = (Panic, (c', w'))
      | (Diverge, c') \<Rightarrow> \<exists>w'. result = (Diverge, (c', w')))"

lemma outcome_of_eq: "outcome_of p tbs w = run_outcome (signed_der p tbs) (\<lambda>s w'. same_stack w w') w"
  by (intro ext) (simp only: outcome_of_def run_outcome_def Let_def)

lemma run_outcome_bind:
  assumes m: "run_outcome out post w1 answer (m cw)"
    and fit: "\<And>s. signature_wf s \<Longrightarrow> fits w1 (length (out s)) = fits w (length (out' s))"
    and k: "\<And>s c' w1'. signature_wf s \<Longrightarrow> wrote w1 (out s) w1' \<Longrightarrow> post s w1' \<Longrightarrow>
      fits w (length (out' s)) \<Longrightarrow>
      \<exists>w'. k (length (out s), signature_zeroize s) (c', w1') =
        (Ok (length (out' s), signature_zeroize s), (c', w')) \<and> wrote w (out' s) w' \<and> post' s w'"
  shows "run_outcome out' post' w answer (bind m k cw)"
proof -
  obtain r c' where a: "answer = (r, c')" by fastforce
  show ?thesis
  proof (cases r)
    case (Ok s)
    show ?thesis
    proof (cases "signature_wf s \<and> fits w (length (out' s))")
      case True
      with m Ok a fit obtain w1' where "m cw = (Ok (length (out s), signature_zeroize s), (c', w1'))"
        "wrote w1 (out s) w1'" "post s w1'" by (auto simp: run_outcome_def)
      with k [of s w1' c'] True show ?thesis
        by (auto simp: run_outcome_def a Ok bind_def)
    next
      case False
      with m Ok a fit show ?thesis by (auto simp: run_outcome_def bind_def)
    qed
  qed (use m a in \<open>auto simp: run_outcome_def bind_def\<close>)
qed

text \<open>Closing a layer keeps the rest of the writer.\<close>

definition closed_to :: "CertWriter \<Rightarrow> (nat \<times> nat) option \<Rightarrow> CertWriter \<Rightarrow> bool" where
  "closed_to w rng w' \<longleftrightarrow>
     cw_backtracks w' = cw_backtracks w \<and> cw_saved_offset w' = None \<and> cw_csr_range w' = rng"

lemma close_layer':
  assumes "opened w t w1" "wrote w1 body w2" "closed_to w1 rng w2" "ready (Suc d) w"
    "256 \<le> length body" "length body < 65536"
  obtains w3 where "backtrack_and_encode_size [length body] w2 = (Ok 3, w3)"
    and "wrote w (der t body) w3" and "closed_to w rng w3"
proof (rule close_layer [OF assms(1,2,4)])
  fix w3 assume "backtrack_and_encode_size [length body] w2 = (Ok 3, w3)" "wrote w (der t body) w3"
    "cw_backtracks w3 = cw_backtracks w" "cw_saved_offset w3 = None" "cw_csr_range w3 = cw_csr_range w2"
  then show thesis using assms(3) by (intro that [of w3]) (simp_all add: closed_to_def)
qed (use assms in \<open>simp_all add: closed_to_def\<close>)

lemma opened_wrote:
  assumes "opened w t w1"
  obtains z where "length z = 3" "wrote w (t # z) w1"
  using assms by (auto simp: opened_def)

lemma opened_fits:
  assumes "opened w t w1"
  shows "fits w1 n = fits w (4 + n)"
proof -
  obtain z where z: "length z = 3" "wrote w (t # z) w1" by (rule opened_wrote [OF assms])
  show ?thesis using wrote_fits [OF z(2), of n] z(1) by simp
qed

lemma opened_offset: "opened w t w1 \<Longrightarrow> cw_offset w1 = cw_offset w + 4"
  by (auto simp: opened_def wrote_def)

lemma length_oid [simp]: "length (oid_der ID_DATA_OID) = 11" "length (oid_der ID_SIGNED_DATA_OID) = 11"
  by (simp_all add: size_simps get_structure_size_def get_size_width_def)

lemma length_wide: "256 \<le> length c \<Longrightarrow> length c < 65536 \<Longrightarrow> length (der t c) = 4 + length c"
  by (simp add: der_def get_size_width_def)

section \<open>EncapsulatedContentInfo\<close>

lemma encap_length:
  "256 \<le> length csr \<Longrightarrow> length csr \<le> 65000 \<Longrightarrow> length (encap_der csr) = 23 + length csr"
  by (simp add: encap_der_def length_wide)

lemma encapsulate_close:
  assumes o1: "opened w 0x30 w1" and oid: "wrote w1 (oid_der ID_DATA_OID) w2" "same_stack w1 w2"
    and o2: "opened w2 0xA0 w3" and o3: "opened w3 0x04 w4"
    and csr: "wrote w4 csr w5" "same_stack w4 w5"
    and r: "ready 3 w" "ready 2 w2" "ready 1 w3"
    and sz: "256 \<le> length csr" "length csr \<le> 65000"
  obtains w8 where
    "bind (on_writer (modify (\<lambda>w. w\<lparr>cw_csr_range := rng\<rparr>))) (\<lambda>_.
     let econtent_1_size = get_econtent_size (length csr) False False;
         econtent_0_size = get_econtent_size (length csr) True False in
     bind (on_writer (backtrack_and_encode_size [econtent_1_size, econtent_0_size])) (\<lambda>k.
     let bytes_written = 11 + 1 + 1 + k in
     bind (on_writer (backtrack_and_encode_size [bytes_written + length csr])) (\<lambda>j.
     ret (bytes_written + length csr + (1 + j), sg)))) (c, w5) =
       (Ok (length (encap_der csr), sg), (c, w8))"
    and "wrote w (encap_der csr) w8" and "closed_to w rng w8"
proof -
  let ?w5 = "w5\<lparr>cw_csr_range := rng\<rparr>"
  let ?a = "der 0x04 csr" let ?b = "oid_der ID_DATA_OID @ der 0xA0 ?a"
  have l1: "length ?a = 4 + length csr" using sz by (simp add: length_wide)
  have l2: "length (der 0xA0 ?a) = 8 + length csr" using sz l1 length_wide [of ?a] by simp
  have saved: "cw_saved_offset w4 = None"
    using o1 oid(2) o2 o3 r(1) by (auto simp: opened_def same_stack_def ready_def)
  have 5: "wrote w4 csr ?w5" "closed_to w4 rng ?w5"
    using csr saved by (simp_all add: wrote_def closed_to_def same_stack_def)
  obtain w6 where w6: "backtrack_and_encode_size [length csr] ?w5 = (Ok 3, w6)"
    "wrote w3 ?a w6" "closed_to w3 rng w6"
    using close_layer' [OF o3 5, of 0] r(3) sz by auto
  obtain w7 where w7: "backtrack_and_encode_size [length ?a] w6 = (Ok 3, w7)"
    "wrote w2 (der 0xA0 ?a) w7" "closed_to w2 rng w7"
  proof (rule close_layer' [of w2 "0xA0" w3 ?a w6 rng 1])
    show "opened w2 0xA0 w3" "wrote w3 ?a w6" by (rule o2, rule w6(2))
    show "closed_to w3 rng w6" by (rule w6(3))
  qed (use r sz l1 that in \<open>simp_all add: numeral_2_eq_2\<close>)
  have 7: "wrote w1 ?b w7" "closed_to w1 rng w7"
    using wrote_trans [OF oid(1) w7(2)] w7(3) oid(2) by (simp_all add: closed_to_def same_stack_def)
  obtain w8 where w8: "backtrack_and_encode_size [length ?b] w7 = (Ok 3, w8)"
    "wrote w (der 0x30 ?b) w8" "closed_to w rng w8"
    using close_layer' [OF o1 7, of 2] r(1) sz l2 by (auto simp: numeral_3_eq_3 numeral_2_eq_2)
  have e: "get_econtent_size (length csr) False False = length csr"
    "get_econtent_size (length csr) True False = length ?a"
    by (simp_all add: get_econtent_size_def size_simps)
  have two: "backtrack_and_encode_size [length csr, length ?a] ?w5 = (Ok 6, w7)"
    using backtrack_Cons [OF w6(1) w7(1)] by simp
  have "length (encap_der csr) = 23 + length csr" using sz by (rule encap_length)
  with w8 two l2 show thesis
    by (intro that [of w8])
      (simp_all add: encap_der_def Let_def e on_writer_def bind_def numeral_eq_Suc)
qed

lemma signed_der_length:
  assumes "signature_wf s" "256 \<le> length tbs" "length tbs \<le> 60000"
  shows "256 \<le> length (signed_der p tbs s)" "length (signed_der p tbs s) \<le> 65000"
  using assms signature_width [OF assms(1), of p]
  by (simp_all add: signed_der_def length_wide)

lemma encode_oid_run:
  assumes "ready d w"
  obtains w' where "encode_oid oid w = (Ok (length (oid_der oid)), w')"
    and "wrote w (oid_der oid) w'" and "same_stack w w'"
proof -
  have "fst (encode_oid oid w) \<noteq> Err e" for e
  proof -
    obtain w1 where 1: "encode_byte OID_TAG w = (Ok 1, w1)" by (metis prod.collapse encode_bytes_Ok(1))
    obtain w2 where 2: "encode_size_field (length oid) w1 = (Ok (get_size_width (length oid)), w2)"
      by (metis prod.collapse encode_size_field_Ok)
    obtain w3 where "encode_bytes oid w2 = (Ok (length oid), w3)" by (simp add: encode_bytes_def split_beta)
    with 1 2 show ?thesis by (simp add: encode_oid_def encode_tlv_def encode_tag_field_def bind_def)
  qed
  with writes_oid assms that show thesis by (metis fst_conv writesD)
qed

lemma encaps_run:
  fixes c :: 'c and cb :: "'c sign_cb" and sig :: Signature
  assumes enc: "checked 1 (encode_certification_request_info p crit pk name md) cri"
    and r: "ready 5 w" and sz: "256 \<le> length cri" "length cri \<le> 60000"
  defines "run \<equiv> encode_encapsulated_content_info p crit cb pk name md sig (c, w)"
    and "csr \<equiv> signed_der p cri"
  obtains (full) w' where "\<not> fits w (27 + length cri)"
    and "run = (Err (InternalError CertSizeOverflow), (c, w'))"
  | (asked) rd a where "fits w (27 + length cri)" and "rd a (a + length cri) = Ok cri"
    and "run_outcome (\<lambda>s. encap_der (csr s))
      (\<lambda>s. closed_to w (Some (cw_offset w + 23, cw_offset w + 23 + length (csr s)))) w
      (cb rd a (a + length cri) True sig c) run"
proof -
  have "ready (Suc 4) w" using r by simp
  then obtain w0 w1 where w1: "encode_tag_field 0x30 w = (Ok 1, w0)"
    "push_backtrack SIZE_TAG_OFFSET w0 = (Ok (cw_offset w + 4), w1)" "opened w 0x30 w1" "ready 4 w1"
    by (rule open_layer)
  obtain w2 where w2: "encode_oid ID_DATA_OID w1 = (Ok 11, w2)" "wrote w1 (oid_der ID_DATA_OID) w2"
    "same_stack w1 w2" using encode_oid_run [OF w1(4), of ID_DATA_OID] by auto
  have "ready (Suc 3) w2" using w1(4) ready_wrote [OF w2(2,3)] by simp
  note r2 = this
  then obtain w2' w3 where w3: "encode_tag_field 0xA0 w2 = (Ok 1, w2')"
    "push_backtrack SIZE_TAG_OFFSET w2' = (Ok (cw_offset w2 + 4), w3)" "opened w2 0xA0 w3" "ready 3 w3"
    by (rule open_layer)
  have "ready (Suc 2) w3" using w3(4) by simp
  then obtain w3' w4 where w4: "encode_tag_field 0x04 w3 = (Ok 1, w3')"
    "push_backtrack SIZE_TAG_OFFSET w3' = (Ok (cw_offset w3 + 4), w4)" "opened w3 0x04 w4" "ready 2 w4"
    by (rule open_layer)
  have off: "cw_offset w3 + 4 = cw_offset w + 23"
    using opened_offset [OF w1(3)] w2(2) opened_offset [OF w3(3)] by (simp add: wrote_def)
  have fit: "fits w4 n = fits w (23 + n)" for n
    using opened_fits [OF w4(3), of n] opened_fits [OF w3(3), of "4 + n"] wrote_fits [OF w2(2), of "8 + n"]
      opened_fits [OF w1(3), of "19 + n"] by simp
  let ?k = "\<lambda>(csr_bytes, sg :: Signature).
     bind (on_writer (modify (\<lambda>v. v\<lparr>cw_csr_range := Some (cw_offset w + 23, cw_offset w + 23 + csr_bytes)\<rparr>))) (\<lambda>_.
     let econtent_1_size = get_econtent_size csr_bytes False False;
         econtent_0_size = get_econtent_size csr_bytes True False in
     bind (on_writer (backtrack_and_encode_size [econtent_1_size, econtent_0_size])) (\<lambda>k.
     let bytes_written = 11 + 1 + 1 + k in
     bind (on_writer (backtrack_and_encode_size [bytes_written + csr_bytes])) (\<lambda>j.
     ret (bytes_written + csr_bytes + (1 + j), sg))))"
  have run: "run = bind (encode_csr p crit cb pk name md sig) ?k (c, w4)"
    unfolding run_def encode_encapsulated_content_info_def tag_simps
    by (simp only: encode_tag_field_def [symmetric] off
        on_writer_bind(1) [where m = "encode_tag_field 0x30" and w = w, OF w1(1)]
        on_writer_bind(1) [where m = "push_backtrack SIZE_TAG_OFFSET" and w = w0, OF w1(2)]
        on_writer_bind(1) [where m = "encode_oid ID_DATA_OID" and w = w1, OF w2(1)]
        on_writer_bind(1) [where m = "encode_tag_field 0xA0" and w = w2, OF w3(1)]
        on_writer_bind(1) [where m = "push_backtrack SIZE_TAG_OFFSET" and w = w2', OF w3(2)]
        on_writer_bind(1) [where m = "encode_tag_field 0x04" and w = w3, OF w4(1)]
        on_writer_bind(1) [where m = "push_backtrack SIZE_TAG_OFFSET" and w = w3', OF w4(2)])
  show thesis
  proof (rule signed_run [OF enc w4(4) sz, where p = p and cb = cb and flag = True and sig = sig and c = c])
    fix w' assume "\<not> fits w4 (4 + length cri)"
      "signed_payload p cb (encode_certification_request_info p crit pk name md) True sig (c, w4) =
        (Err (InternalError CertSizeOverflow), (c, w'))"
    then show thesis
      using fit [of "4 + length cri"] by (intro full [of w']) (simp_all add: run encode_csr_signed bind_def)
  next
    fix rd assume a: "fits w4 (4 + length cri)"
      "rd (cw_offset w4 + 4) (cw_offset w4 + 4 + length cri) = Ok cri"
      and o: "outcome_of p cri w4 (cb rd (cw_offset w4 + 4) (cw_offset w4 + 4 + length cri) True sig c)
        (signed_payload p cb (encode_certification_request_info p crit pk name md) True sig (c, w4))"
    show thesis
    proof (rule asked [of rd "cw_offset w4 + 4"])
      show "fits w (27 + length cri)" using a(1) fit [of "4 + length cri"] by simp
      show "rd (cw_offset w4 + 4) (cw_offset w4 + 4 + length cri) = Ok cri" by (rule a(2))
      show "run_outcome (\<lambda>s. encap_der (csr s))
        (\<lambda>s. closed_to w (Some (cw_offset w + 23, cw_offset w + 23 + length (csr s)))) w
        (cb rd (cw_offset w4 + 4) (cw_offset w4 + 4 + length cri) True sig c) run"
        unfolding run
      proof (rule run_outcome_bind)
        show "run_outcome csr (\<lambda>s. same_stack w4) w4
          (cb rd (cw_offset w4 + 4) (cw_offset w4 + 4 + length cri) True sig c)
          (encode_csr p crit cb pk name md sig (c, w4))"
          using o by (simp add: csr_def outcome_of_eq encode_csr_signed)
      next
        fix s assume "signature_wf s"
        then show "fits w4 (length (csr s)) = fits w (length (encap_der (csr s)))"
          using signed_der_length [OF _ sz, of s p] fit by (simp add: csr_def encap_length)
      next
        fix s c' w5 assume s: "signature_wf s" and csr: "wrote w4 (csr s) w5" "same_stack w4 w5"
        have len: "256 \<le> length (csr s)" "length (csr s) \<le> 65000"
          unfolding csr_def by (rule signed_der_length [OF s sz])+
        have rs: "ready 3 w" "ready 2 w2" "ready 1 w3"
          using ready_less [OF r, of 3] ready_less [OF r2, of 2] ready_less [OF w3(4), of 1] by simp_all
        show "\<exists>w'. ?k (length (csr s), signature_zeroize s) (c', w5) =
          (Ok (length (encap_der (csr s)), signature_zeroize s), (c', w')) \<and> wrote w (encap_der (csr s)) w' \<and>
          closed_to w (Some (cw_offset w + 23, cw_offset w + 23 + length (csr s))) w'"
          unfolding split_conv
          by (rule encapsulate_close [OF w1(3) w2(2,3) w3(3) w4(3) csr rs len,
                where rng = "Some (cw_offset w + 23, cw_offset w + 23 + length (csr s))"
                  and sg = "signature_zeroize s" and c = c']) blast
      qed
    qed
  qed
qed

section \<open>The whole message\<close>

definition cms_head :: "DpeProfile \<Rightarrow> SignerIdentifier \<Rightarrow> bytes" where
  "cms_head p sid = cms_version_der sid @ der 0x31 (hash_alg_der p)"

definition cms_body :: "DpeProfile \<Rightarrow> SignerIdentifier \<Rightarrow> bytes \<Rightarrow> Signature \<Rightarrow> bytes" where
  "cms_body p sid csr s = cms_head p sid @ encap_der csr @ der 0x31 (signer_info_der p s sid)"

lemma cms_der_body:
  "cms_der p sid csr s = der 0x30 (oid_der ID_SIGNED_DATA_OID @ der 0xA0 (der 0x30 (cms_body p sid csr s)))"
  by (simp add: cms_der_def signed_data_der_def cms_body_def cms_head_def)

lemma writes_cms_head:
  "writes d (encode_all [encode_cms_version sid, encode_tag_field 0x31,
     encode_size_field (get_hash_alg_id_size p True), encode_hash_alg_id p]) (cms_head p sid)"
  unfolding cms_head_def
  by (rule writes_element writes_single writes_all_Cons writes_intros | (simp add: size_simps; fail))+

lemma writes_signer_infos:
  "writes d (encode_all [encode_tag_field 0x31, encode_size_field (get_signer_info_size p sig sid True),
     encode_signer_info p sig sid]) (der 0x31 (signer_info_der p sig sid))"
  by (rule writes_element writes_single writes_intros | (simp add: size_simps; fail))+

lemma encap_csr:
  assumes "256 \<le> length csr" "length csr \<le> 65000"
  shows "take (length csr) (drop 23 (encap_der csr)) = csr"
proof -
  have l: "length (der 0x04 csr) = 4 + length csr" "length (der 0xA0 (der 0x04 csr)) = 8 + length csr"
    using assms by (simp_all add: length_wide)
  have "drop 23 (encap_der csr) = drop 8 (der 0xA0 (der 0x04 csr))"
    using l assms by (simp add: encap_der_def der_def [of "0x30"] get_size_width_def)
  also have "\<dots> = drop 4 (der 0x04 csr)"
    using l assms by (simp add: der_def [of "0xA0"] get_size_width_def)
  also have "\<dots> = csr" using assms by (simp add: der_def get_size_width_def)
  finally show ?thesis by simp
qed

text \<open>Three layers closed with one pass over the backtrack stack.\<close>

lemma close_three:
  assumes o1: "opened w 0x30 w1" and oid: "wrote w1 (oid_der ID_SIGNED_DATA_OID) w2" "same_stack w1 w2"
    and o2: "opened w2 0xA0 w3" and o3: "opened w3 0x30 w4"
    and body: "wrote w4 body w5" "closed_to w4 rng w5"
    and r: "ready 3 w" "ready 2 w2" "ready 1 w3"
    and sz: "256 \<le> length body" "length body \<le> 65500"
  obtains w8 where
    "backtrack_and_encode_size [length body, 4 + length body, 19 + length body] w5 = (Ok 9, w8)"
    and "wrote w (der 0x30 (oid_der ID_SIGNED_DATA_OID @ der 0xA0 (der 0x30 body))) w8"
    and "closed_to w rng w8"
proof -
  let ?a = "der 0x30 body" let ?b = "oid_der ID_SIGNED_DATA_OID @ der 0xA0 ?a"
  have l1: "length ?a = 4 + length body" using sz by (simp add: length_wide)
  have l2: "length ?b = 19 + length body" using sz l1 by (simp add: length_wide)
  obtain w6 where w6: "backtrack_and_encode_size [length body] w5 = (Ok 3, w6)"
    "wrote w3 ?a w6" "closed_to w3 rng w6"
    using close_layer' [OF o3 body, of 0] r(3) sz by auto
  obtain w7 where w7: "backtrack_and_encode_size [length ?a] w6 = (Ok 3, w7)"
    "wrote w2 (der 0xA0 ?a) w7" "closed_to w2 rng w7"
  proof (rule close_layer' [of w2 "0xA0" w3 ?a w6 rng 1])
    show "opened w2 0xA0 w3" "wrote w3 ?a w6" by (rule o2, rule w6(2))
    show "closed_to w3 rng w6" by (rule w6(3))
  qed (use r sz l1 that in \<open>simp_all add: numeral_2_eq_2\<close>)
  have 7: "wrote w1 ?b w7" "closed_to w1 rng w7"
    using wrote_trans [OF oid(1) w7(2)] w7(3) oid(2) by (simp_all add: closed_to_def same_stack_def)
  obtain w8 where w8: "backtrack_and_encode_size [length ?b] w7 = (Ok 3, w8)"
    "wrote w (der 0x30 ?b) w8" "closed_to w rng w8"
    using close_layer' [OF o1 7, of 2] r(1) sz l2 by (auto simp: numeral_3_eq_3 numeral_2_eq_2)
  have "backtrack_and_encode_size [length ?a, length ?b] w6 = (Ok 6, w8)"
    using backtrack_Cons [OF w7(1) w8(1)] by simp
  from backtrack_Cons [OF w6(1) this] w8 l1 l2 show thesis by (intro that [of w8]) simp_all
qed

text \<open>What \<open>encode_cms\<close> does once the request is encapsulated.\<close>

definition cms_tail ::
  "DpeProfile \<Rightarrow> 'c sign_cb \<Rightarrow> SignerIdentifier \<Rightarrow> nat \<Rightarrow> nat \<times> Signature \<Rightarrow>
     ('c \<times> CertWriter, DpeErrorCode, nat \<times> Signature) act" where
  "cms_tail p cb sid n1 = (\<lambda>(n2, sig).
     bind (on_writer (gets cw_csr_range)) (\<lambda>csr_range.
     bind (lift (ok_or csr_range X509CsrUnset)) (\<lambda>(csr_start, csr_end).
     bind (call_sign_cb cb csr_start csr_end False sig) (\<lambda>sig.
     bind (on_writer (encode_all
         [encode_tag_field 0x31, encode_size_field (get_signer_info_size p sig sid True),
          encode_signer_info p sig sid])) (\<lambda>n3.
     bind (on_writer (backtrack_and_encode_size
         [n1 + n2 + n3, 4 + (n1 + n2 + n3), 15 + (4 + (n1 + n2 + n3))])) (\<lambda>_.
     bind (on_writer (gets cw_backtracks)) (\<lambda>backtracks.
     bind (guard_err (backtracks \<noteq> []) X509InvalidState) (\<lambda>_.
     bind (on_writer check_not_truncated) (\<lambda>_.
     ret (4 + (15 + (4 + (n1 + n2 + n3))), signature_zeroize sig))))))))))"

lemma length_der_le: "length (der t c) \<le> 6 + length c"
  by (simp add: der_def get_size_width_def)

lemma length_hash_alg: "length (hash_alg_der p) = 13"
  by (simp add: hash_alg_der_def oid_der_def length_der get_structure_size_def get_size_width_def)

lemma length_cms_version_le: "length (cms_version_der sid) \<le> 20"
proof -
  have "length (der 0x02 (int_content (u64_to_be_bytes n))) \<le> 20" for n
    using length_der_le [of "0x02" "int_content (u64_to_be_bytes n)"]
      length_int_content [of "u64_to_be_bytes n"] by simp
  then show ?thesis by (cases sid) (simp_all add: cms_version_der_def der_integer_def)
qed

lemma signer_infos_width:
  assumes "signature_wf s" "length (signer_identifier_der sid) \<le> 1000"
  shows "length (der 0x31 (signer_info_der p s sid)) \<le> 6000"
proof -
  have "length (signature_octets_der s) \<le> length (signature_bits_der s)"
    by (cases s) (simp_all add: length_der get_structure_size_def get_size_width_def)
  moreover note length_cms_version_le [of sid]
  ultimately show ?thesis
    using signature_width [OF assms(1), of p] assms(2) length_hash_alg [of p]
      length_der_le [of "0x30" "cms_version_der sid @ signer_identifier_der sid @ hash_alg_der p @
        sig_alg_der p @ signature_octets_der s"]
      length_der_le [of "0x31" "signer_info_der p s sid"]
    by (simp add: signer_info_der_def)
qed

lemma cms_body_width:
  assumes "signature_wf s" "length (signer_identifier_der sid) \<le> 1000"
    and "256 \<le> length csr" "length csr \<le> 59000"
  shows "256 \<le> length (cms_body p sid csr s)" "length (cms_body p sid csr s) \<le> 65500"
    and "length (cms_der p sid csr s) = 23 + length (cms_body p sid csr s)"
proof -
  note length_cms_version_le [of sid]
  then have "length (cms_head p sid) \<le> 40"
    using length_der_le [of "0x31" "hash_alg_der p"] by (simp add: cms_head_def length_hash_alg)
  with encap_length [of csr] signer_infos_width [OF assms(1,2), of p] assms
  show w: "256 \<le> length (cms_body p sid csr s)" "length (cms_body p sid csr s) \<le> 65500"
    by (simp_all add: cms_body_def)
  then show "length (cms_der p sid csr s) = 23 + length (cms_body p sid csr s)"
    by (simp add: cms_der_body length_wide)
qed

lemma cms_finish:
  fixes p :: DpeProfile
  assumes o1: "opened w 0x30 w1" and oid: "wrote w1 (oid_der ID_SIGNED_DATA_OID) w2" "same_stack w1 w2"
    and o2: "opened w2 0xA0 w3" and o3: "opened w3 0x30 w4"
    and front: "wrote w4 (cms_head p sid @ encap_der csr) w6" "closed_to w4 rng w6"
    and r: "ready 3 w" "ready 2 w2" "ready 1 w3" and empty: "cw_backtracks w = []"
    and s: "signature_wf s" and sz: "length (signer_identifier_der sid) \<le> 1000"
      "256 \<le> length csr" "length csr \<le> 59000"
  defines "n \<equiv> length (cms_head p sid @ encap_der csr)"
  defines "finish \<equiv> bind (on_writer (encode_all
         [encode_tag_field 0x31, encode_size_field (get_signer_info_size p s sid True),
          encode_signer_info p s sid])) (\<lambda>n3.
     bind (on_writer (backtrack_and_encode_size [n + n3, 4 + (n + n3), 15 + (4 + (n + n3))])) (\<lambda>_.
     bind (on_writer (gets cw_backtracks)) (\<lambda>backtracks.
     bind (guard_err (backtracks \<noteq> []) X509InvalidState) (\<lambda>_.
     bind (on_writer check_not_truncated) (\<lambda>_.
     ret (4 + (15 + (4 + (n + n3))), signature_zeroize s))))))"
  shows "if fits w (length (cms_der p sid csr s))
    then \<exists>w'. finish (c, w6) = (Ok (length (cms_der p sid csr s), signature_zeroize s), (c, w')) \<and>
      wrote w (cms_der p sid csr s) w'
    else \<exists>w'. finish (c, w6) = (Err (InternalError CertSizeOverflow), (c, w'))"
proof -
  let ?infos = "der 0x31 (signer_info_der p s sid)" and ?body = "cms_body p sid csr s"
  note width = cms_body_width [OF s sz]
  have fit: "fits w4 k = fits w (23 + k)" for k
    using opened_fits [OF o3, of k] opened_fits [OF o2, of "4 + k"] wrote_fits [OF oid(1), of "8 + k"]
      opened_fits [OF o1, of "19 + k"] by simp
  have body: "?body = (cms_head p sid @ encap_der csr) @ ?infos" by (simp add: cms_body_def)
  have nb: "n + length ?infos = length ?body" by (simp add: body n_def)
  have "ready 0 w6"
  proof -
    have "length (cw_backtracks w4) \<le> MAX_BACKTRACKS" "length (cw_certificate w4) \<le> USIZE_MAX"
      using r(3) o3 by (auto simp: opened_def ready_def wrote_def)
    with front show ?thesis by (simp add: ready_def closed_to_def wrote_def)
  qed
  with writes_signer_infos [of 0 p s sid] show ?thesis
  proof (cases rule: writesD)
    case (wrote w7)
    have "wrote w4 ?body w7" using wrote_trans [OF front(1) wrote(2)] by (simp add: body)
    moreover have "closed_to w4 rng w7" using front(2) wrote(3) by (simp add: closed_to_def same_stack_def)
    ultimately obtain w8 where w8: "backtrack_and_encode_size
        [length ?body, 4 + length ?body, 19 + length ?body] w7 = (Ok 9, w8)"
      "wrote w (cms_der p sid csr s) w8" "closed_to w rng w8"
      unfolding cms_der_body by (rule close_three [OF o1 oid o2 o3 _ _ r width(1,2)])
    have "finish (c, w6) = bind (on_writer check_not_truncated)
        (\<lambda>_. ret (length (cms_der p sid csr s), signature_zeroize s)) (c, w8)"
      unfolding finish_def width(3)
      using w8(1,3) empty nb
      by (simp only: on_writer_bind(1) [where m = "encode_all ms" and w = w6 for ms, OF wrote(1)])
        (simp add: on_writer_bind(1) [where m = "backtrack_and_encode_size n" and w = w7 and x = 9 for n]
          on_writer_bind(1) [where m = "gets f" and w = w8 for f] closed_to_def
          on_writer_def [of "gets f" for f] guard_err_def)
    with check_wrote [OF w8(2)] w8(2) show ?thesis
      by (auto simp: cms_der_body on_writer_def bind_def)
  next
    case (full w7)
    have "\<not> fits w (length (cms_der p sid csr s))"
      using full(1) wrote_fits [OF front(1), of "length ?infos"] fit [of "length ?body"] width(3)
      by (simp add: body add.assoc)
    with full(2) show ?thesis unfolding finish_def by (auto simp: on_writer_bind)
  qed
qed

text \<open>
  The run of \<open>encode_cms\<close>: the derived key is asked to sign the request info, then the alias key the
  finished request, and the two signatures are in the message.
\<close>

definition cms_outcome ::
  "DpeProfile \<Rightarrow> SignerIdentifier \<Rightarrow> bytes \<Rightarrow> 'c sign_cb \<Rightarrow> CertWriter \<Rightarrow>
     (CryptoError, Signature) outcome \<times> 'c \<Rightarrow>
     (DpeErrorCode, nat \<times> Signature) outcome \<times> ('c \<times> CertWriter) \<Rightarrow> bool" where
  "cms_outcome p sid cri cb w answer result =
     (case answer of
        (Ok s, c') \<Rightarrow> signature_wf s \<longrightarrow>
          (let csr = signed_der p cri s
           in if fits w (length (cms_head p sid) + 46 + length csr)
              then \<exists>rd a. rd a (a + length csr) = Ok csr \<and>
                run_outcome (cms_der p sid csr) (\<lambda>_ _. True) w
                  (cb rd a (a + length csr) False (signature_zeroize s) c') result
              else \<exists>w'. result = (Err (InternalError CertSizeOverflow), (c', w')))
      | (Err e, c') \<Rightarrow> \<exists>w'. result = (Err (Crypto e), (c', w'))
      | (Panic, c') \<Rightarrow> \<exists>w'. result = (Panic, (c', w'))
      | (Diverge, c') \<Rightarrow> \<exists>w'. result = (Diverge, (c', w')))"

lemma cms_tail_run:
  fixes c :: 'c and cb :: "'c sign_cb"
  assumes o1: "opened w 0x30 w1" and oid: "wrote w1 (oid_der ID_SIGNED_DATA_OID) w2" "same_stack w1 w2"
    and o2: "opened w2 0xA0 w3" and o3: "opened w3 0x30 w4"
    and head: "wrote w4 (cms_head p sid) w5" "same_stack w4 w5"
    and enc: "wrote w5 (encap_der csr) w6" "fits w5 (length (encap_der csr))"
      "closed_to w5 (Some (cw_offset w5 + 23, cw_offset w5 + 23 + length csr)) w6"
    and r: "ready 3 w" "ready 2 w2" "ready 1 w3" and empty: "cw_backtracks w = []"
    and sz: "length (signer_identifier_der sid) \<le> 1000" "256 \<le> length csr" "length csr \<le> 59000"
  obtains rd a where "rd a (a + length csr) = Ok csr"
    and "run_outcome (cms_der p sid csr) (\<lambda>_ _. True) w (cb rd a (a + length csr) False sg c)
      (cms_tail p cb sid (length (cms_head p sid)) (length (encap_der csr), sg) (c, w6))"
proof -
  let ?rng = "Some (cw_offset w5 + 23, cw_offset w5 + 23 + length csr)" and ?a = "cw_offset w5 + 23"
  define rd where "rd = (\<lambda>a z. offset_read_range slice_read_range (cw_base w6) a z (cw_certificate w6))"
  have front: "wrote w4 (cms_head p sid @ encap_der csr) w6" "closed_to w4 ?rng w6"
    using wrote_trans [OF head(1) enc(1)] enc(3) head(2) by (simp_all add: closed_to_def same_stack_def)
  have "length (cw_certificate w5) \<le> USIZE_MAX"
    using r(3) o3 head(1) by (auto simp: opened_def ready_def wrote_def)
  then have "rd ?a (?a + length csr) = Ok csr"
    using read_wrote [OF enc(1,2), of 23 "length csr"] sz encap_length [of csr] encap_csr [of csr]
    by (simp add: rd_def add.assoc)
  moreover obtain answer c' where ans: "cb rd ?a (?a + length csr) False sg c = (answer, c')" by fastforce
  have range6: "cw_csr_range w6 = ?rng" using enc(3) by (simp add: closed_to_def)
  have call: "call_sign_cb cb ?a (?a + length csr) False sg (c, w6) = (map_err Crypto answer, (c', w6))"
    using ans by (simp add: call_sign_cb_def rd_def)
  let ?n = "length (cms_head p sid @ encap_der csr)"
  let ?k = "\<lambda>sig. bind (on_writer (encode_all
         [encode_tag_field 0x31, encode_size_field (get_signer_info_size p sig sid True),
          encode_signer_info p sig sid])) (\<lambda>n3.
     bind (on_writer (backtrack_and_encode_size [?n + n3, 4 + (?n + n3), 15 + (4 + (?n + n3))])) (\<lambda>_.
     bind (on_writer (gets cw_backtracks)) (\<lambda>backtracks.
     bind (guard_err (backtracks \<noteq> []) X509InvalidState) (\<lambda>_.
     bind (on_writer check_not_truncated) (\<lambda>_.
     ret (4 + (15 + (4 + (?n + n3))), signature_zeroize sig))))))"
  have tail: "cms_tail p cb sid (length (cms_head p sid)) (length (encap_der csr), sg) (c, w6) =
     bind (call_sign_cb cb ?a (?a + length csr) False sg) ?k (c, w6)"
    unfolding cms_tail_def split_conv
    by (simp only: on_writer_bind(1) [where m = "gets f" and w = w6 for f, OF gets_apply] range6 ok_or_simps
        bind_lift split_conv length_append)
  have "run_outcome (cms_der p sid csr) (\<lambda>_ _. True) w (answer, c')
      (cms_tail p cb sid (length (cms_head p sid)) (length (encap_der csr), sg) (c, w6))"
  proof (cases answer)
    case (Ok s)
    have eq: "cms_tail p cb sid (length (cms_head p sid)) (length (encap_der csr), sg) (c, w6) =
        ?k s (c', w6)"
      unfolding tail using call Ok by (simp only: bind_step map_err.simps)
    show ?thesis
      unfolding run_outcome_def eq Ok prod.case outcome.case simp_thms(21)
      by (rule impI, rule cms_finish [OF o1 oid o2 o3 front r empty _ sz])
  qed (use call tail in \<open>auto simp: run_outcome_def bind_def [of "call_sign_cb cb ?a (?a + length csr) False sg"]\<close>)
  ultimately show thesis using that ans by metis
qed

lemma signed_der_small:
  "signature_wf s \<Longrightarrow> length tbs \<le> 50000 \<Longrightarrow> length (signed_der p tbs s) \<le> 59000"
  using signature_width [of s p] length_der_le [of "0x30" "tbs @ sig_alg_der p @ signature_bits_der s"]
  by (simp add: signed_der_def)

lemma cms_run:
  fixes c :: 'c and cb :: "'c sign_cb" and sig :: Signature
  assumes enc: "checked 1 (encode_certification_request_info p crit pk name md) cri"
    and r: "ready 8 w" and empty: "cw_backtracks w = []"
    and sz: "256 \<le> length cri" "length cri \<le> 50000" and sid: "length (signer_identifier_der sid) \<le> 1000"
  defines "run \<equiv> encode_cms p crit cb pk name md sid sig (c, w)"
  obtains (full) w' where "\<not> fits w (length (cms_head p sid) + 50 + length cri)"
    and "run = (Err (InternalError CertSizeOverflow), (c, w'))"
  | (asked) rd a where "fits w (length (cms_head p sid) + 50 + length cri)"
    and "rd a (a + length cri) = Ok cri"
    and "cms_outcome p sid cri cb w (cb rd a (a + length cri) True sig c) run"
proof -
  let ?head = "cms_head p sid"
  have "ready (Suc 7) w" using r by simp
  then obtain w0 w1 where w1: "encode_tag_field 0x30 w = (Ok 1, w0)"
    "push_backtrack SIZE_TAG_OFFSET w0 = (Ok (cw_offset w + 4), w1)" "opened w 0x30 w1" "ready 7 w1"
    by (rule open_layer)
  obtain w2 where w2: "encode_oid ID_SIGNED_DATA_OID w1 = (Ok 11, w2)"
    "wrote w1 (oid_der ID_SIGNED_DATA_OID) w2" "same_stack w1 w2"
    using encode_oid_run [OF w1(4), of ID_SIGNED_DATA_OID] by auto
  have r2: "ready (Suc 6) w2" using w1(4) ready_wrote [OF w2(2,3)] by simp
  then obtain w2' w3 where w3: "encode_tag_field 0xA0 w2 = (Ok 1, w2')"
    "push_backtrack SIZE_TAG_OFFSET w2' = (Ok (cw_offset w2 + 4), w3)" "opened w2 0xA0 w3" "ready 6 w3"
    by (rule open_layer)
  have "ready (Suc 5) w3" using w3(4) by simp
  then obtain w3' w4 where w4: "encode_tag_field 0x30 w3 = (Ok 1, w3')"
    "push_backtrack SIZE_TAG_OFFSET w3' = (Ok (cw_offset w3 + 4), w4)" "opened w3 0x30 w4" "ready 5 w4"
    by (rule open_layer)
  have fit: "fits w4 n = fits w (23 + n)" for n
    using opened_fits [OF w4(3), of n] opened_fits [OF w3(3), of "4 + n"] wrote_fits [OF w2(2), of "8 + n"]
      opened_fits [OF w1(3), of "19 + n"] by simp
  have rs: "ready 3 w" "ready 2 w2" "ready 1 w3"
    using ready_less [OF r, of 3] ready_less [OF r2, of 2] ready_less [OF w3(4), of 1] by simp_all
  let ?start = "encode_all [encode_cms_version sid, encode_tag_field 0x31,
     encode_size_field (get_hash_alg_id_size p True), encode_hash_alg_id p]"
  have prefix: "1 + SIZE_TAG_OFFSET = 4" "11 + (4 :: nat) = 15" by (simp_all add: SIZE_TAG_OFFSET_def)
  have run: "run = bind (on_writer ?start) (\<lambda>n1.
     bind (encode_encapsulated_content_info p crit cb pk name md sig) (cms_tail p cb sid n1)) (c, w4)"
    unfolding run_def encode_cms_def cms_tail_def tag_simps Let_def
    by (simp only: encode_tag_field_def [symmetric] prefix
        on_writer_bind(1) [where m = "encode_tag_field 0x30" and w = w, OF w1(1)]
        on_writer_bind(1) [where m = "push_backtrack SIZE_TAG_OFFSET" and w = w0, OF w1(2)]
        on_writer_bind(1) [where m = "encode_oid ID_SIGNED_DATA_OID" and w = w1, OF w2(1)]
        on_writer_bind(1) [where m = "encode_tag_field 0xA0" and w = w2, OF w3(1)]
        on_writer_bind(1) [where m = "push_backtrack SIZE_TAG_OFFSET" and w = w2', OF w3(2)]
        on_writer_bind(1) [where m = "encode_tag_field 0x30" and w = w3, OF w4(1)]
        on_writer_bind(1) [where m = "push_backtrack SIZE_TAG_OFFSET" and w = w3', OF w4(2)])
  show thesis using writes_cms_head [of 5 sid p] w4(4)
  proof (cases rule: writesD)
    case (full w5)
    have "\<not> fits w (length ?head + 50 + length cri)"
      using full(1) fit [of "length ?head"] by (auto simp: fits_def)
    then show thesis
      by (rule that(1)) (use full(2) in \<open>simp add: run on_writer_bind\<close>)
  next
    case (wrote w5)
    have fit5: "fits w5 n = fits w (length ?head + 23 + n)" for n
      using wrote_fits [OF wrote(2), of n] fit [of "length ?head + n"] by (simp add: ac_simps)
    have run5: "run = bind (encode_encapsulated_content_info p crit cb pk name md sig)
        (cms_tail p cb sid (length ?head)) (c, w5)"
      unfolding run by (simp only: on_writer_bind(1) [where m = ?start and w = w4, OF wrote(1)])
    have r5: "ready 5 w5" using ready_wrote [OF wrote(2,3)] w4(4) by simp
    show thesis
    proof (rule encaps_run [OF enc r5 sz(1), where cb = cb and sig = sig and c = c])
      show "length cri \<le> 60000" using sz by simp
    next
      fix w' assume "\<not> fits w5 (27 + length cri)"
        "encode_encapsulated_content_info p crit cb pk name md sig (c, w5) =
          (Err (InternalError CertSizeOverflow), (c, w'))"
      then show thesis
        using fit5 [of "27 + length cri"] by (intro that(1) [of w']) (simp_all add: run5 bind_def ac_simps)
    next
      fix rd a assume a: "fits w5 (27 + length cri)" "rd a (a + length cri) = Ok cri"
        and o: "run_outcome (\<lambda>s. encap_der (signed_der p cri s))
          (\<lambda>s. closed_to w5 (Some (cw_offset w5 + 23, cw_offset w5 + 23 + length (signed_der p cri s)))) w5
          (cb rd a (a + length cri) True sig c)
          (encode_encapsulated_content_info p crit cb pk name md sig (c, w5))"
      have fits_w: "fits w (length ?head + 50 + length cri)" 
        using a(1) fit5 [of "27 + length cri"] by (auto simp: fits_def)
      obtain answer c' where ans: "cb rd a (a + length cri) True sig c = (answer, c')" by fastforce
      have "cms_outcome p sid cri cb w (answer, c') run"
      proof (cases answer)
        case (Ok s)
        let ?csr = "signed_der p cri s"
        show ?thesis
        proof (cases "signature_wf s")
          case True
          have csr: "256 \<le> length ?csr" "length ?csr \<le> 59000" "length ?csr \<le> 65000"
            using signed_der_length [OF True sz(1), of p] signed_der_small [OF True sz(2), of p] sz by simp_all
          have len: "length (encap_der ?csr) = 23 + length ?csr" by (rule encap_length [OF csr(1,3)])
          have fc: "fits w5 (length (encap_der ?csr)) = fits w (length ?head + 46 + length ?csr)"
            using fit5 [of "length (encap_der ?csr)"] len by (auto simp: fits_def)
          show ?thesis
          proof (cases "fits w5 (length (encap_der ?csr))")
            case fits5: True
            with o ans Ok True obtain w6 where w6:
              "encode_encapsulated_content_info p crit cb pk name md sig (c, w5) =
                (Ok (length (encap_der ?csr), signature_zeroize s), (c', w6))"
              "wrote w5 (encap_der ?csr) w6"
              "closed_to w5 (Some (cw_offset w5 + 23, cw_offset w5 + 23 + length ?csr)) w6"
              by (auto simp: run_outcome_def)
            have tail: "run = cms_tail p cb sid (length ?head)
                (length (encap_der ?csr), signature_zeroize s) (c', w6)"
              unfolding run5 by (simp only: bind_step(1)
                  [where m = "encode_encapsulated_content_info p crit cb pk name md sig" and s = "(c, w5)",
                    OF w6(1)])
            obtain rd2 a2 where "rd2 a2 (a2 + length ?csr) = Ok ?csr"
              "run_outcome (cms_der p sid ?csr) (\<lambda>_ _. True) w
                (cb rd2 a2 (a2 + length ?csr) False (signature_zeroize s) c') run"
              unfolding tail
              by (rule cms_tail_run [OF w1(3) w2(2,3) w3(3) w4(3) wrote(2,3) w6(2) fits5 w6(3) rs empty
                    sid csr(1,2)])
            with fc fits5 show ?thesis by (auto simp: cms_outcome_def Ok Let_def)
          next
            case False
            with o ans Ok True fc show ?thesis
              by (auto simp: cms_outcome_def run_outcome_def Let_def run5 bind_def)
          qed
        qed (simp add: Ok cms_outcome_def)
      qed (use o ans in \<open>auto simp: cms_outcome_def run_outcome_def run5 bind_def\<close>)
      with fits_w a(2) ans show thesis by (intro that(2) [of rd a]) simp_all
    qed
  qed
qed

end
