(* ===== verification/X509_State.thy ===== *)
theory X509_State
  imports X509_Cms Service
begin

text \<open>
  Certificates over a DPE state: the path of contexts that the measurement data stands for, the sizes
  it can have, and the finished certificates and CMS messages of a state with the invariant.
\<close>

section \<open>The path of a state\<close>

definition svn_len :: "Context \<Rightarrow> nat" where
  "svn_len c = length (int_content (u64_to_be_bytes (ucast (tci_svn (tci c)))))"

definition state_nodes :: "State \<Rightarrow> nat \<Rightarrow> MeasurementData \<Rightarrow> bool" where
  "state_nodes st idx md \<longleftrightarrow>
     md_tci_nodes md = \<lparr>tn_start_idx = idx, tn_contexts = contexts st\<rparr>"

lemma node_path_state:
  assumes "state_inv st" "up_path (contexts st) is" "state_nodes st (hd is) md"
  shows "node_path md (map ((!) (contexts st)) (rev is))"
proof -
  have "length (contexts st) \<le> 64" using forest_length [OF state_inv_forest [OF assms(1)]] by simp
  from iter_new_up_path [OF assms(2) this] obtain it where "iter_new (hd is) (contexts st) = Ok it"
    "iter_items it = map (\<lambda>i. Ok (contexts st ! i)) (rev is)" "iter_num_nodes it = length is"
    "it_contexts it = contexts st" by metis
  moreover have "is \<noteq> []" using assms(2) by auto
  moreover have "contexts st \<noteq> []" using forest_length [OF state_inv_forest [OF assms(1)]] by auto
  ultimately show ?thesis
    using assms(3) by (auto simp: node_path_def TciNodes_iter_def state_nodes_def)
qed

lemma tcb_info_size_wf:
  "tci_wf (tci c) \<Longrightarrow> get_tcb_info_size p (tci c) r True =
     (let fwid = get_structure_size (get_structure_size 9 True + get_structure_size TCI_SIZE True) True
      in get_structure_size (get_structure_size fwid True + 2 * get_structure_size 4 True
         + (if r then get_structure_size (get_structure_size (get_integer_size INTEGRITY_REGISTER_NUM True
              + get_structure_size fwid True) True) True else 0)
         + get_structure_size (svn_len c) True) True)"
  by (simp add: get_tcb_info_size_def get_fwid_size_def tci_wf_def svn_len_def get_integer_size_def
      get_integer_bytes_size_eq Let_def)

lemma svn_len_le: "svn_len c \<le> 5"
proof -
  have beyond: False if "bit w (k + n)" "32 \<le> k" for w :: u32 and k n
    using bit_imp_le_length [OF that(1)] that(2) by simp
  have split: "u64_to_be_bytes (ucast w) = [0, 0, 0, 0] @ u32_to_be_bytes w" for w :: u32
  proof -
    have octets: "[0..<8] = [0, 1, 2, 3, 4, 5, 6, 7 :: nat]" by (simp add: upt_conv_Cons)
    show ?thesis
      unfolding u64_to_be_bytes_def u64_to_le_bytes_def u32_to_be_bytes_def u32_to_le_bytes_def octets
      by (auto intro!: bit_word_eqI simp: bit_simps dest!: beyond)
  qed
  let ?d = "dropWhile ((=) 0) (u32_to_be_bytes (tci_svn (tci c)))"
  have "length ?d \<le> 4" using length_dropWhile_le [of "(=) 0" "u32_to_be_bytes (tci_svn (tci c))"] by simp
  then show ?thesis by (auto simp: svn_len_def int_content_def split Let_def)
qed

text \<open>A TcbInfo is as long as its SVN needs, and a fixed number of bytes.\<close>

lemma tcb_info_size_svn:
  "tci_wf (tci c) \<Longrightarrow> get_tcb_info_size p (tci c) r True = (if r then 154 else 81) + svn_len c"
proof -
  have "int_content (u64_to_be_bytes 0) = [0]"
    by (simp add: int_content_def u64_to_be_bytes_def u64_to_le_bytes_def)
  then show "tci_wf (tci c) \<Longrightarrow> get_tcb_info_size p (tci c) r True = (if r then 154 else 81) + svn_len c"
    using svn_len_le [of c]
    by (simp add: tcb_info_size_wf get_integer_size_def get_integer_bytes_size_eq INTEGRITY_REGISTER_NUM_def
        TCI_SIZE_def get_structure_size_def get_size_width_def)
qed

section \<open>SVNs on the path\<close>

text \<open>
  \<open>svns_add_up st is\<close>: the INTEGERs of the SVNs on the path take together as many octets as if each were
  as long as that of the first context of the array. This is what the code counts on, and
  all its sizes are right exactly then.
\<close>

definition svns_add_up :: "State \<Rightarrow> nat list \<Rightarrow> bool" where
  "svns_add_up st is \<longleftrightarrow> (\<Sum>i\<leftarrow>is. svn_len (contexts st ! i)) = length is * svn_len (contexts st ! 0)"

definition path_contexts :: "State \<Rightarrow> nat list \<Rightarrow> Context list" where
  "path_contexts st is = map ((!) (contexts st)) (rev is)"

lemma svns_equal_add_up:
  "\<forall>i \<in> set is. svn_len (contexts st ! i) = svn_len (contexts st ! 0) \<Longrightarrow> svns_add_up st is"
  by (induction "is") (simp_all add: svns_add_up_def)

lemma length_tcb_infos:
  "\<forall>c \<in> set cs. tci_wf (tci c) \<Longrightarrow>
     length (tcb_infos p r cs) = (if r then 154 else 81) * length cs + (\<Sum>c\<leftarrow>cs. svn_len c)"
  by (induction cs) (simp_all add: length_tcb_info tcb_info_size_svn)

lemma counted_infos_value:
  assumes "state_inv st" "state_nodes st (hd is) md"
  shows "counted_infos p md (path_contexts st is) =
    ((if md_supports_recursive md then 154 else 81) + svn_len (contexts st ! 0)) * length is"
proof -
  have "contexts st \<noteq> []" using forest_length [OF state_inv_forest [OF assms(1)]] by auto
  then show ?thesis
    using assms(2) state_inv_tci_wf [OF assms(1), of 0]
    by (simp add: counted_infos_def state_nodes_def hd_conv_nth tcb_info_size_svn path_contexts_def)
qed

lemma counted_infos_state:
  assumes "state_inv st" "up_path (contexts st) is" "state_nodes st (hd is) md"
  shows "counted_infos p md (path_contexts st is) + (\<Sum>i\<leftarrow>is. svn_len (contexts st ! i)) =
      length (tcb_infos p (md_supports_recursive md) (path_contexts st is)) +
      length is * svn_len (contexts st ! 0)"
    and "exact_count p md (path_contexts st is) \<longleftrightarrow> svns_add_up st is"
proof -
  have wf: "\<forall>c \<in> set (path_contexts st is). tci_wf (tci c)"
    using state_inv_tci_wf [OF assms(1)] up_path_lt [OF assms(1,2)] by (auto simp: path_contexts_def)
  have "(\<Sum>c\<leftarrow>path_contexts st is. svn_len c) = (\<Sum>i\<leftarrow>is. svn_len (contexts st ! i))"
    by (simp add: path_contexts_def comp_def rev_map [symmetric])
  then have l: "length (tcb_infos p (md_supports_recursive md) (path_contexts st is)) =
      (if md_supports_recursive md then 154 else 81) * length is + (\<Sum>i\<leftarrow>is. svn_len (contexts st ! i))"
    using length_tcb_infos [OF wf, of p "md_supports_recursive md"] by (simp add: path_contexts_def)
  note c = counted_infos_value [OF assms(1,3), of p]
  show "counted_infos p md (path_contexts st is) + (\<Sum>i\<leftarrow>is. svn_len (contexts st ! i)) =
      length (tcb_infos p (md_supports_recursive md) (path_contexts st is)) +
      length is * svn_len (contexts st ! 0)"
    unfolding l c by (simp only: add_mult_distrib) simp
  show "exact_count p md (path_contexts st is) \<longleftrightarrow> svns_add_up st is"
    unfolding exact_count_def l c svns_add_up_def by (simp only: add_mult_distrib) (auto simp: mult.commute)
qed

section \<open>Bounds\<close>

definition name_wf :: "Name \<Rightarrow> bool" where
  "name_wf n \<longleftrightarrow> directory_string_len (name_cn n) \<le> 64 \<and> directory_string_len (name_serial n) = 64"

definition md_wf :: "MeasurementData \<Rightarrow> bool" where
  "md_wf md \<longleftrightarrow> length (md_label md) \<le> MAX_UEID_SIZE \<and>
     length (md_subject_key_identifier md) = MAX_KEY_IDENTIFIER_SIZE \<and>
     length (md_authority_key_identifier md) = MAX_KEY_IDENTIFIER_SIZE \<and>
     (case md_subject_alt_name md of
        None \<Rightarrow> True
      | Some (SanOtherName n) \<Rightarrow> length (on_oid n) \<le> 64 \<and> length (on_other_name n) \<le> MAX_OTHER_NAME_SIZE)"

text \<open>Upper and lower bounds of the lengths of structures, composed along their shape.\<close>

definition between :: "nat \<Rightarrow> bytes \<Rightarrow> nat \<Rightarrow> bool" where
  "between lo bs hi \<longleftrightarrow> lo \<le> length bs \<and> length bs \<le> hi"

named_theorems bounds \<open>lengths of structures\<close>

lemma between_der [bounds]: "between lo c hi \<Longrightarrow> between (2 + lo) (der t c) (6 + hi)"
  by (simp add: between_def der_def get_size_width_def)

lemma between_tlv [bounds]: "between lo c hi \<Longrightarrow> between (2 + lo) (tlv t n c) (6 + hi)"
  by (simp add: between_def tlv_def get_size_width_def)

lemma between_append [bounds]:
  "between lo a hi \<Longrightarrow> between lo' b hi' \<Longrightarrow> between (lo + lo') (a @ b) (hi + hi')"
  by (simp add: between_def)

lemma between_Nil [bounds]: "between 0 [] 0"
  by (simp add: between_def)

lemma between_oid [bounds]: "between (2 + length oid) (oid_der oid) (6 + length oid)"
  unfolding oid_der_def by (rule between_der) (simp add: between_def)

lemma between_u64 [bounds]: "between 0 (int_content (u64_to_be_bytes n)) 9"
  using length_int_content [of "u64_to_be_bytes n"] by (simp add: between_def)

lemma between_integer [bounds]: "between 2 (der_integer bs) (7 + length bs)"
  using length_int_content [of bs] between_der [of 0 "int_content bs" "Suc (length bs)" "0x02"]
  by (simp add: between_def der_integer_def)

lemma between_if [bounds]:
  "between lo a hi \<Longrightarrow> between lo' b hi' \<Longrightarrow> between (min lo lo') (if c then a else b) (max hi hi')"
  by (auto simp: between_def)

lemma between_mono: "between lo bs hi \<Longrightarrow> lo' \<le> lo \<Longrightarrow> hi \<le> hi' \<Longrightarrow> between lo' bs hi'"
  by (simp add: between_def)

lemma between_ext [bounds]:
  assumes "between lo content hi"
  shows "between (6 + length oid + lo) (ext_der oid crit content) (27 + length oid + hi)"
proof -
  have c: "between 0 (crit_der crit) 9" by (cases crit) (simp_all add: between_def crit_der_def der_def get_size_width_def)
  show ?thesis unfolding ext_der_def
    by (rule between_mono, (rule bounds c assms)+) simp_all
qed

lemma between_u32 [bounds]:
  "between 4 (u32_to_be_bytes n) 4" "between 4 (u32_to_le_bytes n) 4"
  by (simp_all add: between_def)

lemma between_fwid: "length d = TCI_SIZE \<Longrightarrow> between 63 (fwid_der p d) 63"
  by (simp add: between_def fwid_der_def der_def oid_der_def get_size_width_def TCI_SIZE_def)

lemma between_tcb_info:
  assumes "tci_wf node"
  shows "between 65 (tcb_info_der p r node) 250"
proof -
  note f = between_fwid [of "tci_current node" p] between_fwid [of "tci_cumulative node" p]
  show ?thesis
    using assms unfolding tcb_info_der_def registers_der_def tci_wf_def
    by - (rule between_mono, (rule bounds f | blast)+, simp_all)
qed

lemma between_nodes:
  "\<forall>c \<in> set cs. tci_wf (tci c) \<Longrightarrow>
     between 0 (concat (map (\<lambda>c. tcb_info_der p r (tci c)) cs)) (250 * length cs)"
proof (induction cs)
  case (Cons c cs)
  then have "between 65 (tcb_info_der p r (tci c)) 250"
    "between 0 (concat (map (\<lambda>c. tcb_info_der p r (tci c)) cs)) (250 * length cs)"
    by (simp_all add: between_tcb_info)
  from between_append [OF this] show ?case by (simp add: between_def)
qed (simp add: between_def)

lemma between_subject_alt_name:
  "md_wf md \<Longrightarrow> between 0 (subject_alt_name_der md) 300"
proof (cases "md_subject_alt_name md")
  case None
  then show ?thesis by (simp add: subject_alt_name_der_def between_def)
next
  case (Some a)
  obtain n where a: "a = SanOtherName n" by (cases a)
  assume "md_wf md"
  then have n: "length (on_oid n) \<le> 64" "between 0 (on_other_name n) 128"
    using Some a by (simp_all add: md_wf_def between_def platform_sizes)
  show ?thesis
    unfolding subject_alt_name_der_def Some a option.case SubjectAltName.case other_name_der_def
    by (rule between_mono, (rule bounds n)+) (use n in simp_all)
qed

lemma between_extension_parts:
  assumes cs: "\<forall>c \<in> set cs. tci_wf (tci c)" and md: "md_wf md"
  shows "between 14 (multi_tcb_info_written p crit md cs) (39 + 250 * length cs)"
    and "between 16 (ueid_der crit md) 93" and "between 11 (basic_constraints_der md) 43"
    and "between 13 (key_usage_der ca) 38" and "between 20 (extended_key_usage_der md) 52"
    and "between 31 (authority_key_id_der md) 62" and "between 31 (subject_key_id_der md) 56"
proof -
  note nodes = between_nodes [OF cs, of p "md_supports_recursive md"]
  have b: "between 0 (md_label md) 48" "between 20 (md_subject_key_identifier md) 20"
    "between 20 (md_authority_key_identifier md) 20" "between 1 [0xFF :: u8] 1"
    "between 2 (if ca then [2 :: u8, 0x84] else [7, 0x80]) 2"
    "between 9 (oid_der (if md_is_ca md then ECA_OID else ATTEST_LOC_OID)) 13"
    using md between_oid [of ECA_OID] between_oid [of ATTEST_LOC_OID] by (simp_all add: md_wf_def between_def)
  note rules = b nodes bounds
  have "between 14 (multi_header crit n) 39" for n
    by (simp add: between_def multi_header_def Let_def size_simps MULTI_TCBINFO_OID_def get_structure_size_def
        get_size_width_def crit_der_def crit_byte_def)
  from between_append [OF this nodes] show "between 14 (multi_tcb_info_written p crit md cs) (39 + 250 * length cs)"
    by (simp add: multi_tcb_info_written_def)
  show "between 16 (ueid_der crit md) 93" "between 11 (basic_constraints_der md) 43"
    "between 13 (key_usage_der ca) 38" "between 20 (extended_key_usage_der md) 52"
    "between 31 (authority_key_id_der md) 62" "between 31 (subject_key_id_der md) 56"
    unfolding ueid_der_def basic_constraints_der_def key_usage_der_def
      extended_key_usage_der_def authority_key_id_der_def subject_key_id_der_def
    by (rule between_mono, (rule rules)+, simp, simp)+
qed

lemma between_extensions:
  assumes cs: "\<forall>c \<in> set cs. tci_wf (tci c)" "length cs \<le> 64" and md: "md_wf md"
  shows "between 76 (extensions_written p crit md x cs) 17000"
proof -
  note parts = between_extension_parts [OF cs(1) md] between_subject_alt_name [OF md]
  show ?thesis
    unfolding extensions_written_def other_extensions_def Let_def
    by (rule between_mono, (rule parts bounds)+) (use cs(2) in simp_all)
qed

text \<open>The bodies to sign need the three bytes that are reserved for their length, and no more.\<close>

lemma between_pub_key:
  assumes "pub_key_wf k"
  shows "between 88 (pub_key_der p k) 3000"
proof (cases k)
  case (PubEcdsa e)
  have b: "between 32 (pub_x e) 48" "between 32 (pub_y e) 48" "between 7 (oid_der (curve_oid e)) 14"
    using assms PubEcdsa between_oid [of CURVE_P256_OID] between_oid [of CURVE_P384_OID]
    by (cases e; simp add: between_def)+
  have c: "between lo bs hi \<Longrightarrow> between (Suc lo) (v # bs) (Suc hi)" for lo bs hi and v :: u8
    by (simp add: between_def)
  show ?thesis unfolding PubEcdsa pub_key_der.simps ec_pub_alg_der_def
    by (rule between_mono, (rule b c bounds)+) simp_all
next
  case (PubMldsa b)
  have c: "between 2593 (0 # b) 2593" using assms PubMldsa by (simp add: between_def)
  have "between 10 (oid_der (sig_oid p)) 15"
    using between_oid [of "sig_oid p"] by (cases p) (simp_all add: between_def length_sig_oid)
  note s = this
  show ?thesis unfolding PubMldsa pub_key_der.simps sig_alg_der_def
    by (rule between_mono, (rule s c bounds)+) simp_all
qed

lemma between_rdn:
  assumes "name_wf n"
  shows "between 88 (rdn_der n) 250"
proof -
  have d: "between (2 + directory_string_len s) (directory_string_der s) (6 + directory_string_len s)" for s
    using between_der [of "directory_string_len s" _ "directory_string_len s"]
    by (cases s) (simp_all add: between_def directory_string_len_def)
  show ?thesis unfolding rdn_der_def attribute_der_def
    by (rule between_mono, (rule d bounds)+) (use assms in \<open>simp_all add: name_wf_def\<close>)
qed

lemma tbs_bounds:
  assumes "\<forall>c \<in> set cs. tci_wf (tci c)" "length cs \<le> 64" "md_wf md" "name_wf name" "pub_key_wf pk"
    and "length sn = 20" "length issuer \<le> MAX_ISSUER_NAME_SIZE"
    and "length (not_before v) \<le> MAX_VALIDITY_SIZE" "length (not_after v) \<le> MAX_VALIDITY_SIZE"
  shows "between 256 (tbs_body p crit sn issuer name pk md v cs) 40000"
proof -
  note parts = between_extensions [OF assms(1-3)] between_rdn [OF assms(4)] between_pub_key [OF assms(5)]
  have b: "between 0 issuer 128" "between 0 (not_before v) 24" "between 0 (not_after v) 24"
    "between 10 (oid_der (sig_oid p)) 15"
    using assms between_oid [of "sig_oid p"] by (cases p; simp add: between_def length_sig_oid)+
  show ?thesis
    unfolding tbs_body_def version_der_def sig_alg_der_def validity_der_def
    by (rule between_mono, (rule parts b bounds)+) (use assms(6) in simp_all)
qed

lemma request_bounds:
  assumes "\<forall>c \<in> set cs. tci_wf (tci c)" "length cs \<le> 64" "md_wf md" "name_wf name" "pub_key_wf pk"
  shows "between 256 (request_body p crit pk name md cs) 40000"
proof -
  note parts = between_extensions [OF assms(1-3)] between_rdn [OF assms(4)] between_pub_key [OF assms(5)]
  show ?thesis
    unfolding request_body_def attributes_written_def Let_def
    by (rule between_mono, (rule parts bounds)+) simp_all
qed

section \<open>Certificates and requests of a state\<close>

text \<open>
  The arguments of the encoder as \<open>create_dpe_cert_or_csr\<close> makes them: the node \<open>hd is\<close> with its path
  \<open>is\<close> to the root, in a state with the invariant, and values of the lengths their types have.
\<close>

definition cert_inputs :: "State \<Rightarrow> nat list \<Rightarrow> MeasurementData \<Rightarrow> Name \<Rightarrow> PubKey \<Rightarrow> bool" where
  "cert_inputs st is md name pk \<longleftrightarrow>
     state_inv st \<and> up_path (contexts st) is \<and> state_nodes st (hd is) md \<and>
     md_wf md \<and> name_wf name \<and> pub_key_wf pk"

lemma cert_inputs_facts:
  assumes "cert_inputs st is md name pk"
  shows "node_path md (path_contexts st is)"
    and "exact_count p md (path_contexts st is) \<longleftrightarrow> svns_add_up st is"
    and "\<forall>c \<in> set (path_contexts st is). tci_wf (tci c)" "length (path_contexts st is) \<le> 64"
proof -
  have inv: "state_inv st" "up_path (contexts st) is" using assms by (simp_all add: cert_inputs_def)
  show "node_path md (path_contexts st is)" "exact_count p md (path_contexts st is) \<longleftrightarrow> svns_add_up st is"
    using assms node_path_state counted_infos_state by (simp_all add: cert_inputs_def path_contexts_def)
  show "\<forall>c \<in> set (path_contexts st is). tci_wf (tci c)"
    using state_inv_tci_wf [OF inv(1)] up_path_lt [OF inv] by (auto simp: path_contexts_def)
  show "length (path_contexts st is) \<le> 64"
    using up_path_length [OF inv(2)] forest_length [OF state_inv_forest [OF inv(1)]]
    by (simp add: path_contexts_def)
qed

lemma serial_number:
  "name_wf name \<Longrightarrow> get_range (ds_bytes (name_serial name)) 0 20 = Some (take 20 (ds_bytes (name_serial name)))"
  "name_wf name \<Longrightarrow> length (take 20 (ds_bytes (name_serial name))) = 20"
  by (simp_all add: name_wf_def directory_string_len_def get_range_def)

lemma u32_small: "n < 2 ^ 32 \<Longrightarrow> u32_try_from n e = Ok (of_nat n)"
  by (simp add: u32_try_from_def)

definition cert_tbs ::
  "State \<Rightarrow> nat list \<Rightarrow> DpeProfile \<Rightarrow> bool \<Rightarrow> bytes \<Rightarrow> Name \<Rightarrow> PubKey \<Rightarrow> MeasurementData \<Rightarrow> CertValidity \<Rightarrow> bytes" where
  "cert_tbs st is p crit issuer name pk md v =
     tbs_der p crit (take 20 (ds_bytes (name_serial name))) issuer name pk md v (path_contexts st is)"

text \<open>What becomes of the answer of the sign callback: an error is passed on.\<close>

definition answered ::
  "(CryptoError, Signature) outcome \<times> 'c \<Rightarrow> (DpeErrorCode, 'a) outcome \<Rightarrow> (Signature \<Rightarrow> 'c \<Rightarrow> bool) \<Rightarrow> bool" where
  "answered answer r P =
     (case answer of
        (Ok s, c') \<Rightarrow> signature_wf s \<longrightarrow> P s c'
      | (Err e, c') \<Rightarrow> r = Err (Crypto e)
      | (Panic, c') \<Rightarrow> r = Panic
      | (Diverge, c') \<Rightarrow> r = Diverge)"

lemma generate_certificate:
  fixes c :: 'c and cb :: "'c sign_cb" and p :: DpeProfile and crit :: bool and sig :: Signature
    and base :: nat
  assumes inp: "cert_inputs st is md name pk"
    and iss: "length issuer \<le> MAX_ISSUER_NAME_SIZE"
    and v: "length (not_before v) \<le> MAX_VALIDITY_SIZE" "length (not_after v) \<le> MAX_VALIDITY_SIZE"
    and buf: "length buf \<le> USIZE_MAX"
  defines "tbs \<equiv> cert_tbs st is p crit issuer name pk md v"
  defines "run \<equiv> generate_cert_or_csr (CertArgs issuer v) p crit name pk md cb base sig (c, buf)"
  shows "if length buf < base + 4 + length tbs
    then fst run = Err (InternalError CertSizeOverflow) \<and> fst (snd run) = c
    else \<exists>rd. rd 4 (4 + length tbs) = Ok tbs \<and>
      answered (cb rd 4 (4 + length tbs) False sig c) (fst run) (\<lambda>s c'.
        let cert = signed_der p tbs s
        in if base + length cert \<le> length buf
           then run = (Ok (of_nat (length cert)), (c', splice buf base cert))
           else fst run = Err (InternalError CertSizeOverflow))"
proof -
  let ?sn = "take 20 (ds_bytes (name_serial name))" and ?cs = "path_contexts st is"
  note facts = cert_inputs_facts [OF inp]
  have wf: "md_wf md" "name_wf name" "pub_key_wf pk" using inp by (simp_all add: cert_inputs_def)
  have b: "between 256 (tbs_body p crit ?sn issuer name pk md v ?cs) 40000"
    by (rule tbs_bounds [OF facts(3,4) wf serial_number(2) [OF wf(2)] iss v])
  have tbs: "tbs = tbs_der p crit ?sn issuer name pk md v ?cs" by (simp add: tbs_def cert_tbs_def)
  have tbs_len: "length tbs \<le> 50000"
    using b length_der_le [of "0x30" "tbs_body p crit ?sn issuer name pk md v ?cs"]
    by (simp add: tbs tbs_der_def between_def)
  let ?enc = "with_writer base (encode_certificate p crit cb ?sn issuer name pk md v sig) (c, buf)"
  have run: "run = (case ?enc of (Ok (n, _), s) \<Rightarrow> (u32_try_from n CertSizeOverflow, s)
      | (Err e, s) \<Rightarrow> (Err e, s) | (Panic, s) \<Rightarrow> (Panic, s) | (Diverge, s) \<Rightarrow> (Diverge, s))"
    unfolding run_def generate_cert_or_csr_def CertOrCsrArgs.case serial_number(1) [OF wf(2)] ok_or_simps bind_lift
    by (auto simp: bind_def split: prod.split outcome.split)
  have small: "u32_try_from (length (signed_der p tbs s)) e = Ok (of_nat (length (signed_der p tbs s)))"
    if "signature_wf s" for s e
    using signed_der_small [OF that tbs_len, of p] by (intro u32_small) simp
  show ?thesis
  proof (rule certificate_run [OF wf(3) facts(1) _ _ buf, where p = p and crit = crit and sn = ?sn
        and issuer = issuer and name = name and validity = v and base = base and cb = cb and sig = sig and c = c,
        folded tbs])
    show "256 \<le> length (tbs_body p crit ?sn issuer name pk md v ?cs)"
      "length (tbs_body p crit ?sn issuer name pk md v ?cs) \<le> 59996"
      using b by (simp_all add: between_def)
  next
    fix buf' assume "length buf < base + 4 + length tbs" "?enc = (Err (InternalError CertSizeOverflow), (c, buf'))"
    then show ?thesis by (simp add: run)
  next
    fix rd assume f: "base + 4 + length tbs \<le> length buf" and rd: "rd 4 (4 + length tbs) = Ok tbs"
      and o: "case cb rd 4 (4 + length tbs) False sig c of
        (Ok s, c') \<Rightarrow> signature_wf s \<longrightarrow>
          (let cert = signed_der p tbs s
           in if base + length cert \<le> length buf
              then ?enc = (Ok (length cert, signature_zeroize s), (c', splice buf base cert))
              else fst ?enc = Err (InternalError CertSizeOverflow))
      | (Err e, c') \<Rightarrow> fst ?enc = Err (Crypto e)
      | (Panic, c') \<Rightarrow> fst ?enc = Panic
      | (Diverge, c') \<Rightarrow> fst ?enc = Diverge"
    obtain r s' where e: "?enc = (r, s')" by (rule prod.exhaust)
    have "answered (cb rd 4 (4 + length tbs) False sig c) (fst run) (\<lambda>s c'.
        let cert = signed_der p tbs s
        in if base + length cert \<le> length buf
           then run = (Ok (of_nat (length cert)), (c', splice buf base cert))
           else fst run = Err (InternalError CertSizeOverflow))"
      using o unfolding run e answered_def
      by (auto simp: Let_def small split: prod.splits outcome.splits if_splits)
    with rd have "\<exists>rd. rd 4 (4 + length tbs) = Ok tbs \<and>
      answered (cb rd 4 (4 + length tbs) False sig c) (fst run) (\<lambda>s c'.
        let cert = signed_der p tbs s
        in if base + length cert \<le> length buf
           then run = (Ok (of_nat (length cert)), (c', splice buf base cert))
           else fst run = Err (InternalError CertSizeOverflow))" by (intro exI [of _ rd] conjI)
    moreover have "\<not> length buf < base + 4 + length tbs" using f by simp
    ultimately show ?thesis by (simp only: if_False)
  qed
qed

lemma outcome_answered:
  assumes "run_outcome out post w answer r"
  shows "answered answer (fst r) (\<lambda>s c'. if fits w (length (out s))
      then \<exists>w'. r = (Ok (length (out s), signature_zeroize s), (c', w')) \<and> wrote w (out s) w'
      else \<exists>w'. r = (Err (InternalError CertSizeOverflow), (c', w')))"
  using assms by (auto simp: run_outcome_def answered_def split: prod.splits outcome.splits if_splits)

lemma answered_mono:
  "answered answer (r :: (DpeErrorCode, 'a) outcome) P \<Longrightarrow>
     (\<And>s c'. signature_wf s \<Longrightarrow> P s c' \<Longrightarrow> Q s c') \<Longrightarrow>
     (\<And>e. r = Err e \<Longrightarrow> r' = Err e) \<Longrightarrow> (r = Panic \<Longrightarrow> r' = Panic) \<Longrightarrow> (r = Diverge \<Longrightarrow> r' = Diverge) \<Longrightarrow>
     answered answer (r' :: (DpeErrorCode, 'b) outcome) Q"
  by (auto simp: answered_def split: prod.splits outcome.splits)

lemma generate_csr:
  fixes c :: 'c and cb :: "'c sign_cb" and p :: DpeProfile and crit :: bool and sig :: Signature
    and base :: nat
  assumes inp: "cert_inputs st is md name pk" and sid: "length (signer_identifier_der sid) \<le> 1000"
    and buf: "length buf \<le> USIZE_MAX"
  defines "cri \<equiv> request_info_der p crit pk name md (path_contexts st is)"
  defines "run \<equiv> generate_cert_or_csr (CsrArgs sid) p crit name pk md cb base sig (c, buf)"
  defines "n \<equiv> base + length (cms_head p sid)"
  shows "if length buf < n + 50 + length cri
    then fst run = Err (InternalError CertSizeOverflow) \<and> fst (snd run) = c
    else \<exists>rd a. rd a (a + length cri) = Ok cri \<and>
      answered (cb rd a (a + length cri) True sig c) (fst run) (\<lambda>s c1.
        let csr = signed_der p cri s
        in if length buf < n + 46 + length csr then fst run = Err (InternalError CertSizeOverflow)
           else \<exists>rd a. rd a (a + length csr) = Ok csr \<and>
             answered (cb rd a (a + length csr) False (signature_zeroize s) c1) (fst run) (\<lambda>s2 c2.
               let cms = cms_der p sid csr s2
               in if base + length cms \<le> length buf
                  then run = (Ok (of_nat (length cms)), (c2, splice buf base cms))
                  else fst run = Err (InternalError CertSizeOverflow)))"
proof -
  let ?cs = "path_contexts st is" and ?w = "CertWriter_new buf base"
  note facts = cert_inputs_facts [OF inp]
  have wf: "md_wf md" "name_wf name" "pub_key_wf pk" using inp by (simp_all add: cert_inputs_def)
  have b: "between 256 (request_body p crit pk name md ?cs) 40000"
    by (rule request_bounds [OF facts(3,4) wf])
  have len: "256 \<le> length cri" "length cri \<le> 50000"
    using b length_der_le [of "0x30" "request_body p crit pk name md ?cs"]
      length_wide [of "request_body p crit pk name md ?cs" "0x30"]
    by (simp_all add: cri_def request_info_der_def between_def)
  have enc: "checked 1 (encode_certification_request_info p crit pk name md) cri"
    unfolding cri_def One_nat_def
    by (rule checked_request_info [OF wf(3) facts(1)]) (use b in \<open>simp_all add: between_def\<close>)
  have r: "ready 8 ?w" "cw_backtracks ?w = []"
    using ready_new [OF buf, of 8 base] by (simp_all add: MAX_BACKTRACKS_def CertWriter_new_def)
  let ?enc = "encode_cms p crit cb pk name md sid sig (c, ?w)"
  have run: "run = (case ?enc of (Ok (n, _), (c', w')) \<Rightarrow> (u32_try_from n CsrSizeOverflow, (c', cw_certificate w'))
      | (Err e, (c', w')) \<Rightarrow> (Err e, (c', cw_certificate w')) | (Panic, (c', w')) \<Rightarrow> (Panic, (c', cw_certificate w'))
      | (Diverge, (c', w')) \<Rightarrow> (Diverge, (c', cw_certificate w')))"
    unfolding run_def generate_cert_or_csr_def CertOrCsrArgs.case
    by (auto simp: bind_def with_writer_def split: prod.split outcome.split)
  have pass: "fst ?enc = Err e \<Longrightarrow> fst run = Err e" "fst ?enc = Panic \<Longrightarrow> fst run = Panic"
    "fst ?enc = Diverge \<Longrightarrow> fst run = Diverge" for e
    unfolding run by (auto split: prod.split)
  show ?thesis
  proof (rule cms_run [OF enc r len sid, where cb = cb and sig = sig and c = c, unfolded fits_new])
    fix w' assume "\<not> base + (length (cms_head p sid) + 50 + length cri) \<le> length buf"
      "?enc = (Err (InternalError CertSizeOverflow), (c, w'))"
    then show ?thesis by (simp add: run n_def)
  next
    fix rd a assume f: "base + (length (cms_head p sid) + 50 + length cri) \<le> length buf"
      and rd: "rd a (a + length cri) = Ok cri"
      and o: "cms_outcome p sid cri cb ?w (cb rd a (a + length cri) True sig c) ?enc"
    have second: "let csr = signed_der p cri s
        in if length buf < n + 46 + length csr then fst run = Err (InternalError CertSizeOverflow)
           else \<exists>rd a. rd a (a + length csr) = Ok csr \<and>
             answered (cb rd a (a + length csr) False (signature_zeroize s) c1) (fst run) (\<lambda>s2 c2.
               let cms = cms_der p sid csr s2
               in if base + length cms \<le> length buf
                  then run = (Ok (of_nat (length cms)), (c2, splice buf base cms))
                  else fst run = Err (InternalError CertSizeOverflow))"
      if s: "signature_wf s" and ans: "cb rd a (a + length cri) True sig c = (Ok s, c1)" for s c1
    proof (cases "length buf < n + 46 + length (signed_der p cri s)")
      case True
      with o s ans obtain w' where "?enc = (Err (InternalError CertSizeOverflow), (c1, w'))"
        by (auto simp: cms_outcome_def Let_def fits_new n_def)
      with True show ?thesis by (simp add: Let_def run)
    next
      case False
      let ?csr = "signed_der p cri s"
      from False o s ans obtain rd2 a2 where rd2: "rd2 a2 (a2 + length ?csr) = Ok ?csr"
        and ro: "run_outcome (cms_der p sid ?csr) (\<lambda>_ _. True) ?w
          (cb rd2 a2 (a2 + length ?csr) False (signature_zeroize s) c1) ?enc"
        by (auto simp: cms_outcome_def Let_def fits_new n_def)
      have csr: "256 \<le> length ?csr" "length ?csr \<le> 59000"
        using signed_der_length [OF s len(1), of p] signed_der_small [OF s len(2), of p] len by simp_all
      have small: "u32_try_from (length (cms_der p sid ?csr s2)) e = Ok (of_nat (length (cms_der p sid ?csr s2)))"
        if "signature_wf s2" for s2 e
        using cms_body_width [OF that sid csr, of p] by (intro u32_small) simp
      have "answered (cb rd2 a2 (a2 + length ?csr) False (signature_zeroize s) c1) (fst run) (\<lambda>s2 c2.
          let cms = cms_der p sid ?csr s2
          in if base + length cms \<le> length buf
             then run = (Ok (of_nat (length cms)), (c2, splice buf base cms))
             else fst run = Err (InternalError CertSizeOverflow))"
      proof (rule answered_mono [OF outcome_answered [OF ro]])
        fix s2 c2 assume "signature_wf s2" "if fits ?w (length (cms_der p sid ?csr s2))
          then \<exists>w'. ?enc = (Ok (length (cms_der p sid ?csr s2), signature_zeroize s2), (c2, w')) \<and>
            wrote ?w (cms_der p sid ?csr s2) w'
          else \<exists>w'. ?enc = (Err (InternalError CertSizeOverflow), (c2, w'))"
        then show "let cms = cms_der p sid ?csr s2
          in if base + length cms \<le> length buf
             then run = (Ok (of_nat (length cms)), (c2, splice buf base cms))
             else fst run = Err (InternalError CertSizeOverflow)"
          by (auto simp: Let_def fits_new run small wrote_new split: if_splits)
      qed (rule pass; assumption)+
      with False rd2 show ?thesis by (simp only: Let_def if_False) blast
    qed
    have "answered (cb rd a (a + length cri) True sig c) (fst run) (\<lambda>s c1.
        let csr = signed_der p cri s
        in if length buf < n + 46 + length csr then fst run = Err (InternalError CertSizeOverflow)
           else \<exists>rd a. rd a (a + length csr) = Ok csr \<and>
             answered (cb rd a (a + length csr) False (signature_zeroize s) c1) (fst run) (\<lambda>s2 c2.
               let cms = cms_der p sid csr s2
               in if base + length cms \<le> length buf
                  then run = (Ok (of_nat (length cms)), (c2, splice buf base cms))
                  else fst run = Err (InternalError CertSizeOverflow)))"
      (is "answered ?answer _ ?P")
    proof -
      have "?P s c1" if "?answer = (Ok s, c1)" "signature_wf s" for s c1
        using second [OF that(2,1)] .
      moreover have "fst run = Err (Crypto e)" if "?answer = (Err e, c1)" for e c1
        using o that by (intro pass) (auto simp: cms_outcome_def)
      moreover have "fst run = Panic" if "?answer = (Panic, c1)" for c1
        using o that by (intro pass) (auto simp: cms_outcome_def)
      moreover have "fst run = Diverge" if "?answer = (Diverge, c1)" for c1
        using o that by (intro pass) (auto simp: cms_outcome_def)
      ultimately show ?thesis
        unfolding answered_def by (cases ?answer; cases "fst ?answer") auto
    qed
    moreover have "\<not> length buf < n + 50 + length cri" using f by (simp add: n_def)
    ultimately show ?thesis using rd by (simp only: if_False) blast
  qed
qed

end
