(* ===== verification/X509_Content.thy ===== *)
theory X509_Content
  imports X509_State
begin

text \<open>
  Reading the messages back: a signed structure splits into payload, algorithm and signature, the
  MultiTcbInfo extension determines the measurements of the path it was made from, and the bytes written
  are the DER of the extensions exactly when the SVNs on the path add up to what the code counts.
\<close>

section \<open>Signed structures\<close>

primrec signature_content :: "Signature \<Rightarrow> bytes" where
  "signature_content (SigEcdsa s) = 0 # ecdsa_sig_der s"
| "signature_content (SigMldsa s) = 0 # s"

lemma signature_bits_content: "signature_bits_der s = der 0x03 (signature_content s)"
  by (cases s) simp_all

lemma length_der_ge: "length c \<le> length (der t c)"
  by (simp add: der_def)

lemma signed_der_reads:
  assumes "signature_wf s" "length body \<le> 49000"
  shows "\<exists>c. read_tlv (signed_der p (der 0x30 body) s) = Some (0x30, c, []) \<and>
    read_items c = Some [(0x30, body), (0x30, oid_der (sig_oid p)), (0x03, signature_content s)]"
proof -
  let ?items = "[(0x30, body), (0x30, oid_der (sig_oid p)), (0x03, signature_content s)]"
  have sig: "length (oid_der (sig_oid p)) < 2 ^ 32" "length (signature_content s) < 2 ^ 32"
    using signature_width [OF assms(1), of p] length_der_ge [of "oid_der (sig_oid p)" "0x30"]
      length_der_ge [of "signature_content s" "0x03"]
    by (simp_all add: sig_alg_der_def signature_bits_content)
  have c: "der_items ?items = der 0x30 body @ sig_alg_der p @ signature_bits_der s"
    by (simp add: der_items_def sig_alg_der_def signature_bits_content)
  have "length (der_items ?items) < 2 ^ 32"
    using signature_width [OF assms(1), of p] assms(2) length_der_le [of "0x30" body] unfolding c by simp
  then have "read_tlv (signed_der p (der 0x30 body) s) = Some (0x30, der_items ?items, [])"
    using read_tlv_der [of "der_items ?items" "0x30" "[]"] by (simp add: signed_der_def c)
  moreover have "read_items (der_items ?items) = Some ?items"
    by (rule read_items_der_items) (use sig assms(2) in simp)
  ultimately show ?thesis by blast
qed

section \<open>The measurements in a certificate\<close>

lemma be_octets_rev: "be_octets k n = rev (map (\<lambda>i. of_nat (n div 256 ^ i)) [0..<k])"
proof (induction k arbitrary: n)
  case (Suc k)
  have "[0..<Suc k] = 0 # map Suc [0..<k]" by (simp add: upt_conv_Cons map_Suc_upt del: upt_Suc)
  with Suc show ?case by (simp add: div_mult2_eq comp_def del: upt_Suc)
qed simp

lemma u64_be_octets: "u64_to_be_bytes w = be_octets 8 (unat w)"
proof -
  have "(ucast (drop_bit (8 * i) w) :: u8) = of_nat (unat w div 256 ^ i)" for i
  proof -
    have "(ucast (drop_bit (8 * i) w) :: u8) = of_nat (unat (drop_bit (8 * i) w))" by simp
    also have "unat (drop_bit (8 * i) w) = unat w div 256 ^ i"
      by (simp only: unat_drop_bit_eq) (simp add: drop_bit_eq_div power_mult)
    finally show ?thesis .
  qed
  then show ?thesis
    by (simp add: u64_to_be_bytes_def u64_to_le_bytes_def be_octets_rev del: upt_rec_numeral)
qed

lemma u64_int_content_inject:
  assumes "int_content (u64_to_be_bytes a) = int_content (u64_to_be_bytes b)"
  shows "a = b"
proof -
  have "octets_val (u64_to_be_bytes w) = unat w" for w :: u64
    unfolding u64_be_octets using unsigned_less [of w] by (intro octets_val_be_octets) simp
  then show ?thesis using int_content_value assms by (metis word_unat_eq_iff)
qed

lemma read_small_items:
  assumes "length (der_items xs) < 300"
  shows "read_items (der_items xs) = Some xs"
proof (rule read_items_der_items, rule ballI)
  have le: "length (snd y) \<le> length (der_items ys)" if "y \<in> set ys" for y and ys :: "(u8 \<times> bytes) list"
    using that
  proof (induction ys)
    case (Cons z ys)
    then show ?case using length_der_ge [of "snd z" "fst z"]
      by (cases "y = z") (auto simp: der_items_def split_beta)
  qed simp
  fix y assume "y \<in> set xs"
  with le [of y xs] assms show "case y of (t, c) \<Rightarrow> length c < 2 ^ 32" by (simp add: split_beta)
qed

text \<open>The fields of a TcbInfo, in the order in which they stand in it.\<close>

lemma tcb_info_items:
  assumes "tci_wf n"
  shows "\<exists>c. tcb_info_der p r n = der 0x30 c \<and> length c < 300 \<and> read_items c = Some
    ([(0x83, int_content (u64_to_be_bytes (ucast (tci_svn n)))), (0xA6, fwid_der p (tci_current n)),
      (0x88, u32_to_be_bytes (tci_locality n)), (0x89, u32_to_le_bytes (tci_type n))] @
     (if r then [(0xAB, der 0x30 (der 0x81 (int_content (u64_to_be_bytes INTEGRITY_REGISTER_NUM)) @
        der 0xA2 (fwid_der p (tci_cumulative n))))] else []))"
proof -
  let ?reg = "der 0x30 (der 0x81 (int_content (u64_to_be_bytes INTEGRITY_REGISTER_NUM)) @
        der 0xA2 (fwid_der p (tci_cumulative n)))"
  let ?items = "[(0x83, int_content (u64_to_be_bytes (ucast (tci_svn n)))), (0xA6, fwid_der p (tci_current n)),
      (0x88, u32_to_be_bytes (tci_locality n)), (0x89, u32_to_le_bytes (tci_type n))] @
     (if r then [(0xAB, ?reg)] else [])"
  have t: "tcb_info_der p r n = der 0x30 (der_items ?items)"
    by (simp add: tcb_info_der_def registers_der_def der_items_def)
  have len: "length (der_items ?items) < 300"
    using between_tcb_info [OF assms, of p r] length_der_ge [of "der_items ?items" "0x30"]
    unfolding t by (simp add: between_def)
  from read_small_items [OF len] have "read_items (der_items ?items) = Some ?items" .
  with t len show ?thesis by blast
qed

lemma fwid_inject:
  assumes "fwid_der p a = fwid_der p b" "length a = TCI_SIZE" "length b = TCI_SIZE"
  shows "a = b"
  using assms by (simp add: fwid_der_def der_def)

text \<open>A TcbInfo determines what was measured.\<close>

lemma tcb_info_inject:
  assumes eq: "tcb_info_der p r n = tcb_info_der p r' m" and wf: "tci_wf n" "tci_wf m"
  shows "r = r' \<and> tci_svn n = tci_svn m \<and> tci_current n = tci_current m \<and> tci_locality n = tci_locality m \<and>
    tci_type n = tci_type m \<and> (r \<longrightarrow> tci_cumulative n = tci_cumulative m)"
proof -
  obtain c where c: "tcb_info_der p r n = der 0x30 c" "length c < 300" "read_items c = Some
    ([(0x83, int_content (u64_to_be_bytes (ucast (tci_svn n)))), (0xA6, fwid_der p (tci_current n)),
      (0x88, u32_to_be_bytes (tci_locality n)), (0x89, u32_to_le_bytes (tci_type n))] @
     (if r then [(0xAB, der 0x30 (der 0x81 (int_content (u64_to_be_bytes INTEGRITY_REGISTER_NUM)) @
        der 0xA2 (fwid_der p (tci_cumulative n))))] else []))"
    using tcb_info_items [OF wf(1)] by blast
  obtain d where d: "tcb_info_der p r' m = der 0x30 d" "length d < 300" "read_items d = Some
    ([(0x83, int_content (u64_to_be_bytes (ucast (tci_svn m)))), (0xA6, fwid_der p (tci_current m)),
      (0x88, u32_to_be_bytes (tci_locality m)), (0x89, u32_to_le_bytes (tci_type m))] @
     (if r' then [(0xAB, der 0x30 (der 0x81 (int_content (u64_to_be_bytes INTEGRITY_REGISTER_NUM)) @
        der 0xA2 (fwid_der p (tci_cumulative m))))] else []))"
    using tcb_info_items [OF wf(2)] by blast
  have "c = d" using der_inject [of "0x30" c "[]" "0x30" d "[]"] eq c(1,2) d(1,2) by simp
  with c(3) d(3) have f: "r = r'" "int_content (u64_to_be_bytes (ucast (tci_svn n))) =
      int_content (u64_to_be_bytes (ucast (tci_svn m)))"
    "fwid_der p (tci_current n) = fwid_der p (tci_current m)"
    "u32_to_be_bytes (tci_locality n) = u32_to_be_bytes (tci_locality m)"
    "u32_to_le_bytes (tci_type n) = u32_to_le_bytes (tci_type m)"
    "r \<longrightarrow> der 0x30 (der 0x81 (int_content (u64_to_be_bytes INTEGRITY_REGISTER_NUM)) @
        der 0xA2 (fwid_der p (tci_cumulative n))) =
      der 0x30 (der 0x81 (int_content (u64_to_be_bytes INTEGRITY_REGISTER_NUM)) @
        der 0xA2 (fwid_der p (tci_cumulative m)))"
    by (auto split: if_splits)
  have "(ucast (tci_svn n) :: u64) = ucast (tci_svn m)" by (rule u64_int_content_inject [OF f(2)])
  then have "unat (ucast (tci_svn n) :: u64) = unat (ucast (tci_svn m) :: u64)" by simp
  moreover have "take_bit 64 (unat a) = unat a" for a :: u32
    using unsigned_less [of a, where 'a = nat] by (intro take_bit_nat_eq_self) simp
  ultimately have "tci_svn n = tci_svn m"
    by (simp add: word_unat_eq_iff unsigned_ucast_eq)
  moreover have "tci_current n = tci_current m" using fwid_inject [OF f(3)] wf by (simp add: tci_wf_def)
  moreover have "r \<longrightarrow> tci_cumulative n = tci_cumulative m"
  proof
    assume r: r
    have "length (fwid_der p (tci_cumulative n)) = length (fwid_der p (tci_cumulative m))"
      using wf by (simp add: tci_wf_def size_simps get_fwid_size_def)
    with f(6) r have "fwid_der p (tci_cumulative n) = fwid_der p (tci_cumulative m)"
      by (simp add: der_def)
    then show "tci_cumulative n = tci_cumulative m" using wf by (simp add: tci_wf_def fwid_inject)
  qed
  ultimately show ?thesis using f(1,4,5) by (simp add: u32_to_be_bytes_def)
qed

lemma tcb_infos_items:
  assumes "\<forall>c \<in> set cs. tci_wf (tci c)"
  shows "\<exists>xs. concat (map (\<lambda>c. tcb_info_der p r (tci c)) cs) = der_items (map (Pair 0x30) xs) \<and>
    length xs = length cs \<and>
    (\<forall>i < length cs. length (xs ! i) < 300 \<and> tcb_info_der p r (tci (cs ! i)) = der 0x30 (xs ! i))"
  using assms
proof (induction cs)
  case (Cons c cs)
  then obtain xs where xs: "concat (map (\<lambda>c. tcb_info_der p r (tci c)) cs) = der_items (map (Pair 0x30) xs)"
    "length xs = length cs"
    "\<forall>i < length cs. length (xs ! i) < 300 \<and> tcb_info_der p r (tci (cs ! i)) = der 0x30 (xs ! i)"
    by auto
  obtain x where x: "tcb_info_der p r (tci c) = der 0x30 x" "length x < 300"
    using tcb_info_items [of "tci c" p r] Cons.prems by auto
  show ?case
    using xs x by (intro exI [of _ "x # xs"]) (auto simp: der_items_def nth_Cons split: nat.split)
qed (simp add: der_items_def)

text \<open>
  The SEQUENCE OF TcbInfo determines the measurements of the whole path, node by node, whatever its
  length field says.
\<close>

definition node_measured :: "Context \<Rightarrow> u32 \<times> bytes \<times> u32 \<times> u32" where
  "node_measured c = (tci_svn (tci c), tci_current (tci c), tci_locality (tci c), tci_type (tci c))"

lemma tcb_infos_inject:
  assumes eq: "tcb_infos p r cs = tcb_infos p r' ds" and ne: "cs \<noteq> []"
    and wf: "\<forall>c \<in> set cs. tci_wf (tci c)" "\<forall>d \<in> set ds. tci_wf (tci d)"
  shows "r = r' \<and> map node_measured cs = map node_measured ds \<and>
    (r \<longrightarrow> map (\<lambda>c. tci_cumulative (tci c)) cs = map (\<lambda>c. tci_cumulative (tci c)) ds)"
proof -
  obtain xs where xs: "tcb_infos p r cs = der_items (map (Pair 0x30) xs)" "length xs = length cs"
    "\<forall>i < length cs. length (xs ! i) < 300 \<and> tcb_info_der p r (tci (cs ! i)) = der 0x30 (xs ! i)"
    using tcb_infos_items [OF wf(1)] by blast
  obtain ys where ys: "tcb_infos p r' ds = der_items (map (Pair 0x30) ys)" "length ys = length ds"
    "\<forall>i < length ds. length (ys ! i) < 300 \<and> tcb_info_der p r' (tci (ds ! i)) = der 0x30 (ys ! i)"
    using tcb_infos_items [OF wf(2)] by blast
  have rd: "read_items (der_items (map (Pair 0x30) zs)) = Some (map (Pair 0x30) zs)"
    if "\<forall>i < length zs. length (zs ! i) < 300" for zs :: "bytes list"
    using that by (intro read_items_der_items) (force simp: in_set_conv_nth)
  have "map (Pair (0x30 :: u8)) xs = map (Pair 0x30) ys"
    using rd [of xs] rd [of ys] xs ys eq by simp
  then have "xs = ys" by (simp add: inj_map_eq_map inj_on_def)
  with xs ys have n: "length cs = length ds"
    and e: "\<And>i. i < length cs \<Longrightarrow> tcb_info_der p r (tci (cs ! i)) = tcb_info_der p r' (tci (ds ! i))"
    by simp_all
  have same: "r = r' \<and> node_measured (cs ! i) = node_measured (ds ! i) \<and>
      (r \<longrightarrow> tci_cumulative (tci (cs ! i)) = tci_cumulative (tci (ds ! i)))" if "i < length cs" for i
    using tcb_info_inject [OF e [OF that]] wf n that by (auto simp: node_measured_def)
  from ne same [of 0] have "r = r'" by auto
  with n same show ?thesis by (auto intro!: nth_equalityI)
qed

section \<open>SVNs of different lengths\<close>

lemma der_len_inject: "der_len m @ r = der_len n @ r' \<Longrightarrow> m < 2 ^ 32 \<Longrightarrow> n < 2 ^ 32 \<Longrightarrow> m = n \<and> r = r'"
  by (drule arg_cong [where f = read_len]) (simp only: read_len_der_len option.inject prod.inject)

lemma tlv_exact: "n = length c \<Longrightarrow> tlv t n c = der t c"
  by (simp add: tlv_def der_def)

lemma tlv_inject: "tlv t n c = der t c' \<Longrightarrow> n < 2 ^ 32 \<Longrightarrow> length c' < 2 ^ 32 \<Longrightarrow> n = length c' \<and> c = c'"
  using der_len_inject [of n c "length c'" c'] by (simp add: tlv_def der_def)

lemma multi_header_exact: "multi_header crit (length infos) @ infos =
    ext_der MULTI_TCBINFO_OID (crit_byte crit) (der 0x30 infos)"
proof -
  have l: "length (oid_der MULTI_TCBINFO_OID @ crit_der (crit_byte crit) @ der 0x04 (der 0x30 infos)) =
      get_extension_size MULTI_TCBINFO_OID crit (get_structure_size (length infos) True) False"
    by (simp add: get_extension_size_def size_simps crit_der_def crit_byte_def BOOL_SIZE_def)
  show ?thesis
    unfolding ext_der_def der_def [of "0x30" "_ @ _"] l multi_header_def Let_def
    by (simp add: der_def [of "0x04"] der_def [of "0x30"] get_structure_size_def)
qed

text \<open>With a wrong count no reader gets an element from these bytes and nothing besides.\<close>

lemma wrong_count_malformed:
  assumes n: "n \<noteq> length infos" "n < 2 ^ 20" "length infos < 2 ^ 20"
  shows "multi_header crit n @ infos \<noteq> ext_der MULTI_TCBINFO_OID (crit_byte crit) content"
proof
  let ?m = "get_structure_size n True" and ?o = "oid_der MULTI_TCBINFO_OID @ crit_der (crit_byte crit)"
  assume eq: "multi_header crit n @ infos = ext_der MULTI_TCBINFO_OID (crit_byte crit) content"
  have w: "get_size_width k \<le> 5" for k by (simp add: get_size_width_def)
  have hd: "length (multi_header crit n) < 100"
    using w [of n] w [of ?m] w [of "get_extension_size MULTI_TCBINFO_OID crit ?m False"]
    by (simp add: multi_header_def Let_def size_simps MULTI_TCBINFO_OID_def get_structure_size_def
        get_size_width_def crit_der_def crit_byte_def split: if_splits)
  have l: "length (ext_der MULTI_TCBINFO_OID (crit_byte crit) content) < 2 ^ 21"
    using eq [symmetric] hd n by simp
  then have inner: "length (?o @ der 0x04 content) < 2 ^ 21"
    using length_der_ge [of "?o @ der 0x04 content" "0x30"] by (simp add: ext_der_def)
  then have c: "length content < 2 ^ 21" using length_der_ge [of content "0x04"] by simp
  have ext: "get_extension_size MULTI_TCBINFO_OID crit ?m False < 2 ^ 32"
    using n by (simp add: get_extension_size_def get_structure_size_def get_size_width_def
        MULTI_TCBINFO_OID_def BOOL_SIZE_def)
  have "ext_der MULTI_TCBINFO_OID (crit_byte crit) content =
    0x30 # der_len (length (?o @ der 0x04 content)) @ (?o @ der 0x04 content)"
    by (simp only: ext_der_def der_def [of "0x30"] append_assoc)
  moreover have "multi_header crit n @ infos =
    0x30 # der_len (get_extension_size MULTI_TCBINFO_OID crit ?m False) @
      (?o @ 0x04 # der_len ?m @ 0x30 # der_len n @ infos)"
    by (simp only: multi_header_def Let_def append_assoc append_Cons)
  ultimately have "der_len (get_extension_size MULTI_TCBINFO_OID crit ?m False) @
      (?o @ 0x04 # der_len ?m @ 0x30 # der_len n @ infos) =
    der_len (length (?o @ der 0x04 content)) @ (?o @ der 0x04 content)"
    using eq by (simp only: list.inject simp_thms)
  moreover have "length (?o @ der 0x04 content) < 2 ^ 32" using inner by (rule order.strict_trans) simp
  ultimately have "?o @ 0x04 # der_len ?m @ 0x30 # der_len n @ infos = ?o @ der 0x04 content"
    using ext by (blast dest: der_len_inject)
  then have "der_len ?m @ (0x30 # der_len n @ infos) = der_len (length content) @ content"
    by (simp add: der_def)
  then have "?m = length content" "0x30 # der_len n @ infos = content"
    using der_len_inject [of ?m _ "length content" content] c n
    by (simp_all add: get_structure_size_def get_size_width_def)
  then show False using n by (auto simp: get_structure_size_def)
qed

text \<open>The lengths determine one another: of two such elements the counts and the contents are the same.\<close>

lemma multi_header_inject:
  assumes eq: "multi_header crit n @ infos = multi_header crit m @ infos'" and "n < 2 ^ 20" "m < 2 ^ 20"
  shows "n = m \<and> infos = infos'"
proof -
  have small: "get_structure_size k True < 2 ^ 32"
    "get_extension_size MULTI_TCBINFO_OID crit (get_structure_size k True) False < 2 ^ 32" if "k < 2 ^ 20" for k
    using that by (simp_all add: get_extension_size_def get_structure_size_def get_size_width_def
        MULTI_TCBINFO_OID_def BOOL_SIZE_def)
  note sn = small [OF assms(2)] and sm = small [OF assms(3)]
  have "oid_der MULTI_TCBINFO_OID @ crit_der (crit_byte crit) @ 0x04 # der_len (get_structure_size n True) @
      0x30 # der_len n @ infos =
    oid_der MULTI_TCBINFO_OID @ crit_der (crit_byte crit) @ 0x04 # der_len (get_structure_size m True) @
      0x30 # der_len m @ infos'"
    using eq der_len_inject [OF _ sn(2) sm(2)] by (auto simp: multi_header_def Let_def)
  then have "der_len n @ infos = der_len m @ infos'"
    using der_len_inject [OF _ sn(1) sm(1)] by auto
  from der_len_inject [OF this] assms show ?thesis by simp
qed

section \<open>The bytes written and the DER\<close>

text \<open>
  As long as all sizes are below 2^20, which they are for every state: what the encoder writes is the DER of
  the extension, of all extensions and of the attributes exactly when the count is exact.
\<close>

lemma multi_written_iff:
  assumes "counted_infos p md cs < 2 ^ 20" "length (tcb_infos p (md_supports_recursive md) cs) < 2 ^ 20"
  shows "(\<exists>content. multi_tcb_info_written p crit md cs = ext_der MULTI_TCBINFO_OID (crit_byte crit) content) \<longleftrightarrow>
      exact_count p md cs"
    and "multi_tcb_info_written p crit md cs = multi_tcb_info_der p crit md cs \<longleftrightarrow> exact_count p md cs"
proof -
  have "multi_tcb_info_written p crit md cs = multi_tcb_info_der p crit md cs" if "exact_count p md cs"
    using that multi_header_exact [of crit "tcb_infos p (md_supports_recursive md) cs"]
    by (simp add: exact_count_def multi_tcb_info_written_def multi_tcb_info_der_def)
  moreover have "multi_tcb_info_written p crit md cs \<noteq> ext_der MULTI_TCBINFO_OID (crit_byte crit) content"
    if "\<not> exact_count p md cs" for content
    using that wrong_count_malformed [OF _ assms] by (simp add: exact_count_def multi_tcb_info_written_def)
  ultimately show "(\<exists>content. multi_tcb_info_written p crit md cs = ext_der MULTI_TCBINFO_OID (crit_byte crit) content) \<longleftrightarrow>
      exact_count p md cs"
    and "multi_tcb_info_written p crit md cs = multi_tcb_info_der p crit md cs \<longleftrightarrow> exact_count p md cs"
    unfolding multi_tcb_info_der_def by blast+
qed

lemma counted_extensions_exact:
  "exact_count p md cs \<Longrightarrow> counted_extensions p crit md x cs = length (extension_list p crit md x cs)"
  by (simp add: exact_count_def counted_extensions_def extension_list_def multi_tcb_info_der_def size_simps crit_byte_def)

lemma counted_small:
  assumes "counted_infos p md cs < 2 ^ 20" "length (tcb_infos p (md_supports_recursive md) cs) < 2 ^ 20"
    "length (other_extensions crit md x) < 2 ^ 20"
  shows "counted_extensions p crit md x cs < 2 ^ 22" "length (extension_list p crit md x cs) < 2 ^ 22"
proof -
  have ext: "get_extension_size MULTI_TCBINFO_OID b (get_structure_size k True) True < 2 ^ 21" if "k < 2 ^ 20" for k b
    using that by (simp add: get_extension_size_def get_structure_size_def get_size_width_def
        MULTI_TCBINFO_OID_def BOOL_SIZE_def)
  have "length (multi_tcb_info_der p crit md cs) < 2 ^ 21"
    using ext [OF assms(2)] by (simp add: multi_tcb_info_der_def size_simps)
  with assms(3) show "length (extension_list p crit md x cs) < 2 ^ 22" by (simp add: extension_list_def)
  show "counted_extensions p crit md x cs < 2 ^ 22"
    using ext [OF assms(1), of crit] assms(3) by (simp add: counted_extensions_def)
qed

lemma extensions_written_iff:
  assumes small: "counted_infos p md cs < 2 ^ 20" "length (tcb_infos p (md_supports_recursive md) cs) < 2 ^ 20"
    "length (other_extensions crit md x) < 2 ^ 20"
  shows "extensions_written p crit md x cs = extensions_der p crit md x cs \<longleftrightarrow> exact_count p md cs"
proof
  assume e: "exact_count p md cs"
  then show "extensions_written p crit md x cs = extensions_der p crit md x cs"
    using multi_written_iff(2) [OF small(1,2), of crit] counted_extensions_exact [OF e, of crit x]
    by (simp add: extensions_written_def extensions_der_def extension_list_def Let_def tlv_exact length_der)
next
  assume eq: "extensions_written p crit md x cs = extensions_der p crit md x cs"
  let ?n = "counted_extensions p crit md x cs" and ?l = "extension_list p crit md x cs"
  let ?w = "multi_tcb_info_written p crit md cs @ other_extensions crit md x"
  note l = counted_small [OF small]
  then have seq: "get_structure_size ?n True < 2 ^ 32" "length (der 0x30 ?l) < 2 ^ 32"
    by (simp_all add: length_der get_structure_size_def get_size_width_def)
  have "tlv 0x30 ?n ?w = der 0x30 ?l"
  proof (cases x)
    case True
    with eq have "tlv 0xA3 (get_structure_size ?n True) (tlv 0x30 ?n ?w) = der 0xA3 (der 0x30 ?l)"
      by (simp add: extensions_written_def extensions_der_def Let_def)
    with tlv_inject [OF _ seq] show ?thesis by blast
  qed (use eq in \<open>simp add: extensions_written_def extensions_der_def Let_def\<close>)
  then have "?w = ?l" using tlv_inject [of "0x30" ?n ?w ?l] l by simp
  then show "exact_count p md cs" using multi_written_iff(2) [OF small(1,2)] by (simp add: extension_list_def)
qed

lemma attributes_written_iff:
  assumes small: "counted_infos p md cs < 2 ^ 20" "length (tcb_infos p (md_supports_recursive md) cs) < 2 ^ 20"
    "length (other_extensions crit md False) < 2 ^ 20"
  shows "attributes_written p crit md cs = attributes_der p crit md cs \<longleftrightarrow> exact_count p md cs"
proof
  let ?n = "counted_extensions p crit md False cs" and ?l = "extension_list p crit md False cs"
  let ?o = "oid_der EXTENSION_REQUEST_OID"
  have outer: "get_structure_size ?n True = length (extensions_der p crit md False cs)" if "exact_count p md cs"
    using counted_extensions_exact [OF that, of crit False] by (simp add: extensions_der_def length_der)
  show "attributes_written p crit md cs = attributes_der p crit md cs" if e: "exact_count p md cs"
  proof -
    let ?e = "extensions_der p crit md False cs"
    show ?thesis
      using extensions_written_iff [OF small] e
      by (simp add: attributes_written_def attributes_der_def outer [OF e] Let_def tlv_exact length_der)
  qed
  assume eq: "attributes_written p crit md cs = attributes_der p crit md cs"
  let ?w = "extensions_written p crit md False cs" and ?e = "extensions_der p crit md False cs"
  let ?k = "get_structure_size ?n True"
  have l: "?k < 2 ^ 23" "length ?e < 2 ^ 23"
    using counted_small [OF small] by (simp_all add: extensions_der_def length_der get_structure_size_def get_size_width_def)
  have o: "length ?o < 30" by (simp add: size_simps EXTENSION_REQUEST_OID_def get_structure_size_def get_size_width_def)
  have m: "length ?o + get_structure_size ?k True < 2 ^ 24" "length (?o @ der 0x31 ?e) < 2 ^ 24"
    using l o by (simp_all add: length_der get_structure_size_def get_size_width_def)
  have big: "get_structure_size (length ?o + get_structure_size ?k True) True < 2 ^ 32" "length (der 0x30 (?o @ der 0x31 ?e)) < 2 ^ 32"
    using m length_der_le [of "0x30" "?o @ der 0x31 ?e"] by (simp_all add: get_structure_size_def [of "_ + _"] get_size_width_def)
  have "tlv 0x30 (length ?o + get_structure_size ?k True) (?o @ tlv 0x31 ?k ?w) = der 0x30 (?o @ der 0x31 ?e)"
    using tlv_inject [OF eq [unfolded attributes_written_def attributes_der_def Let_def] big] by blast
  then have "?o @ tlv 0x31 ?k ?w = ?o @ der 0x31 ?e"
    using tlv_inject [of "0x30" "length ?o + get_structure_size ?k True" "?o @ tlv 0x31 ?k ?w" "?o @ der 0x31 ?e"] m by simp
  then have "?w = ?e" using tlv_inject [of "0x31" ?k ?w ?e] l by simp
  then show "exact_count p md cs" using extensions_written_iff [OF small] by simp
qed

section \<open>The certificates of a state\<close>

lemma infos_small:
  assumes "state_inv st" "up_path (contexts st) is" "state_nodes st (hd is) md"
  shows "counted_infos p md (path_contexts st is) < 2 ^ 20"
    and "length (tcb_infos p (md_supports_recursive md) (path_contexts st is)) < 2 ^ 20"
proof -
  have wf: "\<forall>c \<in> set (path_contexts st is). tci_wf (tci c)"
    using state_inv_tci_wf [OF assms(1)] up_path_lt [OF assms(1,2)] by (auto simp: path_contexts_def)
  have n: "length is \<le> 64" using up_path_length [OF assms(2)] forest_length [OF state_inv_forest [OF assms(1)]] by simp
  have "length is * svn_len (contexts st ! 0) \<le> 64 * 5" by (rule mult_le_mono [OF n svn_len_le])
  moreover have "length (tcb_infos p (md_supports_recursive md) (path_contexts st is)) \<le> 16000"
    using between_nodes [OF wf, of p "md_supports_recursive md"] n by (simp add: between_def path_contexts_def)
  ultimately show "counted_infos p md (path_contexts st is) < 2 ^ 20"
    "length (tcb_infos p (md_supports_recursive md) (path_contexts st is)) < 2 ^ 20"
    using counted_infos_state(1) [OF assms, of p] by simp_all
qed

lemma multi_written_state:
  assumes "state_inv st" "up_path (contexts st) is" "state_nodes st (hd is) md"
  shows "writes d (encode_multi_tcb_info p crit md) (multi_tcb_info_written p crit md (path_contexts st is))"
    and "(\<exists>content. multi_tcb_info_written p crit md (path_contexts st is) =
      ext_der MULTI_TCBINFO_OID (crit_byte crit) content) \<longleftrightarrow> svns_add_up st is"
  using writes_multi_tcb_info [OF node_path_state [OF assms], of d p crit]
    multi_written_iff(1) [OF infos_small [OF assms], of p crit] counted_infos_state(2) [OF assms, of p]
  by (simp_all add: path_contexts_def)

lemma other_extensions_small:
  assumes "md_wf md"
  shows "length (other_extensions crit md x) < 2 ^ 20"
  using between_extensions [where cs = "[]" and md = md and p = P256Sha256 and crit = crit and x = x] assms
  by (auto simp: between_def extensions_written_def tlv_def Let_def split: if_splits)

lemma written_of_state:
  assumes "cert_inputs st is md name pk"
  shows "extensions_written p crit md x (path_contexts st is) = extensions_der p crit md x (path_contexts st is) \<longleftrightarrow>
      svns_add_up st is"
    and "attributes_written p crit md (path_contexts st is) = attributes_der p crit md (path_contexts st is) \<longleftrightarrow>
      svns_add_up st is"
proof -
  have inp: "state_inv st" "up_path (contexts st) is" "state_nodes st (hd is) md" and md: "md_wf md"
    using assms by (simp_all add: cert_inputs_def)
  note small = infos_small [OF inp, of p] other_extensions_small [OF md]
  show "extensions_written p crit md x (path_contexts st is) = extensions_der p crit md x (path_contexts st is) \<longleftrightarrow>
      svns_add_up st is"
    using extensions_written_iff [OF small] counted_infos_state(2) [OF inp, of p] by simp
  show "attributes_written p crit md (path_contexts st is) = attributes_der p crit md (path_contexts st is) \<longleftrightarrow>
      svns_add_up st is"
    using attributes_written_iff [OF small] counted_infos_state(2) [OF inp, of p] by simp
qed

end
