(* ===== verification/X509_Read.thy ===== *)
theory X509_Read
  imports X509_Content
begin

text \<open>
  What a DER reader finds in the buffer after the encoder has run: the elements of a certificate and of
  its TBSCertificate, and the measurements in the MultiTcbInfo extension.
\<close>

section \<open>The elements of a TBSCertificate\<close>

definition name_content :: "Name \<Rightarrow> bytes" where
  "name_content n = attribute_der RDN_COMMON_NAME_OID (name_cn n) @ attribute_der RDN_SERIALNUMBER_OID (name_serial n)"

primrec key_content :: "DpeProfile \<Rightarrow> PubKey \<Rightarrow> bytes" where
  "key_content p (PubEcdsa k) = ec_pub_alg_der (curve_oid k) @ der 0x03 (0 # 0x04 # pub_x k @ pub_y k)"
| "key_content p (PubMldsa k) = sig_alg_der p @ der 0x03 (0 # k)"

definition tbs_items ::
  "DpeProfile \<Rightarrow> bool \<Rightarrow> bytes \<Rightarrow> bytes \<Rightarrow> Name \<Rightarrow> PubKey \<Rightarrow> MeasurementData \<Rightarrow> CertValidity \<Rightarrow>
     Context list \<Rightarrow> (u8 \<times> bytes) list" where
  "tbs_items p crit sn issuer name pk md v cs =
     [(0xA0, der_integer (u64_to_be_bytes X509_V3)), (0x02, int_content sn), (0x30, oid_der (sig_oid p)),
      (0x30, issuer), (0x30, der 0x18 (not_before v) @ der 0x18 (not_after v)), (0x30, name_content name),
      (0x30, key_content p pk), (0xA3, der 0x30 (extension_list p crit md True cs))]"

lemma tbs_body_items:
  "extensions_written p crit md True cs = extensions_der p crit md True cs \<Longrightarrow>
     tbs_body p crit sn (der 0x30 issuer) name pk md v cs = der_items (tbs_items p crit sn issuer name pk md v cs)"
  by (cases pk) (simp_all add: tbs_body_def der_items_def tbs_items_def version_der_def der_integer_def
      sig_alg_der_def validity_der_def rdn_der_def name_content_def extensions_der_def Let_def)

lemma der_items_part: "(t, c) \<in> set xs \<Longrightarrow> length c \<le> length (der_items xs)"
  using length_der_ge [of c t] by (induction xs) (auto simp: der_items_def)

lemma read_items_small: "length (der_items xs) < 2 ^ 32 \<Longrightarrow> read_items (der_items xs) = Some xs"
  by (rule read_items_der_items) (auto dest: der_items_part)

text \<open>
  The finished certificate, taken apart: into what was signed, the algorithm and the signature, whatever the
  SVNs are, and further into the elements of the TBSCertificate where they add up.
\<close>

definition certificate_parts :: "DpeProfile \<Rightarrow> bytes \<Rightarrow> Signature \<Rightarrow> bytes \<Rightarrow> bool" where
  "certificate_parts p tbs s cert \<longleftrightarrow>
     (\<exists>c body. tbs = der 0x30 body \<and> read_tlv cert = Some (0x30, c, []) \<and>
       read_items c = Some [(0x30, body), (0x30, oid_der (sig_oid p)), (0x03, signature_content s)])"

definition certificate_reads ::
  "DpeProfile \<Rightarrow> (u8 \<times> bytes) list \<Rightarrow> Signature \<Rightarrow> bytes \<Rightarrow> bool" where
  "certificate_reads p items s cert \<longleftrightarrow>
     (\<exists>c body. read_tlv cert = Some (0x30, c, []) \<and>
       read_items c = Some [(0x30, body), (0x30, oid_der (sig_oid p)), (0x03, signature_content s)] \<and>
       read_items body = Some items)"

lemma signed_tbs_reads:
  assumes "cert_inputs st is md name pk" "length (der 0x30 issuer) \<le> MAX_ISSUER_NAME_SIZE"
    and "length (not_before v) \<le> MAX_VALIDITY_SIZE" "length (not_after v) \<le> MAX_VALIDITY_SIZE"
    and "signature_wf s"
  shows "certificate_parts p (cert_tbs st is p crit (der 0x30 issuer) name pk md v) s
      (signed_der p (cert_tbs st is p crit (der 0x30 issuer) name pk md v) s)"
    and "svns_add_up st is \<Longrightarrow>
      certificate_reads p (tbs_items p crit (take 20 (ds_bytes (name_serial name))) issuer name pk md v (path_contexts st is)) s
        (signed_der p (cert_tbs st is p crit (der 0x30 issuer) name pk md v) s)"
proof -
  let ?body = "tbs_body p crit (take 20 (ds_bytes (name_serial name))) (der 0x30 issuer) name pk md v (path_contexts st is)"
  have wf: "md_wf md" "name_wf name" "pub_key_wf pk" using assms(1) by (simp_all add: cert_inputs_def)
  have b: "length ?body \<le> 40000"
    using tbs_bounds [OF cert_inputs_facts(3,4) [OF assms(1)] wf serial_number(2) [OF wf(2)] assms(2-4)]
    by (simp add: between_def)
  from signed_der_reads [OF assms(5), of ?body p] b obtain c where
    "read_tlv (signed_der p (der 0x30 ?body) s) = Some (0x30, c, [])"
    "read_items c = Some [(0x30, ?body), (0x30, oid_der (sig_oid p)), (0x03, signature_content s)]" by auto
  note c = this
  then show "certificate_parts p (cert_tbs st is p crit (der 0x30 issuer) name pk md v) s
      (signed_der p (cert_tbs st is p crit (der 0x30 issuer) name pk md v) s)"
    unfolding certificate_parts_def cert_tbs_def tbs_der_def by blast
  assume "svns_add_up st is"
  then have "?body = der_items (tbs_items p crit (take 20 (ds_bytes (name_serial name))) issuer name pk md v (path_contexts st is))"
    using written_of_state(1) [OF assms(1)] by (intro tbs_body_items) simp
  then have "read_items ?body = Some (tbs_items p crit (take 20 (ds_bytes (name_serial name))) issuer name pk md v (path_contexts st is))"
    using read_items_small b by simp
  with c show "certificate_reads p (tbs_items p crit (take 20 (ds_bytes (name_serial name))) issuer name pk md v
      (path_contexts st is)) s (signed_der p (cert_tbs st is p crit (der 0x30 issuer) name pk md v) s)"
    unfolding certificate_reads_def cert_tbs_def tbs_der_def by blast
qed

text \<open>
  A run of the encoder that succeeds, with a callback that returns signatures of the right lengths: the
  range of the buffer that the result counts is a certificate that reads back.
\<close>

lemma certificate_run_reads:
  fixes c c' :: 'c and cb :: "'c sign_cb"
  assumes inp: "cert_inputs st is md name pk" "length (der 0x30 issuer) \<le> MAX_ISSUER_NAME_SIZE"
    and v: "length (not_before v) \<le> MAX_VALIDITY_SIZE" "length (not_after v) \<le> MAX_VALIDITY_SIZE"
    and buf: "length buf \<le> USIZE_MAX"
    and cb: "\<And>rd a z f s c c'. cb rd a z f sig c = (Ok s, c') \<Longrightarrow> signature_wf s"
    and run: "generate_cert_or_csr (CertArgs (der 0x30 issuer) v) p crit name pk md cb base sig (c, buf) =
      (Ok n, (c', buf'))"
  shows "\<exists>rd s. rd 4 (4 + length (cert_tbs st is p crit (der 0x30 issuer) name pk md v)) =
      Ok (cert_tbs st is p crit (der 0x30 issuer) name pk md v) \<and>
    cb rd 4 (4 + length (cert_tbs st is p crit (der 0x30 issuer) name pk md v)) False sig c = (Ok s, c') \<and>
    length buf' = length buf \<and> take base buf' = take base buf \<and>
    drop (base + unat n) buf' = drop (base + unat n) buf \<and>
    certificate_parts p (cert_tbs st is p crit (der 0x30 issuer) name pk md v) s (take (unat n) (drop base buf')) \<and>
    (svns_add_up st is \<longrightarrow>
      certificate_reads p (tbs_items p crit (take 20 (ds_bytes (name_serial name))) issuer name pk md v (path_contexts st is)) s
        (take (unat n) (drop base buf')))"
proof -
  let ?tbs = "cert_tbs st is p crit (der 0x30 issuer) name pk md v"
  note g = generate_certificate [OF inp v buf, where p = p and crit = crit and base = base and cb = cb
      and sig = sig and c = c, unfolded run fst_conv snd_conv]
  have "\<not> length buf < base + 4 + length ?tbs" using g by (auto split: if_splits)
  with g obtain rd where rd: "rd 4 (4 + length ?tbs) = Ok ?tbs"
    and a: "answered (cb rd 4 (4 + length ?tbs) False sig c) (Ok n) (\<lambda>s c''.
      let cert = signed_der p ?tbs s
      in if base + length cert \<le> length buf
         then (Ok n, (c', buf')) = (Ok (of_nat (length cert)) :: (DpeErrorCode, u32) outcome, (c'', splice buf base cert))
         else Ok n = (Err (InternalError CertSizeOverflow) :: (DpeErrorCode, u32) outcome))"
    by (simp only: if_False) blast
  from a obtain s where s: "cb rd 4 (4 + length ?tbs) False sig c = (Ok s, c')" "signature_wf s"
    "base + length (signed_der p ?tbs s) \<le> length buf" "n = of_nat (length (signed_der p ?tbs s))"
    "buf' = splice buf base (signed_der p ?tbs s)"
    using cb by (auto simp: answered_def Let_def split: prod.splits outcome.splits if_splits)
  let ?cert = "signed_der p ?tbs s"
  have wf: "md_wf md" "name_wf name" "pub_key_wf pk" using inp(1) by (simp_all add: cert_inputs_def)
  have "length ?tbs \<le> 50000"
    using tbs_bounds [OF cert_inputs_facts(3,4) [OF inp(1)] wf serial_number(2) [OF wf(2)] inp(2) v, of p crit]
      length_der_le [of "0x30" "tbs_body p crit (take 20 (ds_bytes (name_serial name))) (der 0x30 issuer) name pk md v (path_contexts st is)"]
    by (simp add: between_def cert_tbs_def tbs_der_def)
  then have n: "unat n = length ?cert"
    using signed_der_small [OF s(2), of ?tbs p] s(4) by (simp add: unsigned_of_nat take_bit_nat_eq_self)
  have "take (unat n) (drop base buf') = ?cert" "length buf' = length buf" "take base buf' = take base buf"
    "drop (base + unat n) buf' = drop (base + unat n) buf"
    using s(3,5) n by (simp_all add: splice_def)
  then show ?thesis
    using rd s(1) signed_tbs_reads [OF inp v s(2), of p crit] by (intro exI conjI) auto
qed

section \<open>The measurements of the path\<close>

lemma writes_run:
  assumes "writes d m bs" "ready d w" "m w = (Ok n, w')"
  shows "n = length bs" "wrote w bs w'"
  using assms by (auto elim!: writesD)

lemma written_bytes:
  assumes "writes d m bs" "ready d w" "m w = (Ok n, w')" "fits w n"
  shows "n = length bs"
    and "offset_read_range slice_read_range (cw_base w) (cw_offset w) (cw_offset w + n) (cw_certificate w') = Ok bs"
proof -
  show n: "n = length bs" by (rule writes_run [OF assms(1-3)])
  have w: "wrote w bs w'" by (rule writes_run [OF assms(1-3)])
  have "length (cw_certificate w) \<le> USIZE_MAX" using assms(2) by (simp add: ready_def)
  from read_wrote [OF w _ _ this, of 0 n] n assms(4) w
  show "offset_read_range slice_read_range (cw_base w) (cw_offset w) (cw_offset w + n) (cw_certificate w') = Ok bs"
    by (simp add: wrote_def)
qed

text \<open>
  Two runs of the encoder of the MultiTcbInfo extension, in two states: when they write the same bytes, the two
  paths have the same measurements.
\<close>

lemma multi_tcb_info_runs:
  assumes s: "cert_inputs s is md name pk" "encode_multi_tcb_info p crit md w = (Ok n, u)" "ready 0 w" "fits w n"
    and t: "cert_inputs t js md' name' pk'" "encode_multi_tcb_info p crit md' w' = (Ok n', u')" "ready 0 w'" "fits w' n'"
    and eq: "offset_read_range slice_read_range (cw_base w) (cw_offset w) (cw_offset w + n) (cw_certificate u) =
      offset_read_range slice_read_range (cw_base w') (cw_offset w') (cw_offset w' + n') (cw_certificate u')"
  shows "md_supports_recursive md = md_supports_recursive md' \<and>
    map (\<lambda>i. node_measured (contexts s ! i)) is = map (\<lambda>j. node_measured (contexts t ! j)) js \<and>
    (md_supports_recursive md \<longrightarrow>
      map (\<lambda>i. tci_cumulative (tci (contexts s ! i))) is = map (\<lambda>j. tci_cumulative (tci (contexts t ! j))) js)"
proof -
  note sf = cert_inputs_facts [OF s(1)] and tf = cert_inputs_facts [OF t(1)]
  have si: "state_inv s" "up_path (contexts s) is" "state_nodes s (hd is) md"
    and ti: "state_inv t" "up_path (contexts t) js" "state_nodes t (hd js) md'"
    using s(1) t(1) by (simp_all add: cert_inputs_def)
  have "multi_tcb_info_written p crit md (path_contexts s is) = multi_tcb_info_written p crit md' (path_contexts t js)"
    using written_bytes(2) [OF writes_multi_tcb_info [OF sf(1)] s(3,2,4)]
      written_bytes(2) [OF writes_multi_tcb_info [OF tf(1)] t(3,2,4)] eq by simp
  from multi_header_inject [OF this [unfolded multi_tcb_info_written_def] infos_small(1) [OF si] infos_small(1) [OF ti]]
  have infos: "tcb_infos p (md_supports_recursive md) (path_contexts s is) =
    tcb_infos p (md_supports_recursive md') (path_contexts t js)" by blast
  have "path_contexts s is \<noteq> []" using sf(1) by (simp add: node_path_def)
  from tcb_infos_inject [OF infos this sf(3) tf(3)]
  show ?thesis by (simp add: path_contexts_def rev_map [symmetric] comp_def)
qed

section \<open>Single elements\<close>

lemma integer_written:
  assumes "ready 0 w" "encode_integer i True w = (Ok n, w')" "fits w n"
  shows "\<exists>bs c. offset_read_range slice_read_range (cw_base w) (cw_offset w) (cw_offset w + n)
      (cw_certificate w') = Ok bs \<and> read_tlv bs = Some (0x02, c, []) \<and> octets_val c = unat i \<and>
    c \<noteq> [] \<and> unat (hd c) < 128 \<and> (\<nexists>b r. c = 0 # b # r \<and> unat b < 128)"
proof -
  let ?bs = "u64_to_be_bytes i"
  have v: "octets_val (int_content ?bs) = unat i"
    using unsigned_less [of i, where 'a = nat] by (simp add: int_content_value u64_be_octets octets_val_be_octets)
  have ne: "?bs \<noteq> []" by (simp add: u64_be_octets be_octets_rev)
  have "length (int_content ?bs) < 2 ^ 32" using length_int_content [of ?bs] by simp
  from read_tlv_der [OF this, of "0x02" "[]"]
  have "read_tlv (der_integer ?bs) = Some (0x02, int_content ?bs, [])" by (simp add: der_integer_def)
  then show ?thesis
    using written_bytes(2) [OF writes_encode_integer(1) assms] v int_content_minimal [OF ne]
    by (intro exI [of _ "der_integer ?bs"] exI [of _ "int_content ?bs"]) (auto simp: linorder_not_less [symmetric])
qed

text \<open>The size computed for the extensions and the bytes written differ by what the SVNs differ.\<close>

lemma extensions_size_exact:
  assumes "cert_inputs st is md name pk" "ready 0 w" "encode_extensions p crit md is_x509 w = (Ok n, w')"
  shows "\<exists>size. get_extensions_size p crit md True is_x509 is_x509 = Ok size \<and>
    n + length is * svn_len (contexts st ! 0) = size + (\<Sum>i\<leftarrow>is. svn_len (contexts st ! i))"
proof -
  let ?cs = "path_contexts st is" let ?e = "counted_extensions p crit md is_x509 ?cs"
  let ?infos = "tcb_infos p (md_supports_recursive md) ?cs"
  note f = cert_inputs_facts [OF assms(1)]
  have inp: "state_inv st" "up_path (contexts st) is" "state_nodes st (hd is) md"
    using assms(1) by (simp_all add: cert_inputs_def)
  let ?size = "get_structure_size (get_structure_size ?e is_x509) True"
  have "get_extensions_size p crit md True is_x509 is_x509 =
      bindO (get_extensions_size p crit md False False is_x509)
        (\<lambda>sz. Ok (get_structure_size (get_structure_size sz is_x509) True))"
    by (cases "get_multi_tcb_info_size p crit md True") (simp_all add: get_extensions_size_def Let_def, simp add: get_structure_size_def)
  then have size: "get_extensions_size p crit md True is_x509 is_x509 = Ok ?size"
    by (simp add: extensions_size [OF f(1)] get_structure_size_def [of _ False])
  have n: "n = length (extensions_written p crit md is_x509 ?cs)"
    by (rule writes_run [OF writes_extensions [OF f(1)] assms(2,3)])
  define E where "E = get_extension_size MULTI_TCBINFO_OID crit (get_structure_size (counted_infos p md ?cs) True) True"
  have "length (multi_header crit (counted_infos p md ?cs)) + counted_infos p md ?cs = E"
    by (simp add: E_def multi_header_def Let_def size_simps get_extension_size_def get_structure_size_def crit_der_def
        crit_byte_def BOOL_SIZE_def der_def)
  moreover have "?e = E + length (other_extensions crit md is_x509)" by (simp add: counted_extensions_def E_def)
  ultimately have "n + counted_infos p md ?cs = ?size + length ?infos"
    unfolding n by (cases is_x509)
      (simp_all add: extensions_written_def tlv_def multi_tcb_info_written_def Let_def get_structure_size_def)
  with counted_infos_state(1) [OF inp, of p] size show ?thesis by auto
qed

lemma backtrack_exact:
  assumes "length (cw_certificate w) \<le> USIZE_MAX" "length bts \<le> MAX_BACKTRACKS" "cw_saved_offset w = None"
    and "cw_backtracks w = bts @ [(a, a + get_size_width n)]"
    and "cw_base w + a + get_size_width n \<le> length (cw_certificate w)"
  shows "backtrack_and_encode_size [n] w =
    (Ok (get_size_width n),
     w\<lparr>cw_certificate := splice (cw_certificate w) (cw_base w + a) (der_len n), cw_backtracks := bts\<rparr>)"
proof -
  from backtrack_one [OF assms(1-4)] obtain v where v: "backtrack_and_encode_size [n] w =
      (Ok (get_size_width n), v\<lparr>cw_offset := cw_offset w, cw_saved_offset := None\<rparr>)"
    "wrote (w\<lparr>cw_offset := a\<rparr>) (der_len n) v" "cw_backtracks v = bts" "cw_csr_range v = cw_csr_range w" .
  then have "cw_base v = cw_base w"
    "cw_certificate v = splice (cw_certificate w) (cw_base w + a) (der_len n)"
    using assms(5) by (simp_all add: wrote_def fits_def)
  with v assms(3) show ?thesis by (simp add: CertWriter.equality)
qed

end
