(* ===== verification/Demo_X509.thy ===== *)
theory Demo_X509
  imports Demo X509_Read
begin

text \<open>
  Concrete inputs of the encoder: the measurement data of the child in the tree of \<open>Demo\<close>, a name, a key
  and a validity, and a callback that answers every call with one signature.
\<close>

definition demo_md_with :: "u32 \<Rightarrow> MeasurementData" where
  "demo_md_with svn = \<lparr>md_tci_nodes = \<lparr>tn_start_idx = 1, tn_contexts = contexts (demo_tree_with svn)\<rparr>,
     md_label = replicate 48 4, md_is_ca = False, md_supports_recursive = True,
     md_subject_key_identifier = replicate 20 5, md_authority_key_identifier = replicate 20 6,
     md_subject_alt_name = None\<rparr>"

abbreviation demo_md :: MeasurementData where
  "demo_md \<equiv> demo_md_with 0"

definition demo_name :: Name where
  "demo_name = \<lparr>name_cn = PrintableString (replicate 8 65), name_serial = PrintableString (replicate 64 48)\<rparr>"

definition demo_key :: PubKey where
  "demo_key = PubEcdsa (EcdsaPub384 (replicate 48 1) (replicate 48 2))"

definition demo_validity :: CertValidity where
  "demo_validity = \<lparr>not_before = replicate 15 50, not_after = replicate 15 57\<rparr>"

definition demo_signature :: Signature where
  "demo_signature = SigEcdsa (EcdsaSig384 (replicate 48 1) (replicate 48 2))"

definition demo_sign_cb :: "nat sign_cb" where
  "demo_sign_cb rd a z derived out calls = (Ok demo_signature, Suc calls)"

lemma demo_signature_wf [simp]: "signature_wf demo_signature"
  by (simp add: demo_signature_def)

lemma demo_inputs_wf: "md_wf (demo_md_with svn)" "name_wf demo_name" "pub_key_wf demo_key"
  "length (not_before demo_validity) \<le> MAX_VALIDITY_SIZE" "length (not_after demo_validity) \<le> MAX_VALIDITY_SIZE"
  by (simp_all add: md_wf_def demo_md_with_def name_wf_def demo_name_def directory_string_len_def demo_key_def
      demo_validity_def platform_sizes)

lemma demo_path: "up_path (contexts (demo_tree_with svn)) [1, 0]"
  by (simp add: demo_tree_contexts demo_child_with_def live_node_def valid_parent_idx_def init_args_def
      child_args_def Let_def ROOT_INDEX_def)

lemma demo_nodes: "state_nodes (demo_tree_with svn) (hd [1, 0]) (demo_md_with svn)"
  by (simp add: state_nodes_def demo_md_with_def)

lemma svn_lengths: "length (int_content (u64_to_be_bytes 0)) = 1" "length (int_content (u64_to_be_bytes 128)) = 2"
  "length (int_content (u64_to_be_bytes 7)) = 1" "length (int_content (u64_to_be_bytes 8)) = 1"
  by code_simp+

lemma demo_svn_len:
  "svn_len (contexts (demo_tree_with svn) ! 0) = 1"
  "svn_len (contexts (demo_tree_with svn) ! Suc 0) = length (int_content (u64_to_be_bytes (ucast svn)))"
proof -
  have "tci_svn (tci (contexts (demo_tree_with svn) ! 0)) = 0"
    by (simp add: demo_tree_contexts init_args_def activate_def TciNodeData_new_def context_flag_defs)
  then show "svn_len (contexts (demo_tree_with svn) ! 0) = 1" by (simp add: svn_len_def svn_lengths)
  show "svn_len (contexts (demo_tree_with svn) ! Suc 0) = length (int_content (u64_to_be_bytes (ucast svn)))"
    by (simp add: svn_len_def demo_tree_contexts demo_child_with_def)
qed

lemma demo_cert_inputs_with:
  "cert_inputs (demo_tree_with svn) [1, 0] (demo_md_with svn) demo_name demo_key"
  unfolding cert_inputs_def
  using demo_states_inv(2) demo_path demo_nodes demo_inputs_wf by simp

lemmas demo_cert_inputs = demo_cert_inputs_with [of 0]

lemma demo_svns_add_up:
  "svns_add_up (demo_tree_with svn) [1, 0] \<longleftrightarrow> length (int_content (u64_to_be_bytes (ucast svn))) = 1"
  by (simp add: svns_add_up_def demo_svn_len)

lemma demo_tree_adds_up: "svns_add_up demo_tree [1, 0]"
  unfolding demo_svns_add_up by (simp add: svn_lengths)

definition demo_buffer :: bytes where
  "demo_buffer = replicate 70000 0"

definition demo_tbs :: bytes where
  "demo_tbs = cert_tbs demo_tree [1, 0] P384Sha384 True (der 0x30 [4]) demo_name demo_key demo_md demo_validity"

definition demo_cert_run :: "(DpeErrorCode, u32) outcome \<times> nat \<times> bytes" where
  "demo_cert_run = generate_cert_or_csr (CertArgs (der 0x30 [4]) demo_validity) P384Sha384 True demo_name demo_key demo_md
     demo_sign_cb 20 demo_signature (0, demo_buffer)"

definition demo_sid :: SignerIdentifier where
  "demo_sid = SubjectKeyIdentifier (replicate 20 7)"

definition demo_csr_run :: "(DpeErrorCode, u32) outcome \<times> nat \<times> bytes" where
  "demo_csr_run = generate_cert_or_csr (CsrArgs demo_sid) P384Sha384 True demo_name demo_key demo_md
     demo_sign_cb 20 demo_signature (0, demo_buffer)"

definition demo_cri :: bytes where
  "demo_cri = request_info_der P384Sha384 True demo_key demo_name demo_md (path_contexts demo_tree [1, 0])"

lemma demo_buffer_length: "length demo_buffer = 70000"
  by (simp add: demo_buffer_def)

lemma demo_buffer_small: "length demo_buffer \<le> USIZE_MAX"
  by (simp add: demo_buffer_def USIZE_MAX_def)

definition demo_writer :: CertWriter where
  "demo_writer = CertWriter_new demo_buffer 20"

lemma demo_writer_ready: "ready 1 demo_writer" "fits demo_writer n = (20 + n \<le> 70000)"
  unfolding demo_writer_def
  by (rule ready_new [OF demo_buffer_small], simp add: MAX_BACKTRACKS_def) (simp add: fits_new demo_buffer_def)

text \<open>The certificate fits: the encoder returns its length.\<close>

definition demo_cert_size :: u32 where
  "demo_cert_size = of_nat (length (signed_der P384Sha384 demo_tbs demo_signature))"

lemma demo_issuer_small: "length (der 0x30 [4]) \<le> MAX_ISSUER_NAME_SIZE"
  by (simp add: platform_sizes der_def get_size_width_def)

lemma demo_tbs_small: "length demo_tbs \<le> 50000"
proof -
  let ?body = "tbs_body P384Sha384 True (take 20 (ds_bytes (name_serial demo_name))) (der 0x30 [4]) demo_name demo_key demo_md
    demo_validity (path_contexts demo_tree [1, 0])"
  have "length ?body \<le> 40000"
    using tbs_bounds [OF cert_inputs_facts(3,4) [OF demo_cert_inputs] demo_inputs_wf(1-3)
        serial_number(2) [OF demo_inputs_wf(2)] demo_issuer_small demo_inputs_wf(4,5), of P384Sha384 True]
    by (simp add: between_def)
  then show ?thesis
    using length_der_le [of "0x30" ?body] by (simp add: demo_tbs_def cert_tbs_def tbs_der_def)
qed

lemma demo_cert_run_Ok: "demo_cert_run = (Ok demo_cert_size, (fst (snd demo_cert_run), snd (snd demo_cert_run)))"
proof -
  have small: "length (signed_der P384Sha384 demo_tbs demo_signature) \<le> 59000"
    using signed_der_small [OF demo_signature_wf demo_tbs_small, of P384Sha384] .
  have "fst demo_cert_run = Ok demo_cert_size"
    using generate_certificate [OF demo_cert_inputs demo_issuer_small demo_inputs_wf(4,5) demo_buffer_small, where p = P384Sha384
        and crit = True and base = 20 and cb = demo_sign_cb and sig = demo_signature and c = 0,
        folded demo_tbs_def demo_cert_run_def] small demo_tbs_small
    by (auto simp: demo_buffer_def answered_def demo_sign_cb_def Let_def demo_cert_size_def
        dest: arg_cong [where f = fst])
  then show ?thesis by (simp add: prod_eq_iff)
qed

lemma demo_writer_writes:
  assumes "writes 0 m bs" "length bs \<le> 60000"
  shows "\<exists>w'. m demo_writer = (Ok (length bs), w') \<and> fits demo_writer (length bs)"
  using assms(1) ready_less [OF demo_writer_ready(1), of 0]
  by (cases rule: writesD) (use assms(2) in \<open>simp_all add: demo_writer_ready(2)\<close>)

lemma demo_multi_run:
  "\<exists>n u. encode_multi_tcb_info P384Sha384 True (demo_md_with svn) demo_writer = (Ok n, u) \<and> fits demo_writer n"
proof -
  note f = cert_inputs_facts [OF demo_cert_inputs_with [of svn]]
  have "length (multi_tcb_info_written P384Sha384 True (demo_md_with svn) (path_contexts (demo_tree_with svn) [1, 0]))
      \<le> 60000"
    using between_extension_parts(1) [OF f(3) demo_inputs_wf(1) [of svn], of P384Sha384 True] f(4)
    by (simp add: between_def)
  from demo_writer_writes [OF writes_multi_tcb_info [OF f(1)] this] show ?thesis by blast
qed

lemma demo_extensions_run:
  "\<exists>n w'. encode_extensions P384Sha384 True (demo_md_with svn) True demo_writer = (Ok n, w')"
proof -
  note f = cert_inputs_facts [OF demo_cert_inputs_with [of svn]]
  have "length (extensions_written P384Sha384 True (demo_md_with svn) True (path_contexts (demo_tree_with svn) [1, 0]))
      \<le> 60000"
    using between_extensions [OF f(3,4) demo_inputs_wf(1) [of svn], of P384Sha384 True True]
    by (simp add: between_def)
  from demo_writer_writes [OF writes_extensions [OF f(1)] this] show ?thesis by blast
qed

lemma demo_integer_run: "encode_integer 200 True demo_writer = (Ok 4, snd (encode_integer 200 True demo_writer))"
proof -
  have "length (der_integer (u64_to_be_bytes 200)) = 4" by code_simp
  with demo_writer_writes [OF writes_encode_integer(1), of 200] show ?thesis by auto
qed

lemma demo_writer_start [simp]: "cw_base demo_writer = 20" "cw_offset demo_writer = 0"
  by (simp_all add: demo_writer_def CertWriter_new_def)

end
