(* ===== verification/Calm.thy ===== *)
theory Calm
  imports X509_Sign State_Logic Validation
begin

text \<open>
  Actions that always answer: \<open>calm m\<close> says that \<open>m\<close> neither panics nor runs on, from whatever state.
  Rules for the ways of composing actions, and the encoder of certificates as a first client: it is calm
  with every calm sign callback.
\<close>

definition calm :: "('s, 'e, 'a) act \<Rightarrow> bool" where
  "calm m \<longleftrightarrow> (\<forall>s. settled (fst (m s)))"

named_theorems calm_intros \<open>actions that always answer\<close>

lemma calmD: "calm m \<Longrightarrow> m s = (r, s') \<Longrightarrow> settled r"
  unfolding calm_def by (metis fst_conv)

lemma calmI: "(\<And>s r s'. m s = (r, s') \<Longrightarrow> settled r) \<Longrightarrow> calm m"
  unfolding calm_def by (metis prod.collapse)

lemma calm_ret [calm_intros]: "calm (ret x)"
  by (simp add: calm_def)

lemma calm_throw [calm_intros]: "calm (throw e)"
  by (simp add: calm_def)

lemma calm_lift [calm_intros]: "settled r \<Longrightarrow> calm (lift r)"
  by (simp add: calm_def)

lemma calm_gets [calm_intros]: "calm (gets f)"
  by (simp add: calm_def gets_def)

lemma calm_modify [calm_intros]: "calm (modify f)"
  by (simp add: calm_def modify_def)

lemma calm_guard [calm_intros]: "calm (guard_err c e)"
  by (simp add: calm_def guard_err_def)

lemma calm_bind [calm_intros]:
  assumes "calm m" "\<And>x. calm (f x)"
  shows "calm (bind m f)"
proof (rule calmI)
  fix s r s' assume "bind m f s = (r, s')"
  then show "settled r"
    by (cases rule: bind_cases) (use assms in \<open>auto dest: calmD\<close>)
qed

lemma calm_if [calm_intros]: "(c \<Longrightarrow> calm m) \<Longrightarrow> (\<not> c \<Longrightarrow> calm n) \<Longrightarrow> calm (if c then m else n)"
  by simp

lemma calm_case_prod [calm_intros]: "(\<And>a b. calm (f a b)) \<Longrightarrow> calm (case x of (a, b) \<Rightarrow> f a b)"
  by (cases x) simp

section \<open>Actions that keep a part of the state as well\<close>

text \<open>\<open>steady P m\<close>: \<open>m\<close> always answers and does not change the part \<open>P\<close> of the state.\<close>

definition steady :: "('s \<Rightarrow> 'x) \<Rightarrow> ('s, 'e, 'a) act \<Rightarrow> bool" where
  "steady P m \<longleftrightarrow> (\<forall>s. settled (fst (m s)) \<and> P (snd (m s)) = P s)"

lemma steadyD: "steady P m \<Longrightarrow> m s = (r, s') \<Longrightarrow> settled r \<and> P s' = P s"
  unfolding steady_def by (metis fst_conv snd_conv)

lemma steadyI: "(\<And>s r s'. m s = (r, s') \<Longrightarrow> settled r \<and> P s' = P s) \<Longrightarrow> steady P m"
  unfolding steady_def by (metis prod.collapse)

lemma steady_calm: "steady P m \<Longrightarrow> calm m"
  by (simp add: steady_def calm_def)

lemma steady_basic [calm_intros]:
  "steady P (ret x)" "steady P (throw e)" "settled r \<Longrightarrow> steady P (lift r)" "steady P (gets f)"
  "steady P (guard_err c e)" "(\<And>s. P (g s) = P s) \<Longrightarrow> steady P (modify g)"
  by (simp_all add: steady_def gets_def guard_err_def modify_def)

lemma steady_bind [calm_intros]:
  assumes "steady P m" "\<And>x. steady P (f x)"
  shows "steady P (bind m f)"
proof (rule steadyI)
  fix s r s' assume "bind m f s = (r, s')"
  then show "settled r \<and> P s' = P s"
    by (cases rule: bind_cases) (auto dest!: steadyD [OF assms(1)] steadyD [OF assms(2)])
qed

lemma steady_if [calm_intros]: "(c \<Longrightarrow> steady P m) \<Longrightarrow> (\<not> c \<Longrightarrow> steady P n) \<Longrightarrow> steady P (if c then m else n)"
  by simp

lemma steady_case_prod [calm_intros]:
  "(\<And>a b. steady P (f a b)) \<Longrightarrow> steady P (case x of (a, b) \<Rightarrow> f a b)"
  by (cases x) simp

section \<open>The encoder\<close>

text \<open>An encoder also keeps the length of the buffer: a write that does not fit is dropped.\<close>

abbreviation buffer_size :: "CertWriter \<Rightarrow> nat" where
  "buffer_size w \<equiv> length (cw_certificate w)"

abbreviation tidy :: "'a enc \<Rightarrow> bool" where
  "tidy \<equiv> steady buffer_size"

lemma length_write_view: "length (snd (offset_write_at slice_write_at base off bs buf)) = length buf"
  by (auto simp: offset_write_at_def split: option.split intro: length_slice_write_at [OF surjective_pairing])

lemma calm_writer [calm_intros]:
  "tidy (push_backtrack n)" "tidy (pop_backtrack n)" "tidy start_backtrack" "tidy end_backtrack"
  "tidy (encode_bytes bs)" "tidy (encode_byte b)" "tidy (encode_tag_field b)" "tidy check_not_truncated"
  by (simp_all add: steady_def push_backtrack_def pop_backtrack_def start_backtrack_def end_backtrack_def
      encode_bytes_def encode_byte_def encode_tag_field_def check_not_truncated_def Let_def split_beta length_write_view
      split: option.split)

lemma calm_all [calm_intros]: "list_all tidy ms \<Longrightarrow> tidy (encode_all ms)"
proof (induction ms)
  case Nil
  show ?case unfolding encode_all.simps by (rule calm_intros)
next
  case (Cons m ms)
  then show ?case unfolding encode_all.simps by (intro calm_intros) simp_all
qed

lemma calm_list [calm_intros]:
  "list_all tidy []"
  "tidy m \<Longrightarrow> list_all tidy ms \<Longrightarrow> list_all tidy (m # ms)"
  "list_all tidy xs \<Longrightarrow> list_all tidy ys \<Longrightarrow> list_all tidy (xs @ ys)"
  "list_all tidy xs \<Longrightarrow> list_all tidy ys \<Longrightarrow> list_all tidy (if c then xs else ys)"
  by simp_all

lemma calm_map [calm_intros]: "(\<And>x. tidy (f x)) \<Longrightarrow> list_all tidy (map f xs)"
  by (simp add: list_all_iff)

lemma calm_size_field [calm_intros]: "tidy (encode_size_field n)"
  unfolding encode_size_field_def Let_def by (intro calm_intros)

lemma calm_backtrack_loop [calm_intros]: "tidy (backtrack_loop ns)"
proof (induction ns)
  case Nil
  show ?case unfolding backtrack_loop.simps by (rule calm_intros)
next
  case (Cons n ns)
  show ?case unfolding backtrack_loop.simps by (intro calm_intros Cons.IH)
qed

lemma calm_backtrack [calm_intros]: "tidy (backtrack_and_encode_size ns)"
  unfolding backtrack_and_encode_size_def by (intro calm_intros)

lemma calm_elements [calm_intros]:
  "tidy (encode_integer_bytes bs t)" "tidy (encode_integer n t)" "tidy (encode_tlv tag bs)" "tidy (encode_oid oid)"
  unfolding encode_integer_def encode_oid_def encode_tlv_def encode_integer_bytes_def Let_def
  by (intro calm_intros)+

lemma calm_rdn_string [calm_intros]: "tidy (encode_rdn_string s)"
  by (cases s) (simp_all add: encode_rdn_string_def calm_intros)

lemma calm_algorithms [calm_intros]:
  "tidy (encode_rdn name)" "tidy (encode_ec_pub_alg_id oid)" "tidy (encode_ecdsa_sig_alg_id p)"
  "tidy (encode_hash_alg_id p)" "tidy (encode_validity v)" "tidy (encode_mldsa_sig_alg_id p)"
  unfolding encode_rdn_def encode_ec_pub_alg_id_def encode_ecdsa_sig_alg_id_def encode_hash_alg_id_def
    encode_validity_def encode_mldsa_sig_alg_id_def Let_def
  by (intro calm_intros)+

lemma calm_keys [calm_intros]:
  "tidy (encode_ecdsa_subject_pubkey_info k oid)" "tidy (encode_ecdsa_signature_bit_string s)"
  "tidy (encode_ecdsa_signature_octet_string s)" "tidy (encode_mldsa_signature_octet_string b)"
  "tidy (encode_mldsa_subject_pubkey_info p b)" "tidy (encode_mldsa_signature_bit_string b)"
  unfolding encode_ecdsa_subject_pubkey_info_def encode_ecdsa_signature_bit_string_def
    encode_ecdsa_signature_octet_string_def encode_mldsa_signature_octet_string_def
    encode_mldsa_subject_pubkey_info_def encode_mldsa_signature_bit_string_def Let_def
  by (intro calm_intros)+

lemma calm_signatures [calm_intros]:
  "tidy (encode_signature_bit_string p s)" "tidy (encode_signature_octet_string p s)"
  unfolding encode_signature_bit_string_def encode_signature_octet_string_def
  by (cases s; simp only: Signature.case; intro calm_intros)+

lemma calm_pub_key [calm_intros]: "tidy (encode_pub_key_info p k)"
  unfolding encode_pub_key_info_def
  by (auto split: PubKey.split EcdsaPubKey.split intro!: calm_intros)

lemma calm_extension_header [calm_intros]: "tidy (encode_extension_header oid crit n)"
  unfolding encode_extension_header_def Let_def
  by (cases crit) (simp_all only: option.case, (intro calm_intros)+)

lemma calm_tcb_info [calm_intros]:
  "tidy (encode_version)" "tidy (encode_fwid p b)" "tidy (encode_integrity_registers p n)" "tidy (encode_tcb_info p r n)"
  unfolding encode_tcb_info_def encode_integrity_registers_def encode_fwid_def encode_version_def Let_def
  by (intro calm_intros)+

section \<open>The nodes of a path\<close>

lemma settled_iter_new: "settled (iter_new i ctxs)"
  using path_loop_total [of ctxs i "[]"] by (auto simp: iter_new_def)

lemma settled_nodes:
  "settled (TciNodes_iter t)" "settled (TciNodes_is_empty t)" "settled (TciNodes_num_nodes t)"
  "settled (TciNodes_first_node t)"
  using settled_iter_new
  by (auto simp: TciNodes_iter_def TciNodes_is_empty_def TciNodes_num_nodes_def TciNodes_first_node_def
      iter_first_node_def intro!: settled_bindO)

lemma settled_next: "iter_next it = (Some x, it') \<Longrightarrow> settled x"
  by (auto simp: iter_next_def iter_get_context_def split: if_splits option.splits outcome.splits)

lemma settled_items: "x \<in> set (iter_items it) \<Longrightarrow> settled x"
proof (induction it rule: iter_items.induct)
  case (1 it)
  obtain y it' where nx: "iter_next it = (y, it')" by force
  show ?case
  proof (cases y)
    case None
    with 1(2) nx show ?thesis by (simp add: iter_items.simps [of it])
  next
    case (Some z)
    with 1(2) nx have "x = z \<or> x \<in> set (iter_items it')" by (simp add: iter_items.simps [of it])
    with 1(1) [OF nx [symmetric] Some] settled_next [of it z it'] nx Some show ?thesis by auto
  qed
qed

lemma calm_nodes: "\<forall>x \<in> set items. settled x \<Longrightarrow> tidy (encode_nodes p r items)"
proof (induction items)
  case Nil
  show ?case unfolding encode_nodes.simps by (rule calm_intros)
next
  case (Cons x xs)
  then show ?case unfolding encode_nodes.simps by (intro calm_intros) simp_all
qed

lemma settled_sizes:
  "settled (get_multi_tcb_info_size p crit md t)" "settled (get_extensions_size p crit md t e x)"
  "settled (get_attribute_size p crit md t)" "settled (get_attributes_size p crit md t)"
  by (auto simp: get_multi_tcb_info_size_def get_extensions_size_def get_attribute_size_def
      get_attributes_size_def Let_def settled_nodes intro!: settled_bindO)

lemma calm_multi_tcb_info [calm_intros]: "tidy (encode_multi_tcb_info p crit md)"
  unfolding encode_multi_tcb_info_def Let_def
  by (intro calm_intros calm_nodes settled_bindO settled_nodes ballI)
    (auto intro!: settled_bindO settled_nodes dest: settled_items)

lemma calm_extension_parts [calm_intros]:
  "tidy (encode_ueid crit md)" "tidy (encode_basic_constraints md)" "tidy (encode_key_usage ca)"
  "tidy (encode_extended_key_usage md)" "tidy (encode_other_name_value b)" "tidy (encode_other_name n)"
  "tidy (encode_key_identifier b)" "tidy (encode_authority_key_identifier_extension md x)"
  "tidy (encode_subject_key_identifier_extension md x)"
  unfolding encode_ueid_def encode_basic_constraints_def encode_key_usage_def encode_extended_key_usage_def
    encode_other_name_value_def encode_other_name_def encode_key_identifier_def
    encode_authority_key_identifier_extension_def encode_subject_key_identifier_extension_def Let_def
  by (intro calm_intros)+

lemma calm_subject_alt_name [calm_intros]: "tidy (encode_subject_alt_name_extension md)"
proof (cases "md_subject_alt_name md")
  case None
  then show ?thesis unfolding encode_subject_alt_name_extension_def by (simp only: option.case) (rule calm_intros)
next
  case (Some n)
  then show ?thesis unfolding encode_subject_alt_name_extension_def Let_def
    by (cases n) (simp_all only: option.case SubjectAltName.case, (intro calm_intros)+)
qed

lemma calm_bodies [calm_intros]:
  "tidy (encode_extensions p crit md x)" "tidy (encode_attributes p crit md)"
  "tidy (encode_certification_request_info p crit pk name md)"
  unfolding encode_extensions_def encode_attributes_def encode_certification_request_info_def
  by (intro calm_intros settled_sizes)+

lemma calm_tbs [calm_intros]: "tidy (encode_tbs p crit sn issuer name pk md v)"
  unfolding encode_tbs_def
  by (cases pk) (simp_all only: PubKey.case, (intro calm_intros)+)

lemma calm_cms_parts [calm_intros]:
  "tidy (encode_issuer_and_serial_number sn issuer)" "tidy (encode_subject_key_identifier ski)"
  unfolding encode_issuer_and_serial_number_def encode_subject_key_identifier_def
  by (intro calm_intros)+

lemma calm_signer [calm_intros]: "tidy (encode_cms_version sid)" "tidy (encode_signer_identifier sid)"
  unfolding encode_cms_version_def encode_signer_identifier_def
  by (cases sid; simp only: SignerIdentifier.case; intro calm_intros)+

lemma calm_signer_info [calm_intros]: "tidy (encode_signer_info p sig sid)"
  unfolding encode_signer_info_def by (intro calm_intros)

section \<open>Signing while encoding\<close>

text \<open>A callback that always answers when it is given a buffer whose reads always answer.\<close>

definition calm_cb :: "'c sign_cb \<Rightarrow> bool" where
  "calm_cb cb \<longleftrightarrow> (\<forall>rd a z derived sig. (\<forall>a z. settled (rd a z)) \<longrightarrow> calm (cb rd a z derived sig))"

abbreviation tidy_signing :: "('c \<times> CertWriter, DpeErrorCode, 'a) act \<Rightarrow> bool" where
  "tidy_signing \<equiv> steady (\<lambda>s. buffer_size (snd s))"

lemma calm_on_writer [calm_intros]: "tidy m \<Longrightarrow> tidy_signing (on_writer m)"
  by (auto simp: steady_def on_writer_def split_beta)

lemma calm_call_sign_cb [calm_intros]:
  assumes "calm_cb cb"
  shows "tidy_signing (call_sign_cb cb a z derived sig)"
proof (rule steadyI)
  fix s r s' assume c: "call_sign_cb cb a z derived sig s = (r, s')"
  have "settled (offset_read_range slice_read_range (cw_base w) a z buf)" for w a z buf
    unfolding offset_read_range_def slice_read_range_def by (intro settled_bindO settled_ok_or)
  then have "calm (cb (\<lambda>a z. offset_read_range slice_read_range (cw_base (snd s)) a z (cw_certificate (snd s)))
      a z derived sig)" by (intro assms [unfolded calm_cb_def, rule_format])
  from this [unfolded calm_def, THEN spec [of _ "fst s"]] c
  show "settled r \<and> buffer_size (snd s') = buffer_size (snd s)"
    by (auto simp: call_sign_cb_def split: prod.splits)
qed

lemma calm_signed_payload [calm_intros]:
  assumes "calm_cb cb"
  shows "tidy_signing (encode_signed_payload p crit cb payload sig)"
  unfolding encode_signed_payload_def Let_def
  by (cases payload) (simp_all only: SignedPayload.case, (intro calm_intros assms)+)

lemma calm_encode_signed [calm_intros]:
  assumes "calm_cb cb"
  shows "tidy_signing (encode_certificate p crit cb sn issuer name pk md v sig)" "tidy_signing (encode_csr p crit cb pk name md sig)"
    and "tidy_signing (encode_encapsulated_content_info p crit cb pk name md sig)"
  unfolding encode_certificate_def encode_encapsulated_content_info_def encode_csr_def Let_def
  by (intro calm_intros assms; simp)+

lemma calm_cms [calm_intros]:
  assumes "calm_cb cb"
  shows "tidy_signing (encode_cms p crit cb pk name md sid sig)"
  unfolding encode_cms_def Let_def by (intro calm_intros assms settled_ok_or)

lemma calm_with_writer [calm_intros]: "tidy_signing m \<Longrightarrow> steady (\<lambda>s. length (snd s)) (with_writer base m)"
  by (auto simp: steady_def with_writer_def CertWriter_new_def split_beta)

text \<open>An encoder that always answers and keeps the length of the buffer, and the one of the code.\<close>

definition calm_gen :: "'c cert_gen \<Rightarrow> bool" where
  "calm_gen gen \<longleftrightarrow> (\<forall>args p crit name pk md cb base sig. calm_cb cb \<longrightarrow> 
     steady (\<lambda>s. length (snd s)) (gen args p crit name pk md cb base sig))"

lemma calm_generate_cert_or_csr: "calm_gen generate_cert_or_csr"
proof (unfold calm_gen_def, intro allI impI)
  fix args p crit name pk md base sig and cb :: "'c sign_cb" assume "calm_cb cb"
  then show "steady (\<lambda>s. length (snd s)) (generate_cert_or_csr args p crit name pk md cb base sig)"
    unfolding generate_cert_or_csr_def u32_try_from_def
    by (cases args) (simp_all only: CertOrCsrArgs.case, (intro calm_intros settled_ok_or; simp)+)
qed

end
