(* ===== verification/No_Panic.thy ===== *)
theory No_Panic
  imports Calm Service
begin

text \<open>
  No request makes the DPE panic or run on. The crypto implementation and the platform are asked for
  two things: that their operations answer, and that a platform that hands out its certificate chain
  makes progress and stays below the 32-bit offsets. In return every handler, \<open>execute\<close> and
  \<open>execute_serialized_command\<close> answer in every state with the invariant, and so does a service of any
  length: indexing a slice, slicing a hexadecimal digest, the recursion over the descendants and the
  loop over the chain included.
\<close>

section \<open>The contracts\<close>

definition readable :: "SignData \<Rightarrow> bool" where
  "readable data \<longleftrightarrow> (\<forall>rd a z. data = SignResponseBuffer rd a z \<longrightarrow> (\<forall>i j. settled (rd i j)))"

locale calm_crypto =
  fixes ops :: "'c crypto_ops"
  assumes calm_rand: "calm (op_rand_bytes ops n)"
    and calm_hasher: "calm (op_hasher ops)" "calm (op_initialize ops)" "calm (op_update ops bs)" "calm (op_finish ops)"
    and calm_cdi: "calm (op_derive_cdi ops dg info)" "calm (op_derive_exported_cdi ops dg info)"
    and calm_key_pair: "calm (op_derive_key_pair ops label info)"
      "calm (op_derive_key_pair_exported ops h label info)"
    and calm_public_key: "calm (op_public_key ops pk)"
    and calm_sign: "readable data \<Longrightarrow> calm (op_sign ops data sig)"
      "readable data \<Longrightarrow> calm (op_sign_with_alias ops data sig)"

text \<open>
  A chunk of at most \<open>MAX_CHUNK_SIZE\<close> bytes can be asked for at every offset; an answer is a
  non-empty piece of a chain whose length bounds its end.
\<close>

locale calm_platform =
  fixes pl :: "'p platform_ops" and chain :: bytes
  assumes calm_issuer: "calm (op_get_issuer_name pl buf)" "calm (op_get_issuer_key_identifier pl buf)"
    and calm_signer_id: "calm (op_get_signer_identifier pl)"
    and calm_vendor: "calm (op_get_vendor_id pl)" "calm (op_get_vendor_sku pl)"
    and calm_locality: "calm (op_get_auto_init_locality pl)"
    and calm_validity: "calm (op_get_cert_validity pl)"
    and calm_san: "calm (op_get_subject_alternative_name pl)"
    and calm_ueid: "calm (op_get_ueid pl)"
    and calm_chunk: "addressable chain \<Longrightarrow> unat sz \<le> MAX_CHUNK_SIZE \<Longrightarrow> length buf = MAX_CHUNK_SIZE \<Longrightarrow>
      calm (get_certificate_chain pl offset sz buf)"
    and progress: "addressable chain \<Longrightarrow> length buf = MAX_CHUNK_SIZE \<Longrightarrow>
      get_certificate_chain pl offset (of_nat MAX_CHUNK_SIZE) buf s = (Ok (n, buf'), s') \<Longrightarrow>
      0 < unat n \<and> unat offset + unat n \<le> length chain"

locale calm_env = calm_crypto "cops d" + calm_platform "pops d" chain
  for d :: "('c, 'p) deps" and chain :: bytes

section \<open>Actions of the handlers\<close>

lemma calm_ask [calm_intros]: "(\<And>st. settled (f st)) \<Longrightarrow> calm (ask f)"
  by (simp add: calm_def)

lemma calm_on_state [calm_intros]: "calm (on_state f)"
  by (simp add: calm_def)

lemma calm_on_crypto [calm_intros]: "calm m \<Longrightarrow> calm (on_crypto m)"
  by (auto simp: calm_def on_crypto_def split_beta)

lemma calm_on_platform [calm_intros]: "calm m \<Longrightarrow> calm (on_platform m)"
  by (auto simp: calm_def on_platform_def split_beta)

lemma calm_on_encoder [calm_intros]: "calm m \<Longrightarrow> calm (on_encoder m)"
  by (auto simp: calm_def on_encoder_def split_beta)

lemma calm_context_slots [calm_intros]: "calm (ctx_at i e)" "calm (set_ctx_or i c e)"
  unfolding set_ctx_or_def ctx_at_def by (intro calm_intros settled_ok_or)+

lemma calm_outputs [calm_intros]: "calm (write_out off bs)" "calm (write_response bs)"
proof -
  show out: "calm (write_out off bs)" for off bs by (rule calmI) (auto dest: write_out_result)
  show "calm (write_response bs)" unfolding write_response_def by (intro calm_intros out)
qed

lemma settled_lookups:
  "settled (get_active_context_pos st h loc)" "settled (get_active_context_and_idx st h loc)"
  by (auto simp: get_active_context_and_idx_def get_active_context_pos_cases
      intro!: settled_bindO split: option.split)

lemma settled_children:
  "settled (children_add_child cs i)" "settled (add_child c i)" "settled (count_contexts st P)"
  by (simp_all add: children_add_child_def add_child_def count_contexts_def)

lemma settled_unique: "settled (tci_type_is_unique_among_children st c ty)"
proof -
  have "settled (tci_type_unique_loop ctxs is ty)" for ctxs "is"
    by (induction "is") (auto intro!: settled_bindO)
  then show ?thesis by (simp add: tci_type_is_unique_among_children_def)
qed

lemma settled_parts:
  "settled (safe_to_make_child flags st i loc)" "settled (ueid_get u)" "settled (mutresp n p rd bs)"
  "settled (TciNodes_new i ctxs)"
  by (auto simp: safe_to_make_child_def ueid_get_def mutresp_def TciNodes_new_def Let_def
      intro!: settled_bindO settled_children settled_nodes)

lemma settled_sign_parts: "settled (sign_parts c)"
  by (cases c) (auto intro!: settled_bindO)

lemma settled_deserialize: "settled (deserialize al p bs)"
  using deserialize_outcome [of al p bs] by (auto simp: request_outcome_def split: outcome.splits)

lemma settled_destroy: "forest (contexts st) \<Longrightarrow> settled (destroy_context h st loc)"
proof (cases "get_active_context_pos st h loc")
  case (Ok i)
  assume "forest (contexts st)"
  from destroy_context_forest [OF this Ok] show ?thesis by fastforce
next
  case (Err e)
  then show ?thesis by (simp add: destroy_context_def get_active_context_and_idx_def)
qed (use settled_lookups(1) [of st h loc] in simp_all)

section \<open>Crypto and platform under their contracts\<close>

context calm_crypto
begin

lemma calm_rand_bytes [calm_intros]: "calm (rand_bytes ops n)"
  unfolding rand_bytes_def by (intro calm_intros calm_rand)

lemma calm_hash_all [calm_intros]: "calm (hash_all ops vals)" "calm (crypto_hash ops bs)"
proof -
  have "calm (update_all ops vals)" for vals
  proof (induction vals)
    case Nil
    show ?case unfolding update_all.simps by (rule calm_intros)
  next
    case (Cons v vs)
    then show ?case unfolding update_all.simps by (intro calm_intros calm_hasher)
  qed
  then show all: "calm (hash_all ops vals)" for vals
    unfolding hash_all_def with_hasher_def by (intro calm_intros calm_hasher)
  show "calm (crypto_hash ops bs)" unfolding crypto_hash_def by (rule all)
qed

lemma calm_derived [calm_intros]:
  "calm (crypto_derive_pub_key ops dg i l di pk)" "calm (derive_exported_cdi ops dg i)"
  "readable data \<Longrightarrow> calm (crypto_sign_with_derived ops dg i l di data sig)"
  unfolding crypto_derive_pub_key_def cdi_derive_pub_key_def derive_exported_cdi_def
    crypto_sign_with_derived_def cdi_sign_with_derived_def
  by (intro calm_intros calm_cdi calm_key_pair calm_public_key calm_sign)+

lemma calm_pubkey_serial:
  "calm (get_pubkey_serial ops pk serial)"
  "get_pubkey_serial ops pk serial s = (Ok serial', s') \<Longrightarrow> length serial' = length serial"
proof -
  have digest: "settled (fst (pubkey_digest ops pk s))" for s
    using calm_hash_all
    by (auto simp: pubkey_digest_def calm_def ecdsa_pub_as_slice_def split: SignatureAlgorithm.split PubKey.split)
  have hex: "(\<exists>out. write_hex_str dg serial = (Ok (), out) \<and> length out = length serial) \<or>
      (\<exists>e out. write_hex_str dg serial = (Err e, out))" for dg
    by (cases dg) (auto simp: write_hex_str_def hex_loop_eq mult.commute [of _ 2])
  show "calm (get_pubkey_serial ops pk serial)"
  proof (unfold calm_def, intro allI)
    fix s
    obtain r s1 where r: "pubkey_digest ops pk s = (r, s1)" by fastforce
    show "settled (fst (get_pubkey_serial ops pk serial s))"
    proof (cases r)
      case (Ok dg)
      from hex [of dg] r Ok show ?thesis by (auto simp: get_pubkey_serial_def bind_def)
    qed (use digest [of s] r in \<open>auto simp: get_pubkey_serial_def bind_def\<close>)
  qed
  assume ok: "get_pubkey_serial ops pk serial s = (Ok serial', s')"
  then obtain dg s1 where "(case write_hex_str dg serial of
          (Ok _, serial') \<Rightarrow> ret serial'
        | (Err e, _) \<Rightarrow> throw e
        | (Panic, _) \<Rightarrow> lift Panic
        | (Diverge, _) \<Rightarrow> lift Diverge) s1 = (Ok serial', s')"
    by (auto simp: get_pubkey_serial_def bind_Ok_iff split: if_splits)
  with hex [of dg] show "length serial' = length serial" by auto
qed

end

context calm_platform
begin

lemma calm_issuer_data [calm_intros]:
  "calm (get_issuer_name pl buf)" "calm (get_issuer_key_identifier pl buf)"
  unfolding get_issuer_name_def get_issuer_key_identifier_def by (intro calm_intros calm_issuer)+

end

section \<open>Answers in a given state\<close>

text \<open>An action that answers in the states given by \<open>st\<close>, as a statement of the logic of the handlers.\<close>

abbreviation answers :: "('c, 'p, 'a) dpe \<Rightarrow> ('a \<Rightarrow> State \<Rightarrow> bool) \<Rightarrow> State \<Rightarrow> bool" where
  "answers m Q st \<equiv> sp m Q (\<lambda>r _. settled r) st"

lemma settled_ending [simp]: "settled (ending r) = settled r"
  by (cases r) simp_all

lemma answers_calm: "keeps dstate m \<Longrightarrow> calm m \<Longrightarrow> (\<And>x. Q x st) \<Longrightarrow> answers m Q st"
  by (rule spI) (auto dest: keepsD calmD)

lemma answers_ask: "settled (f st) \<Longrightarrow> (\<And>x. f st = Ok x \<Longrightarrow> Q x st) \<Longrightarrow> answers (ask f) Q st"
  by (cases "f st") (simp_all add: sp_def)

lemma answers_lift: "settled r \<Longrightarrow> (\<And>x. r = Ok x \<Longrightarrow> Q x st) \<Longrightarrow> answers (lift r) Q st"
  by (cases r) (simp_all add: sp_def)

lemma answers_try: "settled (f st) \<Longrightarrow> (\<And>st'. f st = Ok st' \<Longrightarrow> Q () st') \<Longrightarrow> answers (try_state f) Q st"
  unfolding try_state_def by (intro sp_bind answers_ask sp_on_state)

lemma answersD: "answers m Q (dstate w) \<Longrightarrow> m w = (r, w') \<Longrightarrow> settled r"
  unfolding sp_def by (cases r) fastforce+

lemmas answer_intros = sp_ret sp_throw sp_gets sp_guard sp_on_state sp_bind sp_if sp_case_prod sp_write_out
  sp_write_response sp_ctx_at sp_index_ctx sp_set_ctx sp_set_ctx_or answers_ask answers_lift answers_try

section \<open>The handlers under the contracts\<close>

lemma chunk_length:
  "get_certificate_chain pl offset sz buf s = (Ok (n, buf'), s') \<Longrightarrow> length buf' = length buf"
  by (auto simp: get_certificate_chain_def bind_Ok_iff)

context calm_env
begin

lemma calm_generate [calm_intros]: "calm (generate_new_handle d)"
proof -
  have "calm (new_handle_loop d n)" for n
  proof (induction n)
    case 0
    show ?case unfolding new_handle_loop.simps by (rule calm_intros)
  next
    case (Suc n)
    then show ?case unfolding new_handle_loop.simps by (intro calm_intros) simp_all
  qed
  then show ?thesis by (simp add: generate_new_handle_def)
qed

lemma calm_steps [calm_intros]:
  "calm (roll_onetime_use_handle d c)" "calm (add_tci_measurement d c m loc)" "calm (get_profile d p supp)"
  "calm (hasher_update d bs)" "calm (get_subject_alt_name d)"
proof -
  show "calm (get_subject_alt_name d)"
  proof (rule calmI)
    fix w r w' assume g: "get_subject_alt_name d w = (r, w')"
    obtain x p where x: "op_get_subject_alternative_name (pops d) (platform w) = (x, p)" by fastforce
    with g calmD [OF calm_san x] show "settled r"
      by (cases x) (auto simp: get_subject_alt_name_def split: PlatformError.splits)
  qed
qed (unfold roll_onetime_use_handle_def add_tci_measurement_def get_profile_def hasher_update_def,
    (intro calm_intros calm_vendor calm_hasher)+)

lemma calm_serialize [calm_intros]:
  "calm (serialize_internal_input_info d p supp (replicate INTERNAL_INPUT_INFO_SIZE 0))"
  unfolding serialize_internal_input_info_eq by (intro calm_intros)

lemma calm_hash_nodes: "\<forall>x \<in> set items. settled x \<Longrightarrow> calm (hash_nodes d items a b)"
proof (induction items arbitrary: a b)
  case Nil
  show ?case unfolding hash_nodes.simps by (rule calm_intros)
next
  case (Cons x xs)
  then show ?case unfolding hash_nodes.simps by (intro calm_intros) simp_all
qed

text \<open>Every round of the loop over the chain comes nearer to the end of the chain.\<close>

lemma dice_loop_settled:
  assumes a: "addressable chain"
  shows "length chunk = MAX_CHUNK_SIZE \<Longrightarrow> \<exists>r w'. dice_loop d offset chunk w = Some (r, w') \<and> settled r"
proof (induction "length chain - unat offset" arbitrary: offset chunk w rule: less_induct)
  case less
  have sz: "unat (of_nat MAX_CHUNK_SIZE :: u32) = MAX_CHUNK_SIZE" by simp
  obtain r p where r: "get_certificate_chain (pops d) offset (of_nat MAX_CHUNK_SIZE) chunk (platform w) = (r, p)"
    by fastforce
  have "settled r" using calmD [OF calm_chunk [OF a _ less.prems] r] sz by simp
  then consider (ok) n buf where "r = Ok (n, buf)" | (err) e where "r = Err e"
    by (cases r) auto
  then show ?case
  proof cases
    case ok
    from progress [OF a less.prems r [unfolded ok]]
    have n: "0 < unat n" "unat offset + unat n \<le> length chain" by auto
    have small: "unat offset + unat n < 2 ^ 32" using n a by (simp add: addressable_def)
    then have sum: "unat (offset + n) = unat offset + unat n" by (simp add: unat_word_ariths)
    have buf: "length buf = MAX_CHUNK_SIZE" using chunk_length [OF r [unfolded ok]] less.prems by simp
    let ?w = "w\<lparr>platform := p\<rparr>"
    show ?thesis
    proof (cases "get_range buf 0 (unat n)")
      case None
      with r ok show ?thesis by (subst dice_loop.simps) (simp add: dice_step_def bind_step)
    next
      case (Some bs)
      obtain u w1 where u: "hasher_update d bs ?w = (u, w1)" by fastforce
      have "settled u" by (rule calmD [OF calm_steps(4) u])
      then consider "u = Ok ()" | e where "u = Err e" by (cases u) auto
      then show ?thesis
      proof cases
        case 1
        have nearer: "length chain - unat (offset + n) < length chain - unat offset"
          unfolding sum using n by linarith
        have "dice_step d offset chunk w = (Ok (Some (offset + n, buf)), w1)"
          using r ok Some u 1 small by (simp add: dice_step_def bind_step)
        with less.hyps [OF nearer buf, of w1] show ?thesis by (subst dice_loop.simps) simp
      next
        case 2
        with r ok Some u show ?thesis by (subst dice_loop.simps) (simp add: dice_step_def bind_step)
      qed
    qed
  next
    case err
    with r show ?thesis by (subst dice_loop.simps) (simp add: dice_step_def)
  qed
qed

lemma calm_measurement_hash:
  assumes "addressable chain"
  shows "calm (compute_measurement_hash d p i)"
proof -
  have "calm (hash_dice d)"
  proof (rule calmI)
    fix w r w' assume h: "hash_dice d w = (r, w')"
    from dice_loop_settled [OF assms length_replicate, of 0 0 w] h
    show "settled r" by (auto simp: hash_dice_def)
  qed
  then show ?thesis unfolding compute_measurement_hash_def
    by (intro calm_intros calm_hash_nodes calm_hasher settled_iter_new ballI) (auto dest: settled_items)
qed

section \<open>Certificates\<close>

lemma calm_sign_callback: "calm_cb (cert_sign_cb d args dg exported)"
proof -
  have "readable (SignResponseBuffer rd a z)" if "\<forall>a z. settled (rd a z)" for rd a z
    using that by (simp add: readable_def)
  then show ?thesis
    unfolding calm_cb_def cert_sign_cb_def
    by (cases exported) (simp_all only: option.case, (intro allI impI calm_intros calm_sign calm_key_pair; simp)+)
qed

lemma calm_names [calm_intros]:
  "calm (get_subject_name d t pk (replicate (MAX_HASH_SIZE * 2) 0))"
  "calm (get_subject_key_identifier d pk)" "calm (derive_cert_key d args dg t pk)" "calm (format_args d fmt v sid)"
proof -
  show "calm (get_subject_name d t pk (replicate (MAX_HASH_SIZE * 2) 0))"
  proof (rule calmI)
    fix w r w' assume g: "get_subject_name d t pk (replicate (MAX_HASH_SIZE * 2) 0) w = (r, w')"
    obtain x c where x: "get_pubkey_serial (cops d) pk (replicate (MAX_HASH_SIZE * 2) 0) (crypto w) = (x, c)"
      by fastforce
    show "settled r"
    proof (cases x)
      case (Ok serial)
      from calm_pubkey_serial(2) [OF x [unfolded Ok]] have "\<not> length serial < 64" by (simp add: MAX_HASH_SIZE_def)
      with g x Ok show ?thesis by (auto simp: get_subject_name_def bind_step on_crypto_def)
    qed (use g x calmD [OF calm_pubkey_serial(1) x] in \<open>auto simp: get_subject_name_def bind_def on_crypto_def\<close>)
  qed
  show "calm (get_subject_key_identifier d pk)"
    unfolding get_subject_key_identifier_def Let_def
    by (cases pk) (simp_all only: PubKey.case, (intro calm_intros)+)
  show "calm (derive_cert_key d args dg t pk)"
    unfolding derive_cert_key_def
    by (cases t) (simp_all only: CertificateType.case, (intro calm_intros calm_key_pair calm_public_key)+)
  show "calm (format_args d fmt v sid)"
    unfolding format_args_def
    by (cases fmt) (simp_all only: CertificateFormat.case, (intro calm_intros)+)
qed

lemma calm_create_cert:
  assumes "addressable chain" "calm_gen gen"
  shows "calm (create_dpe_cert_or_csr gen d p args fmt t base out)"
proof -
  have "calm (gen x p crit name pk md (cert_sign_cb d args dg exported) base sig)"
    for x crit name pk md dg exported base sig
    using assms(2) calm_sign_callback unfolding calm_gen_def by (blast intro: steady_calm)
  then show ?thesis
    unfolding create_dpe_cert_or_csr_def get_dpe_measurement_digest_def Let_def
    by (intro calm_intros calm_measurement_hash [OF assms(1)] settled_lookups settled_parts
        calm_signer_id calm_validity)
qed

section \<open>The commands\<close>

lemma calm_commands:
  "calm (init_ctx d p c1 loc)" "calm (rotate_ctx d p c2 loc)" "calm (update_context_measurement d p c3 loc)"
  "calm (get_profile_cmd d p loc)"
  unfolding init_ctx_def rotate_ctx_def update_context_measurement_def get_profile_cmd_def
  by (intro calm_intros settled_ok_or settled_lookups; simp add: settled_lookups)+

lemma calm_get_certificate_chain:
  assumes "addressable chain"
  shows "calm (get_certificate_chain_cmd d p cmd loc)"
proof (rule calmI)
  fix w r w' assume g: "get_certificate_chain_cmd d p cmd loc w = (r, w')"
  show "settled r"
  proof (cases "of_nat MAX_CHUNK_SIZE < g_size cmd")
    case True
    with g show ?thesis by (auto simp: get_certificate_chain_cmd_def bind_def)
  next
    case False
    then have "unat (g_size cmd) \<le> MAX_CHUNK_SIZE" by (simp add: word_less_nat_alt)
    then have "calm (get_certificate_chain (pops d) (g_offset cmd) (g_size cmd) (replicate MAX_CHUNK_SIZE 0))"
      by (intro calm_chunk [OF assms]) simp_all
    then have "calm (bind (on_platform (get_certificate_chain (pops d) (g_offset cmd) (g_size cmd)
             (replicate MAX_CHUNK_SIZE 0))) (\<lambda>(len, cert_chunk).
     write_response (cert_chain_resp_bytes
       \<lparr>gc_hdr = response_hdr p NoError, gc_certificate_size = len,
        gc_certificate_chain = cert_chunk\<rparr>)))" by (intro calm_intros)
    with False g show ?thesis by (auto simp: get_certificate_chain_cmd_def bind_def dest: calmD)
  qed
qed

text \<open>The remaining commands index the context array with what an earlier look-up has found.\<close>

lemma answers_steps:
  "(\<And>h. Q h st) \<Longrightarrow> answers (generate_new_handle d) Q st"
  "(\<And>c'. Q' c' st) \<Longrightarrow> answers (roll_onetime_use_handle d c) Q' st"
  "(\<And>c'. Q' c' st) \<Longrightarrow> answers (add_tci_measurement d c m loc) Q' st"
  by (intro answers_calm keeps_intros calm_intros; assumption)+

lemma answers_destroy: "forest (contexts st) \<Longrightarrow> answers (destroy_ctx d p cmd loc) (\<lambda>_ _. True) st"
  unfolding destroy_ctx_def by (intro answer_intros settled_destroy) simp_all

lemma answers_sign:
  assumes "addressable chain"
  shows "answers (sign_cmd d p cmd loc) (\<lambda>_ _. True) st"
proof -
  have data: "readable data" if "sign_parts cmd = Ok (h, label, data)" for h label data
    using that by (cases cmd) (auto simp: readable_def bindO_Ok_iff)
  have sign: "answers (dpe_sign d p i label data) Q st" if "readable data" "\<And>x. Q x st" for i label data Q
  proof (rule answers_calm)
    show "calm (dpe_sign d p i label data)" unfolding dpe_sign_def
      by (intro calm_intros calm_measurement_hash [OF assms] calm_cdi calm_key_pair calm_sign that(1))
    show "keeps dstate (dpe_sign d p i label data)" unfolding dpe_sign_def by (intro keeps_intros)
  qed (rule that(2))
  show ?thesis
    unfolding sign_cmd_def
    by (intro answer_intros sign answers_steps settled_sign_parts settled_lookups) (auto dest: data position_lt)
qed

lemma answers_certify:
  assumes "addressable chain" "calm_gen gen"
  shows "answers (certify_key gen d p cmd loc) (\<lambda>_ _. True) st"
proof -
  have cert: "answers (run_cert_format gen fmt d p args base out) Q st" if "\<And>x. Q x st" for fmt args base out Q
    unfolding run_cert_format_def create_dpe_cert_def create_dpe_csr_def
    by (intro answer_intros answers_calm keeps_intros calm_create_cert [OF assms] that) simp
  have header: "answers (write_header p cmd result h) Q st" if "Q () st" for result h Q and st :: State
    using that by (cases cmd)
      (auto split: PubKey.split EcdsaPubKey.split intro!: answer_intros)
  show ?thesis
    unfolding certify_key_def Let_def
    by (intro answer_intros answers_steps cert header settled_lookups) (auto dest: position_lt)
qed

lemma answers_derive:
  assumes a: "addressable chain" "calm_gen gen" and f: "forest (contexts st)"
  shows "answers (derive_context gen d p cmd loc) (\<lambda>_ _. True) st"
proof -
  have scratch: "answers (scratch_response p) Q st" if "\<And>x. Q x st" for Q
    unfolding scratch_response_def by (intro answers_lift settled_parts that)
  have recursive: "answers (derive_recursive d p cmd i l) (\<lambda>_ _. True) st" if "i < length (contexts st)" for i l
    unfolding derive_recursive_def using that
    by (intro answer_intros answers_steps scratch) simp_all
  have child: "answers (derive_child d p cmd i q l) (\<lambda>_ _. True) st" if "i < length (contexts st)" for i q l
    unfolding derive_child_def Let_def using that
    by (intro answer_intros answers_steps scratch settled_ok_or settled_parts settled_children)
      (auto dest: inactive_lt)
  have cert: "answers (create_exported_dpe_cert gen d p args base out) Q st" if "\<And>x. Q x st" for args base out Q
    unfolding create_exported_dpe_cert_def
    by (intro answers_calm keeps_intros calm_create_cert [OF a] that)
  have ueid: "answers (on_platform (op_get_ueid (pops d))) Q st" if "\<And>x. Q x st" for Q
    by (intro answers_calm keeps_intros calm_intros calm_ueid that)
  have export: "answers (derive_export gen d p cmd i q l) (\<lambda>_ _. True) st" if "i < length (contexts st)" for i q l
    unfolding derive_export_def using that f
    by (intro answer_intros cert ueid settled_destroy) (auto simp: settled_parts dest: length_destroy_context)
  have parent: "answers (derive_parent d flags c) Q st" if "\<And>x. Q x st" for flags c Q
    unfolding derive_parent_def by (intro answer_intros answers_steps that)
  show ?thesis
    unfolding derive_context_def Let_def
    by (intro answer_intros recursive child export parent settled_lookups settled_unique)
      (auto simp: get_active_context_and_idx_Ok dest: position_lt)
qed

theorem command_answers:
  assumes a: "addressable chain" "calm_gen gen" and i: "state_inv st"
  shows "answers (execute_serialized gen d p cmd loc) (\<lambda>_ _. True) st"
proof -
  have calm: "calm m \<Longrightarrow> answers m (\<lambda>_ _. True) st" for m :: "('c, 'p, nat) dpe"
    by (rule spI) (auto dest: calmD)
  note f = state_inv_forest [OF i]
  show ?thesis
    by (cases cmd) (simp_all add: calm calm_commands calm_get_certificate_chain a f answers_derive
        answers_certify answers_sign answers_destroy)
qed

theorem request_answers:
  assumes a: "addressable chain" "calm_gen gen" and i: "state_inv (dstate w)"
    and e: "execute_serialized_command gen d p al loc bs w = (r, w')"
  shows "settled r"
proof (cases "deserialize al p bs")
  case (Ok c)
  obtain n rd where l: "response_layout c = (n, rd)" by fastforce
  let ?w = "w\<lparr>outbuf := replicate n 0\<rparr>"
  obtain x v where x: "execute_serialized gen d p c loc ?w = (x, v)" by fastforce
  have "answers (execute_serialized gen d p c loc) (\<lambda>_ _. True) (dstate ?w)"
    using command_answers [OF a, of "dstate ?w"] i by simp
  from answersD [OF this x] have "settled x" .
  then have "settled (fst (execute gen d p c loc w))"
    using l x by (cases x) (auto simp: execute_def with_buffer_def bind_def)
  with Ok e show ?thesis
    by (cases "execute gen d p c loc w"; cases "fst (execute gen d p c loc w)")
      (auto simp: execute_serialized_command_def)
next
  case (Err x)
  with e show ?thesis by (auto simp: execute_serialized_command_def)
qed (use settled_deserialize [of al p bs] in simp_all)

text \<open>The start of an instance.\<close>

lemma calm_start: "calm (DpeInstance_new d p)" "calm (DpeInstance_new_auto_init d p ty m)"
proof -
  have buffer: "calm m \<Longrightarrow> calm (with_buffer n m)" for n and m :: "('c, 'p, nat) dpe"
    by (rule calmI) (auto simp: with_buffer_def dest: calmD split: prod.splits outcome.splits)
  show new: "calm (DpeInstance_new d p)" unfolding DpeInstance_new_def
    by (intro calm_intros buffer calm_commands calm_locality)
  show "calm (DpeInstance_new_auto_init d p ty m)" unfolding DpeInstance_new_auto_init_def
    by (intro calm_intros new settled_lookups calm_locality) simp
qed

text \<open>A service of any length: every request is answered, one after the other.\<close>

theorem service_answers:
  assumes a: "addressable chain" "calm_gen gen"
  shows "state_inv (dstate w) \<Longrightarrow> serve gen d p qs w = (rs, w') \<Longrightarrow>
    length rs = length qs \<and> list_all settled rs"
proof (induction qs arbitrary: w rs w')
  case (Cons q qs)
  obtain r v where e: "execute_serialized_command gen d p (rq_aligned q) (rq_locality q) (rq_bytes q) w = (r, v)"
    by fastforce
  obtain rs' v' where s: "serve gen d p qs v = (rs', v')" by fastforce
  from request_answers [OF a Cons.prems(1) e] have r: "settled r" .
  have "state_inv (dstate v)"
    by (rule transitions_preserve_inv [OF execute_serialized_command_transitions [OF e] Cons.prems(1)])
  from Cons.IH [OF this s] r Cons.prems(2) e s show ?case by (cases r) auto
qed simp

end

end
