(* ===== verification/Panic_Check.thy ===== *)
theory Panic_Check
  imports No_Panic Measurement
begin

text \<open>
  The environments of the repository honour the contracts of \<open>No_Panic\<close>: \<open>RustCryptoImpl\<close> on
  \<open>DefaultPlatform\<close>, and the crypto and the platform of the firmware with which the repository's own
  panic check is built (verification/panic-check/firmware/src), whose program is modelled here.
\<close>

section \<open>The implementations of the repository\<close>

lemma settled_signatures:
  assumes "readable data"
  shows "settled (ecdsa_sign_data_inner f hash key data)" "settled (mldsa_sign_data_inner x key data)"
proof -
  have raw: "settled (read_raw rd a z)" if "data = SignResponseBuffer rd a z" for rd a z
    using assms that by (simp add: readable_def read_raw_def)
  show "settled (ecdsa_sign_data_inner f hash key data)"
    by (cases data) (auto simp: ecdsa_sign_data_inner_def sign_prehash_def intro!: settled_bindO raw)
  show "settled (mldsa_sign_data_inner x key data)"
    by (cases data) (auto simp: mldsa_sign_data_inner_def intro!: settled_bindO raw)
qed

lemma settled_keys:
  "settled (valid_key ok k)" "settled (mldsa_key x k)" "settled (hkdf_expand x alg salt ikm info)"
  by (auto simp: valid_key_def mldsa_key_def hkdf_expand_def split: SignatureAlgorithm.split EcdsaAlgorithm.split)

interpretation rust_calm: calm_crypto "rust_crypto_ops x cfg" for x cfg
proof
  fix dg info label h pk n bs data sig
  show "calm (op_rand_bytes (rust_crypto_ops x cfg) n)" "calm (op_hasher (rust_crypto_ops x cfg))"
    "calm (op_initialize (rust_crypto_ops x cfg))" "calm (op_update (rust_crypto_ops x cfg) bs)"
    "calm (op_finish (rust_crypto_ops x cfg))"
    by (auto simp: rust_crypto_ops_def calm_def rc_rand_bytes_def rc_initialize_def rc_update_def rc_finish_def
        Let_def split: prod.split option.split DigestAlgorithm.split)
  show "calm (op_derive_cdi (rust_crypto_ops x cfg) dg info)"
    by (simp add: rust_crypto_ops_def rc_derive_cdi_def hkdf_derive_cdi_def) (intro calm_intros settled_keys)
  show "calm (op_derive_exported_cdi (rust_crypto_ops x cfg) dg info)"
    by (simp add: rust_crypto_ops_def rc_derive_exported_cdi_def hkdf_derive_cdi_def)
      (intro calm_intros settled_keys; auto simp: calm_def rc_rand_bytes_def split: prod.split)
  have key: "calm (rc_derive_key_pair x cfg label info)" for label info
    unfolding rc_derive_key_pair_def hkdf_get_priv_key_def
    by (intro calm_intros) (simp add: calm_def settled_keys)
  show "calm (op_derive_key_pair (rust_crypto_ops x cfg) label info)"
    using key by (simp add: rust_crypto_ops_def)
  show "calm (op_derive_key_pair_exported (rust_crypto_ops x cfg) h label info)"
    by (simp add: rust_crypto_ops_def rc_derive_key_pair_exported_def)
      (intro calm_intros key; auto split: option.split intro!: calm_intros key)
  show "calm (op_public_key (rust_crypto_ops x cfg) pk)"
    by (auto simp: rust_crypto_ops_def calm_def rc_public_key_def settled_keys intro!: settled_bindO
        split: SignatureAlgorithm.split EcdsaAlgorithm.split PubKey.split EcdsaPubKey.split)
  assume "readable data"
  from settled_signatures [OF this]
  show "calm (op_sign (rust_crypto_ops x cfg) data sig)"
    "calm (op_sign_with_alias (rust_crypto_ops x cfg) data sig)"
    by (auto simp: rust_crypto_ops_def calm_def rc_sign_def rc_sign_with_alias_def p256_signature_def
        p384_signature_def settled_keys intro!: settled_bindO split: SignatureAlgorithm.split EcdsaAlgorithm.split)
qed

interpretation default_calm: calm_platform "default_platform art p" "art_cert_chain art p" for art p
proof
  fix offset sz n :: u32 and buf buf' :: bytes and s s' :: unit
  let ?pl = "default_platform art p" and ?chain = "art_cert_chain art p"
  show "calm (op_get_issuer_name ?pl buf)" "calm (op_get_issuer_key_identifier ?pl buf)"
    "calm (op_get_signer_identifier ?pl)" "calm (op_get_vendor_id ?pl)" "calm (op_get_vendor_sku ?pl)"
    "calm (op_get_auto_init_locality ?pl)" "calm (op_get_cert_validity ?pl)"
    "calm (op_get_subject_alternative_name ?pl)" "calm (op_get_ueid ?pl)"
    by (auto simp: default_platform_def default_get_issuer_name_def default_get_issuer_key_identifier_def
        default_get_signer_identifier_def default_get_cert_validity_def Let_def
        intro!: calm_intros settled_bindO)
  assume a: "addressable ?chain" and l: "length buf = MAX_CHUNK_SIZE"
  {
    assume sz: "unat sz \<le> MAX_CHUNK_SIZE"
    show "calm (get_certificate_chain ?pl offset sz buf)"
    proof (rule calmI)
      fix t t' r assume g: "get_certificate_chain ?pl offset sz buf t = (r, t')"
      show "settled r"
      proof (cases "unat offset < length ?chain")
        case True
        with a sz have "unat offset + unat sz < 2 ^ 32" by (simp add: addressable_def)
        from default_chain.inside [OF a True sz this l, of t] g show ?thesis by auto
      next
        case False
        then have "length ?chain \<le> unat offset" by simp
        from default_chain.outside [OF a this, of sz buf t] g show ?thesis by auto
      qed
    qed
  }
  assume g: "get_certificate_chain ?pl offset (of_nat MAX_CHUNK_SIZE) buf s = (Ok (n, buf'), s')"
  show "0 < unat n \<and> unat offset + unat n \<le> length ?chain"
  proof (cases "unat offset < length ?chain")
    case True
    from default_chain.chunk_extends [OF a True l, of s] g show ?thesis by (metis Pair_inject outcome.inject(1))
  next
    case False
    then have "length ?chain \<le> unat offset" by simp
    from default_chain.outside [OF a this] g show ?thesis by (metis Pair_inject outcome.distinct(1))
  qed
qed

text \<open>The software implementation on the test platform, as one environment.\<close>

definition rust_default :: "'r algs \<Rightarrow> rc_config \<Rightarrow> artifacts \<Rightarrow> DefaultPlatformProfile \<Rightarrow> ('r rust_crypto, unit) deps" where
  "rust_default x cfg art pf = \<lparr>cops = rust_crypto_ops x cfg, pops = default_platform art pf\<rparr>"

interpretation rust_default_calm: calm_env "rust_default x cfg art pf" "art_cert_chain art pf" for x cfg art pf
  by (simp add: calm_env_def rust_default_def rust_calm.calm_crypto_axioms default_calm.calm_platform_axioms)

section \<open>A platform that makes no progress\<close>

text \<open>
  The law of progress is needed: the loop over the chain has no other way to end than an error of the
  platform, and one that keeps answering with empty chunks keeps it running.
\<close>

definition hands_out_nothing :: "'p platform_ops \<Rightarrow> bool" where
  "hands_out_nothing pl \<longleftrightarrow>
     (\<forall>offset buf s. \<exists>f s'. op_get_certificate_chain pl offset (of_nat MAX_CHUNK_SIZE) buf s = (Ok (0, f), s'))"

context total_hash_suite
begin

lemma dice_step_stuck:
  assumes "hands_out_nothing (pops d)" "cops d = ops" "live (crypto w)"
  obtains chunk' w' where "dice_step d offset chunk w = (Ok (Some (offset, chunk')), w')" "live (crypto w')"
proof -
  from assms(1) obtain f p where c: "op_get_certificate_chain (pops d) offset (of_nat MAX_CHUNK_SIZE) chunk (platform w) =
      (Ok (0, f), p)" unfolding hands_out_nothing_def by blast
  from update_ok [OF assms(3), of "[]"] obtain s where "op_update ops [] (crypto w) = (Ok (), s)" "live s" by blast
  with c assms(2) show thesis
    by (intro that [of "map f [0..<length chunk]" "w\<lparr>platform := p, crypto := s\<rparr>"])
      (simp_all add: dice_step_def get_certificate_chain_def get_range_def hasher_update_def on_crypto_def bind_step
        unsigned_less [where 'b = 32, simplified] not_le)
qed

lemma dice_loop_stuck:
  fixes d :: "('c, 'p) deps"
  assumes "hands_out_nothing (pops d)" "cops d = ops" "live (crypto w)"
  shows "dice_loop d offset chunk w = None"
proof (cases "dice_loop d offset chunk w")
  case (Some y)
  have "\<not> (hands_out_nothing (pops d) \<and> cops d = ops \<and> live (crypto w))"
  proof (rule dice_loop.raw_induct [where P = "\<lambda>d _ _ w _. \<not> (hands_out_nothing (pops d) \<and> cops d = ops \<and>
        live (crypto w))", OF _ Some])
    fix loop :: "('c, 'p) deps \<Rightarrow> u32 \<Rightarrow> bytes \<Rightarrow> ('c, 'p) world \<Rightarrow>
        ((DpeErrorCode, unit) outcome \<times> ('c, 'p) world) option"
      and d :: "('c, 'p) deps" and offset :: u32 and chunk :: bytes and w :: "('c, 'p) world" and y
    assume IH: "\<And>d offset chunk w y. loop d offset chunk w = Some y \<Longrightarrow>
        \<not> (hands_out_nothing (pops d) \<and> cops d = ops \<and> live (crypto w))"
      and l: "(case dice_step d offset chunk w of
        (Ok (Some (offset', chunk')), w') \<Rightarrow> loop d offset' chunk' w'
      | (Ok None, w') \<Rightarrow> Some (Ok (), w')
      | (Err e, w') \<Rightarrow> Some (Err e, w')
      | (Panic, w') \<Rightarrow> Some (Panic, w')
      | (Diverge, w') \<Rightarrow> Some (Diverge, w')) = Some y"
    show "\<not> (hands_out_nothing (pops d) \<and> cops d = ops \<and> live (crypto w))"
    proof
      assume s: "hands_out_nothing (pops d) \<and> cops d = ops \<and> live (crypto w)"
      then obtain chunk' w' where "dice_step d offset chunk w = (Ok (Some (offset, chunk')), w')" "live (crypto w')"
        using dice_step_stuck by blast
      with l IH [of d offset chunk' w' y] s show False by simp
    qed
  qed
  with assms show ?thesis by blast
qed

theorem measurement_hash_stuck:
  assumes "hands_out_nothing (pops d)" and d: "cops d = ops"
    and path: "up_path (contexts (dstate w)) is" and len: "length (contexts (dstate w)) \<le> 64"
    and dice: "uses_dice (contexts (dstate w)) is" "\<not> uses_info (contexts (dstate w)) is"
  shows "fst (compute_measurement_hash d p (hd is) w) = Diverge"
proof -
  let ?c = "contexts (dstate w)"
  from iter_new_up_path [OF path len] obtain it where it: "iter_new (hd is) ?c = Ok it"
    and items: "iter_items it = map (\<lambda>i. Ok (?c ! i)) (rev is)" by (auto simp: rev_map)
  obtain c0 where c0: "op_hasher ops (crypto w) = (Ok (), c0)" using hasher_ok by blast
  obtain c1 where c1: "op_initialize ops c0 = (Ok (), c1)" "live c1" using initialize_ok by blast
  have "live (crypto (w\<lparr>crypto := c1\<rparr>))" using c1(2) by simp
  from hash_nodes_total [OF d this, of ?c "rev is" False False] dice items obtain c2
    where c2: "hash_nodes d (iter_items it) False False (w\<lparr>crypto := c1\<rparr>) = (Ok (False, True), w\<lparr>crypto := c2\<rparr>)"
      "live c2"
    by (auto simp: uses_info_def uses_dice_def)
  have "hash_dice d (w\<lparr>crypto := c2\<rparr>) = (Diverge, w\<lparr>crypto := c2\<rparr>)"
    using dice_loop_stuck [OF assms(1) d, of "w\<lparr>crypto := c2\<rparr>"] c2(2) by (simp add: hash_dice_def)
  with c0 c1(1) it c2(1) d show ?thesis
    by (simp add: compute_measurement_hash_def bind_def on_crypto_def)
qed

end

section \<open>The firmware of the panic check: crypto\<close>

text \<open>Nothing is implemented; the objects of \<open>DummyCrypto\<close> have no state.\<close>

definition dummy_rand_bytes :: "nat \<Rightarrow> (unit, CryptoError, nat \<Rightarrow> u8) act" where
  "dummy_rand_bytes n = throw CryptoNotImplemented"

definition dummy_hasher :: "(unit, CryptoError, unit) act" where
  "dummy_hasher = ret ()"

definition dummy_derive_cdi :: "Digest \<Rightarrow> bytes \<Rightarrow> (unit, CryptoError, unit) act" where
  "dummy_derive_cdi measurement info = throw CryptoNotImplemented"

definition dummy_derive_exported_cdi :: "Digest \<Rightarrow> bytes \<Rightarrow> (unit, CryptoError, nat \<Rightarrow> u8) act" where
  "dummy_derive_exported_cdi measurement info = throw CryptoNotImplemented"

definition dummy_derive_key_pair_exported :: "bytes \<Rightarrow> bytes \<Rightarrow> bytes \<Rightarrow> (unit, CryptoError, unit) act" where
  "dummy_derive_key_pair_exported exported_handle label info = throw CryptoNotImplemented"

definition dummy_sign_with_alias :: "SignData \<Rightarrow> Signature \<Rightarrow> (unit, CryptoError, Signature) act" where
  "dummy_sign_with_alias data out = throw CryptoNotImplemented"

definition dummy_signature_algorithm :: SignatureAlgorithm where
  "dummy_signature_algorithm = AlgEcdsa Bit256"

definition dummy_digest_algorithm :: DigestAlgorithm where
  "dummy_digest_algorithm = AlgSha256"

definition dummy_initialize :: "(unit, CryptoError, unit) act" where
  "dummy_initialize = throw CryptoNotImplemented"

definition dummy_update :: "bytes \<Rightarrow> (unit, CryptoError, unit) act" where
  "dummy_update bytes = throw CryptoNotImplemented"

definition dummy_finish :: "(unit, CryptoError, Digest) act" where
  "dummy_finish = throw CryptoNotImplemented"

definition dummy_derive_key_pair :: "bytes \<Rightarrow> bytes \<Rightarrow> (unit, CryptoError, unit) act" where
  "dummy_derive_key_pair label info = throw CryptoNotImplemented"

definition dummy_sign :: "SignData \<Rightarrow> Signature \<Rightarrow> (unit, CryptoError, Signature) act" where
  "dummy_sign data out = throw CryptoNotImplemented"

definition dummy_public_key :: "PubKey \<Rightarrow> (unit, CryptoError, PubKey) act" where
  "dummy_public_key out = throw CryptoNotImplemented"

definition dummy_crypto :: "unit crypto_ops" where
  "dummy_crypto = \<lparr>
     op_signature_algorithm = (\<lambda>_. dummy_signature_algorithm),
     op_digest_algorithm = (\<lambda>_. dummy_digest_algorithm),
     op_rand_bytes = dummy_rand_bytes,
     op_hasher = dummy_hasher,
     op_initialize = dummy_initialize,
     op_update = dummy_update,
     op_finish = dummy_finish,
     op_derive_cdi = dummy_derive_cdi,
     op_derive_exported_cdi = dummy_derive_exported_cdi,
     op_derive_key_pair = dummy_derive_key_pair,
     op_derive_key_pair_exported = dummy_derive_key_pair_exported,
     op_sign = dummy_sign,
     op_public_key = dummy_public_key,
     op_sign_with_alias = dummy_sign_with_alias\<rparr>"

section \<open>The firmware of the panic check: platform\<close>

text \<open>
  The certificate parts are not implemented; the vendor, the locality and the identifier of the device
  are those of the test platform, under constants of the same names.
\<close>

definition dummy_platform_ueid :: "(PlatformError, Ueid) outcome" where
  "dummy_platform_ueid =
     (let buf_size = of_nat (length TEST_UEID) :: u32; u = ueid_default
      in bindO (ok_or (get_range (ueid_buf u) 0 (unat buf_size)) InvalidUeidError) (\<lambda>_.
        Ok \<lparr>ueid_buf = splice (ueid_buf u) 0 TEST_UEID, ueid_buf_size = buf_size\<rparr>))"

definition dummy_platform :: "DefaultPlatformProfile \<Rightarrow> unit platform_ops" where
  "dummy_platform pf = \<lparr>
     op_get_certificate_chain = (\<lambda>offset sz out. throw PlatformNotImplemented),
     op_get_issuer_name = (\<lambda>out. throw PlatformNotImplemented),
     op_get_signer_identifier = throw PlatformNotImplemented,
     op_get_issuer_key_identifier = (\<lambda>out. throw PlatformNotImplemented),
     op_get_vendor_id = ret VENDOR_ID,
     op_get_vendor_sku = ret VENDOR_SKU,
     op_get_auto_init_locality = ret AUTO_INIT_LOCALITY,
     op_write_str = (\<lambda>str. throw PlatformNotImplemented),
     op_get_cert_validity = throw PlatformNotImplemented,
     op_get_subject_alternative_name = throw PlatformNotImplemented,
     op_get_ueid = lift dummy_platform_ueid\<rparr>"

definition dummy_deps :: "DefaultPlatformProfile \<Rightarrow> (unit, unit) deps" where
  "dummy_deps pf = \<lparr>cops = dummy_crypto, pops = dummy_platform pf\<rparr>"

interpretation dummy_calm: calm_crypto dummy_crypto
  by unfold_locales (simp_all add: calm_def dummy_crypto_def dummy_rand_bytes_def dummy_hasher_def
      dummy_initialize_def dummy_update_def dummy_finish_def dummy_derive_cdi_def dummy_derive_exported_cdi_def
      dummy_derive_key_pair_def dummy_derive_key_pair_exported_def dummy_sign_def dummy_public_key_def
      dummy_sign_with_alias_def)

interpretation dummy_platform_calm: calm_platform "dummy_platform pf" "[]" for pf
  by unfold_locales (auto simp: calm_def dummy_platform_def get_certificate_chain_def dummy_platform_ueid_def
      Let_def intro!: settled_bindO)

interpretation dummy_env_calm: calm_env "dummy_deps pf" "[]" for pf
  by (simp add: calm_env_def dummy_deps_def dummy_calm.calm_crypto_axioms dummy_platform_calm.calm_platform_axioms)

lemma dummy_chain: "addressable []"
  by (simp add: addressable_def)

lemma dummy_starts:
  "settled (fst (DpeInstance_new (dummy_deps pf) p w))" "settled (fst (DpeInstance_new_auto_init (dummy_deps pf) p ty m w))"
  using dummy_env_calm.calm_start [of pf p] by (simp_all add: calm_def)

section \<open>The firmware of the panic check: main\<close>

text \<open>
  The cargo features of the firmware that select the profile: without any of them a \<open>compile_error!\<close>
  ends the build.
\<close>

record firmware_features =
  fw_should_fail :: bool
  fw_p256 :: bool
  fw_p384 :: bool
  fw_ml_dsa :: bool

definition firmware_profiles :: "firmware_features \<Rightarrow> (DefaultPlatformProfile \<times> DpeProfile) option" where
  "firmware_profiles f =
     (if fw_p256 f \<and> \<not> (fw_p384 f \<or> fw_ml_dsa f) then Some (P256, P256Sha256)
      else if fw_p384 f \<and> \<not> fw_ml_dsa f then Some (P384, P384Sha384)
      else if fw_ml_dsa f then Some (PlatMldsa87, Mldsa87)
      else None)"

text \<open>The array access of the feature \<open>should-fail\<close>.\<close>

definition intended_panic :: "(unit, int) outcome" where
  "intended_panic = (let arr = [1, 2, 3] :: int list; idx = 10 in
     if idx < length arr then Ok (arr ! idx) else Panic)"

definition firmware_env :: "build_features \<Rightarrow> (unit, unit) world" where
  "firmware_env b = \<lparr>crypto = (), platform = (), dstate = State_new b 0 MARK_DICE_EXTENSIONS_CRITICAL, outbuf = []\<rparr>"

text \<open>
  \<open>main\<close>, with a given encoder and request: the results of the calls on the instance are dropped, but
  a panic ends the program.
\<close>

definition main_with ::
  "unit cert_gen \<Rightarrow> bool \<Rightarrow> build_features \<Rightarrow> bool \<Rightarrow> DefaultPlatformProfile \<times> DpeProfile \<Rightarrow> bytes \<Rightarrow>
     (unit, unit) outcome" where
  "main_with gen al b should_fail = (\<lambda>(platform_profile, dpe_profile) request.
     bindO (if should_fail then bindO intended_panic (\<lambda>_. Ok ()) else Ok ()) (\<lambda>_.
       let d = dummy_deps platform_profile
       in case DpeInstance_new d dpe_profile (firmware_env b) of
            (Err _, _) \<Rightarrow> Ok ()
          | (Panic, _) \<Rightarrow> Panic
          | (Diverge, _) \<Rightarrow> Diverge
          | (Ok _, env) \<Rightarrow>
              (case fst (execute_serialized_command gen d dpe_profile al 1 request env) of
                 Panic \<Rightarrow> Panic
               | Diverge \<Rightarrow> Diverge
               | _ \<Rightarrow> Ok ())))"

definition firmware_main ::
  "unit cert_gen \<Rightarrow> bool \<Rightarrow> build_features \<Rightarrow> firmware_features \<Rightarrow> (unit, unit) outcome option" where
  "firmware_main gen al b f =
     map_option (\<lambda>profiles. main_with gen al b (fw_should_fail f) profiles [0]) (firmware_profiles f)"

lemma main_with_answers:
  assumes "calm_gen gen"
  shows "main_with gen al b should_fail profiles request = (if should_fail then Panic else Ok ())"
proof (cases should_fail)
  case True
  then show ?thesis by (cases profiles) (simp add: main_with_def intended_panic_def)
next
  case False
  obtain pf p where profiles: "profiles = (pf, p)" by (cases profiles)
  obtain r w where start: "DpeInstance_new (dummy_deps pf) p (firmware_env b) = (r, w)" by fastforce
  have inv: "state_inv (dstate w)"
    using sp_any [OF DpeInstance_new_transitions start] transitions_preserve_inv [OF _ state_inv_new]
    by (simp add: firmware_env_def)
  have r: "settled r" by (rule calmD [OF dummy_env_calm.calm_start(1) start])
  obtain x w' where run: "execute_serialized_command gen (dummy_deps pf) p al 1 request w = (x, w')" by fastforce
  have "settled x"
    by (rule dummy_env_calm.request_answers [OF dummy_chain assms inv run])
  with False profiles start r run show ?thesis
    by (cases r; cases x) (simp_all add: main_with_def)
qed

end
