(* ===== verification/Certified.thy ===== *)
theory Certified
  imports X509_Read Panic_Check
begin

text \<open>
  CertifyKey from end to end: from the state, through the measurement hash, the key derived from it, the
  names, the encoder and the signature of the alias key, to the certificate in the response buffer. The
  contract \<open>certifying\<close> says what the certificate takes from the crypto implementation and the platform;
  \<open>RustCryptoImpl\<close> on \<open>DefaultPlatform\<close> honours it.
\<close>

section \<open>What the certificate says of the key\<close>

definition key_bytes :: "PubKey \<Rightarrow> bytes" where
  "key_bytes pk = (case pk of PubEcdsa k \<Rightarrow> 4 # pub_x k @ pub_y k | PubMldsa k \<Rightarrow> k)"

definition leaf_name :: "(bytes \<Rightarrow> Digest) \<Rightarrow> PubKey \<Rightarrow> Name" where
  "leaf_name H pk = \<lparr>name_cn = PrintableString (ascii ''DPE Leaf''),
     name_serial = PrintableString (take 64 (hex_of (digest_as_slice (H (key_bytes pk)))))\<rparr>"

definition leaf_key_id :: "(bytes \<Rightarrow> Digest) \<Rightarrow> PubKey \<Rightarrow> bytes" where
  "leaf_key_id H pk = take MAX_KEY_IDENTIFIER_SIZE (digest_as_slice (H (key_bytes pk)))"

definition leaf_measurements ::
  "(bytes \<Rightarrow> Digest) \<Rightarrow> bytes \<Rightarrow> SubjectAltName option \<Rightarrow> CreateDpeCertArgs \<Rightarrow> State \<Rightarrow> nat list \<Rightarrow> PubKey \<Rightarrow>
     MeasurementData" where
  "leaf_measurements H aki san args st is pk =
     measurement_data \<lparr>tn_start_idx = hd is, tn_contexts = contexts st\<rparr> args Leaf st (leaf_key_id H pk) aki san"

definition san_small :: "SubjectAltName option \<Rightarrow> bool" where
  "san_small san \<longleftrightarrow> (case san of None \<Rightarrow> True
     | Some (SanOtherName n) \<Rightarrow> length (on_oid n) \<le> 64 \<and> length (on_other_name n) \<le> MAX_OTHER_NAME_SIZE)"

section \<open>The contract\<close>

locale certifying = measurement_env "cops d" absorbed H live "pops d" chain vid vsku
  for d :: "('c, 'p) deps" and absorbed :: "'c \<Rightarrow> bytes" and H :: "bytes \<Rightarrow> Digest"
    and live :: "'c \<Rightarrow> bool" and chain :: bytes and vid :: u32 and vsku :: u32 +
  fixes issuer :: bytes and validity :: CertValidity and aki :: bytes and san :: "SubjectAltName option"
  assumes digest_type: "digest_wf (H bs)"
    and key_type: "op_public_key (cops d) out c = (Ok pk, c') \<Longrightarrow> pub_key_wf pk"
    and signature_type: "op_sign_with_alias (cops d) data sig c = (Ok s, c') \<Longrightarrow> signature_wf s"
      "op_sign (cops d) data sig c = (Ok s, c') \<Longrightarrow> signature_wf s"
    and issuer_name: "get_issuer_name (pops d) (replicate MAX_ISSUER_NAME_SIZE 0) t = (Ok (n, name), t') \<Longrightarrow>
      take n name = issuer"
    and issuer_key: "get_issuer_key_identifier (pops d) (replicate MAX_KEY_IDENTIFIER_SIZE 0) t = (Ok k, t') \<Longrightarrow>
      k = aki"
    and validity: "op_get_cert_validity (pops d) t = (Ok v, t') \<Longrightarrow> v = validity"
    and validity_small: "length (not_before validity) \<le> MAX_VALIDITY_SIZE"
      "length (not_after validity) \<le> MAX_VALIDITY_SIZE"
    and alternative: "op_get_subject_alternative_name (pops d) t = (Ok a, t') \<Longrightarrow> san = Some a"
      "op_get_subject_alternative_name (pops d) t = (Err PlatformNotImplemented, t') \<Longrightarrow> san = None"
    and alternative_small: "san_small san"
begin

lemma digest_long: "32 \<le> length (digest_as_slice (H bs))"
  using digest_type [of bs] by (cases "H bs") simp_all

lemma subject_name_value:
  assumes "get_subject_name d Leaf pk (replicate (MAX_HASH_SIZE * 2) 0) w = (Ok name, w')"
  shows "name = leaf_name H pk"
proof -
  from assms obtain serial w1 where s: "on_crypto (get_pubkey_serial (cops d) pk (replicate (MAX_HASH_SIZE * 2) 0)) w =
      (Ok serial, w1)" and n: "name = \<lparr>name_cn = PrintableString (subject_cn Leaf),
        name_serial = PrintableString (take 64 serial)\<rparr>"
    by (auto simp: get_subject_name_def bind_Ok_iff split: if_splits)
  from s obtain c' where "get_pubkey_serial (cops d) pk (replicate (MAX_HASH_SIZE * 2) 0) (crypto w) = (Ok serial, c')"
    unfolding on_crypto_Ok by blast
  from pubkey_serial_value [OF this]
  have "serial = splice (replicate (MAX_HASH_SIZE * 2) 0) 0 (hex_of (digest_as_slice (H (key_bytes pk))))"
    by (cases pk) (auto simp: key_bytes_def)
  with n digest_long [of "key_bytes pk"] show ?thesis by (simp add: leaf_name_def subject_cn_def splice_def)
qed

lemma key_identifier_value:
  assumes "get_subject_key_identifier d pk w = (Ok ski, w')"
  shows "ski = leaf_key_id H pk"
  using assms
  by (cases pk) (auto simp: get_subject_key_identifier_def leaf_key_id_def key_bytes_def ecdsa_pub_as_slice_def
      bind_Ok_iff on_crypto_Ok split: if_splits dest!: hash_all_value crypto_hash_value)

lemma leaf_wf:
  assumes "length (ca_ueid args) \<le> MAX_UEID_SIZE" "length aki = MAX_KEY_IDENTIFIER_SIZE"
  shows "md_wf (leaf_measurements H aki san args st is pk)" "name_wf (leaf_name H pk)"
proof -
  show "md_wf (leaf_measurements H aki san args st is pk)"
    using assms digest_long [of "key_bytes pk"] alternative_small
    by (simp add: md_wf_def leaf_measurements_def measurement_data_def leaf_key_id_def san_small_def
        split: option.splits)
  show "name_wf (leaf_name H pk)"
    using digest_long [of "key_bytes pk"]
    by (simp add: name_wf_def leaf_name_def directory_string_len_def ascii_def)
qed

lemma key_value:
  assumes "derive_cert_key d args dg Leaf out w = (Ok (exported, pk), w')"
  shows "exported = None" "pub_key_wf pk"
    and "\<exists>c. crypto_derive_pub_key (cops d) dg (ca_cdi_label args) (ca_key_label args) (ca_context args) out (crypto w) = (Ok pk, c)"
  using assms
  by (auto simp: derive_cert_key_def bind_Ok_iff on_crypto_Ok crypto_derive_pub_key_def cdi_derive_pub_key_def
      dest: key_type)

lemma authority_length:
  assumes "get_issuer_key_identifier (pops d) (replicate MAX_KEY_IDENTIFIER_SIZE 0) t = (Ok k, t')"
  shows "length aki = MAX_KEY_IDENTIFIER_SIZE"
  using issuer_key [OF assms] assms by (auto simp: get_issuer_key_identifier_def bind_Ok_iff)

lemma alternative_value: "get_subject_alt_name d w = (Ok a, w') \<Longrightarrow> a = san"
  by (auto simp: get_subject_alt_name_def dest: alternative split: prod.splits outcome.splits PlatformError.splits)

lemma format_value: "format_args d FormatX509 v sid w = (Ok a, w') \<Longrightarrow> a = CertArgs issuer v"
  by (auto simp: format_args_def bind_Ok_iff on_platform_Ok simp del: platform_sizes split: if_splits
      dest: issuer_name)

text \<open>What a successful run has done before it calls the encoder.\<close>

lemma create_cert_run:
  assumes run: "create_dpe_cert gen d p args base out w = (Ok res, w')"
    and small: "addressable chain" and inv: "state_inv (dstate w)"
    and ueid: "length (ca_ueid args) \<le> MAX_UEID_SIZE"
  obtains "is" pk c0 c1 v sig where
    "up_path (contexts (dstate w)) is" "get_active_context_pos (dstate w) (ca_handle args) (ca_locality args) = Ok (hd is)"
    "crypto_derive_pub_key (cops d) (H (measurement_input p vid vsku chain (dstate w) is))
       (ca_cdi_label args) (ca_key_label args) (ca_context args) (cr_pub_key out) c0 = (Ok pk, c1)"
    "cr_pub_key res = pk" "pub_key_wf pk" "length aki = MAX_KEY_IDENTIFIER_SIZE" "dstate w' = dstate w"
    "gen (CertArgs issuer validity) p (ca_dice_extensions_are_critical args) (leaf_name H pk) pk
       (leaf_measurements H aki san args (dstate w) is pk)
       (cert_sign_cb d args (H (measurement_input p vid vsku chain (dstate w) is)) None) base sig (v, outbuf w) =
       (Ok (cr_cert_size res), (crypto w', outbuf w'))"
proof -
  let ?st = "dstate w"
  from run obtain w1 w2 w3 w4 w5 w6 w7 w8 w9 dg exported pk name ski k a idx nodes sig v sid fa n where
    dg: "get_dpe_measurement_digest d p (ca_handle args) (ca_locality args) w = (Ok dg, w1)" and
    key: "derive_cert_key d args dg Leaf (cr_pub_key out) w1 = (Ok (exported, pk), w2)" and
    name: "get_subject_name d Leaf pk (replicate (MAX_HASH_SIZE * 2) 0) w2 = (Ok name, w3)" and
    ski: "get_subject_key_identifier d pk w3 = (Ok ski, w4)" and
    k: "on_platform (get_issuer_key_identifier (pops d) (replicate MAX_KEY_IDENTIFIER_SIZE 0)) w4 = (Ok k, w5)" and
    a: "get_subject_alt_name d w5 = (Ok a, w6)" and
    nodes: "TciNodes_new idx (contexts (dstate w6)) = Ok nodes"
      "get_active_context_pos (dstate w6) (ca_handle args) (ca_locality args) = Ok idx" and
    v: "on_platform (op_get_cert_validity (pops d)) w6 = (Ok v, w7)" and
    sid: "on_platform (op_get_signer_identifier (pops d)) w7 = (Ok sid, w8)" and
    fa: "format_args d FormatX509 v sid w8 = (Ok fa, w9)" and
    enc: "on_encoder (gen fa p (ca_dice_extensions_are_critical args) name
             pk (measurement_data nodes args Leaf (dstate w6) ski k a) (cert_sign_cb d args dg exported) base sig) w9 = (Ok n, w')" and
    res: "cr_cert_size res = n" "cr_pub_key res = pk"
    by (auto simp: create_dpe_cert_def create_dpe_cert_or_csr_def bind_Ok_iff Let_def simp del: platform_sizes)
  have same: "P w9 = P w" "P w6 = P w" if P: "view P" for P :: "('c, 'p) world \<Rightarrow> 'x"
    using keepsD [OF keeps_names(1) [OF P] dg] keepsD [OF keeps_derive_cert_key [OF P] key]
      keepsD [OF keeps_names(2) [OF P] name] keepsD [OF keeps_subject_key_identifier [OF P] ski]
      keepsD [OF keeps_on_platform [OF P] k] keepsD [OF keeps_subject_alt_name [OF P] a]
      keepsD [OF keeps_on_platform [OF P] v] keepsD [OF keeps_on_platform [OF P] sid]
      keepsD [OF keeps_format_args [OF P] fa] by simp_all
  note st = same [OF view_parts(1)] and outs = same [OF view_parts(2)]
  from nodes(2) st have idx: "get_active_context_pos ?st (ca_handle args) (ca_locality args) = Ok idx" by simp
  from get_active_context_pos_Ok [OF this] forest_length [OF state_inv_forest [OF inv]]
  have live: "idx < 64" "state (contexts ?st ! idx) \<noteq> Inactive" by (auto simp: active_at_def)
  from forest_up_path [OF state_inv_forest [OF inv] live] obtain anc where path: "up_path (contexts ?st) (idx # anc)" .
  let ?is = "idx # anc"
  let ?dg = "H (measurement_input p vid vsku chain ?st ?is)"
  from measurement_hash_total [OF refl refl small path, of p] forest_length [OF state_inv_forest [OF inv]]
  obtain v1 where "compute_measurement_hash d p idx w = (Ok ?dg, v1)" by auto
  with dg idx have dgv: "dg = ?dg" by (auto simp: get_dpe_measurement_digest_def bind_Ok_iff)
  from key_value [OF key] obtain c where pk: "exported = None" "pub_key_wf pk"
    "crypto_derive_pub_key (cops d) dg (ca_cdi_label args) (ca_key_label args) (ca_context args) (cr_pub_key out)
      (crypto w1) = (Ok pk, c)" by blast
  from k have k': "k = aki" "length aki = MAX_KEY_IDENTIFIER_SIZE"
    unfolding on_platform_Ok by (auto simp del: platform_sizes dest: issuer_key authority_length)
  from v have v': "v = validity" unfolding on_platform_Ok by (auto dest: validity)
  have nodes': "nodes = \<lparr>tn_start_idx = idx, tn_contexts = contexts ?st\<rparr>"
    using nodes(1) st by (auto simp: TciNodes_new_def bindO_Ok_iff Let_def split: if_splits)
  have "gen (CertArgs issuer validity) p (ca_dice_extensions_are_critical args) (leaf_name H pk) pk
       (leaf_measurements H aki san args ?st ?is pk) (cert_sign_cb d args ?dg None) base sig (crypto w9, outbuf w) =
       (Ok (cr_cert_size res), (crypto w', outbuf w'))" and "dstate w' = ?st"
    using enc st outs subject_name_value [OF name] key_identifier_value [OF ski] alternative_value [OF a]
      format_value [OF fa] k'(1) v' nodes' dgv pk(1) res(1)
    by (auto simp: on_encoder_def leaf_measurements_def split: prod.splits)
  with path idx pk dgv res k'(2) show thesis by (intro that [of ?is]) simp_all
qed

lemma callback_typed:
  assumes "cert_sign_cb d args dg None rd a z f sig c = (Ok s, c')"
  shows "signature_wf s"
  using assms by (auto simp: cert_sign_cb_def crypto_sign_with_derived_def cdi_sign_with_derived_def bind_Ok_iff
      split: if_splits dest: signature_type)

text \<open>The certificate that a successful run leaves in the response buffer.\<close>

theorem create_cert_certifies:
  assumes run: "create_dpe_cert generate_cert_or_csr d p args base out w = (Ok res, w')"
    and small: "addressable chain" and inv: "state_inv (dstate w)"
    and ueid: "length (ca_ueid args) \<le> MAX_UEID_SIZE" and buf: "length (outbuf w) \<le> USIZE_MAX"
    and issuer_der: "issuer = der 0x30 iname" "length issuer \<le> MAX_ISSUER_NAME_SIZE"
  obtains "is" pk c0 c1 rd s sig c2 c3 tbs where
    "up_path (contexts (dstate w)) is" "get_active_context_pos (dstate w) (ca_handle args) (ca_locality args) = Ok (hd is)"
    "crypto_derive_pub_key (cops d) (H (measurement_input p vid vsku chain (dstate w) is))
       (ca_cdi_label args) (ca_key_label args) (ca_context args) (cr_pub_key out) c0 = (Ok pk, c1)"
    "cr_pub_key res = pk" "pub_key_wf pk" "dstate w' = dstate w" "length (outbuf w') = length (outbuf w)"
    "tbs = cert_tbs (dstate w) is p (ca_dice_extensions_are_critical args) issuer (leaf_name H pk) pk
      (leaf_measurements H aki san args (dstate w) is pk) validity"
    "rd 4 (4 + length tbs) = Ok tbs"
    "op_sign_with_alias (cops d) (SignResponseBuffer rd 4 (4 + length tbs)) sig c2 = (Ok s, c3)"
    "certificate_parts p tbs s (take (unat (cr_cert_size res)) (drop base (outbuf w')))"
    "svns_add_up (dstate w) is \<longrightarrow>
      certificate_reads p (tbs_items p (ca_dice_extensions_are_critical args)
       (take 20 (ds_bytes (name_serial (leaf_name H pk)))) iname (leaf_name H pk) pk
       (leaf_measurements H aki san args (dstate w) is pk) validity (path_contexts (dstate w) is)) s
       (take (unat (cr_cert_size res)) (drop base (outbuf w')))"
proof (rule create_cert_run [OF run small inv ueid])
  fix "is" pk c0 c1 v sig
  let ?st = "dstate w" and ?crit = "ca_dice_extensions_are_critical args" and ?name = "leaf_name H pk"
  let ?md = "leaf_measurements H aki san args ?st is pk"
  let ?tbs = "cert_tbs ?st is p ?crit issuer ?name pk ?md validity"
  let ?dg = "H (measurement_input p vid vsku chain ?st is)"
  assume path: "up_path (contexts ?st) is"
    "get_active_context_pos ?st (ca_handle args) (ca_locality args) = Ok (hd is)"
    and key: "crypto_derive_pub_key (cops d) ?dg (ca_cdi_label args) (ca_key_label args) (ca_context args)
      (cr_pub_key out) c0 = (Ok pk, c1)" "cr_pub_key res = pk" "pub_key_wf pk" "dstate w' = ?st"
    and aki: "length aki = MAX_KEY_IDENTIFIER_SIZE"
    and gen: "generate_cert_or_csr (CertArgs issuer validity) p ?crit ?name pk ?md
       (cert_sign_cb d args ?dg None) base sig (v, outbuf w) = (Ok (cr_cert_size res), (crypto w', outbuf w'))"
  have inputs: "cert_inputs ?st is ?md ?name pk"
    unfolding cert_inputs_def
  proof (intro conjI)
    show "state_nodes ?st (hd is) ?md"
      by (simp only: state_nodes_def leaf_measurements_def measurement_data_def MeasurementData.simps)
  qed (rule inv path(1) leaf_wf [OF ueid aki] key(3))+
  have "\<exists>rd s. rd 4 (4 + length ?tbs) = Ok ?tbs \<and>
    cert_sign_cb d args ?dg None rd 4 (4 + length ?tbs) False sig v = (Ok s, crypto w') \<and>
    length (outbuf w') = length (outbuf w) \<and> take base (outbuf w') = take base (outbuf w) \<and>
    drop (base + unat (cr_cert_size res)) (outbuf w') = drop (base + unat (cr_cert_size res)) (outbuf w) \<and>
    certificate_parts p ?tbs s (take (unat (cr_cert_size res)) (drop base (outbuf w'))) \<and>
    (svns_add_up ?st is \<longrightarrow>
      certificate_reads p (tbs_items p ?crit (take 20 (ds_bytes (name_serial ?name))) iname ?name pk ?md
        validity (path_contexts ?st is)) s (take (unat (cr_cert_size res)) (drop base (outbuf w'))))"
    unfolding issuer_der(1)
    by (rule certificate_run_reads [OF inputs issuer_der(2) [unfolded issuer_der(1)] validity_small buf
          callback_typed gen [unfolded issuer_der(1)]])
  then obtain rd s where read: "rd 4 (4 + length ?tbs) = Ok ?tbs"
    and cb: "cert_sign_cb d args ?dg None rd 4 (4 + length ?tbs) False sig v = (Ok s, crypto w')"
    and len: "length (outbuf w') = length (outbuf w)"
    and cert: "certificate_parts p ?tbs s (take (unat (cr_cert_size res)) (drop base (outbuf w')))"
      "svns_add_up ?st is \<longrightarrow>
        certificate_reads p (tbs_items p ?crit (take 20 (ds_bytes (name_serial ?name))) iname ?name pk ?md
          validity (path_contexts ?st is)) s (take (unat (cr_cert_size res)) (drop base (outbuf w')))"
    by (elim exE conjE) (rule that)
  from cb have signed: "op_sign_with_alias (cops d) (SignResponseBuffer rd 4 (4 + length ?tbs)) sig v = (Ok s, crypto w')"
    by (simp only: cert_sign_cb_def if_False)
  show thesis by (rule that [OF path key len refl read signed cert])
qed

end

section \<open>The header of the response\<close>

definition certify_header :: "DpeProfile \<Rightarrow> PubKey \<Rightarrow> ContextHandle \<Rightarrow> u32 \<Rightarrow> bytes" where
  "certify_header p pk h sz = hdr_bytes (response_hdr p NoError) @ h @
     (case pk of PubEcdsa k \<Rightarrow> pub_x k @ pub_y k | PubMldsa k \<Rightarrow> k) @ u32_to_le_bytes sz"

lemma write_out_Ok:
  "write_out off bs w = (Ok (), w') \<Longrightarrow> w' = w\<lparr>outbuf := splice (outbuf w) off bs\<rparr> \<and> off + length bs \<le> length (outbuf w)"
  by (auto dest!: write_out_result)

lemma write_header_result:
  assumes "write_header p command res h w = (Ok (), w')" "pub_key_wf (cr_pub_key res)" "length h = 16"
  shows "w' = w\<lparr>outbuf := splice (outbuf w) 0 (certify_header p (cr_pub_key res) h (cr_cert_size res))\<rparr> \<and>
    length (certify_header p (cr_pub_key res) h (cr_cert_size res)) = certify_hdr_size command \<and>
    certify_hdr_size command \<le> length (outbuf w)"
proof -
  have hdr: "length (hdr_bytes (response_hdr p NoError)) = 12" by simp
  show ?thesis
  proof (cases command)
    case (CkP256 c)
    with assms hdr show ?thesis
      by (auto simp: certify_header_def certify_p256_hdr_bytes_def split: PubKey.splits EcdsaPubKey.splits
          dest!: write_out_Ok)
  next
    case (CkP384 c)
    with assms hdr show ?thesis
      by (auto simp: certify_header_def certify_p384_hdr_bytes_def split: PubKey.splits EcdsaPubKey.splits
          dest!: write_out_Ok)
  next
    case (CkMldsa87 c)
    with assms(1) obtain pk where pk: "cr_pub_key res = PubMldsa pk" by (auto split: PubKey.splits)
    let ?h = "hdr_bytes (response_hdr p NoError)" and ?s = "u32_to_le_bytes (cr_cert_size res)"
    have len: "length pk = 2592" using assms(2) pk by simp
    from assms(1) CkMldsa87 pk
    have w': "w' = w\<lparr>outbuf := splice (splice (splice (splice (outbuf w) 0 ?h) 12 h) 28 pk) 2620 ?s\<rparr>"
      "2624 \<le> length (outbuf w)"
      using hdr len assms(3) by (auto simp: bind_Ok_iff dest!: write_out_Ok)
    have "splice (splice (splice (splice (outbuf w) 0 ?h) 12 h) 28 pk) 2620 ?s =
        splice (outbuf w) 0 (((?h @ h) @ pk) @ ?s)"
      using hdr len assms(3) w'(2)
        splice_append [of 0 ?h h "outbuf w"] splice_append [of 0 "?h @ h" pk "outbuf w"]
        splice_append [of 0 "(?h @ h) @ pk" ?s "outbuf w"]
      by simp
    with w' pk CkMldsa87 hdr len assms(3) show ?thesis by (simp add: certify_header_def)
  qed
qed

section \<open>The command\<close>

context certifying
begin

theorem certify_key_certifies:
  assumes run: "certify_key generate_cert_or_csr d p command loc w = (Ok n, w')"
    and fmt: "ck_format (certify_cmd_of command) = FORMAT_X509"
    and label: "length (ck_label (certify_cmd_of command)) \<le> MAX_UEID_SIZE"
    and small: "addressable chain" and inv: "state_inv (dstate w)" and buf: "length (outbuf w) \<le> USIZE_MAX"
    and issuer_der: "issuer = der 0x30 iname" "length issuer \<le> MAX_ISSUER_NAME_SIZE"
  defines "cmd \<equiv> certify_cmd_of command"
  defines "args \<equiv> certify_args p cmd loc (dstate w)"
  obtains "is" pk c0 c1 rd s sig c2 c3 tbs h sz where
    "up_path (contexts (dstate w)) is" "get_active_context_pos (dstate w) (ck_handle cmd) loc = Ok (hd is)"
    "crypto_derive_pub_key (cops d) (H (measurement_input p vid vsku chain (dstate w) is))
       (ascii ''DPE'') (ck_label cmd) (key_context p) (pub_key_zeroed p) c0 = (Ok pk, c1)"
    "tbs = cert_tbs (dstate w) is p (ca_dice_extensions_are_critical args) issuer (leaf_name H pk) pk
      (leaf_measurements H aki san args (dstate w) is pk) validity"
    "rd 4 (4 + length tbs) = Ok tbs"
    "op_sign_with_alias (cops d) (SignResponseBuffer rd 4 (4 + length tbs)) sig c2 = (Ok s, c3)"
    "n = certify_hdr_size command + unat sz"
    "take (certify_hdr_size command) (outbuf w') = certify_header p pk h sz"
    "certificate_parts p tbs s (take (unat sz) (drop (certify_hdr_size command) (outbuf w')))"
    "svns_add_up (dstate w) is \<longrightarrow>
      certificate_reads p (tbs_items p (ca_dice_extensions_are_critical args)
       (take 20 (ds_bytes (name_serial (leaf_name H pk)))) iname (leaf_name H pk) pk
       (leaf_measurements H aki san args (dstate w) is pk) validity (path_contexts (dstate w) is)) s
       (take (unat sz) (drop (certify_hdr_size command) (outbuf w')))"
    "dstate w' = put_context (hd is) ((contexts (dstate w) ! hd is)\<lparr>handle := h\<rparr>) (dstate w)"
proof -
  let ?st = "dstate w"
  from run fmt obtain res w1 idx c w2 w3 where
    idx: "get_active_context_pos ?st (ck_handle cmd) loc = Ok idx" and
    cert: "create_dpe_cert generate_cert_or_csr d p args (certify_hdr_size command) (cert_result_zeroed p) w = (Ok res, w1)" and
    roll: "roll_onetime_use_handle d (contexts (dstate w1) ! idx) w1 = (Ok c, w2)" and
    set: "set_ctx idx c w2 = (Ok (), w3)" and
    header: "write_header p command res (handle c) w3 = (Ok (), w')" and
    n: "n = certify_hdr_size command + unat (cr_cert_size res)"
    by (auto simp: certify_key_def Let_def bind_Ok_iff cmd_def args_def run_cert_format_def ctx_at_def index_ctx_def
        split: if_splits)
  have a: "ca_handle args = ck_handle cmd" "ca_locality args = loc" "ca_cdi_label args = ascii ''DPE''"
    "ca_key_label args = ck_label cmd" "ca_context args = key_context p" "ca_ueid args = ck_label cmd"
    by (simp_all add: args_def certify_args_def)
  have ueid: "length (ca_ueid args) \<le> MAX_UEID_SIZE" using label by (simp add: a cmd_def)
  have zeroed: "cr_pub_key (cert_result_zeroed p) = pub_key_zeroed p" by (simp add: cert_result_zeroed_def)
  obtain "is" pk c0 c1 rd s sig c2 c3 tbs where
    path: "up_path (contexts ?st) is" "get_active_context_pos ?st (ck_handle cmd) loc = Ok (hd is)" and
    key: "crypto_derive_pub_key (cops d) (H (measurement_input p vid vsku chain ?st is))
       (ascii ''DPE'') (ck_label cmd) (key_context p) (pub_key_zeroed p) c0 = (Ok pk, c1)" and
    res: "cr_pub_key res = pk" "pub_key_wf pk" and st: "dstate w1 = ?st" "length (outbuf w1) = length (outbuf w)" and
    tbs: "tbs = cert_tbs ?st is p (ca_dice_extensions_are_critical args) issuer (leaf_name H pk) pk
      (leaf_measurements H aki san args ?st is pk) validity" "rd 4 (4 + length tbs) = Ok tbs"
    "op_sign_with_alias (cops d) (SignResponseBuffer rd 4 (4 + length tbs)) sig c2 = (Ok s, c3)" and
    reads: "certificate_parts p tbs s (take (unat (cr_cert_size res)) (drop (certify_hdr_size command) (outbuf w1)))"
      "svns_add_up ?st is \<longrightarrow>
      certificate_reads p (tbs_items p (ca_dice_extensions_are_critical args)
       (take 20 (ds_bytes (name_serial (leaf_name H pk)))) iname (leaf_name H pk) pk
       (leaf_measurements H aki san args ?st is pk) validity (path_contexts ?st is)) s
       (take (unat (cr_cert_size res)) (drop (certify_hdr_size command) (outbuf w1)))"
    by (rule create_cert_certifies [OF cert small inv ueid buf issuer_der, unfolded a zeroed])
  let ?h = "handle c" and ?hdr = "certify_header p pk (handle c) (cr_cert_size res)"
  have hd: "hd is = idx" using path(2) idx by simp
  have i: "idx < 64" using position_lt [OF idx] forest_length [OF state_inv_forest [OF inv]] by simp
  have w2: "dstate w2 = ?st" "outbuf w2 = outbuf w1"
    using keepsD [OF keeps_roll [OF view_parts(1)] roll] keepsD [OF keeps_roll [OF view_parts(2)] roll] st by simp_all
  from set w2 have w3: "dstate w3 = put_context idx c ?st" "outbuf w3 = outbuf w1"
    by (auto simp: set_ctx_def bind_Ok_iff split: if_splits)
  have c: "c = (contexts ?st ! idx)\<lparr>handle := ?h\<rparr>" "length ?h = 16"
    using roll_result [OF roll] st(1) state_inv_node [OF inv i]
    by (auto simp: fresh_handle_def node_ok_def sized_def HANDLE_SIZE_def)
  from write_header_result [OF header _ c(2)] res
  have w': "outbuf w' = splice (outbuf w1) 0 ?hdr" "dstate w' = put_context idx c ?st"
    "length ?hdr = certify_hdr_size command" "certify_hdr_size command \<le> length (outbuf w1)"
    using w3 by auto
  have "take (certify_hdr_size command) (outbuf w') = ?hdr"
    "drop (certify_hdr_size command) (outbuf w') = drop (certify_hdr_size command) (outbuf w1)"
    using w'(3,4) by (simp_all add: w'(1) splice_def flip: w'(3))
  with path key tbs n reads w'(2) c(1) show thesis
    by (intro that [of "is" c0 pk c1 tbs rd sig c2 s c3 "cr_cert_size res" ?h]) (simp_all only: hd)
qed

end

section \<open>The software implementation on the test platform\<close>

definition default_validity :: CertValidity where
  "default_validity = \<lparr>not_before = NOT_BEFORE, not_after = NOT_AFTER\<rparr>"

lemma rc_public_key_type:
  assumes "rc_public_key x cfg out s = (Ok pk, s')"
  shows "pub_key_wf pk"
proof (cases out)
  case (PubEcdsa k)
  with assms show ?thesis
    by (cases k) (auto simp: rc_public_key_def bindO_Ok_iff split: SignatureAlgorithm.splits EcdsaAlgorithm.splits)
next
  case (PubMldsa b)
  with assms show ?thesis
    by (auto simp: rc_public_key_def bindO_Ok_iff split: SignatureAlgorithm.splits EcdsaAlgorithm.splits)
qed

interpretation rust_certifying: certifying "rust_default x cfg art pf" rc_absorbed "rc_digest x cfg"
  "\<lambda>s. rc_hasher s \<noteq> None" "art_cert_chain art pf" VENDOR_ID VENDOR_SKU "art_issuer_name art pf" default_validity
  "take MAX_KEY_IDENTIFIER_SIZE (art_key_identifier art pf)" None
  for x cfg art pf
proof (intro certifying.intro certifying_axioms.intro)
  let ?d = "rust_default x cfg art pf"
  show "measurement_env (cops ?d) rc_absorbed (rc_digest x cfg) (\<lambda>s. rc_hasher s \<noteq> None) (pops ?d)
    (art_cert_chain art pf) VENDOR_ID VENDOR_SKU"
    using rust_default.measurement_env_axioms by (simp add: rust_default_def)
  show "digest_wf (rc_digest x cfg bs)" for bs by (simp add: rc_digest_def split: DigestAlgorithm.split)
  show "pub_key_wf pk" if "op_public_key (cops ?d) out c = (Ok pk, c')" for out c pk c'
    using that by (auto simp: rust_default_def rust_crypto_ops_def dest: rc_public_key_type)
  have mldsa: "mldsa_sign_data_inner x k data = Ok s \<Longrightarrow> signature_wf s" for k data s
    by (auto simp: mldsa_sign_data_inner_def bindO_Ok_iff split: if_splits)
  have ecdsa: "p256_signature x k data = Ok s \<Longrightarrow> signature_wf s" "p384_signature x k data = Ok s \<Longrightarrow> signature_wf s"
    for k data s
    by (auto simp: p256_signature_def p384_signature_def bindO_Ok_iff)
  show "signature_wf s" if "op_sign_with_alias (cops ?d) data sig c = (Ok s, c')" for data sig c s c'
    using that by (auto simp: rust_default_def rust_crypto_ops_def rc_sign_with_alias_def bindO_Ok_iff
        split: SignatureAlgorithm.splits EcdsaAlgorithm.splits dest: mldsa ecdsa)
  show "signature_wf s" if "op_sign (cops ?d) data sig c = (Ok s, c')" for data sig c s c'
    using that by (auto simp: rust_default_def rust_crypto_ops_def rc_sign_def bindO_Ok_iff
        split: SignatureAlgorithm.splits EcdsaAlgorithm.splits dest: mldsa ecdsa)
  have pl: "pops ?d = default_platform art pf" by (simp add: rust_default_def)
  show "take n name = art_issuer_name art pf"
    if "get_issuer_name (pops ?d) (replicate MAX_ISSUER_NAME_SIZE 0) t = (Ok (n, name), t')" for t n name t'
  proof (cases "length (art_issuer_name art pf) \<le> MAX_ISSUER_NAME_SIZE")
    case True
    let ?b = "splice (replicate MAX_ISSUER_NAME_SIZE 0) 0 (art_issuer_name art pf)"
    have "length ?b = MAX_ISSUER_NAME_SIZE" using True by simp
    from map_nth_upt [OF this] that True
    have "n = length (art_issuer_name art pf)" "name = ?b"
      by (auto simp: pl get_issuer_name_def default_platform_def default_get_issuer_name_def Let_def bind_Ok_iff)
    then show ?thesis by (simp add: splice_def)
  next
    case False
    with that show ?thesis
      by (auto simp: pl get_issuer_name_def default_platform_def default_get_issuer_name_def Let_def bind_Ok_iff)
  qed
  show "k = take MAX_KEY_IDENTIFIER_SIZE (art_key_identifier art pf)"
    if "get_issuer_key_identifier (pops ?d) (replicate MAX_KEY_IDENTIFIER_SIZE 0) t = (Ok k, t')" for t k t'
    using that map_nth_upt [of "take MAX_KEY_IDENTIFIER_SIZE (art_key_identifier art pf)" MAX_KEY_IDENTIFIER_SIZE]
    by (auto simp: pl get_issuer_key_identifier_def default_platform_def default_get_issuer_key_identifier_def Let_def
        bind_Ok_iff split: if_splits)
  show "v = default_validity" if "op_get_cert_validity (pops ?d) t = (Ok v, t')" for t v t'
    using that by (auto simp: pl default_platform_def default_get_cert_validity_def default_validity_def
        try_extend_from_slice_def bindO_Ok_iff split: if_splits)
  show "length (not_before default_validity) \<le> MAX_VALIDITY_SIZE" "length (not_after default_validity) \<le> MAX_VALIDITY_SIZE"
    by (simp_all add: default_validity_def NOT_BEFORE_def NOT_AFTER_def ascii_def)
  show "None = Some a" if "op_get_subject_alternative_name (pops ?d) t = (Ok a, t')" for t a t'
    using that by (simp add: pl default_platform_def)
qed (simp_all add: san_small_def)

lemma cops_rust_default: "cops (rust_default x cfg art pf) = rust_crypto_ops x cfg"
  by (simp add: rust_default_def)

text \<open>The derived key does not depend on what the crypto implementation has done before.\<close>

lemma public_key_of_private:
  "rc_priv_key s = rc_priv_key t \<Longrightarrow> fst (rc_public_key x cfg out s) = fst (rc_public_key x cfg out t)"
  by (simp only: rc_public_key_def fst_conv)

lemma derived_key_state_free:
  assumes "crypto_derive_pub_key (rust_crypto_ops x cfg) dg i l di out c = (Ok pk, c')"
  shows "fst (crypto_derive_pub_key (rust_crypto_ops x cfg) dg i l di out t) = Ok pk"
proof -
  have run: "crypto_derive_pub_key (rust_crypto_ops x cfg) dg i l di out =
      bind (rc_derive_cdi x cfg dg i) (\<lambda>_. bind (rc_derive_key_pair x cfg l di) (\<lambda>_. rc_public_key x cfg out))"
    by (simp add: crypto_derive_pub_key_def cdi_derive_pub_key_def rust_crypto_ops_def)
  from assms obtain cdi k where "hkdf_derive_cdi x (rc_signature_alg cfg) dg i = Ok cdi"
    "hkdf_get_priv_key x (rc_signature_alg cfg) cdi l di = Ok k"
    by (auto simp: run rc_derive_cdi_def rc_derive_key_pair_def bind_Ok_iff)
  then have "crypto_derive_pub_key (rust_crypto_ops x cfg) dg i l di out u =
      rc_public_key x cfg out (u\<lparr>rc_cdi := cdi, rc_priv_key := k\<rparr>)" for u
    by (simp add: run rc_derive_cdi_def rc_derive_key_pair_def bind_def)
  with assms public_key_of_private [of "t\<lparr>rc_cdi := cdi, rc_priv_key := k\<rparr>" "c\<lparr>rc_cdi := cdi, rc_priv_key := k\<rparr>" x cfg out]
  show ?thesis by simp
qed

end
