(* ===== verification/Demo_Certified.thy ===== *)
theory Demo_Certified
  imports Demo_X509 Certified
begin

text \<open>
  A CertifyKey that succeeds: the root of the tree of \<open>Demo\<close>, the software crypto, and a test platform
  whose issuer name is a DER element.
\<close>

definition cert_art :: artifacts where
  "cert_art = demo_art\<lparr>art_issuer_name := (\<lambda>_. der 0x30 [4])\<rparr>"

definition cert_deps :: "(nat rust_crypto, unit) deps" where
  "cert_deps = rust_default demo_algs new_ecc384 cert_art P384"

definition cert_command :: CertifyKeyCommand where
  "cert_command = CkP384 \<lparr>ck_handle = handle_default, ck_flags = 0, ck_format = FORMAT_X509, ck_label = replicate 48 7\<rparr>"

definition cert_world :: "(nat rust_crypto, unit) world" where
  "cert_world = (demo_world demo_tree)\<lparr>outbuf := demo_buffer\<rparr>"

lemma cert_world_simps [simp]: "dstate cert_world = demo_tree" "outbuf cert_world = demo_buffer"
  by (simp_all add: cert_world_def)

lemma cert_deps_ops: "cops cert_deps = rust_crypto_ops demo_algs new_ecc384" "pops cert_deps = default_platform cert_art P384"
  by (simp_all add: cert_deps_def rust_default_def)

lemma cert_issuer: "art_issuer_name cert_art P384 = der 0x30 [4]" "addressable (art_cert_chain cert_art P384)"
  "art_issuer_sn cert_art P384 = [5]"
  by (simp_all add: cert_art_def demo_art_def addressable_def)

text \<open>The steps of the run, each from any state of the crypto implementation.\<close>

definition cert_key :: PubKey where
  "cert_key = PubEcdsa (EcdsaPub384 (replicate 48 1) (replicate 48 2))"

lemma derive_step:
  "\<exists>w'. derive_cert_key cert_deps args dg Leaf (pub_key_zeroed P384Sha384) w = (Ok (None, cert_key), w')"
  by (simp add: derive_cert_key_def crypto_derive_pub_key_def cdi_derive_pub_key_def cert_deps_ops rust_crypto_ops_def
      rc_derive_cdi_def rc_derive_key_pair_def rc_public_key_def hkdf_derive_cdi_def hkdf_get_priv_key_def hkdf_expand_def
      new_ecc384_def demo_algs_def on_crypto_def bind_def valid_key_def cert_key_def array_def map_replicate_const)

lemma hash_step:
  "\<exists>c'. hash_all (cops cert_deps) vals c = (Ok (rc_digest demo_algs new_ecc384 (concat vals)), c')"
  unfolding cert_deps_ops by (rule rust_hash.hash_all_total)

lemma names_step:
  "\<exists>w'. get_subject_name cert_deps Leaf cert_key (replicate (MAX_HASH_SIZE * 2) 0) w = (Ok name, w')"
  if "name = leaf_name (rc_digest demo_algs new_ecc384) cert_key" for name
proof -
  let ?z = "replicate (MAX_HASH_SIZE * 2) 0"
  obtain c' where h: "hash_all (cops cert_deps) [[4], replicate 48 1, replicate 48 2] (crypto w) =
      (Ok (rc_digest demo_algs new_ecc384 (4 # replicate 48 1 @ replicate 48 2)), c')"
    using hash_step [of "[[4], replicate 48 1, replicate 48 2]" "crypto w"] by auto
  let ?dg = "rc_digest demo_algs new_ecc384 (4 # replicate 48 1 @ replicate 48 2)"
  have wr: "write_hex_str ?dg ?z = (Ok (), splice ?z 0 (hex_of (digest_as_slice ?dg)))"
    by (simp add: write_hex_str_def hex_loop_eq rc_digest_def new_ecc384_def MAX_HASH_SIZE_def)
  have "get_pubkey_serial (cops cert_deps) cert_key ?z (crypto w) = (Ok (splice ?z 0 (hex_of (digest_as_slice ?dg))), c')"
    using h wr
    by (simp add: get_pubkey_serial_def pubkey_digest_def cert_key_def ecdsa_pub_as_slice_def bind_step
        cert_deps_ops(1) rust_crypto_ops_def new_ecc384_def MAX_HASH_SIZE_def)
  moreover have "take 64 (splice ?z 0 (hex_of (digest_as_slice ?dg))) = take 64 (hex_of (digest_as_slice ?dg))"
    "64 \<le> length (splice ?z 0 (hex_of (digest_as_slice ?dg)))"
    by (simp_all add: splice_def rc_digest_def new_ecc384_def MAX_HASH_SIZE_def)
  ultimately show ?thesis using that
    by (auto simp: get_subject_name_def on_crypto_def bind_step leaf_name_def subject_cn_def key_bytes_def cert_key_def)
qed

lemma key_id_step:
  "\<exists>w'. get_subject_key_identifier cert_deps cert_key w = (Ok (leaf_key_id (rc_digest demo_algs new_ecc384) cert_key), w')"
  using hash_step [of "[[4], replicate 48 1, replicate 48 2]" "crypto w"]
  by (auto simp: get_subject_key_identifier_def cert_key_def ecdsa_pub_as_slice_def on_crypto_def bind_def
      leaf_key_id_def key_bytes_def rc_digest_def new_ecc384_def)

lemma platform_steps:
  "\<exists>w'. on_platform (get_issuer_key_identifier (pops cert_deps) (replicate MAX_KEY_IDENTIFIER_SIZE 0)) w = (Ok (replicate 20 6), w')"
  "\<exists>w'. get_subject_alt_name cert_deps w = (Ok None, w')"
  "\<exists>w'. on_platform (op_get_cert_validity (pops cert_deps)) w = (Ok default_validity, w')"
  "\<exists>sid w'. on_platform (op_get_signer_identifier (pops cert_deps)) w = (Ok sid, w')"
  "\<exists>w'. format_args cert_deps FormatX509 v sid w = (Ok (CertArgs (der 0x30 [4]) v), w')"
proof -
  show "\<exists>w'. get_subject_alt_name cert_deps w = (Ok None, w')"
    by (simp add: get_subject_alt_name_def cert_deps_ops default_platform_def)
  show "\<exists>w'. on_platform (op_get_cert_validity (pops cert_deps)) w = (Ok default_validity, w')"
    by (simp add: cert_deps_ops default_platform_def default_get_cert_validity_def default_validity_def on_platform_def
        try_extend_from_slice_def NOT_BEFORE_def NOT_AFTER_def ascii_def)
  show "\<exists>w'. on_platform (get_issuer_key_identifier (pops cert_deps) (replicate MAX_KEY_IDENTIFIER_SIZE 0)) w = (Ok (replicate 20 6), w')"
    by (simp add: cert_deps_ops default_platform_def get_issuer_key_identifier_def default_get_issuer_key_identifier_def
        on_platform_def bind_def cert_art_def demo_art_def map_nth_upt)
  let ?b = "splice (replicate MAX_ISSUER_NAME_SIZE 0) 0 (der 0x30 [4 :: u8])"
  have b: "length ?b = MAX_ISSUER_NAME_SIZE" "take (length (der 0x30 [4 :: u8])) ?b = der 0x30 [4]"
    "\<not> MAX_ISSUER_NAME_SIZE < length (der 0x30 [4 :: u8])"
    using demo_issuer_small by (simp_all add: splice_def)
  have issuer: "default_get_issuer_name cert_art P384 (replicate MAX_ISSUER_NAME_SIZE 0) =
      Ok (length (der 0x30 [4 :: u8]), (!) ?b)"
    using b(3) by (simp add: default_get_issuer_name_def cert_issuer Let_def)
  show "\<exists>sid w'. on_platform (op_get_signer_identifier (pops cert_deps)) w = (Ok sid, w')"
    using b map_nth_upt [OF b(1)]
    by (simp add: cert_deps_ops default_platform_def default_get_signer_identifier_def issuer cert_issuer
        try_extend_from_slice_def on_platform_def del: platform_sizes) (simp add: platform_sizes)
  show "\<exists>w'. format_args cert_deps FormatX509 v sid w = (Ok (CertArgs (der 0x30 [4]) v), w')"
    using b map_nth_upt [OF b(1)]
    by (simp add: format_args_def get_issuer_name_def cert_deps_ops default_platform_def issuer on_platform_def bind_def
        del: platform_sizes)
qed

text \<open>The encoder fits its certificate into the buffer.\<close>

definition cert_signature :: Signature where
  "cert_signature = SigEcdsa (EcdsaSig384 (replicate 48 1) (replicate 48 2))"

lemma alias_step:
  "rd a z = Ok bs \<Longrightarrow> cert_sign_cb cert_deps args dg None rd a z False sig c = (Ok cert_signature, c)"
  by (simp add: cert_sign_cb_def cert_deps_ops rust_crypto_ops_def rc_sign_with_alias_def new_ecc384_def p384_signature_def
      ecdsa_sign_data_inner_def sign_prehash_def read_raw_def demo_algs_def cert_signature_def array_def map_replicate_const)

lemma encoder_step:
  assumes inp: "cert_inputs st is md name pk" and iss: "length issuer \<le> MAX_ISSUER_NAME_SIZE"
    and v: "length (not_before v) \<le> MAX_VALIDITY_SIZE" "length (not_after v) \<le> MAX_VALIDITY_SIZE"
    and buf: "length buf \<le> USIZE_MAX" "base + 59000 \<le> length buf"
  shows "\<exists>n c' buf'. generate_cert_or_csr (CertArgs issuer v) p crit name pk md (cert_sign_cb cert_deps args dg None)
    base sig (c, buf) = (Ok n, (c', buf')) \<and> length buf' = length buf"
proof -
  let ?tbs = "cert_tbs st is p crit issuer name pk md v"
  have wf: "md_wf md" "name_wf name" "pub_key_wf pk" using inp by (simp_all add: cert_inputs_def)
  have "length (tbs_body p crit (take 20 (ds_bytes (name_serial name))) issuer name pk md v (path_contexts st is)) \<le> 40000"
    using tbs_bounds [OF cert_inputs_facts(3,4) [OF inp] wf serial_number(2) [OF wf(2)] iss v, of p crit]
    by (simp add: between_def)
  then have tbs: "length ?tbs \<le> 50000"
    using length_der_le [of "0x30" "tbs_body p crit (take 20 (ds_bytes (name_serial name))) issuer name pk md v
      (path_contexts st is)"] by (simp add: cert_tbs_def tbs_der_def)
  have sig: "signature_wf cert_signature" by (simp add: cert_signature_def)
  have small: "length (signed_der p ?tbs cert_signature) \<le> 59000" by (rule signed_der_small [OF sig tbs])
  have room: "(length buf < base + 4 + length ?tbs) = False" using tbs buf(2) by simp
  note run = generate_certificate [OF inp iss v buf(1), where p = p and crit = crit and base = base and sig = sig and c = c
      and cb = "cert_sign_cb cert_deps args dg None", unfolded room if_False]
  let ?run = "generate_cert_or_csr (CertArgs issuer v) p crit name pk md (cert_sign_cb cert_deps args dg None) base sig (c, buf)"
  from run obtain rd where rd: "rd 4 (4 + length ?tbs) = Ok ?tbs"
    and a: "answered (cert_sign_cb cert_deps args dg None rd 4 (4 + length ?tbs) False sig c) (fst ?run)
      (\<lambda>s c'. let cert = signed_der p ?tbs s
        in if base + length cert \<le> length buf then ?run = (Ok (of_nat (length cert)), (c', splice buf base cert))
           else fst ?run = Err (InternalError CertSizeOverflow))"
    by (elim exE conjE) (rule that)
  have "?run = (Ok (of_nat (length (signed_der p ?tbs cert_signature))), (c, splice buf base (signed_der p ?tbs cert_signature)))"
    using a [unfolded alias_step [where rd = rd, OF rd] answered_def] sig small buf(2) by (simp add: Let_def)
  with small buf(2) show ?thesis by simp
qed

section \<open>The run\<close>

abbreviation cert_args :: CreateDpeCertArgs where
  "cert_args \<equiv> certify_args P384Sha384 (certify_cmd_of cert_command) 0 demo_tree"

abbreviation cert_hash :: "bytes \<Rightarrow> Digest" where
  "cert_hash \<equiv> rc_digest demo_algs new_ecc384"

lemma cert_args_simps: "ca_handle cert_args = handle_default" "ca_locality cert_args = 0"
  "ca_ueid cert_args = replicate 48 7"
  by (simp_all add: certify_args_def cert_command_def)

lemma root_path: "up_path (contexts demo_tree) [0]"
  by (simp add: demo_tree_contexts live_node_def valid_parent_idx_def init_args_def ROOT_INDEX_def)

lemma root_length: "length (contexts demo_tree) = 64" "contexts demo_tree \<noteq> []"
proof -
  show "length (contexts demo_tree) = 64" by (simp add: demo_tree_contexts)
  then show "contexts demo_tree \<noteq> []" by auto
qed

lemma root_nodes:
  "TciNodes_new (hd [0]) (contexts demo_tree) = Ok \<lparr>tn_start_idx = hd [0], tn_contexts = contexts demo_tree\<rparr>"
proof -
  obtain it where "iter_new (hd [0]) (contexts demo_tree) = Ok it"
    "iter_items it = map (\<lambda>i. Ok (contexts demo_tree ! i)) (rev [0])"
    using iter_new_up_path [OF root_path] root_length by (auto simp: rev_map)
  then show ?thesis by (simp add: TciNodes_new_def TciNodes_iter_def Let_def)
qed

lemma root_inputs:
  "cert_inputs demo_tree [0] (leaf_measurements cert_hash (replicate 20 6) None cert_args demo_tree [0] cert_key)
     (leaf_name cert_hash cert_key) cert_key"
proof -
  have aki: "take MAX_KEY_IDENTIFIER_SIZE (art_key_identifier cert_art P384) = replicate 20 6"
    by (simp add: cert_art_def demo_art_def)
  have len: "length (ca_ueid cert_args) \<le> MAX_UEID_SIZE" "length (replicate 20 6 :: bytes) = MAX_KEY_IDENTIFIER_SIZE"
    by (simp_all add: cert_args_simps)
  note wf = rust_certifying.leaf_wf [where x = demo_algs and cfg = new_ecc384 and art = cert_art and pf = P384,
      unfolded aki, OF len]
  show ?thesis
    unfolding cert_inputs_def
  proof (intro conjI)
    show "state_nodes demo_tree (hd [0]) (leaf_measurements cert_hash (replicate 20 6) None cert_args demo_tree [0] cert_key)"
      by (simp only: state_nodes_def leaf_measurements_def measurement_data_def MeasurementData.simps)
    show "pub_key_wf cert_key" by (simp add: cert_key_def)
  qed (rule demo_states_inv(2) root_path wf)+
qed

lemma cert_created:
  "\<exists>res w. create_dpe_cert generate_cert_or_csr cert_deps P384Sha384 cert_args (certify_hdr_size cert_command)
      (cert_result_zeroed P384Sha384) cert_world = (Ok res, w) \<and> cr_pub_key res = cert_key \<and>
    dstate w = demo_tree \<and> length (outbuf w) = 70000"
proof -
  let ?p = P384Sha384
  from rust_certifying.measurement_hash_total [where x = demo_algs and cfg = new_ecc384 and art = cert_art and pf = P384,
      folded cert_deps_def, OF refl refl cert_issuer(2), of cert_world "[0]" ?p] root_path root_length(1)
  obtain dg w1 where w1: "get_dpe_measurement_digest cert_deps ?p handle_default 0 cert_world = (Ok dg, w1)"
    by (auto simp: get_dpe_measurement_digest_def demo_tree_root bind_step)
  obtain w2 where w2: "derive_cert_key cert_deps cert_args dg Leaf (pub_key_zeroed ?p) w1 = (Ok (None, cert_key), w2)"
    using derive_step by blast
  obtain w3 where w3: "get_subject_name cert_deps Leaf cert_key (replicate (MAX_HASH_SIZE * 2) 0) w2 =
      (Ok (leaf_name cert_hash cert_key), w3)" using names_step [OF refl] by blast
  obtain w4 where w4: "get_subject_key_identifier cert_deps cert_key w3 = (Ok (leaf_key_id cert_hash cert_key), w4)"
    using key_id_step by blast
  obtain w5 where w5: "on_platform (get_issuer_key_identifier (pops cert_deps) (replicate MAX_KEY_IDENTIFIER_SIZE 0)) w4 =
      (Ok (replicate 20 6), w5)" using platform_steps(1) by blast
  obtain w6 where w6: "get_subject_alt_name cert_deps w5 = (Ok None, w6)" using platform_steps(2) by blast
  obtain w7 where w7: "on_platform (op_get_cert_validity (pops cert_deps)) w6 = (Ok default_validity, w7)"
    using platform_steps(3) by blast
  obtain sid w8 where w8: "on_platform (op_get_signer_identifier (pops cert_deps)) w7 = (Ok sid, w8)"
    using platform_steps(4) by blast
  obtain w9 where w9: "format_args cert_deps FormatX509 default_validity sid w8 =
      (Ok (CertArgs (der 0x30 [4]) default_validity), w9)" using platform_steps(5) by blast
  have same: "P w9 = P cert_world" "P w6 = P cert_world" if P: "view P" for P :: "(nat rust_crypto, unit) world \<Rightarrow> 'x"
    using keepsD [OF keeps_names(1) [OF P] w1] keepsD [OF keeps_derive_cert_key [OF P] w2]
      keepsD [OF keeps_names(2) [OF P] w3] keepsD [OF keeps_subject_key_identifier [OF P] w4]
      keepsD [OF keeps_on_platform [OF P] w5] keepsD [OF keeps_subject_alt_name [OF P] w6]
      keepsD [OF keeps_on_platform [OF P] w7] keepsD [OF keeps_on_platform [OF P] w8]
      keepsD [OF keeps_format_args [OF P] w9] by simp_all
  note st = same [OF view_parts(1)] and outs = same [OF view_parts(2)]
  let ?md = "measurement_data \<lparr>tn_start_idx = hd [0], tn_contexts = contexts demo_tree\<rparr> cert_args Leaf demo_tree
    (leaf_key_id cert_hash cert_key) (replicate 20 6) None"
  let ?sig = "signature_zeroed (op_signature_algorithm (cops cert_deps) (crypto w6))"
  have asks: "ask (\<lambda>st. get_active_context_pos st handle_default 0) w6 = (Ok (hd [0]), w6)"
    "ask (\<lambda>st. TciNodes_new (hd [0]) (contexts st)) w6 = (Ok \<lparr>tn_start_idx = hd [0], tn_contexts = contexts demo_tree\<rparr>, w6)"
    by (simp_all only: ask_apply st cert_world_simps root_nodes) (simp add: demo_tree_root)
  have room: "certify_hdr_size cert_command + 59000 \<le> length demo_buffer"
    by (simp add: demo_buffer_length cert_command_def)
  obtain sz c' buf' where enc: "generate_cert_or_csr (CertArgs (der 0x30 [4]) default_validity) ?p
      (ca_dice_extensions_are_critical cert_args) (leaf_name cert_hash cert_key) cert_key ?md
      (cert_sign_cb cert_deps cert_args dg None) (certify_hdr_size cert_command) ?sig (crypto w9, demo_buffer) =
      (Ok sz, (c', buf'))" and buf': "length buf' = length demo_buffer"
    by (rule exE [OF encoder_step [where p = ?p and crit = "ca_dice_extensions_are_critical cert_args" and args = cert_args
          and dg = dg and sig = ?sig and c = "crypto w9", OF root_inputs [unfolded leaf_measurements_def] demo_issuer_small
          rust_certifying.validity_small demo_buffer_small room]])
      (elim exE conjE, rule that)
  let ?w = "w9\<lparr>crypto := c', outbuf := buf'\<rparr>"
  have enc': "on_encoder (generate_cert_or_csr (CertArgs (der 0x30 [4]) default_validity) ?p
      (ca_dice_extensions_are_critical cert_args) (leaf_name cert_hash cert_key) cert_key ?md
      (cert_sign_cb cert_deps cert_args dg None) (certify_hdr_size cert_command) ?sig) w9 = (Ok sz, ?w)"
    unfolding on_encoder_def outs cert_world_simps enc prod.case by (rule refl)
  have a: "ca_handle cert_args = handle_default" "ca_locality cert_args = 0"
    "cr_pub_key (cert_result_zeroed ?p) = pub_key_zeroed ?p"
    by (simp_all add: cert_args_simps cert_result_zeroed_def)
  have "\<exists>res. create_dpe_cert generate_cert_or_csr cert_deps ?p cert_args (certify_hdr_size cert_command) (cert_result_zeroed ?p)
      cert_world = (Ok res, ?w) \<and> cr_pub_key res = cert_key"
    by (simp only: create_dpe_cert_def create_dpe_cert_or_csr_def Let_def a bind_step w1 w2 prod.case w3 w4 w5
        w6 asks gets_apply st cert_world_simps w7 w8 w9 enc') simp
  moreover have "dstate ?w = demo_tree" "length (outbuf ?w) = 70000" using st(1) buf' by (simp_all add: demo_buffer_length)
  ultimately show ?thesis by blast
qed

lemma header_written:
  assumes "cr_pub_key res = cert_key" "length (outbuf v) = 70000"
  shows "\<exists>w'. write_header P384Sha384 cert_command res handle_default v = (Ok (), w')"
proof -
  let ?hdr = "certify_p384_hdr_bytes \<lparr>k3_hdr = response_hdr P384Sha384 NoError, k3_handle = handle_default,
    k3_pubkey_x = replicate 48 1, k3_pubkey_y = replicate 48 2, k3_cert_size = cr_cert_size res\<rparr>"
  have "length ?hdr = 128" by (simp add: certify_p384_hdr_bytes_def handle_default_def HANDLE_SIZE_def)
  then have "slice_write_at 0 ?hdr (outbuf v) = (Ok (), splice (outbuf v) 0 ?hdr)"
    using assms(2) by (simp add: slice_write_at_Ok USIZE_MAX_def)
  with assms(1) show ?thesis by (auto simp: cert_command_def cert_key_def write_out_def)
qed

lemma cert_command_runs:
  "\<exists>n w'. certify_key generate_cert_or_csr cert_deps P384Sha384 cert_command 0 cert_world = (Ok n, w')"
proof -
  obtain res w where res: "create_dpe_cert generate_cert_or_csr cert_deps P384Sha384 cert_args (certify_hdr_size cert_command)
      (cert_result_zeroed P384Sha384) cert_world = (Ok res, w)" "cr_pub_key res = cert_key"
    and w: "dstate w = demo_tree" "length (outbuf w) = 70000" using cert_created by blast
  have root: "handle (contexts demo_tree ! 0) = handle_default" "locality (contexts demo_tree ! 0) = 0"
    "allow_x509 (contexts demo_tree ! 0)" "sup_x509 (support demo_tree)"
    by (simp_all add: demo_tree_contexts init_args_def activate_def context_flag_defs demo_tree_with_def)
  have cmd: "ck_handle (certify_cmd_of cert_command) = handle_default"
    "ck_format (certify_cmd_of cert_command) = FORMAT_X509" by (simp_all add: cert_command_def)
  let ?v = "w\<lparr>dstate := put_context 0 (contexts demo_tree ! 0) demo_tree\<rparr>"
  have store: "set_ctx 0 (contexts demo_tree ! 0) w = (Ok (), ?v)"
    using w(1) root_length(2) by (simp add: set_ctx_def bind_def)
  obtain w' where header: "write_header P384Sha384 cert_command res handle_default ?v = (Ok (), w')"
    using header_written [OF res(2), of ?v] w(2) by auto
  have "certify_key generate_cert_or_csr cert_deps P384Sha384 cert_command 0 cert_world =
      (Ok (certify_hdr_size cert_command + unat (cr_cert_size res)), w')"
    using res(1) w(1) root_length root store header
    by (simp add: certify_key_def Let_def cmd demo_tree_root ctx_at_def index_ctx_def run_cert_format_def bind_step
        roll_onetime_use_handle_def del: write_header.simps)
  then show ?thesis by blast
qed

section \<open>A platform that hands out nothing\<close>

definition stuck_deps :: "(nat rust_crypto, unit) deps" where
  "stuck_deps = cert_deps\<lparr>pops := (default_platform cert_art P384)\<lparr>op_get_certificate_chain :=
     (\<lambda>offset sz buf. ret (0, \<lambda>i. 0))\<rparr>\<rparr>"

lemma stuck_deps_stuck: "hands_out_nothing (pops stuck_deps)" "cops stuck_deps = rust_crypto_ops demo_algs new_ecc384"
  by (simp_all add: stuck_deps_def hands_out_nothing_def cert_deps_ops)

text \<open>A root that asks for the internal input \<open>dice\<close>.\<close>

definition dice_root :: State where
  "dice_root = put_context 0 ((contexts demo_root ! 0)\<lparr>f_uses_internal_input_dice := U8Bool_new True\<rparr>) demo_root"

lemma dice_root_path:
  "up_path (contexts dice_root) [0]" "length (contexts dice_root) \<le> 64" "uses_dice (contexts dice_root) [0]"
  "\<not> uses_info (contexts dice_root) [0]"
  by (simp_all add: dice_root_def demo_root_def live_node_def valid_parent_idx_def init_args_def ROOT_INDEX_def
      uses_dice_def uses_info_def context_flag_defs activate_def)

end
