(* ===== verification/Answers.thy ===== *)
theory Answers
  imports Panic_Check
begin

text \<open>
  What a client learns from a response. A handler that runs on a buffer of the size of its response
  leaves there a structure whose header says success, and a handler that fails has not changed the
  state: an answer with an error status means that nothing has happened. The one exception is
  UpdateContextMeasurement, which stores the parent's new handle before it draws the child's.
\<close>

section \<open>A logic with the response buffer\<close>

text \<open>
  \<open>yields m Q E st b\<close>: run with the DPE state \<open>st\<close> and the buffer \<open>b\<close>, \<open>m\<close> either yields a value, a state
  and a buffer related by \<open>Q\<close>, or ends in another way and a state related by \<open>E\<close>.
\<close>

definition yields :: "('c, 'p, 'a) dpe \<Rightarrow> ('a \<Rightarrow> State \<Rightarrow> bytes \<Rightarrow> bool) \<Rightarrow> (stop \<Rightarrow> State \<Rightarrow> bool) \<Rightarrow>
    State \<Rightarrow> bytes \<Rightarrow> bool" where
  "yields m Q E st b \<longleftrightarrow> (\<forall>w. dstate w = st \<longrightarrow> outbuf w = b \<longrightarrow>
     (case m w of (Ok x, w') \<Rightarrow> Q x (dstate w') (outbuf w') | (r, w') \<Rightarrow> E (ending r) (dstate w')))"

lemma yieldsI:
  fixes m :: "('c, 'p, 'a) dpe"
  assumes "\<And>w x w'. dstate w = st \<Longrightarrow> outbuf w = b \<Longrightarrow> m w = (Ok x, w') \<Longrightarrow> Q x (dstate w') (outbuf w')"
    and "\<And>w r w'. dstate w = st \<Longrightarrow> outbuf w = b \<Longrightarrow> m w = (r, w') \<Longrightarrow> (\<And>x. r \<noteq> Ok x) \<Longrightarrow>
      E (ending r) (dstate w')"
  shows "yields m Q E st b"
  unfolding yields_def
proof (intro allI impI)
  fix w :: "('c, 'p) world" assume w: "dstate w = st" "outbuf w = b"
  obtain r w' where m: "m w = (r, w')" by fastforce
  show "case m w of (Ok x, w') \<Rightarrow> Q x (dstate w') (outbuf w') | (r, w') \<Rightarrow> E (ending r) (dstate w')"
    using assms(1) [OF w] assms(2) [OF w m] m by (cases r) simp_all
qed

lemma yieldsD:
  "yields m Q E st b \<Longrightarrow> dstate w = st \<Longrightarrow> outbuf w = b \<Longrightarrow> m w = (Ok x, w') \<Longrightarrow> Q x (dstate w') (outbuf w')"
  unfolding yields_def by fastforce

lemma yieldsD_abort:
  "yields m Q E st b \<Longrightarrow> dstate w = st \<Longrightarrow> outbuf w = b \<Longrightarrow> m w = (r, w') \<Longrightarrow> (\<And>x. r \<noteq> Ok x) \<Longrightarrow>
     E (ending r) (dstate w')"
  unfolding yields_def by (cases r) fastforce+

lemma yields_mono:
  assumes "yields m Q E st b" "\<And>x s b'. Q x s b' \<Longrightarrow> Q' x s b'" "\<And>r s. E r s \<Longrightarrow> E' r s"
  shows "yields m Q' E' st b"
proof (rule yieldsI)
  fix w x w' assume "dstate w = st" "outbuf w = b" "m w = (Ok x, w')"
  then show "Q' x (dstate w') (outbuf w')" by (intro assms(2) yieldsD [OF assms(1)])
next
  fix w r w' assume "dstate w = st" "outbuf w = b" "m w = (r, w')" "\<And>x. r \<noteq> Ok x"
  then show "E' (ending r) (dstate w')" by (intro assms(3) yieldsD_abort [OF assms(1)])
qed

text \<open>What the logic of the state says of an action that leaves the buffer alone.\<close>

lemma yields_sp:
  assumes "sp m (\<lambda>x s. Q x s b) E st" "keeps outbuf m"
  shows "yields m Q E st b"
proof (rule yieldsI)
  fix w x w' assume w: "dstate w = st" "outbuf w = b" "m w = (Ok x, w')"
  from spD [OF assms(1) w(1,3)] keepsD [OF assms(2) w(3)] w(2) show "Q x (dstate w') (outbuf w')" by simp
qed (rule spD_abort [OF assms(1)])

named_theorems yields_intros \<open>rules of yields\<close>

lemma yields_bind [yields_intros]:
  assumes "yields m (\<lambda>x. yields (f x) Q E) E st b"
  shows "yields (bind m f) Q E st b"
proof (rule yieldsI)
  fix w x w'
  assume w: "dstate w = st" "outbuf w = b" and "bind m f w = (Ok x, w')"
  then obtain y s where y: "m w = (Ok y, s)" "f y s = (Ok x, w')" by (auto simp: bind_Ok_iff)
  from yieldsD [OF assms w y(1)] have "yields (f y) Q E (dstate s) (outbuf s)" .
  from yieldsD [OF this refl refl y(2)] show "Q x (dstate w') (outbuf w')" .
next
  fix w r w'
  assume w: "dstate w = st" "outbuf w = b" and bd: "bind m f w = (r, w')" and r: "\<And>x. r \<noteq> Ok x"
  from bd show "E (ending r) (dstate w')"
  proof (cases rule: bind_cases)
    case (ok x s')
    have "yields (f x) Q E (dstate s') (outbuf s')" using yieldsD [OF assms w ok(1)] .
    with ok r show ?thesis by (auto dest: yieldsD_abort)
  qed (use yieldsD_abort [OF assms w] r in auto)
qed

lemma yields_if [yields_intros]:
  "(c \<Longrightarrow> yields m Q E st b) \<Longrightarrow> (\<not> c \<Longrightarrow> yields n Q E st b) \<Longrightarrow> yields (if c then m else n) Q E st b"
  by simp

lemma yields_case_prod [yields_intros]:
  "(\<And>x y. v = (x, y) \<Longrightarrow> yields (f x y) Q E st b) \<Longrightarrow> yields (case v of (x, y) \<Rightarrow> f x y) Q E st b"
  by (cases v) auto

lemma keeps_state_steps [keeps_intros]:
  "keeps outbuf (on_state f)" "keeps outbuf (set_ctx i c)" "keeps outbuf (set_ctx_or i c e)"
  "keeps outbuf (try_state g)"
proof -
  show state: "keeps outbuf (on_state f)" for f by (simp add: keeps_def)
  show "keeps outbuf (set_ctx i c)" "keeps outbuf (set_ctx_or i c e)" "keeps outbuf (try_state g)"
    unfolding set_ctx_def set_ctx_or_def try_state_def by (intro keeps_intros state)+
qed

lemmas yields_steps [yields_intros] =
  yields_sp [OF sp_ret keeps_ret] yields_sp [OF sp_throw keeps_throw] yields_sp [OF sp_lift keeps_lift]
  yields_sp [OF sp_gets keeps_gets] yields_sp [OF sp_guard keeps_guard] yields_sp [OF sp_ask keeps_ask]
  yields_sp [OF sp_on_state keeps_state_steps(1)] yields_sp [OF sp_on_crypto keeps_on_crypto [OF view_parts(2)]]
  yields_sp [OF sp_on_platform keeps_on_platform [OF view_parts(2)]] yields_sp [OF sp_ctx_at keeps_ctx_at]
  yields_sp [OF sp_index_ctx keeps_index_ctx] yields_sp [OF sp_set_ctx keeps_state_steps(2)]
  yields_sp [OF sp_set_ctx_or keeps_state_steps(3)]
  yields_sp [OF sp_generate keeps_generate_new_handle [OF view_parts(2)]]
  yields_sp [OF sp_add_tci keeps_add_tci [OF view_parts(2)]] yields_sp [OF sp_try_state keeps_state_steps(4)]

text \<open>A write that fits into a buffer of the address space succeeds.\<close>

abbreviation fitting :: "nat \<Rightarrow> bytes \<Rightarrow> bool" where
  "fitting n b \<equiv> n \<le> length b \<and> length b \<le> USIZE_MAX"

lemma write_out_fits:
  "fitting (off + length bs) (outbuf w) \<Longrightarrow> write_out off bs w = (Ok (), w\<lparr>outbuf := splice (outbuf w) off bs\<rparr>)"
  by (simp add: write_out_def slice_write_at_eq)

lemma yields_write_out [yields_intros]:
  assumes "off + length bs \<le> length b \<Longrightarrow> Q () st (splice b off bs)"
    and "\<not> fitting (off + length bs) b \<Longrightarrow> E (Err InvalidResponseBuf) st"
  shows "yields (write_out off bs) Q E st b"
proof (rule yieldsI)
  fix w x w' assume w: "dstate w = st" "outbuf w = b" "write_out off bs w = (Ok x, w')"
  with write_out_result [OF w(3)] assms(1) show "Q x (dstate w') (outbuf w')" by auto
next
  fix w r w'
  assume w: "dstate w = st" "outbuf w = b" "write_out off bs w = (r, w')" and r: "\<And>x. r \<noteq> Ok x"
  have "\<not> fitting (off + length bs) b" using write_out_fits [of off bs w] w r by auto
  with write_out_result [OF w(3)] w r assms(2) show "E (ending r) (dstate w')" by auto
qed

lemma yields_write_response [yields_intros]:
  assumes "length bs \<le> length b \<Longrightarrow> Q (length bs) st (splice b 0 bs)"
    and "\<not> fitting (length bs) b \<Longrightarrow> E (Err InvalidResponseBuf) st"
  shows "yields (write_response bs) Q E st b"
  unfolding write_response_def by (intro yields_intros) (use assms in simp_all)

section \<open>The header of a response\<close>

text \<open>A buffer that begins with the header of a success.\<close>

definition labelled :: "DpeProfile \<Rightarrow> nat \<Rightarrow> bytes \<Rightarrow> bool" where
  "labelled p n b \<longleftrightarrow> length b = n \<and> take 12 b = hdr_bytes (response_hdr p NoError)"

lemma labelled_header:
  "length b = n \<Longrightarrow> 12 + length rest \<le> n \<Longrightarrow> labelled p n (splice b 0 (hdr_bytes (response_hdr p NoError) @ rest))"
  by (simp add: labelled_def splice_def)

lemmas labelled_bare = labelled_header [where rest = "[]", simplified]

lemma labelled_beyond:
  "labelled p n b \<Longrightarrow> 12 \<le> off \<Longrightarrow> off + length bs \<le> n \<Longrightarrow> labelled p n (splice b off bs)"
  by (auto simp: labelled_def splice_def min_def)

text \<open>A handler that answers with a labelled buffer or leaves the state as it was.\<close>

abbreviation answers_or_keeps :: "DpeProfile \<Rightarrow> ('c, 'p, 'a) dpe \<Rightarrow> State \<Rightarrow> bytes \<Rightarrow> bool" where
  "answers_or_keeps p m st b \<equiv> yields m (\<lambda>_ _. labelled p (length b)) (\<lambda>_ st'. st' = st) st b"

lemma fresh_length: "fresh_handle st h \<Longrightarrow> length h = HANDLE_SIZE"
  by (simp add: fresh_handle_def)

lemma rolled_length: "rolled st c c' \<Longrightarrow> length (handle c') = HANDLE_SIZE"
  by (auto simp: rolled_def fresh_length split: if_splits)

lemma length_handle_invalid: "length handle_invalid = HANDLE_SIZE"
  by (simp add: handle_invalid_def)

lemmas handle_lengths = fresh_length rolled_length length_handle_invalid HANDLE_SIZE_def

lemma yields_roll [yields_intros]:
  "(\<And>c'. rolled st c c' \<Longrightarrow> Q c' st b) \<Longrightarrow> (\<And>r. E r st) \<Longrightarrow> yields (roll_onetime_use_handle d c) Q E st b"
  by (rule yields_sp [OF sp_roll keeps_roll [OF view_parts(2)]])

lemma init_ctx_answers:
  assumes "fitting 28 b"
  shows "answers_or_keeps p (init_ctx d p cmd loc) st b"
  unfolding init_ctx_def new_handle_resp_bytes_def
  by (intro yields_intros) (use assms in \<open>auto simp: handle_lengths dest: inactive_lt intro!: labelled_header\<close>)

lemma rotate_ctx_answers:
  assumes "fitting 28 b"
  shows "answers_or_keeps p (rotate_ctx d p cmd loc) st b"
  unfolding rotate_ctx_def new_handle_resp_bytes_def
  by (intro yields_intros) (use assms in \<open>auto simp: handle_lengths intro!: labelled_header\<close>)

lemma destroy_ctx_answers:
  assumes "fitting 12 b"
  shows "answers_or_keeps p (destroy_ctx d p cmd loc) st b"
  unfolding destroy_ctx_def
  by (intro yields_intros) (use assms in \<open>auto simp: handle_lengths intro!: labelled_bare\<close>)

lemma get_profile_answers:
  assumes "fitting 32 b"
  shows "answers_or_keeps p (get_profile_cmd d p loc) st b"
  unfolding get_profile_cmd_def get_profile_def get_profile_resp_bytes_def GetProfileResp_new_def
  by (intro yields_intros)
    (use assms in \<open>auto simp: response_hdr_def ResponseHdr_new_def get_error_code_NoError
      intro!: labelled_header [unfolded response_hdr_def ResponseHdr_new_def get_error_code_NoError]\<close>)

lemma get_certificate_chain_answers:
  assumes "fitting 2064 b"
  shows "answers_or_keeps p (get_certificate_chain_cmd d p cmd loc) st b"
  unfolding get_certificate_chain_cmd_def cert_chain_resp_bytes_def
  by (intro yields_intros) (auto intro!: labelled_header)

lemma sign_response_header: "\<exists>rest. sign_response p h s = hdr_bytes (response_hdr p NoError) @ rest"
  by (cases "(p, h, s)" rule: sign_response.cases)
    (auto simp: sign_p256_resp_bytes_def sign_p384_resp_bytes_def sign_mldsa_resp_bytes_def)

lemma sign_answers: "answers_or_keeps p (sign_cmd d p cmd loc) st b"
proof -
  have label: "labelled p (length b) (splice b 0 (sign_response p h s))" if "length (sign_response p h s) \<le> length b"
    for h s
    using sign_response_header [of p h s] that by (auto intro!: labelled_header)
  have sign: "yields (dpe_sign d p i l data) Q E st b" if "\<And>x. Q x st b" "\<And>r. E r st" for i l data Q E
    by (intro yields_sp sp_keeps that) (simp_all add: dpe_sign_def keeps_intros)
  show ?thesis
    unfolding sign_cmd_def by (intro yields_intros sign) (auto dest: position_lt intro: label)
qed

text \<open>How the drawing of a handle can fail: the attempts run out, or the random generator fails.\<close>

definition handle_failure :: "('c, 'p) deps \<Rightarrow> stop \<Rightarrow> bool" where
  "handle_failure d r \<longleftrightarrow> r = Err (InternalError HandleGenerationExhausted) \<or>
     (\<exists>x n s s'. rand_bytes (cops d) n s = (x, s') \<and> \<not> is_ok x \<and> r = ending (map_err Crypto x))"

lemma new_handle_failure:
  "new_handle_loop d n w = (r, w') \<Longrightarrow> (\<And>x. r \<noteq> Ok x) \<Longrightarrow> handle_failure d (ending r)"
proof (induction n arbitrary: w)
  case (Suc n)
  obtain x s where x: "rand_bytes (cops d) HANDLE_SIZE (crypto w) = (x, s)" by fastforce
  show ?case
  proof (cases "is_ok x")
    case True
    with x Suc show ?thesis by (cases x) (auto simp: bind_def on_crypto_def split: if_splits)
  next
    case False
    with x Suc.prems(1) have "ending r = ending (map_err Crypto x)"
      by (cases x) (auto simp: bind_def on_crypto_def)
    with x False show ?thesis unfolding handle_failure_def by blast
  qed
qed (auto simp: handle_failure_def)

lemma yields_roll_or:
  assumes "\<And>c'. rolled st c c' \<Longrightarrow> Q c' st b" "\<And>r. handle_failure d r \<Longrightarrow> E r st"
  shows "yields (roll_onetime_use_handle d c) Q E st b"
proof (cases "is_default (handle c)")
  case True
  with assms(1) show ?thesis
    by (simp add: roll_onetime_use_handle_def) (intro yields_intros, simp add: rolled_def)
next
  case False
  have "yields (generate_new_handle d) (\<lambda>h st' b'. Q (c\<lparr>handle := h\<rparr>) st' b') E st b"
  proof (rule yieldsI)
    fix w h w' assume w: "dstate w = st" "outbuf w = b" "generate_new_handle d w = (Ok h, w')"
    from assms(1) [of "c\<lparr>handle := h\<rparr>"] generate_new_handle_fresh [OF w(3)] w(1,2) False
      keepsD [OF keeps_generate_new_handle [OF view_parts(1)] w(3)]
      keepsD [OF keeps_generate_new_handle [OF view_parts(2)] w(3)]
    show "Q (c\<lparr>handle := h\<rparr>) (dstate w') (outbuf w')" by (auto simp: rolled_def)
  next
    fix w r w' assume w: "dstate w = st" "outbuf w = b" "generate_new_handle d w = (r, w')" "\<And>x. r \<noteq> Ok x"
    from new_handle_failure [OF w(3) [unfolded generate_new_handle_def] w(4)]
      keepsD [OF keeps_generate_new_handle [OF view_parts(1)] w(3)] w(1) assms(2)
    show "E (ending r) (dstate w')" by simp
  qed
  then show ?thesis using False
    by (simp add: roll_onetime_use_handle_def) (intro yields_bind, auto elim!: yields_mono intro: yields_intros)
qed

text \<open>A state in which one context has a new handle, and nothing else is new.\<close>

definition handle_replaced :: "State \<Rightarrow> State \<Rightarrow> bool" where
  "handle_replaced st st' \<longleftrightarrow>
     (\<exists>i c'. i < length (contexts st) \<and> rolled st (contexts st ! i) c' \<and> st' = put_context i c' st)"

lemma update_answers:
  assumes "fitting 44 b"
  shows "yields (update_context_measurement d p cmd loc) (\<lambda>_ _. labelled p (length b))
    (\<lambda>r st'. st' = st \<or> handle_failure d r \<and> handle_replaced st st') st b"
  unfolding update_context_measurement_def update_resp_bytes_def
  by (intro yields_bind yields_roll_or yields_steps yields_write_response)
    (use assms in \<open>auto simp: handle_lengths handle_replaced_def intro!: labelled_header\<close>)

section \<open>Commands that create a certificate\<close>

text \<open>The public key of a profile, as the structure of its response holds it.\<close>

fun key_fits :: "DpeProfile \<Rightarrow> PubKey \<Rightarrow> bool" where
  "key_fits P256Sha256 (PubEcdsa (EcdsaPub256 x y)) \<longleftrightarrow> length x = 32 \<and> length y = 32"
| "key_fits P384Sha384 (PubEcdsa (EcdsaPub384 x y)) \<longleftrightarrow> length x = 48 \<and> length y = 48"
| "key_fits Mldsa87 (PubMldsa k) \<longleftrightarrow> length k = 2592"
| "key_fits _ _ \<longleftrightarrow> False"

definition cert_fits :: "DpeProfile \<Rightarrow> CreateDpeCertResult \<Rightarrow> bool" where
  "cert_fits p res \<longleftrightarrow> key_fits p (cr_pub_key res) \<and> length (cr_exported_cdi_handle res) = MAX_EXPORTED_CDI_SIZE"

text \<open>A CertifyKey command of a profile; the other commands are the same for all.\<close>

fun of_profile :: "DpeProfile \<Rightarrow> CertifyKeyCommand \<Rightarrow> bool" where
  "of_profile p (CkP256 _) \<longleftrightarrow> p = P256Sha256"
| "of_profile p (CkP384 _) \<longleftrightarrow> p = P384Sha384"
| "of_profile p (CkMldsa87 _) \<longleftrightarrow> p = Mldsa87"

definition of_instance :: "DpeProfile \<Rightarrow> Command \<Rightarrow> bool" where
  "of_instance p c \<longleftrightarrow> (\<forall>cmd. c = CertifyKey cmd \<longrightarrow> of_profile p cmd)"

definition updates_measurement :: "Command \<Rightarrow> bool" where
  "updates_measurement c \<longleftrightarrow> (\<exists>cmd. c = UpdateContextMeasurement cmd)"

lemma exported_length:
  "derive_exported_cdi ops dg i s = (Ok h, s') \<Longrightarrow> length h = MAX_EXPORTED_CDI_SIZE"
  by (auto simp: derive_exported_cdi_def bind_Ok_iff)

text \<open>A crypto implementation that fills the key it is given in its own form.\<close>

locale answering = calm_env d chain for d :: "('c, 'p) deps" and chain :: bytes +
  assumes key_fits: "op_public_key (cops d) (pub_key_zeroed p) c = (Ok pk, c') \<Longrightarrow> key_fits p pk"
begin

lemma keeps_buffer_length:
  assumes "calm_gen gen"
  shows "keeps (\<lambda>w. length (outbuf w)) (create_dpe_cert_or_csr gen d p args fmt t base out)"
proof -
  have view: "view (\<lambda>w. length (outbuf w))" by (simp add: view_def)
  have st: "steady (\<lambda>s. length (snd s)) (gen x p crit name pk md (cert_sign_cb d args dg exported) base sig)"
    for x crit name pk md dg exported base sig
    using assms calm_sign_callback unfolding calm_gen_def by blast
  have enc: "keeps (\<lambda>w. length (outbuf w))
      (on_encoder (gen x p crit name pk md (cert_sign_cb d args dg exported) base sig))"
    for x crit name pk md dg exported base sig
    using st [of x crit name pk md dg exported base sig]
    by (simp add: keeps_def on_encoder_def split_beta steady_def)
  show ?thesis
    unfolding create_dpe_cert_or_csr_def Let_def by (intro keeps_intros view enc)
qed

lemma cert_result_fits:
  assumes "create_dpe_cert_or_csr gen d p args fmt t base (cert_result_zeroed p) w = (Ok res, w')"
  shows "cert_fits p res"
proof -
  from assms obtain dg exported pk v v' where k: "derive_cert_key d args dg t (pub_key_zeroed p) v = (Ok (exported, pk), v')"
    and res: "cr_pub_key res = pk" "cr_exported_cdi_handle res =
      (case exported of None \<Rightarrow> replicate MAX_EXPORTED_CDI_SIZE 0 | Some h \<Rightarrow> h)"
    by (auto simp: create_dpe_cert_or_csr_def bind_Ok_iff Let_def cert_result_zeroed_def)
  then show ?thesis
    by (cases t) (auto simp: cert_fits_def derive_cert_key_def bind_Ok_iff on_crypto_Ok crypto_derive_pub_key_def
        cdi_derive_pub_key_def exported_length dest: key_fits)
qed

lemma yields_cert:
  assumes "calm_gen gen" "\<And>r. E r st"
    and "\<And>res b'. cert_fits p res \<Longrightarrow> length b' = length b \<Longrightarrow> Q res st b'"
  shows "yields (create_dpe_cert_or_csr gen d p args fmt t base (cert_result_zeroed p)) Q E st b"
proof (rule yieldsI)
  fix w res w'
  assume w: "dstate w = st" "outbuf w = b"
    "create_dpe_cert_or_csr gen d p args fmt t base (cert_result_zeroed p) w = (Ok res, w')"
  from cert_result_fits [OF w(3)] keepsD [OF keeps_buffer_length [OF assms(1)] w(3)]
    keepsD [OF keeps_create_dpe_cert_or_csr w(3)] w(1,2) assms(3)
  show "Q res (dstate w') (outbuf w')" by simp
next
  fix w r w'
  assume "dstate w = st"
    "create_dpe_cert_or_csr gen d p args fmt t base (cert_result_zeroed p) w = (r, w')"
  with keepsD [OF keeps_create_dpe_cert_or_csr this(2)] assms(2) show "E (ending r) (dstate w')" by simp
qed

lemma write_header_answers:
  assumes "of_profile p cmd" "cert_fits p res" "length h = HANDLE_SIZE" "fitting (certify_hdr_size cmd) b"
    and "\<And>b'. labelled p (length b) b' \<Longrightarrow> Q () st b'"
  shows "yields (write_header p cmd res h) Q E st b"
  using assms(1-4)
  by (cases cmd; cases "cr_pub_key res")
    (auto simp: cert_fits_def certify_p256_hdr_bytes_def certify_p384_hdr_bytes_def HANDLE_SIZE_def
      split: EcdsaPubKey.split intro!: yields_intros assms(5) labelled_header labelled_beyond labelled_bare)

lemma certify_answers:
  assumes "calm_gen gen" "of_profile p cmd" "fitting (certify_hdr_size cmd) b"
  shows "answers_or_keeps p (certify_key gen d p cmd loc) st b"
proof -
  have cert: "yields (run_cert_format gen f d p args base (cert_result_zeroed p)) Q E st b"
    if "\<And>r. E r st" "\<And>res b'. cert_fits p res \<Longrightarrow> length b' = length b \<Longrightarrow> Q res st b'" for f args base Q E
    unfolding run_cert_format_def create_dpe_cert_def create_dpe_csr_def
    by (intro yields_intros yields_cert assms(1) that)
  show ?thesis
    unfolding certify_key_def Let_def
    by (intro yields_intros cert write_header_answers assms(2)) (use assms(3) in \<open>auto simp: handle_lengths dest: position_lt\<close>)
qed

text \<open>DeriveContext: the handle of the parent is as long as any, in each of the three forms.\<close>

lemma destroyed_handle:
  assumes "destroy_context h st loc = Ok st'" "get_active_context_pos st h loc = Ok i" "i < 64"
  shows "handle (contexts st' ! i) = handle_invalid"
proof -
  from get_active_context_pos_Ok [OF assms(2)] have i: "i < length (contexts st)" by (simp add: active_at_def)
  from assms obtain ds retired self where self: "children_add_child ds i = Ok self"
    and st': "st' = destroy_all (children_add_children self retired) st"
    by (auto simp: destroy_context_def get_active_context_and_idx_def bindO_Ok_iff split: if_splits)
  have "i \<in> kids (children_add_children self retired)" using self [unfolded children_add_child_ok] kids_add_child [of i ds] by auto
  with destroy_all_destroyed [of "children_add_children self retired" st] i show ?thesis
    unfolding st' context_destroyed_def after_destroy_def by (auto simp: destroy_def)
qed

lemma derive_parent_handle:
  assumes "\<And>c'. length (handle c') = HANDLE_SIZE \<Longrightarrow> Q c' st b" "\<And>r. E r st"
  shows "yields (derive_parent d flags c) Q E st b"
  unfolding derive_parent_def by (intro yields_intros assms) (auto simp: handle_lengths assms)

lemma scratch_answers:
  assumes "\<And>x. Q x st b" "\<And>r. E r st"
  shows "yields (scratch_response p) Q E st b"
  unfolding scratch_response_def by (intro yields_intros assms)

lemma derive_recursive_answers:
  assumes "fitting 44 b" "i < length (contexts st)"
  shows "answers_or_keeps p (derive_recursive d p cmd i loc) st b"
  unfolding derive_recursive_def derive_resp_def derive_context_resp_bytes_def
  by (intro yields_intros scratch_answers) (use assms in \<open>auto simp: handle_lengths intro!: labelled_header\<close>)

lemma derive_child_answers:
  assumes "fitting 44 b" "i < length (contexts st)" "length (handle q) = HANDLE_SIZE"
  shows "answers_or_keeps p (derive_child d p cmd i q loc) st b"
  unfolding derive_child_def Let_def derive_resp_def derive_context_resp_bytes_def
  by (intro yields_intros scratch_answers)
    (use assms in \<open>auto simp: handle_lengths dest: inactive_lt intro!: labelled_header\<close>)

lemma derive_export_answers:
  assumes "calm_gen gen" "fitting 80 b" "length (contexts st) = 64" "length (handle q) = HANDLE_SIZE"
    and i: "get_active_context_pos st (d_handle cmd) loc = Ok i"
  shows "answers_or_keeps p (derive_export gen d p cmd i q loc) st b"
proof -
  have cert: "yields (create_exported_dpe_cert gen d p args base (cert_result_zeroed p)) Q E st b"
    if "\<And>r. E r st" "\<And>res b'. cert_fits p res \<Longrightarrow> length b' = length b \<Longrightarrow> Q res st b'" for args base Q E
    unfolding create_exported_dpe_cert_def by (intro yields_cert assms(1) that)
  have "i < 64" using position_lt [OF i] assms(3) by simp
  then show ?thesis
    unfolding derive_export_def exported_hdr_bytes_def
    by (intro yields_intros cert)
      (use assms(2-4) in \<open>auto simp: handle_lengths cert_fits_def MAX_EXPORTED_CDI_SIZE_def destroyed_handle [OF _ i] length_destroy_context
        intro!: labelled_header\<close>)
qed

lemma derive_answers:
  assumes "calm_gen gen" "fitting (if exports_cdi (d_flags cmd) then 80 else 44) b" "length (contexts st) = 64"
  shows "answers_or_keeps p (derive_context gen d p cmd loc) st b"
proof -
  have b: "fitting 44 b" using assms(2) by (auto split: if_splits)
  show ?thesis
    unfolding derive_context_def Let_def
    by (intro yields_intros derive_recursive_answers [OF b] derive_child_answers [OF b]
        derive_export_answers derive_parent_handle assms(1,3))
      (use assms(2) in \<open>auto simp: get_active_context_and_idx_Ok dest: position_lt\<close>)
qed

text \<open>Every handler, on a buffer of the size of its response.\<close>

lemma handler_answers:
  assumes "calm_gen gen" "of_instance p c" "length (contexts st) = 64" "fst (response_layout c) = length b"
  shows "yields (execute_serialized gen d p c loc) (\<lambda>_ _. labelled p (length b))
    (\<lambda>r st'. st' = st \<or> updates_measurement c \<and> handle_failure d r \<and> handle_replaced st st') st b"
proof -
  have b: "length b \<le> USIZE_MAX" unfolding assms(4) [symmetric]
    by (cases c rule: response_layout.cases) (simp_all add: MAX_CERT_SIZE_eq USIZE_MAX_def)
  have le: "n \<le> fst (response_layout c) \<Longrightarrow> fitting n b" for n using b assms(4) by simp
  have plain: "yields (execute_serialized gen d p c loc) (\<lambda>_ _. labelled p (length b))
    (\<lambda>r st'. st' = st \<or> updates_measurement c \<and> handle_failure d r \<and> handle_replaced st st') st b"
    if "answers_or_keeps p (execute_serialized gen d p c loc) st b"
    by (rule yields_mono [OF that]) auto
  show ?thesis
  proof (cases c)
    case (UpdateContextMeasurement cmd)
    have "fitting 44 b" by (rule le) (simp add: UpdateContextMeasurement)
    from update_answers [OF this] UpdateContextMeasurement show ?thesis
      by (auto simp: updates_measurement_def)
  next
    case (CertifyKey cmd)
    have "fitting (certify_hdr_size cmd) b" by (rule le) (cases cmd; simp add: CertifyKey)
    from certify_answers [OF assms(1) _ this] CertifyKey assms(2) plain show ?thesis
      by (simp add: of_instance_def)
  next
    case (DeriveContext cmd)
    have "fitting (if exports_cdi (d_flags cmd) then 80 else 44) b" by (rule le) (simp add: DeriveContext)
    from derive_answers [OF assms(1) this assms(3)] DeriveContext plain show ?thesis by simp
  next
    case GetProfile
    with le [of 32] show ?thesis by (intro plain) (simp add: get_profile_answers)
  next
    case (InitCtx cmd)
    with le [of 28] show ?thesis by (intro plain) (simp add: init_ctx_answers)
  next
    case (RotateCtx cmd)
    with le [of 28] show ?thesis by (intro plain) (simp add: rotate_ctx_answers)
  next
    case (DestroyCtx cmd)
    with le [of 12] show ?thesis by (intro plain) (simp add: destroy_ctx_answers)
  next
    case (GetCertificateChain cmd)
    with le [of 2064] show ?thesis by (intro plain) (simp add: get_certificate_chain_answers)
  next
    case (Sign cmd)
    then show ?thesis by (intro plain) (simp add: sign_answers)
  qed
qed

end

section \<open>The answer that is read back\<close>

fun response_header :: "Response \<Rightarrow> ResponseHdr" where
  "response_header (RespGetProfile r) = gp_hdr r"
| "response_header (RespInitCtx r) = nh_hdr r"
| "response_header (RespDeriveContext r) = dc_hdr r"
| "response_header (RespDeriveContextExportedCdi r) = ex_hdr (wc_header r)"
| "response_header (RespRotateCtx r) = nh_hdr r"
| "response_header (RespCertifyKey r) = certify_resp_hdr r"
| "response_header (RespSign r) = sign_resp_hdr r"
| "response_header (RespDestroyCtx h) = h"
| "response_header (RespGetCertificateChain r) = gc_hdr r"
| "response_header (RespUpdateContextMeasurement r) = uc_hdr r"
| "response_header (RespError h) = h"

text \<open>A response of the kind that belongs to a command.\<close>

definition answers_to :: "Command \<Rightarrow> Response \<Rightarrow> bool" where
  "answers_to c resp = (case resp of
       RespGetProfile _ \<Rightarrow> (case c of GetProfile \<Rightarrow> True | _ \<Rightarrow> False)
     | RespInitCtx _ \<Rightarrow> (case c of InitCtx _ \<Rightarrow> True | _ \<Rightarrow> False)
     | RespDeriveContext _ \<Rightarrow> (case c of DeriveContext cmd \<Rightarrow> \<not> exports_cdi (d_flags cmd) | _ \<Rightarrow> False)
     | RespDeriveContextExportedCdi _ \<Rightarrow> (case c of DeriveContext cmd \<Rightarrow> exports_cdi (d_flags cmd) | _ \<Rightarrow> False)
     | RespRotateCtx _ \<Rightarrow> (case c of RotateCtx _ \<Rightarrow> True | _ \<Rightarrow> False)
     | RespCertifyKey _ \<Rightarrow> (case c of CertifyKey _ \<Rightarrow> True | _ \<Rightarrow> False)
     | RespSign _ \<Rightarrow> (case c of Sign _ \<Rightarrow> True | _ \<Rightarrow> False)
     | RespDestroyCtx _ \<Rightarrow> (case c of DestroyCtx _ \<Rightarrow> True | _ \<Rightarrow> False)
     | RespGetCertificateChain _ \<Rightarrow> (case c of GetCertificateChain _ \<Rightarrow> True | _ \<Rightarrow> False)
     | RespUpdateContextMeasurement _ \<Rightarrow> (case c of UpdateContextMeasurement _ \<Rightarrow> True | _ \<Rightarrow> False)
     | RespError _ \<Rightarrow> False)"

lemma labelled_reads:
  assumes "labelled p n b" "response_layout c = (n, rd)"
  obtains resp where "read_exact rd b = Some resp" "response_header resp = response_hdr p NoError" "answers_to c resp"
proof -
  let ?h = "response_hdr p NoError"
  obtain rest where b: "b = hdr_bytes ?h @ rest" and len: "length rest = n - 12"
    using assms(1) append_take_drop_id [of 12 b] unfolding labelled_def by (metis length_drop)
  have hdr: "read_hdr b = Some (?h, rest)" unfolding b by (simp add: wire_simps)
  have "\<exists>resp. read_exact rd b = Some resp \<and> response_header resp = ?h \<and> answers_to c resp"
    using assms(2) len
    by (cases c rule: response_layout.cases)
      (auto simp: reading_def read_exact_def then_read_def read_done_def read_n_def read_u16_def read_u32_def hdr
        read_get_profile_resp_def read_new_handle_resp_def read_derive_context_resp_def read_update_resp_def
        read_cert_chain_resp_def read_sign_p256_resp_def read_sign_p384_resp_def read_sign_mldsa_resp_def
        read_with_cert_def read_exported_hdr_def read_certify_p256_hdr_def read_certify_p384_hdr_def
        read_certify_mldsa_hdr_def HANDLE_SIZE_def MAX_EXPORTED_CDI_SIZE_def answers_to_def split: if_splits)
  then show thesis using that by blast
qed

context answering
begin

lemma execute_answers:
  assumes "calm_gen gen" "of_instance p c" "length (contexts (dstate w)) = 64"
    and x: "execute gen d p c loc w = (r, w')"
  shows "(\<exists>resp. r = Ok resp \<and> response_header resp = response_hdr p NoError \<and> answers_to c resp) \<or>
    (\<forall>x. r \<noteq> Ok x) \<and> (dstate w' = dstate w \<or>
      updates_measurement c \<and> handle_failure d (ending r) \<and> handle_replaced (dstate w) (dstate w'))"
proof -
  obtain n rd where l: "response_layout c = (n, rd)" by fastforce
  let ?w = "w\<lparr>outbuf := replicate n 0\<rparr>"
  obtain h v where h: "execute_serialized gen d p c loc ?w = (h, v)" by fastforce
  have y: "yields (execute_serialized gen d p c loc) (\<lambda>_ _. labelled p n)
    (\<lambda>r st'. st' = dstate w \<or> updates_measurement c \<and> handle_failure d r \<and> handle_replaced (dstate w) st')
    (dstate w) (replicate n 0)"
    using handler_answers [OF assms(1-3), of "replicate n 0"] l by simp
  show ?thesis
  proof (cases "\<exists>x. h = Ok x")
    case True
    then obtain x where hx: "h = Ok x" by blast
    have "labelled p n (outbuf v)" using yieldsD [OF y, of ?w] h hx by simp
    from labelled_reads [OF this l] obtain resp where "read_exact rd (outbuf v) = Some resp"
      "response_header resp = response_hdr p NoError" "answers_to c resp" .
    with x l h hx show ?thesis by (auto simp: execute_def with_buffer_def bind_def)
  next
    case False
    have "dstate v = dstate w \<or>
        updates_measurement c \<and> handle_failure d (ending h) \<and> handle_replaced (dstate w) (dstate v)"
      using yieldsD_abort [OF y, of ?w] h False by simp
    with x l h False show ?thesis by (cases h) (auto simp: execute_def with_buffer_def bind_def)
  qed
qed

end

lemma deserialize_of_instance: "deserialize al p bs = Ok c \<Longrightarrow> of_instance p c"
proof -
  have "of_profile p cmd" if "certify_deserialize al p bs = Ok cmd" for bs cmd
    using that by (cases p) (auto simp: parse_command_Ok)
  then show "deserialize al p bs = Ok c \<Longrightarrow> of_instance p c"
    unfolding deserialize_def Let_def
    by (auto simp: of_instance_def bindO_Ok_iff parse_command_Ok split: if_splits)
qed

text \<open>
  A request that is answered: with a response of its command's kind that says success, or with an error
  and, but for UpdateContextMeasurement, the state it found.
\<close>

context answering
begin

theorem request_answer:
  assumes "calm_gen gen" "length (contexts (dstate w)) = 64"
    and x: "execute_serialized_command gen d p al loc bs w = (Ok resp, w')"
  obtains c where "deserialize al p bs = Ok c"
    "answers_to c resp \<and> response_header resp = response_hdr p NoError \<or>
     (\<exists>e. resp = RespError (response_hdr p e) \<and> (dstate w' = dstate w \<or>
        updates_measurement c \<and> handle_failure d (Err e) \<and> handle_replaced (dstate w) (dstate w')))"
proof (cases "deserialize al p bs")
  case (Ok c)
  obtain r v where e: "execute gen d p c loc w = (r, v)" by fastforce
  from execute_answers [OF assms(1) deserialize_of_instance [OF Ok] assms(2) e] x e
  show ?thesis
    by (intro that [OF Ok]) (cases r; auto simp: execute_serialized_command_eq [OF Ok] response_hdr_def)
qed (use x in \<open>simp_all add: execute_serialized_command_def\<close>)

end

section \<open>The software crypto\<close>

interpretation rust_answering: answering "rust_default x cfg art pf" "art_cert_chain art pf" for x cfg art pf
proof
  fix p c pk c'
  assume "op_public_key (cops (rust_default x cfg art pf)) (pub_key_zeroed p) c = (Ok pk, c')"
  then show "key_fits p pk"
    by (cases p) (auto simp: rust_default_def rust_crypto_ops_def rc_public_key_def bindO_Ok_iff
        split: SignatureAlgorithm.splits EcdsaAlgorithm.splits)
qed

lemma rust_handle_failure:
  "handle_failure (rust_default x cfg art pf) r \<longleftrightarrow> r = Err (InternalError HandleGenerationExhausted)"
proof -
  have "is_ok y" if "rand_bytes (rust_crypto_ops x cfg) n s = (y, s')" for n s y s'
    using that by (cases "x_fill_bytes x n (rc_rng s)")
      (auto simp: rust_crypto_ops_def rand_bytes_def rc_rand_bytes_def bind_def)
  then show ?thesis by (auto simp: handle_failure_def rust_default_def)
qed

section \<open>A generator that repeats itself\<close>

text \<open>
  UpdateContextMeasurement draws a handle for the parent and stores it before it draws the handle of the
  child. With a generator that has only one handle left to give, the second draw finds it in use.
\<close>

definition repeats :: "('c, 'p) deps \<Rightarrow> ContextHandle \<Rightarrow> bool" where
  "repeats d h \<longleftrightarrow> (\<forall>c. \<exists>c'. rand_bytes (cops d) HANDLE_SIZE c = (Ok h, c'))"

lemma repeats_draw:
  assumes "repeats d h"
  obtains w' where "on_crypto (rand_bytes (cops d) HANDLE_SIZE) w = (Ok h, w')" "dstate w' = dstate w"
proof -
  obtain c where "rand_bytes (cops d) HANDLE_SIZE (crypto w) = (Ok h, c)" using assms unfolding repeats_def by blast
  then have "on_crypto (rand_bytes (cops d) HANDLE_SIZE) w = (Ok h, w\<lparr>crypto := c\<rparr>)" by (simp add: on_crypto_def)
  then show thesis by (rule that) simp
qed

lemma repeats_fresh:
  assumes "repeats d h" "fresh_handle (dstate w) h"
  obtains w' where "generate_new_handle d w = (Ok h, w')" "dstate w' = dstate w"
proof -
  obtain w' where w': "on_crypto (rand_bytes (cops d) HANDLE_SIZE) w = (Ok h, w')" "dstate w' = dstate w"
    by (rule repeats_draw [OF assms(1)])
  have "\<not> is_default h" "\<not> handle_in_use (dstate w') h"
    using assms(2) w'(2) by (auto simp: fresh_handle_def handle_in_use_def list_ex_iff)
  then have "new_handle_loop d (Suc n) w = (Ok h, w')" for n
    using w'(1) by (simp add: bind_step)
  from this [of 7] that [OF _ w'(2)] show thesis by (simp add: generate_new_handle_def MAX_NEW_HANDLE_ATTEMPTS_def)
qed

lemma repeats_used:
  assumes "repeats d h" "handle_in_use (dstate w) h"
  shows "\<exists>w'. new_handle_loop d n w = (Err (InternalError HandleGenerationExhausted), w') \<and> dstate w' = dstate w"
  using assms(2)
proof (induction n arbitrary: w)
  case (Suc n)
  obtain v where v: "on_crypto (rand_bytes (cops d) HANDLE_SIZE) w = (Ok h, v)" "dstate v = dstate w"
    by (rule repeats_draw [OF assms(1)])
  with Suc.IH [of v] Suc.prems obtain w' where
    "new_handle_loop d n v = (Err (InternalError HandleGenerationExhausted), w')" "dstate w' = dstate w" by auto
  with v Suc.prems show ?case by (simp add: bind_def ask_def)
qed (simp add: throw_def)

lemma update_loses_parent:
  assumes d: "repeats d h" "fresh_handle (dstate w) h"
    and i: "get_active_context_pos (dstate w) (u_parent_handle cmd) loc = Ok i" "u_parent_handle cmd \<noteq> handle_default"
    and k: "find_child (dstate w) (children (contexts (dstate w) ! i)) (u_tci_type cmd) = Some k"
      "handle (contexts (dstate w) ! k) \<noteq> handle_default"
    and child: "\<exists>c v. add_tci_measurement d (contexts (dstate w) ! k) (u_data cmd) (locality (contexts (dstate w) ! k)) w =
      (Ok c, v) \<and> dstate v = dstate w \<and> handle c = handle (contexts (dstate w) ! k)"
  shows "\<exists>w'. update_context_measurement d p cmd loc w = (Err (InternalError HandleGenerationExhausted), w') \<and>
    dstate w' = put_context i ((contexts (dstate w) ! i)\<lparr>handle := h\<rparr>) (dstate w)"
proof -
  let ?st = "dstate w"
  have act: "i < length (contexts ?st)" "handle (contexts ?st ! i) = u_parent_handle cmd"
    using get_active_context_pos_Ok [OF i(1)] by (simp_all add: active_at_def)
  have kin: "k < length (contexts ?st)"
    using k(1) by (auto simp: find_child_def find_Some_iff get_at_def split: option.splits if_splits)
  obtain c v where c: "add_tci_measurement d (contexts ?st ! k) (u_data cmd) (locality (contexts ?st ! k)) w = (Ok c, v)"
    "dstate v = ?st" "handle c = handle (contexts ?st ! k)" using child by blast
  have "fresh_handle (dstate v) h" using d(2) c(2) by simp
  with d(1) obtain v2 where v2: "generate_new_handle d v = (Ok h, v2)" "dstate v2 = dstate v"
    by (rule repeats_fresh)
  let ?st' = "put_context i ((contexts ?st ! i)\<lparr>handle := h\<rparr>) ?st" and ?v3 = "v2\<lparr>dstate := put_context i
    ((contexts ?st ! i)\<lparr>handle := h\<rparr>) ?st\<rparr>"
  have "handle_in_use ?st' h"
    using act(1) by (auto simp: handle_in_use_def put_context_def list_ex_iff set_update_memI intro!: bexI [OF _ set_update_memI])
  with repeats_used [OF d(1), of ?v3] obtain w' where
    w': "generate_new_handle d ?v3 = (Err (InternalError HandleGenerationExhausted), w')" "dstate w' = ?st'"
    by (auto simp: generate_new_handle_def)
  show ?thesis
    using i k act kin c v2 w'
    by (simp add: update_context_measurement_def bind_step ctx_at_def set_ctx_or_def roll_onetime_use_handle_def
        get_at_def on_state_def)
qed

lemma rust_add_tci:
  assumes "state c = Active" "length (tci_cumulative (tci c)) = 48"
  shows "\<exists>c' v. add_tci_measurement (rust_default x new_ecc384 art pf) c m (locality c) w = (Ok c', v) \<and>
    dstate v = dstate w \<and> handle c' = handle c"
proof -
  let ?d = "rust_default x new_ecc384 art pf"
  obtain s where "hash_all (cops ?d) [tci_cumulative (tci c), m] (crypto w) =
      (Ok (rc_digest x new_ecc384 (concat [tci_cumulative (tci c), m])), s)"
    using rust_hash.hash_all_total [of x new_ecc384 "[tci_cumulative (tci c), m]" "crypto w"]
    by (elim exE) (simp add: rust_default_def)
  with assms show ?thesis
    by (simp add: add_tci_measurement_def bind_step on_crypto_def rc_digest_def new_ecc384_def)
qed

lemma rust_repeats:
  "(\<And>r. fst (x_fill_bytes x HANDLE_SIZE r) = f) \<Longrightarrow> repeats (rust_default x cfg art pf) (map f [0..<HANDLE_SIZE])"
  unfolding repeats_def
  by (auto simp: rand_bytes_def bind_def rust_default_def rust_crypto_ops_def rc_rand_bytes_def split: prod.splits)
    (metis fst_conv)

end
