(* ===== verification/Start.thy ===== *)
theory Start
  imports Answers
begin

text \<open>
  How a new instance starts: on a new state the automatic initialization always succeeds, so the constructor
  of the instance does. The simulator and the tools all begin this way.
\<close>

lemma next_inactive_new: "get_next_inactive_context_pos (State_new b supp flags) = Some 0"
  unfolding get_next_inactive_Some by (simp add: State_new_def Context_new_def)

lemma init_new_flags: "flag_is_default init_new_use_default" "\<not> flag_is_simulation init_new_use_default"
  by (simp_all add: flag_is_default_def flag_is_simulation_def init_new_use_default_def DEFAULT_FLAG_MASK_def
      SIMULATION_FLAG_MASK_def flags_contains_bit bit_simps del: push_bit_of_1)

lemma State_new_simps:
  "\<not> has_initialized (State_new b supp flags)" "contexts (State_new b supp flags) = replicate 64 Context_new"
  by (simp_all add: has_initialized_def State_new_def)

text \<open>The automatic initialization of a new state succeeds.\<close>

lemma init_new:
  assumes "dstate w = State_new b supp flags" "fitting 28 (outbuf w)"
  obtains w' n where "init_ctx d p init_new_use_default loc w = (Ok n, w')" "length (contexts (dstate w')) = 64"
proof -
  let ?ctx = "activate (init_args init_new_use_default Normal handle_default loc) Context_new"
  let ?out = "hdr_bytes (response_hdr p NoError) @ handle_default"
  let ?st = "put_context 0 ?ctx ((State_new b supp flags)\<lparr>f_has_initialized := U8Bool_new True\<rparr>)"
  have fits: "fitting (0 + length ?out) (outbuf w)" using assms(2) by (simp add: HANDLE_SIZE_def)
  have run: "init_ctx d p init_new_use_default loc w =
      (Ok (length ?out), w\<lparr>dstate := ?st, outbuf := splice (outbuf w) 0 ?out\<rparr>)"
    using assms(1) fits next_inactive_new [of b supp flags]
    by (simp add: init_ctx_def bind_step write_response_def write_out_fits new_handle_resp_bytes_def init_new_flags
        State_new_simps ctx_at_def)
  show thesis by (rule that [OF run]) (simp_all add: State_new_simps)
qed

lemma start_new:
  assumes "dstate w = State_new b supp flags" "\<And>t. \<exists>l t'. op_get_auto_init_locality (pops d) t = (Ok l, t')"
  obtains w' where "DpeInstance_new d p w = (Ok (), w')" "length (contexts (dstate w')) = 64"
proof (cases "sup_auto_init (support (dstate w))")
  case False
  then have run: "DpeInstance_new d p w = (Ok (), w)" by (simp add: DpeInstance_new_def bind_step)
  show thesis using assms(1)
    by (intro that [OF run]) (simp_all add: State_new_simps)
next
  case True
  obtain l t where l: "op_get_auto_init_locality (pops d) (platform w) = (Ok l, t)" using assms(2) by blast
  let ?w = "w\<lparr>platform := t, outbuf := replicate 28 0\<rparr>"
  have w: "dstate ?w = State_new b supp flags" "fitting 28 (outbuf ?w)" using assms(1) by (simp_all add: USIZE_MAX_def)
  obtain w' n where i: "init_ctx d p init_new_use_default l ?w = (Ok n, w')" "length (contexts (dstate w')) = 64" by (rule init_new [OF w])
  have "DpeInstance_new d p w = (Ok (), w'\<lparr>outbuf := outbuf w\<rparr>)"
    using True l i(1) by (simp add: DpeInstance_new_def bind_step on_platform_def with_buffer_def)
  then show thesis using i(2) by (intro that [of "w'\<lparr>outbuf := outbuf w\<rparr>"]) simp_all
qed

end
