(* ===== verification/X509_Count.thy ===== *)
theory X509_Count
  imports Calm
begin

text \<open>
  The number an encoder returns is the number of bytes by which it moves the writer, whatever it is asked to
  encode, so the size of a finished certificate is never larger than the view it was written to.
\<close>

section \<open>Counting\<close>

definition moves :: "nat \<Rightarrow> CertWriter \<Rightarrow> CertWriter \<Rightarrow> bool" where
  "moves n w w' \<longleftrightarrow> cw_offset w' = cw_offset w + n \<and> cw_base w' = cw_base w \<and>
     cw_backtracks w' = cw_backtracks w \<and> cw_saved_offset w' = cw_saved_offset w \<and> buffer_size w' = buffer_size w"

definition counts :: "nat enc \<Rightarrow> bool" where
  "counts m \<longleftrightarrow> (\<forall>w n w'. m w = (Ok n, w') \<longrightarrow> moves n w w')"

lemma countsI: "(\<And>w n w'. m w = (Ok n, w') \<Longrightarrow> moves n w w') \<Longrightarrow> counts m"
  by (simp add: counts_def)

lemma countsD: "counts m \<Longrightarrow> m w = (Ok n, w') \<Longrightarrow> moves n w w'"
  by (simp add: counts_def)

lemma moves_trans: "moves n w v \<Longrightarrow> moves k v w' \<Longrightarrow> moves (n + k) w w'"
  by (simp add: moves_def)

named_theorems counting \<open>rules of counts\<close>

lemma counts_write [counting]: "counts (encode_bytes bs)" "counts (encode_byte b)" "counts (encode_tag_field b)"
proof -
  have bytes: "counts (encode_bytes bs)" for bs
    by (rule countsI) (auto simp: moves_def encode_bytes_def Let_def split_beta length_write_view)
  then show "counts (encode_bytes bs)" .
  show byte: "counts (encode_byte b)" for b
    by (rule countsI) (auto simp: moves_def encode_byte_def Let_def split_beta length_write_view)
  show "counts (encode_tag_field b)" by (simp add: encode_tag_field_def byte)
qed

lemma counts_ret [counting]: "counts (ret 0)"
  by (rule countsI) (simp add: moves_def)

lemma counts_add [counting]:
  assumes "counts m" "counts n"
  shows "counts (bind m (\<lambda>i. bind n (\<lambda>k. ret (i + k))))"
  by (rule countsI) (auto simp: bind_Ok_iff dest!: assms [THEN countsD] intro: moves_trans)

lemma counts_lift [counting]: "(\<And>x. counts (f x)) \<Longrightarrow> counts (bind (lift r) f)"
  by (rule countsI) (auto simp: bind_Ok_iff dest: countsD)

lemma counts_between [counting]:
  assumes "counts m" "\<And>x. counts (f x)"
  shows "counts (bind m (\<lambda>i. bind (lift r) (\<lambda>x. bind (f x) (\<lambda>k. ret (i + k)))))"
  by (rule countsI) (auto simp: bind_Ok_iff dest!: assms [THEN countsD] intro: moves_trans)

lemma counts_checked [counting]: "counts m \<Longrightarrow> counts (bind m (\<lambda>n. bind check_not_truncated (\<lambda>_. ret n)))"
  by (rule countsI) (auto simp: bind_Ok_iff check_not_truncated_def dest!: countsD split: if_splits)

lemma counts_if [counting]: "(c \<Longrightarrow> counts m) \<Longrightarrow> (\<not> c \<Longrightarrow> counts n) \<Longrightarrow> counts (if c then m else n)"
  by simp

lemma counts_case_prod [counting]: "(\<And>a b. counts (f a b)) \<Longrightarrow> counts (case x of (a, b) \<Rightarrow> f a b)"
  by (cases x) simp

lemma counts_all [counting]: "list_all counts ms \<Longrightarrow> counts (encode_all ms)"
proof (induction ms)
  case (Cons m ms)
  then show ?case unfolding encode_all.simps by (intro counting) simp_all
qed (simp add: counting)

lemma counts_list [counting]:
  "list_all counts []"
  "counts m \<Longrightarrow> list_all counts ms \<Longrightarrow> list_all counts (m # ms)"
  "list_all counts xs \<Longrightarrow> list_all counts ys \<Longrightarrow> list_all counts (xs @ ys)"
  "list_all counts xs \<Longrightarrow> list_all counts ys \<Longrightarrow> list_all counts (if c then xs else ys)"
  by simp_all

text \<open>The field of a length says its own width.\<close>

lemma encode_all_bytes:
  "encode_all (map (\<lambda>i. encode_byte (f i)) is) w = (Ok n, w') \<Longrightarrow> n = length is \<and> moves n w w'"
proof (induction "is" arbitrary: w n)
  case (Cons i "is")
  then obtain v j k where v: "encode_byte (f i) w = (Ok j, v)"
    "encode_all (map (\<lambda>i. encode_byte (f i)) is) v = (Ok k, w')" and n: "n = j + k"
    by (auto simp: bind_Ok_iff)
  have "j = 1" using v(1) by (simp add: encode_byte_def split_beta Let_def)
  with Cons.IH [OF v(2)] countsD [OF counts_write(2) v(1)] n show ?case by (simp add: moves_def)
qed (simp add: moves_def)

lemma counts_size_field [counting]: "counts (encode_size_field sz)"
proof (rule countsI)
  fix w n w' assume run: "encode_size_field sz w = (Ok n, w')"
  have one: "moves 1 v v'" if "encode_byte b v = (Ok j, v')" for b v j v'
    using countsD [OF counts_write(2) that] that by (simp add: encode_byte_def split_beta Let_def)
  show "moves n w w'"
  proof (cases "get_size_width sz = 1")
    case True
    with run show ?thesis by (auto simp: encode_size_field_def bind_Ok_iff dest: one)
  next
    case False
    then have pos: "n = 1 + (get_size_width sz - 1)" if "n = get_size_width sz" for n
      using that by (simp add: get_size_width_def split: if_splits)
    with run False show ?thesis
      by (auto simp: encode_size_field_def bind_Ok_iff Let_def moves_def dest!: one encode_all_bytes)
  qed
qed

section \<open>The encoders\<close>

lemma counts_elements [counting]:
  "counts (encode_integer_bytes bs t)" "counts (encode_integer n t)" "counts (encode_tlv tag bs)" "counts (encode_oid oid)"
  unfolding encode_integer_def encode_oid_def encode_tlv_def encode_integer_bytes_def Let_def
  by (intro counting)+

lemma counts_rdn_string [counting]: "counts (encode_rdn_string s)"
  by (cases s) (simp_all add: encode_rdn_string_def counting)

lemma counts_algorithms [counting]:
  "counts (encode_rdn name)" "counts (encode_ec_pub_alg_id oid)" "counts (encode_ecdsa_sig_alg_id p)"
  "counts (encode_hash_alg_id p)" "counts (encode_validity v)" "counts (encode_mldsa_sig_alg_id p)"
  unfolding encode_rdn_def encode_ec_pub_alg_id_def encode_ecdsa_sig_alg_id_def encode_hash_alg_id_def
    encode_validity_def encode_mldsa_sig_alg_id_def Let_def
  by (intro counting)+

lemma counts_keys [counting]:
  "counts (encode_ecdsa_subject_pubkey_info k oid)" "counts (encode_ecdsa_signature_bit_string s)"
  "counts (encode_ecdsa_signature_octet_string s)" "counts (encode_mldsa_signature_octet_string b)"
  "counts (encode_mldsa_subject_pubkey_info p b)" "counts (encode_mldsa_signature_bit_string b)"
  unfolding encode_ecdsa_subject_pubkey_info_def encode_ecdsa_signature_bit_string_def
    encode_ecdsa_signature_octet_string_def encode_mldsa_signature_octet_string_def
    encode_mldsa_subject_pubkey_info_def encode_mldsa_signature_bit_string_def Let_def
  by (intro counting)+

lemma counts_signatures [counting]:
  "counts (encode_signature_bit_string p s)" "counts (encode_signature_octet_string p s)"
  unfolding encode_signature_bit_string_def encode_signature_octet_string_def
  by (cases s; simp only: Signature.case; intro counting)+

lemma counts_pub_key [counting]: "counts (encode_pub_key_info p k)"
  unfolding encode_pub_key_info_def
  by (auto split: PubKey.split EcdsaPubKey.split intro!: counting)

lemma counts_extension_header [counting]: "counts (encode_extension_header oid crit n)"
  unfolding encode_extension_header_def Let_def
  by (cases crit) (simp_all only: option.case, (intro counting)+)

lemma counts_tcb_info [counting]:
  "counts (encode_version)" "counts (encode_fwid p b)" "counts (encode_integrity_registers p n)" "counts (encode_tcb_info p r n)"
  unfolding encode_tcb_info_def encode_integrity_registers_def encode_fwid_def encode_version_def Let_def
  by (intro counting)+

lemma counts_nodes [counting]: "counts (encode_nodes p r items)"
  by (induction items) (simp_all only: encode_nodes.simps, (intro counting; assumption?)+)

lemma counts_multi_tcb_info [counting]: "counts (encode_multi_tcb_info p crit md)"
  unfolding encode_multi_tcb_info_def Let_def by (intro counting)

lemma counts_extension_parts [counting]:
  "counts (encode_ueid crit md)" "counts (encode_basic_constraints md)" "counts (encode_key_usage ca)"
  "counts (encode_extended_key_usage md)" "counts (encode_other_name_value b)" "counts (encode_other_name n)"
  "counts (encode_key_identifier b)" "counts (encode_authority_key_identifier_extension md x)"
  "counts (encode_subject_key_identifier_extension md x)"
  unfolding encode_ueid_def encode_basic_constraints_def encode_key_usage_def encode_extended_key_usage_def
    encode_other_name_value_def encode_other_name_def encode_key_identifier_def
    encode_authority_key_identifier_extension_def encode_subject_key_identifier_extension_def Let_def
  by (intro counting)+

lemma counts_subject_alt_name [counting]: "counts (encode_subject_alt_name_extension md)"
proof (cases "md_subject_alt_name md")
  case None
  then show ?thesis unfolding encode_subject_alt_name_extension_def by (simp only: option.case) (rule counting)
next
  case (Some n)
  then show ?thesis unfolding encode_subject_alt_name_extension_def Let_def
    by (cases n) (simp_all only: option.case SubjectAltName.case, (intro counting)+)
qed

lemma counts_extensions [counting]:
  "counts (encode_extensions p crit md x)" "counts (encode_attributes p crit md)"
  unfolding encode_extensions_def encode_attributes_def by (intro counting)+

lemma counts_cms_parts [counting]:
  "counts (encode_issuer_and_serial_number sn issuer)" "counts (encode_subject_key_identifier ski)"
  unfolding encode_issuer_and_serial_number_def encode_subject_key_identifier_def
  by (intro counting)+

lemma counts_signer [counting]: "counts (encode_cms_version sid)" "counts (encode_signer_identifier sid)"
  unfolding encode_cms_version_def encode_signer_identifier_def
  by (cases sid; simp only: SignerIdentifier.case; intro counting)+

lemma counts_signer_info [counting]: "counts (encode_signer_info p sig sid)"
  unfolding encode_signer_info_def by (intro counting)

section \<open>Lengths written last\<close>

text \<open>A gap counts for as many bytes as its length takes, and it is a gap of that width.\<close>

lemma push_result:
  "push_backtrack skip w = (Ok off, w') \<Longrightarrow>
     w' = w\<lparr>cw_backtracks := cw_backtracks w @ [(cw_offset w, cw_offset w + skip)], cw_offset := cw_offset w + skip\<rparr>"
  by (auto simp: push_backtrack_def Let_def split: if_splits)

lemma backtrack_loop_result:
  "backtrack_loop sizes w = (Ok k, w') \<Longrightarrow> \<exists>gaps. cw_backtracks w = cw_backtracks w' @ gaps \<and>
     length gaps = length sizes \<and> k = sum_list (map (\<lambda>(a, z). z - a) gaps) \<and> cw_base w' = cw_base w \<and>
     cw_saved_offset w' = cw_saved_offset w \<and> buffer_size w' = buffer_size w"
proof (induction sizes arbitrary: w k)
  case (Cons sz sizes)
  then obtain v u i j where pop: "pop_backtrack (get_size_width sz) w = (Ok (), v)"
    and sz: "encode_size_field sz v = (Ok i, u)" and rest: "backtrack_loop sizes u = (Ok j, w')" "k = i + j"
    by (auto simp: bind_Ok_iff)
  from Cons.IH [OF rest(1)] obtain gaps where gaps: "cw_backtracks u = cw_backtracks w' @ gaps"
    "length gaps = length sizes" "j = sum_list (map (\<lambda>(a, z). z - a) gaps)" "cw_base w' = cw_base u"
    "cw_saved_offset w' = cw_saved_offset u" "buffer_size w' = buffer_size u" by auto
  have i: "i = get_size_width sz" using sz by (auto simp: encode_size_field_def bind_Ok_iff Let_def split: if_splits)
  note mv = countsD [OF counts_size_field sz, unfolded moves_def]
  obtain a z where pair: "last (cw_backtracks w) = (a, z)" by fastforce
  with pop have popped: "z - a = get_size_width sz" "cw_backtracks w = cw_backtracks v @ [(a, z)]"
    "cw_base v = cw_base w" "cw_saved_offset v = cw_saved_offset w" "buffer_size v = buffer_size w"
    using append_butlast_last_id [of "cw_backtracks w"]
    by (auto simp: pop_backtrack_def Let_def split: if_splits)
  show ?case by (rule exI [of _ "gaps @ [(a, z)]"]) (use mv popped gaps i rest(2) in simp)
qed simp

lemma backtrack_result:
  assumes "backtrack_and_encode_size sizes w = (Ok k, w')"
  obtains gaps where "cw_backtracks w = cw_backtracks w' @ gaps" "length gaps = length sizes"
    "k = sum_list (map (\<lambda>(a, z). z - a) gaps)" "cw_offset w' = cw_offset w" "cw_base w' = cw_base w"
    "cw_saved_offset w' = cw_saved_offset w" "buffer_size w' = buffer_size w"
proof -
  from assms obtain u v where s: "start_backtrack w = (Ok (), u)" and l: "backtrack_loop sizes u = (Ok k, v)"
    and e: "end_backtrack v = (Ok (), w')" by (auto simp: backtrack_and_encode_size_def bind_Ok_iff)
  from s have u: "u = w\<lparr>cw_saved_offset := Some (cw_offset w)\<rparr>" "cw_saved_offset w = None"
    by (auto simp: start_backtrack_def split: if_splits)
  from backtrack_loop_result [OF l] u e that show thesis by (auto simp: end_backtrack_def)
qed

lemma counts_layer:
  assumes "counts m" "SIZE_TAG_OFFSET = 3"
  shows "counts (bind (encode_tag_field t) (\<lambda>prefix. bind (push_backtrack SIZE_TAG_OFFSET) (\<lambda>_.
     bind m (\<lambda>body. bind (backtrack_and_encode_size [body]) (\<lambda>k.
     bind check_not_truncated (\<lambda>_. ret (prefix + k + body)))))))"
proof (rule countsI)
  fix w n w'
  assume "bind (encode_tag_field t) (\<lambda>prefix. bind (push_backtrack SIZE_TAG_OFFSET) (\<lambda>_.
     bind m (\<lambda>body. bind (backtrack_and_encode_size [body]) (\<lambda>k.
     bind check_not_truncated (\<lambda>_. ret (prefix + k + body)))))) w = (Ok n, w')"
  then obtain prefix u off v body x k where t: "encode_tag_field t w = (Ok prefix, u)"
    and push: "push_backtrack SIZE_TAG_OFFSET u = (Ok off, v)" and body: "m v = (Ok body, x)"
    and gap: "backtrack_and_encode_size [body] x = (Ok k, w')" and n: "n = prefix + k + body"
    by (auto simp: bind_Ok_iff check_not_truncated_def split: if_splits)
  note t = countsD [OF counts_write(3) t, unfolded moves_def] and push = push_result [OF push]
    and body = countsD [OF assms(1) body, unfolded moves_def]
  from gap obtain gaps where "cw_backtracks x = cw_backtracks w' @ gaps" "length gaps = 1"
    "k = sum_list (map (\<lambda>(a, z). z - a) gaps)" "cw_offset w' = cw_offset x" "cw_base w' = cw_base x"
    "cw_saved_offset w' = cw_saved_offset x" "buffer_size w' = buffer_size x"
    by (rule backtrack_result) simp
  with t push body n show "moves n w w'" by (cases gaps) (auto simp: moves_def)
qed

lemmas counts_layers = counts_layer [OF _ SIZE_TAG_OFFSET_def]

lemma counts_bodies [counting]:
  "counts (encode_tbs p crit sn issuer name pk md v)" "counts (encode_certification_request_info p crit pk name md)"
proof -
  show "counts (encode_tbs p crit sn issuer name pk md v)"
    unfolding encode_tbs_def by (cases pk) (simp_all only: PubKey.case, (rule counts_layers, intro counting)+)
  show "counts (encode_certification_request_info p crit pk name md)"
    unfolding encode_certification_request_info_def by (rule counts_layers, intro counting)
qed

section \<open>Signing while encoding\<close>

lemma on_writer_Ok: "on_writer m s = (Ok x, s') \<longleftrightarrow> (\<exists>w. m (snd s) = (Ok x, w) \<and> s' = (fst s, w))"
  by (auto simp: on_writer_def split: prod.splits)

lemma call_sign_cb_writer: "call_sign_cb cb a z derived sig s = (r, s') \<Longrightarrow> snd s' = snd s"
  by (auto simp: call_sign_cb_def split: prod.splits)

lemma signed_payload_moves:
  assumes "encode_signed_payload p crit cb payload sig s = (Ok (n, sig'), s')"
  shows "moves n (snd s) (snd s')"
proof -
  have body: "moves k (snd u) (snd u')"
    if "(case payload of
         Tbs sn issuer subject_name pubkey md validity \<Rightarrow>
           bind (on_writer (encode_tbs p crit sn issuer subject_name pubkey md validity)) (\<lambda>n. ret (n, False))
       | CertReqInfo pub_key subject_name md \<Rightarrow>
           bind (on_writer (encode_certification_request_info p crit pub_key subject_name md)) (\<lambda>n.
           ret (n, True))) u = (Ok (k, b), u')" for u k b u'
    using that by (cases payload) (auto simp: bind_Ok_iff on_writer_Ok dest: counts_bodies [THEN countsD])
  from assms obtain prefix u off v k b s1 sg s2 m x j y where t: "encode_tag_field SEQUENCE_TAG (snd s) = (Ok prefix, u)"
    and push: "push_backtrack SIZE_TAG_OFFSET u = (Ok off, v)" and k: "moves k v (snd s1)"
    and sg: "call_sign_cb cb off (off + k) b sig s1 = (Ok sg, s2)"
    and m: "encode_signature_bit_string p sg (snd s2) = (Ok m, x)"
    and gap: "backtrack_and_encode_size [k + m] x = (Ok j, y)" and res: "snd s' = y" "n = k + m + (prefix + j)"
    by (fastforce simp: encode_signed_payload_def bind_Ok_iff on_writer_Ok Let_def dest!: body)
  note facts = countsD [OF counts_write(3) t] push_result [OF push] k call_sign_cb_writer [OF sg]
    countsD [OF counts_signatures(1) m] res
  from gap show ?thesis
  proof (rule backtrack_result)
    fix gaps assume "cw_backtracks x = cw_backtracks y @ gaps" "length gaps = length [k + m]"
      "j = sum_list (map (\<lambda>(a, z). z - a) gaps)" "cw_offset y = cw_offset x" "cw_base y = cw_base x"
      "cw_saved_offset y = cw_saved_offset x" "buffer_size y = buffer_size x"
    with facts show ?thesis by (cases gaps) (auto simp: moves_def)
  qed
qed

lemma encode_signed_moves:
  "encode_certificate p crit cb sn issuer name pk md v sig s = (Ok (n, sig'), s') \<Longrightarrow>
     moves n (snd s) (snd s') \<and> cw_offset (snd s') \<le> buffer_size (snd s') - cw_base (snd s')"
  "encode_csr p crit cb pk name md sig s = (Ok (n, sig'), s') \<Longrightarrow> moves n (snd s) (snd s')"
  by (auto simp: encode_certificate_def encode_csr_def bind_Ok_iff on_writer_Ok check_not_truncated_def
      offset_capacity_def slice_capacity_def not_less split: if_splits dest: signed_payload_moves)

lemma encapsulated_moves:
  assumes "encode_encapsulated_content_info p crit cb pk name md sig s = (Ok (n, sig'), s')"
  shows "moves n (snd s) (snd s')"
proof -
  from assms obtain n0 w1 o1 w2 n1 w3 n2 w4 o2 w5 n3 w6 o3 w7 c sg s8 k w9 j w10 where
    0: "encode_byte SEQUENCE_TAG (snd s) = (Ok n0, w1)" "push_backtrack SIZE_TAG_OFFSET w1 = (Ok o1, w2)"
    and 1: "encode_oid ID_DATA_OID w2 = (Ok n1, w3)"
      "encode_byte (CONTEXT_SPECIFIC OR CONSTRUCTED OR 0x0) w3 = (Ok n2, w4)"
      "push_backtrack SIZE_TAG_OFFSET w4 = (Ok o2, w5)"
    and 2: "encode_byte OCTET_STRING_TAG w5 = (Ok n3, w6)" "push_backtrack SIZE_TAG_OFFSET w6 = (Ok o3, w7)"
    and csr: "encode_csr p crit cb pk name md sig (fst s, w7) = (Ok (c, sg), s8)"
    and 3: "backtrack_and_encode_size [get_econtent_size c False False, get_econtent_size c True False]
        (snd s8\<lparr>cw_csr_range := Some (o3, o3 + c)\<rparr>) = (Ok k, w9)"
      "backtrack_and_encode_size [n1 + n2 + n3 + k + c] w9 = (Ok j, w10)"
    and res: "snd s' = w10" "n = n1 + n2 + n3 + k + c + (n0 + j)"
    by (fastforce simp: encode_encapsulated_content_info_def bind_Ok_iff on_writer_Ok Let_def)
  note bytes = countsD [OF counts_write(2) 0(1)] countsD [OF counts_elements(4) 1(1)] countsD [OF counts_write(2) 1(2)]
    countsD [OF counts_write(2) 2(1)]
  note facts = bytes [unfolded moves_def] push_result [OF 0(2)] push_result [OF 1(3)] push_result [OF 2(2)]
    encode_signed_moves(2) [OF csr, unfolded moves_def] res
  from 3(1) obtain gaps where g1: "cw_backtracks (snd s8) = cw_backtracks w9 @ gaps" "length gaps = 2"
    "k = sum_list (map (\<lambda>(a, z). z - a) gaps)" "cw_offset w9 = cw_offset (snd s8)" "cw_base w9 = cw_base (snd s8)"
    "cw_saved_offset w9 = cw_saved_offset (snd s8)" "buffer_size w9 = buffer_size (snd s8)"
    by (rule backtrack_result) simp
  from 3(2) obtain gaps' where g2: "cw_backtracks w9 = cw_backtracks w10 @ gaps'" "length gaps' = 1"
    "j = sum_list (map (\<lambda>(a, z). z - a) gaps')" "cw_offset w10 = cw_offset w9" "cw_base w10 = cw_base w9"
    "cw_saved_offset w10 = cw_saved_offset w9" "buffer_size w10 = buffer_size w9"
    by (rule backtrack_result) simp
  obtain x y z where gaps: "gaps = [x, y]" "gaps' = [z]"
    using g1(2) g2(2) by (auto simp: length_Suc_conv numeral_2_eq_2)
  have "k = 2 * SIZE_TAG_OFFSET" "j = SIZE_TAG_OFFSET" "cw_backtracks w10 = cw_backtracks (snd s)"
    using facts g1 g2 gaps by (auto simp: append_eq_append_conv2 append_eq_Cons_conv)
  with facts g1 g2 show ?thesis by (simp add: moves_def)
qed

lemma cms_moves:
  assumes "encode_cms p crit cb pk name md sid sig s = (Ok (n, sig'), s')"
  shows "cw_offset (snd s') = cw_offset (snd s) + n" "cw_base (snd s') = cw_base (snd s)"
    "buffer_size (snd s') = buffer_size (snd s)" "cw_offset (snd s') \<le> buffer_size (snd s') - cw_base (snd s')"
proof -
  from assms obtain n0 w1 o1 w2 n1 w3 n2 w4 o2 w5 n3 w6 o3 w7 n4 w8 n5 sg s9 a z sg' s10 n6 w11 k w12 where
    0: "encode_byte SEQUENCE_TAG (snd s) = (Ok n0, w1)" "push_backtrack SIZE_TAG_OFFSET w1 = (Ok o1, w2)"
    and 1: "encode_oid ID_SIGNED_DATA_OID w2 = (Ok n1, w3)"
      "encode_byte (CONTEXT_SPECIFIC OR CONSTRUCTED OR 0x0) w3 = (Ok n2, w4)"
      "push_backtrack SIZE_TAG_OFFSET w4 = (Ok o2, w5)"
    and 2: "encode_tag_field SEQUENCE_TAG w5 = (Ok n3, w6)" "push_backtrack SIZE_TAG_OFFSET w6 = (Ok o3, w7)"
    and 3: "encode_all [encode_cms_version sid, encode_tag_field SET_OF_TAG,
          encode_size_field (get_hash_alg_id_size p True), encode_hash_alg_id p] w7 = (Ok n4, w8)"
    and csr: "encode_encapsulated_content_info p crit cb pk name md sig (fst s, w8) = (Ok (n5, sg), s9)"
    and cb: "call_sign_cb cb a z False sg s9 = (Ok sg', s10)"
    and 4: "encode_all [encode_tag_field SET_OF_TAG, encode_size_field (get_signer_info_size p sg' sid True),
          encode_signer_info p sg' sid] (snd s10) = (Ok n6, w11)"
    and 5: "backtrack_and_encode_size [n4 + n5 + n6, n3 + SIZE_TAG_OFFSET + (n4 + n5 + n6),
        n1 + (n2 + SIZE_TAG_OFFSET) + (n3 + SIZE_TAG_OFFSET + (n4 + n5 + n6))] w11 = (Ok k, w12)"
      "cw_offset w12 \<le> buffer_size w12 - cw_base w12" "snd s' = w12"
      "n = n0 + SIZE_TAG_OFFSET + (n1 + (n2 + SIZE_TAG_OFFSET) + (n3 + SIZE_TAG_OFFSET + (n4 + n5 + n6)))"
    by (fastforce simp: encode_cms_def bind_Ok_iff on_writer_Ok Let_def guard_err_def check_not_truncated_def
        offset_capacity_def slice_capacity_def not_less simp del: encode_all.simps split: if_splits)
  have heads: "counts (encode_all [encode_cms_version sid, encode_tag_field SET_OF_TAG,
      encode_size_field (get_hash_alg_id_size p True), encode_hash_alg_id p])"
    "counts (encode_all [encode_tag_field SET_OF_TAG, encode_size_field (get_signer_info_size p sg' sid True),
      encode_signer_info p sg' sid])" by (intro counting)+
  note bytes = countsD [OF counts_write(2) 0(1)] countsD [OF counts_elements(4) 1(1)] countsD [OF counts_write(2) 1(2)]
    countsD [OF counts_write(3) 2(1)] countsD [OF heads(1) 3] encapsulated_moves [OF csr] countsD [OF heads(2) 4]
  note facts = bytes [unfolded moves_def] push_result [OF 0(2)] push_result [OF 1(3)] push_result [OF 2(2)]
    call_sign_cb_writer [OF cb] 5(2-4)
  from 5(1) have "cw_offset w12 = cw_offset w11 \<and> cw_base w12 = cw_base w11 \<and> buffer_size w12 = buffer_size w11"
    by (rule backtrack_result) simp
  with facts show "cw_offset (snd s') = cw_offset (snd s) + n" "cw_base (snd s') = cw_base (snd s)"
    "buffer_size (snd s') = buffer_size (snd s)" "cw_offset (snd s') \<le> buffer_size (snd s') - cw_base (snd s')"
    by simp_all
qed

section \<open>The size of a certificate\<close>

definition sized_gen :: "'c cert_gen \<Rightarrow> bool" where
  "sized_gen gen \<longleftrightarrow> (\<forall>args p crit name pk md cb base sig c buf n c' buf'.
     gen args p crit name pk md cb base sig (c, buf) = (Ok n, (c', buf')) \<longrightarrow> unat n \<le> length buf - base)"

lemma with_writer_Ok:
  "with_writer base m s = (Ok x, s') \<longleftrightarrow>
     (\<exists>c w. m (fst s, CertWriter_new (snd s) base) = (Ok x, (c, w)) \<and> s' = (c, cw_certificate w))"
  by (auto simp: with_writer_def split: prod.splits)

lemma sized_generate_cert_or_csr: "sized_gen (generate_cert_or_csr :: 'c cert_gen)"
proof (unfold sized_gen_def, intro allI impI)
  fix args p crit name pk md base sig buf buf' and cb :: "'c sign_cb" and c c' :: 'c and n :: u32
  assume run: "generate_cert_or_csr args p crit name pk md cb base sig (c, buf) = (Ok n, (c', buf'))"
  have num: "unat n \<le> i" if "u32_try_from i e = Ok n" for i e
    using that by (auto simp: u32_try_from_def unsigned_of_nat intro: take_bit_nat_less_eq_self split: if_splits)
  show "unat n \<le> length buf - base"
  proof (cases args)
    case (CertArgs issuer v)
    with run obtain sn i sg c1 w e where e: "encode_certificate p crit cb sn issuer name pk md v sig
        (c, CertWriter_new buf base) = (Ok (i, sg), (c1, w))" "u32_try_from i e = Ok n"
      by (auto simp: generate_cert_or_csr_def bind_Ok_iff with_writer_Ok)
    from encode_signed_moves(1) [OF e(1)] num [OF e(2)] show ?thesis by (auto simp: moves_def CertWriter_new_def)
  next
    case (CsrArgs sid)
    with run obtain i sg c1 w e where e: "encode_cms p crit cb pk name md sid sig
        (c, CertWriter_new buf base) = (Ok (i, sg), (c1, w))" "u32_try_from i e = Ok n"
      by (auto simp: generate_cert_or_csr_def bind_Ok_iff with_writer_Ok)
    from cms_moves [OF e(1)] num [OF e(2)] show ?thesis by (auto simp: CertWriter_new_def)
  qed
qed

end
