(* ===== verification/Replies.thy ===== *)
theory Replies
  imports Answers X509_Count
begin

text \<open>
  What is sent back: a response that a request is answered with always has a partial serialization, because the
  size of the certificate in it is never larger than its buffer. It begins with the header of the response.
\<close>

section \<open>The size in a response\<close>

definition sized_at :: "nat \<Rightarrow> bytes \<Rightarrow> bool" where
  "sized_at k b \<longleftrightarrow> unat (u32_from_le_bytes (take 4 (drop k b))) \<le> MAX_CERT_SIZE"

lemma sized_header:
  "length pre = k \<Longrightarrow> unat n \<le> MAX_CERT_SIZE \<Longrightarrow> k + 4 \<le> length b \<Longrightarrow>
     sized_at k (splice b 0 (pre @ u32_to_le_bytes n))"
  by (simp add: sized_at_def splice_def)

lemma sized_field: "unat n \<le> MAX_CERT_SIZE \<Longrightarrow> k + 4 \<le> length b \<Longrightarrow> sized_at k (splice b k (u32_to_le_bytes n))"
  by (simp add: sized_at_def splice_def)

lemma yields_keeps:
  assumes "keeps dstate m" "keeps outbuf m" "\<And>x. Q x st b" "\<And>r. E r st"
  shows "yields m Q E st b"
  using assms(3,4) by (intro yieldsI) (metis keepsD [OF assms(1)] keepsD [OF assms(2)])+

lemma yields_conj:
  assumes "yields m Q E st b" "yields m R F st b"
  shows "yields m (\<lambda>x s b. Q x s b \<and> R x s b) (\<lambda>r s. E r s \<and> F r s) st b"
proof (rule yieldsI)
  fix w x w' assume "dstate w = st" "outbuf w = b" "m w = (Ok x, w')"
  then show "Q x (dstate w') (outbuf w') \<and> R x (dstate w') (outbuf w')" by (simp add: yieldsD [OF assms(1)] yieldsD [OF assms(2)])
next
  fix w r w' assume "dstate w = st" "outbuf w = b" "m w = (r, w')" "\<And>x. r \<noteq> Ok x"
  then show "E (ending r) (dstate w') \<and> F (ending r) (dstate w')"
    by (simp add: yieldsD_abort [OF assms(1)] yieldsD_abort [OF assms(2)])
qed

lemma cert_sized:
  assumes "sized_gen gen"
  shows "yields (create_dpe_cert_or_csr gen d p args fmt t base out)
    (\<lambda>res _ _. unat (cr_cert_size res) \<le> length b - base) (\<lambda>_ _. True) st b"
proof -
  have enc: "yields (on_encoder (gen x p crit name pk md cb base sig)) Q (\<lambda>_ _. True) st b"
    if "\<And>n st b'. unat n \<le> length b - base \<Longrightarrow> Q n st b'" for x crit name pk md cb sig st and Q :: "u32 \<Rightarrow> State \<Rightarrow> bytes \<Rightarrow> bool"
  proof (rule yieldsI)
    fix w n w' assume w: "outbuf w = b" "on_encoder (gen x p crit name pk md cb base sig) w = (Ok n, w')"
    then obtain c' b' where "gen x p crit name pk md cb base sig (crypto w, b) = (Ok n, (c', b'))"
      by (auto simp: on_encoder_def split: prod.splits)
    with assms have "unat n \<le> length b - base" unfolding sized_gen_def by blast
    then show "Q n (dstate w') (outbuf w')" by (rule that)
  qed simp
  show ?thesis
    unfolding create_dpe_cert_or_csr_def Let_def
    by ((rule yields_bind yields_case_prod yields_steps(1) enc | (rule yields_keeps, (intro keeps_intros view_parts)[1], (intro keeps_intros view_parts)[1]))+) simp_all
qed

context answering
begin

lemma yields_cert_sized:
  assumes "calm_gen gen" "sized_gen gen"
    and "\<And>res b'. cert_fits p res \<Longrightarrow> length b' = length b \<Longrightarrow> unat (cr_cert_size res) \<le> length b - base \<Longrightarrow> Q res st b'"
  shows "yields (create_dpe_cert_or_csr gen d p args fmt t base (cert_result_zeroed p)) Q (\<lambda>_ _. True) st b"
proof -
  have fits: "yields (create_dpe_cert_or_csr gen d p args fmt t base (cert_result_zeroed p))
      (\<lambda>res s b'. cert_fits p res \<and> length b' = length b \<and> s = st) (\<lambda>_ _. True) st b"
    by (rule yields_cert [OF assms(1)]) simp_all
  show ?thesis
    by (rule yields_mono [OF yields_conj [OF fits cert_sized [OF assms(2)]]]) (auto intro: assms(3))
qed

lemma write_header_sized:
  assumes "of_profile p cmd" "cert_fits p res" "unat (cr_cert_size res) \<le> MAX_CERT_SIZE" "length h = HANDLE_SIZE"
    and "fitting (certify_hdr_size cmd) b"
  shows "yields (write_header p cmd res h) (\<lambda>_ _. sized_at (certify_hdr_size cmd - 4)) (\<lambda>_ _. True) st b"
  using assms
  by (cases cmd; cases "cr_pub_key res")
    (auto simp: cert_fits_def certify_p256_hdr_bytes_def certify_p384_hdr_bytes_def HANDLE_SIZE_def sized_field
      sized_header [where pre = "_ @ _ @ _ @ _", simplified] split: EcdsaPubKey.split intro!: yields_intros)

lemma certify_sized:
  assumes "calm_gen gen" "sized_gen gen" "of_profile p cmd" "length b = certify_hdr_size cmd + MAX_CERT_SIZE"
    "length b \<le> USIZE_MAX"
  shows "yields (certify_key gen d p cmd loc) (\<lambda>_ _. sized_at (certify_hdr_size cmd - 4)) (\<lambda>_ _. True) st b"
proof -
  have cert: "yields (run_cert_format gen f d p args base (cert_result_zeroed p)) Q (\<lambda>_ _. True) st b"
    if "\<And>res b'. cert_fits p res \<Longrightarrow> length b' = length b \<Longrightarrow> unat (cr_cert_size res) \<le> length b - base \<Longrightarrow> Q res st b'"
    for f args base Q
    unfolding run_cert_format_def create_dpe_cert_def create_dpe_csr_def
    by (intro yields_intros yields_cert_sized assms(1,2) that TrueI)
  show ?thesis
    unfolding certify_key_def Let_def
    by (intro yields_intros cert yields_mono [OF write_header_sized [OF assms(3)]])
      (use assms(4,5) in \<open>auto simp: handle_lengths dest: position_lt\<close>)
qed

lemma export_sized:
  assumes "calm_gen gen" "sized_gen gen" "length b = 80 + MAX_CERT_SIZE" "length b \<le> USIZE_MAX"
    and "length (contexts st) = 64" "length (handle q) = HANDLE_SIZE"
    and i: "get_active_context_pos st (d_handle cmd) loc = Ok i"
  shows "yields (derive_export gen d p cmd i q loc) (\<lambda>_ _. sized_at 76) (\<lambda>_ _. True) st b"
proof -
  have cert: "yields (create_exported_dpe_cert gen d p args base (cert_result_zeroed p)) Q (\<lambda>_ _. True) st b"
    if "\<And>res b'. cert_fits p res \<Longrightarrow> length b' = length b \<Longrightarrow> unat (cr_cert_size res) \<le> length b - base \<Longrightarrow> Q res st b'"
    for args base Q
    unfolding create_exported_dpe_cert_def by (intro yields_cert_sized assms(1,2) that)
  have "i < 64" using position_lt [OF i] assms(5) by simp
  then show ?thesis
    unfolding derive_export_def exported_hdr_bytes_def
    by (intro yields_intros cert)
      (use assms(3-6) in \<open>auto simp: handle_lengths cert_fits_def MAX_EXPORTED_CDI_SIZE_def destroyed_handle [OF _ i]
        length_destroy_context sized_header [where pre = "_ @ _ @ _ @ _", simplified]\<close>)
qed

lemma derive_sized:
  assumes "calm_gen gen" "sized_gen gen" "exports_cdi (d_flags cmd)" "length b = 80 + MAX_CERT_SIZE"
    "length b \<le> USIZE_MAX" "length (contexts st) = 64"
  shows "yields (derive_context gen d p cmd loc) (\<lambda>_ _. sized_at 76) (\<lambda>_ _. True) st b"
  unfolding derive_context_def Let_def
  by (intro yields_intros export_sized derive_parent_handle assms)
    (use assms(3) in \<open>auto simp: get_active_context_and_idx_Ok derive_invalid_def\<close>)

text \<open>Where the size of the certificate stands in a response that has one.\<close>

end

fun size_place :: "Command \<Rightarrow> nat option" where
  "size_place (CertifyKey cmd) = Some (certify_hdr_size cmd - 4)"
| "size_place (DeriveContext cmd) = (if exports_cdi (d_flags cmd) then Some 76 else None)"
| "size_place _ = None"

context answering
begin

lemma handler_sized:
  assumes "calm_gen gen" "sized_gen gen" "of_instance p c" "length (contexts st) = 64" "fst (response_layout c) = length b"
    "size_place c = Some k"
  shows "yields (execute_serialized gen d p c loc) (\<lambda>_ _. sized_at k) (\<lambda>_ _. True) st b"
proof -
  have b: "length b \<le> USIZE_MAX" unfolding assms(5) [symmetric]
    by (cases c rule: response_layout.cases) (simp_all add: MAX_CERT_SIZE_eq USIZE_MAX_def)
  show ?thesis
  proof (cases c)
    case (CertifyKey cmd)
    then have "length b = certify_hdr_size cmd + MAX_CERT_SIZE" using assms(5) by (cases cmd) simp_all
    with certify_sized [OF assms(1,2) _ this b] CertifyKey assms(3,6) show ?thesis by (auto simp: of_instance_def)
  next
    case (DeriveContext cmd)
    with derive_sized [OF assms(1,2) _ _ b assms(4)] assms(5,6) show ?thesis by (auto split: if_splits)
  qed (use assms(6) in simp_all)
qed

end

section \<open>The bytes that are sent\<close>

lemma take_header: "take 12 (hdr_bytes h @ x) = hdr_bytes h"
  by simp

lemma response_starts: "take 12 (response_bytes r) = hdr_bytes (response_header r)"
proof -
  have "take 12 (certify_resp_bytes c) = hdr_bytes (certify_resp_hdr c)" for c
    by (cases c) (simp_all add: with_cert_bytes_def certify_p256_hdr_bytes_def certify_p384_hdr_bytes_def
        certify_mldsa_hdr_bytes_def)
  moreover have "take 12 (sign_resp_bytes s) = hdr_bytes (sign_resp_hdr s)" for s
    by (cases s) (simp_all add: sign_p256_resp_bytes_def sign_p384_resp_bytes_def sign_mldsa_resp_bytes_def)
  ultimately show ?thesis
    by (cases r) (simp_all add: get_profile_resp_bytes_def new_handle_resp_bytes_def derive_context_resp_bytes_def
        with_cert_bytes_def exported_hdr_bytes_def update_resp_bytes_def cert_chain_resp_bytes_def)
qed

text \<open>A structure with a certificate has a partial form where its size field is in range.\<close>

lemma read_with_cert_Some:
  "read_with_cert rh b = Some (r, x) \<Longrightarrow> length (wc_cert r) = MAX_CERT_SIZE \<and> rh b = Some (wc_header r, wc_cert r @ x)"
  by (auto simp: read_with_cert_def then_read_def read_done_def read_n_Some Option.bind_eq_Some_conv)

lemma partial_in_range:
  assumes "length (wc_cert r) = MAX_CERT_SIZE" "unat (cs (wc_header r)) \<le> MAX_CERT_SIZE"
    and "hb (wc_header r) = hdr_bytes h @ z"
  shows "\<exists>bs. with_cert_partial hb cs e r = Ok bs \<and> take 12 bs = hdr_bytes h"
  using assms by (simp add: with_cert_partial_def with_cert_bytes_def get_range_def)

lemma read_hdr_rest: "read_hdr b = Some (h, r) \<Longrightarrow> r = drop 12 b"
  by (auto simp: read_hdr_def then_read_def read_done_def read_u32_def read_profile_def read_n_def
      Option.bind_eq_Some_conv split: if_splits)

lemma read_size:
  "read_certify_p256_hdr b = Some (h2, r) \<Longrightarrow> k2_cert_size h2 = u32_from_le_bytes (take 4 (drop 92 b))"
  "read_certify_p384_hdr b = Some (h3, r) \<Longrightarrow> k3_cert_size h3 = u32_from_le_bytes (take 4 (drop 124 b))"
  "read_certify_mldsa_hdr b = Some (hm, r) \<Longrightarrow> km_cert_size hm = u32_from_le_bytes (take 4 (drop 2620 b))"
  "read_exported_hdr b = Some (he, r) \<Longrightarrow> ex_certificate_size he = u32_from_le_bytes (take 4 (drop 76 b))"
  by (auto simp: read_certify_p256_hdr_def read_certify_p384_hdr_def read_certify_mldsa_hdr_def read_exported_hdr_def
      then_read_def read_done_def read_u32_def read_n_def HANDLE_SIZE_def MAX_EXPORTED_CDI_SIZE_def
      Option.bind_eq_Some_conv split: if_splits dest!: read_hdr_rest)

lemma read_reading: "read_exact (reading rd f) b = Some resp \<Longrightarrow> \<exists>x. rd b = Some (x, []) \<and> resp = f x"
  by (auto simp: read_exact_def reading_def then_read_def read_done_def Option.bind_eq_Some_conv
      split: option.splits list.splits)

lemma partial_of_read:
  assumes "response_layout c = (n, rd)" "read_exact rd b = Some resp" "\<And>k. size_place c = Some k \<Longrightarrow> sized_at k b"
  shows "\<exists>bs. response_partial resp = Ok bs \<and> take 12 bs = hdr_bytes (response_header resp)"
proof -
  have plain: ?thesis if "response_partial resp = Ok (response_bytes resp)"
    using that response_starts by blast
  note headers = certify_p256_hdr_bytes_def certify_p384_hdr_bytes_def certify_mldsa_hdr_bytes_def exported_hdr_bytes_def
  consider (cert) cmd where "c = CertifyKey cmd" | (export) cmd where "c = DeriveContext cmd" "exports_cdi (d_flags cmd)"
    | (other) "response_partial resp = Ok (response_bytes resp)"
    using assms(1,2) by (cases c rule: response_layout.cases) (auto dest!: read_reading split: if_splits)
  then show ?thesis
  proof cases
    case cert
    have s: "sized_at (certify_hdr_size cmd - 4) b" using assms(3) cert by simp
    show ?thesis
    proof (cases cmd)
      case (CkP256 x)
      with cert assms(1,2) obtain r where "read_with_cert read_certify_p256_hdr b = Some (r, [])"
        "resp = RespCertifyKey (CkRespP256 r)" by (auto dest!: read_reading)
      then show ?thesis using s CkP256 read_with_cert_Some [of read_certify_p256_hdr b r "[]"] read_size(1) [of b "wc_header r"]
        by (auto simp: sized_at_def headers intro!: partial_in_range)
    next
      case (CkP384 x)
      with cert assms(1,2) obtain r where "read_with_cert read_certify_p384_hdr b = Some (r, [])"
        "resp = RespCertifyKey (CkRespP384 r)" by (auto dest!: read_reading)
      then show ?thesis using s CkP384 read_with_cert_Some [of read_certify_p384_hdr b r "[]"] read_size(2) [of b "wc_header r"]
        by (auto simp: sized_at_def headers intro!: partial_in_range)
    next
      case (CkMldsa87 x)
      with cert assms(1,2) obtain r where "read_with_cert read_certify_mldsa_hdr b = Some (r, [])"
        "resp = RespCertifyKey (CkRespMldsa87 r)" by (auto dest!: read_reading)
      then show ?thesis using s CkMldsa87 read_with_cert_Some [of read_certify_mldsa_hdr b r "[]"] read_size(3) [of b "wc_header r"]
        by (auto simp: sized_at_def headers intro!: partial_in_range)
    qed
  next
    case export
    have s: "sized_at 76 b" using assms(3) export by simp
    from export assms(1,2) obtain r where "read_with_cert read_exported_hdr b = Some (r, [])"
      "resp = RespDeriveContextExportedCdi r" by (auto dest!: read_reading)
    then show ?thesis using s read_with_cert_Some [of read_exported_hdr b r "[]"] read_size(4) [of b "wc_header r"]
      by (auto simp: sized_at_def headers intro!: partial_in_range)
  qed (rule plain)
qed

context answering
begin

lemma execute_partial:
  assumes "calm_gen gen" "sized_gen gen" "of_instance p c" "length (contexts (dstate w)) = 64"
    and x: "execute gen d p c loc w = (Ok resp, w')"
  shows "\<exists>bs. response_partial resp = Ok bs \<and> take 12 bs = hdr_bytes (response_header resp)"
proof -
  obtain n rd where l: "response_layout c = (n, rd)" by fastforce
  let ?w = "w\<lparr>outbuf := replicate n 0\<rparr>"
  obtain h v where h: "execute_serialized gen d p c loc ?w = (h, v)" by fastforce
  with x l obtain m where m: "h = Ok m" and rd: "read_exact rd (outbuf v) = Some resp"
    by (cases h) (auto simp: execute_def with_buffer_def bind_def ok_or_def split: option.splits)
  have "sized_at k (outbuf v)" if "size_place c = Some k" for k
    using yieldsD [OF handler_sized [OF assms(1-3) _ _ that, of "dstate w" "replicate n 0"], of ?w] assms(4) l h m by simp
  from partial_of_read [OF l rd this] show ?thesis .
qed

theorem request_partial:
  assumes "calm_gen gen" "sized_gen gen" "length (contexts (dstate w)) = 64"
    and x: "execute_serialized_command gen d p al loc bs w = (Ok resp, w')"
  shows "\<exists>out. response_partial resp = Ok out \<and> take 12 out = hdr_bytes (response_header resp)"
proof -
  obtain c where c: "deserialize al p bs = Ok c"
    using x by (cases "deserialize al p bs") (simp_all add: execute_serialized_command_def)
  obtain r v where e: "execute gen d p c loc w = (r, v)" by fastforce
  show ?thesis
  proof (cases r)
    case (Ok y)
    with x e have "resp = y" by (simp add: execute_serialized_command_eq [OF c])
    with execute_partial [OF assms(1,2) deserialize_of_instance [OF c] assms(3)] e Ok show ?thesis by simp
  qed (use x e in \<open>auto simp: execute_serialized_command_eq [OF c]\<close>)
qed

end

end
