(* ===== verification/Simulator.thy ===== *)
theory Simulator
  imports Start Replies
begin

text \<open>
  The simulator (simulator/src/main.rs): a process that makes an instance with the features named on its command
  line and serves one request per connection of a socket. What the operating system does is an argument: what a
  \<open>read\<close> returns, whether a \<open>write_all\<close> succeeds, whether a connection could be accepted. The socket file and
  the log are left out.
\<close>

section \<open>One connection\<close>

text \<open>What the peer has sent, \<open>None\<close> for a \<open>read\<close> that fails, and whether it takes the reply.\<close>

record stream =
  st_sent :: "bytes option"
  st_takes_reply :: bool

text \<open>\<open>read\<close> fills a buffer of zeros from its start and returns how many bytes that were.\<close>

definition stream_read :: "stream \<Rightarrow> bytes \<Rightarrow> (nat \<times> bytes) option" where
  "stream_read s buf = map_option (\<lambda>sent. let len = min (length sent) (length buf) in
     (len, splice buf 0 (take len sent))) (st_sent s)"

text \<open>
  \<open>handle_request\<close>; the result is the bytes of the reply. A failed \<open>unwrap\<close> and a slice with its end before its
  start are \<open>Panic\<close>. The command is decoded a first time for the log.
\<close>

definition handle_request ::
  "'c cert_gen \<Rightarrow> ('c, 'p) deps \<Rightarrow> DpeProfile \<Rightarrow> bool \<Rightarrow> stream \<Rightarrow> ('c, 'p, bytes) dpe" where
  "handle_request gen d p al s w =
     (case stream_read s (replicate 4096 0) of
        None \<Rightarrow> (Panic, w)
      | Some (len, buf) \<Rightarrow>
          if len < 4 then (Panic, w)
          else
            let locality = u32_from_le_bytes (take 4 buf); cmd = drop 4 (take len buf)
            in (case deserialize al p cmd of
                  Panic \<Rightarrow> (Panic, w)
                | Diverge \<Rightarrow> (Diverge, w)
                | _ \<Rightarrow>
                    (case execute_serialized_command gen d p al locality cmd w of
                       (Ok response, w') \<Rightarrow>
                         (case response_partial response of
                            Ok bs \<Rightarrow> if st_takes_reply s then (Ok bs, w') else (Panic, w')
                          | Err _ \<Rightarrow> (Panic, w')
                          | Panic \<Rightarrow> (Panic, w')
                          | Diverge \<Rightarrow> (Diverge, w'))
                     | (Err _, w') \<Rightarrow> (Panic, w')
                     | (Panic, w') \<Rightarrow> (Panic, w')
                     | (Diverge, w') \<Rightarrow> (Diverge, w'))))"

section \<open>The process\<close>

text \<open>The command line.\<close>

record sim_args =
  supports_simulation :: bool
  supports_recursive :: bool
  supports_auto_init :: bool
  supports_rotate_context :: bool
  supports_x509 :: bool
  supports_csr :: bool
  supports_internal_info :: bool
  supports_internal_dice :: bool
  supports_retain_parent_context :: bool
  supports_cdi_export :: bool
  mark_dice_extensions_critical :: bool

text \<open>\<open>set\<close> of the bitflags.\<close>

definition flags_set :: "'a::len word \<Rightarrow> bool \<Rightarrow> 'a word \<Rightarrow> 'a word" where
  "flags_set flag v s = (if v then s OR flag else s AND NOT flag)"

definition sim_support :: "sim_args \<Rightarrow> Support" where
  "sim_support args = fold (\<lambda>(flag, v). flags_set flag v)
     [(SUPPORT_SIMULATION, supports_simulation args), (SUPPORT_AUTO_INIT, supports_auto_init args),
      (SUPPORT_X509, supports_x509 args), (SUPPORT_CSR, supports_csr args),
      (SUPPORT_RECURSIVE, supports_recursive args), (SUPPORT_ROTATE_CONTEXT, supports_rotate_context args),
      (SUPPORT_INTERNAL_DICE, supports_internal_dice args), (SUPPORT_INTERNAL_INFO, supports_internal_info args),
      (SUPPORT_RETAIN_PARENT_CONTEXT, supports_retain_parent_context args),
      (SUPPORT_CDI_EXPORT, supports_cdi_export args)] 0"

definition sim_flags :: "sim_args \<Rightarrow> DpeFlags" where
  "sim_flags args = flags_set MARK_DICE_EXTENSIONS_CRITICAL (mark_dice_extensions_critical args) 0"

text \<open>The module \<open>profile\<close>, by the features of the build; without any of them there is none.\<close>

definition sim_profile :: "bool \<Rightarrow> bool \<Rightarrow> bool \<Rightarrow> (DpeProfile \<times> DefaultPlatformProfile \<times> rc_config) option" where
  "sim_profile p256 p384 ml_dsa =
     (if p256 \<and> \<not> p384 \<and> \<not> ml_dsa then Some (P256Sha256, P256, new_ecc256)
      else if p384 then Some (P384Sha384, P384, new_ecc384)
      else if ml_dsa \<and> \<not> p384 then Some (Mldsa87, PlatMldsa87, new_mldsa87)
      else None)"

text \<open>The loop over \<open>incoming\<close>: a connection or an error; the replies are collected.\<close>

datatype connection = Opened stream | NotOpened

fun sim_loop ::
  "'c cert_gen \<Rightarrow> ('c, 'p) deps \<Rightarrow> DpeProfile \<Rightarrow> bool \<Rightarrow> connection list \<Rightarrow> ('c, 'p) world \<Rightarrow>
     (DpeErrorCode, unit) outcome \<times> bytes list" where
  "sim_loop gen d p al [] w = (Ok (), [])"
| "sim_loop gen d p al (NotOpened # cs) w = (Ok (), [])"
| "sim_loop gen d p al (Opened s # cs) w =
     (case handle_request gen d p al s w of
        (Ok bs, w') \<Rightarrow> (case sim_loop gen d p al cs w' of (r, sent) \<Rightarrow> (r, bs # sent))
      | (Err e, w') \<Rightarrow> (Err e, [])
      | (Panic, w') \<Rightarrow> (Panic, [])
      | (Diverge, w') \<Rightarrow> (Diverge, []))"

text \<open>An instance that cannot be made is an error of \<open>main\<close>, with the code that its message shows.\<close>

definition sim_main ::
  "'r rust_crypto cert_gen \<Rightarrow> 'r algs \<Rightarrow> artifacts \<Rightarrow> build_features \<Rightarrow> 'r \<Rightarrow>
     DpeProfile \<times> DefaultPlatformProfile \<times> rc_config \<Rightarrow> sim_args \<Rightarrow> bool \<Rightarrow> connection list \<Rightarrow>
     (DpeErrorCode, unit) outcome \<times> bytes list" where
  "sim_main gen x art b rng prof args al conns =
     (let (p, pf, cfg) = prof; d = rust_default x cfg art pf;
          env = \<lparr>crypto = rust_crypto_new rng, platform = (), dstate = State_new b (sim_support args) (sim_flags args),
            outbuf = []\<rparr>
      in case DpeInstance_new d p env of
           (Ok _, w) \<Rightarrow> sim_loop gen d p al conns w
         | (Err e, _) \<Rightarrow> (Err e, [])
         | (Panic, _) \<Rightarrow> (Panic, [])
         | (Diverge, _) \<Rightarrow> (Diverge, []))"

section \<open>What a client sees\<close>

text \<open>A connection that gets a reply: its request has a locality and decodes, and the reply is taken.\<close>

definition served :: "DpeProfile \<Rightarrow> bool \<Rightarrow> connection \<Rightarrow> bool" where
  "served p al c \<longleftrightarrow> (\<exists>s sent. c = Opened s \<and> st_sent s = Some sent \<and> st_takes_reply s \<and> 4 \<le> length sent \<and>
     is_ok (deserialize al p (drop 4 (take 4096 sent))))"

definition reply_of :: "DpeProfile \<Rightarrow> bytes \<Rightarrow> bool" where
  "reply_of p bs \<longleftrightarrow> (\<exists>status. take 12 bs = hdr_bytes \<lparr>rh_magic = DPE_RESPONSE_MAGIC, rh_status = status, rh_profile = p\<rparr>)"

lemma stream_read_zeros:
  assumes "stream_read s (replicate 4096 0) = Some (len, buf)"
  obtains sent where "st_sent s = Some sent" "len = length (take 4096 sent)" "take len buf = take 4096 sent"
  using assms by (auto simp: stream_read_def splice_def Let_def min_def)

context answering
begin

lemma request_reply:
  assumes a: "addressable chain" "calm_gen gen" "sized_gen gen" and inv: "state_inv (dstate w)"
    and c: "deserialize al p bs = Ok c"
  obtains resp out w' where "execute_serialized_command gen d p al loc bs w = (Ok resp, w')"
    "response_partial resp = Ok out" "reply_of p out" "state_inv (dstate w')"
proof -
  obtain r w' where x: "execute_serialized_command gen d p al loc bs w = (r, w')" by fastforce
  have len: "length (contexts (dstate w)) = 64" by (rule forest_length [OF state_inv_forest [OF inv]])
  from request_answers [OF a(1,2) inv x] have "settled r" .
  moreover have "\<nexists>e. r = Err e"
    using x by (auto simp: execute_serialized_command_eq [OF c] split: prod.splits outcome.splits)
  ultimately obtain resp where r: "r = Ok resp" by (cases r) auto
  obtain out where out: "response_partial resp = Ok out" "take 12 out = hdr_bytes (response_header resp)"
    using request_partial [OF a(2,3) len x [unfolded r]] by blast
  have "\<exists>e. response_header resp = response_hdr p e"
    using request_answer [OF a(2) len x [unfolded r]] by (metis response_header.simps(11))
  with out(2) have "reply_of p out" by (auto simp: reply_of_def response_hdr_def ResponseHdr_new_def)
  with x r out(1) transitions_preserve_inv [OF execute_serialized_command_transitions [OF x] inv] show thesis
    by (intro that) simp_all
qed

lemma handle_request_served:
  assumes a: "addressable chain" "calm_gen gen" "sized_gen gen" and inv: "state_inv (dstate w)"
    and s: "served p al (Opened s)"
  obtains bs w' where "handle_request gen d p al s w = (Ok bs, w')" "reply_of p bs" "state_inv (dstate w')"
proof -
  obtain sent c where sent: "st_sent s = Some sent" "st_takes_reply s" "4 \<le> length sent"
    "deserialize al p (drop 4 (take 4096 sent)) = Ok c"
    using s by (auto simp: served_def elim: is_ok.elims)
  let ?len = "length (take 4096 sent)"
  obtain buf where buf: "stream_read s (replicate 4096 0) = Some (?len, buf)" "take ?len buf = take 4096 sent"
    using sent(1) by (auto simp: stream_read_def splice_def Let_def min_def)
  obtain resp out w' where x: "execute_serialized_command gen d p al (u32_from_le_bytes (take 4 buf))
      (drop 4 (take 4096 sent)) w = (Ok resp, w')" "response_partial resp = Ok out" "reply_of p out" "state_inv (dstate w')"
    by (rule request_reply [OF a inv sent(4)])
  have "handle_request gen d p al s w = (Ok out, w')"
    using buf sent x(1,2) by (simp add: handle_request_def Let_def)
  then show thesis by (rule that [OF _ x(3,4)])
qed

lemma handle_request_refused:
  assumes "\<not> served p al (Opened s)" and a: "addressable chain" "calm_gen gen" "sized_gen gen" and inv: "state_inv (dstate w)"
  shows "fst (handle_request gen d p al s w) = Panic"
proof (cases "stream_read s (replicate 4096 0)")
  case (Some y)
  then obtain len buf sent where buf: "stream_read s (replicate 4096 0) = Some (len, buf)"
    and sent: "st_sent s = Some sent" "len = length (take 4096 sent)" "take len buf = take 4096 sent"
    by (metis stream_read_zeros surj_pair)
  let ?cmd = "drop 4 (take 4096 sent)" and ?loc = "u32_from_le_bytes (take 4 buf)"
  consider "len < 4" | (bad) "\<not> is_ok (deserialize al p ?cmd)" "\<not> len < 4"
    | (deaf) c where "\<not> st_takes_reply s" "deserialize al p ?cmd = Ok c" "\<not> len < 4"
    using assms(1) sent(1,2) by (cases "deserialize al p ?cmd"; cases "length sent < 4") (auto simp: served_def)
  then show ?thesis
  proof cases
    case bad
    then obtain e where "deserialize al p ?cmd = Err e"
      using settled_deserialize [of al p ?cmd] by (cases "deserialize al p ?cmd") auto
    with bad buf sent(3) show ?thesis
      by (simp add: handle_request_def Let_def execute_serialized_command_def bind_step)
  next
    case deaf
    obtain resp out w' where "execute_serialized_command gen d p al ?loc ?cmd w = (Ok resp, w')"
      "response_partial resp = Ok out" by (rule request_reply [OF a inv deaf(2)])
    with deaf buf sent(3) show ?thesis by (simp add: handle_request_def Let_def)
  qed (simp add: handle_request_def buf)
qed (simp add: handle_request_def)

theorem sim_loop_replies:
  assumes a: "addressable chain" "calm_gen gen" "sized_gen gen"
  shows "state_inv (dstate w) \<Longrightarrow> \<exists>replies.
    sim_loop gen d p al cs w =
      ((case dropWhile (served p al) cs of Opened _ # _ \<Rightarrow> Panic | _ \<Rightarrow> Ok ()), replies) \<and>
    length replies = length (takeWhile (served p al) cs) \<and> list_all (reply_of p) replies"
proof (induction cs arbitrary: w)
  case (Cons c cs)
  show ?case
  proof (cases c)
    case NotOpened
    then show ?thesis by (simp add: served_def)
  next
    case (Opened s)
    show ?thesis
    proof (cases "served p al c")
      case True
      then obtain bs w' where h: "handle_request gen d p al s w = (Ok bs, w')" "reply_of p bs" "state_inv (dstate w')"
        unfolding Opened by (rule handle_request_served [OF a Cons.prems])
      with Cons.IH [OF h(3)] True Opened show ?thesis by auto
    next
      case False
      then have "fst (handle_request gen d p al s w) = Panic"
        unfolding Opened by (rule handle_request_refused [OF _ a Cons.prems])
      with False Opened show ?thesis by (cases "handle_request gen d p al s w") simp
    qed
  qed
qed simp

end

text \<open>The whole process, in a build with some profile.\<close>

lemma sim_main_replies:
  assumes a: "addressable (art_cert_chain art pf)" "calm_gen gen" "sized_gen gen"
  shows "\<exists>replies. sim_main gen x art b rng (p, pf, cfg) args al conns =
      ((case dropWhile (served p al) conns of Opened _ # _ \<Rightarrow> Panic | _ \<Rightarrow> Ok ()), replies) \<and>
    length replies = length (takeWhile (served p al) conns) \<and> list_all (reply_of p) replies"
proof -
  let ?d = "rust_default x cfg art pf"
  let ?env = "\<lparr>crypto = rust_crypto_new rng, platform = (), dstate = State_new b (sim_support args) (sim_flags args),
    outbuf = []\<rparr> :: ('a rust_crypto, unit) world"
  obtain w where w: "DpeInstance_new ?d p ?env = (Ok (), w)"
    by (rule start_new [of ?env b "sim_support args" "sim_flags args" ?d p]) (auto simp: rust_default_def default_platform_def)
  have "state_inv (dstate w)"
    using sp_any [OF DpeInstance_new_transitions w] transitions_preserve_inv [OF _ state_inv_new] by simp
  from rust_answering.sim_loop_replies [OF a this] w show ?thesis by (simp add: sim_main_def)
qed

end
