(* ===== verification/Typed.thy ===== *)
theory Typed
  imports Replies
begin

text \<open>
  The types of the wire: what is read from bytes has fields of the lengths of their types, and written again it
  is the bytes it was read from. So the bytes of a response are the buffer that its handler has filled.
\<close>

section \<open>Reading loses nothing\<close>

lemma then_read_eq_Some:
  "then_read m f b = Some (x, r) \<longleftrightarrow> (\<exists>y s. m b = Some (y, s) \<and> f y s = Some (x, r))"
  by (auto simp: then_read_def Option.bind_eq_Some_conv)

lemma read_done_eq_Some: "read_done y b = Some (x, r) \<longleftrightarrow> x = y \<and> r = b"
  by (auto simp: read_done_def)

lemma u32_of_bytes: "length x = 4 \<Longrightarrow> u32_to_le_bytes (u32_from_le_bytes x) = x"
proof -
  assume "length x = 4"
  then obtain a b c d where x: "x = [a, b, c, d]" by (auto simp: length_Suc_conv numeral_eq_Suc)
  show ?thesis unfolding x
    by (simp add: u32_to_le_bytes_def, intro conjI; rule bit_word_eqI)
      (auto simp: bit_simps dest: bit_imp_le_length)
qed

lemma u16_of_bytes: "length x = 2 \<Longrightarrow> u16_to_le_bytes (u16_from_le_bytes x) = x"
proof -
  assume "length x = 2"
  then obtain a b where x: "x = [a, b]" by (auto simp: length_Suc_conv numeral_eq_Suc)
  show ?thesis unfolding x
    by (simp add: u16_to_le_bytes_def, intro conjI; rule bit_word_eqI)
      (auto simp: bit_simps dest: bit_imp_le_length)
qed

lemma read_u32_eq_Some: "read_u32 b = Some (w, r) \<longleftrightarrow> b = u32_to_le_bytes w @ r"
proof
  assume "read_u32 b = Some (w, r)"
  then obtain x where "length x = 4" "b = x @ r" "w = u32_from_le_bytes x"
    by (auto simp: read_u32_def read_n_Some)
  then show "b = u32_to_le_bytes w @ r" by (simp add: u32_of_bytes)
qed (simp add: read_u32_append)

lemma read_u16_eq_Some: "read_u16 b = Some (w, r) \<longleftrightarrow> b = u16_to_le_bytes w @ r"
proof
  assume "read_u16 b = Some (w, r)"
  then obtain x where "length x = 2" "b = x @ r" "w = u16_from_le_bytes x"
    by (auto simp: read_u16_def read_n_Some)
  then show "b = u16_to_le_bytes w @ r" by (simp add: u16_of_bytes)
qed (simp add: read_u16_append)

lemma profile_of_u32_eq_Some: "profile_of_u32 w = Some p \<longleftrightarrow> w = profile_u32 p"
  by (cases p) (auto simp: profile_of_u32_def)

lemma read_profile_eq_Some: "read_profile b = Some (p, r) \<longleftrightarrow> b = u32_to_le_bytes (profile_u32 p) @ r"
  by (auto simp: read_profile_def Option.bind_eq_Some_conv read_u32_eq_Some profile_of_u32_eq_Some)

lemma read_hdr_eq_Some: "read_hdr b = Some (h, r) \<longleftrightarrow> b = hdr_bytes h @ r"
  by (cases h) (auto simp: read_hdr_def then_read_eq_Some read_done_eq_Some read_u32_eq_Some read_profile_eq_Some
      hdr_bytes_def)

lemmas read_Some = then_read_eq_Some read_done_eq_Some read_u32_eq_Some read_u16_eq_Some read_hdr_eq_Some read_n_Some

text \<open>The contract of a structure whose reader accepts only what its writer can have written.\<close>

locale exact_wire = wire size ok emit rd
  for size :: nat and ok :: "'a \<Rightarrow> bool" and emit :: "'a \<Rightarrow> bytes" and rd :: "'a reader" +
  assumes read_emit: "rd b = Some (x, r) \<Longrightarrow> ok x \<and> b = emit x @ r"
begin

lemma read_exact_emit: "read_exact rd b = Some x \<longleftrightarrow> ok x \<and> b = emit x"
proof
  assume "read_exact rd b = Some x"
  then show "ok x \<and> b = emit x" by (auto simp: read_exact_def split: option.splits list.splits dest: read_emit)
qed (auto simp: read_exact_write)

text \<open>With the buffer of a certificate behind it.\<close>

lemma read_with_cert_emit:
  "read_with_cert rd b = Some (r, x) \<Longrightarrow> ok (wc_header r) \<and> length (wc_cert r) = MAX_CERT_SIZE \<and> b = with_cert_bytes emit r @ x"
  using read_with_cert_Some [of rd b r x] read_emit [of b "wc_header r" "wc_cert r @ x"] by (auto simp: with_cert_bytes_def)

lemma reading_with_cert_emit:
  "read_exact (reading (read_with_cert rd) f) b = Some y \<Longrightarrow>
     \<exists>r. y = f r \<and> ok (wc_header r) \<and> length (wc_cert r) = MAX_CERT_SIZE \<and> b = with_cert_bytes emit r"
  using read_reading [of "read_with_cert rd" f b y] read_with_cert_emit [of b _ "[]"] by auto

lemma reading_emit: "read_exact (reading rd f) b = Some y \<Longrightarrow> \<exists>x. y = f x \<and> ok x \<and> b = emit x"
  using read_reading [of rd f b y] read_emit [of b _ "[]"] by auto

end

section \<open>The structures\<close>

interpretation typed_hdr: exact_wire 12 "\<lambda>_. True" hdr_bytes read_hdr
  by unfold_locales (simp add: read_hdr_eq_Some)

interpretation typed_profile: exact_wire 32 "\<lambda>_. True" get_profile_resp_bytes read_get_profile_resp
  by unfold_locales (auto simp: read_get_profile_resp_def get_profile_resp_bytes_def handle_ok_def read_Some)

interpretation typed_new_handle: exact_wire 28 "\<lambda>r. handle_ok (nh_handle r)" new_handle_resp_bytes read_new_handle_resp
  by unfold_locales (auto simp: read_new_handle_resp_def new_handle_resp_bytes_def handle_ok_def read_Some)

interpretation typed_derive: exact_wire 44 "\<lambda>r. handle_ok (dc_handle r) \<and> handle_ok (dc_parent_handle r)" derive_context_resp_bytes read_derive_context_resp
  by unfold_locales (auto simp: read_derive_context_resp_def derive_context_resp_bytes_def handle_ok_def read_Some)

interpretation typed_update: exact_wire 44 "\<lambda>r. handle_ok (uc_new_context_handle r) \<and> handle_ok (uc_new_parent_context_handle r)" update_resp_bytes read_update_resp
  by unfold_locales (auto simp: read_update_resp_def update_resp_bytes_def handle_ok_def read_Some)

interpretation typed_chain: exact_wire 2064 "\<lambda>r. length (gc_certificate_chain r) = MAX_CHUNK_SIZE" cert_chain_resp_bytes read_cert_chain_resp
  by unfold_locales (auto simp: read_cert_chain_resp_def cert_chain_resp_bytes_def handle_ok_def read_Some)

interpretation typed_sign_p256: exact_wire 92 "\<lambda>r. handle_ok (s2_handle r) \<and> length (s2_sig_r r) = 32 \<and> length (s2_sig_s r) = 32" sign_p256_resp_bytes read_sign_p256_resp
  by unfold_locales (auto simp: read_sign_p256_resp_def sign_p256_resp_bytes_def handle_ok_def read_Some)

interpretation typed_sign_p384: exact_wire 124 "\<lambda>r. handle_ok (s3_handle r) \<and> length (s3_sig_r r) = 48 \<and> length (s3_sig_s r) = 48" sign_p384_resp_bytes read_sign_p384_resp
  by unfold_locales (auto simp: read_sign_p384_resp_def sign_p384_resp_bytes_def handle_ok_def read_Some)

interpretation typed_sign_mldsa: exact_wire 4656 "\<lambda>r. handle_ok (sm_handle r) \<and> length (sm_sig r) = 4627 \<and> length (sm_padding r) = 1" sign_mldsa_resp_bytes read_sign_mldsa_resp
  by unfold_locales (auto simp: read_sign_mldsa_resp_def sign_mldsa_resp_bytes_def handle_ok_def read_Some)

interpretation typed_certify_p256: exact_wire 96 "\<lambda>r. handle_ok (k2_handle r) \<and> length (k2_pubkey_x r) = 32 \<and> length (k2_pubkey_y r) = 32" certify_p256_hdr_bytes read_certify_p256_hdr
  by unfold_locales (auto simp: read_certify_p256_hdr_def certify_p256_hdr_bytes_def handle_ok_def read_Some)

interpretation typed_certify_p384: exact_wire 128 "\<lambda>r. handle_ok (k3_handle r) \<and> length (k3_pubkey_x r) = 48 \<and> length (k3_pubkey_y r) = 48" certify_p384_hdr_bytes read_certify_p384_hdr
  by unfold_locales (auto simp: read_certify_p384_hdr_def certify_p384_hdr_bytes_def handle_ok_def read_Some)

interpretation typed_certify_mldsa: exact_wire 2624 "\<lambda>r. handle_ok (km_handle r) \<and> length (km_pubkey r) = 2592" certify_mldsa_hdr_bytes read_certify_mldsa_hdr
  by unfold_locales (auto simp: read_certify_mldsa_hdr_def certify_mldsa_hdr_bytes_def handle_ok_def read_Some)

interpretation typed_exported: exact_wire 80 "\<lambda>r. handle_ok (ex_handle r) \<and> handle_ok (ex_parent_handle r) \<and> length (ex_exported_cdi r) = MAX_EXPORTED_CDI_SIZE" exported_hdr_bytes read_exported_hdr
  by unfold_locales (auto simp: read_exported_hdr_def exported_hdr_bytes_def handle_ok_def read_Some)

section \<open>The type of a response\<close>

fun response_typed :: "Response \<Rightarrow> bool" where
  "response_typed (RespInitCtx r) \<longleftrightarrow> handle_ok (nh_handle r)"
| "response_typed (RespRotateCtx r) \<longleftrightarrow> handle_ok (nh_handle r)"
| "response_typed (RespDeriveContext r) \<longleftrightarrow> handle_ok (dc_handle r) \<and> handle_ok (dc_parent_handle r)"
| "response_typed (RespUpdateContextMeasurement r) \<longleftrightarrow>
     handle_ok (uc_new_context_handle r) \<and> handle_ok (uc_new_parent_context_handle r)"
| "response_typed (RespGetCertificateChain r) \<longleftrightarrow> length (gc_certificate_chain r) = MAX_CHUNK_SIZE"
| "response_typed (RespSign (SgRespP256 r)) \<longleftrightarrow>
     handle_ok (s2_handle r) \<and> length (s2_sig_r r) = 32 \<and> length (s2_sig_s r) = 32"
| "response_typed (RespSign (SgRespP384 r)) \<longleftrightarrow>
     handle_ok (s3_handle r) \<and> length (s3_sig_r r) = 48 \<and> length (s3_sig_s r) = 48"
| "response_typed (RespSign (SgRespMldsa87 r)) \<longleftrightarrow>
     handle_ok (sm_handle r) \<and> length (sm_sig r) = 4627 \<and> length (sm_padding r) = 1"
| "response_typed (RespCertifyKey (CkRespP256 r)) \<longleftrightarrow> handle_ok (k2_handle (wc_header r)) \<and>
     length (k2_pubkey_x (wc_header r)) = 32 \<and> length (k2_pubkey_y (wc_header r)) = 32 \<and>
     length (wc_cert r) = MAX_CERT_SIZE \<and> unat (k2_cert_size (wc_header r)) \<le> MAX_CERT_SIZE"
| "response_typed (RespCertifyKey (CkRespP384 r)) \<longleftrightarrow> handle_ok (k3_handle (wc_header r)) \<and>
     length (k3_pubkey_x (wc_header r)) = 48 \<and> length (k3_pubkey_y (wc_header r)) = 48 \<and>
     length (wc_cert r) = MAX_CERT_SIZE \<and> unat (k3_cert_size (wc_header r)) \<le> MAX_CERT_SIZE"
| "response_typed (RespCertifyKey (CkRespMldsa87 r)) \<longleftrightarrow> handle_ok (km_handle (wc_header r)) \<and>
     length (km_pubkey (wc_header r)) = 2592 \<and>
     length (wc_cert r) = MAX_CERT_SIZE \<and> unat (km_cert_size (wc_header r)) \<le> MAX_CERT_SIZE"
| "response_typed (RespDeriveContextExportedCdi r) \<longleftrightarrow> handle_ok (ex_handle (wc_header r)) \<and>
     handle_ok (ex_parent_handle (wc_header r)) \<and> length (ex_exported_cdi (wc_header r)) = MAX_EXPORTED_CDI_SIZE \<and>
     length (wc_cert r) = MAX_CERT_SIZE \<and> unat (ex_certificate_size (wc_header r)) \<le> MAX_CERT_SIZE"
| "response_typed (RespGetProfile r) \<longleftrightarrow> True"
| "response_typed (RespDestroyCtx h) \<longleftrightarrow> True"
| "response_typed (RespError h) \<longleftrightarrow> True"

lemmas reading_typed = typed_hdr.reading_emit typed_profile.reading_emit typed_new_handle.reading_emit
  typed_derive.reading_emit typed_update.reading_emit typed_chain.reading_emit typed_sign_p256.reading_emit
  typed_sign_p384.reading_emit typed_sign_mldsa.reading_emit typed_certify_p256.reading_with_cert_emit
  typed_certify_p384.reading_with_cert_emit typed_certify_mldsa.reading_with_cert_emit
  typed_exported.reading_with_cert_emit

text \<open>The size field of a response with a certificate stands where \<open>size_place\<close> says.\<close>

lemma sized_emit:
  "length pre = k \<Longrightarrow> sized_at k (pre @ u32_to_le_bytes n @ x) \<longleftrightarrow> unat n \<le> MAX_CERT_SIZE"
  by (simp add: sized_at_def)

lemma sized_with_cert:
  "handle_ok (k2_handle h2) \<Longrightarrow> length (k2_pubkey_x h2) = 32 \<Longrightarrow> length (k2_pubkey_y h2) = 32 \<Longrightarrow>
     sized_at 92 (certify_p256_hdr_bytes h2 @ x) \<longleftrightarrow> unat (k2_cert_size h2) \<le> MAX_CERT_SIZE"
  "handle_ok (k3_handle h3) \<Longrightarrow> length (k3_pubkey_x h3) = 48 \<Longrightarrow> length (k3_pubkey_y h3) = 48 \<Longrightarrow>
     sized_at 124 (certify_p384_hdr_bytes h3 @ x) \<longleftrightarrow> unat (k3_cert_size h3) \<le> MAX_CERT_SIZE"
  "handle_ok (km_handle hm) \<Longrightarrow> length (km_pubkey hm) = 2592 \<Longrightarrow>
     sized_at 2620 (certify_mldsa_hdr_bytes hm @ x) \<longleftrightarrow> unat (km_cert_size hm) \<le> MAX_CERT_SIZE"
  "handle_ok (ex_handle he) \<Longrightarrow> handle_ok (ex_parent_handle he) \<Longrightarrow> length (ex_exported_cdi he) = MAX_EXPORTED_CDI_SIZE \<Longrightarrow>
     sized_at 76 (exported_hdr_bytes he @ x) \<longleftrightarrow> unat (ex_certificate_size he) \<le> MAX_CERT_SIZE"
  using sized_emit [of "hdr_bytes (k2_hdr h2) @ k2_handle h2 @ k2_pubkey_x h2 @ k2_pubkey_y h2" 92 "k2_cert_size h2" x]
    sized_emit [of "hdr_bytes (k3_hdr h3) @ k3_handle h3 @ k3_pubkey_x h3 @ k3_pubkey_y h3" 124 "k3_cert_size h3" x]
    sized_emit [of "hdr_bytes (km_hdr hm) @ km_handle hm @ km_pubkey hm" 2620 "km_cert_size hm" x]
    sized_emit [of "hdr_bytes (ex_hdr he) @ ex_handle he @ ex_parent_handle he @ ex_exported_cdi he" 76 "ex_certificate_size he" x]
  by (simp_all add: certify_p256_hdr_bytes_def certify_p384_hdr_bytes_def certify_mldsa_hdr_bytes_def
      exported_hdr_bytes_def handle_ok_def HANDLE_SIZE_def MAX_EXPORTED_CDI_SIZE_def)

lemma typed_of_read:
  assumes "response_layout c = (n, rd)" "read_exact rd b = Some resp" "\<And>k. size_place c = Some k \<Longrightarrow> sized_at k b"
  shows "response_typed resp \<and> response_bytes resp = b"
  using assms
  by (cases c rule: response_layout.cases)
    (auto dest!: reading_typed simp: sized_with_cert with_cert_bytes_def split: if_splits)

lemma partial_is_prefix: "response_partial r = Ok out \<Longrightarrow> \<exists>k. out = take k (response_bytes r)"
proof -
  have cert: "\<exists>k. out = take k (with_cert_bytes hb x)" if "with_cert_partial hb cs e x = Ok out"
    for hb :: "'h \<Rightarrow> bytes" and cs e x
    using that by (auto simp: with_cert_partial_def Let_def get_range_def ok_or_def split: option.splits if_splits)
  have whole: "\<exists>k. b = take k b" for b :: bytes by (metis order_refl take_all)
  assume p: "response_partial r = Ok out"
  show "\<exists>k. out = take k (response_bytes r)"
  proof (cases r)
    case (RespCertifyKey c)
    with p show ?thesis by (cases c) (auto dest: cert)
  qed (use p in \<open>auto intro: whole dest: cert\<close>)
qed

context answering
begin

text \<open>Every response that is read back has its type, and its bytes are those that its handler has written.\<close>

lemma execute_typed:
  assumes "calm_gen gen" "sized_gen gen" "of_instance p c" "length (contexts (dstate w)) = 64"
    and x: "execute gen d p c loc w = (Ok resp, w')"
  shows "response_typed resp" "length (response_bytes resp) = fst (response_layout c)"
    "read_exact (snd (response_layout c)) (response_bytes resp) = Some resp"
proof -
  obtain n rd where l: "response_layout c = (n, rd)" by fastforce
  let ?w = "w\<lparr>outbuf := replicate n 0\<rparr>"
  obtain h u where h: "execute_serialized gen d p c loc ?w = (h, u)" by fastforce
  with x l obtain m where m: "h = Ok m" and rd: "read_exact rd (outbuf u) = Some resp"
    by (cases h) (auto simp: execute_def with_buffer_def bind_def ok_or_def split: option.splits)
  have layout: "fst (response_layout c) = length (outbuf ?w)" using l by simp
  have "labelled p n (outbuf u)"
    using yieldsD [OF handler_answers [OF assms(1,3,4) layout], of ?w] h m by simp
  moreover have "sized_at k (outbuf u)" if "size_place c = Some k" for k
    using yieldsD [OF handler_sized [OF assms(1-4) layout that], of ?w] h m by simp
  ultimately show "response_typed resp" "length (response_bytes resp) = fst (response_layout c)"
    "read_exact (snd (response_layout c)) (response_bytes resp) = Some resp"
    using typed_of_read [OF l rd] rd l by (auto simp: labelled_def)
qed

theorem request_typed:
  assumes "calm_gen gen" "sized_gen gen" "length (contexts (dstate w)) = 64"
    and x: "execute_serialized_command gen d p al loc bs w = (Ok resp, w')"
  shows "response_typed resp \<and> (\<exists>k. response_partial resp = Ok (take k (response_bytes resp))) \<and>
    (\<exists>c. deserialize al p bs = Ok c \<and> ((\<exists>h. resp = RespError h) \<or>
       length (response_bytes resp) = fst (response_layout c) \<and>
       read_exact (snd (response_layout c)) (response_bytes resp) = Some resp))"
proof -
  obtain c where c: "deserialize al p bs = Ok c"
    using x by (cases "deserialize al p bs") (simp_all add: execute_serialized_command_def)
  obtain r v where e: "execute gen d p c loc w = (r, v)" by fastforce
  have prefix: "\<exists>k. response_partial resp = Ok (take k (response_bytes resp))"
    using request_partial [OF assms] partial_is_prefix by blast
  show ?thesis
  proof (cases r)
    case (Ok y)
    then have "resp = y" using x e by (simp add: execute_serialized_command_eq [OF c])
    with execute_typed [OF assms(1,2) deserialize_of_instance [OF c] assms(3) e [unfolded Ok]] c prefix
    show ?thesis by blast
  next
    case (Err er)
    then have "resp = RespError (response_hdr p er)" using x e
      by (simp add: execute_serialized_command_eq [OF c] response_hdr_def)
    with prefix c show ?thesis by auto
  qed (use x e in \<open>simp_all add: execute_serialized_command_eq [OF c]\<close>)
qed

end

end
