(* ===== verification/Cert_Size.thy ===== *)
theory Cert_Size
  imports Simulator Typed
begin

text \<open>
  The tool that measures certificates and CSRs (tools/src/cert_size): \<open>main.rs\<close> makes an instance with a chain of
  contexts and certifies the last one, \<open>benchmark.rs\<close> does it for several lengths of the chain and derives from
  them the constants that dpe/build.rs uses for the size of the response buffer. What is printed is left out.
\<close>

section \<open>main.rs\<close>

record tool_features =
  has_p256 :: bool
  has_p384 :: bool
  has_ml_dsa :: bool

datatype Algorithm = Ec | Mldsa

datatype tool_error =
    CountOutOfRange nat
  | InstanceFailed DpeErrorCode
  | ContextFailed nat DpeErrorCode
  | CertifyFailed DpeErrorCode
  | UnexpectedResponse
  | NoCertificate
  | UnsupportedAlgorithm
  | TooFewHandles

text \<open>The module \<open>ec\<close>: P-384 where the build has it.\<close>

definition ec_crypto :: "tool_features \<Rightarrow> rc_config" where
  "ec_crypto f = (if has_p384 f then new_ecc384 else new_ecc256)"

definition ec_command :: "tool_features \<Rightarrow> u32 \<Rightarrow> CertifyKeyCommand" where
  "ec_command f fmt =
     (if has_p384 f
      then CkP384 \<lparr>ck_handle = handle_default, ck_flags = 0, ck_format = fmt, ck_label = replicate 48 0\<rparr>
      else CkP256 \<lparr>ck_handle = handle_default, ck_flags = 0, ck_format = fmt, ck_label = replicate 32 0\<rparr>)"

text \<open>The two conversions of an algorithm, whose first arm is P-256; an algorithm without an arm panics.\<close>

definition tool_platform_profile :: "tool_features \<Rightarrow> Algorithm \<Rightarrow> ('e, DefaultPlatformProfile) outcome" where
  "tool_platform_profile f alg = (case alg of
     Ec \<Rightarrow> if has_p256 f then Ok P256 else if has_p384 f then Ok P384 else Panic
   | Mldsa \<Rightarrow> if has_ml_dsa f then Ok PlatMldsa87 else Panic)"

definition tool_dpe_profile :: "tool_features \<Rightarrow> Algorithm \<Rightarrow> ('e, DpeProfile) outcome" where
  "tool_dpe_profile f alg = (case alg of
     Ec \<Rightarrow> if has_p256 f then Ok P256Sha256 else if has_p384 f then Ok P384Sha384 else Panic
   | Mldsa \<Rightarrow> if has_ml_dsa f then Ok Mldsa87 else Panic)"

definition default_algorithm :: "tool_features \<Rightarrow> Algorithm" where
  "default_algorithm f = (if has_p256 f \<or> has_p384 f then Ec else Mldsa)"

datatype CertOrCsrSize = CertSize nat | CsrSize nat

primrec measured_size :: "CertOrCsrSize \<Rightarrow> nat" where
  "measured_size (CertSize s) = s"
| "measured_size (CsrSize s) = s"

text \<open>\<open>map_err\<close> on the outcome of an action.\<close>

definition trying :: "('s, 'e, 'a) act \<Rightarrow> ('e \<Rightarrow> 'f) \<Rightarrow> ('s, 'f, 'a) act" where
  "trying m f s = (case m s of (r, s') \<Rightarrow> (map_err f r, s'))"

type_synonym ('c, 'p, 'a) tool = "(('c, 'p) world, tool_error, 'a) act"

definition send_certify_key ::
  "'c cert_gen \<Rightarrow> ('c, 'p) deps \<Rightarrow> tool_features \<Rightarrow> DpeProfile \<Rightarrow> Algorithm \<Rightarrow> bool \<Rightarrow> ('c, 'p, Response) tool" where
  "send_certify_key gen d f p alg cert =
     (let fmt = if cert then FORMAT_X509 else FORMAT_CSR
      in case alg of
        Ec \<Rightarrow>
          if has_p256 f \<or> has_p384 f
          then trying (execute gen d p (CertifyKey (ec_command f fmt)) 0) CertifyFailed
          else throw UnsupportedAlgorithm
      | Mldsa \<Rightarrow>
          if has_ml_dsa f
          then trying (execute gen d p (CertifyKey (CkMldsa87
                 \<lparr>ck_handle = handle_default, ck_flags = 0, ck_format = fmt, ck_label = replicate 48 0\<rparr>)) 0) CertifyFailed
          else throw UnsupportedAlgorithm)"

definition tool_derive_flags :: "bool \<Rightarrow> DeriveContextFlags" where
  "tool_derive_flags cert =
     push_bit 28 1 OR push_bit 31 1 OR push_bit 30 1 OR (if cert then push_bit 25 1 else 0)"

text \<open>The loop that makes the chain: context \<open>i\<close> gets the TCI type \<open>i + 1\<close>.\<close>

fun tool_derive ::
  "'c cert_gen \<Rightarrow> ('c, 'p) deps \<Rightarrow> DpeProfile \<Rightarrow> DeriveContextFlags \<Rightarrow> nat list \<Rightarrow> ('c, 'p, unit) tool" where
  "tool_derive gen d p flags [] = ret ()"
| "tool_derive gen d p flags (i # is) =
     bind (trying (execute gen d p (DeriveContext
         (DeriveContextCmd_default\<lparr>d_flags := flags, d_tci_type := of_nat i + 1\<rparr>)) 0) (ContextFailed i)) (\<lambda>_.
     tool_derive gen d p flags is)"

definition execute_and_measure ::
  "'c cert_gen \<Rightarrow> ('c, 'p) deps \<Rightarrow> tool_features \<Rightarrow> Algorithm \<Rightarrow> nat \<Rightarrow> bool \<Rightarrow> ('c, 'p, CertOrCsrSize) tool" where
  "execute_and_measure gen d f alg num_contexts cert =
     bind (lift (tool_dpe_profile f alg)) (\<lambda>p.
     bind (trying (DpeInstance_new d p) InstanceFailed) (\<lambda>_.
     bind (tool_derive gen d p (tool_derive_flags cert) [0..<num_contexts - 1]) (\<lambda>_.
     bind (send_certify_key gen d f p alg cert) (\<lambda>certify_resp.
       case certify_resp of
         RespCertifyKey r \<Rightarrow>
           bind (lift (map_err (\<lambda>_. NoCertificate) (certify_resp_cert r))) (\<lambda>bs.
             ret (if cert then CertSize (length bs) else CsrSize (length bs)))
       | _ \<Rightarrow> throw UnexpectedResponse))))"

definition tool_support :: "bool \<Rightarrow> Support" where
  "tool_support cert = fold (\<lambda>(flag, v). flags_set flag v)
     [(SUPPORT_SIMULATION, True), (SUPPORT_AUTO_INIT, True), (SUPPORT_X509, cert), (SUPPORT_CSR, \<not> cert),
      (SUPPORT_RECURSIVE, True), (SUPPORT_ROTATE_CONTEXT, True), (SUPPORT_INTERNAL_DICE, True),
      (SUPPORT_INTERNAL_INFO, True), (SUPPORT_RETAIN_PARENT_CONTEXT, True), (SUPPORT_CDI_EXPORT, True)] 0"

definition measure_cert_csr ::
  "'r rust_crypto cert_gen \<Rightarrow> 'r algs \<Rightarrow> artifacts \<Rightarrow> build_features \<Rightarrow> 'r \<Rightarrow> tool_features \<Rightarrow> Algorithm \<Rightarrow> nat \<Rightarrow>
     bool \<Rightarrow> (tool_error, CertOrCsrSize) outcome" where
  "measure_cert_csr gen x art b rng f alg num_contexts cert =
     (if num_contexts = 0 \<or> MAX_HANDLES < num_contexts then Err (CountOutOfRange num_contexts)
      else
        let env = \<lparr>crypto = rust_crypto_new rng, platform = (), dstate = State_new b (tool_support cert) 0, outbuf = []\<rparr>
        in case alg of
          Ec \<Rightarrow>
            if has_p256 f \<or> has_p384 f
            then bindO (tool_platform_profile f alg) (\<lambda>pf.
              fst (execute_and_measure gen (rust_default x (ec_crypto f) art pf) f alg num_contexts cert env))
            else Err UnsupportedAlgorithm
        | Mldsa \<Rightarrow>
            if has_ml_dsa f
            then fst (execute_and_measure gen (rust_default x new_mldsa87 art PlatMldsa87) f alg num_contexts cert env)
            else Err UnsupportedAlgorithm)"

section \<open>benchmark.rs\<close>

type_synonym samples = "(nat \<times> nat) list"

record LinearApprox =
  per_handle :: nat
  base_size :: nat
  covers_all :: bool
  worst_deficit :: nat
  last_check :: "nat \<times> nat \<times> nat"

text \<open>Truncating subtraction is \<open>saturating_sub\<close>, and the plain one where its operands are compared before.\<close>

definition LinearApprox_from_sizes :: "samples \<Rightarrow> LinearApprox option" where
  "LinearApprox_from_sizes sizes = (case sizes of
     (x1, y1) # (x2, y2) # _ \<Rightarrow>
       if x2 \<le> x1 \<or> y2 \<le> y1 then None
       else
         let per = (y2 - y1) div (x2 - x1);
             base = y1 - per * x1;
             deficits = map (\<lambda>(n, s). s - (base + per * n)) (filter (\<lambda>(n, s). base + per * n < s) sizes);
             worst = foldr max deficits 0;
             (xn, yn) = last sizes
         in Some \<lparr>per_handle = per, base_size = base, covers_all = (worst = 0), worst_deficit = worst,
              last_check = (xn, base + per * xn, yn)\<rparr>
   | _ \<Rightarrow> None)"

record BenchmarkResults =
  handle_counts :: "nat list"
  cert_sizes :: samples
  csr_sizes :: samples

definition results_approx :: "BenchmarkResults \<Rightarrow> (nat \<times> nat) option" where
  "results_approx r =
     Option.bind (LinearApprox_from_sizes (cert_sizes r)) (\<lambda>cert_approx.
     Option.bind (LinearApprox_from_sizes (csr_sizes r)) (\<lambda>csr_approx.
       let per = max (per_handle cert_approx) (per_handle csr_approx);
           (x1, y1) = hd (csr_sizes r)
       in Some (y1 - per * x1, per)))"

definition results_verify :: "BenchmarkResults \<Rightarrow> nat \<Rightarrow> nat \<Rightarrow> bool" where
  "results_verify r base per = list_all (\<lambda>(n, s). s \<le> base + per * n) (cert_sizes r @ csr_sizes r)"

definition benchmark_counts :: "nat list" where
  "benchmark_counts = filter (\<lambda>n. n \<le> MAX_HANDLES) [1, 2, 4, 8, 16, 24, 32, 48, 64]"

text \<open>The loop over the counts; \<open>meas\<close> takes the count and whether a certificate is measured.\<close>

fun benchmark_sizes ::
  "(nat \<Rightarrow> bool \<Rightarrow> (tool_error, CertOrCsrSize) outcome) \<Rightarrow> nat list \<Rightarrow> (tool_error, samples \<times> samples) outcome" where
  "benchmark_sizes meas [] = Ok ([], [])"
| "benchmark_sizes meas (n # ns) =
     bindO (meas n True) (\<lambda>cert.
     bindO (meas n False) (\<lambda>csr.
     bindO (benchmark_sizes meas ns) (\<lambda>(certs, csrs).
       Ok ((n, measured_size cert) # certs, (n, measured_size csr) # csrs))))"

definition benchmark_run ::
  "'r rust_crypto cert_gen \<Rightarrow> 'r algs \<Rightarrow> artifacts \<Rightarrow> build_features \<Rightarrow> 'r \<Rightarrow> tool_features \<Rightarrow> Algorithm \<Rightarrow>
     (tool_error, BenchmarkResults) outcome" where
  "benchmark_run gen x art b rng f alg =
     (if length benchmark_counts < 2 then Err TooFewHandles
      else bindO (benchmark_sizes (measure_cert_csr gen x art b rng f alg) benchmark_counts) (\<lambda>(certs, csrs).
        Ok \<lparr>handle_counts = benchmark_counts, cert_sizes = certs, csr_sizes = csrs\<rparr>))"

section \<open>What is measured\<close>

lemma trying_step [simp]: "trying m f w = (map_err f (fst (m w)), snd (m w))"
  by (simp add: trying_def split: prod.split)

lemma default_measured: "measured (DeriveContext (DeriveContextCmd_default\<lparr>d_flags := fl, d_tci_type := t\<rparr>))"
  by (simp add: DeriveContextCmd_default_def TciMeasurement_default_def)

context answering
begin

text \<open>CertifyKey succeeds only for the command of the profile.\<close>

lemma certify_key_profile:
  assumes "certify_key gen d p cmd loc w = (Ok n, w')"
  shows "of_profile p cmd"
proof -
  from assms obtain fmt args res v v' h u u' where
    r: "run_cert_format gen fmt d p args (certify_hdr_size cmd) (cert_result_zeroed p) v = (Ok res, v')"
    and h: "write_header p cmd res h (u :: ('c, 'p) world) = (Ok (), u')"
    by (auto simp: certify_key_def Let_def bind_Ok_iff)
  from r have "key_fits p (cr_pub_key res)"
    by (auto simp: run_cert_format_def create_dpe_cert_def create_dpe_csr_def cert_fits_def
        dest: cert_result_fits split: if_splits)
  with h show ?thesis
    by (cases cmd; cases p; cases "cr_pub_key res") (auto split: EcdsaPubKey.splits)
qed

lemma execute_profile: "execute gen d p c loc w = (Ok resp, w') \<Longrightarrow> of_instance p c"
proof -
  assume x: "execute gen d p c loc w = (Ok resp, w')"
  have "of_profile p cmd" if c: "c = CertifyKey cmd" for cmd
  proof -
    obtain k rd where l: "response_layout c = (k, rd)" by fastforce
    obtain h u where h: "execute_serialized gen d p c loc (w\<lparr>outbuf := replicate k 0\<rparr>) = (h, u)" by fastforce
    with x l have "\<exists>m. h = Ok m" by (cases h) (auto simp: execute_def with_buffer_def bind_def)
    with h show ?thesis by (auto simp: c dest: certify_key_profile)
  qed
  then show ?thesis by (simp add: of_instance_def)
qed

lemma execute_settled:
  assumes "addressable chain" "calm_gen gen" "state_inv (dstate w)"
  shows "settled (fst (execute gen d p c loc w))"
proof -
  obtain n rd where l: "response_layout c = (n, rd)" by fastforce
  let ?w = "w\<lparr>outbuf := replicate n 0\<rparr>"
  obtain x v where x: "execute_serialized gen d p c loc ?w = (x, v)" by fastforce
  have "answers (execute_serialized gen d p c loc) (\<lambda>_ _. True) (dstate ?w)"
    using command_answers [OF assms(1,2), of "dstate ?w"] assms(3) by simp
  from answersD [OF this x] have "settled x" .
  then show ?thesis using l x by (cases x) (auto simp: execute_def with_buffer_def bind_def)
qed

lemma execute_inv:
  assumes "measured c" "state_inv (dstate w)" "execute gen d p c loc w = (r, w')"
  shows "state_inv (dstate w')"
  by (rule transitions_preserve_inv [OF sp_any [OF execute_transitions [OF assms(1)] assms(3)] assms(2)])

lemma tool_derive_result:
  assumes "addressable chain" "calm_gen gen"
  shows "state_inv (dstate w) \<Longrightarrow> tool_derive gen d p fl is w = (r, w') \<Longrightarrow>
    r = Ok () \<and> state_inv (dstate w') \<or> (\<exists>i\<in>set is. \<exists>e. r = Err (ContextFailed i e))"
proof (induction "is" arbitrary: w)
  case (Cons i "is")
  let ?c = "DeriveContext (DeriveContextCmd_default\<lparr>d_flags := fl, d_tci_type := of_nat i + 1\<rparr>)"
  obtain x v where x: "execute gen d p ?c 0 w = (x, v)" by fastforce
  have "settled x" using execute_settled [OF assms Cons.prems(1), of p ?c 0] x by simp
  moreover have "state_inv (dstate v)" by (rule execute_inv [OF default_measured Cons.prems(1) x])
  ultimately show ?case using Cons.IH [of v] Cons.prems(2) x by (cases x) (auto simp: bind_def)
qed simp


lemma certify_measures:
  assumes a: "addressable chain" "calm_gen gen" "sized_gen gen" and inv: "state_inv (dstate w)"
    and x: "execute gen d p (CertifyKey cmd) loc w = (r, w')"
  shows "(\<exists>ck s. r = Ok (RespCertifyKey ck) \<and> of_profile p cmd \<and> s \<le> MAX_CERT_SIZE \<and>
      (\<exists>bs. certify_resp_cert ck = Ok bs \<and> length bs = s)) \<or> (\<exists>e. r = Err e)"
proof (cases r)
  case (Ok resp)
  have inst: "of_instance p (CertifyKey cmd)" by (rule execute_profile [OF x [unfolded Ok]])
  have len: "length (contexts (dstate w)) = 64" by (rule forest_length [OF state_inv_forest [OF inv]])
  have "answers_to (CertifyKey cmd) resp" using execute_answers [OF a(2) inst len x] Ok by auto
  then obtain ck where ck: "resp = RespCertifyKey ck" by (cases resp) (auto simp: answers_to_def)
  moreover have "response_typed resp" by (rule execute_typed(1) [OF a(2,3) inst len x [unfolded Ok]])
  ultimately have "\<exists>bs. certify_resp_cert ck = Ok bs \<and> length bs \<le> MAX_CERT_SIZE"
    by (cases ck) (auto simp: certify_resp_cert_def get_range_def ok_or_def)
  with Ok ck inst show ?thesis by (auto simp: of_instance_def)
qed (use execute_settled [OF a(1,2) inv, of p "CertifyKey cmd" loc] x in auto)

end

text \<open>What \<open>execute_and_measure\<close> can give, for the command that it certifies with.\<close>

definition measurement_of :: "nat \<Rightarrow> bool \<Rightarrow> (tool_error, CertOrCsrSize) outcome \<Rightarrow> bool" where
  "measurement_of n cert r \<longleftrightarrow>
     (\<exists>s \<le> MAX_CERT_SIZE. r = Ok (if cert then CertSize s else CsrSize s)) \<or>
     (\<exists>i e. r = Err (ContextFailed i e) \<and> Suc i < n) \<or> (\<exists>e. r = Err (CertifyFailed e))"

lemma execute_and_measure_result:
  fixes x :: "'r algs"
  assumes a: "addressable (art_cert_chain art pf)" "calm_gen gen" "sized_gen gen"
    and p: "tool_dpe_profile f alg = (Ok p :: (tool_error, DpeProfile) outcome)"
    and w: "dstate w = State_new b supp fl"
    and cmd: "\<And>cert. send_certify_key gen (rust_default x cfg art pf) f p alg cert =
      trying (execute gen (rust_default x cfg art pf) p (CertifyKey (cmd cert)) 0) CertifyFailed"
    and m: "r = fst (execute_and_measure gen (rust_default x cfg art pf) f alg n cert w)"
  shows "measurement_of n cert r \<and> (is_ok r \<longrightarrow> of_profile p (cmd cert))"
proof -
  let ?d = "rust_default x cfg art pf"
  obtain v where v: "DpeInstance_new ?d p w = (Ok (), v)"
    by (rule start_new [OF w, of ?d p]) (auto simp: rust_default_def default_platform_def)
  have inv: "state_inv (dstate v)"
    using sp_any [OF DpeInstance_new_transitions v] transitions_preserve_inv [OF _ state_inv_new] w by metis
  obtain y u where y: "tool_derive gen ?d p (tool_derive_flags cert) [0..<n - 1] v = (y, u)" by fastforce
  from rust_answering.tool_derive_result [OF a(1,2) inv y] show ?thesis
  proof
    assume "y = Ok () \<and> state_inv (dstate u)"
    moreover obtain z u' where z: "execute gen ?d p (CertifyKey (cmd cert)) 0 u = (z, u')" by fastforce
    ultimately show ?thesis
      using rust_answering.certify_measures [OF a _ z] m v y p cmd
      by (fastforce simp: execute_and_measure_def bind_def measurement_of_def)
  next
    assume "\<exists>i\<in>set [0..<n - 1]. \<exists>e. y = Err (ContextFailed i e)"
    then show ?thesis using m v y p
      by (auto simp: execute_and_measure_def bind_def measurement_of_def)
  qed
qed

definition algorithm_built :: "tool_features \<Rightarrow> Algorithm \<Rightarrow> bool" where
  "algorithm_built f alg = (case alg of Ec \<Rightarrow> has_p256 f \<or> has_p384 f | Mldsa \<Rightarrow> has_ml_dsa f)"

text \<open>With both curves the profile is P-256 and the key and the command are P-384: nothing can be measured.\<close>

lemma measure_cert_csr_result:
  assumes "\<And>pf. addressable (art_cert_chain art pf)" and gen: "calm_gen gen" "sized_gen gen"
    and r: "r = measure_cert_csr gen x art b rng f alg n cert"
  shows "if n = 0 \<or> 64 < n then r = Err (CountOutOfRange n)
    else if \<not> algorithm_built f alg then r = Err UnsupportedAlgorithm
    else measurement_of n cert r \<and> (is_ok r \<longrightarrow> alg = Ec \<longrightarrow> \<not> (has_p256 f \<and> has_p384 f))"
proof -
  let ?w = "\<lparr>crypto = rust_crypto_new rng, platform = (), dstate = State_new b (tool_support cert) 0, outbuf = []\<rparr>"
  let ?run = "\<lambda>cfg pf. fst (execute_and_measure gen (rust_default x cfg art pf) f alg n cert ?w)"
  note run = execute_and_measure_result [OF assms(1) gen, of f alg _ ?w b "tool_support cert" 0 x, OF _ _ _ refl]
  show ?thesis
  proof (cases "(n = 0 \<or> 64 < n) \<or> \<not> algorithm_built f alg")
    case True
    then show ?thesis by (auto simp: r measure_cert_csr_def algorithm_built_def split: Algorithm.splits)
  next
    case False
    show ?thesis
    proof (cases alg)
      case Ec
      define p where "p = (if has_p256 f then P256Sha256 else P384Sha384)"
      have "measurement_of n cert (?run (ec_crypto f) pf) \<and>
          (is_ok (?run (ec_crypto f) pf) \<longrightarrow> of_profile p (ec_command f (if cert then FORMAT_X509 else FORMAT_CSR)))" for pf
        using False Ec
        by (intro run [where cmd = "\<lambda>cert. ec_command f (if cert then FORMAT_X509 else FORMAT_CSR)"])
          (auto simp: tool_dpe_profile_def algorithm_built_def send_certify_key_def p_def Let_def)
      with False Ec show ?thesis
        by (auto simp: r measure_cert_csr_def algorithm_built_def tool_platform_profile_def Let_def ec_command_def p_def)
    next
      case Mldsa
      have "measurement_of n cert (?run new_mldsa87 PlatMldsa87)"
        using False Mldsa
        by (intro conjunct1 [OF run [where p = Mldsa87 and cmd = "\<lambda>cert. CkMldsa87 \<lparr>ck_handle = handle_default,
            ck_flags = 0, ck_format = if cert then FORMAT_X509 else FORMAT_CSR, ck_label = replicate 48 0\<rparr>"]])
          (auto simp: tool_dpe_profile_def algorithm_built_def send_certify_key_def Let_def)
      with False Mldsa show ?thesis
        by (auto simp: r measure_cert_csr_def algorithm_built_def Let_def)
    qed
  qed
qed

section \<open>What the constants cover\<close>

lemma benchmark_counts_eq: "benchmark_counts = [1, 2, 4, 8, 16, 24, 32, 48, 64]"
  by (simp add: benchmark_counts_def)

lemma benchmark_sizes_result:
  assumes "\<And>n c. n \<in> set ns \<Longrightarrow> settled (m n c) \<and> (\<forall>z. m n c = Ok z \<longrightarrow> ok z)"
  shows "settled (benchmark_sizes m ns) \<and> (\<forall>certs csrs. benchmark_sizes m ns = Ok (certs, csrs) \<longrightarrow>
    map fst certs = ns \<and> map fst csrs = ns \<and> (\<forall>(n, s) \<in> set (certs @ csrs). \<exists>z. s = measured_size z \<and> ok z))"
  using assms
proof (induction ns)
  case (Cons n ns)
  have here: "settled (m n c)" "m n c = Ok z \<Longrightarrow> ok z" for c z using Cons.prems [of n c] by simp_all
  have "settled (benchmark_sizes m ns) \<and> (\<forall>certs csrs. benchmark_sizes m ns = Ok (certs, csrs) \<longrightarrow>
    map fst certs = ns \<and> map fst csrs = ns \<and> (\<forall>(n, s) \<in> set (certs @ csrs). \<exists>z. s = measured_size z \<and> ok z))"
    by (rule Cons.IH) (use Cons.prems in auto)
  then have rest: "settled (benchmark_sizes m ns)" and IH: "\<And>certs csrs. benchmark_sizes m ns = Ok (certs, csrs) \<Longrightarrow>
    map fst certs = ns \<and> map fst csrs = ns \<and> (\<forall>(n, s) \<in> set (certs @ csrs). \<exists>z. s = measured_size z \<and> ok z)"
    by blast+
  have "settled (benchmark_sizes m (n # ns))"
    using here(1) rest by (auto intro!: settled_bindO split: prod.split)
  moreover have "map fst certs = n # ns \<and> map fst csrs = n # ns \<and>
      (\<forall>(k, s) \<in> set (certs @ csrs). \<exists>z. s = measured_size z \<and> ok z)"
    if "benchmark_sizes m (n # ns) = Ok (certs, csrs)" for certs csrs
    using that here(2) IH by (fastforce simp: bindO_Ok_iff)
  ultimately show ?case by blast
qed simp


text \<open>
  A series whose first two counts are 1 and 2 and that grows no faster afterwards than between these: the
  constants cover it if they cover its first size.
\<close>

definition slowing :: "samples \<Rightarrow> bool" where
  "slowing sizes \<longleftrightarrow> (\<forall>(n, s) \<in> set sizes. 1 \<le> n \<and> s \<le> snd (hd sizes) + (snd (sizes ! 1) - snd (hd sizes)) * (n - 1))"

lemma slowing_covered:
  assumes "slowing sizes" "snd (sizes ! 1) - snd (hd sizes) \<le> per" "snd (hd sizes) \<le> base + per" "(n, s) \<in> set sizes"
  shows "s \<le> base + per * n"
proof -
  have "1 \<le> n" "s \<le> snd (hd sizes) + (snd (sizes ! 1) - snd (hd sizes)) * (n - 1)"
    using assms(1,4) by (auto simp: slowing_def)
  moreover have "(snd (sizes ! 1) - snd (hd sizes)) * (n - 1) \<le> per * (n - 1)" using assms(2) by simp
  moreover have "per * n = per + per * (n - 1)" using \<open>1 \<le> n\<close> by (cases n) simp_all
  ultimately show ?thesis using assms(3) by linarith
qed

lemma approx_verified:
  assumes a: "results_approx r = Some (base, per)"
    and counts: "map fst (cert_sizes r) = 1 # 2 # ns" "map fst (csr_sizes r) = 1 # 2 # ns"
    and slow: "slowing (cert_sizes r)" "slowing (csr_sizes r)"
  shows "results_verify r base per \<longleftrightarrow> snd (hd (cert_sizes r)) \<le> max (snd (hd (csr_sizes r))) per"
proof -
  obtain c1 c2 cs where c: "cert_sizes r = (1, c1) # (2, c2) # cs" using counts(1) by (auto simp: map_eq_Cons_conv)
  obtain y1 y2 ys where y: "csr_sizes r = (1, y1) # (2, y2) # ys" using counts(2) by (auto simp: map_eq_Cons_conv)
  have per: "c2 - c1 \<le> per" "y2 - y1 \<le> per" and base: "base = y1 - per"
    using a by (auto simp: results_approx_def LinearApprox_from_sizes_def c y Let_def Option.bind_eq_Some_conv split: if_splits prod.splits)
  have first: "base + per = max y1 per" using base by simp
  show ?thesis
  proof
    assume "results_verify r base per"
    then show "snd (hd (cert_sizes r)) \<le> max (snd (hd (csr_sizes r))) per" using first by (simp add: results_verify_def c y)
  next
    assume "snd (hd (cert_sizes r)) \<le> max (snd (hd (csr_sizes r))) per"
    then have "s \<le> base + per * n" if "(n, s) \<in> set (cert_sizes r @ csr_sizes r)" for n s
      using that slowing_covered [OF slow(1), of per base n s] slowing_covered [OF slow(2), of per base n s] per first
      by (auto simp: c y)
    then show "results_verify r base per" by (auto simp: results_verify_def list_all_iff)
  qed
qed

lemma benchmark_run_result:
  assumes a: "\<And>pf. addressable (art_cert_chain art pf)" and gen: "calm_gen gen" "sized_gen gen"
  shows "case benchmark_run gen x art b rng f alg of
      Ok res \<Rightarrow> algorithm_built f alg \<and> \<not> (alg = Ec \<and> has_p256 f \<and> has_p384 f) \<and>
        map fst (cert_sizes res) = handle_counts res \<and> map fst (csr_sizes res) = handle_counts res \<and>
        handle_counts res = [1, 2, 4, 8, 16, 24, 32, 48, 64] \<and>
        (\<forall>(n, s) \<in> set (cert_sizes res @ csr_sizes res). s \<le> MAX_CERT_SIZE) \<and>
        (\<forall>base per. results_approx res = Some (base, per) \<and> slowing (cert_sizes res) \<and> slowing (csr_sizes res) \<longrightarrow>
           results_verify res base per = (snd (hd (cert_sizes res)) \<le> max (snd (hd (csr_sizes res))) per))
    | Err e \<Rightarrow> True | Panic \<Rightarrow> False | Diverge \<Rightarrow> False"
proof -
  let ?m = "measure_cert_csr gen x art b rng f alg"
  let ?ok = "\<lambda>z. measured_size z \<le> MAX_CERT_SIZE \<and> algorithm_built f alg \<and> \<not> (alg = Ec \<and> has_p256 f \<and> has_p384 f)"
  have one: "settled (?m n cert) \<and> (\<forall>z. ?m n cert = Ok z \<longrightarrow> ?ok z)" for n cert
    using measure_cert_csr_result [OF a gen refl, where x = x and b = b and rng = rng and f = f and alg = alg and n = n and cert = cert]
    by (auto simp: measurement_of_def split: if_splits)
  note sizes = benchmark_sizes_result [of benchmark_counts ?m ?ok, OF one]
  have settled: "settled (benchmark_run gen x art b rng f alg)"
    using sizes by (auto simp: benchmark_run_def intro!: settled_bindO split: prod.split)
  show ?thesis
  proof (cases "benchmark_run gen x art b rng f alg")
    case (Ok res)
    then obtain certs csrs where run: "benchmark_sizes ?m benchmark_counts = Ok (certs, csrs)"
      and res: "res = \<lparr>handle_counts = benchmark_counts, cert_sizes = certs, csr_sizes = csrs\<rparr>"
      by (auto simp: benchmark_run_def bindO_Ok_iff split: if_splits)
    have counts: "map fst certs = 1 # 2 # [4, 8, 16, 24, 32, 48, 64]" "map fst csrs = 1 # 2 # [4, 8, 16, 24, 32, 48, 64]"
      and each: "\<forall>(n, s) \<in> set (certs @ csrs). \<exists>z. s = measured_size z \<and> ?ok z"
      using sizes run by (simp_all add: benchmark_counts_eq)
    have "(1, snd (hd certs)) \<in> set (certs @ csrs)" using counts(1) by (cases certs) auto
    with each have built: "algorithm_built f alg \<and> \<not> (alg = Ec \<and> has_p256 f \<and> has_p384 f)" by fast
    have "s \<le> MAX_CERT_SIZE" if "(n, s) \<in> set (certs @ csrs)" for n s using bspec [OF each that] by auto
    then have small: "\<forall>(n, s) \<in> set (cert_sizes res @ csr_sizes res). s \<le> MAX_CERT_SIZE" by (auto simp: res)
    have c: "map fst (cert_sizes res) = 1 # 2 # [4, 8, 16, 24, 32, 48, 64]"
      "map fst (csr_sizes res) = 1 # 2 # [4, 8, 16, 24, 32, 48, 64]" using counts by (simp_all add: res)
    have "\<forall>base per. results_approx res = Some (base, per) \<and> slowing (cert_sizes res) \<and> slowing (csr_sizes res) \<longrightarrow>
        results_verify res base per = (snd (hd (cert_sizes res)) \<le> max (snd (hd (csr_sizes res))) per)"
      by (intro allI impI, elim conjE) (rule approx_verified [OF _ c])
    with built small c show ?thesis by (simp add: Ok) (simp add: res benchmark_counts_eq)
  qed (use settled in simp_all)
qed

end
