(* ===== verification/Sample_Cert.thy ===== *)
theory Sample_Cert
  imports Cert_Size
begin

text \<open>
  The tool that prints a sample certificate (tools/src/sample_dpe_cert.rs). A panic is a value, \<open>sample_stop\<close>, so
  that its causes can be told apart; writing PEM is the argument \<open>pem_text\<close>. \<open>al\<close> tells whether the vectors that hold
  the commands are aligned.
\<close>

datatype sample_stop = StopErrorResponse u32 | StopUnexpectedResponse | StopUnwrap

type_synonym ('c, 'p, 'a) sample = "(('c, 'p) world, sample_stop, 'a) act"

text \<open>The module \<open>profile\<close>, by the features of the build.\<close>

definition sample_profile ::
  "bool \<Rightarrow> bool \<Rightarrow> bool \<Rightarrow>
     (DpeProfile \<times> DefaultPlatformProfile \<times> rc_config \<times> (CertifyKeyCmd \<Rightarrow> CertifyKeyCommand)) option" where
  "sample_profile p256 p384 ml_dsa =
     (if p256 \<and> \<not> p384 \<and> \<not> ml_dsa then Some (P256Sha256, P256, new_ecc256, CkP256)
      else if p384 then Some (P384Sha384, P384, new_ecc384, CkP384)
      else if ml_dsa \<and> \<not> p384 then Some (Mldsa87, PlatMldsa87, new_mldsa87, CkMldsa87)
      else None)"

text \<open>A request, header and body, with the \<open>unwrap\<close> of the answer.\<close>

definition sample_request ::
  "'c cert_gen \<Rightarrow> ('c, 'p) deps \<Rightarrow> DpeProfile \<Rightarrow> bool \<Rightarrow> Command \<Rightarrow> ('c, 'p, Response) sample" where
  "sample_request gen d p al c =
     trying (execute_serialized_command gen d p al 0
       (command_hdr_bytes (CommandHdr_new p (command_id c)) @ command_bytes c)) (\<lambda>_. StopUnwrap)"

definition add_tcb_info ::
  "'c cert_gen \<Rightarrow> ('c, 'p) deps \<Rightarrow> DpeProfile \<Rightarrow> bool \<Rightarrow> TciMeasurement \<Rightarrow> u32 \<Rightarrow> u32 \<Rightarrow> ('c, 'p, unit) sample" where
  "add_tcb_info gen d p al data ty svn =
     bind (sample_request gen d p al (DeriveContext \<lparr>d_handle = handle_default, d_data = data,
         d_flags = push_bit 25 1 OR push_bit 28 1, d_tci_type = ty, d_target_locality = 0, d_svn = svn\<rparr>)) (\<lambda>resp.
       case resp of
         RespDeriveContext _ \<Rightarrow> ret ()
       | RespError h \<Rightarrow> throw (StopErrorResponse (rh_status h))
       | _ \<Rightarrow> throw StopUnexpectedResponse)"

definition sample_certify_key ::
  "'c cert_gen \<Rightarrow> ('c, 'p) deps \<Rightarrow> DpeProfile \<Rightarrow> bool \<Rightarrow> (CertifyKeyCmd \<Rightarrow> CertifyKeyCommand) \<Rightarrow> u32 \<Rightarrow>
     ('c, 'p, bytes) sample" where
  "sample_certify_key gen d p al mk fmt =
     bind (sample_request gen d p al (CertifyKey (mk \<lparr>ck_handle = handle_default, ck_flags = 0, ck_format = fmt,
         ck_label = replicate (hash_size p) 0\<rparr>))) (\<lambda>resp.
       case resp of
         RespCertifyKey r \<Rightarrow> lift (map_err (\<lambda>_. StopUnwrap) (certify_resp_cert r))
       | RespError h \<Rightarrow> throw (StopErrorResponse (rh_status h))
       | _ \<Rightarrow> throw StopUnexpectedResponse)"

text \<open>\<open>main\<close>; the TCI type is a number written in big-endian order.\<close>

datatype sample_format = SampleX509 | SampleCsr

definition sample_main ::
  "'r rust_crypto cert_gen \<Rightarrow> 'r algs \<Rightarrow> artifacts \<Rightarrow> build_features \<Rightarrow> 'r \<Rightarrow> bool \<Rightarrow> (string \<Rightarrow> bytes \<Rightarrow> string) \<Rightarrow>
     DpeProfile \<times> DefaultPlatformProfile \<times> rc_config \<times> (CertifyKeyCmd \<Rightarrow> CertifyKeyCommand) \<Rightarrow> sample_format \<Rightarrow> bool \<Rightarrow>
     (sample_stop, string) outcome" where
  "sample_main gen x art b rng al pem_text prof fmt critical =
     (let (p, pf, cfg, mk) = prof; d = rust_default x cfg art pf;
          (format_id, format_str) = (case fmt of
             SampleX509 \<Rightarrow> (FORMAT_X509, ''CERTIFICATE'') | SampleCsr \<Rightarrow> (FORMAT_CSR, ''PKCS7''));
          env = \<lparr>crypto = rust_crypto_new rng, platform = (),
            dstate = State_new b (SUPPORT_AUTO_INIT OR SUPPORT_X509 OR SUPPORT_CSR)
              (if critical then MARK_DICE_EXTENSIONS_CRITICAL else 0), outbuf = []\<rparr>
      in fst (bind (trying (DpeInstance_new d p) (\<lambda>_. StopUnwrap)) (\<lambda>_.
           bind (add_tcb_info gen d p al TciMeasurement_default (u32_from_le_bytes (rev (ascii ''TEST''))) 0) (\<lambda>_.
           bind (sample_certify_key gen d p al mk format_id) (\<lambda>cert.
           ret (pem_text format_str cert)))) env))"

section \<open>What it prints\<close>

context answering
begin

lemma sample_request_result:
  assumes a: "addressable chain" "calm_gen gen" "sized_gen gen" and inv: "state_inv (dstate w)" and ok: "command_ok p c"
  obtains resp w' where "sample_request gen d p True c w = (Ok resp, w')" "state_inv (dstate w')"
    "answers_to c resp \<or> (\<exists>e. resp = RespError (response_hdr p e))" "response_typed resp"
proof -
  let ?bs = "command_hdr_bytes (CommandHdr_new p (command_id c)) @ command_bytes c"
  have c: "deserialize True p ?bs = Ok c" using deserialize_bytes [OF ok, of "[]"] by simp
  obtain resp out w' where x: "execute_serialized_command gen d p True 0 ?bs w = (Ok resp, w')" "state_inv (dstate w')"
    by (rule request_reply [OF a inv c])
  have len: "length (contexts (dstate w)) = 64" by (rule forest_length [OF state_inv_forest [OF inv]])
  have "answers_to c resp \<or> (\<exists>e. resp = RespError (response_hdr p e))"
    using request_answer [OF a(2) len x(1)] c by (metis outcome.inject(1))
  with x request_typed [OF a(2,3) len x(1)] show thesis by (intro that) (auto simp: sample_request_def)
qed

lemma add_tcb_info_result:
  assumes a: "addressable chain" "calm_gen gen" "sized_gen gen" and inv: "state_inv (dstate w)" and l: "length data = TCI_SIZE"
    and r: "add_tcb_info gen d p True data ty svn w = (r, w')"
  shows "r = Ok () \<and> state_inv (dstate w') \<or> (\<exists>e. r = Err (StopErrorResponse (get_error_code e)))"
proof -
  let ?cmd = "\<lparr>d_handle = handle_default, d_data = data, d_flags = push_bit 25 1 OR push_bit 28 1, d_tci_type = ty,
    d_target_locality = 0, d_svn = svn\<rparr>"
  have ok: "command_ok p (DeriveContext ?cmd)" using l by (simp add: handle_ok_def handle_default_def)
  have "\<not> exports_cdi (d_flags ?cmd)" by (simp add: exports_cdi_def flags_contains_bit bit_simps del: push_bit_of_1)
  moreover obtain resp v where "sample_request gen d p True (DeriveContext ?cmd) w = (Ok resp, v)" "state_inv (dstate v)"
    "answers_to (DeriveContext ?cmd) resp \<or> (\<exists>e. resp = RespError (response_hdr p e))"
    by (rule sample_request_result [OF a inv ok])
  ultimately show ?thesis using r
    by (cases resp) (auto simp: add_tcb_info_def bind_def answers_to_def response_hdr_def ResponseHdr_new_def)
qed

lemma sample_certify_key_result:
  assumes a: "addressable chain" "calm_gen gen" "sized_gen gen" and inv: "state_inv (dstate w)"
    and ok: "\<And>c. ck_handle c = handle_default \<Longrightarrow> length (ck_label c) = hash_size p \<Longrightarrow> certify_command_ok p (mk c)"
    and r: "sample_certify_key gen d p True mk fmt w = (r, w')"
  shows "(\<exists>cert. r = Ok cert \<and> length cert \<le> MAX_CERT_SIZE) \<or> (\<exists>e. r = Err (StopErrorResponse (get_error_code e)))"
proof -
  let ?c = "CertifyKey (mk \<lparr>ck_handle = handle_default, ck_flags = 0, ck_format = fmt, ck_label = replicate (hash_size p) 0\<rparr>)"
  have "command_ok p ?c" using ok by simp
  then obtain resp v where x: "sample_request gen d p True ?c w = (Ok resp, v)"
    "answers_to ?c resp \<or> (\<exists>e. resp = RespError (response_hdr p e))" "response_typed resp"
    using sample_request_result [OF a inv] by metis
  show ?thesis
  proof (cases resp)
    case (RespCertifyKey ck)
    with x(3) have "\<exists>bs. certify_resp_cert ck = Ok bs \<and> length bs \<le> MAX_CERT_SIZE"
      by (cases ck) (auto simp: certify_resp_cert_def get_range_def ok_or_def)
    with RespCertifyKey x r show ?thesis by (auto simp: sample_certify_key_def bind_def)
  qed (use x r in \<open>auto simp: sample_certify_key_def bind_def answers_to_def response_hdr_def ResponseHdr_new_def\<close>)
qed

end

lemma sample_profile_command:
  assumes "sample_profile p256 p384 ml_dsa = Some (p, pf, cfg, mk)" "ck_handle c = handle_default"
    "length (ck_label c) = hash_size p"
  shows "certify_command_ok p (mk c)"
  using assms by (auto simp: sample_profile_def handle_ok_def handle_default_def hash_size_def split: if_splits)

theorem sample_main_prints:
  assumes prof: "sample_profile p256 p384 ml_dsa = Some (p, pf, cfg, mk)" and a: "addressable (art_cert_chain art pf)"
    and gen: "calm_gen gen" "sized_gen gen"
  shows "(\<exists>cert. length cert \<le> MAX_CERT_SIZE \<and>
      sample_main gen x art b rng True pem_text (p, pf, cfg, mk) fmt critical =
        Ok (pem_text (case fmt of SampleX509 \<Rightarrow> ''CERTIFICATE'' | SampleCsr \<Rightarrow> ''PKCS7'') cert)) \<or>
    (\<exists>e. sample_main gen x art b rng True pem_text (p, pf, cfg, mk) fmt critical = Err (StopErrorResponse (get_error_code e)))"
proof -
  let ?d = "rust_default x cfg art pf"
  let ?supp = "SUPPORT_AUTO_INIT OR SUPPORT_X509 OR SUPPORT_CSR" and ?fl = "if critical then MARK_DICE_EXTENSIONS_CRITICAL else 0"
  let ?env = "\<lparr>crypto = rust_crypto_new rng, platform = (), dstate = State_new b ?supp ?fl, outbuf = []\<rparr> :: ('a rust_crypto, unit) world"
  let ?ty = "u32_from_le_bytes (rev (ascii ''TEST''))" and ?fmt = "case fmt of SampleX509 \<Rightarrow> FORMAT_X509 | SampleCsr \<Rightarrow> FORMAT_CSR"
  obtain v where v: "DpeInstance_new ?d p ?env = (Ok (), v)"
    by (rule start_new [of ?env b ?supp ?fl ?d p]) (auto simp: rust_default_def default_platform_def)
  have inv: "state_inv (dstate v)"
    using sp_any [OF DpeInstance_new_transitions v] transitions_preserve_inv [OF _ state_inv_new] by simp
  obtain r u where r: "add_tcb_info gen ?d p True TciMeasurement_default ?ty 0 v = (r, u)" by fastforce
  have "r = Ok () \<and> state_inv (dstate u) \<or> (\<exists>e. r = Err (StopErrorResponse (get_error_code e)))"
    by (rule rust_answering.add_tcb_info_result [OF a gen inv _ r]) (simp add: TciMeasurement_default_def)
  then show ?thesis
  proof
    assume u: "r = Ok () \<and> state_inv (dstate u)"
    obtain y w where y: "sample_certify_key gen ?d p True mk ?fmt u = (y, w)" by fastforce
    have main: "sample_main gen x art b rng True pem_text (p, pf, cfg, mk) fmt critical = (case y of
        Ok cert \<Rightarrow> Ok (pem_text (case fmt of SampleX509 \<Rightarrow> ''CERTIFICATE'' | SampleCsr \<Rightarrow> ''PKCS7'') cert)
      | Err e \<Rightarrow> Err e | Panic \<Rightarrow> Panic | Diverge \<Rightarrow> Diverge)"
      using u y r v by (cases fmt; cases y) (simp_all add: sample_main_def Let_def bind_def)
    have "(\<exists>cert. y = Ok cert \<and> length cert \<le> MAX_CERT_SIZE) \<or> (\<exists>e. y = Err (StopErrorResponse (get_error_code e)))"
      by (rule rust_answering.sample_certify_key_result [OF a gen conjunct2 [OF u] _ y]) (rule sample_profile_command [OF prof])
    then show ?thesis unfolding main by (elim disjE exE conjE) auto
  next
    assume "\<exists>e. r = Err (StopErrorResponse (get_error_code e))"
    with r v show ?thesis by (cases fmt) (auto simp: sample_main_def Let_def bind_def)
  qed
qed

end
