(* ===== verification/Report.thy ===== *)
theory Report
  imports Typed
begin

text \<open>
  The report on a certificate (tools/src/lib.rs): a certificate, a CSR or the response that carries one is
  unwrapped and parsed, and its measurements are shown as a graph and as tables. Decoding ASN.1, X.509, CMS and PEM
  and writing hexadecimal text are external libraries: they are the arguments \<open>report_lib\<close>.
\<close>

section \<open>The data\<close>

text \<open>
  The structures of dice-asn1/src/lib.rs; object identifiers \<open>'o\<close> and bit strings \<open>'b\<close> are types of the ASN.1
  library.
\<close>

record 'o Fwid =
  fw_hash_alg :: 'o
  fw_digest :: bytes

record 'o IntegrityRegister =
  register_name :: "string option"
  register_num :: "u64 option"
  register_digests :: "'o Fwid list option"

record ('o, 'b) LegacyTcbInfo =
  t_vendor :: "string option"
  t_model :: "string option"
  t_version :: "string option"
  t_svn :: "u64 option"
  t_layer :: "u64 option"
  t_index :: "u64 option"
  t_fwids :: "'o Fwid list option"
  t_flags :: "'b option"
  t_vendor_info :: "bytes option"
  t_tci_type :: "bytes option"
  t_integrity_registers :: "'o IntegrityRegister list option"

text \<open>\<open>TcbInfo\<close> has one field more; that it stands before the last matters to the decoder only.\<close>

record ('o, 'b) TcbInfo = "('o, 'b) LegacyTcbInfo" +
  t_operational_flags_mask :: "'b option"

record ParsedFwid =
  hash_alg :: string
  fwid_digest :: bytes

record ParsedIntegrityRegister =
  reg_name :: "string option"
  reg_num :: "u64 option"
  reg_digests :: "ParsedFwid list"

record ParsedTcbInfo =
  p_vendor :: "string option"
  p_model :: "string option"
  p_version :: "string option"
  p_svn :: "u64 option"
  p_layer :: "u64 option"
  p_index :: "u64 option"
  p_fwids :: "ParsedFwid list"
  p_flags :: "string option"
  p_vendor_info :: "bytes option"
  p_tci_type :: "bytes option"
  p_operational_flags_mask :: "string option"
  p_integrity_registers :: "ParsedIntegrityRegister list"

record ParsedExtension =
  ext_oid :: string
  ext_name :: string
  ext_critical :: bool
  ext_details :: string

record ParsedCert =
  is_csr :: bool
  subject_text :: string
  issuer_text :: string
  serial_text :: string
  signature_text :: string
  valid_from :: string
  valid_to :: string
  public_key_info :: string
  profile_name :: string
  cert_ueid :: "bytes option"
  cert_tcb_infos :: "ParsedTcbInfo list"
  cert_extensions :: "ParsedExtension list"

text \<open>What the X.509 library reads: names, times and object identifiers as the text it shows for them.\<close>

datatype x509_extension_value =
    ExtBasicConstraints bool "u32 option"
  | ExtKeyUsage bool bool
  | ExtExtendedKeyUsage "string list"
  | ExtSubjectKeyIdentifier bytes
  | ExtAuthorityKeyIdentifier "bytes option"
  | ExtUnknown

record x509_extension =
  e_oid :: string
  e_critical :: bool
  e_value :: bytes
  e_parsed :: x509_extension_value

record x509_certificate =
  c_subject :: string
  c_issuer :: string
  c_serial :: bytes
  c_signature_algorithm :: string
  c_public_key :: string
  c_not_before :: string
  c_not_after :: string
  c_extensions :: "x509_extension list"

text \<open>The attributes of a CSR; \<open>None\<close> is one that is no request for extensions.\<close>

record x509_request =
  r_subject :: string
  r_signature_algorithm :: string
  r_public_key :: string
  r_attributes :: "x509_extension list option list"

record ('o, 'b, 'e) report_lib =
  hex_encode :: "bytes \<Rightarrow> string"
  oid_text :: "'o \<Rightarrow> string"
  bits_text :: "'b \<Rightarrow> string"
  asn1_error_text :: "'e \<Rightarrow> string"
  asn1_tcb_info :: "bytes \<Rightarrow> 'e + ('o, 'b) TcbInfo"
  asn1_legacy_tcb_info :: "bytes \<Rightarrow> 'e + ('o, 'b) LegacyTcbInfo"
  asn1_tcb_infos :: "bytes \<Rightarrow> 'e + ('o, 'b) TcbInfo list"
  asn1_legacy_tcb_infos :: "bytes \<Rightarrow> 'e + ('o, 'b) LegacyTcbInfo list"
  asn1_octets :: "bytes \<Rightarrow> 'e + bytes"
  asn1_ueid :: "bytes \<Rightarrow> 'e + bytes"
  cms_content_info :: "bytes \<Rightarrow> bytes option"
  cms_signed_data :: "bytes \<Rightarrow> bytes option option"
  pem_parse :: "bytes \<Rightarrow> bytes option"
  x509_from_der :: "bytes \<Rightarrow> x509_certificate option"
  csr_from_der :: "bytes \<Rightarrow> x509_request option"

section \<open>Texts\<close>

definition format_tci_type :: "('o, 'b, 'e) report_lib \<Rightarrow> bytes \<Rightarrow> string" where
  "format_tci_type l bs =
     (if bs \<noteq> [] \<and> list_all (\<lambda>b. 0x20 \<le> b \<and> b \<le> 0x7E) bs
      then ''0x'' @ hex_encode l bs @ '' ('' @ [CHR 0x27] @ map (char_of \<circ> unat) bs @ [CHR 0x27] @ '')''
      else ''0x'' @ hex_encode l bs)"

definition format_bytes_brief :: "('o, 'b, 'e) report_lib \<Rightarrow> bytes \<Rightarrow> nat \<Rightarrow> string" where
  "format_bytes_brief l bs max_len =
     (let hex = hex_encode l bs in if max_len < length hex then take max_len hex @ ''...'' else hex)"

definition TCG_DICE_TCB_INFO_OID :: string where "TCG_DICE_TCB_INFO_OID = ''2.23.133.5.4.1''"
definition TCG_DICE_MULTI_TCB_INFO_OID :: string where "TCG_DICE_MULTI_TCB_INFO_OID = ''2.23.133.5.4.5''"
definition TCG_DICE_UEID_OID :: string where "TCG_DICE_UEID_OID = ''2.23.133.5.4.4''"
definition TCG_DICE_KP_ATTEST_LOC_OID :: string where "TCG_DICE_KP_ATTEST_LOC_OID = ''2.23.133.5.4.100.9''"
definition TCG_DICE_KP_ECA_OID :: string where "TCG_DICE_KP_ECA_OID = ''2.23.133.5.4.100.12''"

definition friendly_names :: "(string \<times> string) list" where
  "friendly_names =
     [(''2.16.840.1.101.3.4.2.1'', ''SHA-256 (2.16.840.1.101.3.4.2.1)''),
      (''2.16.840.1.101.3.4.2.2'', ''SHA-384 (2.16.840.1.101.3.4.2.2)''),
      (''2.16.840.1.101.3.4.2.3'', ''SHA-512 (2.16.840.1.101.3.4.2.3)''),
      (''2.16.840.1.101.3.4.3.19'', ''ML-DSA-87 (2.16.840.1.101.3.4.3.19)''),
      (''1.2.840.10045.2.1'', ''ecPublicKey''),
      (''1.2.840.10045.3.1.7'', ''secp256r1 (P-256)''),
      (''1.3.132.0.34'', ''secp384r1 (P-384)''),
      (''1.2.840.10045.4.3.2'', ''ecdsa-with-SHA256''),
      (''1.2.840.10045.4.3.3'', ''ecdsa-with-SHA384''),
      (TCG_DICE_TCB_INFO_OID, ''tcg-dice-TcbInfo''),
      (TCG_DICE_MULTI_TCB_INFO_OID, ''tcg-dice-MultiTcbInfo''),
      (TCG_DICE_UEID_OID, ''tcg-dice-Ueid''),
      (TCG_DICE_KP_ATTEST_LOC_OID, ''tcg-dice-kp-attestLoc''),
      (TCG_DICE_KP_ECA_OID, ''tcg-dice-kp-eca''),
      (''2.5.29.19'', ''basicConstraints''),
      (''2.5.29.15'', ''keyUsage''),
      (''2.5.29.37'', ''extendedKeyUsage''),
      (''2.5.29.14'', ''subjectKeyIdentifier''),
      (''2.5.29.35'', ''authorityKeyIdentifier''),
      (''2.5.29.17'', ''subjectAltName'')]"

definition oid_friendly_name :: "string \<Rightarrow> string" where
  "oid_friendly_name oid_str = (case map_of friendly_names oid_str of Some name \<Rightarrow> name | None \<Rightarrow> oid_str)"

section \<open>Parsing\<close>

definition parse_fwid :: "('o, 'b, 'e) report_lib \<Rightarrow> 'o Fwid \<Rightarrow> ParsedFwid" where
  "parse_fwid l f = \<lparr>hash_alg = oid_text l (fw_hash_alg f), fwid_digest = fw_digest f\<rparr>"

definition parse_register :: "('o, 'b, 'e) report_lib \<Rightarrow> 'o IntegrityRegister \<Rightarrow> ParsedIntegrityRegister" where
  "parse_register l ir = \<lparr>reg_name = register_name ir, reg_num = register_num ir,
     reg_digests = (case register_digests ir of None \<Rightarrow> [] | Some fwids \<Rightarrow> map (parse_fwid l) fwids)\<rparr>"

definition parse_legacy_tcb_info ::
  "('o, 'b, 'e) report_lib \<Rightarrow> ('o, 'b, 'x) LegacyTcbInfo_scheme \<Rightarrow> ParsedTcbInfo" where
  "parse_legacy_tcb_info l tcb = \<lparr>p_vendor = t_vendor tcb, p_model = t_model tcb, p_version = t_version tcb,
     p_svn = t_svn tcb, p_layer = t_layer tcb, p_index = t_index tcb,
     p_fwids = (case t_fwids tcb of None \<Rightarrow> [] | Some fwids \<Rightarrow> map (parse_fwid l) fwids),
     p_flags = map_option (bits_text l) (t_flags tcb), p_vendor_info = t_vendor_info tcb,
     p_tci_type = t_tci_type tcb, p_operational_flags_mask = None,
     p_integrity_registers =
       (case t_integrity_registers tcb of None \<Rightarrow> [] | Some irs \<Rightarrow> map (parse_register l) irs)\<rparr>"

text \<open>\<open>parse_single_tcb_info\<close> has the same body with the one field more.\<close>

definition parse_single_tcb_info :: "('o, 'b, 'e) report_lib \<Rightarrow> ('o, 'b) TcbInfo \<Rightarrow> ParsedTcbInfo" where
  "parse_single_tcb_info l tcb =
     (parse_legacy_tcb_info l tcb)\<lparr>p_operational_flags_mask := map_option (bits_text l) (t_operational_flags_mask tcb)\<rparr>"

text \<open>Trying one decoder after the other; the error is that of the last.\<close>

definition or_else :: "'e + 'a \<Rightarrow> 'e + 'a \<Rightarrow> 'e + 'a" where
  "or_else m f = (case m of Inl e \<Rightarrow> f | Inr x \<Rightarrow> Inr x)"

definition and_then :: "'e + 'a \<Rightarrow> ('a \<Rightarrow> 'e + 'b) \<Rightarrow> 'e + 'b" where
  "and_then m f = (case m of Inl e \<Rightarrow> Inl e | Inr x \<Rightarrow> f x)"

definition multi_tcb_infos :: "('o, 'b, 'e) report_lib \<Rightarrow> bytes \<Rightarrow> 'e + ParsedTcbInfo list" where
  "multi_tcb_infos l v =
     (let whole = map_sum id (map (parse_single_tcb_info l)); legacy = map_sum id (map (parse_legacy_tcb_info l))
      in or_else (or_else (or_else
           (whole (asn1_tcb_infos l v))
           (whole (and_then (asn1_octets l v) (asn1_tcb_infos l))))
           (legacy (asn1_legacy_tcb_infos l v)))
           (legacy (and_then (asn1_octets l v) (asn1_legacy_tcb_infos l))))"

definition show_bool :: "bool \<Rightarrow> string" where
  "show_bool b = (if b then ''true'' else ''false'')"

fun join :: "string \<Rightarrow> string list \<Rightarrow> string" where
  "join sep [] = []"
| "join sep [x] = x"
| "join sep (x # y # xs) = x @ sep @ join sep (y # xs)"

primrec show_extension :: "('o, 'b, 'e) report_lib \<Rightarrow> bytes \<Rightarrow> x509_extension_value \<Rightarrow> string" where
  "show_extension l v (ExtBasicConstraints ca len) = ''CA: '' @ show_bool ca @ '', PathLen: '' @
     (case len of None \<Rightarrow> ''None'' | Some n \<Rightarrow> ''Some('' @ nat_decimal (unat n) @ '')'')"
| "show_extension l v (ExtKeyUsage sign cert) =
     ''DigitalSignature: '' @ show_bool sign @ '', KeyCertSign: '' @ show_bool cert"
| "show_extension l v (ExtExtendedKeyUsage other) = ''EKU OIDs: '' @ join '', '' (map oid_friendly_name other)"
| "show_extension l v (ExtSubjectKeyIdentifier ski) = ''SKI: '' @ hex_encode l ski"
| "show_extension l v (ExtAuthorityKeyIdentifier aki) =
     (case aki of None \<Rightarrow> [] | Some k \<Rightarrow> ''KeyID: '' @ hex_encode l k)"
| "show_extension l v ExtUnknown = ''Raw length: '' @ nat_decimal (length v) @ '' bytes''"

text \<open>One extension: the TCB infos it adds, the UEID if it sets one, and its details.\<close>

definition parse_extension ::
  "('o, 'b, 'e) report_lib \<Rightarrow> x509_extension \<Rightarrow> ParsedTcbInfo list \<times> bytes option \<times> string" where
  "parse_extension l ext =
     (let v = e_value ext
      in if e_oid ext = TCG_DICE_TCB_INFO_OID
      then (case asn1_tcb_info l v of
              Inr tcb \<Rightarrow> ([parse_single_tcb_info l tcb], None, ''Single TCB Context'')
            | Inl _ \<Rightarrow>
                (case asn1_legacy_tcb_info l v of
                   Inr tcb \<Rightarrow> ([parse_legacy_tcb_info l tcb], None, ''Single TCB Context (Legacy)'')
                 | Inl _ \<Rightarrow> ([], None, ''Failed to parse TcbInfo'')))
      else if e_oid ext = TCG_DICE_MULTI_TCB_INFO_OID
      then (case multi_tcb_infos l v of
              Inr items \<Rightarrow> (items, None, ''Contains '' @ nat_decimal (length items) @ '' TCB Context(s)'')
            | Inl e \<Rightarrow> ([], None, ''Failed to parse SequenceOf<TcbInfo>: '' @ asn1_error_text l e))
      else if e_oid ext = TCG_DICE_UEID_OID
      then (case asn1_ueid l v of
              Inr u \<Rightarrow> ([], Some u, ''UEID: '' @ hex_encode l u)
            | Inl _ \<Rightarrow> ([], None, ''Raw bytes: '' @ hex_encode l v))
      else ([], None, show_extension l v (e_parsed ext)))"

fun parse_extensions ::
  "('o, 'b, 'e) report_lib \<Rightarrow> x509_extension list \<Rightarrow>
     ParsedTcbInfo list \<times> bytes option \<times> ParsedExtension list \<Rightarrow>
     ParsedTcbInfo list \<times> bytes option \<times> ParsedExtension list" where
  "parse_extensions l [] acc = acc"
| "parse_extensions l (ext # exts) (tcbs, ueid, parsed) =
     (case parse_extension l ext of (items, u, details) \<Rightarrow>
        parse_extensions l exts
          (tcbs @ items, (case u of None \<Rightarrow> ueid | Some b \<Rightarrow> Some b),
           parsed @ [\<lparr>ext_oid = e_oid ext, ext_name = oid_friendly_name (e_oid ext),
             ext_critical = e_critical ext, ext_details = details\<rparr>]))"

definition infer_dpe_profile :: "string \<Rightarrow> string \<Rightarrow> ParsedTcbInfo list \<Rightarrow> string" where
  "infer_dpe_profile pk_oid sig_alg_oid tcbs =
     (if pk_oid = ''2.16.840.1.101.3.4.3.19'' \<or> sig_alg_oid = ''2.16.840.1.101.3.4.3.19'' then ''ML-DSA-87 (PQC)''
      else
        let fwid_hash_oid = (case tcbs of
              tcb # _ \<Rightarrow> (case p_fwids tcb of fwid # _ \<Rightarrow> Some (hash_alg fwid) | [] \<Rightarrow> None) | [] \<Rightarrow> None)
        in if sig_alg_oid = ''1.2.840.10045.4.3.3'' \<or> pk_oid = ''1.3.132.0.34'' \<or>
             fwid_hash_oid = Some ''2.16.840.1.101.3.4.2.2'' then ''P384-SHA384''
        else if sig_alg_oid = ''1.2.840.10045.4.3.2'' \<or> pk_oid = ''1.2.840.10045.3.1.7'' \<or>
             fwid_hash_oid = Some ''2.16.840.1.101.3.4.2.1'' then ''P256-SHA256''
        else ''Unknown'')"

definition parse_x509_cert :: "('o, 'b, 'e) report_lib \<Rightarrow> x509_certificate \<Rightarrow> ParsedCert" where
  "parse_x509_cert l cert =
     (let (tcbs, ueid, exts) = parse_extensions l (c_extensions cert) ([], None, [])
      in \<lparr>is_csr = False, subject_text = c_subject cert, issuer_text = c_issuer cert,
          serial_text = hex_encode l (c_serial cert),
          signature_text = oid_friendly_name (c_signature_algorithm cert),
          valid_from = c_not_before cert, valid_to = c_not_after cert,
          public_key_info = c_public_key cert @ '' ('' @ oid_friendly_name (c_public_key cert) @ '')'',
          profile_name = infer_dpe_profile (c_public_key cert) (c_signature_algorithm cert) tcbs,
          cert_ueid = ueid, cert_tcb_infos = tcbs, cert_extensions = exts\<rparr>)"

definition parse_csr :: "('o, 'b, 'e) report_lib \<Rightarrow> x509_request \<Rightarrow> ParsedCert" where
  "parse_csr l csr =
     (let exts_asked = concat (List.map_filter id (r_attributes csr));
          (tcbs, ueid, exts) = parse_extensions l exts_asked ([], None, [])
      in \<lparr>is_csr = True, subject_text = r_subject csr, issuer_text = ''N/A (CSR)'', serial_text = ''N/A (CSR)'',
          signature_text = oid_friendly_name (r_signature_algorithm csr),
          valid_from = ''N/A (CSR)'', valid_to = ''N/A (CSR)'',
          public_key_info = r_public_key csr @ '' ('' @ oid_friendly_name (r_public_key csr) @ '')'',
          profile_name = infer_dpe_profile (r_public_key csr) (r_signature_algorithm csr) tcbs,
          cert_ueid = ueid, cert_tcb_infos = tcbs, cert_extensions = exts\<rparr>)"

text \<open>The second step of \<open>unwrap_raw_bytes\<close>, and the whole of it.\<close>

definition unwrap_cms :: "('o, 'b, 'e) report_lib \<Rightarrow> bytes \<Rightarrow> bytes" where
  "unwrap_cms l bs =
     (case Option.bind (cms_content_info l bs) (cms_signed_data l) of
        Some (Some econtent) \<Rightarrow> econtent
      | _ \<Rightarrow> bs)"

definition unwrap_raw_bytes :: "('o, 'b, 'e) report_lib \<Rightarrow> bytes \<Rightarrow> bytes" where
  "unwrap_raw_bytes l bs =
     unwrap_cms l (if 128 \<le> length bs \<and> take 4 bs = ascii ''REPD'' then drop 128 bs else bs)"

datatype report_error = PemFailed | NotACertificate

definition parse_cert_bytes :: "('o, 'b, 'e) report_lib \<Rightarrow> bytes \<Rightarrow> report_error + ParsedCert" where
  "parse_cert_bytes l bs =
     and_then (if take 10 bs = ascii ''-----BEGIN''
       then (case pem_parse l bs of None \<Rightarrow> Inl PemFailed | Some p \<Rightarrow> Inr p) else Inr bs) (\<lambda>raw_der.
     let raw_der = unwrap_raw_bytes l raw_der
     in case x509_from_der l raw_der of
          Some cert \<Rightarrow> Inr (parse_x509_cert l cert)
        | None \<Rightarrow>
            (case csr_from_der l raw_der of Some csr \<Rightarrow> Inr (parse_csr l csr) | None \<Rightarrow> Inl NotACertificate))"

section \<open>The graph\<close>

text \<open>\<open>writeln\<close> appends a line.\<close>

definition writeln :: "string \<Rightarrow> string" where
  "writeln s = s @ [CHR 0x0A]"

definition or_na :: "('a \<Rightarrow> string) \<Rightarrow> 'a option \<Rightarrow> string" where
  "or_na f x = (case x of None \<Rightarrow> ''N/A'' | Some y \<Rightarrow> f y)"

definition show_u64 :: "u64 \<Rightarrow> string" where
  "show_u64 n = nat_decimal (unat n)"

text \<open>\<open>replace\<close> of the double quote by the single one.\<close>

definition single_quoted :: "string \<Rightarrow> string" where
  "single_quoted s = map (\<lambda>c. if c = CHR 0x22 then CHR 0x27 else c) s"

definition graph_node :: "nat \<Rightarrow> string \<Rightarrow> string \<Rightarrow> string" where
  "graph_node i label cls = writeln (''        NODE'' @ nat_decimal i @ ''['' @ [CHR 0x22] @ label @ [CHR 0x22] @ '']'' @ cls)"

definition graph_edge :: "nat \<Rightarrow> nat \<Rightarrow> string" where
  "graph_edge i j = writeln (''        NODE'' @ nat_decimal i @ '' --> NODE'' @ nat_decimal j)"

definition tcb_label :: "('o, 'b, 'e) report_lib \<Rightarrow> nat \<Rightarrow> ParsedTcbInfo \<Rightarrow> string" where
  "tcb_label l i tcb =
     (let title = ''TCB Context '' @ nat_decimal i @ (if i = 0 then '' (Root/Initial)'' else []);
          digest = (case p_fwids tcb of fwid # _ \<Rightarrow> format_bytes_brief l (fwid_digest fwid) 16 | [] \<Rightarrow> ''N/A'')
      in ''<b>'' @ title @ ''</b><br/>Type: <code>'' @ or_na (format_tci_type l) (p_tci_type tcb) @
         ''</code><br/>SVN: '' @ or_na show_u64 (p_svn tcb) @ ''<br/>Digest: <code>'' @ digest @ ''</code>'')"

text \<open>The loop over the TCB infos, from index \<open>i\<close>.\<close>

fun graph_contexts :: "('o, 'b, 'e) report_lib \<Rightarrow> nat \<Rightarrow> ParsedTcbInfo list \<Rightarrow> string" where
  "graph_contexts l i [] = []"
| "graph_contexts l i (tcb # tcbs) =
     graph_node i (tcb_label l i tcb) (if i = 0 then '':::rootStyle'' else '':::derivedStyle'') @
     (if 0 < i then graph_edge (i - 1) i else []) @ graph_contexts l (i + 1) tcbs"

definition graph_title :: "ParsedCert \<Rightarrow> string" where
  "graph_title cert =
     (if cert_tcb_infos cert = []
      then (if is_csr cert then ''Certificate Signing Request (CSR - 0 TCB Contexts)''
            else ''Identity / CA Certificate (0 TCB Contexts)'')
      else if is_csr cert then ''Certificate Signing Request (CSR)'' else ''Alias Certificate'')"

definition cert_label :: "ParsedCert \<Rightarrow> string" where
  "cert_label cert =
     ''<b>'' @ graph_title cert @ ''</b><br/>Subject: '' @ single_quoted (subject_text cert) @
     (if take 3 (issuer_text cert) = ''N/A'' then [] else ''<br/>Issuer: '' @ single_quoted (issuer_text cert))"

definition graph_head :: string where
  "graph_head = writeln (''```mermaid'') @ writeln (''graph TD'') @
     writeln (''    classDef rootStyle fill:#1e293b,stroke:#3b82f6,stroke-width:2px,color:#f8fafc;'') @
     writeln (''    classDef derivedStyle fill:#0f172a,stroke:#8b5cf6,stroke-width:2px,color:#f8fafc;'') @
     writeln (''    classDef certStyle fill:#14532d,stroke:#22c55e,stroke-width:2px,color:#f8fafc;'') @
     writeln [] @ writeln (''    subgraph Derivation_Chain [TCB Context Derivation Chain]'') @
     writeln (''        direction TD'')"

definition generate_mermaid_graph :: "('o, 'b, 'e) report_lib \<Rightarrow> ParsedCert \<Rightarrow> string" where
  "generate_mermaid_graph l cert =
     (let n = length (cert_tcb_infos cert)
      in graph_head @ graph_contexts l 0 (cert_tcb_infos cert) @ graph_node n (cert_label cert) '':::certStyle'' @
         (if 0 < n then graph_edge (n - 1) n else []) @ writeln (''    end'') @ writeln (''```''))"

section \<open>The document\<close>

definition code_text :: "string \<Rightarrow> string" where
  "code_text s = ''`'' @ s @ ''`''"

definition table_row :: "string \<Rightarrow> string \<Rightarrow> string" where
  "table_row name v = writeln (''| **'' @ name @ ''** | '' @ v @ '' |'')"

definition overview :: "('o, 'b, 'e) report_lib \<Rightarrow> ParsedCert \<Rightarrow> string" where
  "overview l cert =
     writeln (writeln (''## Certificate Overview'')) @ writeln (''| Attribute | Value |'') @ writeln (''| :--- | :--- |'') @
     table_row ''Subject'' (code_text (subject_text cert)) @ table_row ''Issuer'' (code_text (issuer_text cert)) @
     table_row ''Serial Number'' (code_text (serial_text cert)) @
     table_row ''Signature Algorithm'' (signature_text cert) @
     (if is_csr cert then [] else table_row ''Validity'' (valid_from cert @ '' to '' @ valid_to cert)) @
     table_row ''Public Key'' (public_key_info cert) @
     table_row ''Inferred DPE Profile'' (code_text (profile_name cert)) @
     (case cert_ueid cert of None \<Rightarrow> [] | Some u \<Rightarrow> table_row ''UEID'' (code_text (hex_encode l u))) @ writeln []"

definition fwid_lines :: "('o, 'b, 'e) report_lib \<Rightarrow> ParsedFwid \<Rightarrow> string" where
  "fwid_lines l f = writeln (''- **Algorithm**: '' @ oid_friendly_name (hash_alg f)) @
     writeln (''  - **Digest**: '' @ code_text (hex_encode l (fwid_digest f)))"

definition register_lines :: "('o, 'b, 'e) report_lib \<Rightarrow> ParsedIntegrityRegister \<Rightarrow> string" where
  "register_lines l ir =
     writeln (''- **Register Num**: '' @ or_na show_u64 (reg_num ir)) @
     (case reg_name ir of None \<Rightarrow> [] | Some name \<Rightarrow> writeln (''  - **Name**: '' @ name)) @
     concat (map (\<lambda>f. writeln (''  - **Digest ('' @ oid_friendly_name (hash_alg f) @ '')**: '' @
       code_text (hex_encode l (fwid_digest f)))) (reg_digests ir))"

definition tcb_breakdown :: "('o, 'b, 'e) report_lib \<Rightarrow> nat \<Rightarrow> ParsedTcbInfo \<Rightarrow> string" where
  "tcb_breakdown l i tcb =
     writeln (writeln (''### TCB Context '' @ nat_decimal i @ (if i = 0 then '' (Root/Initial)'' else []))) @
     writeln (''| Field | Value |'') @ writeln (''| :--- | :--- |'') @
     table_row ''Index'' (or_na show_u64 (p_index tcb)) @ table_row ''Layer'' (or_na show_u64 (p_layer tcb)) @
     table_row ''TCI Type'' (or_na (format_tci_type l) (p_tci_type tcb)) @
     table_row ''SVN'' (or_na show_u64 (p_svn tcb)) @ table_row ''Vendor'' (or_na id (p_vendor tcb)) @
     table_row ''Model'' (or_na id (p_model tcb)) @ table_row ''Version'' (or_na id (p_version tcb)) @
     (case p_vendor_info tcb of None \<Rightarrow> [] | Some v \<Rightarrow> table_row ''Vendor Info'' (code_text (hex_encode l v))) @
     (case p_flags tcb of None \<Rightarrow> [] | Some f \<Rightarrow> table_row ''Flags'' (code_text f)) @
     (case p_operational_flags_mask tcb of None \<Rightarrow> [] | Some f \<Rightarrow> table_row ''Operational Flags Mask'' (code_text f)) @
     writeln [] @
     (if p_fwids tcb = [] then []
      else writeln (''#### FWIDs / Measurements'') @ writeln [] @ concat (map (fwid_lines l) (p_fwids tcb)) @ writeln []) @
     (if p_integrity_registers tcb = [] then []
      else writeln (''#### Integrity Registers'') @ writeln [] @
        concat (map (register_lines l) (p_integrity_registers tcb)) @ writeln [])"

definition extension_row :: "ParsedExtension \<Rightarrow> string" where
  "extension_row ext = writeln (''| **'' @ ext_name ext @ ''**<br/>'' @ code_text (ext_oid ext) @ '' | '' @
     (if ext_critical ext then ''Yes'' else ''No'') @ '' | '' @ ext_details ext @ '' |'')"

definition generate_markdown :: "('o, 'b, 'e) report_lib \<Rightarrow> ParsedCert \<Rightarrow> string" where
  "generate_markdown l cert =
     writeln (writeln (if is_csr cert then ''# DPE Certificate Signing Request (CSR) TCB Context Analysis''
       else ''# DPE Certificate TCB Context Analysis'')) @
     overview l cert @
     writeln (writeln (''## TCB Context Graph'')) @ writeln (writeln (generate_mermaid_graph l cert)) @
     (if cert_tcb_infos cert = [] then []
      else writeln (writeln (''## TCB Contexts Breakdown'')) @
        concat (map (\<lambda>(i, tcb). tcb_breakdown l i tcb) (enumerate 0 (cert_tcb_infos cert)))) @
     writeln (if is_csr cert then ''## Requested Extensions'' else ''## X.509 Certificate Extensions'') @
     writeln (''| Extension | Critical | Details / Value |'') @ writeln (''| :--- | :---: | :--- |'') @
     concat (map extension_row (cert_extensions cert)) @ writeln []"

section \<open>What the tool makes of a response\<close>

text \<open>
  The header that is cut off is that of a P-384 response: the shorter one of P-256 costs the first 32 bytes of the
  certificate, of the longer one of ML-DSA a part of the key is left in front of it.
\<close>

lemma magic_octets: "u32_to_le_bytes DPE_RESPONSE_MAGIC = ascii ''REPD''"
  by (simp add: DPE_RESPONSE_MAGIC_def u32_to_le_bytes_def ascii_def)

lemma unwrap_response:
  assumes "take 4 out = ascii ''REPD''" "out = hdr @ cert" "128 \<le> length hdr + length cert"
  shows "unwrap_raw_bytes l out = unwrap_cms l (drop 128 hdr @ drop (128 - length hdr) cert)"
  using assms by (simp add: unwrap_raw_bytes_def)

lemma certify_response_unwrapped:
  assumes t: "response_typed (RespCertifyKey ck)" and m: "rh_magic (certify_resp_hdr ck) = DPE_RESPONSE_MAGIC"
    and out: "response_partial (RespCertifyKey ck) = Ok out" and cert: "certify_resp_cert ck = Ok cert" "32 \<le> length cert"
  shows "unwrap_raw_bytes l out = unwrap_cms l (case ck of
      CkRespP256 _ \<Rightarrow> drop 32 cert
    | CkRespP384 _ \<Rightarrow> cert
    | CkRespMldsa87 r \<Rightarrow> drop 100 (km_pubkey (wc_header r)) @ u32_to_le_bytes (km_cert_size (wc_header r)) @ cert)"
proof (cases ck)
  case (CkRespP256 r)
  then show ?thesis
    using t m out cert certify_p256_hdr.with_cert_partial_value [of r k2_cert_size CertifyKeyP256RespSliceOob]
      unwrap_response [of out "certify_p256_hdr_bytes (wc_header r)" cert l] certify_p256_hdr.length_write [of "wc_header r"]
    by (auto simp: certify_resp_cert_def get_range_def magic_octets certify_p256_hdr_bytes_def hdr_bytes_def split: if_splits)
next
  case (CkRespP384 r)
  then show ?thesis
    using t m out cert certify_p384_hdr.with_cert_partial_value [of r k3_cert_size CertifyKeyP384RespSliceOob]
      unwrap_response [of out "certify_p384_hdr_bytes (wc_header r)" cert l] certify_p384_hdr.length_write [of "wc_header r"]
    by (auto simp: certify_resp_cert_def get_range_def magic_octets certify_p384_hdr_bytes_def hdr_bytes_def split: if_splits)
next
  case (CkRespMldsa87 r)
  then show ?thesis
    using t m out cert certify_mldsa_hdr.with_cert_partial_value [of r km_cert_size CertifyKeyMldsa87RespSliceOob]
      unwrap_response [of out "certify_mldsa_hdr_bytes (wc_header r)" cert l] certify_mldsa_hdr.length_write [of "wc_header r"]
    by (auto simp: certify_resp_cert_def get_range_def magic_octets certify_mldsa_hdr_bytes_def hdr_bytes_def split: if_splits)
qed

section \<open>The labels of the graph\<close>

text \<open>
  The names of a certificate are written without double quotes, which end the label of a node; the printable
  TCI types are not.
\<close>

definition quotes :: "string \<Rightarrow> nat" where
  "quotes s = count_list s (CHR 0x22)"

lemma quotes_simps [simp]:
  "quotes [] = 0" "quotes (c # s) = (if c = CHR 0x22 then Suc (quotes s) else quotes s)"
  "quotes (s @ t) = quotes s + quotes t"
  by (simp_all add: quotes_def)

lemma quotes_none: "CHR 0x22 \<notin> set s \<Longrightarrow> quotes s = 0"
  by (simp add: quotes_def)

lemma quotes_single [simp]: "quotes (single_quoted s) = 0"
  by (induction s) (simp_all add: single_quoted_def)

lemma quotes_decimal [simp]: "quotes (nat_decimal n) = 0"
proof (induction n rule: nat_decimal.induct)
  case (1 n)
  have digit: "quotes [char_of (48 + d)] = 0" if "d < 10" for d :: nat
  proof -
    have "of_char (char_of (48 + d) :: char) = 48 + d" "of_char (CHR 0x22) = (34 :: nat)" using that by simp_all
    then have "(char_of (48 + d) :: char) \<noteq> CHR 0x22" by force
    then show ?thesis by (simp add: quotes_def)
  qed
  with 1 show ?case by (subst nat_decimal.simps) simp
qed

definition quoted_type :: "bytes option \<Rightarrow> nat" where
  "quoted_type ty = (case ty of
     Some bs \<Rightarrow> if list_all (\<lambda>b. 0x20 \<le> b \<and> b \<le> 0x7E) bs then count_list bs 0x22 else 0
   | None \<Rightarrow> 0)"

lemma quotes_chars: "quotes (map (char_of \<circ> unat) bs) = count_list bs (0x22 :: u8)"
proof (induction bs)
  case (Cons b bs)
  have "of_char (char_of (unat b) :: char) = unat b" using unsigned_less [of b, where 'a = nat] by simp
  moreover have "of_char (CHR 0x22) = unat (0x22 :: u8)" by simp
  ultimately have "(char_of (unat b) :: char) = CHR 0x22 \<longleftrightarrow> b = 0x22"
    by (metis char_of_char word_eq_iff_unsigned [where 'a = nat])
  with Cons show ?case by simp
qed simp

lemma quotes_hex:
  assumes "\<And>bs. CHR 0x22 \<notin> set (hex_encode l bs)"
  shows "quotes (hex_encode l bs) = 0" "quotes (format_bytes_brief l bs n) = 0"
    "quotes (or_na (format_tci_type l) ty) = quoted_type ty"
proof -
  show h: "quotes (hex_encode l bs) = 0" for bs by (rule quotes_none [OF assms])
  have "CHR 0x22 \<notin> set (take n (hex_encode l bs))" using assms [of bs] by (auto dest: in_set_takeD)
  from quotes_none [OF this] h show "quotes (format_bytes_brief l bs n) = 0" by (simp add: format_bytes_brief_def Let_def)
  show "quotes (or_na (format_tci_type l) ty) = quoted_type ty"
    using h by (auto simp: or_na_def quoted_type_def format_tci_type_def quotes_chars split: option.split)
qed

lemma quotes_lines [simp]:
  "quotes (writeln s) = quotes s" "quotes (graph_node i s cls) = 2 + quotes s + quotes cls" "quotes (graph_edge i j) = 0"
  by (simp_all add: writeln_def graph_node_def graph_edge_def)

lemma quotes_tcb_label:
  assumes "\<And>bs. CHR 0x22 \<notin> set (hex_encode l bs)"
  shows "quotes (tcb_label l i tcb) = quoted_type (p_tci_type tcb)"
proof -
  have "quotes (or_na show_u64 x) = 0" for x by (cases x) (simp_all add: or_na_def show_u64_def)
  moreover have "quotes (case p_fwids tcb of fwid # _ \<Rightarrow> format_bytes_brief l (fwid_digest fwid) 16 | [] \<Rightarrow> ''N/A'') = 0"
    using quotes_hex(2) [OF assms] by (auto split: list.split)
  ultimately show ?thesis by (simp add: tcb_label_def Let_def quotes_hex(3) [OF assms])
qed

lemma quotes_contexts:
  assumes "\<And>bs. CHR 0x22 \<notin> set (hex_encode l bs)"
  shows "quotes (graph_contexts l i tcbs) = 2 * length tcbs + (\<Sum>tcb \<leftarrow> tcbs. quoted_type (p_tci_type tcb))"
  by (induction tcbs arbitrary: i) (simp_all add: quotes_tcb_label [OF assms])

theorem graph_quotes:
  assumes "\<And>bs. CHR 0x22 \<notin> set (hex_encode l bs)"
  shows "quotes (generate_mermaid_graph l cert) =
    2 * Suc (length (cert_tcb_infos cert)) + (\<Sum>tcb \<leftarrow> cert_tcb_infos cert. quoted_type (p_tci_type tcb))"
proof -
  have label: "quotes (cert_label cert) = 0" by (simp add: cert_label_def graph_title_def)
  have head: "quotes graph_head = 0" by (simp add: graph_head_def)
  show ?thesis
    by (simp add: generate_mermaid_graph_def Let_def head label quotes_contexts [OF assms])
qed

end
