(* ===== verification/X509_Space.thy ===== *)
theory X509_Space
  imports X509_State
begin

text \<open>
  The size of the certificate buffer. The build script computes it from a base and a number of bytes per
  context, both measured on samples; here the lengths of the longest certificate and the longest CSR
  are bounded, octet by octet, and compared with it.
\<close>

section \<open>Tight bounds\<close>

definition at_most :: "nat \<Rightarrow> bytes \<Rightarrow> bool" where
  "at_most n bs \<longleftrightarrow> length bs \<le> n"

named_theorems tight \<open>upper bounds of lengths\<close>

lemma structure_size_mono: "m \<le> n \<Longrightarrow> get_structure_size m True \<le> get_structure_size n True"
  by (simp add: get_structure_size_def get_size_width_def)

lemma at_most_der [tight]: "at_most n c \<Longrightarrow> at_most (get_structure_size n True) (der t c)"
  by (simp add: at_most_def length_der structure_size_mono)

lemma at_most_parts [tight]:
  "at_most 0 []" "at_most m a \<Longrightarrow> at_most n b \<Longrightarrow> at_most (m + n) (a @ b)"
  "at_most n bs \<Longrightarrow> at_most (Suc n) (x # bs)"
  "at_most m a \<Longrightarrow> at_most n b \<Longrightarrow> at_most (max m n) (if c then a else b)"
  "at_most (get_structure_size (length oid) True) (oid_der oid)"
  "at_most 4 (u32_to_be_bytes w)" "at_most 4 (u32_to_le_bytes w)"
  "at_most 3 (crit_der (crit_byte critical))"
  by (auto simp: at_most_def oid_der_def length_der crit_der_def crit_byte_def get_structure_size_def get_size_width_def)

lemma eq_imp_at_most: "length bs = n \<Longrightarrow> at_most n bs"
  by (simp add: at_most_def)

lemma at_most_mono: "at_most m bs \<Longrightarrow> m \<le> n \<Longrightarrow> at_most n bs"
  by (simp add: at_most_def)

lemma at_most_integer [tight]:
  "at_most (get_structure_size (Suc (length bs)) True) (der_integer bs)"
  unfolding der_integer_def by (rule at_most_der) (simp add: at_most_def length_int_content)

lemmas octets = get_structure_size_def get_size_width_def

section \<open>The measurements\<close>

lemma fwid_length: "length d = TCI_SIZE \<Longrightarrow> at_most 63 (fwid_der p d)"
  by (simp add: at_most_def fwid_der_def der_def oid_der_def get_size_width_def)

lemma registers_length:
  assumes "length d = TCI_SIZE"
  shows "at_most 72 (registers_der p d)"
proof -
  have "int_content (u64_to_be_bytes 0) = [0]"
    by (simp add: int_content_def u64_to_be_bytes_def u64_to_le_bytes_def)
  then have zero: "at_most 1 (int_content (u64_to_be_bytes INTEGRITY_REGISTER_NUM))"
    by (simp add: at_most_def INTEGRITY_REGISTER_NUM_def)
  show ?thesis
    unfolding registers_der_def
    by (rule at_most_mono, (rule tight zero fwid_length assms)+) (simp add: octets)
qed

lemma tcb_info_length:
  assumes "tci_wf (tci c)" "svn_len c \<le> 5"
  shows "at_most (154 + svn_len c) (tcb_info_der p r (tci c))"
proof -
  have parts: "at_most 63 (fwid_der p (tci_current (tci c)))" "at_most 72 (registers_der p (tci_cumulative (tci c)))"
    using assms(1) by (simp_all add: fwid_length registers_length tci_wf_def)
  have svn: "at_most (2 + svn_len c) (der 0x83 (int_content (u64_to_be_bytes (ucast (tci_svn (tci c))))))"
    using assms(2) by (simp add: at_most_def length_der svn_len_def octets)
  show ?thesis
    unfolding tcb_info_der_def
    by (rule at_most_mono, (rule svn parts tight)+) (use assms(2) in \<open>simp add: octets\<close>)
qed

lemma nodes_at_most:
  "\<forall>c \<in> set cs. tci_wf (tci c) \<and> svn_len c \<le> k \<Longrightarrow> k \<le> 5 \<Longrightarrow>
     at_most ((154 + k) * length cs) (concat (map (\<lambda>c. tcb_info_der p r (tci c)) cs))"
proof (induction cs)
  case (Cons c cs)
  then have "at_most (154 + svn_len c) (tcb_info_der p r (tci c))" by (intro tcb_info_length) auto
  with Cons show ?case by (auto simp: at_most_def)
qed (simp add: at_most_def)

section \<open>The extensions\<close>

text \<open>A subject alternative name of the sizes the platform interface allows.\<close>

lemma alternative_length:
  assumes "md_wf md"
  shows "at_most (if md_subject_alt_name md = None then 0 else 240) (subject_alt_name_der md)"
proof (cases "md_subject_alt_name md")
  case None
  then show ?thesis by (simp add: subject_alt_name_der_def at_most_def)
next
  case (Some a)
  obtain n where a: "a = SanOtherName n" by (cases a)
  have n: "at_most 68 (oid_der (on_oid n))" "at_most 128 (on_other_name n)"
    using assms Some a by (simp_all add: md_wf_def at_most_def oid_der_def length_der platform_sizes octets)
  have "at_most 240 (subject_alt_name_der md)"
    unfolding subject_alt_name_der_def Some a option.case SubjectAltName.case other_name_der_def ext_der_def crit_der_def
    by (rule at_most_mono, (rule n tight)+) (simp add: octets)
  with Some show ?thesis by simp
qed

lemma extension_parts_length:
  assumes "md_wf md"
  shows "at_most 67 (ueid_der critical md)" "at_most 18 (basic_constraints_der md)" "at_most 16 (key_usage_der ca)"
    "at_most 23 (extended_key_usage_der md)" "at_most 33 (authority_key_id_der md)" "at_most 31 (subject_key_id_der md)"
proof -
  have b: "at_most 48 (md_label md)" "at_most 20 (md_subject_key_identifier md)"
    "at_most 20 (md_authority_key_identifier md)"
    using assms by (simp_all add: md_wf_def at_most_def platform_sizes)
  have e: "crit_der (Some 0xFF) = [1, 1, 0xFF]" "crit_der None = []" by (simp_all add: crit_der_def der_def der_len_def)
  show "at_most 67 (ueid_der critical md)" "at_most 18 (basic_constraints_der md)" "at_most 16 (key_usage_der ca)"
    "at_most 23 (extended_key_usage_der md)" "at_most 33 (authority_key_id_der md)" "at_most 31 (subject_key_id_der md)"
    unfolding ueid_der_def basic_constraints_der_def key_usage_der_def extended_key_usage_der_def
      authority_key_id_der_def subject_key_id_der_def ext_der_def e if_distrib [of oid_der]
    by (rule at_most_mono, (rule b tight)+, simp add: octets)+
qed

lemma structure_size_le: "n < 65536 \<Longrightarrow> get_structure_size n True \<le> n + 4"
  by (simp add: octets)

text \<open>The length fields that state counted lengths take at most three bytes, as the counts are small.\<close>

lemma at_most_tlv: "at_most n c \<Longrightarrow> m < 65536 \<Longrightarrow> at_most (n + 4) (tlv t m c)"
  by (simp add: at_most_def tlv_def get_size_width_def)

lemma extension_size_le: "n < 60000 \<Longrightarrow> get_extension_size MULTI_TCBINFO_OID crit (get_structure_size n True) True < n + 30"
  by (simp add: get_extension_size_def octets MULTI_TCBINFO_OID_def BOOL_SIZE_def)

lemma multi_length:
  assumes "\<forall>c \<in> set cs. tci_wf (tci c) \<and> svn_len c \<le> k" "length cs \<le> 64" "k \<le> 5"
    and count: "counted_infos p md cs < 12000"
  shows "at_most (9879 + 64 * k) (multi_tcb_info_written p critical md cs)"
proof -
  have nodes: "at_most (9856 + 64 * k) (tcb_infos p (md_supports_recursive md) cs)"
    by (rule at_most_mono [OF nodes_at_most [OF assms(1,3)]])
      (use mult_le_mono2 [OF assms(2), of "154 + k"] in \<open>simp add: algebra_simps\<close>)
  have header: "at_most 23 (multi_header critical n)" if "n < 12000" for n
    using that by (simp add: at_most_def multi_header_def Let_def size_simps MULTI_TCBINFO_OID_def octets
        get_extension_size_def crit_der_def crit_byte_def BOOL_SIZE_def der_def)
  show ?thesis
    unfolding multi_tcb_info_written_def
    by (rule at_most_mono, (rule nodes header count tight)+) simp
qed

abbreviation others_size :: "MeasurementData \<Rightarrow> bool \<Rightarrow> nat" where
  "others_size md is_x509 \<equiv> 124 + (if is_x509 then 64 else 0) + (if md_subject_alt_name md = None then 0 else 240)"

lemma other_extensions_length:
  assumes md: "md_wf md"
  shows "at_most (others_size md is_x509) (other_extensions critical md is_x509)"
  unfolding other_extensions_def
  by (cases is_x509; simp only: simp_thms if_True if_False;
      rule at_most_mono, (rule extension_parts_length [OF md] alternative_length [OF md] tight)+, simp)

lemma counted_extensions_le:
  assumes "md_wf md" "counted_infos p md cs < 12000"
  shows "counted_extensions p critical md is_x509 cs < 13000"
  using other_extensions_length [OF assms(1), of is_x509 critical]
    extension_size_le [of "counted_infos p md cs" critical] assms(2)
  by (auto simp: counted_extensions_def at_most_def split: if_splits)

lemma extensions_length:
  assumes cs: "\<forall>c \<in> set cs. tci_wf (tci c) \<and> svn_len c \<le> k" "length cs \<le> 64" "k \<le> 5"
    and count: "counted_infos p md cs < 12000" and md: "md_wf md"
  shows "at_most (10011 + 64 * k + 64 + (if md_subject_alt_name md = None then 0 else 240))
      (extensions_written p critical md True cs)"
    and "at_most (10030 + 64 * k + (if md_subject_alt_name md = None then 0 else 240))
      (attributes_written p critical md cs)"
proof -
  have n: "get_structure_size (counted_extensions p critical md x cs) True < 14000"
    "counted_extensions p critical md x cs < 65536" for x
    using counted_extensions_le [OF md count, of critical x] by (simp_all add: octets)
  have list: "at_most (9879 + 64 * k + others_size md x + 4) (tlv 0x30 (counted_extensions p critical md x cs)
      (multi_tcb_info_written p critical md cs @ other_extensions critical md x))" for x
    by (rule at_most_tlv, (rule multi_length [OF cs count] other_extensions_length [OF md] tight)+) (rule n)
  have ext: "at_most (9879 + 64 * k + others_size md False + 4) (extensions_written p critical md False cs)"
    using list [of False] by (simp add: extensions_written_def Let_def)
  have "at_most (9879 + 64 * k + others_size md True + 4 + 4) (extensions_written p critical md True cs)"
    using at_most_tlv [OF list [of True], of "get_structure_size (counted_extensions p critical md True cs) True" "0xA3"]
      n(1) [of True] by (simp add: extensions_written_def Let_def)
  then show "at_most (10011 + 64 * k + 64 + (if md_subject_alt_name md = None then 0 else 240))
      (extensions_written p critical md True cs)" by (rule at_most_mono) simp
  have oid: "length (oid_der EXTENSION_REQUEST_OID) = 11"
    by (simp add: oid_der_def EXTENSION_REQUEST_OID_def length_der octets)
  let ?n = "get_structure_size (counted_extensions p critical md False cs) True"
  have m: "?n < 65536" "get_structure_size (length (oid_der EXTENSION_REQUEST_OID) + get_structure_size ?n True) True < 65536"
    "length (oid_der EXTENSION_REQUEST_OID) + get_structure_size ?n True < 65536"
    using n(1) [of False] by (simp_all add: oid octets [of ?n] get_structure_size_def [of "_ + _"] get_size_width_def)
  have "at_most (11 + (9879 + 64 * k + others_size md False + 4 + 4) + 4 + 4) (attributes_written p critical md cs)"
    unfolding attributes_written_def Let_def
    by (rule at_most_tlv at_most_parts(2) ext m eq_imp_at_most [OF oid])+
  then show "at_most (10030 + 64 * k + (if md_subject_alt_name md = None then 0 else 240))
      (attributes_written p critical md cs)" by (rule at_most_mono) simp
qed

section \<open>Names, keys and signatures\<close>

lemma rdn_length:
  assumes "name_wf name" "directory_string_len (name_cn name) \<le> 16"
  shows "at_most 106 (rdn_der name)"
proof -
  have s: "at_most (get_structure_size (directory_string_len d) True) (directory_string_der d)" for d
    by (cases d) (simp_all add: at_most_def length_der directory_string_len_def)
  have cn: "at_most 18 (directory_string_der (name_cn name))"
    by (rule at_most_mono [OF s]) (use assms(2) in \<open>simp add: octets\<close>)
  have serial: "at_most 66 (directory_string_der (name_serial name))"
    by (rule at_most_mono [OF s]) (use assms(1) in \<open>simp add: name_wf_def octets\<close>)
  show ?thesis
    unfolding rdn_der_def attribute_der_def
    by (rule at_most_mono, (rule cn serial tight)+) (simp add: octets)
qed

lemma sig_alg_length: "at_most 13 (sig_alg_der p)"
  by (cases p) (simp_all add: at_most_def sig_alg_der_def oid_der_def length_der length_sig_oid octets)

lemma pub_key_length:
  assumes "pub_key_wf pk"
  shows "at_most 2614 (pub_key_der p pk)"
proof (cases pk)
  case (PubEcdsa k)
  have k: "at_most 48 (pub_x k)" "at_most 48 (pub_y k)" "at_most 10 (oid_der (curve_oid k))"
    using assms PubEcdsa by (cases k; simp add: at_most_def oid_der_def length_der octets)+
  show ?thesis unfolding PubEcdsa pub_key_der.simps ec_pub_alg_der_def
    by (rule at_most_mono, (rule k tight)+) (simp add: octets)
next
  case (PubMldsa b)
  have b: "at_most 2592 b" using assms PubMldsa by (simp add: at_most_def)
  show ?thesis unfolding PubMldsa pub_key_der.simps
    by (rule at_most_mono, (rule b sig_alg_length tight)+) (simp add: octets)
qed

lemma signature_length:
  assumes "signature_wf s"
  shows "at_most 4632 (signature_bits_der s)" "at_most 4631 (signature_octets_der s)"
proof -
  have sig: "at_most 104 (ecdsa_sig_der e)" if "s = SigEcdsa e" for e
  proof -
    have rs: "length (sig_r e) \<le> 48" "length (sig_s e) \<le> 48" using assms that by (cases e; simp)+
    have i: "at_most 51 (der_integer bs)" if "length bs \<le> 48" for bs
      by (rule at_most_mono [OF at_most_integer]) (use that in \<open>simp add: octets\<close>)
    show ?thesis unfolding ecdsa_sig_der_def
      by (rule at_most_mono, (rule i rs tight)+) (simp add: octets)
  qed
  have raw: "at_most 4627 b" if "s = SigMldsa b" for b using assms that by (simp add: at_most_def)
  show "at_most 4632 (signature_bits_der s)" "at_most 4631 (signature_octets_der s)"
    by (cases s; simp only: signature_bits_der.simps signature_octets_der.simps;
        rule at_most_mono, (rule sig raw tight | assumption)+, simp add: octets)+
qed

section \<open>The longest certificate and the longest CSR\<close>

lemma version_lengths: "at_most 3 (der_integer (u64_to_be_bytes CSR_V0))" "at_most 3 (cms_version_der sid)"
  "at_most 5 version_der"
proof -
  have "length (int_content (u64_to_be_bytes 0)) = 1" "length (int_content (u64_to_be_bytes 1)) = 1"
    "length (int_content (u64_to_be_bytes 2)) = 1" "length (int_content (u64_to_be_bytes 3)) = 1"
    by code_simp+
  then have small: "length (int_content (u64_to_be_bytes v)) = 1" if "v \<in> {0, 1, 2, 3}" for v
    using that by auto
  then have i: "at_most 3 (der_integer (u64_to_be_bytes v))" if "v \<in> {0, 1, 2, 3}" for v
    using that by (simp add: at_most_def der_integer_def length_der octets)
  show "at_most 3 (der_integer (u64_to_be_bytes CSR_V0))" by (rule i) (simp add: CSR_V0_def)
  show "at_most 3 (cms_version_der sid)"
    unfolding cms_version_der_def by (rule i) (simp add: CMS_V1_def CMS_V3_def split: SignerIdentifier.split)
  show "at_most 5 version_der"
    unfolding version_der_def by (rule at_most_mono, (rule i tight)+) (simp_all add: X509_V3_def octets)
qed

lemma certificate_length:
  assumes cs: "\<forall>c \<in> set cs. tci_wf (tci c) \<and> svn_len c \<le> 5" "length cs \<le> 64" "counted_infos p md cs < 12000"
    and wf: "md_wf md" "name_wf name" "directory_string_len (name_cn name) \<le> 16" "pub_key_wf pk"
    and sizes: "length sn = 20" "length issuer \<le> MAX_ISSUER_NAME_SIZE"
      "length (not_before v) \<le> MAX_VALIDITY_SIZE" "length (not_after v) \<le> MAX_VALIDITY_SIZE"
  shows "length (tbs_der p critical sn issuer name pk md v cs) \<le> 13600"
    and "signature_wf s \<Longrightarrow> length (signed_der p (tbs_der p critical sn issuer name pk md v cs) s) \<le> 18300"
proof -
  have b: "at_most 128 issuer" "at_most 24 (not_before v)" "at_most 24 (not_after v)" "at_most 23 (der_integer sn)"
    using sizes at_most_integer [of sn] by (simp_all add: at_most_def octets platform_sizes)
  have e: "at_most 10635 (extensions_written p critical md True cs)"
    by (rule at_most_mono [OF extensions_length(1) [OF cs(1,2) _ cs(3) wf(1)]]) auto
  have tbs: "at_most 13600 (tbs_der p critical sn issuer name pk md v cs)"
    unfolding tbs_der_def tbs_body_def validity_der_def
    by (rule at_most_mono, (rule b e version_lengths sig_alg_length rdn_length wf pub_key_length tight)+) (simp add: octets)
  then show "length (tbs_der p critical sn issuer name pk md v cs) \<le> 13600" by (simp add: at_most_def)
  assume s: "signature_wf s"
  have "at_most 18300 (signed_der p (tbs_der p critical sn issuer name pk md v cs) s)"
    unfolding signed_der_def
    by (rule at_most_mono, (rule tbs sig_alg_length signature_length s tight)+) (simp add: octets)
  then show "length (signed_der p (tbs_der p critical sn issuer name pk md v cs) s) \<le> 18300"
    by (simp add: at_most_def)
qed

text \<open>
  The CSR is the longer one, with two signatures: it fits when the SVNs take at most two octets, there is no
  subject alternative name and the signer identifier has at most 154 octets, the size that an issuer name
  and a serial number of the greatest sizes make.
\<close>

lemma csr_length:
  assumes cs: "\<forall>c \<in> set cs. tci_wf (tci c) \<and> svn_len c \<le> 2" "length cs \<le> 64" "counted_infos p md cs < 12000"
    and wf: "md_wf md" "name_wf name" "directory_string_len (name_cn name) \<le> 16" "pub_key_wf pk"
    and sid: "md_subject_alt_name md = None" "length (signer_identifier_der sid) \<le> 154"
  shows "length (request_info_der p critical pk name md cs) \<le> 12885" "length (cms_head p sid) \<le> 18"
    and "signature_wf s \<Longrightarrow> length (signed_der p (request_info_der p critical pk name md cs) s) \<le> 17534"
    and "signature_wf s \<Longrightarrow> signature_wf s2 \<Longrightarrow>
      length (cms_der p sid (signed_der p (request_info_der p critical pk name md cs) s) s2) \<le> MAX_CERT_SIZE"
proof -
  have e: "at_most 10158 (attributes_written p critical md cs)"
    by (rule at_most_mono [OF extensions_length(2) [OF cs(1,2) _ cs(3) wf(1)]]) (simp_all add: sid)
  have cri: "at_most 12885 (request_info_der p critical pk name md cs)"
    unfolding request_info_der_def request_body_def
    by (rule at_most_mono, (rule e version_lengths rdn_length wf pub_key_length tight)+) (simp add: octets)
  have head: "at_most 18 (cms_head p sid)" and hash: "at_most 13 (hash_alg_der p)"
    using version_lengths(2) [of sid] length_hash_alg [of p] by (simp_all add: at_most_def cms_head_def length_der octets)
  show "length (request_info_der p critical pk name md cs) \<le> 12885" "length (cms_head p sid) \<le> 18"
    using cri head by (simp_all add: at_most_def)
  have csr: "at_most 17534 (signed_der p (request_info_der p critical pk name md cs) s)" if "signature_wf s" for s
    unfolding signed_der_def
    by (rule at_most_mono, (rule cri sig_alg_length signature_length that tight)+) (simp add: octets)
  then show "length (signed_der p (request_info_der p critical pk name md cs) s) \<le> 17534" if "signature_wf s"
    using that by (simp add: at_most_def)
  assume s: "signature_wf s" "signature_wf s2"
  have id: "at_most 154 (signer_identifier_der sid)" using sid(2) by (simp add: at_most_def)
  have "at_most 22420 (cms_der p sid (signed_der p (request_info_der p critical pk name md cs) s) s2)"
    unfolding cms_der_body cms_body_def encap_der_def signer_info_der_def
    by (rule at_most_mono, (rule csr head hash id version_lengths sig_alg_length signature_length s tight)+)
      (simp add: octets)
  then show "length (cms_der p sid (signed_der p (request_info_der p critical pk name md cs) s) s2) \<le> MAX_CERT_SIZE"
    by (simp add: at_most_def MAX_CERT_SIZE_eq)
qed

section \<open>Runs of the encoder\<close>

text \<open>What a certificate or a CSR asks of the platform and of the path, in order to fit.\<close>

definition room_for :: "State \<Rightarrow> nat list \<Rightarrow> MeasurementData \<Rightarrow> CertOrCsrArgs \<Rightarrow> bool" where
  "room_for st is md fmt \<longleftrightarrow> (case fmt of
       CertArgs issuer v \<Rightarrow> length issuer \<le> MAX_ISSUER_NAME_SIZE \<and>
         length (not_before v) \<le> MAX_VALIDITY_SIZE \<and> length (not_after v) \<le> MAX_VALIDITY_SIZE
     | CsrArgs sid \<Rightarrow> md_subject_alt_name md = None \<and> length (signer_identifier_der sid) \<le> 154 \<and>
         (\<forall>i \<in> set is. svn_len (contexts st ! i) \<le> 2))"

lemma answered_fits:
  assumes "answered answer r P" "\<And>s c'. answer = (Ok s, c') \<Longrightarrow> signature_wf s"
    and "\<And>s c'. signature_wf s \<Longrightarrow> P s c' \<Longrightarrow> r \<noteq> Err (InternalError e)"
  shows "r \<noteq> Err (InternalError e)"
  using assms by (cases answer; cases "fst answer") (auto simp: answered_def)

lemma counted_infos_le:
  assumes "state_inv st" "up_path (contexts st) is" "state_nodes st (hd is) md"
  shows "counted_infos p md (path_contexts st is) < 12000"
proof -
  have len: "length (contexts st) = 64" by (rule forest_length [OF state_inv_forest [OF assms(1)]])
  have "counted_infos p md (path_contexts st is) \<le> 159 * 64"
    unfolding counted_infos_value [OF assms(1,3)] using up_path_length [OF assms(2)] len svn_len_le [of "contexts st ! 0"] by (intro mult_le_mono) auto
  then show ?thesis by simp
qed

theorem encoder_has_room:
  fixes cb :: "'c sign_cb"
  assumes inp: "cert_inputs st is md name pk" and cn: "directory_string_len (name_cn name) \<le> 16"
    and room: "room_for st is md fmt"
    and buf: "base + MAX_CERT_SIZE \<le> length buf" "length buf \<le> USIZE_MAX"
    and typed: "\<And>rd a z f sig c s c'. cb rd a z f sig c = (Ok s, c') \<Longrightarrow> signature_wf s"
  shows "fst (generate_cert_or_csr fmt p critical name pk md cb base sig (c, buf)) \<noteq>
    Err (InternalError CertSizeOverflow)"
proof -
  note facts = cert_inputs_facts [OF inp]
  have wf: "md_wf md" "name_wf name" "pub_key_wf pk" using inp by (simp_all add: cert_inputs_def)
  let ?cs = "path_contexts st is"
  note b = buf(1) [unfolded MAX_CERT_SIZE_eq]
  have "state_inv st" "up_path (contexts st) is" "state_nodes st (hd is) md" using inp by (simp_all add: cert_inputs_def)
  note count = counted_infos_le [OF this, of p]
  show ?thesis
  proof (cases fmt)
    case (CertArgs issuer v)
    have sizes: "length issuer \<le> MAX_ISSUER_NAME_SIZE" "length (not_before v) \<le> MAX_VALIDITY_SIZE"
      "length (not_after v) \<le> MAX_VALIDITY_SIZE" using room by (simp_all add: room_for_def CertArgs)
    have cs: "\<forall>c \<in> set ?cs. tci_wf (tci c) \<and> svn_len c \<le> 5" using facts(3) svn_len_le by blast
    note len = certificate_length [OF cs facts(4) count wf(1,2) cn wf(3) serial_number(2) [OF wf(2)] sizes,
        where critical = critical, folded cert_tbs_def]
    let ?tbs = "cert_tbs st is p critical issuer name pk md v"
    have "\<not> length buf < base + 4 + length ?tbs" using len(1) b by simp
    with generate_certificate [OF inp sizes buf(2), where p = p and crit = critical and cb = cb and base = base and
        sig = sig and c = c]
    obtain rd where run: "answered (cb rd 4 (4 + length ?tbs) False sig c)
        (fst (generate_cert_or_csr (CertArgs issuer v) p critical name pk md cb base sig (c, buf)))
        (\<lambda>s c'. let cert = signed_der p ?tbs s
          in if base + length cert \<le> length buf
             then generate_cert_or_csr (CertArgs issuer v) p critical name pk md cb base sig (c, buf) =
               (Ok (of_nat (length cert)), (c', splice buf base cert))
             else fst (generate_cert_or_csr (CertArgs issuer v) p critical name pk md cb base sig (c, buf)) =
               Err (InternalError CertSizeOverflow))"
      by (simp only: if_False) blast
    show ?thesis unfolding CertArgs
    proof (rule answered_fits [OF run typed], goal_cases)
      case (2 s c')
      with len(2) [of s] b show ?case by (simp add: Let_def)
    qed
  next
    case (CsrArgs sid)
    have sid: "md_subject_alt_name md = None" "length (signer_identifier_der sid) \<le> 154"
      and cs: "\<forall>c \<in> set ?cs. tci_wf (tci c) \<and> svn_len c \<le> 2"
      using room facts(3) by (auto simp: room_for_def CsrArgs path_contexts_def)
    let ?cri = "request_info_der p critical pk name md ?cs" and ?n = "base + length (cms_head p sid)"
    let ?run = "generate_cert_or_csr (CsrArgs sid) p critical name pk md cb base sig (c, buf)"
    note csr_facts = csr_length [OF cs facts(4) count wf(1,2) cn wf(3) sid]
    note len = csr_facts(1) [where critical = critical] csr_facts(2)
      csr_facts(3,4) [where critical = critical]
    have "\<not> length buf < ?n + 50 + length ?cri" using len(1,2) b by simp
    with generate_csr [OF inp _ buf(2), where p = p and crit = critical and cb = cb and base = base and sig = sig
        and c = c and sid = sid] sid(2)
    obtain rd a where run: "answered (cb rd a (a + length ?cri) True sig c) (fst ?run) (\<lambda>s c1.
        let csr = signed_der p ?cri s
        in if length buf < ?n + 46 + length csr then fst ?run = Err (InternalError CertSizeOverflow)
           else \<exists>rd a. rd a (a + length csr) = Ok csr \<and>
             answered (cb rd a (a + length csr) False (signature_zeroize s) c1) (fst ?run) (\<lambda>s2 c2.
               let cms = cms_der p sid csr s2
               in if base + length cms \<le> length buf
                  then ?run = (Ok (of_nat (length cms)), (c2, splice buf base cms))
                  else fst ?run = Err (InternalError CertSizeOverflow)))"
      by (simp only: if_False) fastforce
    show ?thesis unfolding CsrArgs
    proof (rule answered_fits [OF run typed], goal_cases)
      case (2 s c1)
      let ?csr = "signed_der p ?cri s"
      have "\<not> length buf < ?n + 46 + length ?csr" using len(2) len(3) [OF 2(1)] b by simp
      with 2(2) obtain rd a where next_run: "answered (cb rd a (a + length ?csr) False (signature_zeroize s) c1)
          (fst ?run) (\<lambda>s2 c2.
               let cms = cms_der p sid ?csr s2
               in if base + length cms \<le> length buf
                  then ?run = (Ok (of_nat (length cms)), (c2, splice buf base cms))
                  else fst ?run = Err (InternalError CertSizeOverflow))"
        by (auto simp: Let_def)
      show ?case
      proof (rule answered_fits [OF next_run typed], goal_cases)
        case (2 s2 c2)
        with len(4) [OF \<open>signature_wf s\<close> 2(1)] buf(1) show ?case by (simp add: Let_def)
      qed
    qed
  qed
qed

end
