(* ===== verification/Demo_Answers.thy ===== *)
theory Demo_Answers
  imports Demo_Certified Sample_Cert Report X509_Space
begin

text \<open>
  A random generator that hands out one handle for ever, and the tree of \<open>Demo\<close> after a rotation that gave
  its root a handle of its own.
\<close>

definition stale_algs :: "nat algs" where
  "stale_algs = demo_algs\<lparr>x_fill_bytes := (\<lambda>n r. (\<lambda>i. 9, r))\<rparr>"

definition named_tree :: State where
  "named_tree = put_context 0 ((contexts demo_tree ! 0)\<lparr>handle := replicate 16 2\<rparr>) demo_tree"

definition demo_update :: UpdateContextMeasurementCmd where
  "demo_update = \<lparr>u_parent_handle = replicate 16 2, u_data = demo_data, u_reserved = 0, u_tci_type = 7,
     u_reserved_svn = 0\<rparr>"

text \<open>RotateContextHandle on an instance without contexts.\<close>

definition rotate_bytes :: bytes where
  "rotate_bytes = command_hdr_bytes (CommandHdr_new P384Sha384 ROTATE_CONTEXT_HANDLE) @ command_bytes demo_rotate"

lemma rotate_answer:
  "execute_serialized_command gen (rust_default demo_algs cfg art pf) P384Sha384 True 0 rotate_bytes (demo_world demo_start) =
    (Ok (RespError \<lparr>rh_magic = DPE_RESPONSE_MAGIC, rh_status = get_error_code InvalidLocality,
       rh_profile = P384Sha384\<rparr>), demo_world demo_start)"
  unfolding rotate_bytes_def
  by (simp add: execute_serialized_command_eq [OF demo_rotate_request] demo_rotate_execute ResponseHdr_new_def)

lemma named_contexts:
  "contexts named_tree = (contexts demo_tree)[0 := (contexts demo_tree ! 0)\<lparr>handle := replicate 16 2\<rparr>]"
  "length (contexts named_tree) = 64"
  by (simp_all add: named_tree_def demo_tree_contexts)

lemma named_root:
  "get_active_context_pos named_tree (replicate 16 2) 0 = Ok 0"
  "fresh_handle named_tree (replicate 16 9)"
  "find_child named_tree (children (contexts named_tree ! 0)) 7 = Some 1"
  "handle (contexts named_tree ! 1) = demo_handle" "state (contexts named_tree ! 1) = Active"
  "length (tci_cumulative (tci (contexts named_tree ! 1))) = 48"
proof -
  have "active_at named_tree (replicate 16 2) 0 0"
    by (simp add: active_at_def named_contexts demo_tree_contexts init_args_def)
  then show "get_active_context_pos named_tree (replicate 16 2) 0 = Ok 0"
    using get_active_context_pos_ex by fastforce
  show "handle (contexts named_tree ! 1) = demo_handle" "state (contexts named_tree ! 1) = Active"
    "length (tci_cumulative (tci (contexts named_tree ! 1))) = 48"
    by (simp_all add: named_contexts demo_tree_contexts demo_child_with_def child_args_def Let_def)
  have "handle c \<noteq> replicate 16 9" if "c \<in> set (contexts named_tree)" for c
    using that
    by (auto simp: named_contexts demo_tree_contexts demo_root_def demo_start_def State_new_def Context_new_def
        init_args_def demo_child_with_def child_args_def Let_def demo_handle_def handle_default_def handle_invalid_def HANDLE_SIZE_def
        replicate_eq_replicate dest!: set_update_subset_insert [THEN subsetD])
  then show "fresh_handle named_tree (replicate 16 9)"
    by (simp add: fresh_handle_def handle_default_def HANDLE_SIZE_def replicate_eq_replicate)
  show "find_child named_tree (children (contexts named_tree ! 0)) 7 = Some 1"
  proof -
    have "bit (2 :: Children) i \<longleftrightarrow> i = 1" for i using bit_exp_iff [of 1 i, where 'a = "64 word"] by auto
    then have kids: "kids 2 = {1}" by (auto simp: kids_def)
    have "[0..<64] = 0 # 1 # [2..<64 :: nat]" by (simp add: upt_conv_Cons)
    then have "children_iter 2 = [1]" using kids by (auto simp: children_iter_eq filter_empty_conv)
    then show ?thesis
      by (simp add: find_child_def named_contexts demo_tree_contexts get_at_def demo_child_with_def demo_derive_with_def)
  qed
qed

text \<open>GetProfile on the same instance.\<close>

definition profile_bytes :: bytes where
  "profile_bytes = command_hdr_bytes (CommandHdr_new P384Sha384 GET_PROFILE)"

lemma profile_decodes: "deserialize True P384Sha384 profile_bytes = Ok GetProfile"
  using deserialize_bytes [of P384Sha384 GetProfile "[]"] by (simp add: profile_bytes_def)

lemma profile_answer:
  "\<exists>resp w'. execute_serialized_command gen (rust_default demo_algs cfg art pf) P384Sha384 True 0 profile_bytes
     (demo_world demo_start) = (Ok (RespGetProfile resp), w')"
proof -
  let ?r = "GetProfileResp_new P384Sha384 (support demo_start) VENDOR_ID VENDOR_SKU"
  have "read_exact (reading read_get_profile_resp RespGetProfile) (get_profile_resp_bytes ?r) = Some (RespGetProfile ?r)"
    using get_profile_resp.read_write [of ?r "[]"] by (simp add: read_exact_def reading_def then_read_def read_done_def)
  moreover have "execute_serialized gen (rust_default demo_algs cfg art pf) P384Sha384 GetProfile 0
      ((demo_world demo_start)\<lparr>outbuf := replicate 32 0\<rparr>) =
    (Ok 32, (demo_world demo_start)\<lparr>outbuf := get_profile_resp_bytes ?r\<rparr>)"
    by (simp add: get_profile_cmd_def get_profile_def write_response_def write_out_def rust_default_def
        default_platform_def on_platform_def get_profile_resp.length_write demo_world_def bind_def gets_def ret_def
        slice_write_at_def splice_def checked_add_def get_range_def
        USIZE_MAX_def)
  ultimately show ?thesis
    by (simp add: execute_serialized_command_eq [OF profile_decodes] execute_def with_buffer_def bind_def lift_def
        ok_or_def del: execute_serialized.simps)
qed
text \<open>A simulator with two connections: a request, and a peer that hangs up without sending one.\<close>

definition sim_demo_args :: sim_args where
  "sim_demo_args = \<lparr>supports_simulation = False, supports_recursive = True, supports_auto_init = True,
     supports_rotate_context = True, supports_x509 = True, supports_csr = True, supports_internal_info = True,
     supports_internal_dice = True, supports_retain_parent_context = True, supports_cdi_export = True,
     mark_dice_extensions_critical = False\<rparr>"

definition sim_demo_connections :: "connection list" where
  "sim_demo_connections =
     [Opened \<lparr>st_sent = Some (replicate 4 0 @ rotate_bytes), st_takes_reply = True\<rparr>,
      Opened \<lparr>st_sent = Some [], st_takes_reply = True\<rparr>, NotOpened]"

lemma sim_demo_served:
  "dropWhile (served P384Sha384 True) sim_demo_connections = tl sim_demo_connections"
  "takeWhile (served P384Sha384 True) sim_demo_connections = [hd sim_demo_connections]"
  "tl sim_demo_connections = Opened \<lparr>st_sent = Some [], st_takes_reply = True\<rparr> # [NotOpened]"
proof -
  have "length rotate_bytes \<le> 4092" by (simp add: rotate_bytes_def demo_rotate_def handle_default_def
      rotate_cmd_bytes_def command_hdr_bytes_def HANDLE_SIZE_def)
  then have "drop 4 (take 4096 (replicate 4 0 @ rotate_bytes)) = rotate_bytes" by simp
  then have "served P384Sha384 True (hd sim_demo_connections)"
    using demo_rotate_request by (simp add: served_def sim_demo_connections_def rotate_bytes_def)
  moreover have "\<not> served P384Sha384 True (Opened \<lparr>st_sent = Some [], st_takes_reply = True\<rparr>)"
    by (simp add: served_def)
  ultimately show "dropWhile (served P384Sha384 True) sim_demo_connections = tl sim_demo_connections"
    "takeWhile (served P384Sha384 True) sim_demo_connections = [hd sim_demo_connections]"
    by (simp_all add: sim_demo_connections_def)
  show "tl sim_demo_connections = Opened \<lparr>st_sent = Some [], st_takes_reply = True\<rparr> # [NotOpened]"
    by (simp add: sim_demo_connections_def)
qed

section \<open>The firmware of the panic check\<close>

definition firmware_demo :: "(unit, unit) world" where
  "firmware_demo = \<lparr>crypto = (), platform = (), dstate = demo_tree, outbuf = []\<rparr>"

section \<open>A report\<close>

text \<open>
  Libraries for the report: hexadecimal text is written with the digits, and nothing is decoded. The certificate
  has one context, of a given TCI type.
\<close>

definition hex_digit :: "u8 \<Rightarrow> char" where
  "hex_digit d = ''0123456789abcdef'' ! unat (d AND 0x0F)"

definition demo_lib :: "(unit, unit, unit) report_lib" where
  "demo_lib = \<lparr>hex_encode = \<lambda>bs. concat (map (\<lambda>b. [hex_digit (drop_bit 4 b), hex_digit b]) bs),
     oid_text = \<lambda>_. [], bits_text = \<lambda>_. [], asn1_error_text = \<lambda>_. [],
     asn1_tcb_info = \<lambda>_. Inl (), asn1_legacy_tcb_info = \<lambda>_. Inl (), asn1_tcb_infos = \<lambda>_. Inl (),
     asn1_legacy_tcb_infos = \<lambda>_. Inl (), asn1_octets = \<lambda>_. Inl (), asn1_ueid = \<lambda>_. Inl (),
     cms_content_info = \<lambda>_. None, cms_signed_data = \<lambda>_. None, pem_parse = \<lambda>_. None,
     x509_from_der = \<lambda>_. None, csr_from_der = \<lambda>_. None\<rparr>"

lemma digits_no_quote: "CHR 0x22 \<notin> set ''0123456789abcdef''"
  by simp

lemma demo_lib_hex: "CHR 0x22 \<notin> set (hex_encode demo_lib bs)"
proof -
  have "hex_digit d \<in> set ''0123456789abcdef''" for d
  proof -
    have "unat (d AND 0x0F) < 16"
      using word_and_le1 [of d "0x0F"] by (simp add: word_le_nat_alt)
    moreover have "length ''0123456789abcdef'' = (16 :: nat)" by simp
    ultimately show ?thesis unfolding hex_digit_def by (intro nth_mem) (simp only:)
  qed
  then have "CHR 0x22 \<noteq> hex_digit d" for d by (metis (no_types) digits_no_quote)
  then show ?thesis by (auto simp: demo_lib_def)
qed

definition demo_parsed :: "bytes \<Rightarrow> ParsedCert" where
  "demo_parsed ty = \<lparr>is_csr = False, subject_text = ''CN=DPE'', issuer_text = ''CN=Alias'', serial_text = ''01'',
     signature_text = [], valid_from = [], valid_to = [], public_key_info = [], profile_name = [], cert_ueid = None,
     cert_tcb_infos = [\<lparr>p_vendor = None, p_model = None, p_version = None, p_svn = Some 1, p_layer = None,
       p_index = None, p_fwids = [], p_flags = None, p_vendor_info = None, p_tci_type = Some ty,
       p_operational_flags_mask = None, p_integrity_registers = []\<rparr>],
     cert_extensions = []\<rparr>"

end
