(* ===== verification/Spec2Isabelle.thy ===== *)
theory Spec2Isabelle
  imports Demo_Answers
begin

text \<open>
  A model of Caliptra DPE, the DICE Protection Environment of the Caliptra root of trust: a service
  that keeps a tree of measurement contexts and, from the measurements on the path to a context,
  derives keys, certifies them and signs. The sources are under src/dpe, src/crypto, src/platform and
  src/response-buffer; src/simulator serves it on a socket, and the tools of src/tools measure, print and
  explain its certificates.

  How the program works. A client sends a command (\<open>Commands\<close>: commands/mod.rs and the command files)
  from a locality. The instance (\<open>Dispatch\<close>: dpe_instance.rs, commands/mod.rs) decodes it, runs the
  command's handler on the state, the crypto library and the platform, and answers with a response
  (\<open>Responses\<close>: response.rs). The state (\<open>DpeState\<close>: state.rs) is an array of 64 contexts (\<open>Context\<close>:
  context.rs, tci.rs), linked by parent indices and child bitmaps into a forest. The validator
  (\<open>Validation\<close>: validation.rs) checks a state as a whole.

  The theories, from the leaves:
  \<^item> \<open>Prelude\<close>: outcomes (\<open>Ok\<close>, \<open>Err\<close>, \<open>Panic\<close>, \<open>Diverge\<close>), state-passing actions, byte conversions.
  \<^item> \<open>Errors\<close> (error.rs, the errors of the other crates), \<open>Profile\<close> (lib.rs, support.rs, build.rs),
    \<open>Context\<close>, \<open>DpeState\<close>, \<open>ResponseBuf\<close> (response-buffer/src/lib.rs), \<open>Crypto\<close> (crypto/src/lib.rs),
    \<open>Platform\<close> (platform/src): data and operations of these files.
  \<^item> \<open>Wire\<close>, \<open>Responses\<close>, \<open>Commands\<close>: the layout of structures and the decoding of requests.
  \<^item> \<open>Instance\<close>: handles, measurements and the measurement hash (dpe_instance.rs).
  \<^item> \<open>Cmd_Simple\<close>, \<open>CertCreate\<close>, \<open>Cmd_Derive\<close>, \<open>Cmd_Keys\<close>: the handlers; \<open>Dispatch\<close>: a whole request.
  \<^item> \<open>RustCrypto\<close>: the software crypto (rustcrypto.rs, hkdf.rs).
  \<^item> \<open>State_Logic\<close>: the program logic \<open>sp\<close> for the effect of a handler on the state; \<open>Forest\<close>,
    \<open>Destroy\<close>: what keeps the links a forest; \<open>Transitions\<close>: the step relation of the state and the
    proof that every command is a sequence of steps; \<open>Invariants\<close>, \<open>Localities\<close>: what the steps
    preserve; \<open>Behaviour\<close>: failing and unauthorized commands; \<open>Measurement\<close>: the value of the
    measurement hash; \<open>Service\<close>: sequences of requests.
  \<^item> \<open>X509_Sizes\<close>, \<open>X509_Writer\<close>, \<open>X509_Sign\<close>: the encoder of certificates, CSRs and CMS messages (x509.rs):
    the sizes it computes beforehand, the writer with the length fields it fills in later, and what it
    signs. \<open>Der\<close> specifies DER by a writer and a reader that reads back what is written.
  \<^item> \<open>X509_Logic\<close>: the calculus \<open>writes\<close>, which tells the bytes an encoder writes, and the rules for
    length fields written last; \<open>X509_Der\<close>: the DER of every structure and the bytes its encoder writes, which
    for the extensions have the lengths counted beforehand (\<open>extensions_written\<close>, \<open>attributes_written\<close>);
    \<open>X509_Cert\<close>, \<open>X509_Cms\<close>: runs with the sign callback in between; \<open>X509_State\<close>: certificates
    and CMS messages of a state, and the condition \<open>svns_add_up\<close>; \<open>X509_Content\<close>: that the extensions written
    are DER exactly under this condition; \<open>X509_Read\<close>: what the bytes tell a reader.
  \<^item> \<open>X509_Space\<close>: bounds for the length of every structure, and that the buffer whose size the build
    computes takes every certificate.
  \<^item> \<open>Calm\<close>: actions that always answer, \<open>steady\<close> ones that keep a property of the state as well, with the
    encoder of certificates as a first client; \<open>No_Panic\<close>:
    no request panics or runs on, given what the crypto and the platform promise; \<open>Panic_Check\<close>: the
    implementations of the repository keep that promise, and the firmware of the repository's own panic
    check (verification/panic-check/firmware/src) as a program with its crypto and its platform.
  \<^item> \<open>Answers\<close>: the logic \<open>yields\<close> for what a handler leaves in the state and in the output buffer, by outcome;
    every answer is a response of its command's kind or an error on an unchanged state, with the one
    exception. \<open>Start\<close>: a new instance starts without an error.
  \<^item> \<open>X509_Count\<close>: how far each encoder moves the writer, so that the size it returns is within the buffer;
    \<open>Replies\<close>: with it, every response can be sent; \<open>Typed\<close>: the readers accept only what the writers write
    (the locale \<open>exact_wire\<close>, which extends \<open>wire\<close>), so a response has its type and its bytes are those the
    handler has written.
  \<^item> \<open>Simulator\<close> (simulator/src/main.rs): the process that serves an instance on a socket, from its command
    line to its replies, and which connections it serves before it ends or panics.
  \<^item> \<open>Cert_Size\<close> (tools/src/cert_size): the tool that measures certificates and derives the constants of build.rs;
    what it can give, and when its constants cover what it has measured.
  \<^item> \<open>Sample_Cert\<close> (tools/src/sample_dpe_cert.rs): the tool that prints a sample certificate, and what can stop it;
    \<open>Report\<close> (tools/src/lib.rs, dice-asn1/src/lib.rs): the tool that parses a certificate and shows its contexts.
  \<^item> \<open>Certified\<close>: CertifyKey from the state to the bytes of the certificate in the response.
  \<^item> \<open>Demo\<close>, \<open>Demo_X509\<close>, \<open>Demo_Certified\<close>, \<open>Demo_Answers\<close>: concrete environments on which the properties are exercised.

  How it is modelled. A handler is an action on \<open>world\<close>: the crypto state, the platform state, the DPE
  state and the output buffer. The required methods of the \<open>Crypto\<close> and \<open>Platform\<close> traits are the
  records \<open>crypto_ops\<close> and \<open>platform_ops\<close>, arguments of the handlers: any implementation. Their
  contracts are the locales \<open>hash_suite\<close>, \<open>total_hash_suite\<close>, \<open>chain_source\<close> and \<open>measurement_env\<close>,
  with \<open>calm_crypto\<close>, \<open>calm_platform\<close> and \<open>calm_env\<close> for operations that always answer, \<open>answering\<close>, which
  extends the last, for keys of the profile's kind, and \<open>certifying\<close> for what a certificate takes from
  both; all are interpreted on \<open>rust_crypto_ops\<close> and \<open>default_platform\<close>, the calm ones on the crypto and the platform of the panic-check firmware too. The locale
  \<open>response_buffer\<close> is the contract of the output buffers, \<open>wire\<close> that of a structure with a fixed layout. Machine integers are words;
  \<open>usize\<close> is \<open>nat\<close> with its bound written where it matters; an arithmetic overflow or an index out of
  range that the code does not check is \<open>Panic\<close>.

  The handlers take the encoder of certificates as an argument \<open>gen\<close>, so what is proved of them holds for
  every encoder; \<open>generate_cert_or_csr\<close> is the one of the code. The writer is a state of its own: the
  buffer, the base of the view it writes to, the write position, the gaps reserved for lengths. A write
  that does not fit is dropped and the position advances, as in the code; the checks for truncation are
  where the code has them. The profile and the criticality of the DICE extensions, fields of
  \<open>CertWriter\<close> that never change, are arguments. Sizes are \<open>nat\<close>: all are sums of lengths of buffers
  in memory and small constants, far below \<open>usize::MAX\<close>.

  SVNs. The code counts the size of the MultiTcbInfo extension as the number of nodes times the size for the
  first context of the array, although an SVN is an INTEGER of variable length. What is proved of certificates and
  CSRs (who signs which bytes, what lands in the buffer, what the bytes commit to, and that a certificate fits)
  holds for all SVNs; that a CSR fits, for SVNs below 2^15. That the extensions are DER, and that the precomputed
  sizes are exact, holds if and only if the INTEGERs of the SVNs on the path have together the length that is
  counted, and under this condition a DER reader finds the fields of the TBSCertificate. It holds when all have
  one length (\<open>svns_equal_add_up\<close>); the properties state this condition, \<open>svns_add_up\<close>, where they need it.

  Fuel. \<open>get_descendants\<close>, the validator's search and the loop over retired ancestors recurse along
  links of at most 64 contexts; their fuel is 65, one frame per context and one to stop. Every lemma
  about them shows that the fuel suffices or covers the case in which it does not. The loop over the
  certificate chain does not end with a platform that answers with empty chunks; it is a
  \<open>partial_function\<close>, with \<open>Diverge\<close> for a run that goes on for ever.

  The build modelled has the features p256, p384 and ml-dsa, all optional commands and 64 handles. The simulator,
  the tools and the firmware of the panic check are modelled in this build too: the profile is chosen by the features, the sizes of the fields are those of the largest profile.

  Not modelled: the control-flow-integrity assertions (a second evaluation of conditions the code has
  already checked), logging and printing, the parsing of test certificates in default.rs, the
  fuzz harness (its crate builds the profile P256 alone, with measurements of 32 bytes, which the build modelled
  here is not), the program that looks for panics in the symbols of the built
  firmware, the socket file, the signal handler and the log of the simulator, the command lines
  of the tools and their bindings for wasm, and the build automation, which runs other programs.
\<close>

section \<open>Properties\<close>

subsection \<open>The state\<close>

text \<open>
  C1. Whatever requests a client sends, in whatever order and from whatever locality, the state of an
  instance that started from \<open>State::new\<close> keeps the invariant: the contexts form a forest whose links
  agree in both directions, unused contexts are blank, retired ones have children, no context has a
  privilege that its parent lacks, siblings differ in their TCI type, and at most one tree is normal.
\<close>

theorem reachable_state_inv: "state_inv (serve_new gen d p qs b supp flags w)"
  by (rule serve_new_inv)

text \<open>
  C2. An instance without simulation contexts that started from \<open>State::new\<close> passes \<open>validate_dpe\<close>
  after any sequence of requests.
\<close>

theorem reachable_state_validates:
  assumes "\<not> sup_simulation (preprocess_support b supp)"
  shows "validate_dpe (serve_new gen d p qs b supp flags w) = Ok ()"
  by (simp add: validate_dpe_Ok [OF forest_length [OF serve_new_forest]]
      state_inv_valid [OF serve_new_inv serve_new_alone [OF assms]])

lemma reachable_state_validates_witness:
  "validate_dpe (serve_new demo_gen demo_deps P384Sha384 demo_requests default_build demo_support 0
     (demo_world demo_start)) = Ok ()"
  by (rule reachable_state_validates) simp

text \<open>
  C3. \<open>validate_dpe\<close> accepts a state exactly when the state is valid: its magic and version are right,
  every context is consistent by itself and with its neighbours, a default handle is alone in its
  locality, the links form a forest of trees of one type each, and at most one of them is normal.
\<close>

theorem validate_dpe_decides:
  assumes "length (contexts st) = 64"
  shows "validate_dpe st = Ok () \<longleftrightarrow> valid_state st"
  by (rule validate_dpe_Ok [OF assms])

lemma validate_dpe_decides_witness: "validate_dpe demo_tree = Ok () \<longleftrightarrow> valid_state demo_tree"
  by (rule validate_dpe_decides) (simp add: forest_length [OF state_inv_forest [OF demo_states_inv(2)]])

text \<open>
  C4. \<open>validate_dpe\<close> neither panics nor runs forever, whatever the 64 contexts hold: loops between
  contexts and dangling links included.
\<close>

theorem validate_dpe_ends:
  assumes "length (contexts st) = 64"
  shows "settled (validate_dpe st)"
  by (rule validate_dpe_settled [OF assms])

lemma validate_dpe_ends_witness: "settled (validate_dpe demo_start)"
  by (rule validate_dpe_ends) simp

text \<open>
  C5. Destroying a context removes it, its descendants, and every retired ancestor left without
  another child, and nothing else: the other contexts keep all but their links to the removed ones,
  and the invariant holds afterwards.
\<close>

theorem destroy_context_exact:
  assumes inv: "state_inv st" and h: "get_active_context_pos st h loc = Ok i"
  shows "\<exists>anc st'. up_path (contexts st) (i # anc) \<and> destroy_context h st loc = Ok st' \<and>
    context_destroyed ((child_rel (contexts st))\<^sup>* `` {i} \<union> set (takeWhile (retired_only_child (contexts st)) anc))
      st st' \<and> state_inv st'"
  using destroy_context_forest [OF state_inv_forest [OF inv] h]
    transition_preserves_inv [OF transition.destroyed inv] unfolding doomed_def by metis

lemma destroy_context_exact_witness:
  "\<exists>anc st'. up_path (contexts demo_tree) (0 # anc) \<and> destroy_context handle_default demo_tree 0 = Ok st' \<and>
    context_destroyed ((child_rel (contexts demo_tree))\<^sup>* `` {0} \<union>
      set (takeWhile (retired_only_child (contexts demo_tree)) anc)) demo_tree st' \<and> state_inv st'"
  by (rule destroy_context_exact [OF demo_states_inv(2) demo_tree_root])

text \<open>
  C6. What an answer says of the state: with the software crypto, the test platform and the encoder of the
  code, a request that is answered was decoded to a command. The answer is a response of that command's kind
  that carries the status of success and the profile, or an error response with the status word of an error,
  and then the state is the one the request found. Only UpdateContextMeasurement can report an error after a
  change: where no handle is left to draw, it may have replaced a handle.
\<close>

theorem error_answer_keeps_state:
  assumes "length (contexts (dstate w)) = MAX_HANDLES"
    and "execute_serialized_command generate_cert_or_csr (rust_default x cfg art pf) p al loc bs w = (Ok resp, w')"
  shows "\<exists>c. deserialize al p bs = Ok c \<and>
    (answers_to c resp \<and> response_header resp = \<lparr>rh_magic = DPE_RESPONSE_MAGIC, rh_status = 0, rh_profile = p\<rparr> \<or>
     (\<exists>e. resp = RespError \<lparr>rh_magic = DPE_RESPONSE_MAGIC, rh_status = get_error_code e, rh_profile = p\<rparr> \<and>
       (dstate w' = dstate w \<or> updates_measurement c \<and> e = InternalError HandleGenerationExhausted \<and>
          handle_replaced (dstate w) (dstate w'))))"
proof -
  have len: "length (contexts (dstate w)) = 64" using assms(1) by simp
  show ?thesis
    using rust_answering.request_answer [OF calm_generate_cert_or_csr len assms(2)]
    unfolding response_hdr_def ResponseHdr_new_def get_error_code_NoError rust_handle_failure outcome.inject by metis
qed

lemma error_answer_keeps_state_witness:
  defines "answer \<equiv> \<lparr>rh_magic = DPE_RESPONSE_MAGIC, rh_status = get_error_code InvalidLocality, rh_profile = P384Sha384\<rparr>"
  shows "\<exists>c. deserialize True P384Sha384 rotate_bytes = Ok c \<and>
    (answers_to c (RespError answer) \<and>
       response_header (RespError answer) = \<lparr>rh_magic = DPE_RESPONSE_MAGIC, rh_status = 0, rh_profile = P384Sha384\<rparr> \<or>
     (\<exists>e. RespError answer = RespError \<lparr>rh_magic = DPE_RESPONSE_MAGIC, rh_status = get_error_code e,
          rh_profile = P384Sha384\<rparr> \<and>
       (dstate (demo_world demo_start) = dstate (demo_world demo_start) \<or>
        updates_measurement c \<and> e = InternalError HandleGenerationExhausted \<and>
          handle_replaced (dstate (demo_world demo_start)) (dstate (demo_world demo_start)))))"
  unfolding answer_def
  by (rule error_answer_keeps_state [OF _ rotate_answer]) simp

text \<open>
  A command that fails leaves the state as it was on any crypto and platform, CertifyKey and
  UpdateContextMeasurement apart: only the write of the response can fail after the state has changed.
\<close>

lemma failing_command_keeps_state:
  assumes "commits_last c" "execute_serialized gen d p c loc w = (Err e, w')" "e \<noteq> InvalidResponseBuf"
  shows "dstate w' = dstate w"
  using spD_abort [OF execute_serialized_atomic [OF assms(1)] refl assms(2)] assms(3)
  by (simp add: failed_write_def)

lemma failing_command_keeps_state_witness:
  "dstate (snd (execute_serialized demo_gen demo_deps P384Sha384 demo_rotate 0 (demo_world demo_start))) =
    dstate (demo_world demo_start)"
  by (rule failing_command_keeps_state [where c = demo_rotate and gen = demo_gen and d = demo_deps and
        p = P384Sha384 and loc = 0 and e = InvalidLocality])
    (simp_all only: demo_rotate_fails snd_conv, simp_all add: commits_last_def demo_rotate_def)

text \<open>
  C7. A command that names a handle which no active context of the caller's locality has fails, and
  changes nothing.
\<close>

theorem unauthorized_command_fails:
  assumes "command_handle c = Some h" "\<forall>i. \<not> active_at (dstate w) h loc i"
    and "execute_serialized gen d p c loc w = (r, w')"
  shows "\<not> is_ok r \<and> dstate w' = dstate w"
proof -
  note u = unauthorized [OF assms(1), of "dstate w" loc gen d p]
  have "r \<noteq> Ok x" for x
    using spD [OF u refl, of x w'] assms(2,3) by blast
  moreover from this have "dstate w' = dstate w"
    using spD_abort [OF u refl assms(3)] assms(2) by blast
  ultimately show ?thesis by (cases r) auto
qed

lemma unauthorized_command_fails_witness:
  "\<not> is_ok (fst (execute_serialized demo_gen demo_deps P384Sha384 demo_rotate 0 (demo_world demo_start))) \<and>
    dstate (snd (execute_serialized demo_gen demo_deps P384Sha384 demo_rotate 0 (demo_world demo_start))) =
      dstate (demo_world demo_start)"
  by (rule unauthorized_command_fails [of demo_rotate handle_default])
    (simp_all only: prod.collapse, simp_all add: demo_rotate_def demo_start_unused)

subsection \<open>Contexts and their trees\<close>

text \<open>
  C8. Looking a handle up in a locality: an error that tells whether the locality has an active
  context at all, or the first active context with that handle in that locality.
\<close>

theorem get_active_context_pos_finds:
  "get_active_context_pos st h loc =
     (if \<exists>c \<in> set (contexts st). state c = Active \<and> locality c = loc
      then case position (\<lambda>c. state c = Active \<and> handle c = h \<and> locality c = loc) (contexts st) of
        None \<Rightarrow> Err InvalidHandle | Some i \<Rightarrow> Ok i
      else Err InvalidLocality)"
  by (auto simp: get_active_context_pos_cases)

text \<open>
  C9. In a state with the invariant, the descendants of a context in use are exactly the contexts
  reachable from it by child links, and computing them does not fail.
\<close>

theorem get_descendants_reachable:
  assumes "state_inv st" "i < 64" "state (contexts st ! i) \<noteq> Inactive"
  shows "\<exists>d. get_descendants st (contexts st ! i) = Ok d \<and> kids d = (child_rel (contexts st))\<^sup>+ `` {i}"
  using get_descendants_forest [OF state_inv_forest [OF assms(1)] assms(2,3)] by metis

lemma get_descendants_reachable_witness:
  "\<exists>d. get_descendants demo_tree (contexts demo_tree ! 0) = Ok d \<and>
    kids d = (child_rel (contexts demo_tree))\<^sup>+ `` {0}"
  by (rule get_descendants_reachable [OF demo_states_inv(2)]) (simp_all add: demo_tree_contexts)

text \<open>
  C10. \<open>RootToChildIter::new\<close> succeeds exactly when a chain of parent links leads from the context to
  a root through contexts in use; the iterator then yields that chain from the root down and ends.
  Otherwise, loops of parent links included, it fails with an error.
\<close>

theorem root_to_child_iter:
  assumes "length ctxs \<le> 64"
  shows "case iter_new i ctxs of
      Ok it \<Rightarrow> (\<exists>is. up_path ctxs is \<and> hd is = i \<and> iter_items it = map (\<lambda>k. Ok (ctxs ! k)) (rev is) \<and>
        iter_num_nodes it = length is)
    | Err e \<Rightarrow> (\<nexists>is. up_path ctxs is \<and> hd is = i) \<and>
        e \<in> {InvalidHandle, InternalError ContextIndexOob, InternalError TciNodeCountExceeded}
    | _ \<Rightarrow> False"
proof (cases "\<exists>is. up_path ctxs is \<and> hd is = i")
  case True
  then obtain "is" where p: "up_path ctxs is" "hd is = i" by blast
  from iter_new_up_path [OF p(1) assms] obtain it where "iter_new (hd is) ctxs = Ok it"
    "iter_items it = map (\<lambda>i. Ok (ctxs ! i)) (rev is)" "iter_num_nodes it = length is" by metis
  with p show ?thesis by auto
next
  case False
  then have "path_loop ctxs i [] \<noteq> Ok q" for q using path_loop_Ok [of ctxs i "[]" q] by blast
  with path_loop_total [of ctxs i "[]"] obtain e where "path_loop ctxs i [] = Err e"
    "e \<in> {InvalidHandle, InternalError ContextIndexOob, InternalError TciNodeCountExceeded}" by blast
  with False show ?thesis by (simp add: iter_new_def)
qed

lemma root_to_child_iter_witness:
  "case iter_new 1 (contexts demo_tree) of
      Ok it \<Rightarrow> (\<exists>is. up_path (contexts demo_tree) is \<and> hd is = 1 \<and>
        iter_items it = map (\<lambda>k. Ok (contexts demo_tree ! k)) (rev is) \<and> iter_num_nodes it = length is)
    | Err e \<Rightarrow> (\<nexists>is. up_path (contexts demo_tree) is \<and> hd is = 1) \<and>
        e \<in> {InvalidHandle, InternalError ContextIndexOob, InternalError TciNodeCountExceeded}
    | _ \<Rightarrow> False"
  by (rule root_to_child_iter) (simp add: demo_tree_contexts)

text \<open>
  C11. A handle that \<open>generate_new_handle\<close> returns is not the default handle and is not the handle of
  any context, and the state is unchanged.
\<close>

theorem generated_handle_is_fresh:
  assumes "generate_new_handle d w = (Ok h, w')"
  shows "h \<noteq> handle_default \<and> length h = HANDLE_SIZE \<and> (\<forall>c \<in> set (contexts (dstate w)). handle c \<noteq> h) \<and>
    dstate w' = dstate w"
  using generate_new_handle_fresh [OF assms] keepsD [OF keeps_generate_new_handle [OF view_parts(1)] assms]
  by (simp add: fresh_handle_def)

lemma generated_handle_is_fresh_witness:
  "demo_handle \<noteq> handle_default \<and> demo_handle \<notin> handle ` set (contexts demo_start)"
  using generated_handle_is_fresh [OF demo_new_handle] by auto

text \<open>
  C12. In a state with the invariant, with the software crypto and the test platform, the measurement
  hash of a context in use is computed without an error and is the digest of: the TCI data and the
  X.509 permission of every context from the root down to it, then the profile data if one of them
  asks for it, then the whole certificate chain if one of them asks for that.
\<close>

theorem measurement_hash_of_path:
  fixes w :: "('r rust_crypto, unit) world"
  assumes d: "cops d = rust_crypto_ops x cfg" "pops d = default_platform art pf"
    and chain: "addressable (art_cert_chain art pf)"
    and i: "state_inv (dstate w)" "i < 64" "state (contexts (dstate w) ! i) \<noteq> Inactive"
  shows "\<exists>is w'. up_path (contexts (dstate w)) is \<and> hd is = i \<and>
    compute_measurement_hash d p i w =
      (Ok (rc_digest x cfg (measurement_input p VENDOR_ID VENDOR_SKU (art_cert_chain art pf) (dstate w) is)), w')"
proof -
  have f: "forest (contexts (dstate w))" by (rule state_inv_forest [OF i(1)])
  from forest_up_path [OF f i(2,3)] obtain "is" where p: "up_path (contexts (dstate w)) (i # is)" .
  from rust_default.measurement_hash_total [OF d chain p, of p] f
  show ?thesis by (intro exI [of _ "i # is"]) (simp add: p del: up_path.simps)
qed

lemma measurement_hash_of_path_witness:
  "\<exists>is w'. up_path (contexts (dstate (demo_world demo_tree))) is \<and> hd is = 1 \<and>
    compute_measurement_hash demo_deps P384Sha384 1 (demo_world demo_tree) =
      (Ok (rc_digest demo_algs new_ecc384 (measurement_input P384Sha384 VENDOR_ID VENDOR_SKU
        (art_cert_chain demo_art P384) (dstate (demo_world demo_tree)) is)), w')"
  by (rule measurement_hash_of_path)
    (simp_all add: demo_deps_def demo_states_inv demo_tree_contexts demo_child_with_def addressable_def demo_art_def)

text \<open>
  C13. The bytes hashed for a path commit to it: two paths in states with the invariant that hash to
  the same bytes have the same number of contexts and, context by context, the same TCI data (type,
  cumulative and current measurement, locality and SVN) and the same X.509 permission.
\<close>

theorem path_bytes_commit:
  assumes "state_inv s" "state_inv t" "up_path (contexts s) is" "up_path (contexts t) js"
    and "path_bytes (contexts s) is = path_bytes (contexts t) js"
  shows "map (\<lambda>i. (tci (contexts s ! i), allow_x509 (contexts s ! i))) is =
    map (\<lambda>j. (tci (contexts t ! j), allow_x509 (contexts t ! j))) js"
  by (rule path_bytes_inject [OF _ _ assms(5)])
    (use assms(1-4) up_path_lt state_inv_tci_wf in blast)+

lemma path_bytes_commit_witness:
  "map (\<lambda>i. (tci (contexts demo_tree ! i), allow_x509 (contexts demo_tree ! i))) [0] =
    map (\<lambda>j. (tci (contexts demo_root ! j), allow_x509 (contexts demo_root ! j))) [0]"
  by (rule path_bytes_commit [OF demo_states_inv(2,1)])
    (simp_all add: demo_tree_contexts demo_root_contexts live_node_def valid_parent_idx_def init_args_def path_bytes_def
      node_bytes_def activate_def context_flag_defs)

text \<open>
  C14. A request made of a command's header and bytes, for a command that the profile has, is decoded
  to that command, whatever follows it.
\<close>

theorem deserialize_reads_back:
  assumes "command_ok p c"
  shows "deserialize True p (command_hdr_bytes (CommandHdr_new p (command_id c)) @ command_bytes c @ r) = Ok c"
  by (rule deserialize_bytes [OF assms])

lemma deserialize_reads_back_witness:
  "deserialize True P384Sha384 (command_hdr_bytes (CommandHdr_new P384Sha384 DERIVE_CONTEXT) @
     command_bytes (DeriveContext demo_derive) @ [9]) = Ok (DeriveContext demo_derive)"
  using deserialize_reads_back [of P384Sha384 "DeriveContext demo_derive" "[9]"]
  by (simp add: handle_ok_def demo_derive_with_def demo_data_def)

text \<open>
  C15. Decoding a request never panics and never runs on: every byte string, aligned or not, gives a
  command or one of the two errors for malformed requests.
\<close>

theorem deserialize_total:
  "case deserialize al p raw of Ok c \<Rightarrow> True | Err e \<Rightarrow> e = InvalidCommand \<or> e = InvalidArgument | _ \<Rightarrow> False"
  using deserialize_outcome [of al p raw] by (auto simp: request_outcome_def)

text \<open>
  A request that decodes is always answered: an error of its handler becomes an error response
  with the status word of the error, and the state is the one the handler left.
\<close>

lemma handler_error_is_response:
  assumes "deserialize al p bs = Ok c" "execute gen d p c loc w = (Err e, w')"
  shows "execute_serialized_command gen d p al loc bs w =
    (Ok (RespError \<lparr>rh_magic = DPE_RESPONSE_MAGIC, rh_status = get_error_code e, rh_profile = p\<rparr>), w')"
  by (simp add: execute_serialized_command_eq [OF assms(1)] assms(2) ResponseHdr_new_def)

lemma handler_error_is_response_witness:
  "execute_serialized_command demo_gen demo_deps P384Sha384 True 0
     (command_hdr_bytes (CommandHdr_new P384Sha384 ROTATE_CONTEXT_HANDLE) @ command_bytes demo_rotate)
     (demo_world demo_start) =
   (Ok (RespError \<lparr>rh_magic = DPE_RESPONSE_MAGIC, rh_status = get_error_code InvalidLocality,
     rh_profile = P384Sha384\<rparr>), demo_world demo_start)"
  by (rule handler_error_is_response [OF demo_rotate_request demo_rotate_execute])

text \<open>
  C16. The labels in the graph of the report stand between double quotes, so the graph has two of them for
  each context and two for the certificate, and what comes from the certificate adds none: double quotes in the
  name of the subject and of the issuer are replaced, the other texts have none. The exception are the printable
  TCI types, which are shown as they are: each of their double quotes is one more in the graph, and an
  odd number of them leaves a label open. The library that writes hexadecimal text writes no double
  quotes.
\<close>

theorem report_graph_quotes:
  assumes "\<And>bs. CHR 0x22 \<notin> set (hex_encode l bs)"
  shows "quotes (generate_mermaid_graph l cert) =
    2 * Suc (length (cert_tcb_infos cert)) + (\<Sum>tcb \<leftarrow> cert_tcb_infos cert. quoted_type (p_tci_type tcb))"
  by (rule graph_quotes [OF assms])

lemma report_graph_quotes_witness:
  "quotes (generate_mermaid_graph demo_lib (demo_parsed [0x41, 0x22])) = 5"
  using report_graph_quotes [OF demo_lib_hex, of "demo_parsed [0x41, 0x22]"]
  by (simp add: demo_parsed_def quoted_type_def)

text \<open>
  \<open>preprocess_support\<close> turns off exactly the features that the build leaves out.
\<close>

lemma preprocess_support_masks:
  "sup_simulation (preprocess_support b s) = (sup_simulation s \<and> \<not> disable_simulation b) \<and>
   sup_recursive (preprocess_support b s) = (sup_recursive s \<and> \<not> disable_recursive b) \<and>
   sup_auto_init (preprocess_support b s) = (sup_auto_init s \<and> \<not> disable_auto_init b) \<and>
   sup_rotate_context (preprocess_support b s) = (sup_rotate_context s \<and> \<not> disable_rotate_context b) \<and>
   sup_x509 (preprocess_support b s) = (sup_x509 s \<and> \<not> disable_x509 b) \<and>
   sup_csr (preprocess_support b s) = (sup_csr s \<and> \<not> disable_csr b) \<and>
   sup_internal_info (preprocess_support b s) = (sup_internal_info s \<and> \<not> disable_internal_info b) \<and>
   sup_internal_dice (preprocess_support b s) = (sup_internal_dice s \<and> \<not> disable_internal_dice b) \<and>
   sup_retain_parent_context (preprocess_support b s) =
     (sup_retain_parent_context s \<and> \<not> disable_retain_parent_context b) \<and>
   sup_cdi_export (preprocess_support b s) = (sup_cdi_export s \<and> \<not> disable_export_cdi b)"
  by (simp only: preprocess_support_bits simp_thms)

text \<open>
  C17. The buffer that the build computes is large enough: in a state with the invariant, for a subject whose
  common name has at most 16 bytes, with a callback whose signatures have the lengths of their types and
  \<open>MAX_CERT_SIZE\<close> bytes of the buffer behind the header, the encoder never runs out of space for a certificate,
  whatever the SVNs are and whatever the platform hands out within the sizes of its buffers. It does not for a CSR
  either, where the platform gives no subject alternative name and a signer identifier of at most 154 bytes
  and the INTEGERs of the SVNs on the path have at most two octets, that is, the SVNs are below 2^15.
\<close>

theorem response_buffer_suffices:
  fixes cb :: "'c sign_cb"
  assumes "cert_inputs st is md name pk" "directory_string_len (name_cn name) \<le> 16" "room_for st is md fmt"
    and "base + MAX_CERT_SIZE \<le> length buf" "length buf \<le> USIZE_MAX"
    and "\<And>rd a z f sig c s c'. cb rd a z f sig c = (Ok s, c') \<Longrightarrow> signature_wf s"
  shows "fst (generate_cert_or_csr fmt p critical name pk md cb base sig (c, buf)) \<noteq>
    Err (InternalError CertSizeOverflow)"
  by (rule encoder_has_room [OF assms])

lemma response_buffer_suffices_witness:
  "fst (generate_cert_or_csr (CertArgs (der 0x30 [4]) demo_validity) P384Sha384 True demo_name demo_key demo_md
     demo_sign_cb 20 demo_signature (0, demo_buffer)) \<noteq> Err (InternalError CertSizeOverflow)"
  by (rule response_buffer_suffices [OF demo_cert_inputs])
    (use demo_issuer_small demo_inputs_wf(4,5) demo_buffer_small in
      \<open>auto simp: room_for_def demo_name_def directory_string_len_def demo_buffer_length MAX_CERT_SIZE_eq demo_sign_cb_def\<close>)

text \<open>
  C18. Whatever answer a request gets on the software crypto and the test platform has its type: its handles,
  keys, signatures and buffers have the lengths of their types and its size field counts at most the buffer of
  the certificate. Its bytes are as many as the response of the command has and are read back as the same
  response, and what is sent is a prefix of them.
\<close>

theorem answers_have_their_type:
  assumes "length (contexts (dstate w)) = 64"
    and "execute_serialized_command generate_cert_or_csr (rust_default x cfg art pf) p al loc bs w = (Ok resp, w')"
  shows "response_typed resp \<and> (\<exists>k. response_partial resp = Ok (take k (response_bytes resp))) \<and>
    (\<exists>c. deserialize al p bs = Ok c \<and> ((\<exists>h. resp = RespError h) \<or>
       length (response_bytes resp) = fst (response_layout c) \<and>
       read_exact (snd (response_layout c)) (response_bytes resp) = Some resp))"
  by (rule rust_answering.request_typed [OF calm_generate_cert_or_csr sized_generate_cert_or_csr assms])

lemma answers_have_their_type_witness:
  "\<exists>resp w'. execute_serialized_command generate_cert_or_csr (rust_default demo_algs new_ecc384 cert_art P384) P384Sha384 True 0
      profile_bytes (demo_world demo_start) = (Ok (RespGetProfile resp), w') \<and>
    read_exact (snd (response_layout GetProfile)) (response_bytes (RespGetProfile resp)) = Some (RespGetProfile resp)"
proof -
  have "length (contexts (dstate (demo_world demo_start))) = 64" by (simp add: demo_start_def State_new_def)
  with profile_answer [of generate_cert_or_csr new_ecc384 cert_art P384] answers_have_their_type profile_decodes
  show ?thesis by (metis Response.distinct outcome.inject(1))
qed

text \<open>
  A CertifyKey response for P-384 is read back from its bytes, and its partial form is its header
  and the part of the certificate buffer that the header counts, or an error if the header counts
  more than the buffer holds.
\<close>

lemma certify_response_roundtrip:
  assumes "handle_ok (k3_handle (wc_header r))" "length (k3_pubkey_x (wc_header r)) = 48"
    and "length (k3_pubkey_y (wc_header r)) = 48" "length (wc_cert r) = MAX_CERT_SIZE"
  shows "read_exact (read_with_cert read_certify_p384_hdr) (certify_resp_bytes (CkRespP384 r)) = Some r \<and>
    certify_resp_partial (CkRespP384 r) =
      (if unat (k3_cert_size (wc_header r)) \<le> MAX_CERT_SIZE
       then Ok (certify_p384_hdr_bytes (wc_header r) @ take (unat (k3_cert_size (wc_header r))) (wc_cert r))
       else Err (InternalError CertifyKeyP384RespSliceOob))"
  using certify_p384_hdr.with_cert_roundtrip [of r "[]"] certify_p384_hdr.with_cert_partial_value [of r] assms
  by (simp add: read_exact_def)

lemma certify_response_roundtrip_witness:
  "read_exact (read_with_cert read_certify_p384_hdr) (certify_resp_bytes (CkRespP384 demo_certify)) =
     Some demo_certify \<and>
   certify_resp_partial (CkRespP384 demo_certify) =
     (if unat (k3_cert_size (wc_header demo_certify)) \<le> MAX_CERT_SIZE
      then Ok (certify_p384_hdr_bytes (wc_header demo_certify) @
        take (unat (k3_cert_size (wc_header demo_certify))) (wc_cert demo_certify))
      else Err (InternalError CertifyKeyP384RespSliceOob))"
  by (rule certify_response_roundtrip) (simp_all add: demo_certify_def handle_ok_def demo_handle_def HANDLE_SIZE_def)

text \<open>
  C19. Through the shifted view that certificates are written into: what is written at an offset is
  read back from there, and the bytes before the view and outside the range keep their values.
\<close>

theorem shifted_write_reads_back:
  assumes "base \<le> length buf" "length buf \<le> USIZE_MAX"
    and "offset_write_at slice_write_at base off bs buf = (Ok (), buf')"
  shows "offset_read_range slice_read_range base off (off + length bs) buf' = Ok bs \<and>
    take (base + off) buf' = take (base + off) buf \<and>
    drop (base + off + length bs) buf' = drop (base + off + length bs) buf"
proof -
  have v: "slice_offset_valid base buf" using assms(1,2) by (simp add: slice_offset_valid_def)
  have "buf' = splice buf (base + off) bs" "base + off + length bs \<le> length buf"
    using assms(3)
    by (auto simp: offset_write_at_def checked_add_def slice_write_at_eq [OF assms(2)] split: if_splits)
  then show ?thesis using shifted.write_read_back [OF v assms(3)] by (simp add: splice_def)
qed

lemma shifted_write_reads_back_witness:
  "offset_read_range slice_read_range 2 1 (1 + length [7, 8 :: u8]) [0, 0, 0, 7, 8] = Ok [7, 8] \<and>
    take (2 + 1) [0, 0, 0, 7, 8] = take (2 + 1) [0, 0, 0, 0, 0 :: u8] \<and>
    drop (2 + 1 + length [7, 8 :: u8]) [0, 0, 0, 7, 8] = drop (2 + 1 + length [7, 8 :: u8]) [0, 0, 0, 0, 0 :: u8]"
  by (rule shifted_write_reads_back)
    (simp_all add: offset_write_at_def checked_add_def slice_write_at_eq USIZE_MAX_def splice_def)

subsection \<open>Keys, privileges and errors\<close>

text \<open>
  C20. A handle returned by a CDI export of the software crypto stands for the CDI that was exported:
  deriving the key pair from the handle is deriving it from the CDI of that measurement and label.
  The export needs the one slot to be free, and takes it.
\<close>

theorem exported_handle_derives_same_key:
  assumes "rc_derive_exported_cdi x cfg m info s = (Ok f, s')"
  shows "rc_derive_key_pair_exported x cfg (array MAX_EXPORTED_CDI_SIZE f) label ctx s' =
      bind (rc_derive_cdi x cfg m info) (\<lambda>_. rc_derive_key_pair x cfg label ctx) s' \<and>
    rc_export_cdi_slots s = [] \<and> length (rc_export_cdi_slots s') = MAX_CDI_HANDLES"
proof -
  from rc_derive_exported_cdi_Ok [OF assms] obtain cdi where "rc_export_cdi_slots s = []"
    "rc_export_cdi_slots s' = [(cdi, array MAX_EXPORTED_CDI_SIZE f)]" by blast
  with exported_key_pair [OF assms] show ?thesis by (simp add: MAX_CDI_HANDLES_def)
qed

lemma exported_handle_derives_same_key_witness:
  "rc_derive_key_pair_exported demo_algs new_ecc384 (array MAX_EXPORTED_CDI_SIZE (\<lambda>i. 1)) [1] [2] demo_exported =
    bind (rc_derive_cdi demo_algs new_ecc384 (Sha384 (replicate 48 0)) [])
      (\<lambda>_. rc_derive_key_pair demo_algs new_ecc384 [1] [2]) demo_exported"
  using exported_handle_derives_same_key [OF demo_export] by blast

text \<open>
  C21. In every reachable state no context has a privilege (X.509 certification, CDI export, recursive
  updates) that one of its ancestors lacks, and all contexts of a tree have one type.
\<close>

theorem no_privilege_gained:
  assumes "reachable b supp flags st" "(i, j) \<in> (child_rel (contexts st))\<^sup>+"
  shows "(allow_x509 (contexts st ! j) \<longrightarrow> allow_x509 (contexts st ! i)) \<and>
    (allow_export_cdi (contexts st ! j) \<longrightarrow> allow_export_cdi (contexts st ! i)) \<and>
    (allow_recursive (contexts st ! j) \<longrightarrow> allow_recursive (contexts st ! i)) \<and>
    context_type (contexts st ! j) = context_type (contexts st ! i)"
proof -
  have inv: "state_inv st" by (rule reachable_inv [OF assms(1)])
  then have "edges_ok (contexts st)" "length (contexts st) = 64"
    by (simp_all add: state_inv_def forest_length [OF state_inv_forest])
  from edges_ok_trancl [OF assms(2) this] show ?thesis by (simp add: edge_ok_def)
qed

lemma no_privilege_gained_witness:
  "context_type (contexts demo_tree ! 1) = context_type (contexts demo_tree ! 0)"
  using no_privilege_gained [OF demo_reachable demo_tree_edge] by blast

text \<open>
  C22. In every reachable state of an instance without simulation contexts, a context with the
  default handle is the only active one in its locality.
\<close>

theorem default_handle_is_alone:
  assumes "reachable b supp flags st" "\<not> sup_simulation (preprocess_support b supp)"
    and "is_active st i" "is_active st j" "locality (contexts st ! i) = locality (contexts st ! j)"
    and "handle (contexts st ! i) = handle_default"
  shows "i = j"
proof -
  from default_aloneD [OF reachable_alone [OF assms(1,2)] assms(3-6)] show ?thesis by simp
qed

lemma default_handle_is_alone_witness:
  "(0 :: nat) = 0 \<and> is_active demo_tree 0 \<and> handle (contexts demo_tree ! 0) = handle_default"
proof -
  have a: "is_active demo_tree 0" "handle (contexts demo_tree ! 0) = handle_default"
    by (simp_all add: is_active_def demo_tree_contexts init_args_def)
  then have "(0 :: nat) = 0" by (intro default_handle_is_alone [OF demo_reachable]) simp_all
  with a show ?thesis by blast
qed

text \<open>
  The status word of a response is 0 for success only: no error of the DPE, of the platform, of
  the crypto library or of the validator has that word.
\<close>

lemma status_zero_is_success: "get_error_code e = 0 \<longleftrightarrow> e = NoError"
  by (rule get_error_code_zero_iff)

text \<open>
  C23. The simulator from its command line to the replies, in any build with a profile: it serves the
  connections in order and sends each one whose request has a locality and decodes, and whose peer takes the
  reply, a response that begins with the header of the profile. It ends in order where a connection cannot be
  opened, and it panics at the first connection of any other kind: one request that does not decode stops it.
\<close>

theorem simulator_replies:
  assumes "sim_profile p256 p384 ml_dsa = Some (p, pf, cfg)" "addressable (art_cert_chain art pf)"
  shows "\<exists>replies. sim_main generate_cert_or_csr x art b rng (p, pf, cfg) args al conns =
      ((case dropWhile (served p al) conns of Opened _ # _ \<Rightarrow> Panic | _ \<Rightarrow> Ok ()), replies) \<and>
    length replies = length (takeWhile (served p al) conns) \<and> list_all (reply_of p) replies"
  by (rule sim_main_replies [OF assms(2) calm_generate_cert_or_csr sized_generate_cert_or_csr])

lemma simulator_replies_witness:
  "\<exists>reply. sim_main generate_cert_or_csr demo_algs cert_art default_build 0 (P384Sha384, P384, new_ecc384) sim_demo_args
      True sim_demo_connections = (Panic, [reply]) \<and> reply_of P384Sha384 reply"
proof -
  have "sim_profile False True False = Some (P384Sha384, P384, new_ecc384)" by (simp add: sim_profile_def)
  from simulator_replies [OF this cert_issuer(2), of demo_algs default_build 0 sim_demo_args True sim_demo_connections]
  show ?thesis by (auto simp: sim_demo_served length_Suc_conv)
qed

text \<open>
  C24. Sign is atomic: when it does not succeed, for whatever reason, the state is unchanged. When it
  succeeds, the handle names an active, non-simulation context of the caller's locality, and nothing
  has changed but the handle of that context: the default handle stays, any other is replaced by a
  fresh one.
\<close>

theorem sign_is_atomic:
  assumes "sign_cmd d p cmd loc w = (r, w')"
  shows "if is_ok r
    then \<exists>h i c'. command_handle (Sign cmd) = Some h \<and> active_at (dstate w) h loc i \<and>
      context_type (contexts (dstate w) ! i) \<noteq> Simulation \<and>
      rolled (dstate w) (contexts (dstate w) ! i) c' \<and> dstate w' = put_context i c' (dstate w)
    else dstate w' = dstate w"
proof (cases r)
  case (Ok x)
  with spD [OF sign_effect refl, of d p cmd loc w x w'] assms show ?thesis
    by (auto dest: get_active_context_pos_Ok)
qed (use spD_abort [OF sign_atomic refl assms] in auto)

lemma sign_is_atomic_witness:
  "if is_ok (fst (sign_cmd demo_deps P384Sha384 demo_sign 0 (demo_world demo_tree)))
    then \<exists>h i c'. command_handle (Sign demo_sign) = Some h \<and> active_at (dstate (demo_world demo_tree)) h 0 i \<and>
      context_type (contexts (dstate (demo_world demo_tree)) ! i) \<noteq> Simulation \<and>
      rolled (dstate (demo_world demo_tree)) (contexts (dstate (demo_world demo_tree)) ! i) c' \<and>
      dstate (snd (sign_cmd demo_deps P384Sha384 demo_sign 0 (demo_world demo_tree))) =
        put_context i c' (dstate (demo_world demo_tree))
    else dstate (snd (sign_cmd demo_deps P384Sha384 demo_sign 0 (demo_world demo_tree))) =
      dstate (demo_world demo_tree)"
  by (rule sign_is_atomic [OF prod.collapse [symmetric]])

text \<open>
  C25. The report tool takes the certificate out of a CertifyKey response by cutting off 128 bytes: for P-384 that
  leaves the certificate, for P-256 the certificate without its first 32 bytes, and for ML-DSA the certificate
  behind the rest of the public key and the size field.
\<close>

theorem report_unwraps_response:
  assumes "response_typed (RespCertifyKey ck)" "rh_magic (certify_resp_hdr ck) = DPE_RESPONSE_MAGIC"
    and "response_partial (RespCertifyKey ck) = Ok out" "certify_resp_cert ck = Ok cert" "32 \<le> length cert"
  shows "unwrap_raw_bytes l out = unwrap_cms l (case ck of
      CkRespP256 _ \<Rightarrow> drop 32 cert
    | CkRespP384 _ \<Rightarrow> cert
    | CkRespMldsa87 r \<Rightarrow> drop 100 (km_pubkey (wc_header r)) @ u32_to_le_bytes (km_cert_size (wc_header r)) @ cert)"
  by (rule certify_response_unwrapped [OF assms])

lemma report_unwraps_response_witness:
  "\<forall>l :: (unit, unit, unit) report_lib. \<exists>out. response_partial (RespCertifyKey (CkRespP384 demo_certify)) = Ok out \<and>
     unwrap_raw_bytes l out = unwrap_cms l (replicate 100 5)"
proof
  fix l :: "(unit, unit, unit) report_lib"
  have "certify_resp_cert (CkRespP384 demo_certify) = Ok (replicate 100 5)"
    by (simp add: certify_resp_cert_def demo_certify_def get_range_def MAX_CERT_SIZE_eq)
  moreover have "handle_ok (k3_handle (wc_header demo_certify))" "length (k3_pubkey_x (wc_header demo_certify)) = 48"
    "length (k3_pubkey_y (wc_header demo_certify)) = 48" "length (wc_cert demo_certify) = MAX_CERT_SIZE"
    "unat (k3_cert_size (wc_header demo_certify)) = 100" "rh_magic (k3_hdr (wc_header demo_certify)) = DPE_RESPONSE_MAGIC"
    by (simp_all add: demo_certify_def handle_ok_def demo_handle_def HANDLE_SIZE_def ResponseHdr_new_def)
  moreover from this have "response_partial (RespCertifyKey (CkRespP384 demo_certify)) =
      Ok (certify_p384_hdr_bytes (wc_header demo_certify) @ take 100 (wc_cert demo_certify))"
    by (simp add: certify_p384_hdr.with_cert_partial_value MAX_CERT_SIZE_eq)
  ultimately show "\<exists>out. response_partial (RespCertifyKey (CkRespP384 demo_certify)) = Ok out \<and>
      unwrap_raw_bytes l out = unwrap_cms l (replicate 100 5)"
    using report_unwraps_response [of "CkRespP384 demo_certify" _ "replicate 100 5" l] by (simp add: MAX_CERT_SIZE_eq)
qed

text \<open>
  The serial number that a public key gets is the hexadecimal text of a digest, from which the
  digest is recovered.
\<close>

lemma hex_text_determines_digest:
  assumes "write_hex_str dig dst = (r, dst')" "2 * digest_size dig \<le> length dst" "digest_wf dig"
  shows "r = Ok () \<and> length dst' = length dst \<and>
    unhex (take (2 * digest_size dig) dst') = digest_as_slice dig \<and>
    drop (2 * digest_size dig) dst' = drop (2 * digest_size dig) dst"
proof -
  have sz: "digest_size dig = length (digest_as_slice dig)" using assms(3) by (cases dig) auto
  have "write_hex_str dig dst = (Ok (), splice dst 0 (hex_of (digest_as_slice dig)))"
    using assms(2) sz by (simp add: write_hex_str_def hex_loop_eq)
  with assms(1,2) sz show ?thesis by (auto simp: splice_def)
qed

lemma hex_text_determines_digest_witness:
  "Ok () = (Ok () :: (CryptoError, unit) outcome) \<and>
    unhex (take (2 * digest_size (Sha256 (replicate 32 0xAB)))
      (snd (write_hex_str (Sha256 (replicate 32 0xAB)) (replicate 96 0)))) = replicate 32 0xAB"
  using hex_text_determines_digest [OF prod.collapse [symmetric], of "Sha256 (replicate 32 0xAB)" "replicate 96 0"]
  by simp

text \<open>
  C26. The benchmark from which the build takes the size of the response buffer ends with an error or with a
  result, never with a panic. A result has a certificate and a CSR for every count of handles, none larger than
  the buffer; when their sizes grow no faster than at first, the constants it proposes cover every sample exactly if
  they cover the smallest certificate. In a build with both curves there is no result for elliptic curves.
\<close>

theorem benchmark_results_sound:
  assumes "\<And>pf. addressable (art_cert_chain art pf)"
  shows "case benchmark_run generate_cert_or_csr x art b rng f alg of
      Ok res \<Rightarrow> algorithm_built f alg \<and> \<not> (alg = Ec \<and> has_p256 f \<and> has_p384 f) \<and>
        map fst (cert_sizes res) = handle_counts res \<and> map fst (csr_sizes res) = handle_counts res \<and>
        handle_counts res = [1, 2, 4, 8, 16, 24, 32, 48, 64] \<and>
        (\<forall>(n, s) \<in> set (cert_sizes res @ csr_sizes res). s \<le> MAX_CERT_SIZE) \<and>
        (\<forall>base per. results_approx res = Some (base, per) \<and> slowing (cert_sizes res) \<and> slowing (csr_sizes res) \<longrightarrow>
           results_verify res base per = (snd (hd (cert_sizes res)) \<le> max (snd (hd (csr_sizes res))) per))
    | Err e \<Rightarrow> True | Panic \<Rightarrow> False | Diverge \<Rightarrow> False"
  by (rule benchmark_run_result [OF assms calm_generate_cert_or_csr sized_generate_cert_or_csr])

lemma benchmark_results_sound_witness:
  "\<exists>e. benchmark_run generate_cert_or_csr demo_algs cert_art default_build 0
    \<lparr>has_p256 = True, has_p384 = True, has_ml_dsa = False\<rparr> Ec = Err e"
proof -
  have "addressable (art_cert_chain cert_art pf)" for pf by (simp add: cert_art_def demo_art_def addressable_def)
  from benchmark_results_sound [OF this, where x = demo_algs and b = default_build and rng = 0 and alg = Ec
      and f = "\<lparr>has_p256 = True, has_p384 = True, has_ml_dsa = False\<rparr>"]
  show ?thesis by (simp split: outcome.splits)
qed

text \<open>
  Making a certificate or a CSR does not touch the DPE state, whether it succeeds or not, even
  though it runs the signer, the hasher and the platform in between.
\<close>

lemma certificate_keeps_state:
  assumes "create_dpe_cert_or_csr gen d p args fmt ty base res w = (r, w')"
  shows "dstate w' = dstate w"
  by (rule keepsD [OF keeps_create_dpe_cert_or_csr assms])

lemma certificate_keeps_state_witness:
  "dstate (snd (create_dpe_cert_or_csr demo_gen demo_deps P384Sha384
      (exported_cert_args P384Sha384 demo_derive 0 [] demo_tree) FormatX509 Exported 0
      (cert_result_zeroed P384Sha384) (demo_world demo_tree))) = dstate (demo_world demo_tree)"
  by (rule certificate_keeps_state [OF prod.collapse [symmetric]])

text \<open>
  A default context can be initialized once: afterwards InitializeContext with the default flag
  is refused without touching anything, and so is one with both flags or none.
\<close>

lemma init_refused:
  assumes "has_initialized (dstate w) \<and> flag_is_default cmd \<or> flag_is_default cmd = flag_is_simulation cmd"
  shows "\<exists>e. init_ctx d p cmd loc w = (Err e, w) \<and> (e = ArgumentNotSupported \<or> e = InvalidArgument)"
  using assms by (auto simp: init_ctx_def bind_def)

lemma init_refused_witness:
  "\<exists>e. init_ctx demo_deps P384Sha384 init_new_use_default 3 (demo_world demo_root) =
    (Err e, demo_world demo_root) \<and> (e = ArgumentNotSupported \<or> e = InvalidArgument)"
  by (rule init_refused) (simp add: flag_is_default_def init_new_use_default_def DEFAULT_FLAG_MASK_def
      flags_contains_bit bit_simps del: push_bit_of_1)



subsection \<open>Certificates and CSRs\<close>

text \<open>
  C28. The certificate of a state with the invariant, for a node with its path to the root and arguments of the
  sizes of their types: if the buffer cannot take the TBSCertificate, the encoder fails with an overflow error and
  nothing is signed. Otherwise the sign callback is shown exactly the bytes of the TBSCertificate, with the names,
  the key, the validity and the measurements of the path. If it fails, so does the encoder. If it
  answers with a signature, the certificate of these two is in the buffer, nothing else of the buffer has
  changed, and the result is its length; or it does not fit, and the encoder fails. The extensions in it are
  written with the lengths counted beforehand; they are the DER of the extensions if and only if the
  INTEGERs of the SVNs on the path take together as many octets as the code counts, the length of that of the
  first context of the array times the number of nodes (\<open>svns_add_up\<close>).
\<close>

theorem certificate_of_state:
  fixes c :: 'c and cb :: "'c sign_cb" and p :: DpeProfile and crit :: bool and sig :: Signature
    and base :: nat
  assumes "cert_inputs st is md name pk" "length issuer \<le> MAX_ISSUER_NAME_SIZE"
    and "length (not_before v) \<le> MAX_VALIDITY_SIZE" "length (not_after v) \<le> MAX_VALIDITY_SIZE"
    and "length buf \<le> USIZE_MAX"
  defines "tbs \<equiv> cert_tbs st is p crit issuer name pk md v"
  defines "run \<equiv> generate_cert_or_csr (CertArgs issuer v) p crit name pk md cb base sig (c, buf)"
  shows "(extensions_written p crit md True (path_contexts st is) = extensions_der p crit md True (path_contexts st is) \<longleftrightarrow>
      svns_add_up st is) \<and>
    (if length buf < base + 4 + length tbs
     then fst run = Err (InternalError CertSizeOverflow) \<and> fst (snd run) = c
     else \<exists>rd. rd 4 (4 + length tbs) = Ok tbs \<and>
      answered (cb rd 4 (4 + length tbs) False sig c) (fst run) (\<lambda>s c'.
        let cert = signed_der p tbs s
        in if base + length cert \<le> length buf
           then run = (Ok (of_nat (length cert)), (c', splice buf base cert))
           else fst run = Err (InternalError CertSizeOverflow)))"
  unfolding tbs_def run_def
  by (intro conjI written_of_state(1) [OF assms(1)] generate_certificate [OF assms(1-5)])

lemma certificate_of_state_witness:
  "extensions_written P384Sha384 True demo_md True (path_contexts demo_tree [1, 0]) =
      extensions_der P384Sha384 True demo_md True (path_contexts demo_tree [1, 0]) \<and>
    (if length demo_buffer < 20 + 4 + length demo_tbs
    then fst demo_cert_run = Err (InternalError CertSizeOverflow) \<and> fst (snd demo_cert_run) = 0
    else \<exists>rd. rd 4 (4 + length demo_tbs) = Ok demo_tbs \<and>
      answered (demo_sign_cb rd 4 (4 + length demo_tbs) False demo_signature 0) (fst demo_cert_run) (\<lambda>s c'.
        let cert = signed_der P384Sha384 demo_tbs s
        in if 20 + length cert \<le> length demo_buffer
           then demo_cert_run = (Ok (of_nat (length cert)), (c', splice demo_buffer 20 cert))
           else fst demo_cert_run = Err (InternalError CertSizeOverflow)))"
proof -
  note run = certificate_of_state [OF demo_cert_inputs demo_issuer_small demo_inputs_wf(4,5) demo_buffer_small,
      where p = P384Sha384 and crit = True and base = 20 and cb = demo_sign_cb and sig = demo_signature and c = 0,
      folded demo_tbs_def demo_cert_run_def]
  show ?thesis by (rule conjI [OF iffD2 [OF conjunct1 [OF run] demo_tree_adds_up] conjunct2 [OF run]])
qed

text \<open>
  C29. The CSR of a state with the invariant, for a node with its path to the root and a signer identifier of at
  most 1000 bytes: the derived key signs exactly the bytes of the CertificationRequestInfo, then the alias key signs
  exactly the finished CSR, and the CMS message around that CSR is in the buffer, with nothing else changed. An
  error of either signature is passed on, and a message that does not fit gives an overflow error; where
  even the bytes to sign do not fit, nothing is signed. The attributes are written with the lengths counted
  beforehand and are DER if and only if the SVNs on the path add up to what is counted (\<open>svns_add_up\<close>). A
  signer that is named by its key identifier is written as the code writes it, with the whole OCTET STRING
  inside the tag [0], although the comment in the code calls the tag IMPLICIT.
\<close>

theorem csr_of_state:
  fixes c :: 'c and cb :: "'c sign_cb" and p :: DpeProfile and crit :: bool and sig :: Signature
    and base :: nat
  assumes "cert_inputs st is md name pk" "length (signer_identifier_der sid) \<le> 1000"
    and "length buf \<le> USIZE_MAX"
  defines "cri \<equiv> request_info_der p crit pk name md (path_contexts st is)"
  defines "run \<equiv> generate_cert_or_csr (CsrArgs sid) p crit name pk md cb base sig (c, buf)"
  defines "n \<equiv> base + length (cms_head p sid)"
  shows "(attributes_written p crit md (path_contexts st is) = attributes_der p crit md (path_contexts st is) \<longleftrightarrow>
      svns_add_up st is) \<and>
    (if length buf < n + 50 + length cri
     then fst run = Err (InternalError CertSizeOverflow) \<and> fst (snd run) = c
     else \<exists>rd a. rd a (a + length cri) = Ok cri \<and>
      answered (cb rd a (a + length cri) True sig c) (fst run) (\<lambda>s c1.
        let csr = signed_der p cri s
        in if length buf < n + 46 + length csr then fst run = Err (InternalError CertSizeOverflow)
           else \<exists>rd a. rd a (a + length csr) = Ok csr \<and>
             answered (cb rd a (a + length csr) False (signature_zeroize s) c1) (fst run) (\<lambda>s2 c2.
               let cms = cms_der p sid csr s2
               in if base + length cms \<le> length buf
                  then run = (Ok (of_nat (length cms)), (c2, splice buf base cms))
                  else fst run = Err (InternalError CertSizeOverflow))))"
  unfolding cri_def run_def n_def
  by (intro conjI written_of_state(2) [OF assms(1)] generate_csr [OF assms(1-3)])

lemma csr_of_state_witness:
  "attributes_written P384Sha384 True demo_md (path_contexts demo_tree [1, 0]) =
      attributes_der P384Sha384 True demo_md (path_contexts demo_tree [1, 0]) \<and>
    (if length demo_buffer < 20 + length (cms_head P384Sha384 demo_sid) + 50 + length demo_cri
    then fst demo_csr_run = Err (InternalError CertSizeOverflow) \<and> fst (snd demo_csr_run) = 0
    else \<exists>rd a. rd a (a + length demo_cri) = Ok demo_cri \<and>
      answered (demo_sign_cb rd a (a + length demo_cri) True demo_signature 0) (fst demo_csr_run) (\<lambda>s c1.
        let csr = signed_der P384Sha384 demo_cri s
        in if length demo_buffer < 20 + length (cms_head P384Sha384 demo_sid) + 46 + length csr
           then fst demo_csr_run = Err (InternalError CertSizeOverflow)
           else \<exists>rd a. rd a (a + length csr) = Ok csr \<and>
             answered (demo_sign_cb rd a (a + length csr) False (signature_zeroize s) c1) (fst demo_csr_run)
               (\<lambda>s2 c2. let cms = cms_der P384Sha384 demo_sid csr s2
                in if 20 + length cms \<le> length demo_buffer
                   then demo_csr_run = (Ok (of_nat (length cms)), (c2, splice demo_buffer 20 cms))
                   else fst demo_csr_run = Err (InternalError CertSizeOverflow))))"
proof -
  have "length (signer_identifier_der demo_sid) \<le> 1000"
    by (simp add: demo_sid_def signer_identifier_der_def der_def get_size_width_def)
  note run = csr_of_state [OF demo_cert_inputs this demo_buffer_small, where p = P384Sha384 and crit = True and base = 20
      and cb = demo_sign_cb and sig = demo_signature and c = 0, folded demo_csr_run_def demo_cri_def]
  show ?thesis by (rule conjI [OF iffD2 [OF conjunct1 [OF run] demo_tree_adds_up] conjunct2 [OF run]])
qed

text \<open>
  C30. A run of the encoder that returns a certificate, in a state with the invariant, with a platform whose issuer
  name is one DER element and a callback whose signatures have the lengths of their types: the callback has signed
  the TBSCertificate, nothing outside the counted range of the buffer has changed, and a DER reader finds in
  that range a SEQUENCE of the TBSCertificate, the algorithm of the profile and that signature, whatever the
  SVNs are. Where the SVNs on the path add up to what the code counts (\<open>svns_add_up\<close>), the reader finds in the
  TBSCertificate the version, the serial number, the algorithm, the issuer, the validity, the
  subject, the key and the extensions that were asked for, and nothing besides. By C28 the extensions are
  not DER otherwise.
\<close>

theorem certificate_reads_back:
  fixes c c' :: 'c and cb :: "'c sign_cb"
  assumes "cert_inputs st is md name pk" "length (der 0x30 issuer) \<le> MAX_ISSUER_NAME_SIZE"
    and "length (not_before v) \<le> MAX_VALIDITY_SIZE" "length (not_after v) \<le> MAX_VALIDITY_SIZE"
    and "length buf \<le> USIZE_MAX"
    and "\<And>rd a z f s c c'. cb rd a z f sig c = (Ok s, c') \<Longrightarrow> signature_wf s"
    and "generate_cert_or_csr (CertArgs (der 0x30 issuer) v) p crit name pk md cb base sig (c, buf) =
      (Ok n, (c', buf'))"
  defines "tbs \<equiv> cert_tbs st is p crit (der 0x30 issuer) name pk md v"
  shows "\<exists>rd s. rd 4 (4 + length tbs) = Ok tbs \<and> cb rd 4 (4 + length tbs) False sig c = (Ok s, c') \<and>
    length buf' = length buf \<and> take base buf' = take base buf \<and>
    drop (base + unat n) buf' = drop (base + unat n) buf \<and>
    certificate_parts p tbs s (take (unat n) (drop base buf')) \<and>
    (svns_add_up st is \<longrightarrow>
      certificate_reads p (tbs_items p crit (take 20 (ds_bytes (name_serial name))) issuer name pk md v
        (path_contexts st is)) s (take (unat n) (drop base buf')))"
  unfolding tbs_def by (rule certificate_run_reads [OF assms(1-7)])

lemma certificate_reads_back_witness:
  "\<exists>rd s. rd 4 (4 + length demo_tbs) = Ok demo_tbs \<and>
    demo_sign_cb rd 4 (4 + length demo_tbs) False demo_signature 0 = (Ok s, fst (snd demo_cert_run)) \<and>
    length (snd (snd demo_cert_run)) = length demo_buffer \<and>
    take 20 (snd (snd demo_cert_run)) = take 20 demo_buffer \<and>
    drop (20 + unat demo_cert_size) (snd (snd demo_cert_run)) = drop (20 + unat demo_cert_size) demo_buffer \<and>
    certificate_parts P384Sha384 demo_tbs s (take (unat demo_cert_size) (drop 20 (snd (snd demo_cert_run)))) \<and>
    certificate_reads P384Sha384 (tbs_items P384Sha384 True (take 20 (ds_bytes (name_serial demo_name))) [4]
      demo_name demo_key demo_md demo_validity (path_contexts demo_tree [1, 0])) s
      (take (unat demo_cert_size) (drop 20 (snd (snd demo_cert_run))))"
proof -
  have added: "\<exists>rd s. A rd s \<and> C s" if "\<exists>rd s. A rd s \<and> (V \<longrightarrow> C s)" V
    for A and C :: "Signature \<Rightarrow> bool" and V using that by blast
  show ?thesis
    unfolding demo_tbs_def conj_assoc [symmetric]
    by (rule added [OF certificate_reads_back [OF demo_cert_inputs demo_issuer_small demo_inputs_wf(4,5) demo_buffer_small _
          trans [OF demo_cert_run_def [symmetric] demo_cert_run_Ok], unfolded conj_assoc [symmetric]] demo_tree_adds_up])
      (auto simp: demo_sign_cb_def)
qed

text \<open>
  C31. What the MultiTcbInfo extension says determines the measurements, whatever the SVNs are: where two runs of
  its encoder, for two paths in states with the invariant, write the same bytes, the two paths have the same SVNs,
  current measurements, localities and TCI types, context by context, both extensions or none contain the
  cumulative measurements, and if they do, these are the same too.
\<close>

theorem multi_tcb_info_commits:
  assumes "cert_inputs s is md name pk" "encode_multi_tcb_info p crit md w = (Ok n, u)" "ready 0 w" "fits w n"
    and "cert_inputs t js md' name' pk'" "encode_multi_tcb_info p crit md' w' = (Ok n', u')" "ready 0 w'" "fits w' n'"
    and "offset_read_range slice_read_range (cw_base w) (cw_offset w) (cw_offset w + n) (cw_certificate u) =
      offset_read_range slice_read_range (cw_base w') (cw_offset w') (cw_offset w' + n') (cw_certificate u')"
  shows "md_supports_recursive md = md_supports_recursive md' \<and>
    map (\<lambda>i. node_measured (contexts s ! i)) is = map (\<lambda>j. node_measured (contexts t ! j)) js \<and>
    (if md_supports_recursive md
     then map (\<lambda>i. tci_cumulative (tci (contexts s ! i))) is = map (\<lambda>j. tci_cumulative (tci (contexts t ! j))) js
     else True)"
  using multi_tcb_info_runs [OF assms] by simp

text \<open>Children with the SVNs 7 and 128 under the same root are told apart: the latter needs a longer INTEGER.\<close>

lemma multi_tcb_info_commits_witness:
  "\<exists>n u n' u'. encode_multi_tcb_info P384Sha384 True (demo_md_with 7) demo_writer = (Ok n, u) \<and>
    encode_multi_tcb_info P384Sha384 True (demo_md_with 128) demo_writer = (Ok n', u') \<and>
    offset_read_range slice_read_range 20 0 n (cw_certificate u) \<noteq>
    offset_read_range slice_read_range 20 0 n' (cw_certificate u')"
proof -
  obtain n u n' u' where u: "encode_multi_tcb_info P384Sha384 True (demo_md_with 7) demo_writer = (Ok n, u)"
    "fits demo_writer n" "encode_multi_tcb_info P384Sha384 True (demo_md_with 128) demo_writer = (Ok n', u')"
    "fits demo_writer n'" using demo_multi_run [of 7] demo_multi_run [of 128] by blast
  have "tci_svn (tci (contexts (demo_tree_with 7) ! 1)) \<noteq> tci_svn (tci (contexts (demo_tree_with 128) ! 1))"
    by (simp add: demo_tree_contexts demo_child_with_def)
  with multi_tcb_info_commits [OF demo_cert_inputs_with u(1) ready_less [OF demo_writer_ready(1)] u(2)
      demo_cert_inputs_with u(3) ready_less [OF demo_writer_ready(1)] u(4)] u
  show ?thesis by (intro exI conjI) (auto simp: node_measured_def)
qed

text \<open>
  C32. An INTEGER that the encoder has written reads back: one element with the tag INTEGER whose content
  has the value of the number, is not negative, and is as short as it can be.
\<close>

theorem encoded_integer_reads_back:
  assumes "ready 0 w" "encode_integer i True w = (Ok n, w')" "fits w n"
  shows "\<exists>bs c. offset_read_range slice_read_range (cw_base w) (cw_offset w) (cw_offset w + n)
      (cw_certificate w') = Ok bs \<and> read_tlv bs = Some (0x02, c, []) \<and> octets_val c = unat i \<and>
    c \<noteq> [] \<and> unat (hd c) < 128 \<and> (\<nexists>b r. c = 0 # b # r \<and> unat b < 128)"
  by (rule integer_written [OF assms])

lemma encoded_integer_reads_back_witness:
  "\<exists>bs c. offset_read_range slice_read_range 20 0 4
      (cw_certificate (snd (encode_integer 200 True demo_writer))) = Ok bs \<and>
    read_tlv bs = Some (0x02, c, []) \<and> octets_val c = 200 \<and>
    c \<noteq> [] \<and> unat (hd c) < 128 \<and> (\<nexists>b r. c = 0 # b # r \<and> unat b < 128)"
  using encoded_integer_reads_back [OF ready_less [OF demo_writer_ready(1)] demo_integer_run]
  by (simp add: demo_writer_ready(2))

text \<open>
  C33. A length field that is written last: the encoder goes back to the gap that was reserved for it,
  writes the DER length there and nowhere else, and continues where it was.
\<close>

theorem length_written_back:
  assumes "length (cw_certificate w) \<le> USIZE_MAX" "length bts \<le> MAX_BACKTRACKS" "cw_saved_offset w = None"
    and "cw_backtracks w = bts @ [(a, a + get_size_width n)]"
    and "cw_base w + a + get_size_width n \<le> length (cw_certificate w)"
  shows "backtrack_and_encode_size [n] w =
    (Ok (get_size_width n),
     w\<lparr>cw_certificate := splice (cw_certificate w) (cw_base w + a) (der_len n), cw_backtracks := bts\<rparr>)"
  by (rule backtrack_exact [OF assms])

lemma length_written_back_witness:
  "backtrack_and_encode_size [300] (demo_writer\<lparr>cw_offset := 310, cw_backtracks := [(1, 4)]\<rparr>) =
    (Ok (get_size_width 300),
     demo_writer\<lparr>cw_offset := 310, cw_certificate := splice demo_buffer 21 [0x82, 1, 44], cw_backtracks := []\<rparr>)"
proof -
  have "be_octets (Suc (Suc 0)) 300 = [1, 44]" by simp
  then have "der_len 300 = [0x82, 1, 44]" by (simp add: der_len_def len_octets_def flip: numeral_2_eq_2)
  moreover have "get_size_width 300 = 3" by (simp add: get_size_width_def)
  ultimately show ?thesis
    using length_written_back [of "demo_writer\<lparr>cw_offset := 310, cw_backtracks := [(1, 4)]\<rparr>" "[]" 1 300]
      demo_buffer_small
    by (simp add: demo_writer_def CertWriter_new_def demo_buffer_length)
qed

text \<open>
  C34. The size that the code computes beforehand for the extensions of a certificate or a CSR, in a state with
  the invariant, and the number of bytes that the encoder then writes for them differ by exactly what the
  INTEGERs of the SVNs on the path differ from as many INTEGERs of the length of that of the first context of the
  array. So the size is exact if and only if the SVNs add up to it (\<open>svns_add_up\<close>).
\<close>

theorem extension_sizes_exact:
  assumes "cert_inputs st is md name pk" "ready 0 w" "encode_extensions p crit md is_x509 w = (Ok n, w')"
  shows "\<exists>size. get_extensions_size p crit md True is_x509 is_x509 = Ok size \<and>
    n + length is * svn_len (contexts st ! 0) = size + (\<Sum>i\<leftarrow>is. svn_len (contexts st ! i)) \<and>
    (size = n \<longleftrightarrow> svns_add_up st is)"
  using extensions_size_exact [OF assms] by (auto simp: svns_add_up_def)

text \<open>The size is exact for a child with the SVN 7; one with the SVN 128 takes a byte more.\<close>

lemma extension_sizes_exact_witness:
  "(\<exists>n w'. encode_extensions P384Sha384 True (demo_md_with 7) True demo_writer = (Ok n, w') \<and>
      get_extensions_size P384Sha384 True (demo_md_with 7) True True True = Ok n) \<and>
   (\<exists>n w'. encode_extensions P384Sha384 True (demo_md_with 128) True demo_writer = (Ok (Suc n), w') \<and>
      get_extensions_size P384Sha384 True (demo_md_with 128) True True True = Ok n)"
proof -
  have run: "\<exists>n w' size. encode_extensions P384Sha384 True (demo_md_with svn) True demo_writer = (Ok n, w') \<and>
      get_extensions_size P384Sha384 True (demo_md_with svn) True True True = Ok size \<and>
      n + 1 = size + length (int_content (u64_to_be_bytes (ucast svn)))" for svn
  proof -
    obtain n w' where r: "encode_extensions P384Sha384 True (demo_md_with svn) True demo_writer = (Ok n, w')"
      using demo_extensions_run by blast
    from extension_sizes_exact [OF demo_cert_inputs_with ready_less [OF demo_writer_ready(1), of 0, simplified] r] r
    show ?thesis by (auto simp: demo_svn_len)
  qed
  from run [of 7] run [of 128] show ?thesis by (auto simp: svn_lengths)
qed

text \<open>
  C35. The bytes written for the MultiTcbInfo extension, in a state with the invariant, are the DER of an extension
  with that identifier and criticality, of any content, if and only if the INTEGERs of the SVNs on the path
  take together as many octets as the code counts (\<open>svns_add_up\<close>). In particular one SVN that needs a longer
  INTEGER than that of the first context of the array breaks the extension, unless a shorter one on the
  same path makes up for it.
\<close>

theorem extension_well_formed_iff:
  assumes "state_inv st" "up_path (contexts st) is" "state_nodes st (hd is) md"
  shows "\<exists>bs. writes d (encode_multi_tcb_info p crit md) bs \<and>
    ((\<exists>content. bs = ext_der MULTI_TCBINFO_OID (crit_byte crit) content) \<longleftrightarrow> svns_add_up st is)"
  using multi_written_state [OF assms] by blast

text \<open>One DeriveContext with the SVN 128 after the initialization is enough to break it.\<close>

lemma extension_well_formed_iff_witness:
  "reachable default_build demo_support 0 (demo_tree_with 128) \<and>
    (\<exists>bs. writes 0 (encode_multi_tcb_info P384Sha384 False (demo_md_with 128)) bs \<and>
      (\<nexists>content. bs = ext_der MULTI_TCBINFO_OID None content))"
  using extension_well_formed_iff [OF demo_states_inv(2) demo_path demo_nodes, where svn1 = 128 and d = 0 and p = P384Sha384 and crit = False]
  unfolding demo_svns_add_up by (simp add: svn_lengths crit_byte_def demo_reachable)

text \<open>
  C36. The handlers refine the step relation of the state: whatever a request is and whatever comes of it,
  the state moves along steps that each initialize, rename, extend, retire, destroy or derive a context.
\<close>

theorem requests_refine_transitions:
  assumes "execute_serialized_command gen d p al loc bs w = (r, w')"
  shows "transitions (dstate w) (dstate w')"
  by (rule execute_serialized_command_transitions [OF assms])

lemma requests_refine_transitions_witness:
  "transitions demo_root (dstate (snd (execute_serialized_command demo_gen demo_deps P384Sha384 True 0
    [1, 2, 3] (demo_world demo_root))))"
  using requests_refine_transitions [OF prod.collapse [symmetric], of "demo_world demo_root" demo_gen demo_deps
    P384Sha384 True 0 "[1, 2, 3]"] by simp

subsection \<open>The whole instance\<close>

text \<open>
  C37. CertifyKey from end to end, on the software crypto and the test platform with an issuer name that is one DER
  element, in any state with the invariant: when the command returns a certificate, the handle named a context, and
  with the path from it to the root, the key in the response is the key derived from the digest of the
  measurements of that path and the label of the command; the alias key has signed exactly the bytes of
  the TBSCertificate with the key, the names made from it and those measurements; the response holds its header,
  with the key and the new handle, and behind it a certificate that a DER reader splits into the TBSCertificate,
  the algorithm and that signature; and the DPE state has only the new handle changed. Where the SVNs on the
  path add up to what the code counts (\<open>svns_add_up\<close>), the reader finds all of this in the
  TBSCertificate too; by C28 the extensions are not DER otherwise.
\<close>

theorem certify_key_certifies_path:
  fixes x :: "'r algs" and cfg :: rc_config and w :: "('r rust_crypto, unit) world"
  assumes "certify_key generate_cert_or_csr (rust_default x cfg art pf) p command loc w = (Ok n, w')"
    and "ck_format (certify_cmd_of command) = FORMAT_X509"
    and "length (ck_label (certify_cmd_of command)) \<le> MAX_UEID_SIZE"
    and "state_inv (dstate w)"
    and "addressable (art_cert_chain art pf)" "length (outbuf w) \<le> USIZE_MAX"
    and "art_issuer_name art pf = der 0x30 issuer" "length (art_issuer_name art pf) \<le> MAX_ISSUER_NAME_SIZE"
  defines "cmd \<equiv> certify_cmd_of command" and "H \<equiv> rc_digest x cfg"
  defines "args \<equiv> certify_args p cmd loc (dstate w)"
  defines "md \<equiv> leaf_measurements H (take MAX_KEY_IDENTIFIER_SIZE (art_key_identifier art pf)) None args (dstate w)"
  defines "crit \<equiv> flags_contains (dpe_flags (dstate w)) MARK_DICE_EXTENSIONS_CRITICAL"
  shows "\<exists>is pk s h sz.
    up_path (contexts (dstate w)) is \<and> get_active_context_pos (dstate w) (ck_handle cmd) loc = Ok (hd is) \<and>
    (\<forall>c. fst (crypto_derive_pub_key (rust_crypto_ops x cfg)
       (H (measurement_input p VENDOR_ID VENDOR_SKU (art_cert_chain art pf) (dstate w) is))
       (ascii ''DPE'') (ck_label cmd) (key_context p) (pub_key_zeroed p) c) = Ok pk) \<and>
    (\<exists>rd sig c c'. let tbs = cert_tbs (dstate w) is p crit (der 0x30 issuer) (leaf_name H pk) pk (md is pk)
         default_validity in
       rd 4 (4 + length tbs) = Ok tbs \<and>
       op_sign_with_alias (rust_crypto_ops x cfg) (SignResponseBuffer rd 4 (4 + length tbs)) sig c = (Ok s, c') \<and>
       certificate_parts p tbs s (take (unat sz) (drop (certify_hdr_size command) (outbuf w')))) \<and>
    n = certify_hdr_size command + unat sz \<and>
    take (certify_hdr_size command) (outbuf w') = certify_header p pk h sz \<and>
    (svns_add_up (dstate w) is \<longrightarrow>
      certificate_reads p (tbs_items p crit (take 20 (ds_bytes (name_serial (leaf_name H pk)))) issuer (leaf_name H pk) pk
       (md is pk) default_validity (path_contexts (dstate w) is)) s
       (take (unat sz) (drop (certify_hdr_size command) (outbuf w')))) \<and>
    dstate w' = put_context (hd is) ((contexts (dstate w) ! hd is)\<lparr>handle := h\<rparr>) (dstate w)"
proof -
  have crit: "ca_dice_extensions_are_critical args = crit" by (simp add: args_def certify_args_def crit_def)
  obtain "is" pk c0 c1 rd s sig c2 c3 tbs h sz where
    path: "up_path (contexts (dstate w)) is" "get_active_context_pos (dstate w) (ck_handle cmd) loc = Ok (hd is)" and
    key: "crypto_derive_pub_key (rust_crypto_ops x cfg)
       (H (measurement_input p VENDOR_ID VENDOR_SKU (art_cert_chain art pf) (dstate w) is))
       (ascii ''DPE'') (ck_label cmd) (key_context p) (pub_key_zeroed p) c0 = (Ok pk, c1)" and
    tbs: "tbs = cert_tbs (dstate w) is p crit (der 0x30 issuer) (leaf_name H pk) pk (md is pk) default_validity"
      "rd 4 (4 + length tbs) = Ok tbs"
      "op_sign_with_alias (rust_crypto_ops x cfg) (SignResponseBuffer rd 4 (4 + length tbs)) sig c2 = (Ok s, c3)" and
    rest: "n = certify_hdr_size command + unat sz"
      "take (certify_hdr_size command) (outbuf w') = certify_header p pk h sz"
      "certificate_parts p tbs s (take (unat sz) (drop (certify_hdr_size command) (outbuf w')))"
      "svns_add_up (dstate w) is \<longrightarrow>
       certificate_reads p (tbs_items p crit (take 20 (ds_bytes (name_serial (leaf_name H pk)))) issuer (leaf_name H pk) pk
       (md is pk) default_validity (path_contexts (dstate w) is)) s
       (take (unat sz) (drop (certify_hdr_size command) (outbuf w')))"
      "dstate w' = put_context (hd is) ((contexts (dstate w) ! hd is)\<lparr>handle := h\<rparr>) (dstate w)"
    by (rule rust_certifying.certify_key_certifies [OF assms(1-3,5,4,6-8), folded cmd_def H_def, folded args_def,
          unfolded crit assms(7) cops_rust_default, folded md_def])
  from derived_key_state_free [OF key] tbs path rest show ?thesis
    by (intro exI [of _ "is"] exI [of _ pk] exI [of _ s] exI [of _ h] exI [of _ sz] conjI allI) (auto simp: Let_def)
qed

lemma certify_key_certifies_path_witness:
  "\<exists>n w' is pk. certify_key generate_cert_or_csr cert_deps P384Sha384 cert_command 0 cert_world = (Ok n, w') \<and>
    up_path (contexts demo_tree) is \<and> get_active_context_pos demo_tree handle_default 0 = Ok (hd is) \<and>
    (\<forall>c. fst (crypto_derive_pub_key (rust_crypto_ops demo_algs new_ecc384)
       (cert_hash (measurement_input P384Sha384 VENDOR_ID VENDOR_SKU (art_cert_chain cert_art P384) demo_tree is))
       (ascii ''DPE'') (replicate 48 7) (key_context P384Sha384) (pub_key_zeroed P384Sha384) c) = Ok pk) \<and>
    (\<exists>h sz. take 128 (outbuf w') = certify_header P384Sha384 pk h sz)"
proof -
  obtain n w' where run: "certify_key generate_cert_or_csr (rust_default demo_algs new_ecc384 cert_art P384) P384Sha384
      cert_command 0 cert_world = (Ok n, w')"
    using cert_command_runs unfolding cert_deps_def by blast
  have hyps: "ck_format (certify_cmd_of cert_command) = FORMAT_X509"
    "length (ck_label (certify_cmd_of cert_command)) \<le> MAX_UEID_SIZE" "state_inv (dstate cert_world)"
    "length (outbuf cert_world) \<le> USIZE_MAX" "length (art_issuer_name cert_art P384) \<le> MAX_ISSUER_NAME_SIZE"
    unfolding cert_world_simps cert_issuer(1)
    by (simp add: cert_command_def, simp add: cert_command_def,
        rule demo_states_inv(2), rule demo_buffer_small, rule demo_issuer_small)
  have cmd: "ck_handle (certify_cmd_of cert_command) = handle_default"
    "ck_label (certify_cmd_of cert_command) = replicate 48 7" "certify_hdr_size cert_command = 128"
    by (simp_all add: cert_command_def)
  from certify_key_certifies_path [OF run hyps(1-3) cert_issuer(2) hyps(4) cert_issuer(1) hyps(5),
      unfolded cmd cert_world_simps]
  obtain "is" pk h sz where "up_path (contexts demo_tree) is" "get_active_context_pos demo_tree handle_default 0 = Ok (hd is)"
    "\<forall>c. fst (crypto_derive_pub_key (rust_crypto_ops demo_algs new_ecc384)
       (cert_hash (measurement_input P384Sha384 VENDOR_ID VENDOR_SKU (art_cert_chain cert_art P384) demo_tree is))
       (ascii ''DPE'') (replicate 48 7) (key_context P384Sha384) (pub_key_zeroed P384Sha384) c) = Ok pk"
    "take 128 (outbuf w') = certify_header P384Sha384 pk h sz"
    by (elim exE conjE) (rule that)
  with run show ?thesis unfolding cert_deps_def by (intro exI conjI)
qed

text \<open>
  C38. Every request gets an answer: with the software crypto, the test platform and the encoder of the code,
  a service of any sequence of byte strings, from any state reached before, answers them all, one by one, with
  a response or an error, and never panics or runs on.
\<close>

theorem every_request_is_answered:
  assumes "reachable b supp flags (dstate w)" "addressable (art_cert_chain art pf)"
    and "serve generate_cert_or_csr (rust_default x cfg art pf) p qs w = (rs, w')"
  shows "length rs = length qs \<and> list_all settled rs"
  by (rule rust_default_calm.service_answers [OF assms(2) calm_generate_cert_or_csr reachable_inv [OF assms(1)] assms(3)])

lemma every_request_is_answered_witness:
  "\<exists>rs w'. serve generate_cert_or_csr cert_deps P384Sha384 demo_requests (demo_world demo_tree) = (rs, w') \<and>
    length rs = 3 \<and> list_all settled rs"
proof -
  obtain rs w' where run: "serve generate_cert_or_csr (rust_default demo_algs new_ecc384 cert_art P384) P384Sha384 demo_requests
      (demo_world demo_tree) = (rs, w')" by fastforce
  have "reachable default_build demo_support 0 (dstate (demo_world demo_tree))" by (simp add: demo_reachable)
  from every_request_is_answered [OF this cert_issuer(2) run] run show ?thesis
    by (simp add: cert_deps_def demo_requests_def)
qed

text \<open>
  C39. The firmware of the repository's panic check, in the build with every profile: it is built in order to
  find any panic in the code it links, with a crypto and a platform that implement nothing. On these, with
  the encoder of the code, an instance never panics or runs on: not when it starts, on whatever state and support
  flags, and not on any sequence of byte strings sent to it in a state reached before. And its \<open>main\<close>, which is
  there when a profile is selected, panics exactly when the feature is on that makes it panic, whatever the
  one request is that it sends.
\<close>

theorem firmware_panics_on_purpose_only:
  assumes "reachable b supp flags (dstate w)"
    and "serve generate_cert_or_csr (dummy_deps pf) p qs w = (rs, w')"
  shows "length rs = length qs \<and> list_all settled rs \<and>
    settled (fst (DpeInstance_new (dummy_deps pf) p v)) \<and>
    settled (fst (DpeInstance_new_auto_init (dummy_deps pf) p ty m v)) \<and>
    main_with generate_cert_or_csr al b' should_fail (pf, p) request = (if should_fail then Panic else Ok ()) \<and>
    firmware_main generate_cert_or_csr al b' f =
      (if fw_p256 f \<or> fw_p384 f \<or> fw_ml_dsa f then Some (if fw_should_fail f then Panic else Ok ()) else None)"
  using dummy_env_calm.service_answers [OF dummy_chain calm_generate_cert_or_csr reachable_inv [OF assms(1)] assms(2)]
    dummy_starts [where pf = pf and p = p and w = v] main_with_answers [OF calm_generate_cert_or_csr]
  by (simp add: firmware_main_def firmware_profiles_def)

lemma firmware_panics_on_purpose_only_witness:
  "\<exists>rs w'. serve generate_cert_or_csr (dummy_deps P384) P384Sha384 demo_requests firmware_demo = (rs, w') \<and>
    length rs = 3 \<and> list_all settled rs"
proof -
  obtain rs w' where run: "serve generate_cert_or_csr (dummy_deps P384) P384Sha384 demo_requests firmware_demo = (rs, w')"
    by fastforce
  have "reachable default_build demo_support 0 (dstate firmware_demo)" by (simp add: firmware_demo_def demo_reachable)
  from firmware_panics_on_purpose_only [OF this run] run show ?thesis by (simp add: demo_requests_def)
qed



end
